(* ===== verification/Prelude.thy ===== *)
theory Prelude imports Main "HOL-Library.Multiset"
begin

text \<open>
  Shared vocabulary of the development: the type synonyms that name the program's basic values,
  the Python exceptions of every layer as one datatype, the effectful computations that the
  services and repositories are modelled by (explicit state passing, an exception or a value as
  result, effects kept when an exception is raised), and the generic list facts that several
  components use.

  A computation keeps the state it reached when it raises, because the database rows a method has
  already written stay written when a later statement raises. \<open>catching\<close> is the code's
  \<open>try ... except SomeError as exc: raise translate(exc) from exc\<close>.
\<close>

section \<open>Basic values\<close>

type_synonym uuid = nat

text \<open>Instants are whole microseconds in UTC, the resolution of Python's \<open>datetime\<close>.\<close>

type_synonym timestamp = int

datatype ident = ById uuid | ByName string

section \<open>Exceptions\<close>

text \<open>
  One constructor per exception class the modelled code raises, grouped by the module that defines
  it. The service-layer classes of \<open>app/services/exceptions.py\<close> keep the exception they
  translate, which is what their message and details are made from.
\<close>

datatype db_error =
    DatabaseConnectionError
  | RepositoryError string string
  | RecordNotFoundError string uuid
  | ConstraintViolationError string string
  | ConcurrentUpdateError string uuid int
  | InvalidQueryError string

datatype engine_error =
    NoActiveDefinitionError string
  | MultipleActiveDefinitionsError string "uuid list"
  | NonSequentialStageOrderError int int
  | StageNotFoundInDefinitionError int
  | UnknownAssigneeError uuid
  | DefinitionAlreadyActiveError uuid
  | MismatchedRequestTypeError string string
  | DefinitionEditNotAllowedError uuid
  | InvalidStateTransitionError string string string

datatype model_error =
    PydanticValidationError string
  | InvalidWorkflowDefinitionError string
  | InvalidStageConfigurationError string
  | EmptyUpdatePayloadError

datatype auth_error =
    SessionExpiredError
  | AuthPermissionDeniedError string string
  | RoleNotPermittedError string "string list"
  | OwnershipRequiredError string
  | MissingCredentialsError
  | MalformedAuthorizationHeaderError string
  | InvalidTokenError string
  | TokenExpiredError timestamp
  | CompanyAccessRevokedError string
  | AccountAccessRevokedError string
  | SessionNotFoundError
  | CredentialValidationError string

datatype client_error =
    TransportError
  | APIError string string
  | RedisError

datatype py_error =
    IndexError
  | ValueError string
  | TypeError string
  | AssertionError
  | KeyError
  | InputValidationError string

datatype raised =
    Db db_error
  | Engine engine_error
  | Model model_error
  | Auth auth_error
  | Client client_error
  | Py py_error
  | File string
  | Storage string
  | Analytics string
  | RetryExhausted nat raised
  | Message string

datatype service_error =
    EAHError raised
  | ValidationError raised
  | NotFoundError string ident
  | PermissionDeniedError raised
  | ConcurrencyError raised
  | WorkflowError raised
  | AssignmentError raised
  | ConfigurationError raised
  | StorageOperationError raised
  | InvitationConflictError string
  | SupabaseAdminOperationError raised
  | InvalidInvitationStateError uuid string string

datatype exn = Raised raised | Service service_error

section \<open>Effectful computations\<close>

type_synonym ('s, 'a) eff = "'s \<Rightarrow> (exn + 'a) \<times> 's"

definition return :: "'a \<Rightarrow> ('s, 'a) eff" where
  "return x s = (Inr x, s)"

definition throw :: "exn \<Rightarrow> ('s, 'a) eff" where
  "throw e s = (Inl e, s)"

definition and_then :: "('s, 'a) eff \<Rightarrow> ('a \<Rightarrow> ('s, 'b) eff) \<Rightarrow> ('s, 'b) eff" where
  "and_then m f s = (case m s of (Inl e, t) \<Rightarrow> (Inl e, t) | (Inr x, t) \<Rightarrow> f x t)"

definition handle :: "('s, 'a) eff \<Rightarrow> (exn \<Rightarrow> ('s, 'a) eff) \<Rightarrow> ('s, 'a) eff" where
  "handle m h s = (case m s of (Inl e, t) \<Rightarrow> h e t | (Inr x, t) \<Rightarrow> (Inr x, t))"

definition catching :: "(exn \<Rightarrow> bool) \<Rightarrow> (exn \<Rightarrow> exn) \<Rightarrow> ('s, 'a) eff \<Rightarrow> ('s, 'a) eff" where
  "catching p tr m = handle m (\<lambda>e. throw (if p e then tr e else e))"

definition pure :: "exn + 'a \<Rightarrow> ('s, 'a) eff" where
  "pure r s = (r, s)"

definition gets :: "('s \<Rightarrow> 'a) \<Rightarrow> ('s, 'a) eff" where
  "gets f s = (Inr (f s), s)"

definition modify :: "('s \<Rightarrow> 's) \<Rightarrow> ('s, unit) eff" where
  "modify f s = (Inr (), f s)"

definition guard_that :: "bool \<Rightarrow> exn \<Rightarrow> ('s, unit) eff" where
  "guard_that b e = (if b then return () else throw e)"

text \<open>A fallible value, for the pure layers: the sum type with its own sequencing.\<close>

type_synonym 'a fallible = "exn + 'a"

definition bind_result :: "'a fallible \<Rightarrow> ('a \<Rightarrow> 'b fallible) \<Rightarrow> 'b fallible" where
  "bind_result r f = (case r of Inl e \<Rightarrow> Inl e | Inr x \<Rightarrow> f x)"

fun map_result :: "('a \<Rightarrow> 'b fallible) \<Rightarrow> 'a list \<Rightarrow> 'b list fallible" where
  "map_result f [] = Inr []"
| "map_result f (x # xs) =
     bind_result (f x) (\<lambda>y. bind_result (map_result f xs) (\<lambda>ys. Inr (y # ys)))"

definition is_ok :: "'a fallible \<Rightarrow> bool" where
  "is_ok r = (case r of Inl _ \<Rightarrow> False | Inr _ \<Rightarrow> True)"

named_theorems eff_simps \<open>evaluation of effectful computations on a state\<close>

lemma return_apply [eff_simps]: "return x s = (Inr x, s)"
  by (simp add: return_def)

lemma throw_apply [eff_simps]: "throw e s = (Inl e, s)"
  by (simp add: throw_def)

lemma pure_apply [eff_simps]: "pure r s = (r, s)"
  by (simp add: pure_def)

lemma gets_apply [eff_simps]: "gets f s = (Inr (f s), s)"
  by (simp add: gets_def)

lemma modify_apply [eff_simps]: "modify f s = (Inr (), f s)"
  by (simp add: modify_def)

lemma guard_that_apply [eff_simps]: "guard_that b e s = (if b then (Inr (), s) else (Inl e, s))"
  by (simp add: guard_that_def eff_simps)

lemma and_then_Inr: "m s = (Inr x, t) \<Longrightarrow> and_then m f s = f x t"
  by (simp add: and_then_def)

lemma and_then_Inl: "m s = (Inl e, t) \<Longrightarrow> and_then m f s = (Inl e, t)"
  by (simp add: and_then_def)

lemma and_then_return [simp]: "and_then (return x) f = f x"
  by (simp add: and_then_def eff_simps fun_eq_iff)

lemma and_then_Pair [simp]:
  "and_then (Pair (Inr x)) f = f x" "and_then (Pair (Inl e)) f = Pair (Inl e)"
  by (simp_all add: and_then_def fun_eq_iff)

lemma and_then_throw [simp]: "and_then (throw e) f = throw e"
  by (simp add: and_then_def fun_eq_iff throw_def)

lemma and_then_eq_Inr:
  "and_then m f s = (Inr y, u) \<longleftrightarrow> (\<exists>x t. m s = (Inr x, t) \<and> f x t = (Inr y, u))"
  by (auto simp: and_then_def split: prod.splits sum.splits)

lemma and_then_assoc: "and_then (and_then m f) g = and_then m (\<lambda>x. and_then (f x) g)"
  by (auto simp: and_then_def fun_eq_iff split: prod.splits sum.splits)

lemma catching_apply:
  "catching p tr m s = (case m s of (Inl e, t) \<Rightarrow> (Inl (if p e then tr e else e), t) | (Inr x, t) \<Rightarrow> (Inr x, t))"
  by (auto simp: catching_def handle_def eff_simps split: prod.splits sum.splits)

lemma catching_Inr: "m s = (Inr x, t) \<Longrightarrow> catching p tr m s = (Inr x, t)"
  by (simp add: catching_apply)

lemma catching_Inl: "m s = (Inl e, t) \<Longrightarrow> catching p tr m s = (Inl (if p e then tr e else e), t)"
  by (simp add: catching_apply)

lemma catching_eq_Inr: "catching p tr m s = (Inr x, t) \<longleftrightarrow> m s = (Inr x, t)"
  by (auto simp: catching_apply split: prod.splits sum.splits)

section \<open>Preservation of a state predicate\<close>

text \<open>
  \<open>preserves P m\<close>: whether \<open>m\<close> returns or raises, it leaves \<open>P\<close> true. The rules follow the shape
  of a computation, so an invariant of a method is the invariant of its calls.
\<close>

definition preserves :: "('s \<Rightarrow> bool) \<Rightarrow> ('s, 'a) eff \<Rightarrow> bool" where
  "preserves P m \<longleftrightarrow> (\<forall>s. P s \<longrightarrow> P (snd (m s)))"

named_theorems pres \<open>preservation rules\<close>

lemma preservesI: "(\<And>s. P s \<Longrightarrow> P (snd (m s))) \<Longrightarrow> preserves P m"
  by (simp add: preserves_def)

lemma preservesD: "preserves P m \<Longrightarrow> P s \<Longrightarrow> P (snd (m s))"
  by (simp add: preserves_def)

lemma preserves_return [pres]: "preserves P (return x)"
  by (simp add: preserves_def eff_simps)

lemma preserves_throw [pres]: "preserves P (throw e)"
  by (simp add: preserves_def eff_simps)

lemma preserves_pure [pres]: "preserves P (pure r)"
  by (simp add: preserves_def eff_simps)

lemma preserves_gets [pres]: "preserves P (gets f)"
  by (simp add: preserves_def eff_simps)

lemma preserves_guard_that [pres]: "preserves P (guard_that b e)"
  by (simp add: preserves_def eff_simps)

lemma preserves_and_then [pres]:
  assumes "preserves P m" and "\<And>x. preserves P (f x)"
  shows "preserves P (and_then m f)"
proof (rule preservesI)
  fix s assume "P s"
  then have m: "P (snd (m s))" using assms(1) by (rule preservesD [rotated])
  show "P (snd (and_then m f s))"
  proof (cases "m s")
    case (Pair r t)
    with m assms(2) show ?thesis
      by (cases r) (simp_all add: and_then_def preserves_def)
  qed
qed

lemma preserves_handle [pres]:
  assumes "preserves P m" and "\<And>e. preserves P (h e)"
  shows "preserves P (handle m h)"
proof (rule preservesI)
  fix s assume "P s"
  then have m: "P (snd (m s))" using assms(1) by (rule preservesD [rotated])
  show "P (snd (handle m h s))"
  proof (cases "m s")
    case (Pair r t)
    with m assms(2) show ?thesis
      by (cases r) (simp_all add: handle_def preserves_def)
  qed
qed

lemma preserves_catching [pres]: "preserves P m \<Longrightarrow> preserves P (catching p tr m)"
  by (simp add: catching_def preserves_handle preserves_throw)

lemma preserves_if [pres]:
  "(b \<Longrightarrow> preserves P m) \<Longrightarrow> (\<not> b \<Longrightarrow> preserves P m') \<Longrightarrow> preserves P (if b then m else m')"
  by simp

lemma preserves_case_option [pres]:
  "preserves P m \<Longrightarrow> (\<And>x. preserves P (f x)) \<Longrightarrow> preserves P (case opt of None \<Rightarrow> m | Some x \<Rightarrow> f x)"
  by (simp split: option.splits)

lemma preserves_case_list [pres]:
  "preserves P m \<Longrightarrow> (\<And>x xs. preserves P (f x xs)) \<Longrightarrow>
   preserves P (case l of [] \<Rightarrow> m | x # xs \<Rightarrow> f x xs)"
  by (simp split: list.splits)

text \<open>The rules of the sequencing operators alone.\<close>

lemmas pres_flow = preserves_return preserves_throw preserves_pure preserves_gets preserves_guard_that
  preserves_and_then preserves_handle preserves_catching preserves_if preserves_case_option
  preserves_case_list

section \<open>Strings\<close>

text \<open>
  \<open>str.strip\<close> and \<open>str.lower\<close> on the ASCII range: the code points for which Python's
  \<open>isspace\<close> holds there.
\<close>

definition is_space :: "char \<Rightarrow> bool" where
  "is_space c = (let n = (of_char c :: nat) in (9 \<le> n \<and> n \<le> 13) \<or> (28 \<le> n \<and> n \<le> 32))"

definition strip :: "string \<Rightarrow> string" where
  "strip xs = rev (dropWhile is_space (rev (dropWhile is_space xs)))"

definition is_infix :: "string \<Rightarrow> string \<Rightarrow> bool" where
  "is_infix p xs = list_ex (\<lambda>i. take (length p) (drop i xs) = p) [0..<Suc (length xs)]"

definition lower_char :: "char \<Rightarrow> char" where
  "lower_char c = (let n = (of_char c :: nat) in if 65 \<le> n \<and> n \<le> 90 then char_of (n + 32) else c)"

definition lower :: "string \<Rightarrow> string" where
  "lower xs = map lower_char xs"

text \<open>SQL's \<open>ILIKE '%needle%'\<close> with the wildcards of the needle escaped.\<close>

definition ilike :: "string \<Rightarrow> string \<Rightarrow> bool" where
  "ilike needle xs = is_infix (lower needle) (lower xs)"

lemma strip_Nil [simp]: "strip [] = []"
  by (simp add: strip_def)

lemma dropWhile_hd_unchanged: "xs = [] \<or> \<not> P (hd xs) \<Longrightarrow> dropWhile P xs = xs"
  by (cases xs) auto

lemma strip_idem: "strip (strip xs) = strip xs"
proof -
  let ?ys = "dropWhile is_space xs"
  let ?zs = "dropWhile is_space (rev ?ys)"
  have "rev ?zs = [] \<or> \<not> is_space (hd (rev ?zs))"
  proof (cases "?zs = []")
    case False
    obtain us where us: "rev ?ys = us @ ?zs"
      by (metis takeWhile_dropWhile_id)
    with False have "hd (rev ?zs) = hd ?ys" "?ys \<noteq> []"
      by (metis hd_append2 rev_append rev_is_Nil_conv rev_rev_ident,
          metis us False Nil_is_append_conv rev.simps(1) append_is_Nil_conv)
    then show ?thesis using hd_dropWhile [of is_space xs] by simp
  qed simp
  then have 1: "dropWhile is_space (rev ?zs) = rev ?zs"
    by (rule dropWhile_hd_unchanged)
  have "?zs = [] \<or> \<not> is_space (hd ?zs)"
    using hd_dropWhile by blast
  then have "dropWhile is_space ?zs = ?zs"
    by (rule dropWhile_hd_unchanged)
  with 1 show ?thesis by (simp add: strip_def)
qed

section \<open>Lists\<close>

lemma find_Some_in_set: "List.find P xs = Some x \<Longrightarrow> x \<in> set xs \<and> P x"
  by (metis find_Some_iff nth_mem)

lemma find_None_iff_filter: "List.find P xs = None \<longleftrightarrow> filter P xs = []"
  by (induction xs) auto

lemma map_sort_key: "map f (sort_key f xs) = sort (map f xs)"
  by (rule sym, rule properties_for_sort) simp_all

lemma sort_key_upto_nth:
  assumes "map f ys = [1..int (length ys)]" and "i < length ys"
  shows "f (ys ! i) = int i + 1"
proof -
  have "f (ys ! i) = map f ys ! i" using assms(2) by simp
  also have "\<dots> = [1..int (length ys)] ! i" by (simp only: assms(1))
  also have "\<dots> = int i + 1" using assms(2) by (simp add: nth_upto)
  finally show ?thesis .
qed

lemma and_then_eq_Inl:
  "and_then m f s = (Inl e, t) \<longleftrightarrow> m s = (Inl e, t) \<or> (\<exists>x u. m s = (Inr x, u) \<and> f x u = (Inl e, t))"
  by (auto simp: and_then_def split: prod.splits sum.splits)

lemma and_then_step: "m s = (Inr x, u) \<Longrightarrow> and_then m f s = f x u"
  by (simp add: and_then_def)

lemma is_ok_run: "is_ok (fst p) \<Longrightarrow> \<exists>x t. p = (Inr x, t)"
  by (cases p) (auto simp: is_ok_def split: sum.splits)

lemma not_ok_run: "\<not> is_ok (fst p) \<Longrightarrow> \<exists>e t. p = (Inl e, t)"
  by (cases p) (auto simp: is_ok_def split: sum.splits)

lemma filter_put:
  "filter (\<lambda>y. g y = i) xs = [r] \<Longrightarrow> g r' = i \<Longrightarrow>
   filter (\<lambda>y. g y = i) (map (\<lambda>y. if g y = i then r' else y) xs) = [r']"
  by (induction xs) (auto split: if_splits simp: filter_empty_conv)

end
