(* ===== verification/Enums.thy ===== *)
theory Enums imports Prelude
begin

text \<open>
  The enumerations of \<open>app/models/enums.py\<close>. Each has its members in the source's order, the
  \<open>value\<close> that is sent to and read from the database, and the constructor call
  \<open>Cls(raw)\<close>, which returns the member with that value and raises \<open>ValueError\<close> when there is
  none. The round trips hold because the values of one enumeration are pairwise distinct.
\<close>

fun member_of_value :: "('a \<Rightarrow> string) \<Rightarrow> 'a list \<Rightarrow> string \<Rightarrow> 'a fallible" where
  "member_of_value val ms raw =
     (case List.find (\<lambda>m. val m = raw) ms of
        None \<Rightarrow> Inl (Raised (Py (ValueError raw)))
      | Some m \<Rightarrow> Inr m)"

lemma member_of_value_Inr:
  assumes "member_of_value val ms raw = Inr m"
  shows "m \<in> set ms" and "val m = raw"
  using assms find_Some_in_set [of "\<lambda>m. val m = raw" ms m]
  by (auto split: option.splits)

lemma member_of_value_val:
  assumes "m \<in> set ms" and "inj_on val (set ms)"
  shows "member_of_value val ms (val m) = Inr m"
proof (cases "List.find (\<lambda>x. val x = val m) ms")
  case None
  with assms(1) show ?thesis by (auto simp: find_None_iff)
next
  case (Some x)
  then have "x \<in> set ms" "val x = val m" by (auto dest: find_Some_in_set)
  with assms have "x = m" by (auto dest: inj_onD)
  with Some show ?thesis by simp
qed

lemma inj_on_distinct_map: "distinct (map f xs) \<Longrightarrow> inj_on f (set xs)"
  by (simp add: distinct_map)

section \<open>UserRole\<close>

datatype user_role =
    Employee
  | Approver
  | Admin

fun user_role_value :: "user_role \<Rightarrow> string" where
  "user_role_value Employee = ''employee''"
| "user_role_value Approver = ''approver''"
| "user_role_value Admin = ''admin''"

definition user_role_members :: "user_role list" where
  "user_role_members = [Employee, Approver, Admin]"

definition user_role_of_value :: "string \<Rightarrow> user_role fallible" where
  "user_role_of_value raw = member_of_value user_role_value user_role_members raw"

lemma user_role_in_members: "x \<in> set user_role_members"
  by (cases x) (simp_all add: user_role_members_def)

lemma user_role_roundtrip: "user_role_of_value (user_role_value x) = Inr x"
  unfolding user_role_of_value_def
  by (rule member_of_value_val [OF user_role_in_members inj_on_distinct_map])
    (simp add: user_role_members_def)

lemma user_role_of_value_Inr: "user_role_of_value raw = Inr x \<Longrightarrow> user_role_value x = raw"
  unfolding user_role_of_value_def by (rule member_of_value_Inr(2))

section \<open>RequestStatus\<close>

datatype request_status =
    ReqPending
  | ReqInReview
  | ReqApproved
  | ReqRejected
  | ReqCompleted

fun request_status_value :: "request_status \<Rightarrow> string" where
  "request_status_value ReqPending = ''pending''"
| "request_status_value ReqInReview = ''in_review''"
| "request_status_value ReqApproved = ''approved''"
| "request_status_value ReqRejected = ''rejected''"
| "request_status_value ReqCompleted = ''completed''"

definition request_status_members :: "request_status list" where
  "request_status_members = [ReqPending, ReqInReview, ReqApproved, ReqRejected, ReqCompleted]"

definition request_status_of_value :: "string \<Rightarrow> request_status fallible" where
  "request_status_of_value raw = member_of_value request_status_value request_status_members raw"

lemma request_status_in_members: "x \<in> set request_status_members"
  by (cases x) (simp_all add: request_status_members_def)

lemma request_status_roundtrip: "request_status_of_value (request_status_value x) = Inr x"
  unfolding request_status_of_value_def
  by (rule member_of_value_val [OF request_status_in_members inj_on_distinct_map])
    (simp add: request_status_members_def)

lemma request_status_of_value_Inr: "request_status_of_value raw = Inr x \<Longrightarrow> request_status_value x = raw"
  unfolding request_status_of_value_def by (rule member_of_value_Inr(2))

section \<open>StageStatus\<close>

datatype stage_status =
    StagePending
  | StageApproved
  | StageRejected
  | StageSkipped

fun stage_status_value :: "stage_status \<Rightarrow> string" where
  "stage_status_value StagePending = ''pending''"
| "stage_status_value StageApproved = ''approved''"
| "stage_status_value StageRejected = ''rejected''"
| "stage_status_value StageSkipped = ''skipped''"

definition stage_status_members :: "stage_status list" where
  "stage_status_members = [StagePending, StageApproved, StageRejected, StageSkipped]"

definition stage_status_of_value :: "string \<Rightarrow> stage_status fallible" where
  "stage_status_of_value raw = member_of_value stage_status_value stage_status_members raw"

lemma stage_status_in_members: "x \<in> set stage_status_members"
  by (cases x) (simp_all add: stage_status_members_def)

lemma stage_status_roundtrip: "stage_status_of_value (stage_status_value x) = Inr x"
  unfolding stage_status_of_value_def
  by (rule member_of_value_val [OF stage_status_in_members inj_on_distinct_map])
    (simp add: stage_status_members_def)

lemma stage_status_of_value_Inr: "stage_status_of_value raw = Inr x \<Longrightarrow> stage_status_value x = raw"
  unfolding stage_status_of_value_def by (rule member_of_value_Inr(2))

section \<open>NotificationType\<close>

datatype notification_type =
    NotifyAssignment
  | NotifyReminder
  | NotifyEscalation
  | NotifyDecision
  | NotifyCompletion
  | NotifySystem

fun notification_type_value :: "notification_type \<Rightarrow> string" where
  "notification_type_value NotifyAssignment = ''assignment''"
| "notification_type_value NotifyReminder = ''reminder''"
| "notification_type_value NotifyEscalation = ''escalation''"
| "notification_type_value NotifyDecision = ''decision''"
| "notification_type_value NotifyCompletion = ''completion''"
| "notification_type_value NotifySystem = ''system''"

definition notification_type_members :: "notification_type list" where
  "notification_type_members = [NotifyAssignment, NotifyReminder, NotifyEscalation, NotifyDecision, NotifyCompletion, NotifySystem]"

definition notification_type_of_value :: "string \<Rightarrow> notification_type fallible" where
  "notification_type_of_value raw = member_of_value notification_type_value notification_type_members raw"

lemma notification_type_in_members: "x \<in> set notification_type_members"
  by (cases x) (simp_all add: notification_type_members_def)

lemma notification_type_roundtrip: "notification_type_of_value (notification_type_value x) = Inr x"
  unfolding notification_type_of_value_def
  by (rule member_of_value_val [OF notification_type_in_members inj_on_distinct_map])
    (simp add: notification_type_members_def)

lemma notification_type_of_value_Inr: "notification_type_of_value raw = Inr x \<Longrightarrow> notification_type_value x = raw"
  unfolding notification_type_of_value_def by (rule member_of_value_Inr(2))

section \<open>AssignmentStrategy\<close>

datatype assignment_strategy =
    SpecificUser
  | DepartmentQueue
  | RequesterManager

fun assignment_strategy_value :: "assignment_strategy \<Rightarrow> string" where
  "assignment_strategy_value SpecificUser = ''specific_user''"
| "assignment_strategy_value DepartmentQueue = ''department_queue''"
| "assignment_strategy_value RequesterManager = ''requester_manager''"

definition assignment_strategy_members :: "assignment_strategy list" where
  "assignment_strategy_members = [SpecificUser, DepartmentQueue, RequesterManager]"

definition assignment_strategy_of_value :: "string \<Rightarrow> assignment_strategy fallible" where
  "assignment_strategy_of_value raw = member_of_value assignment_strategy_value assignment_strategy_members raw"

lemma assignment_strategy_in_members: "x \<in> set assignment_strategy_members"
  by (cases x) (simp_all add: assignment_strategy_members_def)

lemma assignment_strategy_roundtrip: "assignment_strategy_of_value (assignment_strategy_value x) = Inr x"
  unfolding assignment_strategy_of_value_def
  by (rule member_of_value_val [OF assignment_strategy_in_members inj_on_distinct_map])
    (simp add: assignment_strategy_members_def)

lemma assignment_strategy_of_value_Inr: "assignment_strategy_of_value raw = Inr x \<Longrightarrow> assignment_strategy_value x = raw"
  unfolding assignment_strategy_of_value_def by (rule member_of_value_Inr(2))

section \<open>AuditAction\<close>

datatype audit_action =
    REQUEST_CREATED
  | REQUEST_WITHDRAWN
  | STAGE_APPROVED
  | STAGE_REJECTED
  | STAGE_ESCALATED
  | WORKFLOW_DEFINITION_ACTIVATED
  | COMMENT_CREATED
  | COMMENT_REMOVED
  | ATTACHMENT_UPLOADED
  | ATTACHMENT_REMOVED
  | PROFILE_UPDATED
  | PROFILE_DEACTIVATED
  | PROFILE_REACTIVATED
  | PROFILE_ERASED
  | INVITATION_CREATED
  | INVITATION_RESENT
  | INVITATION_REVOKED
  | INVITATION_ACCEPTED
  | JOB_RETRIED
  | SCHEDULED_JOB_ENABLED
  | SCHEDULED_JOB_DISABLED
  | SCHEDULED_JOB_TRIGGERED
  | COMPANY_CREATED
  | COMPANY_SUSPENDED
  | COMPANY_REACTIVATED
  | COMPANY_DELETED
  | COMPANY_RESTORED
  | COMPANY_SETTINGS_UPDATED
  | COMPANY_LICENSE_UPDATED
  | FEATURE_FLAG_UPDATED

fun audit_action_value :: "audit_action \<Rightarrow> string" where
  "audit_action_value REQUEST_CREATED = ''REQUEST_CREATED''"
| "audit_action_value REQUEST_WITHDRAWN = ''REQUEST_WITHDRAWN''"
| "audit_action_value STAGE_APPROVED = ''STAGE_APPROVED''"
| "audit_action_value STAGE_REJECTED = ''STAGE_REJECTED''"
| "audit_action_value STAGE_ESCALATED = ''STAGE_ESCALATED''"
| "audit_action_value WORKFLOW_DEFINITION_ACTIVATED = ''WORKFLOW_DEFINITION_ACTIVATED''"
| "audit_action_value COMMENT_CREATED = ''COMMENT_CREATED''"
| "audit_action_value COMMENT_REMOVED = ''COMMENT_REMOVED''"
| "audit_action_value ATTACHMENT_UPLOADED = ''ATTACHMENT_UPLOADED''"
| "audit_action_value ATTACHMENT_REMOVED = ''ATTACHMENT_REMOVED''"
| "audit_action_value PROFILE_UPDATED = ''PROFILE_UPDATED''"
| "audit_action_value PROFILE_DEACTIVATED = ''PROFILE_DEACTIVATED''"
| "audit_action_value PROFILE_REACTIVATED = ''PROFILE_REACTIVATED''"
| "audit_action_value PROFILE_ERASED = ''PROFILE_ERASED''"
| "audit_action_value INVITATION_CREATED = ''INVITATION_CREATED''"
| "audit_action_value INVITATION_RESENT = ''INVITATION_RESENT''"
| "audit_action_value INVITATION_REVOKED = ''INVITATION_REVOKED''"
| "audit_action_value INVITATION_ACCEPTED = ''INVITATION_ACCEPTED''"
| "audit_action_value JOB_RETRIED = ''JOB_RETRIED''"
| "audit_action_value SCHEDULED_JOB_ENABLED = ''SCHEDULED_JOB_ENABLED''"
| "audit_action_value SCHEDULED_JOB_DISABLED = ''SCHEDULED_JOB_DISABLED''"
| "audit_action_value SCHEDULED_JOB_TRIGGERED = ''SCHEDULED_JOB_TRIGGERED''"
| "audit_action_value COMPANY_CREATED = ''COMPANY_CREATED''"
| "audit_action_value COMPANY_SUSPENDED = ''COMPANY_SUSPENDED''"
| "audit_action_value COMPANY_REACTIVATED = ''COMPANY_REACTIVATED''"
| "audit_action_value COMPANY_DELETED = ''COMPANY_DELETED''"
| "audit_action_value COMPANY_RESTORED = ''COMPANY_RESTORED''"
| "audit_action_value COMPANY_SETTINGS_UPDATED = ''COMPANY_SETTINGS_UPDATED''"
| "audit_action_value COMPANY_LICENSE_UPDATED = ''COMPANY_LICENSE_UPDATED''"
| "audit_action_value FEATURE_FLAG_UPDATED = ''FEATURE_FLAG_UPDATED''"

definition audit_action_members :: "audit_action list" where
  "audit_action_members = [REQUEST_CREATED, REQUEST_WITHDRAWN, STAGE_APPROVED, STAGE_REJECTED, STAGE_ESCALATED, WORKFLOW_DEFINITION_ACTIVATED, COMMENT_CREATED, COMMENT_REMOVED, ATTACHMENT_UPLOADED, ATTACHMENT_REMOVED, PROFILE_UPDATED, PROFILE_DEACTIVATED, PROFILE_REACTIVATED, PROFILE_ERASED, INVITATION_CREATED, INVITATION_RESENT, INVITATION_REVOKED, INVITATION_ACCEPTED, JOB_RETRIED, SCHEDULED_JOB_ENABLED, SCHEDULED_JOB_DISABLED, SCHEDULED_JOB_TRIGGERED, COMPANY_CREATED, COMPANY_SUSPENDED, COMPANY_REACTIVATED, COMPANY_DELETED, COMPANY_RESTORED, COMPANY_SETTINGS_UPDATED, COMPANY_LICENSE_UPDATED, FEATURE_FLAG_UPDATED]"

definition audit_action_of_value :: "string \<Rightarrow> audit_action fallible" where
  "audit_action_of_value raw = member_of_value audit_action_value audit_action_members raw"

lemma audit_action_in_members: "x \<in> set audit_action_members"
  by (cases x) (simp_all add: audit_action_members_def)

lemma audit_action_roundtrip: "audit_action_of_value (audit_action_value x) = Inr x"
  unfolding audit_action_of_value_def
  by (rule member_of_value_val [OF audit_action_in_members inj_on_distinct_map])
    (simp add: audit_action_members_def)

lemma audit_action_of_value_Inr: "audit_action_of_value raw = Inr x \<Longrightarrow> audit_action_value x = raw"
  unfolding audit_action_of_value_def by (rule member_of_value_Inr(2))

section \<open>InvitationStatus\<close>

datatype invitation_status =
    InvPending
  | InvAccepted
  | InvRevoked

fun invitation_status_value :: "invitation_status \<Rightarrow> string" where
  "invitation_status_value InvPending = ''pending''"
| "invitation_status_value InvAccepted = ''accepted''"
| "invitation_status_value InvRevoked = ''revoked''"

definition invitation_status_members :: "invitation_status list" where
  "invitation_status_members = [InvPending, InvAccepted, InvRevoked]"

definition invitation_status_of_value :: "string \<Rightarrow> invitation_status fallible" where
  "invitation_status_of_value raw = member_of_value invitation_status_value invitation_status_members raw"

lemma invitation_status_in_members: "x \<in> set invitation_status_members"
  by (cases x) (simp_all add: invitation_status_members_def)

lemma invitation_status_roundtrip: "invitation_status_of_value (invitation_status_value x) = Inr x"
  unfolding invitation_status_of_value_def
  by (rule member_of_value_val [OF invitation_status_in_members inj_on_distinct_map])
    (simp add: invitation_status_members_def)

lemma invitation_status_of_value_Inr: "invitation_status_of_value raw = Inr x \<Longrightarrow> invitation_status_value x = raw"
  unfolding invitation_status_of_value_def by (rule member_of_value_Inr(2))

section \<open>EffectiveInvitationStatus\<close>

datatype effective_invitation_status =
    EffPending
  | EffExpired
  | EffAccepted
  | EffRevoked

fun effective_invitation_status_value :: "effective_invitation_status \<Rightarrow> string" where
  "effective_invitation_status_value EffPending = ''pending''"
| "effective_invitation_status_value EffExpired = ''expired''"
| "effective_invitation_status_value EffAccepted = ''accepted''"
| "effective_invitation_status_value EffRevoked = ''revoked''"

definition effective_invitation_status_members :: "effective_invitation_status list" where
  "effective_invitation_status_members = [EffPending, EffExpired, EffAccepted, EffRevoked]"

definition effective_invitation_status_of_value :: "string \<Rightarrow> effective_invitation_status fallible" where
  "effective_invitation_status_of_value raw = member_of_value effective_invitation_status_value effective_invitation_status_members raw"

lemma effective_invitation_status_in_members: "x \<in> set effective_invitation_status_members"
  by (cases x) (simp_all add: effective_invitation_status_members_def)

lemma effective_invitation_status_roundtrip: "effective_invitation_status_of_value (effective_invitation_status_value x) = Inr x"
  unfolding effective_invitation_status_of_value_def
  by (rule member_of_value_val [OF effective_invitation_status_in_members inj_on_distinct_map])
    (simp add: effective_invitation_status_members_def)

lemma effective_invitation_status_of_value_Inr: "effective_invitation_status_of_value raw = Inr x \<Longrightarrow> effective_invitation_status_value x = raw"
  unfolding effective_invitation_status_of_value_def by (rule member_of_value_Inr(2))

section \<open>JobStatus\<close>

datatype job_status =
    JobQueued
  | JobRunning
  | JobRetrying
  | JobSucceeded
  | JobDeadLettered

fun job_status_value :: "job_status \<Rightarrow> string" where
  "job_status_value JobQueued = ''queued''"
| "job_status_value JobRunning = ''running''"
| "job_status_value JobRetrying = ''retrying''"
| "job_status_value JobSucceeded = ''succeeded''"
| "job_status_value JobDeadLettered = ''dead_lettered''"

definition job_status_members :: "job_status list" where
  "job_status_members = [JobQueued, JobRunning, JobRetrying, JobSucceeded, JobDeadLettered]"

definition job_status_of_value :: "string \<Rightarrow> job_status fallible" where
  "job_status_of_value raw = member_of_value job_status_value job_status_members raw"

lemma job_status_in_members: "x \<in> set job_status_members"
  by (cases x) (simp_all add: job_status_members_def)

lemma job_status_roundtrip: "job_status_of_value (job_status_value x) = Inr x"
  unfolding job_status_of_value_def
  by (rule member_of_value_val [OF job_status_in_members inj_on_distinct_map])
    (simp add: job_status_members_def)

lemma job_status_of_value_Inr: "job_status_of_value raw = Inr x \<Longrightarrow> job_status_value x = raw"
  unfolding job_status_of_value_def by (rule member_of_value_Inr(2))

section \<open>JobPriority\<close>

datatype job_priority =
    PriorityHigh
  | PriorityNormal
  | PriorityLow

fun job_priority_value :: "job_priority \<Rightarrow> string" where
  "job_priority_value PriorityHigh = ''high''"
| "job_priority_value PriorityNormal = ''normal''"
| "job_priority_value PriorityLow = ''low''"

definition job_priority_members :: "job_priority list" where
  "job_priority_members = [PriorityHigh, PriorityNormal, PriorityLow]"

definition job_priority_of_value :: "string \<Rightarrow> job_priority fallible" where
  "job_priority_of_value raw = member_of_value job_priority_value job_priority_members raw"

lemma job_priority_in_members: "x \<in> set job_priority_members"
  by (cases x) (simp_all add: job_priority_members_def)

lemma job_priority_roundtrip: "job_priority_of_value (job_priority_value x) = Inr x"
  unfolding job_priority_of_value_def
  by (rule member_of_value_val [OF job_priority_in_members inj_on_distinct_map])
    (simp add: job_priority_members_def)

lemma job_priority_of_value_Inr: "job_priority_of_value raw = Inr x \<Longrightarrow> job_priority_value x = raw"
  unfolding job_priority_of_value_def by (rule member_of_value_Inr(2))

section \<open>Finite enumerations in the library's sense\<close>

instantiation user_role :: enum
begin

definition enum_user_role :: "user_role list" where
  "enum_user_role = user_role_members"

definition enum_all_user_role :: "(user_role \<Rightarrow> bool) \<Rightarrow> bool" where
  "enum_all_user_role P = list_all P user_role_members"

definition enum_ex_user_role :: "(user_role \<Rightarrow> bool) \<Rightarrow> bool" where
  "enum_ex_user_role P = list_ex P user_role_members"

instance
proof
  show all: "(UNIV :: user_role set) = set enum_class.enum"
    using user_role_in_members by (auto simp: enum_user_role_def)
  show "distinct (enum_class.enum :: user_role list)"
    by (simp add: enum_user_role_def user_role_members_def)
  fix P :: "user_role \<Rightarrow> bool"
  show "enum_class.enum_all P = Ball UNIV P"
    using user_role_in_members by (auto simp: enum_all_user_role_def list_all_iff)
  show "enum_class.enum_ex P = Bex UNIV P"
    using user_role_in_members by (auto simp: enum_ex_user_role_def list_ex_iff)
qed

end

instantiation request_status :: enum
begin

definition enum_request_status :: "request_status list" where
  "enum_request_status = request_status_members"

definition enum_all_request_status :: "(request_status \<Rightarrow> bool) \<Rightarrow> bool" where
  "enum_all_request_status P = list_all P request_status_members"

definition enum_ex_request_status :: "(request_status \<Rightarrow> bool) \<Rightarrow> bool" where
  "enum_ex_request_status P = list_ex P request_status_members"

instance
proof
  show all: "(UNIV :: request_status set) = set enum_class.enum"
    using request_status_in_members by (auto simp: enum_request_status_def)
  show "distinct (enum_class.enum :: request_status list)"
    by (simp add: enum_request_status_def request_status_members_def)
  fix P :: "request_status \<Rightarrow> bool"
  show "enum_class.enum_all P = Ball UNIV P"
    using request_status_in_members by (auto simp: enum_all_request_status_def list_all_iff)
  show "enum_class.enum_ex P = Bex UNIV P"
    using request_status_in_members by (auto simp: enum_ex_request_status_def list_ex_iff)
qed

end

instantiation stage_status :: enum
begin

definition enum_stage_status :: "stage_status list" where
  "enum_stage_status = stage_status_members"

definition enum_all_stage_status :: "(stage_status \<Rightarrow> bool) \<Rightarrow> bool" where
  "enum_all_stage_status P = list_all P stage_status_members"

definition enum_ex_stage_status :: "(stage_status \<Rightarrow> bool) \<Rightarrow> bool" where
  "enum_ex_stage_status P = list_ex P stage_status_members"

instance
proof
  show all: "(UNIV :: stage_status set) = set enum_class.enum"
    using stage_status_in_members by (auto simp: enum_stage_status_def)
  show "distinct (enum_class.enum :: stage_status list)"
    by (simp add: enum_stage_status_def stage_status_members_def)
  fix P :: "stage_status \<Rightarrow> bool"
  show "enum_class.enum_all P = Ball UNIV P"
    using stage_status_in_members by (auto simp: enum_all_stage_status_def list_all_iff)
  show "enum_class.enum_ex P = Bex UNIV P"
    using stage_status_in_members by (auto simp: enum_ex_stage_status_def list_ex_iff)
qed

end

end
