(* ===== verification/Errors.thy ===== *)
theory Errors imports Prelude
begin

text \<open>
  The exception translations of \<open>app/services/exceptions.py\<close>: every lower-layer exception that a
  service catches becomes one of the service-layer classes, which the API layer maps to a status
  code. The predicates are the \<open>except\<close> clauses the services use; an exception that no clause
  matches travels on unchanged.
\<close>

fun is_database_error :: "exn \<Rightarrow> bool" where
  "is_database_error (Raised (Db _)) = True"
| "is_database_error _ = False"

fun is_record_not_found :: "exn \<Rightarrow> bool" where
  "is_record_not_found (Raised (Db (RecordNotFoundError _ _))) = True"
| "is_record_not_found _ = False"

fun is_engine_error :: "exn \<Rightarrow> bool" where
  "is_engine_error (Raised (Engine _)) = True"
| "is_engine_error _ = False"

fun is_model_error :: "exn \<Rightarrow> bool" where
  "is_model_error (Raised (Model _)) = True"
| "is_model_error _ = False"

fun database_error_class :: "db_error \<Rightarrow> service_error" where
  "database_error_class (RecordNotFoundError tbl i) = NotFoundError tbl (ById i)"
| "database_error_class (ConcurrentUpdateError tbl i v) =
     ConcurrencyError (Db (ConcurrentUpdateError tbl i v))"
| "database_error_class (ConstraintViolationError tbl c) =
     ValidationError (Db (ConstraintViolationError tbl c))"
| "database_error_class (InvalidQueryError m) = ValidationError (Db (InvalidQueryError m))"
| "database_error_class DatabaseConnectionError = ConfigurationError (Db DatabaseConnectionError)"
| "database_error_class (RepositoryError op tbl) = EAHError (Db (RepositoryError op tbl))"

fun translate_database_error :: "exn \<Rightarrow> exn" where
  "translate_database_error (Raised (Db e)) = Service (database_error_class e)"
| "translate_database_error e = e"

fun workflow_error_class :: "engine_error \<Rightarrow> service_error" where
  "workflow_error_class (NoActiveDefinitionError rt) =
     ValidationError (Engine (NoActiveDefinitionError rt))"
| "workflow_error_class (DefinitionAlreadyActiveError d) =
     ConcurrencyError (Engine (DefinitionAlreadyActiveError d))"
| "workflow_error_class (UnknownAssigneeError u) =
     AssignmentError (Engine (UnknownAssigneeError u))"
| "workflow_error_class e = WorkflowError (Engine e)"

fun translate_workflow_error :: "exn \<Rightarrow> exn" where
  "translate_workflow_error (Raised (Engine e)) = Service (workflow_error_class e)"
| "translate_workflow_error e = e"

text \<open>
  \<open>translate_auth_error\<close> is called under \<open>except Exception\<close>, so it is total: whatever the guard
  raised is reported as a refused permission.
\<close>

fun translate_auth_error :: "exn \<Rightarrow> exn" where
  "translate_auth_error (Raised e) = Service (PermissionDeniedError e)"
| "translate_auth_error (Service e) = Service (PermissionDeniedError (Message ''service''))"

fun translate_model_construction_error :: "exn \<Rightarrow> exn" where
  "translate_model_construction_error (Raised (Model e)) = Service (ValidationError (Model e))"
| "translate_model_construction_error e = e"

text \<open>The four shapes of \<open>try\<close> block the services are written with.\<close>

definition db_call :: "('s, 'a) eff \<Rightarrow> ('s, 'a) eff" where
  "db_call m = catching is_database_error translate_database_error m"

definition lookup_call :: "('s, 'a) eff \<Rightarrow> ('s, 'a) eff" where
  "lookup_call m = catching is_record_not_found translate_database_error m"

definition engine_call :: "'a fallible \<Rightarrow> ('s, 'a) eff" where
  "engine_call r = catching is_engine_error translate_workflow_error (pure r)"

definition auth_call :: "'a fallible \<Rightarrow> ('s, 'a) eff" where
  "auth_call r = catching (\<lambda>_. True) translate_auth_error (pure r)"

definition model_call :: "'a fallible \<Rightarrow> ('s, 'a) eff" where
  "model_call r = catching is_model_error translate_model_construction_error (pure r)"

lemma db_call_preserves [pres]: "preserves P m \<Longrightarrow> preserves P (db_call m)"
  by (simp add: db_call_def preserves_catching)

lemma lookup_call_preserves [pres]: "preserves P m \<Longrightarrow> preserves P (lookup_call m)"
  by (simp add: lookup_call_def preserves_catching)

lemma engine_call_preserves [pres]: "preserves P (engine_call r)"
  by (simp add: engine_call_def pres)

lemma auth_call_preserves [pres]: "preserves P (auth_call r)"
  by (simp add: auth_call_def pres)

lemma model_call_preserves [pres]: "preserves P (model_call r)"
  by (simp add: model_call_def pres)

lemmas pres_calls = db_call_preserves lookup_call_preserves engine_call_preserves auth_call_preserves
  model_call_preserves

lemma db_call_eq_Inr [simp]: "db_call m s = (Inr x, t) \<longleftrightarrow> m s = (Inr x, t)"
  by (simp add: db_call_def catching_eq_Inr)

lemma lookup_call_eq_Inr [simp]: "lookup_call m s = (Inr x, t) \<longleftrightarrow> m s = (Inr x, t)"
  by (simp add: lookup_call_def catching_eq_Inr)

lemma engine_call_eq_Inr [simp]: "engine_call r s = (Inr x, t) \<longleftrightarrow> r = Inr x \<and> t = s"
  by (auto simp: engine_call_def catching_eq_Inr eff_simps)

lemma auth_call_eq_Inr [simp]: "auth_call r s = (Inr x, t) \<longleftrightarrow> r = Inr x \<and> t = s"
  by (auto simp: auth_call_def catching_eq_Inr eff_simps)

lemma model_call_eq_Inr [simp]: "model_call r s = (Inr x, t) \<longleftrightarrow> r = Inr x \<and> t = s"
  by (auto simp: model_call_def catching_eq_Inr eff_simps)

lemmas call_defs = db_call_def lookup_call_def engine_call_def auth_call_def model_call_def

end
