(* ===== verification/StateMachine.thy ===== *)
theory StateMachine imports Enums
begin

text \<open>
  \<open>app/workflow/state_machine.py\<close>: the transition tables of a request and of a workflow stage, the
  guards the services call before a status change, and the terminal-status tests. The step relations
  are the tables read as relations; a status history is a path in them.
\<close>

section \<open>The tables and their guards\<close>

fun REQUEST_STATUS_TRANSITIONS :: "request_status \<Rightarrow> request_status set" where
  "REQUEST_STATUS_TRANSITIONS ReqPending = {ReqInReview, ReqRejected, ReqCompleted}"
| "REQUEST_STATUS_TRANSITIONS ReqInReview = {ReqInReview, ReqCompleted, ReqRejected}"
| "REQUEST_STATUS_TRANSITIONS ReqApproved = {}"
| "REQUEST_STATUS_TRANSITIONS ReqCompleted = {}"
| "REQUEST_STATUS_TRANSITIONS ReqRejected = {}"

fun STAGE_STATUS_TRANSITIONS :: "stage_status \<Rightarrow> stage_status set" where
  "STAGE_STATUS_TRANSITIONS StagePending = {StagePending, StageApproved, StageRejected, StageSkipped}"
| "STAGE_STATUS_TRANSITIONS StageApproved = {}"
| "STAGE_STATUS_TRANSITIONS StageRejected = {}"
| "STAGE_STATUS_TRANSITIONS StageSkipped = {}"

definition is_valid_request_transition :: "request_status \<Rightarrow> request_status \<Rightarrow> bool" where
  "is_valid_request_transition current target = (target \<in> REQUEST_STATUS_TRANSITIONS current)"

definition validate_request_transition :: "request_status \<Rightarrow> request_status \<Rightarrow> unit fallible" where
  "validate_request_transition current target =
     (if \<not> is_valid_request_transition current target
      then Inl (Raised (Engine (InvalidStateTransitionError ''request''
             (request_status_value current) (request_status_value target))))
      else Inr ())"

definition is_terminal_request_status :: "request_status \<Rightarrow> bool" where
  "is_terminal_request_status status = (card (REQUEST_STATUS_TRANSITIONS status) = 0)"

definition is_valid_stage_transition :: "stage_status \<Rightarrow> stage_status \<Rightarrow> bool" where
  "is_valid_stage_transition current target = (target \<in> STAGE_STATUS_TRANSITIONS current)"

definition validate_stage_transition :: "stage_status \<Rightarrow> stage_status \<Rightarrow> unit fallible" where
  "validate_stage_transition current target =
     (if \<not> is_valid_stage_transition current target
      then Inl (Raised (Engine (InvalidStateTransitionError ''workflow_stage''
             (stage_status_value current) (stage_status_value target))))
      else Inr ())"

definition is_terminal_stage_status :: "stage_status \<Rightarrow> bool" where
  "is_terminal_stage_status status =
     (if status = StagePending then False else card (STAGE_STATUS_TRANSITIONS status) = 0)"

section \<open>Their facts\<close>

lemma validate_request_transition_ok [simp]:
  "validate_request_transition a b = Inr u \<longleftrightarrow> is_valid_request_transition a b"
  by (simp add: validate_request_transition_def)

lemma validate_stage_transition_ok [simp]:
  "validate_stage_transition a b = Inr u \<longleftrightarrow> is_valid_stage_transition a b"
  by (simp add: validate_stage_transition_def)

lemma is_valid_request_transition_iff:
  "is_valid_request_transition a b \<longleftrightarrow>
     (a = ReqPending \<or> a = ReqInReview) \<and> (b = ReqInReview \<or> b = ReqRejected \<or> b = ReqCompleted)"
  by (cases a) (auto simp: is_valid_request_transition_def)

lemma is_valid_stage_transition_iff: "is_valid_stage_transition a b \<longleftrightarrow> a = StagePending"
  by (cases a; cases b) (simp_all add: is_valid_stage_transition_def)

lemma is_terminal_request_status_iff:
  "is_terminal_request_status a \<longleftrightarrow> a = ReqApproved \<or> a = ReqCompleted \<or> a = ReqRejected"
  by (cases a) (simp_all add: is_terminal_request_status_def)

lemma is_terminal_stage_status_iff: "is_terminal_stage_status a \<longleftrightarrow> a \<noteq> StagePending"
  by (cases a) (simp_all add: is_terminal_stage_status_def)

section \<open>Histories of statuses\<close>

inductive request_path :: "request_status \<Rightarrow> request_status list \<Rightarrow> request_status \<Rightarrow> bool" where
  stay: "request_path a [] a"
| advance: "validate_request_transition a b = Inr () \<Longrightarrow> request_path b p c \<Longrightarrow> request_path a (b # p) c"

inductive_simps request_path_Nil [simp]: "request_path a [] c"
inductive_simps request_path_Cons [simp]: "request_path a (b # p) c"

lemma request_path_from_terminal:
  "request_path a p c \<Longrightarrow> is_terminal_request_status a \<Longrightarrow> p = [] \<and> c = a"
  by (induction rule: request_path.induct)
    (auto simp: is_terminal_request_status_iff is_valid_request_transition_iff)

lemma request_path_shape:
  "request_path a p c \<Longrightarrow> p \<noteq> [] \<Longrightarrow>
     c \<in> {ReqInReview, ReqRejected, ReqCompleted} \<and> set (butlast p) \<subseteq> {ReqInReview}"
proof (induction rule: request_path.induct)
  case (stay a)
  then show ?case by simp
next
  case (advance a b p c)
  show ?case
  proof (cases "p = []")
    case True
    with advance show ?thesis by (auto simp: is_valid_request_transition_iff)
  next
    case False
    with advance have IH: "c \<in> {ReqInReview, ReqRejected, ReqCompleted}" "set (butlast p) \<subseteq> {ReqInReview}"
      by auto
    from False obtain q p' where p: "p = q # p'" by (cases p) auto
    with advance.hyps(2) have "b = ReqPending \<or> b = ReqInReview"
      by (auto simp: is_valid_request_transition_iff)
    moreover have "b \<noteq> ReqPending"
      using advance.hyps(1) by (auto simp: is_valid_request_transition_iff)
    ultimately show ?thesis using IH False by simp
  qed
qed

text \<open>
  A request's whole status history, as the guard admits it: from \<open>pending\<close> it passes only
  through \<open>in_review\<close>, never revisits \<open>pending\<close>, ends in \<open>in_review\<close>, \<open>rejected\<close> or
  \<open>completed\<close> (never in the reserved \<open>approved\<close>), and once a terminal status is reached no
  further change is admitted.
\<close>

theorem request_history_shape:
  assumes "request_path ReqPending p c" and "p \<noteq> []"
  shows "set (butlast p) \<subseteq> {ReqInReview} \<and> c \<in> {ReqInReview, ReqRejected, ReqCompleted} \<and>
    (is_terminal_request_status c \<longrightarrow> (\<forall>q d. request_path c q d \<longrightarrow> q = [] \<and> d = c))"
  using request_path_shape [OF assms] request_path_from_terminal by blast

theorem request_history_shape_witness:
  "set (butlast [ReqInReview, ReqCompleted]) \<subseteq> {ReqInReview} \<and>
   \<not> (\<exists>q d. request_path ReqCompleted q d \<and> (q \<noteq> [] \<or> d \<noteq> ReqCompleted))"
proof -
  have "request_path ReqPending [ReqInReview, ReqCompleted] ReqCompleted"
    by (simp add: is_valid_request_transition_def)
  from request_history_shape [OF this] show ?thesis
    by (auto simp: is_terminal_request_status_iff)
qed

end
