(* ===== verification/WorkflowModel.thy ===== *)
theory WorkflowModel imports Enums Complex_Main
begin

text \<open>
  \<open>app/models/workflow.py\<close>: stage configurations, workflow definition documents and definitions, with
  the validation their constructors perform. A constructor call is a function of the raw field values
  that returns the object or the exception; \<open>str_strip_whitespace\<close> (\<open>EAHBaseModel\<close>) is applied to
  every string field first. Raw values are already of the declared JSON types: coercion and the
  rejection of unknown keys are Pydantic's own.
\<close>

section \<open>Stage configurations\<close>

record stage_definition =
  sd_order :: int
  sd_name :: string
  sd_strategy :: assignment_strategy
  sd_assigned_role :: "user_role option"
  sd_department :: "string option"
  sd_assigned_user_id :: "uuid option"
  sd_escalation_hours :: rat

definition strip_stage :: "stage_definition \<Rightarrow> stage_definition" where
  "strip_stage r = r\<lparr>sd_name := strip (sd_name r), sd_department := map_option strip (sd_department r)\<rparr>"

definition validate_strategy_specific_fields :: "stage_definition \<Rightarrow> stage_definition fallible" where
  "validate_strategy_specific_fields st =
     (if sd_strategy st = SpecificUser then
        (if sd_assigned_user_id st = None
         then Inl (Raised (Model (InvalidStageConfigurationError ''assigned_user_id'')))
         else Inr st)
      else if sd_strategy st = DepartmentQueue then
        (if sd_department st = None \<or> sd_department st = Some []
         then Inl (Raised (Model (InvalidStageConfigurationError ''department'')))
         else if sd_assigned_role st = None
         then Inl (Raised (Model (InvalidStageConfigurationError ''assigned_role'')))
         else Inr st)
      else Inr st)"

definition StageDefinition :: "stage_definition \<Rightarrow> stage_definition fallible" where
  "StageDefinition raw =
     (let st = strip_stage raw in
      if \<not> 0 < sd_order st then Inl (Raised (Model (PydanticValidationError ''order'')))
      else if sd_name st = [] then Inl (Raised (Model (PydanticValidationError ''name'')))
      else if \<not> 0 < sd_escalation_hours st
      then Inl (Raised (Model (PydanticValidationError ''escalation_hours'')))
      else validate_strategy_specific_fields st)"

definition valid_stage :: "stage_definition \<Rightarrow> bool" where
  "valid_stage st \<longleftrightarrow>
     0 < sd_order st \<and> sd_name st \<noteq> [] \<and> 0 < sd_escalation_hours st \<and>
     (sd_strategy st = SpecificUser \<longrightarrow> sd_assigned_user_id st \<noteq> None) \<and>
     (sd_strategy st = DepartmentQueue \<longrightarrow>
        sd_department st \<noteq> None \<and> sd_department st \<noteq> Some [] \<and> sd_assigned_role st \<noteq> None)"

lemma StageDefinition_Inr: "StageDefinition raw = Inr st \<longleftrightarrow> valid_stage st \<and> st = strip_stage raw"
  by (auto simp: StageDefinition_def Let_def validate_strategy_specific_fields_def valid_stage_def
      split: if_splits)

lemma strip_stage_idem [simp]: "strip_stage (strip_stage r) = strip_stage r"
  by (simp add: strip_stage_def strip_idem option.map_comp comp_def)

section \<open>Workflow definition documents\<close>

record workflow_document =
  doc_stages :: "stage_definition list"

definition validate_stage_ordering :: "workflow_document \<Rightarrow> workflow_document fallible" where
  "validate_stage_ordering doc =
     (let orders = map sd_order (doc_stages doc) in
      if length orders \<noteq> card (set orders)
      then Inl (Raised (Model (InvalidWorkflowDefinitionError ''duplicate stage order'')))
      else if sort orders \<noteq> [1..int (length (doc_stages doc))]
      then Inl (Raised (Model (InvalidWorkflowDefinitionError ''non-contiguous stage order'')))
      else Inr doc)"

definition WorkflowDefinitionDocument :: "stage_definition list \<Rightarrow> workflow_document fallible" where
  "WorkflowDefinitionDocument raw =
     bind_result (map_result StageDefinition raw) (\<lambda>stages.
       if stages = [] then Inl (Raised (Model (PydanticValidationError ''stages'')))
       else validate_stage_ordering \<lparr>doc_stages = stages\<rparr>)"

definition ordered_stages :: "workflow_document \<Rightarrow> stage_definition list" where
  "ordered_stages doc = sort_key sd_order (doc_stages doc)"

definition valid_document :: "workflow_document \<Rightarrow> bool" where
  "valid_document doc \<longleftrightarrow>
     doc_stages doc \<noteq> [] \<and> (\<forall>st\<in>set (doc_stages doc). valid_stage st) \<and>
     sort (map sd_order (doc_stages doc)) = [1..int (length (doc_stages doc))]"

lemma map_result_Inr:
  "map_result f xs = Inr ys \<Longrightarrow> length ys = length xs \<and> (\<forall>i<length xs. f (xs ! i) = Inr (ys ! i))"
proof (induction xs arbitrary: ys)
  case (Cons x xs)
  then obtain y zs where "f x = Inr y" "map_result f xs = Inr zs" "ys = y # zs"
    by (auto simp: bind_result_def split: sum.splits)
  with Cons.IH show ?case by (auto simp: nth_Cons split: nat.split)
qed simp

lemma map_result_all:
  assumes "map_result f xs = Inr ys" and "y \<in> set ys"
  shows "\<exists>x\<in>set xs. f x = Inr y"
  using map_result_Inr [OF assms(1)] assms(2) by (metis in_set_conv_nth)

lemma WorkflowDefinitionDocument_valid:
  assumes "WorkflowDefinitionDocument raw = Inr doc"
  shows "valid_document doc"
proof -
  from assms obtain stages where st: "map_result StageDefinition raw = Inr stages"
    and doc: "stages \<noteq> []" "validate_stage_ordering \<lparr>doc_stages = stages\<rparr> = Inr doc"
    by (auto simp: WorkflowDefinitionDocument_def bind_result_def split: sum.splits if_splits)
  from doc have "doc = \<lparr>doc_stages = stages\<rparr>" "sort (map sd_order stages) = [1..int (length stages)]"
    by (auto simp: validate_stage_ordering_def Let_def split: if_splits)
  moreover have "\<forall>s\<in>set stages. valid_stage s"
    using map_result_all [OF st] by (auto simp: StageDefinition_Inr)
  ultimately show ?thesis using doc(1) by (simp add: valid_document_def)
qed

lemma length_ordered_stages [simp]: "length (ordered_stages doc) = length (doc_stages doc)"
  by (simp add: ordered_stages_def)

lemma set_ordered_stages [simp]: "set (ordered_stages doc) = set (doc_stages doc)"
  by (simp add: ordered_stages_def)

lemma ordered_stages_order:
  assumes "valid_document doc" and "i < length (doc_stages doc)"
  shows "sd_order (ordered_stages doc ! i) = int i + 1"
proof -
  have "map sd_order (ordered_stages doc) = [1..int (length (ordered_stages doc))]"
    using assms(1) by (simp add: valid_document_def ordered_stages_def map_sort_key)
  then show ?thesis using assms(2) by (intro sort_key_upto_nth) simp_all
qed

lemma valid_document_orders:
  "valid_document doc \<Longrightarrow> set (map sd_order (doc_stages doc)) = {1..int (length (doc_stages doc))}"
  unfolding valid_document_def by (metis set_sort set_upto)

lemma valid_document_nonempty: "valid_document doc \<Longrightarrow> 0 < length (doc_stages doc)"
  by (simp add: valid_document_def)

lemma ordered_stages_Cons: "valid_document doc \<Longrightarrow> \<exists>st sts. ordered_stages doc = st # sts"
  using valid_document_nonempty [of doc] length_ordered_stages [of doc]
  by (cases "ordered_stages doc") auto

lemma map_result_strip_valid:
  "\<forall>st\<in>set sts. valid_stage st \<and> strip_stage st = st \<Longrightarrow> map_result StageDefinition sts = Inr sts"
proof (induction sts)
  case (Cons a sts)
  then have "StageDefinition a = Inr a" by (simp add: StageDefinition_Inr)
  with Cons show ?case by (simp add: bind_result_def)
qed simp

lemma document_revalidates:
  assumes "WorkflowDefinitionDocument raw = Inr doc"
  shows "WorkflowDefinitionDocument (doc_stages doc) = Inr doc"
proof -
  from assms obtain stages where st: "map_result StageDefinition raw = Inr stages"
    and ne: "stages \<noteq> []" and vo: "validate_stage_ordering \<lparr>doc_stages = stages\<rparr> = Inr doc"
    by (auto simp: WorkflowDefinitionDocument_def bind_result_def split: sum.splits if_splits)
  from vo have doc: "doc = \<lparr>doc_stages = stages\<rparr>"
    by (auto simp: validate_stage_ordering_def Let_def split: if_splits)
  have "valid_stage s \<and> strip_stage s = s" if "s \<in> set stages" for s
    using map_result_all [OF st that] by (auto simp: StageDefinition_Inr)
  then have "map_result StageDefinition stages = Inr stages"
    by (simp add: map_result_strip_valid)
  with ne vo doc show ?thesis by (simp add: WorkflowDefinitionDocument_def bind_result_def)
qed

lemma document_length:
  assumes "WorkflowDefinitionDocument raw = Inr doc"
  shows "length (doc_stages doc) = length raw"
  using assms map_result_Inr [of StageDefinition raw]
  by (auto simp: WorkflowDefinitionDocument_def bind_result_def validate_stage_ordering_def Let_def
      split: sum.splits if_splits)

text \<open>
  C28. What a validated document guarantees to every later component: it has at least one stage, the
  sorted list \<open>ordered_stages()\<close> holds at position \<open>i\<close> the stage of order \<open>i + 1\<close>, every stage
  carries the fields its strategy needs, and validating the validated stages again returns the same
  document (the constructor is idempotent, so a stored document can be re-read).
\<close>

theorem validated_document_shape:
  assumes "WorkflowDefinitionDocument raw = Inr doc"
  shows "doc_stages doc \<noteq> [] \<and> length (doc_stages doc) = length raw \<and>
    (\<forall>i<length (ordered_stages doc).
       sd_order (ordered_stages doc ! i) = int i + 1 \<and> valid_stage (ordered_stages doc ! i)) \<and>
    WorkflowDefinitionDocument (doc_stages doc) = Inr doc"
proof -
  have v: "valid_document doc" by (rule WorkflowDefinitionDocument_valid [OF assms])
  have "length (doc_stages doc) = length raw" by (rule document_length [OF assms])
  moreover have "valid_stage (ordered_stages doc ! i)" if "i < length (ordered_stages doc)" for i
    using v nth_mem [OF that] by (simp add: valid_document_def)
  ultimately show ?thesis
    using v ordered_stages_order [OF v] document_revalidates [OF assms]
    by (simp add: valid_document_def)
qed

definition sample_stage :: "int \<Rightarrow> assignment_strategy \<Rightarrow> stage_definition" where
  "sample_stage k strat =
     \<lparr>sd_order = k, sd_name = ''Review'', sd_strategy = strat,
      sd_assigned_role = Some Approver, sd_department = Some ''Finance'',
      sd_assigned_user_id = Some 7, sd_escalation_hours = 24\<rparr>"

definition sample_document :: workflow_document where
  "sample_document =
     \<lparr>doc_stages = [sample_stage 2 DepartmentQueue, sample_stage 1 RequesterManager]\<rparr>"

lemma sample_document_ok:
  "WorkflowDefinitionDocument [sample_stage 2 DepartmentQueue, sample_stage 1 RequesterManager] =
     Inr sample_document"
  by code_simp

theorem validated_document_shape_witness:
  "sd_order (ordered_stages sample_document ! 0) = 1 \<and> sd_order (ordered_stages sample_document ! 1) = 2"
  using validated_document_shape [OF sample_document_ok]
  by (auto simp: sample_document_def)

section \<open>Persisted definitions\<close>

record workflow_definition =
  wd_id :: uuid
  wd_request_type :: string
  wd_version :: int
  wd_definition :: workflow_document
  wd_is_active :: bool
  wd_created_by :: "uuid option"
  wd_row_version :: int
  wd_created_at :: timestamp

definition WorkflowDefinition :: "workflow_definition \<Rightarrow> workflow_definition fallible" where
  "WorkflowDefinition raw =
     (let rt = strip (wd_request_type raw) in
      if rt = [] then Inl (Raised (Model (PydanticValidationError ''request_type'')))
      else if wd_version raw < 1 then Inl (Raised (Model (PydanticValidationError ''version'')))
      else if wd_row_version raw < 1 then Inl (Raised (Model (PydanticValidationError ''row_version'')))
      else Inr (raw\<lparr>wd_request_type := rt\<rparr>))"

lemma WorkflowDefinition_Inr:
  "WorkflowDefinition raw = Inr d \<Longrightarrow>
     d = raw\<lparr>wd_request_type := strip (wd_request_type raw)\<rparr> \<and> wd_request_type d \<noteq> [] \<and>
     1 \<le> wd_version d \<and> 1 \<le> wd_row_version d"
  by (auto simp: WorkflowDefinition_def Let_def split: if_splits)

end
