(* ===== verification/Identity.thy ===== *)
theory Identity imports Enums
begin

text \<open>
  Who is calling and who people are: the verified identity of \<open>app/auth/authentication.py\<close> with its
  expiry test, the domain profile of \<open>app/models/user.py\<close>, and the instant comparison of
  \<open>app/utils/datetime_utils.py\<close> that decides expiry and escalation. Every instant is timezone-aware
  UTC in the model, so \<open>ensure_timezone_aware\<close> is the identity.
\<close>

definition is_past :: "timestamp \<Rightarrow> timestamp \<Rightarrow> bool" where
  "is_past value reference = (value < reference)"

section \<open>The authenticated identity\<close>

record identity =
  id_user_id :: uuid
  id_role :: user_role
  id_company_id :: uuid
  id_is_platform_admin :: bool
  id_expires_at :: "timestamp option"

definition is_expired :: "timestamp \<Rightarrow> identity \<Rightarrow> bool" where
  "is_expired now ident =
     (case id_expires_at ident of None \<Rightarrow> False | Some e \<Rightarrow> is_past e now)"

section \<open>The domain profile\<close>

record profile =
  pf_id :: uuid
  pf_full_name :: string
  pf_role :: user_role
  pf_department :: "string option"
  pf_version :: int
  pf_company_id :: uuid
  pf_is_platform_admin :: bool

definition Profile :: "profile \<Rightarrow> profile fallible" where
  "Profile raw =
     (let p = raw\<lparr>pf_full_name := strip (pf_full_name raw),
                  pf_department := map_option strip (pf_department raw)\<rparr> in
      if pf_full_name p = [] then Inl (Raised (Model (PydanticValidationError ''full_name'')))
      else if pf_version p < 1 then Inl (Raised (Model (PydanticValidationError ''version'')))
      else Inr p)"

lemma Profile_keeps_identity:
  "Profile raw = Inr p \<Longrightarrow> pf_id p = pf_id raw \<and> pf_role p = pf_role raw \<and>
     pf_company_id p = pf_company_id raw \<and> pf_department p = map_option strip (pf_department raw)"
  by (auto simp: Profile_def Let_def split: if_splits)

end
