(* ===== verification/Auth.thy ===== *)
theory Auth imports Identity Errors
begin

text \<open>
  \<open>app/auth/permissions.py\<close>, \<open>rbac.py\<close> and \<open>authorization.py\<close>: the permission table of each
  role, the predicates on a role and the facts the services pass (who submitted, who is assigned, what
  is pending), and the guards that raise. A guard's clock reading is its first argument.
\<close>

section \<open>Permissions\<close>

datatype permission =
    CREATE_REQUEST
  | VIEW_OWN_REQUEST
  | VIEW_ASSIGNED_REQUEST
  | VIEW_ALL_REQUESTS
  | EDIT_OWN_REQUEST
  | WITHDRAW_OWN_REQUEST
  | WITHDRAW_ANY_REQUEST
  | SEARCH_REQUESTS
  | DECIDE_ASSIGNED_STAGE
  | VIEW_PENDING_APPROVALS
  | COMMENT_ON_REQUEST
  | MODERATE_COMMENT
  | UPLOAD_ATTACHMENT
  | REMOVE_OWN_ATTACHMENT
  | REMOVE_ANY_ATTACHMENT
  | VIEW_NOTIFICATIONS
  | VIEW_ALL_NOTIFICATIONS
  | MANAGE_WORKFLOW_DEFINITIONS
  | VIEW_ACTIVE_WORKFLOW_DEFINITIONS
  | VIEW_AUDIT_TRAIL_SCOPED
  | VIEW_AUDIT_TRAIL_ALL
  | MANAGE_USER_ROLES
  | UPDATE_OWN_PROFILE

fun permission_value :: "permission \<Rightarrow> string" where
  "permission_value CREATE_REQUEST = ''create_request''"
| "permission_value VIEW_OWN_REQUEST = ''view_own_request''"
| "permission_value VIEW_ASSIGNED_REQUEST = ''view_assigned_request''"
| "permission_value VIEW_ALL_REQUESTS = ''view_all_requests''"
| "permission_value EDIT_OWN_REQUEST = ''edit_own_request''"
| "permission_value WITHDRAW_OWN_REQUEST = ''withdraw_own_request''"
| "permission_value WITHDRAW_ANY_REQUEST = ''withdraw_any_request''"
| "permission_value SEARCH_REQUESTS = ''search_requests''"
| "permission_value DECIDE_ASSIGNED_STAGE = ''decide_assigned_stage''"
| "permission_value VIEW_PENDING_APPROVALS = ''view_pending_approvals''"
| "permission_value COMMENT_ON_REQUEST = ''comment_on_request''"
| "permission_value MODERATE_COMMENT = ''moderate_comment''"
| "permission_value UPLOAD_ATTACHMENT = ''upload_attachment''"
| "permission_value REMOVE_OWN_ATTACHMENT = ''remove_own_attachment''"
| "permission_value REMOVE_ANY_ATTACHMENT = ''remove_any_attachment''"
| "permission_value VIEW_NOTIFICATIONS = ''view_notifications''"
| "permission_value VIEW_ALL_NOTIFICATIONS = ''view_all_notifications''"
| "permission_value MANAGE_WORKFLOW_DEFINITIONS = ''manage_workflow_definitions''"
| "permission_value VIEW_ACTIVE_WORKFLOW_DEFINITIONS = ''view_active_workflow_definitions''"
| "permission_value VIEW_AUDIT_TRAIL_SCOPED = ''view_audit_trail_scoped''"
| "permission_value VIEW_AUDIT_TRAIL_ALL = ''view_audit_trail_all''"
| "permission_value MANAGE_USER_ROLES = ''manage_user_roles''"
| "permission_value UPDATE_OWN_PROFILE = ''update_own_profile''"

definition EMPLOYEE_PERMISSIONS :: "permission set" where
  "EMPLOYEE_PERMISSIONS =
     {CREATE_REQUEST, VIEW_OWN_REQUEST, EDIT_OWN_REQUEST, WITHDRAW_OWN_REQUEST, SEARCH_REQUESTS,
      COMMENT_ON_REQUEST, UPLOAD_ATTACHMENT, REMOVE_OWN_ATTACHMENT, VIEW_NOTIFICATIONS,
      VIEW_ACTIVE_WORKFLOW_DEFINITIONS, VIEW_AUDIT_TRAIL_SCOPED, UPDATE_OWN_PROFILE}"

definition APPROVER_PERMISSIONS :: "permission set" where
  "APPROVER_PERMISSIONS =
     EMPLOYEE_PERMISSIONS \<union> {VIEW_ASSIGNED_REQUEST, DECIDE_ASSIGNED_STAGE, VIEW_PENDING_APPROVALS}"

definition ADMIN_PERMISSIONS :: "permission set" where
  "ADMIN_PERMISSIONS =
     APPROVER_PERMISSIONS \<union>
     {VIEW_ALL_REQUESTS, WITHDRAW_ANY_REQUEST, MODERATE_COMMENT, REMOVE_ANY_ATTACHMENT,
      VIEW_ALL_NOTIFICATIONS, MANAGE_WORKFLOW_DEFINITIONS, VIEW_AUDIT_TRAIL_ALL, MANAGE_USER_ROLES}"

fun ROLE_PERMISSIONS :: "user_role \<Rightarrow> permission set" where
  "ROLE_PERMISSIONS Employee = EMPLOYEE_PERMISSIONS"
| "ROLE_PERMISSIONS Approver = APPROVER_PERMISSIONS"
| "ROLE_PERMISSIONS Admin = ADMIN_PERMISSIONS"

lemmas permission_defs = EMPLOYEE_PERMISSIONS_def APPROVER_PERMISSIONS_def ADMIN_PERMISSIONS_def

section \<open>Role predicates\<close>

definition has_permission :: "user_role \<Rightarrow> permission \<Rightarrow> bool" where
  "has_permission role permission = (permission \<in> ROLE_PERMISSIONS role)"

definition require_permission :: "user_role \<Rightarrow> permission \<Rightarrow> unit fallible" where
  "require_permission role permission =
     (if \<not> has_permission role permission
      then Inl (Raised (Auth (AuthPermissionDeniedError (user_role_value role) (permission_value permission))))
      else Inr ())"

definition require_role :: "user_role \<Rightarrow> user_role list \<Rightarrow> unit fallible" where
  "require_role role allowed_roles =
     (if role \<notin> set allowed_roles
      then Inl (Raised (Auth (RoleNotPermittedError (user_role_value role) (map user_role_value allowed_roles))))
      else Inr ())"

definition can_view_request :: "user_role \<Rightarrow> bool \<Rightarrow> bool \<Rightarrow> bool" where
  "can_view_request role is_requester is_assigned_approver =
     (if role = Admin then True else is_requester \<or> is_assigned_approver)"

definition can_edit_request :: "user_role \<Rightarrow> bool \<Rightarrow> bool \<Rightarrow> bool" where
  "can_edit_request role is_requester request_is_pending = (is_requester \<and> request_is_pending)"

definition can_withdraw_request :: "user_role \<Rightarrow> bool \<Rightarrow> bool \<Rightarrow> bool" where
  "can_withdraw_request role is_requester request_is_pending =
     (if role = Admin then True else is_requester \<and> request_is_pending)"

definition can_decide_stage :: "user_role \<Rightarrow> bool \<Rightarrow> bool \<Rightarrow> bool \<Rightarrow> bool" where
  "can_decide_stage role is_resolved_assignee is_role_eligible stage_is_pending =
     (if role \<notin> {Approver, Admin} then False
      else if \<not> stage_is_pending then False
      else is_resolved_assignee \<or> is_role_eligible)"

definition can_moderate_comment :: "user_role \<Rightarrow> bool" where
  "can_moderate_comment role = (role = Admin)"

definition can_remove_attachment :: "user_role \<Rightarrow> bool \<Rightarrow> bool \<Rightarrow> bool" where
  "can_remove_attachment role is_uploader request_is_pending =
     (if role = Admin then True else is_uploader \<and> request_is_pending)"

definition can_manage_workflow_definitions :: "user_role \<Rightarrow> bool" where
  "can_manage_workflow_definitions role = (role = Admin)"

definition can_view_audit_trail :: "user_role \<Rightarrow> bool \<Rightarrow> bool \<Rightarrow> bool" where
  "can_view_audit_trail role is_requester is_assigned_approver =
     can_view_request role is_requester is_assigned_approver"

definition can_manage_user_roles :: "user_role \<Rightarrow> bool" where
  "can_manage_user_roles role = (role = Admin)"

section \<open>Guards\<close>

definition ensure_not_expired :: "timestamp \<Rightarrow> identity \<Rightarrow> unit fallible" where
  "ensure_not_expired now ident =
     (if is_expired now ident then Inl (Raised (Auth SessionExpiredError)) else Inr ())"

definition require_ownership :: "bool \<Rightarrow> string \<Rightarrow> unit fallible" where
  "require_ownership allowed resource =
     (if \<not> allowed then Inl (Raised (Auth (OwnershipRequiredError resource))) else Inr ())"

definition rbac_permission_denied :: "user_role \<Rightarrow> string \<Rightarrow> exn" where
  "rbac_permission_denied role permission_name =
     Raised (Auth (AuthPermissionDeniedError (user_role_value role) permission_name))"

definition authorize_permission :: "timestamp \<Rightarrow> identity \<Rightarrow> permission \<Rightarrow> unit fallible" where
  "authorize_permission now ident permission =
     bind_result (ensure_not_expired now ident) (\<lambda>_. require_permission (id_role ident) permission)"

definition authorize_role :: "timestamp \<Rightarrow> identity \<Rightarrow> user_role list \<Rightarrow> unit fallible" where
  "authorize_role now ident allowed_roles =
     bind_result (ensure_not_expired now ident) (\<lambda>_. require_role (id_role ident) allowed_roles)"

definition authorize_request_view :: "timestamp \<Rightarrow> identity \<Rightarrow> bool \<Rightarrow> bool \<Rightarrow> unit fallible" where
  "authorize_request_view now ident is_requester is_assigned_approver =
     bind_result (ensure_not_expired now ident) (\<lambda>_.
       require_ownership (can_view_request (id_role ident) is_requester is_assigned_approver) ''request'')"

definition authorize_request_edit :: "timestamp \<Rightarrow> identity \<Rightarrow> bool \<Rightarrow> bool \<Rightarrow> unit fallible" where
  "authorize_request_edit now ident is_requester request_is_pending =
     bind_result (ensure_not_expired now ident) (\<lambda>_.
       require_ownership (can_edit_request (id_role ident) is_requester request_is_pending) ''request'')"

definition authorize_request_withdrawal :: "timestamp \<Rightarrow> identity \<Rightarrow> bool \<Rightarrow> bool \<Rightarrow> unit fallible" where
  "authorize_request_withdrawal now ident is_requester request_is_pending =
     bind_result (ensure_not_expired now ident) (\<lambda>_.
       require_ownership (can_withdraw_request (id_role ident) is_requester request_is_pending) ''request'')"

definition authorize_stage_decision :: "timestamp \<Rightarrow> identity \<Rightarrow> bool \<Rightarrow> bool \<Rightarrow> bool \<Rightarrow> unit fallible" where
  "authorize_stage_decision now ident is_resolved_assignee is_role_eligible stage_is_pending =
     bind_result (ensure_not_expired now ident) (\<lambda>_.
       require_ownership
         (can_decide_stage (id_role ident) is_resolved_assignee is_role_eligible stage_is_pending)
         ''workflow stage'')"

definition authorize_comment_moderation :: "timestamp \<Rightarrow> identity \<Rightarrow> unit fallible" where
  "authorize_comment_moderation now ident =
     bind_result (ensure_not_expired now ident) (\<lambda>_.
       if \<not> can_moderate_comment (id_role ident)
       then Inl (rbac_permission_denied (id_role ident) ''moderate_comment'') else Inr ())"

definition authorize_attachment_removal :: "timestamp \<Rightarrow> identity \<Rightarrow> bool \<Rightarrow> bool \<Rightarrow> unit fallible" where
  "authorize_attachment_removal now ident is_uploader request_is_pending =
     bind_result (ensure_not_expired now ident) (\<lambda>_.
       require_ownership (can_remove_attachment (id_role ident) is_uploader request_is_pending) ''attachment'')"

definition authorize_workflow_definition_management :: "timestamp \<Rightarrow> identity \<Rightarrow> unit fallible" where
  "authorize_workflow_definition_management now ident =
     bind_result (ensure_not_expired now ident) (\<lambda>_.
       if \<not> can_manage_workflow_definitions (id_role ident)
       then Inl (rbac_permission_denied (id_role ident) ''manage_workflow_definitions'') else Inr ())"

definition authorize_audit_trail_view :: "timestamp \<Rightarrow> identity \<Rightarrow> bool \<Rightarrow> bool \<Rightarrow> unit fallible" where
  "authorize_audit_trail_view now ident is_requester is_assigned_approver =
     bind_result (ensure_not_expired now ident) (\<lambda>_.
       require_ownership (can_view_audit_trail (id_role ident) is_requester is_assigned_approver)
         ''audit trail'')"

definition authorize_user_role_management :: "timestamp \<Rightarrow> identity \<Rightarrow> unit fallible" where
  "authorize_user_role_management now ident =
     bind_result (ensure_not_expired now ident) (\<lambda>_.
       if \<not> can_manage_user_roles (id_role ident)
       then Inl (rbac_permission_denied (id_role ident) ''manage_user_roles'') else Inr ())"

definition authorize_platform_admin :: "timestamp \<Rightarrow> identity \<Rightarrow> unit fallible" where
  "authorize_platform_admin now ident =
     bind_result (ensure_not_expired now ident) (\<lambda>_.
       if \<not> id_is_platform_admin ident
       then Inl (rbac_permission_denied (id_role ident) ''platform_admin'') else Inr ())"

section \<open>What the guards admit\<close>

text \<open>
  Every guard has the same shape: the session is live and a predicate of the caller holds. The
  locale states that contract once; each guard of the module interprets it with its own predicate.
\<close>

locale session_guard =
  fixes guard :: "timestamp \<Rightarrow> identity \<Rightarrow> unit fallible"
    and allows :: "identity \<Rightarrow> bool"
  assumes live: "guard now ident = Inr () \<longleftrightarrow> \<not> is_expired now ident \<and> allows ident"
    and expired: "is_expired now ident \<Longrightarrow> guard now ident = Inl (Raised (Auth SessionExpiredError))"
begin

lemma refuses_expired: "is_expired now ident \<Longrightarrow> guard now ident \<noteq> Inr ()"
  by (simp add: live)

lemma monotone_in_time:
  assumes "guard now ident = Inr ()" and "earlier \<le> now"
  shows "guard earlier ident = Inr ()"
  using assms by (auto simp: live is_expired_def is_past_def split: option.splits)

lemma admits_unexpiring:
  "id_expires_at ident = None \<Longrightarrow> guard now ident = Inr () \<longleftrightarrow> allows ident"
  by (simp add: live is_expired_def)

lemma expiry_is_final:
  assumes "guard now ident = Inl (Raised (Auth SessionExpiredError))" and "allows ident" and "now \<le> later"
  shows "guard later ident = Inl (Raised (Auth SessionExpiredError))"
proof -
  have "guard now ident \<noteq> Inr ()" using assms(1) by simp
  with assms(2) have "is_expired now ident" using live by blast
  with assms(3) have "is_expired later ident"
    by (auto simp: is_expired_def is_past_def split: option.splits)
  then show ?thesis by (rule expired)
qed

end

lemmas guard_simps = bind_result_def ensure_not_expired_def require_ownership_def
  require_permission_def require_role_def rbac_permission_denied_def

interpretation permission_guard: session_guard
  "\<lambda>now ident. authorize_permission now ident p" "\<lambda>ident. has_permission (id_role ident) p"
  for p
  by unfold_locales (auto simp: authorize_permission_def guard_simps)

interpretation role_guard: session_guard
  "\<lambda>now ident. authorize_role now ident roles" "\<lambda>ident. id_role ident \<in> set roles"
  for roles
  by unfold_locales (auto simp: authorize_role_def guard_simps)

interpretation view_guard: session_guard
  "\<lambda>now ident. authorize_request_view now ident r a" "\<lambda>ident. can_view_request (id_role ident) r a"
  for r a
  by unfold_locales (auto simp: authorize_request_view_def guard_simps)

interpretation edit_guard: session_guard
  "\<lambda>now ident. authorize_request_edit now ident r p" "\<lambda>ident. can_edit_request (id_role ident) r p"
  for r p
  by unfold_locales (auto simp: authorize_request_edit_def guard_simps)

interpretation withdrawal_guard: session_guard
  "\<lambda>now ident. authorize_request_withdrawal now ident r p" "\<lambda>ident. can_withdraw_request (id_role ident) r p"
  for r p
  by unfold_locales (auto simp: authorize_request_withdrawal_def guard_simps)

interpretation decision_guard: session_guard
  "\<lambda>now ident. authorize_stage_decision now ident a e p" "\<lambda>ident. can_decide_stage (id_role ident) a e p"
  for a e p
  by unfold_locales (auto simp: authorize_stage_decision_def guard_simps)

interpretation moderation_guard: session_guard
  authorize_comment_moderation "\<lambda>ident. can_moderate_comment (id_role ident)"
  by unfold_locales (auto simp: authorize_comment_moderation_def guard_simps)

interpretation attachment_guard: session_guard
  "\<lambda>now ident. authorize_attachment_removal now ident u p"
  "\<lambda>ident. can_remove_attachment (id_role ident) u p"
  for u p
  by unfold_locales (auto simp: authorize_attachment_removal_def guard_simps)

interpretation definition_guard: session_guard
  authorize_workflow_definition_management
  "\<lambda>ident. can_manage_workflow_definitions (id_role ident)"
  by unfold_locales (auto simp: authorize_workflow_definition_management_def guard_simps)

interpretation audit_guard: session_guard
  "\<lambda>now ident. authorize_audit_trail_view now ident r a"
  "\<lambda>ident. can_view_audit_trail (id_role ident) r a"
  for r a
  by unfold_locales (auto simp: authorize_audit_trail_view_def guard_simps)

interpretation user_role_guard: session_guard
  authorize_user_role_management "\<lambda>ident. can_manage_user_roles (id_role ident)"
  by unfold_locales (auto simp: authorize_user_role_management_def guard_simps)

interpretation platform_guard: session_guard
  authorize_platform_admin id_is_platform_admin
  by unfold_locales (auto simp: authorize_platform_admin_def guard_simps)

text \<open>
  The stage-decision guard admits exactly the live sessions of an approver or administrator who
  is the resolved assignee or holds the eligible role, on a pending stage; being an administrator is
  not enough by itself, and no employee is ever admitted.
\<close>

theorem stage_decision_admits:
  "authorize_stage_decision now ident assignee eligible pending = Inr () \<longleftrightarrow>
     \<not> is_expired now ident \<and> id_role ident \<noteq> Employee \<and> pending \<and> (assignee \<or> eligible)"
  by (cases "id_role ident") (auto simp: decision_guard.live can_decide_stage_def)

text \<open>
  The two descriptions of the roles agree. The table grows with the role (employee, approver,
  administrator, each strictly more), and every predicate of \<open>rbac.py\<close> that looks at the role alone
  answers as the table does for the corresponding permission; the administrator-only shortcuts of the
  others are table permissions too.
\<close>

theorem rbac_agrees_with_permission_table:
  "ROLE_PERMISSIONS Employee \<subset> ROLE_PERMISSIONS Approver \<and>
   ROLE_PERMISSIONS Approver \<subset> ROLE_PERMISSIONS Admin \<and>
   can_moderate_comment role = has_permission role MODERATE_COMMENT \<and>
   can_manage_workflow_definitions role = has_permission role MANAGE_WORKFLOW_DEFINITIONS \<and>
   can_manage_user_roles role = has_permission role MANAGE_USER_ROLES \<and>
   can_view_request role False False = has_permission role VIEW_ALL_REQUESTS \<and>
   can_withdraw_request role False False = has_permission role WITHDRAW_ANY_REQUEST \<and>
   can_remove_attachment role False False = has_permission role REMOVE_ANY_ATTACHMENT \<and>
   can_decide_stage role True False True = has_permission role DECIDE_ASSIGNED_STAGE"
proof -
  have "VIEW_ASSIGNED_REQUEST \<notin> EMPLOYEE_PERMISSIONS" "VIEW_ALL_REQUESTS \<notin> APPROVER_PERMISSIONS"
    by (simp_all add: permission_defs)
  then have "ROLE_PERMISSIONS Employee \<subset> ROLE_PERMISSIONS Approver"
    "ROLE_PERMISSIONS Approver \<subset> ROLE_PERMISSIONS Admin"
    by (auto simp: APPROVER_PERMISSIONS_def ADMIN_PERMISSIONS_def)
  then show ?thesis
    by (cases role)
      (simp_all add: has_permission_def permission_defs can_moderate_comment_def
        can_manage_workflow_definitions_def can_manage_user_roles_def can_view_request_def
        can_withdraw_request_def can_remove_attachment_def can_decide_stage_def)
qed

end
