(* ===== verification/Engine.thy ===== *)
theory Engine imports WorkflowModel Identity StateMachine "HOL-Library.List_Lexorder" "HOL-Library.Char_ord"
begin

text \<open>
  The workflow engine, \<open>app/workflow/\<close>: resolution of the active definition, generation of the next
  stage, resolution of a stage's assignment, escalation, versioning and the assignee check, and the
  \<open>WorkflowEngine\<close> facade over them. No function here performs I/O. Names are compared by code point,
  as Python compares strings; durations in hours are rationals and become microseconds by
  \<open>timedelta\<close>'s rounding (half to even).
\<close>

section \<open>Definition resolution\<close>

definition resolve_definition ::
  "string \<Rightarrow> workflow_definition list \<Rightarrow> workflow_definition fallible" where
  "resolve_definition request_type candidates =
     (let active_matches =
        filter (\<lambda>c. wd_request_type c = request_type \<and> wd_is_active c) candidates in
      case active_matches of
        [] \<Rightarrow> Inl (Raised (Engine (NoActiveDefinitionError request_type)))
      | [resolved] \<Rightarrow> Inr resolved
      | _ \<Rightarrow> Inl (Raised (Engine (MultipleActiveDefinitionsError request_type (map wd_id active_matches)))))"

text \<open>
  Resolution succeeds exactly when one candidate is active for the type, and returns it; with
  none, or with several, it raises the matching error and names every conflicting definition.
\<close>

theorem resolve_definition_iff_unique:
  "(resolve_definition rt cs = Inr d \<longleftrightarrow> filter (\<lambda>c. wd_request_type c = rt \<and> wd_is_active c) cs = [d]) \<and>
   (resolve_definition rt cs = Inl (Raised (Engine (NoActiveDefinitionError rt))) \<longleftrightarrow>
      (\<nexists>c. c \<in> set cs \<and> wd_request_type c = rt \<and> wd_is_active c)) \<and>
   (resolve_definition rt cs = Inl (Raised (Engine (MultipleActiveDefinitionsError rt ids))) \<longleftrightarrow>
      1 < length (filter (\<lambda>c. wd_request_type c = rt \<and> wd_is_active c) cs) \<and>
      ids = map wd_id (filter (\<lambda>c. wd_request_type c = rt \<and> wd_is_active c) cs))"
proof -
  define active where "active = filter (\<lambda>c. wd_request_type c = rt \<and> wd_is_active c) cs"
  have none: "(\<nexists>c. c \<in> set cs \<and> wd_request_type c = rt \<and> wd_is_active c) \<longleftrightarrow> active = []"
    by (auto simp: active_def filter_empty_conv)
  show ?thesis
    unfolding none unfolding active_def [symmetric]
    by (auto simp: resolve_definition_def Let_def active_def [symmetric] split: list.splits)
qed

section \<open>Stage generation\<close>

definition validate_positive_integer :: "int \<Rightarrow> string \<Rightarrow> int fallible" where
  "validate_positive_integer value field_name =
     (if value \<le> 0 then Inl (Raised (Py (InputValidationError field_name))) else Inr value)"

definition first_stage :: "workflow_definition \<Rightarrow> stage_definition fallible" where
  "first_stage d =
     (case ordered_stages (wd_definition d) of
        [] \<Rightarrow> Inl (Raised (Py IndexError))
      | st # _ \<Rightarrow> Inr st)"

definition next_stage :: "workflow_definition \<Rightarrow> int \<Rightarrow> int \<Rightarrow> stage_definition option fallible" where
  "next_stage d current_order highest_existing_order =
     bind_result (validate_positive_integer current_order ''current_order'') (\<lambda>_.
     bind_result (validate_positive_integer highest_existing_order ''highest_existing_order'') (\<lambda>_.
       if highest_existing_order \<noteq> current_order
       then Inl (Raised (Engine (NonSequentialStageOrderError highest_existing_order current_order)))
       else Inr (List.find (\<lambda>st. sd_order st = current_order + 1) (ordered_stages (wd_definition d)))))"

definition is_final_stage :: "workflow_definition \<Rightarrow> int \<Rightarrow> bool fallible" where
  "is_final_stage d stage_order =
     (let orders = map sd_order (doc_stages (wd_definition d)) in
      if stage_order \<notin> set orders then Inl (Raised (Engine (StageNotFoundInDefinitionError stage_order)))
      else Inr (stage_order = Max (set orders)))"

lemma first_stage_valid:
  assumes "valid_document (wd_definition d)"
  shows "first_stage d = Inr (ordered_stages (wd_definition d) ! 0)"
  using ordered_stages_Cons [OF assms] by (auto simp: first_stage_def)

lemma find_order:
  assumes v: "valid_document doc" and k: "k < length (doc_stages doc)"
  shows "List.find (\<lambda>st. sd_order st = int k + 1) (ordered_stages doc) = Some (ordered_stages doc ! k)"
  unfolding find_Some_iff
  using k ordered_stages_order [OF v] by (intro exI [of _ k]) auto

lemma find_order_None:
  assumes v: "valid_document doc" and k: "int (length (doc_stages doc)) < k"
  shows "List.find (\<lambda>st. sd_order st = k) (ordered_stages doc) = None"
proof -
  have "sd_order st < k" if "st \<in> set (ordered_stages doc)" for st
  proof -
    from that have "sd_order st \<in> set (map sd_order (doc_stages doc))" by simp
    with k show ?thesis by (simp only: valid_document_orders [OF v]) simp
  qed
  then show ?thesis by (force simp: find_None_iff)
qed

lemma next_stage_valid:
  assumes v: "valid_document (wd_definition d)" and k: "0 < k"
  shows "next_stage d (int k) (int k) =
     Inr (if k < length (doc_stages (wd_definition d))
          then Some (ordered_stages (wd_definition d) ! k) else None)"
proof -
  have "List.find (\<lambda>st. sd_order st = int k + 1) (ordered_stages (wd_definition d)) =
      (if k < length (doc_stages (wd_definition d)) then Some (ordered_stages (wd_definition d) ! k) else None)"
    using find_order [OF v] find_order_None [OF v, of "int k + 1"] by auto
  with k show ?thesis by (simp add: next_stage_def validate_positive_integer_def bind_result_def)
qed

lemma is_final_stage_valid:
  assumes v: "valid_document (wd_definition d)" and k: "0 < k" "k \<le> length (doc_stages (wd_definition d))"
  shows "is_final_stage d (int k) = Inr (k = length (doc_stages (wd_definition d)))"
proof -
  let ?n = "int (length (doc_stages (wd_definition d)))"
  have "{1..?n} \<noteq> {}" using k by simp
  then have "Max {1..?n} = ?n" by (intro Max_eqI) auto
  with k show ?thesis
    by (simp only: is_final_stage_def Let_def valid_document_orders [OF v]) auto
qed

text \<open>
  The walk of a request through its definition: start at the first stage and ask for the next one
  until there is none. \<open>fuel\<close> bounds the number of stages asked for.
\<close>

fun walk_from :: "nat \<Rightarrow> workflow_definition \<Rightarrow> stage_definition \<Rightarrow> stage_definition list option" where
  "walk_from 0 d st = None"
| "walk_from (Suc fuel) d st =
     (case next_stage d (sd_order st) (sd_order st) of
        Inl _ \<Rightarrow> None
      | Inr None \<Rightarrow> Some [st]
      | Inr (Some st') \<Rightarrow> map_option (Cons st) (walk_from fuel d st'))"

lemma walk_from_valid:
  assumes v: "valid_document (wd_definition d)"
  shows "k < length (doc_stages (wd_definition d)) \<Longrightarrow>
     length (doc_stages (wd_definition d)) - k \<le> fuel \<Longrightarrow>
     walk_from fuel d (ordered_stages (wd_definition d) ! k) = Some (drop k (ordered_stages (wd_definition d)))"
proof (induction fuel arbitrary: k)
  case 0
  then show ?case by simp
next
  case (Suc fuel)
  let ?os = "ordered_stages (wd_definition d)"
  have order: "sd_order (?os ! k) = int (Suc k)"
    using ordered_stages_order [OF v Suc.prems(1)] by simp
  have drop: "drop k ?os = ?os ! k # drop (Suc k) ?os"
    using Suc.prems(1) by (simp add: Cons_nth_drop_Suc)
  show ?case
  proof (cases "Suc k < length (doc_stages (wd_definition d))")
    case True
    then have "next_stage d (int (Suc k)) (int (Suc k)) = Inr (Some (?os ! Suc k))"
      by (subst next_stage_valid [OF v]) simp_all
    with True Suc order drop show ?thesis by simp
  next
    case False
    then have "next_stage d (int (Suc k)) (int (Suc k)) = Inr None"
      by (subst next_stage_valid [OF v]) simp_all
    with False Suc.prems order drop show ?thesis by simp
  qed
qed

text \<open>
  Stage generation visits every stage of a validated definition once, in order, and then stops:
  from the first stage, repeated \<open>next_stage\<close> calls (each with \<open>highest_existing_order\<close> equal to the
  order just decided) produce exactly \<open>ordered_stages()\<close>, within as many steps as there are stages,
  and \<open>is_final_stage\<close> is true of the last order only. A stale \<open>highest_existing_order\<close> is refused.
\<close>

theorem stage_generation_walks_definition:
  assumes "WorkflowDefinitionDocument raw = Inr doc" and "wd_definition d = doc"
  shows "bind_result (first_stage d) (\<lambda>st. Inr (walk_from (length raw) d st)) = Inr (Some (ordered_stages doc)) \<and>
    (\<forall>k\<in>{1..length raw}. is_final_stage d (int k) = Inr (k = length raw)) \<and>
    (\<forall>k h. 0 < k \<longrightarrow> 0 < h \<longrightarrow> h \<noteq> k \<longrightarrow>
       next_stage d k h = Inl (Raised (Engine (NonSequentialStageOrderError h k))))"
proof -
  have v: "valid_document (wd_definition d)"
    using WorkflowDefinitionDocument_valid assms by simp
  have len: "length (doc_stages (wd_definition d)) = length raw"
    using document_length [OF assms(1)] assms(2) by simp
  with v have "0 < length raw" using valid_document_nonempty by fastforce
  with len walk_from_valid [OF v, of 0 "length raw"] have
    "bind_result (first_stage d) (\<lambda>st. Inr (walk_from (length raw) d st)) = Inr (Some (ordered_stages doc))"
    by (simp add: first_stage_valid [OF v] bind_result_def assms(2))
  moreover have "\<forall>k\<in>{1..length raw}. is_final_stage d (int k) = Inr (k = length raw)"
    using is_final_stage_valid [OF v] len by auto
  ultimately show ?thesis
    by (simp add: next_stage_def validate_positive_integer_def bind_result_def)
qed

definition sample_definition :: workflow_definition where
  "sample_definition =
     \<lparr>wd_id = 50, wd_request_type = ''purchase'', wd_version = 1, wd_definition = sample_document,
      wd_is_active = True, wd_created_by = Some 1, wd_row_version = 1, wd_created_at = 0\<rparr>"

theorem stage_generation_walks_definition_witness:
  "bind_result (first_stage sample_definition) (\<lambda>st. Inr (walk_from 2 sample_definition st)) =
     Inr (Some (ordered_stages sample_document)) \<and>
   next_stage sample_definition 1 2 = Inl (Raised (Engine (NonSequentialStageOrderError 2 1)))"
  using stage_generation_walks_definition [OF sample_document_ok, of sample_definition]
  by (simp add: sample_definition_def numeral_2_eq_2)

section \<open>Assignment\<close>

record assignment_result =
  ar_assigned_to :: "uuid option"
  ar_assigned_role :: "user_role option"
  ar_used_fallback :: bool
  ar_fallback_reason :: "string option"

definition ESCALATION_FALLBACK_ROLE :: user_role where
  "ESCALATION_FALLBACK_ROLE = Admin"

definition FALLBACK_REASON_NO_DEPARTMENT_APPROVER :: string where
  "FALLBACK_REASON_NO_DEPARTMENT_APPROVER =
     ''No department-designated approver could be resolved for the requester's '' @
     ''department; the stage was routed to administrator attention as a fallback, '' @
     ''per WEDD Section 7.5.''"

definition resolve_specific_user :: "stage_definition \<Rightarrow> assignment_result" where
  "resolve_specific_user st =
     \<lparr>ar_assigned_to = sd_assigned_user_id st, ar_assigned_role = None,
      ar_used_fallback = False, ar_fallback_reason = None\<rparr>"

definition resolve_department_queue :: "stage_definition \<Rightarrow> assignment_result" where
  "resolve_department_queue st =
     \<lparr>ar_assigned_to = None, ar_assigned_role = sd_assigned_role st,
      ar_used_fallback = False, ar_fallback_reason = None\<rparr>"

definition resolve_requester_manager :: "profile \<Rightarrow> profile list \<Rightarrow> assignment_result" where
  "resolve_requester_manager requester department_approvers =
     (case sort_key pf_full_name
             (filter (\<lambda>a. pf_department a = pf_department requester) department_approvers) of
        chosen # _ \<Rightarrow>
          \<lparr>ar_assigned_to = Some (pf_id chosen), ar_assigned_role = None,
           ar_used_fallback = False, ar_fallback_reason = None\<rparr>
      | [] \<Rightarrow>
          \<lparr>ar_assigned_to = None, ar_assigned_role = Some ESCALATION_FALLBACK_ROLE,
           ar_used_fallback = True,
           ar_fallback_reason = Some FALLBACK_REASON_NO_DEPARTMENT_APPROVER\<rparr>)"

definition resolve_assignment :: "stage_definition \<Rightarrow> profile \<Rightarrow> profile list \<Rightarrow> assignment_result" where
  "resolve_assignment st requester department_approvers =
     (if sd_strategy st = SpecificUser then resolve_specific_user st
      else if sd_strategy st = DepartmentQueue then resolve_department_queue st
      else resolve_requester_manager requester department_approvers)"

lemma sort_key_hd_least:
  assumes "sort_key f xs = y # ys"
  shows "y \<in> set xs \<and> (\<forall>x\<in>set xs. f y \<le> f x)"
proof -
  have "sorted (map f (y # ys))" using sorted_sort_key [of f xs] assms by simp
  moreover have "set xs = set (y # ys)" using assms set_sort by metis
  ultimately show ?thesis by auto
qed

text \<open>
  Assignment of a validated stage always names exactly one of a person and a role. A
  \<open>requester_manager\<close> stage goes to an approver of the requester's department whose name is
  alphabetically least among the candidates of that department, and it falls back to the
  administrators, with the reason recorded, exactly when the candidate list has nobody there.
\<close>

theorem assignment_total:
  assumes "valid_stage st"
  shows "let r = resolve_assignment st requester cands in
    (ar_assigned_to r = None) = (ar_assigned_role r \<noteq> None) \<and>
    (ar_used_fallback r = (ar_fallback_reason r \<noteq> None)) \<and>
    (ar_used_fallback r \<longleftrightarrow>
       sd_strategy st = RequesterManager \<and>
       filter (\<lambda>c. pf_department c = pf_department requester) cands = []) \<and>
    (ar_used_fallback r \<longrightarrow> ar_assigned_role r = Some Admin) \<and>
    (sd_strategy st = RequesterManager \<longrightarrow> \<not> ar_used_fallback r \<longrightarrow>
       (\<exists>a\<in>set cands. ar_assigned_to r = Some (pf_id a) \<and> pf_department a = pf_department requester \<and>
          (\<forall>c\<in>set cands. pf_department c = pf_department requester \<longrightarrow> pf_full_name a \<le> pf_full_name c)))"
proof (cases "sd_strategy st")
  case RequesterManager
  define eligible where "eligible = filter (\<lambda>c. pf_department c = pf_department requester) cands"
  show ?thesis
  proof (cases "sort_key pf_full_name eligible")
    case Nil
    then have "eligible = []" by (metis length_0_conv length_sort)
    with Nil RequesterManager show ?thesis
      unfolding eligible_def
      by (simp add: resolve_assignment_def resolve_requester_manager_def ESCALATION_FALLBACK_ROLE_def)
  next
    case (Cons a as)
    then have "eligible \<noteq> []" by auto
    moreover from sort_key_hd_least [OF Cons] have "a \<in> set cands" "pf_department a = pf_department requester"
      "\<forall>c\<in>set cands. pf_department c = pf_department requester \<longrightarrow> pf_full_name a \<le> pf_full_name c"
      by (auto simp: eligible_def)
    ultimately show ?thesis
      using Cons RequesterManager unfolding eligible_def
      by (auto simp: resolve_assignment_def resolve_requester_manager_def)
  qed
qed (use assms in \<open>auto simp: valid_stage_def resolve_assignment_def resolve_specific_user_def
        resolve_department_queue_def\<close>)

definition sample_profile :: "uuid \<Rightarrow> string \<Rightarrow> user_role \<Rightarrow> string \<Rightarrow> profile" where
  "sample_profile i nm r dep =
     \<lparr>pf_id = i, pf_full_name = nm, pf_role = r, pf_department = Some dep, pf_version = 1,
      pf_company_id = 100, pf_is_platform_admin = False\<rparr>"

theorem assignment_total_witness:
  "ar_assigned_to (resolve_assignment (sample_stage 1 RequesterManager)
      (sample_profile 1 ''Zed'' Employee ''Finance'')
      [sample_profile 2 ''Mia'' Approver ''Finance'', sample_profile 3 ''Abe'' Approver ''Finance'']) = Some 3"
proof -
  have v: "valid_stage (sample_stage 1 RequesterManager)"
    by (simp add: valid_stage_def sample_stage_def)
  have "ar_assigned_to (resolve_assignment (sample_stage 1 RequesterManager)
      (sample_profile 1 ''Zed'' Employee ''Finance'')
      [sample_profile 2 ''Mia'' Approver ''Finance'', sample_profile 3 ''Abe'' Approver ''Finance'']) \<noteq> None"
    using assignment_total [OF v, of "sample_profile 1 ''Zed'' Employee ''Finance''"
      "[sample_profile 2 ''Mia'' Approver ''Finance'', sample_profile 3 ''Abe'' Approver ''Finance'']"]
    by (auto simp: Let_def sample_stage_def sample_profile_def)
  then show ?thesis by code_simp
qed

section \<open>Stage plans\<close>

record stage_plan =
  sp_stage_order :: int
  sp_stage_name :: string
  sp_assigned_to :: "uuid option"
  sp_assigned_role :: "user_role option"
  sp_used_fallback :: bool
  sp_fallback_reason :: "string option"
  sp_is_final_stage :: bool

definition to_stage_plan ::
  "workflow_definition \<Rightarrow> stage_definition \<Rightarrow> assignment_result \<Rightarrow> stage_plan fallible" where
  "to_stage_plan d stage_def assignment =
     bind_result (is_final_stage d (sd_order stage_def)) (\<lambda>final.
       Inr \<lparr>sp_stage_order = sd_order stage_def, sp_stage_name = sd_name stage_def,
            sp_assigned_to = ar_assigned_to assignment, sp_assigned_role = ar_assigned_role assignment,
            sp_used_fallback = ar_used_fallback assignment,
            sp_fallback_reason = ar_fallback_reason assignment, sp_is_final_stage = final\<rparr>)"

definition plan_first_stage ::
  "workflow_definition \<Rightarrow> profile \<Rightarrow> profile list \<Rightarrow> stage_plan fallible" where
  "plan_first_stage d requester department_approvers =
     bind_result (first_stage d) (\<lambda>stage_def.
       to_stage_plan d stage_def (resolve_assignment stage_def requester department_approvers))"

definition plan_next_stage ::
  "workflow_definition \<Rightarrow> int \<Rightarrow> int \<Rightarrow> profile \<Rightarrow> profile list \<Rightarrow> stage_plan option fallible" where
  "plan_next_stage d current_order highest_existing_order requester department_approvers =
     bind_result (next_stage d current_order highest_existing_order) (\<lambda>nxt.
       case nxt of
         None \<Rightarrow> Inr None
       | Some stage_def \<Rightarrow>
           bind_result (to_stage_plan d stage_def (resolve_assignment stage_def requester department_approvers))
             (\<lambda>plan. Inr (Some plan)))"

lemma to_stage_plan_valid:
  assumes v: "valid_document (wd_definition d)" and k: "k < length (doc_stages (wd_definition d))"
    and st: "st = ordered_stages (wd_definition d) ! k"
  shows "to_stage_plan d st a = Inr
     \<lparr>sp_stage_order = int k + 1, sp_stage_name = sd_name st,
      sp_assigned_to = ar_assigned_to a, sp_assigned_role = ar_assigned_role a,
      sp_used_fallback = ar_used_fallback a, sp_fallback_reason = ar_fallback_reason a,
      sp_is_final_stage = (Suc k = length (doc_stages (wd_definition d)))\<rparr>"
proof -
  have o: "sd_order st = int (Suc k)" using ordered_stages_order [OF v k] st by simp
  with is_final_stage_valid [OF v, of "Suc k"] k show ?thesis
    by (simp add: to_stage_plan_def bind_result_def)
qed

lemma plan_first_stage_order:
  assumes v: "valid_document (wd_definition d)" and p: "plan_first_stage d rq cands = Inr plan"
  shows "sp_stage_order plan = 1"
  using p to_stage_plan_valid [OF v valid_document_nonempty [OF v] refl]
  by (auto simp: plan_first_stage_def first_stage_valid [OF v] bind_result_def)

lemma plan_next_stage_cases:
  assumes v: "valid_document (wd_definition d)"
    and p: "plan_next_stage d k h rq cands = Inr res"
  shows "0 < k \<and> h = k \<and>
    (case res of
       None \<Rightarrow> int (length (doc_stages (wd_definition d))) \<le> k
     | Some plan \<Rightarrow> sp_stage_order plan = k + 1 \<and> k < int (length (doc_stages (wd_definition d))))"
proof -
  from p have k: "0 < k" "h = k"
    by (auto simp: plan_next_stage_def next_stage_def validate_positive_integer_def bind_result_def
        split: if_splits)
  then obtain n where n: "k = int n" "0 < n"
    by (metis of_nat_0_less_iff pos_int_cases)
  show ?thesis
  proof (cases "n < length (doc_stages (wd_definition d))")
    case True
    with p k n v show ?thesis
      by (auto simp: plan_next_stage_def next_stage_valid bind_result_def to_stage_plan_valid)
  next
    case False
    with p k n v show ?thesis
      by (auto simp: plan_next_stage_def next_stage_valid bind_result_def)
  qed
qed

section \<open>Escalation\<close>

definition round_half_even :: "rat \<Rightarrow> int" where
  "round_half_even x =
     (let f = \<lfloor>x\<rfloor>; frac = x - of_int f in
      if frac < 1 / 2 then f else if 1 / 2 < frac then f + 1 else if even f then f else f + 1)"

definition add_hours :: "timestamp \<Rightarrow> rat \<Rightarrow> timestamp" where
  "add_hours value hours = value + round_half_even (hours * 3600000000)"

definition validate_positive_number :: "rat \<Rightarrow> string \<Rightarrow> rat fallible" where
  "validate_positive_number value field_name =
     (if value \<le> 0 then Inl (Raised (Py (InputValidationError field_name))) else Inr value)"

definition compute_threshold :: "timestamp \<Rightarrow> rat \<Rightarrow> timestamp fallible" where
  "compute_threshold stage_created_at escalation_hours =
     bind_result (validate_positive_number escalation_hours ''escalation_hours'') (\<lambda>_.
       Inr (add_hours stage_created_at escalation_hours))"

definition is_eligible :: "timestamp \<Rightarrow> rat \<Rightarrow> timestamp \<Rightarrow> bool fallible" where
  "is_eligible stage_created_at escalation_hours now =
     bind_result (compute_threshold stage_created_at escalation_hours) (\<lambda>threshold.
       Inr (is_past threshold now))"

record escalation_plan =
  ep_previous_assigned_to :: "uuid option"
  ep_previous_assigned_role :: "user_role option"
  ep_new_assigned_to :: "uuid option"
  ep_new_assigned_role :: user_role

definition plan_escalation :: "uuid option \<Rightarrow> user_role option \<Rightarrow> escalation_plan" where
  "plan_escalation current_assigned_to current_assigned_role =
     \<lparr>ep_previous_assigned_to = current_assigned_to, ep_previous_assigned_role = current_assigned_role,
      ep_new_assigned_to = None, ep_new_assigned_role = ESCALATION_FALLBACK_ROLE\<rparr>"

lemma round_half_even_mono:
  assumes "x \<le> y"
  shows "round_half_even x \<le> round_half_even y"
proof (cases "\<lfloor>x\<rfloor> = \<lfloor>y\<rfloor>")
  case True
  with assms show ?thesis by (auto simp: round_half_even_def Let_def)
next
  case False
  with assms have "\<lfloor>x\<rfloor> + 1 \<le> \<lfloor>y\<rfloor>" using floor_mono [OF assms] by linarith
  then show ?thesis by (auto simp: round_half_even_def Let_def)
qed

text \<open>
  Escalation eligibility. For a positive duration a stage is never eligible at or before the
  instant it was created, eligibility is monotone (once reached it stays, and a shorter duration is
  reached no later), and a non-positive duration raises instead of answering.
\<close>

theorem escalation_eligibility_monotone:
  assumes "is_eligible created hours now = Inr True"
  shows "created < now \<and> 0 < hours \<and>
    (\<forall>later \<ge> now. is_eligible created hours later = Inr True) \<and>
    (\<forall>shorter. 0 < shorter \<longrightarrow> shorter \<le> hours \<longrightarrow> is_eligible created shorter now = Inr True) \<and>
    (\<forall>bad \<le> 0. is_eligible created bad now = Inl (Raised (Py (InputValidationError ''escalation_hours''))))"
proof -
  have h: "0 < hours" and past: "created + round_half_even (hours * 3600000000) < now"
    using assms
    by (auto simp: is_eligible_def compute_threshold_def validate_positive_number_def bind_result_def
        is_past_def add_hours_def split: if_splits)
  have "0 \<le> round_half_even (hours * 3600000000)"
    using round_half_even_mono [of 0 "hours * 3600000000"] h by (simp add: round_half_even_def)
  moreover have "round_half_even (shorter * 3600000000) \<le> round_half_even (hours * 3600000000)"
    if "shorter \<le> hours" for shorter
    using that by (intro round_half_even_mono) simp
  ultimately show ?thesis using h past
    by (fastforce simp: is_eligible_def compute_threshold_def validate_positive_number_def bind_result_def
        is_past_def add_hours_def)
qed

theorem escalation_eligibility_monotone_witness:
  "is_eligible 0 (1 / 2) 1800000001 = Inr True \<and> is_eligible 0 (1 / 2) 1800000002 = Inr True \<and>
   is_eligible 0 (1 / 4) 1800000001 = Inr True"
proof -
  have h: "is_eligible 0 (1 / 2) 1800000001 = Inr True" by code_simp
  from escalation_eligibility_monotone [OF h] h show ?thesis by simp
qed

section \<open>Versions and assignees\<close>

definition next_version_number :: "int list \<Rightarrow> int" where
  "next_version_number existing_versions =
     (case existing_versions of [] \<Rightarrow> 0 | v # vs \<Rightarrow> fold max vs v) + 1"

definition validate_edit_allowed :: "workflow_definition \<Rightarrow> unit fallible" where
  "validate_edit_allowed d =
     (if wd_is_active d then Inl (Raised (Engine (DefinitionEditNotAllowedError (wd_id d)))) else Inr ())"

definition validate_activation ::
  "workflow_definition \<Rightarrow> workflow_definition option \<Rightarrow> unit fallible" where
  "validate_activation candidate currently_active =
     (if wd_is_active candidate then Inl (Raised (Engine (DefinitionAlreadyActiveError (wd_id candidate))))
      else case currently_active of
        None \<Rightarrow> Inr ()
      | Some cur \<Rightarrow>
          if wd_request_type cur \<noteq> wd_request_type candidate
          then Inl (Raised (Engine (MismatchedRequestTypeError (wd_request_type candidate) (wd_request_type cur))))
          else if wd_id cur = wd_id candidate
          then Inl (Raised (Engine (DefinitionAlreadyActiveError (wd_id candidate))))
          else Inr ())"

definition validate_specific_user_assignee :: "uuid set \<Rightarrow> stage_definition \<Rightarrow> unit fallible" where
  "validate_specific_user_assignee known_profile_ids st =
     (if sd_strategy st \<noteq> SpecificUser then Inr ()
      else case sd_assigned_user_id st of
        None \<Rightarrow> Inl (Raised (Py AssertionError))
      | Some u \<Rightarrow>
          if u \<notin> known_profile_ids then Inl (Raised (Engine (UnknownAssigneeError u))) else Inr ())"

definition validate_definition_assignees :: "workflow_document \<Rightarrow> uuid set \<Rightarrow> unit fallible" where
  "validate_definition_assignees document known_profile_ids =
     bind_result (map_result (validate_specific_user_assignee known_profile_ids) (ordered_stages document))
       (\<lambda>_. Inr ())"

lemma fold_max_ge: "\<forall>x\<in>set (v # vs). x \<le> fold max vs (v :: int)"
proof -
  have "v \<le> fold max vs v \<and> (\<forall>x\<in>set vs. x \<le> fold max vs v)"
  proof (induction vs arbitrary: v)
    case (Cons a vs)
    from Cons.IH [of "max a v"] show ?case by auto
  qed simp
  then show ?thesis by simp
qed

lemma next_version_number_greater: "v \<in> set vs \<Longrightarrow> v < next_version_number vs"
proof (cases vs)
  case (Cons a as)
  then show "v \<in> set vs \<Longrightarrow> v < next_version_number vs"
    using fold_max_ge [of a as] by (auto simp: next_version_number_def)
qed simp

lemma map_result_unit_ok:
  "(\<exists>us. map_result f xs = Inr us) \<longleftrightarrow> (\<forall>x\<in>set xs. \<exists>u. f x = Inr u)"
  by (induction xs) (auto simp: bind_result_def split: sum.splits)

text \<open>
  The assignee check of a validated document passes exactly when every person a
  \<open>specific_user\<close> stage names is a known profile, its assertion never fires, and the exception it
  raises otherwise is always \<open>UnknownAssigneeError\<close> for one of the missing people.
\<close>

lemma map_result_Inl: "map_result f xs = Inl e \<Longrightarrow> \<exists>x\<in>set xs. f x = Inl e"
  by (induction xs) (auto simp: bind_result_def split: sum.splits)

theorem definition_assignees_known:
  assumes "valid_document doc"
  shows "(validate_definition_assignees doc known = Inr () \<longleftrightarrow>
      {u. \<exists>st\<in>set (doc_stages doc). sd_strategy st = SpecificUser \<and> sd_assigned_user_id st = Some u} \<subseteq> known) \<and>
    (\<forall>e. validate_definition_assignees doc known = Inl e \<longrightarrow>
      (\<exists>u. e = Raised (Engine (UnknownAssigneeError u)) \<and> u \<notin> known))"
proof -
  have shape: "validate_specific_user_assignee known st =
      (case sd_assigned_user_id st of
         Some u \<Rightarrow> if sd_strategy st = SpecificUser \<and> u \<notin> known
                   then Inl (Raised (Engine (UnknownAssigneeError u))) else Inr ()
       | None \<Rightarrow> Inr ())" if "st \<in> set (ordered_stages doc)" for st
    using assms that
    by (auto simp: valid_document_def valid_stage_def validate_specific_user_assignee_def split: option.split)
  have ok: "validate_definition_assignees doc known = Inr () \<longleftrightarrow>
      (\<exists>us. map_result (validate_specific_user_assignee known) (ordered_stages doc) = Inr us)"
    by (auto simp: validate_definition_assignees_def bind_result_def split: sum.splits)
  have "validate_definition_assignees doc known = Inr () \<longleftrightarrow>
      {u. \<exists>st\<in>set (doc_stages doc). sd_strategy st = SpecificUser \<and> sd_assigned_user_id st = Some u} \<subseteq> known"
    unfolding ok map_result_unit_ok
    using shape by (fastforce split: option.splits if_splits)
  moreover have "\<exists>u. e = Raised (Engine (UnknownAssigneeError u)) \<and> u \<notin> known"
    if "validate_definition_assignees doc known = Inl e" for e
  proof -
    from that have "map_result (validate_specific_user_assignee known) (ordered_stages doc) = Inl e"
      by (auto simp: validate_definition_assignees_def bind_result_def split: sum.splits)
    then obtain st where "st \<in> set (ordered_stages doc)" "validate_specific_user_assignee known st = Inl e"
      by (blast dest: map_result_Inl)
    with shape show ?thesis by (auto split: option.splits if_splits)
  qed
  ultimately show ?thesis by blast
qed

theorem definition_assignees_known_witness:
  "validate_definition_assignees \<lparr>doc_stages = [sample_stage 1 SpecificUser]\<rparr> {7} = Inr () \<and>
   validate_definition_assignees \<lparr>doc_stages = [sample_stage 1 SpecificUser]\<rparr> {} \<noteq> Inr ()"
proof -
  have v: "valid_document \<lparr>doc_stages = [sample_stage 1 SpecificUser]\<rparr>"
    by (simp add: valid_document_def valid_stage_def sample_stage_def)
  show ?thesis
    using definition_assignees_known [OF v, of "{7}"] definition_assignees_known [OF v, of "{}"]
    by (auto simp: sample_stage_def)
qed

end
