(* ===== verification/Retry.thy ===== *)
theory Retry imports Prelude Complex_Main
begin

text \<open>
  \<open>app/utils/retry.py\<close>: the retry policy with the checks of its constructor, the delay before the
  next attempt, and the bounded retry loop. Delays are rationals (seconds); \<open>random.uniform(0, x)\<close> is
  \<open>x\<close> times a fraction that is a parameter, and sleeping is a parameter of the loop.
\<close>

record retry_policy =
  rp_max_attempts :: nat
  rp_base_delay :: rat
  rp_multiplier :: rat
  rp_max_delay :: rat
  rp_jitter :: bool
  rp_retryable :: "exn \<Rightarrow> bool"

definition RetryPolicy :: "retry_policy \<Rightarrow> retry_policy fallible" where
  "RetryPolicy p =
     (if rp_max_attempts p < 1 then Inl (Raised (Py (ValueError ''max_attempts'')))
      else if rp_base_delay p < 0 then Inl (Raised (Py (ValueError ''base_delay_seconds'')))
      else if rp_multiplier p < 1 then Inl (Raised (Py (ValueError ''backoff_multiplier'')))
      else if rp_max_delay p < rp_base_delay p then Inl (Raised (Py (ValueError ''max_delay_seconds'')))
      else Inr p)"

definition delay_for_attempt :: "retry_policy \<Rightarrow> nat \<Rightarrow> rat \<Rightarrow> rat" where
  "delay_for_attempt p attempt_number fraction =
     (let raw_delay = rp_base_delay p * rp_multiplier p ^ (attempt_number - 1);
          bounded_delay = min raw_delay (rp_max_delay p) in
      if \<not> rp_jitter p then bounded_delay
      else bounded_delay + fraction * (bounded_delay * (1 / 4)))"

fun last_exception :: "exn \<Rightarrow> raised" where
  "last_exception (Raised e) = e"
| "last_exception (Service _) = Message ''service''"

fun retry_loop ::
  "retry_policy \<Rightarrow> (rat \<Rightarrow> ('s, unit) eff) \<Rightarrow> (nat \<Rightarrow> rat) \<Rightarrow> ('s, 'a) eff \<Rightarrow> nat \<Rightarrow> nat \<Rightarrow> ('s, 'a) eff" where
  "retry_loop p sleep fraction func attempt_number 0 = throw (Raised (Py AssertionError))"
| "retry_loop p sleep fraction func attempt_number (Suc left) =
     handle func (\<lambda>exc.
       if rp_retryable p exc then
         if left = 0 then throw (Raised (RetryExhausted (rp_max_attempts p) (last_exception exc)))
         else and_then (sleep (delay_for_attempt p attempt_number (fraction attempt_number)))
                (\<lambda>_. retry_loop p sleep fraction func (Suc attempt_number) left)
       else throw exc)"

definition retry_call ::
  "retry_policy \<Rightarrow> (rat \<Rightarrow> ('s, unit) eff) \<Rightarrow> (nat \<Rightarrow> rat) \<Rightarrow> ('s, 'a) eff \<Rightarrow> ('s, 'a) eff" where
  "retry_call p sleep fraction func = retry_loop p sleep fraction func 1 (rp_max_attempts p)"

section \<open>Delays are bounded\<close>

lemma delay_for_attempt_nonneg:
  assumes "RetryPolicy p = Inr p" and "0 \<le> u"
  shows "0 \<le> delay_for_attempt p n u"
proof -
  have "0 \<le> rp_base_delay p" "1 \<le> rp_multiplier p" "rp_base_delay p \<le> rp_max_delay p"
    using assms(1) by (auto simp: RetryPolicy_def split: if_splits)
  then have "0 \<le> min (rp_base_delay p * rp_multiplier p ^ (n - 1)) (rp_max_delay p)"
    by (auto intro!: mult_nonneg_nonneg zero_le_power)
  then show ?thesis using assms(2) by (simp add: delay_for_attempt_def Let_def)
qed

text \<open>
  For a policy its constructor accepts and any draw in the unit interval, every delay lies
  between the base delay and a quarter more than the maximum, and without jitter the delays never
  decrease from one attempt to the next.
\<close>

theorem retry_delay_bounds:
  assumes "RetryPolicy p = Inr p" and "0 \<le> u" and "u \<le> 1" and "1 \<le> n"
  shows "rp_base_delay p \<le> delay_for_attempt p n u \<and>
    delay_for_attempt p n u \<le> rp_max_delay p * (5 / 4) \<and>
    (\<not> rp_jitter p \<longrightarrow> delay_for_attempt p n u \<le> delay_for_attempt p (Suc n) u)"
proof -
  define b where "b = min (rp_base_delay p * rp_multiplier p ^ (n - 1)) (rp_max_delay p)"
  have p: "0 \<le> rp_base_delay p" "1 \<le> rp_multiplier p" "rp_base_delay p \<le> rp_max_delay p"
    using assms(1) by (auto simp: RetryPolicy_def split: if_splits)
  have "1 \<le> rp_multiplier p ^ (n - 1)" using p(2) by (rule one_le_power)
  then have "rp_base_delay p * 1 \<le> rp_base_delay p * rp_multiplier p ^ (n - 1)"
    using p(1) by (rule mult_left_mono)
  with p have b: "rp_base_delay p \<le> b" "b \<le> rp_max_delay p" "0 \<le> b" by (auto simp: b_def)
  have "u * (b * (1 / 4)) \<le> 1 * (b * (1 / 4))"
    using assms(3) b(3) by (intro mult_right_mono) auto
  moreover have "0 \<le> u * (b * (1 / 4))" using assms(2) b(3) by simp
  moreover have "delay_for_attempt p n u = (if rp_jitter p then b + u * (b * (1 / 4)) else b)"
    by (simp add: delay_for_attempt_def b_def Let_def)
  moreover have "b \<le> min (rp_base_delay p * rp_multiplier p ^ n) (rp_max_delay p)"
  proof -
    have "rp_multiplier p ^ (n - 1) \<le> rp_multiplier p ^ n"
      using p(2) by (intro power_increasing) auto
    then have "rp_base_delay p * rp_multiplier p ^ (n - 1) \<le> rp_base_delay p * rp_multiplier p ^ n"
      using p(1) by (rule mult_left_mono)
    then show ?thesis by (auto simp: b_def)
  qed
  ultimately show ?thesis using b by (auto simp: delay_for_attempt_def Let_def)
qed

definition transient_sample :: "(exn \<Rightarrow> bool) \<Rightarrow> retry_policy" where
  "transient_sample q =
     \<lparr>rp_max_attempts = 3, rp_base_delay = 1 / 4, rp_multiplier = 2, rp_max_delay = 2,
      rp_jitter = True, rp_retryable = q\<rparr>"

theorem retry_delay_bounds_witness:
  "1 / 4 \<le> delay_for_attempt (transient_sample (\<lambda>_. True)) 3 1 \<and> delay_for_attempt (transient_sample (\<lambda>_. True)) 3 1 \<le> 5 / 2"
  using retry_delay_bounds [of "transient_sample (\<lambda>_. True)" 1 3]
  by (simp add: transient_sample_def RetryPolicy_def)

section \<open>The loop\<close>

text \<open>
  A scripted operation pops its next outcome, whatever was slept in between; it stands for any
  operation whose outcomes come in that order.
\<close>

fun scripted :: "((exn + 'a) list, 'a) eff" where
  "scripted [] = (Inl (Raised (Py AssertionError)), [])"
| "scripted (r # rs) = (r, rs)"

fun fails_retryably :: "retry_policy \<Rightarrow> exn + 'a \<Rightarrow> bool" where
  "fails_retryably p (Inl e) = rp_retryable p e"
| "fails_retryably p (Inr _) = False"

fun failure :: "exn + 'a \<Rightarrow> exn" where
  "failure (Inl e) = e"
| "failure (Inr _) = Raised (Py AssertionError)"

lemma retry_loop_scripted:
  "left \<le> length outs \<Longrightarrow> 0 < left \<Longrightarrow>
   retry_loop p (\<lambda>_. return ()) u scripted n left outs =
     (let k = length (takeWhile (fails_retryably p) (take left outs)) in
      if k < left then (outs ! k, drop (Suc k) outs)
      else (Inl (Raised (RetryExhausted (rp_max_attempts p) (last_exception (failure (outs ! (left - 1)))))),
            drop left outs))"
proof (induction left arbitrary: n outs)
  case (Suc left)
  then obtain r rs where outs: "outs = r # rs" by (cases outs) auto
  show ?case
  proof (cases "fails_retryably p r")
    case True
    then obtain e where r: "r = Inl e" "rp_retryable p e" by (cases r) auto
    show ?thesis
    proof (cases "left = 0")
      case True
      with r outs show ?thesis by (simp add: handle_def eff_simps)
    next
      case False
      with Suc.prems outs have "left \<le> length rs" "0 < left" by auto
      from Suc.IH [OF this] r outs False show ?thesis
        by (simp add: handle_def eff_simps Let_def nth_Cons' fails_retryably.simps)
    qed
  next
    case False
    with outs show ?thesis by (cases r) (simp_all add: handle_def eff_simps Let_def)
  qed
qed simp

text \<open>
  What \<open>retry_call\<close> does with an operation whose next \<open>max_attempts\<close> outcomes are given: it
  stops at the first outcome that is not a retryable failure (a result, or an exception it re-raises
  unchanged), having run the operation exactly that often; only when every attempt failed retryably
  does it raise \<open>RetryExhaustedError\<close>, carrying the last failure, after exactly \<open>max_attempts\<close> runs.
\<close>

theorem retry_call_outcome:
  assumes "RetryPolicy p = Inr p" and "rp_max_attempts p \<le> length outs"
  shows "retry_call p (\<lambda>_. return ()) u scripted outs =
    (let m = rp_max_attempts p; k = length (takeWhile (fails_retryably p) (take m outs)) in
     if k < m then (outs ! k, drop (Suc k) outs)
     else (Inl (Raised (RetryExhausted m (last_exception (failure (outs ! (m - 1)))))), drop m outs))"
proof -
  have "0 < rp_max_attempts p" using assms(1) by (auto simp: RetryPolicy_def split: if_splits)
  with assms(2) show ?thesis
    by (simp only: retry_call_def retry_loop_scripted Let_def)
qed

theorem retry_call_outcome_witness:
  "fst (retry_call (transient_sample (\<lambda>e. e = Raised (Client TransportError))) (\<lambda>_. return ()) (\<lambda>_. 0) scripted
     [Inl (Raised (Client TransportError)), Inr (5 :: nat), Inr 6]) = Inr 5"
  by (subst retry_call_outcome) (simp_all add: transient_sample_def RetryPolicy_def Let_def)

end
