(* ===== verification/Tables.thy ===== *)
theory Tables imports WorkflowModel Prelude
begin

text \<open>
  The persisted rows (the record dataclasses of \<open>app/database/repositories/\<close>), the database they
  live in, and one descriptor per table: its name, its rows, its key and version columns, the
  constraints PostgreSQL checks on a written row (\<open>app/database/migrations/versions/\<close>) and the
  \<open>updated_at\<close> trigger. Rows hold the parsed values that the \<open>_map_..._row\<close> functions return; a
  definition's JSON column holds the raw stage entries. Row-level security, which PostgreSQL applies
  outside this code, is not part of the database here.
\<close>

section \<open>Rows\<close>

record profile_record =
  pr_id :: uuid
  pr_full_name :: string
  pr_role :: user_role
  pr_department :: "string option"
  pr_version :: int
  pr_created_at :: timestamp
  pr_updated_at :: timestamp
  pr_company_id :: uuid
  pr_is_platform_admin :: bool
  pr_is_active :: bool
  pr_deleted_at :: "timestamp option"
  pr_deleted_by :: "uuid option"

record definition_record =
  df_id :: uuid
  df_request_type :: string
  df_version :: int
  df_definition :: "stage_definition list"
  df_is_active :: bool
  df_created_by :: "uuid option"
  df_row_version :: int
  df_created_at :: timestamp
  df_company_id :: uuid

record request_record =
  rq_id :: uuid
  rq_requester_id :: uuid
  rq_workflow_definition_id :: uuid
  rq_request_type :: string
  rq_title :: string
  rq_description :: "string option"
  rq_department :: "string option"
  rq_status :: request_status
  rq_current_stage_id :: "uuid option"
  rq_version :: int
  rq_deleted_at :: "timestamp option"
  rq_deleted_by :: "uuid option"
  rq_created_at :: timestamp
  rq_updated_at :: timestamp
  rq_completed_at :: "timestamp option"
  rq_company_id :: uuid

record stage_record =
  st_id :: uuid
  st_request_id :: uuid
  st_stage_order :: int
  st_stage_name :: string
  st_assigned_role :: "user_role option"
  st_assigned_to :: "uuid option"
  st_status :: stage_status
  st_decided_by :: "uuid option"
  st_decided_at :: "timestamp option"
  st_decision_note :: "string option"
  st_version :: int
  st_created_at :: timestamp
  st_company_id :: uuid

datatype meta_value = MetaId uuid | MetaText string | MetaInt int | MetaNull

record audit_record =
  au_id :: uuid
  au_actor_id :: "uuid option"
  au_request_id :: "uuid option"
  au_action :: string
  au_metadata :: "(string \<times> meta_value) list option"
  au_created_at :: timestamp
  au_company_id :: "uuid option"

record notification_record =
  nt_id :: uuid
  nt_recipient_id :: uuid
  nt_request_id :: "uuid option"
  nt_type :: notification_type
  nt_message :: string
  nt_is_read :: bool
  nt_read_at :: "timestamp option"
  nt_email_sent :: bool
  nt_email_sent_at :: "timestamp option"
  nt_archived_at :: "timestamp option"
  nt_created_at :: timestamp

record preference_record =
  np_id :: uuid
  np_user_id :: uuid
  np_type :: notification_type
  np_in_app_enabled :: bool
  np_email_enabled :: bool
  np_created_at :: timestamp
  np_updated_at :: timestamp

section \<open>The database\<close>

text \<open>
  What the network does with one \<open>builder.execute()\<close>: the statement runs and its response arrives;
  the request is lost before the server sees it; the server runs the statement and the response is
  lost; or the server refuses it with an error code and a message. An exhausted schedule delivers.
\<close>

datatype delivery =
    Delivered
  | RequestLost
  | ResponseLost
  | Refused string string

record db =
  t_profiles :: "profile_record list"
  t_definitions :: "definition_record list"
  t_requests :: "request_record list"
  t_stages :: "stage_record list"
  t_audit :: "audit_record list"
  t_notifications :: "notification_record list"
  t_preferences :: "preference_record list"
  next_uuid :: uuid
  clock :: timestamp
  net :: "delivery list"

definition empty_db :: db where
  "empty_db = \<lparr>t_profiles = [], t_definitions = [], t_requests = [], t_stages = [], t_audit = [],
     t_notifications = [], t_preferences = [], next_uuid = 1000, clock = 0, net = []\<rparr>"

section \<open>Table descriptors\<close>

record ('s, 'r) table =
  tb_name :: string
  tb_rows :: "'s \<Rightarrow> 'r list"
  tb_set_rows :: "'r list \<Rightarrow> 's \<Rightarrow> 's"
  tb_id :: "'r \<Rightarrow> uuid"
  tb_version :: "'r \<Rightarrow> int"
  tb_set_version :: "int \<Rightarrow> 'r \<Rightarrow> 'r"
  tb_touch :: "timestamp \<Rightarrow> 'r \<Rightarrow> 'r"
  tb_check :: "'s \<Rightarrow> 'r \<Rightarrow> string option"

definition unique_violation :: string where "unique_violation = ''23505''"
definition foreign_key_violation :: string where "foreign_key_violation = ''23503''"
definition check_violation :: string where "check_violation = ''23514''"

fun first_violation :: "(bool \<times> string) list \<Rightarrow> string option" where
  "first_violation [] = None"
| "first_violation ((holds, code) # cs) = (if holds then first_violation cs else Some code)"

fun opt_ok :: "('a \<Rightarrow> bool) \<Rightarrow> 'a option \<Rightarrow> bool" where
  "opt_ok p None = True"
| "opt_ok p (Some x) = p x"

definition profile_exists :: "'z db_scheme \<Rightarrow> uuid \<Rightarrow> bool" where
  "profile_exists s i = list_ex (\<lambda>p. pr_id p = i) (t_profiles s)"

definition request_exists :: "'z db_scheme \<Rightarrow> uuid \<Rightarrow> bool" where
  "request_exists s i = list_ex (\<lambda>r. rq_id r = i) (t_requests s)"

definition stage_exists :: "'z db_scheme \<Rightarrow> uuid \<Rightarrow> bool" where
  "stage_exists s i = list_ex (\<lambda>st. st_id st = i) (t_stages s)"

definition definition_exists :: "'z db_scheme \<Rightarrow> uuid \<Rightarrow> bool" where
  "definition_exists s i = list_ex (\<lambda>d. df_id d = i) (t_definitions s)"

definition check_profile :: "'z db_scheme \<Rightarrow> profile_record \<Rightarrow> string option" where
  "check_profile s p = first_violation [(0 < pr_version p, check_violation)]"

definition check_definition :: "'z db_scheme \<Rightarrow> definition_record \<Rightarrow> string option" where
  "check_definition s d = first_violation
     [(1 \<le> df_version d \<and> 0 < df_row_version d, check_violation),
      (\<not> list_ex (\<lambda>x. df_id x \<noteq> df_id d \<and> df_company_id x = df_company_id d \<and>
            df_request_type x = df_request_type d \<and> df_version x = df_version d) (t_definitions s),
       unique_violation),
      (df_is_active d \<longrightarrow> \<not> list_ex (\<lambda>x. df_id x \<noteq> df_id d \<and> df_company_id x = df_company_id d \<and>
            df_request_type x = df_request_type d \<and> df_is_active x) (t_definitions s),
       unique_violation),
      (opt_ok (profile_exists s) (df_created_by d), foreign_key_violation)]"

definition check_request :: "'z db_scheme \<Rightarrow> request_record \<Rightarrow> string option" where
  "check_request s r = first_violation
     [(1 \<le> length (rq_title r) \<and> length (rq_title r) \<le> 200, check_violation),
      (opt_ok (\<lambda>d. length d \<le> 5000) (rq_description r), check_violation),
      (0 < rq_version r, check_violation),
      (profile_exists s (rq_requester_id r), foreign_key_violation),
      (definition_exists s (rq_workflow_definition_id r), foreign_key_violation),
      (opt_ok (stage_exists s) (rq_current_stage_id r), foreign_key_violation),
      (opt_ok (profile_exists s) (rq_deleted_by r), foreign_key_violation)]"

definition check_stage :: "'z db_scheme \<Rightarrow> stage_record \<Rightarrow> string option" where
  "check_stage s t = first_violation
     [(0 < st_stage_order t \<and> 0 < st_version t, check_violation),
      (opt_ok (\<lambda>n. length n \<le> 1000) (st_decision_note t), check_violation),
      (\<not> list_ex (\<lambda>x. st_id x \<noteq> st_id t \<and> st_request_id x = st_request_id t \<and>
            st_stage_order x = st_stage_order t) (t_stages s), unique_violation),
      (request_exists s (st_request_id t), foreign_key_violation),
      (opt_ok (profile_exists s) (st_assigned_to t), foreign_key_violation),
      (opt_ok (profile_exists s) (st_decided_by t), foreign_key_violation)]"

definition check_audit :: "'z db_scheme \<Rightarrow> audit_record \<Rightarrow> string option" where
  "check_audit s a = first_violation
     [(opt_ok (profile_exists s) (au_actor_id a), foreign_key_violation),
      (opt_ok (request_exists s) (au_request_id a), foreign_key_violation)]"

definition check_notification :: "'z db_scheme \<Rightarrow> notification_record \<Rightarrow> string option" where
  "check_notification s n = first_violation
     [(profile_exists s (nt_recipient_id n), foreign_key_violation),
      (opt_ok (request_exists s) (nt_request_id n), foreign_key_violation)]"

definition profile_table :: "('z db_scheme, profile_record) table" where
  "profile_table =
     \<lparr>tb_name = ''profiles'', tb_rows = t_profiles, tb_set_rows = (\<lambda>rs s. s\<lparr>t_profiles := rs\<rparr>),
      tb_id = pr_id, tb_version = pr_version, tb_set_version = (\<lambda>v r. r\<lparr>pr_version := v\<rparr>),
      tb_touch = (\<lambda>now r. r\<lparr>pr_updated_at := now\<rparr>), tb_check = check_profile\<rparr>"

definition definition_table :: "('z db_scheme, definition_record) table" where
  "definition_table =
     \<lparr>tb_name = ''workflow_definitions'', tb_rows = t_definitions,
      tb_set_rows = (\<lambda>rs s. s\<lparr>t_definitions := rs\<rparr>),
      tb_id = df_id, tb_version = df_row_version, tb_set_version = (\<lambda>v r. r\<lparr>df_row_version := v\<rparr>),
      tb_touch = (\<lambda>now r. r), tb_check = check_definition\<rparr>"

definition request_table :: "('z db_scheme, request_record) table" where
  "request_table =
     \<lparr>tb_name = ''requests'', tb_rows = t_requests, tb_set_rows = (\<lambda>rs s. s\<lparr>t_requests := rs\<rparr>),
      tb_id = rq_id, tb_version = rq_version, tb_set_version = (\<lambda>v r. r\<lparr>rq_version := v\<rparr>),
      tb_touch = (\<lambda>now r. r\<lparr>rq_updated_at := now\<rparr>), tb_check = check_request\<rparr>"

definition stage_table :: "('z db_scheme, stage_record) table" where
  "stage_table =
     \<lparr>tb_name = ''workflow_stages'', tb_rows = t_stages, tb_set_rows = (\<lambda>rs s. s\<lparr>t_stages := rs\<rparr>),
      tb_id = st_id, tb_version = st_version, tb_set_version = (\<lambda>v r. r\<lparr>st_version := v\<rparr>),
      tb_touch = (\<lambda>now r. r), tb_check = check_stage\<rparr>"

text \<open>The audit log and the notifications carry no version column; their rows are never updated under a lock.\<close>

definition audit_table :: "('z db_scheme, audit_record) table" where
  "audit_table =
     \<lparr>tb_name = ''audit_logs'', tb_rows = t_audit, tb_set_rows = (\<lambda>rs s. s\<lparr>t_audit := rs\<rparr>),
      tb_id = au_id, tb_version = (\<lambda>_. 1), tb_set_version = (\<lambda>v r. r),
      tb_touch = (\<lambda>now r. r), tb_check = check_audit\<rparr>"

definition notification_table :: "('z db_scheme, notification_record) table" where
  "notification_table =
     \<lparr>tb_name = ''notifications'', tb_rows = t_notifications,
      tb_set_rows = (\<lambda>rs s. s\<lparr>t_notifications := rs\<rparr>),
      tb_id = nt_id, tb_version = (\<lambda>_. 1), tb_set_version = (\<lambda>v r. r),
      tb_touch = (\<lambda>now r. r), tb_check = check_notification\<rparr>"

lemma profile_table_fields [simp]:
  "tb_name profile_table = ''profiles''" "tb_rows profile_table = t_profiles" "tb_set_rows profile_table = (\<lambda>rs s. s\<lparr>t_profiles := rs\<rparr>)"
  "tb_id profile_table = pr_id" "tb_version profile_table = pr_version" "tb_set_version profile_table = (\<lambda>v r. r\<lparr>pr_version := v\<rparr>)"
  "tb_touch profile_table = (\<lambda>now r. r\<lparr>pr_updated_at := now\<rparr>)" "tb_check profile_table = check_profile"
  by (simp_all add: profile_table_def)

lemma definition_table_fields [simp]:
  "tb_name definition_table = ''workflow_definitions''" "tb_rows definition_table = t_definitions" "tb_set_rows definition_table = (\<lambda>rs s. s\<lparr>t_definitions := rs\<rparr>)"
  "tb_id definition_table = df_id" "tb_version definition_table = df_row_version" "tb_set_version definition_table = (\<lambda>v r. r\<lparr>df_row_version := v\<rparr>)"
  "tb_touch definition_table = (\<lambda>now r. r)" "tb_check definition_table = check_definition"
  by (simp_all add: definition_table_def)

lemma request_table_fields [simp]:
  "tb_name request_table = ''requests''" "tb_rows request_table = t_requests" "tb_set_rows request_table = (\<lambda>rs s. s\<lparr>t_requests := rs\<rparr>)"
  "tb_id request_table = rq_id" "tb_version request_table = rq_version" "tb_set_version request_table = (\<lambda>v r. r\<lparr>rq_version := v\<rparr>)"
  "tb_touch request_table = (\<lambda>now r. r\<lparr>rq_updated_at := now\<rparr>)" "tb_check request_table = check_request"
  by (simp_all add: request_table_def)

lemma stage_table_fields [simp]:
  "tb_name stage_table = ''workflow_stages''" "tb_rows stage_table = t_stages" "tb_set_rows stage_table = (\<lambda>rs s. s\<lparr>t_stages := rs\<rparr>)"
  "tb_id stage_table = st_id" "tb_version stage_table = st_version" "tb_set_version stage_table = (\<lambda>v r. r\<lparr>st_version := v\<rparr>)"
  "tb_touch stage_table = (\<lambda>now r. r)" "tb_check stage_table = check_stage"
  by (simp_all add: stage_table_def)

lemma audit_table_fields [simp]:
  "tb_name audit_table = ''audit_logs''" "tb_rows audit_table = t_audit" "tb_set_rows audit_table = (\<lambda>rs s. s\<lparr>t_audit := rs\<rparr>)"
  "tb_id audit_table = au_id" "tb_version audit_table = (\<lambda>_. 1)" "tb_set_version audit_table = (\<lambda>v r. r)"
  "tb_touch audit_table = (\<lambda>now r. r)" "tb_check audit_table = check_audit"
  by (simp_all add: audit_table_def)

lemma notification_table_fields [simp]:
  "tb_name notification_table = ''notifications''" "tb_rows notification_table = t_notifications" "tb_set_rows notification_table = (\<lambda>rs s. s\<lparr>t_notifications := rs\<rparr>)"
  "tb_id notification_table = nt_id" "tb_version notification_table = (\<lambda>_. 1)" "tb_set_version notification_table = (\<lambda>v r. r)"
  "tb_touch notification_table = (\<lambda>now r. r)" "tb_check notification_table = check_notification"
  by (simp_all add: notification_table_def)

lemmas table_defs = profile_table_def definition_table_def request_table_def stage_table_def
  audit_table_def notification_table_def

end
