(* ===== verification/Database.thy ===== *)
theory Database imports Tables Retry Errors
begin

text \<open>
  \<open>app/database/repositories/base_repository.py\<close>: statements run through the retry policy and the
  translation of driver errors, the generic reads and writes of \<open>BaseRepository\<close> over a table
  descriptor, pagination, and the optimistic lock. A statement is an effect on the database whose only
  exceptions are the server's; \<open>attempt\<close> puts the network between the caller and it.
\<close>

section \<open>Statements and the network\<close>

definition attempt :: "('z db_scheme, 'a) eff \<Rightarrow> ('z db_scheme, 'a) eff" where
  "attempt stmt s =
     (case net s of
        [] \<Rightarrow> stmt s
      | Delivered # ds \<Rightarrow> stmt (s\<lparr>net := ds\<rparr>)
      | RequestLost # ds \<Rightarrow> (Inl (Raised (Client TransportError)), s\<lparr>net := ds\<rparr>)
      | ResponseLost # ds \<Rightarrow> (Inl (Raised (Client TransportError)), snd (stmt (s\<lparr>net := ds\<rparr>)))
      | Refused code msg # ds \<Rightarrow> (Inl (Raised (Client (APIError code msg))), s\<lparr>net := ds\<rparr>))"

fun is_transient_transport :: "exn \<Rightarrow> bool" where
  "is_transient_transport (Raised (Client TransportError)) = True"
| "is_transient_transport _ = False"

definition TRANSIENT_RETRY_POLICY :: retry_policy where
  "TRANSIENT_RETRY_POLICY =
     \<lparr>rp_max_attempts = 3, rp_base_delay = 1 / 4, rp_multiplier = 2, rp_max_delay = 2,
      rp_jitter = True, rp_retryable = is_transient_transport\<rparr>"

fun translate_api_error :: "string \<Rightarrow> string \<Rightarrow> string \<Rightarrow> string \<Rightarrow> db_error" where
  "translate_api_error op tbl code message =
     (if code = ''23505'' then ConstraintViolationError tbl ''unique''
      else if code = ''23503'' then ConstraintViolationError tbl ''foreign_key''
      else if code = ''23514'' then ConstraintViolationError tbl ''check''
      else if code = ''23502'' then ConstraintViolationError tbl ''not_null''
      else if is_infix ''duplicate key'' (lower message) \<or> is_infix ''unique constraint'' (lower message)
      then ConstraintViolationError tbl ''unique''
      else if is_infix ''foreign key'' (lower message) then ConstraintViolationError tbl ''foreign_key''
      else if is_infix ''check constraint'' (lower message) then ConstraintViolationError tbl ''check''
      else RepositoryError op tbl)"

text \<open>
  \<open>_translate_and_raise\<close>: every exception of a statement becomes a \<open>DatabaseError\<close>, chosen by the
  error code and else by words of the lower-cased message. A transport failure has no code, and its
  text none of those words.
\<close>

fun translate_and_raise :: "string \<Rightarrow> string \<Rightarrow> exn \<Rightarrow> exn" where
  "translate_and_raise op tbl (Raised (RetryExhausted n (Client (APIError code message)))) =
     Raised (Db (translate_api_error op tbl code message))"
| "translate_and_raise op tbl (Raised (Client (APIError code message))) =
     Raised (Db (translate_api_error op tbl code message))"
| "translate_and_raise op tbl _ = Raised (Db (RepositoryError op tbl))"

definition execute :: "string \<Rightarrow> string \<Rightarrow> ('z db_scheme, 'a) eff \<Rightarrow> ('z db_scheme, 'a) eff" where
  "execute op tbl stmt =
     handle (retry_call TRANSIENT_RETRY_POLICY (\<lambda>_. return ()) (\<lambda>_. 0) (attempt stmt))
       (\<lambda>exc. throw (translate_and_raise op tbl exc))"

section \<open>The statements the repositories build\<close>

definition select_stmt :: "('z db_scheme \<Rightarrow> 'r list) \<Rightarrow> ('z db_scheme, 'r list) eff" where
  "select_stmt query = gets query"

definition update_stmt ::
  "('z db_scheme, 'r) table \<Rightarrow> ('r \<Rightarrow> bool) \<Rightarrow> ('r \<Rightarrow> 'r) \<Rightarrow> ('z db_scheme, 'r list) eff" where
  "update_stmt T p f s =
     (let written = (\<lambda>r. tb_touch T (clock s) (f r)) in
      case List.find (\<lambda>r. tb_check T s (written r) \<noteq> None) (filter p (tb_rows T s)) of
        Some r \<Rightarrow> (Inl (Raised (Client (APIError (the (tb_check T s (written r))) ''''))), s)
      | None \<Rightarrow>
          (Inr (map written (filter p (tb_rows T s))),
           tb_set_rows T (map (\<lambda>r. if p r then written r else r) (tb_rows T s)) s))"

definition insert_stmt ::
  "('z db_scheme, 'r) table \<Rightarrow> (uuid \<Rightarrow> timestamp \<Rightarrow> 'r) \<Rightarrow> ('z db_scheme, 'r list) eff" where
  "insert_stmt T mk s =
     (let r = mk (next_uuid s) (clock s) in
      case tb_check T s r of
        Some code \<Rightarrow> (Inl (Raised (Client (APIError code ''''))), s)
      | None \<Rightarrow> (Inr [r], (tb_set_rows T (tb_rows T s @ [r]) s)\<lparr>next_uuid := Suc (next_uuid s)\<rparr>))"

definition delete_stmt ::
  "('z db_scheme, 'r) table \<Rightarrow> ('r \<Rightarrow> bool) \<Rightarrow> ('z db_scheme \<Rightarrow> 'r \<Rightarrow> bool) \<Rightarrow> ('z db_scheme, 'r list) eff" where
  "delete_stmt T p referenced s =
     (if list_ex (referenced s) (filter p (tb_rows T s))
      then (Inl (Raised (Client (APIError foreign_key_violation ''''))), s)
      else (Inr (filter p (tb_rows T s)), tb_set_rows T (filter (\<lambda>r. \<not> p r) (tb_rows T s)) s))"

section \<open>BaseRepository\<close>

definition single_row :: "string \<Rightarrow> uuid \<Rightarrow> 'r list \<Rightarrow> ('s, 'r) eff" where
  "single_row tbl ident rows =
     (case rows of [] \<Rightarrow> throw (Raised (Db (RecordNotFoundError tbl ident))) | r # _ \<Rightarrow> return r)"

definition get_by_id :: "('z db_scheme, 'r) table \<Rightarrow> uuid \<Rightarrow> ('z db_scheme, 'r) eff" where
  "get_by_id T record_id =
     and_then (execute ''get_by_id'' (tb_name T)
                (select_stmt (\<lambda>s. take 1 (filter (\<lambda>r. tb_id T r = record_id) (tb_rows T s)))))
       (single_row (tb_name T) record_id)"

definition find_by_id :: "('z db_scheme, 'r) table \<Rightarrow> uuid \<Rightarrow> ('z db_scheme, 'r option) eff" where
  "find_by_id T record_id =
     and_then (execute ''find_by_id'' (tb_name T)
                (select_stmt (\<lambda>s. take 1 (filter (\<lambda>r. tb_id T r = record_id) (tb_rows T s)))))
       (\<lambda>rows. return (case rows of [] \<Rightarrow> None | r # _ \<Rightarrow> Some r))"

definition insert_row ::
  "('z db_scheme, 'r) table \<Rightarrow> (uuid \<Rightarrow> timestamp \<Rightarrow> 'r) \<Rightarrow> ('z db_scheme, 'r) eff" where
  "insert_row T mk =
     and_then (execute ''insert'' (tb_name T) (insert_stmt T mk)) (single_row (tb_name T) 0)"

definition update_with_optimistic_lock ::
  "('z db_scheme, 'r) table \<Rightarrow> uuid \<Rightarrow> int \<Rightarrow> ('r \<Rightarrow> 'r) \<Rightarrow> ('z db_scheme, 'r) eff" where
  "update_with_optimistic_lock T record_id expected_version values =
     and_then (execute ''update_with_optimistic_lock'' (tb_name T)
                (update_stmt T (\<lambda>r. tb_id T r = record_id \<and> tb_version T r = expected_version)
                   (\<lambda>r. tb_set_version T (expected_version + 1) (values r))))
       (\<lambda>rows. case rows of
          [] \<Rightarrow> throw (Raised (Db (ConcurrentUpdateError (tb_name T) record_id expected_version)))
        | r # _ \<Rightarrow> return r)"

subsection \<open>Pages\<close>

record page =
  pg_number :: int
  pg_size :: int

definition DEFAULT_PAGE_SIZE :: int where "DEFAULT_PAGE_SIZE = 20"
definition MAX_PAGE_SIZE :: int where "MAX_PAGE_SIZE = 100"

definition Page :: "int \<Rightarrow> int \<Rightarrow> page fallible" where
  "Page number sz =
     (if number < 1 then Inl (Raised (Py (ValueError ''Page.number'')))
      else if \<not> (1 \<le> sz \<and> sz \<le> MAX_PAGE_SIZE) then Inl (Raised (Py (ValueError ''Page.size'')))
      else Inr \<lparr>pg_number = number, pg_size = sz\<rparr>)"

definition page_offset :: "page \<Rightarrow> int" where
  "page_offset p = (pg_number p - 1) * pg_size p"

definition page_upper_bound :: "page \<Rightarrow> int" where
  "page_upper_bound p = page_offset p + pg_size p - 1"

record 'a paged_result =
  res_items :: "'a list"
  res_page :: int
  res_page_size :: int
  res_total_records :: int

definition total_pages :: "'a paged_result \<Rightarrow> int" where
  "total_pages r = (if res_page_size r \<le> 0 then 0 else - ((- res_total_records r) div res_page_size r))"

definition map_items :: "('a \<Rightarrow> 'b) \<Rightarrow> 'a paged_result \<Rightarrow> 'b paged_result" where
  "map_items f r = \<lparr>res_items = map f (res_items r), res_page = res_page r, res_page_size = res_page_size r,
     res_total_records = res_total_records r\<rparr>"

text \<open>\<open>builder.range(lo, hi)\<close>: the rows at positions lo to hi, both included.\<close>

definition row_range :: "int \<Rightarrow> int \<Rightarrow> 'a list \<Rightarrow> 'a list" where
  "row_range lo hi xs = take (nat (hi + 1 - lo)) (drop (nat lo) xs)"

definition paginate ::
  "('z db_scheme, 'r) table \<Rightarrow> ('z db_scheme \<Rightarrow> 'r list) \<Rightarrow> page \<Rightarrow> ('z db_scheme, 'r paged_result) eff" where
  "paginate T query p =
     and_then (execute ''paginate'' (tb_name T) (gets (\<lambda>s.
                 (row_range (page_offset p) (page_upper_bound p) (query s), int (length (query s))))))
       (\<lambda>(rows, total). return
          \<lparr>res_items = rows, res_page = pg_number p, res_page_size = pg_size p, res_total_records = total\<rparr>)"

definition count_rows :: "('z db_scheme, 'r) table \<Rightarrow> ('z db_scheme \<Rightarrow> 'r list) \<Rightarrow> ('z db_scheme, int) eff" where
  "count_rows T query = execute ''count'' (tb_name T) (gets (\<lambda>s. int (length (query s))))"

end
