(* ===== verification/Store.thy ===== *)
theory Store imports Database
begin

text \<open>
  What the repositories rely on in the database: the laws of a table descriptor, as locales that are
  interpreted on every table; and what the statements of \<open>BaseRepository\<close> do under an arbitrary
  network schedule (retries included) and on a network that delivers.
\<close>

section \<open>Statements are independent of the network schedule\<close>

definition net_free :: "('z db_scheme, 'a) eff \<Rightarrow> bool" where
  "net_free stmt \<longleftrightarrow> (\<forall>s ds. stmt (s\<lparr>net := ds\<rparr>) = (fst (stmt s), (snd (stmt s))\<lparr>net := ds\<rparr>))"

definition net_stable :: "('z db_scheme \<Rightarrow> bool) \<Rightarrow> bool" where
  "net_stable P \<longleftrightarrow> (\<forall>s ds. P (s\<lparr>net := ds\<rparr>) = P s)"

lemma net_stableI: "(\<And>s ds. P (s\<lparr>net := ds\<rparr>) = P s) \<Longrightarrow> net_stable P"
  by (simp add: net_stable_def)

lemma net_stableD [simp]: "net_stable P \<Longrightarrow> P (s\<lparr>net := ds\<rparr>) = P s"
  by (simp add: net_stable_def)

lemma net_freeD: "net_free stmt \<Longrightarrow> stmt (s\<lparr>net := ds\<rparr>) = (fst (stmt s), (snd (stmt s))\<lparr>net := ds\<rparr>)"
  by (simp add: net_free_def)

lemma net_free_gets [intro]: "(\<And>s ds. q (s\<lparr>net := ds\<rparr>) = q s) \<Longrightarrow> net_free (gets q)"
  by (simp add: net_free_def eff_simps)

lemma preserves_attempt:
  assumes "net_stable P" "preserves P stmt"
  shows "preserves P (attempt stmt)"
proof (rule preservesI)
  fix s assume "P s"
  with assms have 1: "P (snd (stmt s))" and 2: "\<And>ds. P (snd (stmt (s\<lparr>net := ds\<rparr>)))"
    by (simp_all add: preserves_def)
  show "P (snd (attempt stmt s))"
    using assms \<open>P s\<close> 1 2 by (auto simp: attempt_def split: list.splits delivery.splits)
qed

lemma preserves_retry_loop:
  assumes "preserves P m" "\<And>d. preserves P (sleep d)"
  shows "preserves P (retry_loop p sleep fr m n left)"
proof (induction left arbitrary: n)
  case (Suc left)
  then show ?case using assms by (auto intro!: pres)
qed (simp add: pres)

lemma preserves_execute [pres]:
  "net_stable P \<Longrightarrow> preserves P stmt \<Longrightarrow> preserves P (execute op tbl stmt)"
  by (simp add: execute_def retry_call_def pres preserves_retry_loop preserves_attempt)

lemma preserves_get_by_id [pres]: "net_stable P \<Longrightarrow> preserves P (get_by_id T i)"
  by (auto simp: get_by_id_def select_stmt_def single_row_def split: list.splits intro!: pres)

lemma preserves_find_by_id [pres]: "net_stable P \<Longrightarrow> preserves P (find_by_id T i)"
  by (auto simp: find_by_id_def select_stmt_def intro!: pres)

lemma preserves_single_row [pres]: "preserves P (single_row tbl i rows)"
  by (simp add: single_row_def pres)

lemma preserves_paginate [pres]: "net_stable P \<Longrightarrow> preserves P (paginate T q p)"
  by (auto simp: paginate_def intro!: pres)

lemma preserves_count_rows [pres]: "net_stable P \<Longrightarrow> preserves P (count_rows T q)"
  by (auto simp: count_rows_def intro!: pres)

lemma preserves_insert_row [pres]:
  "net_stable P \<Longrightarrow> preserves P (insert_stmt T mk) \<Longrightarrow> preserves P (insert_row T mk)"
  by (auto simp: insert_row_def intro!: pres)

lemma preserves_update_with_optimistic_lock [pres]:
  "net_stable P \<Longrightarrow>
   preserves P (update_stmt T (\<lambda>r. tb_id T r = i \<and> tb_version T r = v) (\<lambda>r. tb_set_version T (v + 1) (f r))) \<Longrightarrow>
   preserves P (update_with_optimistic_lock T i v f)"
  by (auto simp: update_with_optimistic_lock_def intro!: pres split: list.splits)

section \<open>Running a statement\<close>

text \<open>
  \<open>lost s n\<close>: the database after \<open>n\<close> runs of the statement whose responses never arrived.
\<close>

definition rerun :: "('z db_scheme, 'a) eff \<Rightarrow> nat \<Rightarrow> 'z db_scheme \<Rightarrow> 'z db_scheme" where
  "rerun stmt n s = ((\<lambda>u. snd (stmt u)) ^^ n) s"

lemma rerun_0 [simp]: "rerun stmt 0 s = s"
  by (simp add: rerun_def)

lemma rerun_Suc: "rerun stmt (Suc n) s = rerun stmt n (snd (stmt s))"
  by (simp only: rerun_def funpow_Suc_right o_apply)

lemma rerun_net: "net_free stmt \<Longrightarrow> rerun stmt n (s\<lparr>net := ds\<rparr>) = (rerun stmt n s)\<lparr>net := ds\<rparr>"
  by (induction n arbitrary: s) (simp_all add: rerun_Suc net_freeD)

lemma rerun_read: "rerun (gets q) n s = s"
  by (induction n) (simp_all add: rerun_Suc eff_simps)

lemma retry_loop_attempt:
  assumes "net_free stmt"
    and "retry_loop p (\<lambda>_. return ()) fr (attempt stmt) k left s = (r, t)"
  shows "\<exists>n ds. n \<le> left \<and>
    (case r of
       Inr x \<Rightarrow> n < left \<and> fst (stmt (rerun stmt n s)) = Inr x \<and> t = (rerun stmt (Suc n) s)\<lparr>net := ds\<rparr>
     | Inl e \<Rightarrow> t = (rerun stmt n s)\<lparr>net := ds\<rparr>)"
  using assms(2)
proof (induction left arbitrary: k s)
  case 0
  then show ?case by (auto simp: eff_simps intro: exI [of _ "net s"])
next
  case (Suc left)
  obtain r1 t1 where a: "attempt stmt s = (r1, t1)" by fastforce
  have cases: "(\<exists>ds. r1 = fst (stmt s) \<and> t1 = (snd (stmt s))\<lparr>net := ds\<rparr>) \<or>
      (\<exists>e ds. r1 = Inl e \<and> (t1 = s\<lparr>net := ds\<rparr> \<or> t1 = (snd (stmt s))\<lparr>net := ds\<rparr>))"
  proof (cases "net s")
    case Nil
    have "stmt s = stmt (s\<lparr>net := net s\<rparr>)" by simp
    also have "\<dots> = (fst (stmt s), (snd (stmt s))\<lparr>net := net s\<rparr>)"
      by (rule net_freeD [OF assms(1)])
    finally show ?thesis using a Nil by (auto simp: attempt_def)
  next
    case (Cons d ds)
    with a show ?thesis
      by (cases d) (auto simp: attempt_def net_freeD [OF assms(1)])
  qed
  have next_try: "\<exists>n ds'. n \<le> Suc left \<and>
      (case r of
         Inr x \<Rightarrow> n < Suc left \<and> fst (stmt (rerun stmt n s)) = Inr x \<and> t = (rerun stmt (Suc n) s)\<lparr>net := ds'\<rparr>
       | Inl e \<Rightarrow> t = (rerun stmt n s)\<lparr>net := ds'\<rparr>)"
    if t1: "t1 = (rerun stmt m s)\<lparr>net := ds\<rparr>" "m \<le> 1"
      and go: "retry_loop p (\<lambda>_. return ()) fr (attempt stmt) (Suc k) left t1 = (r, t)" for m ds
  proof -
    obtain n ds' where n: "n \<le> left"
      "case r of
         Inr x \<Rightarrow> n < left \<and> fst (stmt (rerun stmt n t1)) = Inr x \<and> t = (rerun stmt (Suc n) t1)\<lparr>net := ds'\<rparr>
       | Inl e \<Rightarrow> t = (rerun stmt n t1)\<lparr>net := ds'\<rparr>"
      using Suc.IH [OF go] by blast
    have "rerun stmt j t1 = (rerun stmt (j + m) s)\<lparr>net := ds\<rparr>" for j
      using t1(1) by (simp add: rerun_net [OF assms(1)]) (simp add: rerun_def funpow_add)
    with n that(2) show ?thesis
      by (intro exI [of _ "n + m"] exI [of _ ds'])
        (auto simp: net_freeD [OF assms(1)] split: sum.splits)
  qed
  show ?case
  proof (cases r1)
    case (Inr x)
    with cases obtain ds where "fst (stmt s) = Inr x" "t1 = (rerun stmt (Suc 0) s)\<lparr>net := ds\<rparr>"
      by (auto simp: rerun_Suc)
    with Suc.prems a Inr show ?thesis
      by (intro exI [of _ 0] exI [of _ ds]) (auto simp: handle_def split: sum.splits)
  next
    case (Inl e)
    with cases obtain m ds where t1: "t1 = (rerun stmt m s)\<lparr>net := ds\<rparr>" "m \<le> 1"
      by (metis One_nat_def le_numeral_extra(4) rerun_0 rerun_Suc zero_le)
    show ?thesis
    proof (cases "rp_retryable p e \<and> left \<noteq> 0")
      case True
      with Suc.prems a Inl have "retry_loop p (\<lambda>_. return ()) fr (attempt stmt) (Suc k) left t1 = (r, t)"
        by (simp add: handle_def)
      from next_try [OF t1 this] show ?thesis .
    next
      case False
      with Suc.prems a Inl have "t = t1 \<and> (\<exists>e'. r = Inl e')"
        by (auto simp: handle_def eff_simps split: if_splits)
      with t1 show ?thesis by (intro exI [of _ m] exI [of _ ds]) auto
    qed
  qed
qed

lemma execute_result:
  assumes "net_free stmt" and "execute op tbl stmt s = (r, t)"
  shows "\<exists>n ds. n \<le> 3 \<and>
    (case r of
       Inr x \<Rightarrow> n < 3 \<and> fst (stmt (rerun stmt n s)) = Inr x \<and> t = (rerun stmt (Suc n) s)\<lparr>net := ds\<rparr>
     | Inl e \<Rightarrow> t = (rerun stmt n s)\<lparr>net := ds\<rparr>)"
proof -
  obtain r1 where 1: "retry_loop TRANSIENT_RETRY_POLICY (\<lambda>_. return ()) (\<lambda>_. 0) (attempt stmt) 1 3 s = (r1, t)"
    and 2: "(\<exists>x. r1 = Inr x \<and> r = Inr x) \<or> (\<exists>e e'. r1 = Inl e \<and> r = Inl e')"
    using assms(2)
    by (auto simp: execute_def retry_call_def TRANSIENT_RETRY_POLICY_def handle_def eff_simps
        split: prod.splits sum.splits)
  obtain n ds where n: "n \<le> 3" and c: "case r1 of
       Inr x \<Rightarrow> n < 3 \<and> fst (stmt (rerun stmt n s)) = Inr x \<and> t = (rerun stmt (Suc n) s)\<lparr>net := ds\<rparr>
     | Inl e \<Rightarrow> t = (rerun stmt n s)\<lparr>net := ds\<rparr>"
    using retry_loop_attempt [OF assms(1) 1] by blast
  from n c 2 show ?thesis by (intro exI [of _ n] exI [of _ ds]) (cases r1; cases r; simp)
qed

lemma execute_read:
  assumes "\<And>s ds. q (s\<lparr>net := ds\<rparr>) = q s" and "execute op tbl (gets q) s = (Inr x, t)"
  shows "x = q s \<and> (\<exists>ds. t = s\<lparr>net := ds\<rparr>)"
  using execute_result [OF net_free_gets [of q, OF assms(1)] assms(2)]
  by (auto simp: rerun_read eff_simps)

lemma execute_read_error:
  assumes "\<And>s ds. q (s\<lparr>net := ds\<rparr>) = q s" and "execute op tbl (gets q) s = (Inl e, t)"
  shows "\<exists>ds. t = s\<lparr>net := ds\<rparr>"
  using execute_result [OF net_free_gets [of q, OF assms(1)] assms(2)]
  by (auto simp: rerun_read eff_simps)

lemma execute_raises_db: "execute op tbl stmt s = (Inl e, t) \<Longrightarrow> is_database_error e"
proof -
  have "is_database_error (translate_and_raise op tbl x)" for x
    by (induction op tbl x rule: translate_and_raise.induct) simp_all
  then show "execute op tbl stmt s = (Inl e, t) \<Longrightarrow> is_database_error e"
    by (auto simp: execute_def handle_def eff_simps split: prod.splits sum.splits)
qed

subsection \<open>A network that delivers\<close>

lemma retry_loop_first: "m s = (Inr x, t) \<Longrightarrow> retry_loop p sl fr m k (Suc n) s = (Inr x, t)"
  by (simp add: handle_def)

lemma execute_delivered:
  fixes stmt :: "('z db_scheme, 'a) eff"
  assumes "net s = []" "stmt s = (Inr x, t)"
  shows "execute op tbl stmt s = (Inr x, t)"
  using assms retry_loop_first [of "attempt stmt" s x t TRANSIENT_RETRY_POLICY _ _ 1 2]
  by (simp add: execute_def retry_call_def handle_def attempt_def TRANSIENT_RETRY_POLICY_def numeral_3_eq_3
      numeral_2_eq_2)

lemma execute_constraint:
  assumes "net s = []" "stmt s = (Inl (Raised (Client (APIError code msg))), t)"
  shows "execute op tbl stmt s = (Inl (Raised (Db (translate_api_error op tbl code msg))), t)"
  using assms
  by (simp add: execute_def retry_call_def handle_def attempt_def TRANSIENT_RETRY_POLICY_def numeral_3_eq_3
      eff_simps)

lemma execute_gets_reliable: "net s = [] \<Longrightarrow> execute op tbl (gets q) s = (Inr (q s), s)"
  by (rule execute_delivered) (simp_all add: eff_simps)

lemma execute_refused:
  assumes "net s = Refused code msg # ds"
  shows "execute op tbl stmt s = (Inl (Raised (Db (translate_api_error op tbl code msg))), s\<lparr>net := ds\<rparr>)"
  using assms
  by (simp add: execute_def retry_call_def handle_def attempt_def TRANSIENT_RETRY_POLICY_def numeral_3_eq_3
      eff_simps)

section \<open>The laws of a table\<close>

locale table_store =
  fixes T :: "('z db_scheme, 'r) table"
  assumes rows_set: "tb_rows T (tb_set_rows T rs s) = rs"
    and rows_net: "tb_rows T (s\<lparr>net := ds\<rparr>) = tb_rows T s"
    and set_net: "tb_set_rows T rs (s\<lparr>net := ds\<rparr>) = (tb_set_rows T rs s)\<lparr>net := ds\<rparr>"
    and check_net: "tb_check T (s\<lparr>net := ds\<rparr>) = tb_check T s"
    and set_same: "tb_set_rows T (tb_rows T s) s = s"
    and set_set: "tb_set_rows T rs (tb_set_rows T rs' s) = tb_set_rows T rs s"
    and net_set: "net (tb_set_rows T rs s) = net s"
    and clock_set: "clock (tb_set_rows T rs s) = clock s"
    and uuid_set: "next_uuid (tb_set_rows T rs s) = next_uuid s"
    and rows_uuid: "tb_rows T (s\<lparr>next_uuid := u\<rparr>) = tb_rows T s"
    and rows_clock: "tb_rows T (s\<lparr>clock := c\<rparr>) = tb_rows T s"
    and id_touch: "tb_id T (tb_touch T now r) = tb_id T r"
begin

lemmas laws = rows_set rows_net set_net check_net net_set clock_set uuid_set rows_uuid id_touch

lemma update_net_free: "net_free (update_stmt T p f)"
  by (auto simp: net_free_def update_stmt_def Let_def laws split: option.splits)

lemma delete_net_free:
  "(\<And>s ds. referenced (s\<lparr>net := ds\<rparr>) = referenced s) \<Longrightarrow> net_free (delete_stmt T p referenced)"
  by (auto simp: net_free_def delete_stmt_def laws)

lemma insert_net_free: "net_free (insert_stmt T mk)"
  by (auto simp: net_free_def insert_stmt_def Let_def laws split: option.splits)

lemma get_by_id_Inr:
  assumes "get_by_id T i s = (Inr r, t)"
  shows "\<exists>ds. t = s\<lparr>net := ds\<rparr> \<and> r \<in> set (tb_rows T s) \<and> tb_id T r = i"
proof -
  let ?q = "\<lambda>s. take 1 (filter (\<lambda>r. tb_id T r = i) (tb_rows T s))"
  obtain rows u where u: "execute ''get_by_id'' (tb_name T) (gets ?q) s = (Inr rows, u)"
    "single_row (tb_name T) i rows u = (Inr r, t)"
    using assms by (auto simp: get_by_id_def select_stmt_def and_then_eq_Inr)
  have rows: "rows = ?q s" and t: "\<exists>ds. u = s\<lparr>net := ds\<rparr>"
    using execute_read [OF _ u(1)] by (simp_all add: laws)
  from u(2) have "u = t" and "r \<in> set rows"
    by (auto simp: single_row_def eff_simps split: list.splits)
  then have "r \<in> set (filter (\<lambda>r. tb_id T r = i) (tb_rows T s))"
    using rows by (metis in_set_takeD)
  then have "r \<in> set (tb_rows T s) \<and> tb_id T r = i" by simp
  with t \<open>u = t\<close> show ?thesis by auto
qed

lemma get_by_id_delivered:
  assumes "net s = []"
  shows "get_by_id T i s =
    (case filter (\<lambda>r. tb_id T r = i) (tb_rows T s) of
       [] \<Rightarrow> (Inl (Raised (Db (RecordNotFoundError (tb_name T) i))), s) | r # _ \<Rightarrow> (Inr r, s))"
  using assms
  by (auto simp: get_by_id_def select_stmt_def and_then_def execute_gets_reliable single_row_def eff_simps
      split: list.splits)

lemma update_stmt_rows:
  assumes "update_stmt T p f s = (Inr rs, t)"
  shows "rs = map (\<lambda>r. tb_touch T (clock s) (f r)) (filter p (tb_rows T s)) \<and>
    t = tb_set_rows T (map (\<lambda>r. if p r then tb_touch T (clock s) (f r) else r) (tb_rows T s)) s"
  using assms by (auto simp: update_stmt_def Let_def split: option.splits)

lemma update_stmt_error: "update_stmt T p f s = (Inl e, t) \<Longrightarrow> t = s"
  by (auto simp: update_stmt_def Let_def split: option.splits)

lemma update_stmt_miss: "(\<And>r. r \<in> set (tb_rows T s) \<Longrightarrow> \<not> p r) \<Longrightarrow> update_stmt T p f s = (Inr [], s)"
proof -
  assume "\<And>r. r \<in> set (tb_rows T s) \<Longrightarrow> \<not> p r"
  then have "filter p (tb_rows T s) = []"
    "map (\<lambda>r. if p r then tb_touch T (clock s) (f r) else r) (tb_rows T s) = tb_rows T s"
    by (auto simp: filter_empty_conv intro: map_idI)
  then show ?thesis by (simp add: update_stmt_def Let_def set_same)
qed

end

text \<open>A table with a version column, which the optimistic lock is about.\<close>

text \<open>The rows a locked update matches, and what it writes in their place.\<close>

definition locked :: "('s, 'r) table \<Rightarrow> uuid \<Rightarrow> int \<Rightarrow> 'r \<Rightarrow> bool" where
  "locked T i v r = (tb_id T r = i \<and> tb_version T r = v)"

definition written :: "('s, 'r) table \<Rightarrow> int \<Rightarrow> ('r \<Rightarrow> 'r) \<Rightarrow> timestamp \<Rightarrow> 'r \<Rightarrow> 'r" where
  "written T v f now r = tb_touch T now (tb_set_version T (v + 1) (f r))"

locale versioned_store = table_store T for T :: "('z db_scheme, 'r) table" +
  assumes version_set: "tb_version T (tb_set_version T v r) = v"
    and version_touch: "tb_version T (tb_touch T now r) = tb_version T r"
    and id_set_version: "tb_id T (tb_set_version T v r) = tb_id T r"
begin

lemma written_version: "tb_version T (written T v f now r) = v + 1"
  by (simp add: written_def version_touch version_set)

lemma written_id: "(\<And>r. tb_id T (f r) = tb_id T r) \<Longrightarrow> tb_id T (written T v f now r) = tb_id T r"
  by (simp add: written_def id_touch id_set_version)

lemma update_locked:
  "update_with_optimistic_lock T i v f =
     and_then (execute ''update_with_optimistic_lock'' (tb_name T)
                (update_stmt T (locked T i v) (\<lambda>r. tb_set_version T (v + 1) (f r))))
       (\<lambda>rows. case rows of
          [] \<Rightarrow> throw (Raised (Db (ConcurrentUpdateError (tb_name T) i v))) | r # _ \<Rightarrow> return r)"
  by (simp add: update_with_optimistic_lock_def locked_def [abs_def])

text \<open>After the statement has run once, no row is left that a second run would match.\<close>

lemma second_run_misses:
  assumes "update_stmt T (locked T i v) (\<lambda>r. tb_set_version T (v + 1) (f r)) s = (res, t)"
  shows "t = s \<or> update_stmt T (locked T i v) (\<lambda>r. tb_set_version T (v + 1) (f r)) t = (Inr [], t)"
proof (cases res)
  case (Inl e)
  with assms show ?thesis using update_stmt_error by blast
next
  case (Inr rs)
  have v1: "tb_version T (tb_touch T (clock s) (tb_set_version T (v + 1) (f r))) = v + 1" for r
    by (simp add: version_touch version_set)
  have "tb_rows T t = map (\<lambda>r. if locked T i v r
       then tb_touch T (clock s) (tb_set_version T (v + 1) (f r)) else r) (tb_rows T s)"
    using assms Inr update_stmt_rows [of "locked T i v" "\<lambda>r. tb_set_version T (v + 1) (f r)" s rs t]
    by (simp add: laws)
  then have "\<not> locked T i v r" if "r \<in> set (tb_rows T t)" for r
    using that v1 by (force simp: locked_def)
  then show ?thesis by (intro disjI2 update_stmt_miss)
qed

lemma rerun_once:
  fixes f i v
  defines "U \<equiv> update_stmt T (locked T i v) (\<lambda>r. tb_set_version T (v + 1) (f r))"
  shows "rerun U (Suc n) s = snd (U s)"
proof (induction n)
  case 0
  then show ?case by (simp add: rerun_Suc)
next
  case (Suc n)
  have "rerun U (Suc (Suc n)) s = snd (U (rerun U (Suc n) s))"
    by (simp add: rerun_def)
  also have "\<dots> = snd (U (snd (U s)))" by (simp only: Suc.IH)
  also have "\<dots> = snd (U s)"
    using second_run_misses [of i v f s "fst (U s)" "snd (U s)"] unfolding U_def by auto
  finally show ?case .
qed

text \<open>
  A locked update that returns ran its statement exactly once, whatever the network did: exactly the
  rows it matched are replaced by what was returned.
\<close>

lemma update_Inr:
  assumes "update_with_optimistic_lock T i v f s = (Inr r, t)"
  shows "\<exists>ds r0 rest. filter (locked T i v) (tb_rows T s) = r0 # rest \<and> r = written T v f (clock s) r0 \<and>
    t = (tb_set_rows T (map (\<lambda>x. if locked T i v x then written T v f (clock s) x else x) (tb_rows T s)) s)\<lparr>net := ds\<rparr>"
proof -
  let ?U = "update_stmt T (locked T i v) (\<lambda>r. tb_set_version T (v + 1) (f r))"
  obtain rows u where ex0: "execute ''update_with_optimistic_lock'' (tb_name T) ?U s = (Inr rows, u)"
    and c: "(case rows of [] \<Rightarrow> throw (Raised (Db (ConcurrentUpdateError (tb_name T) i v)))
             | r # _ \<Rightarrow> return r) u = (Inr r, t)"
    using assms unfolding update_locked and_then_eq_Inr by blast
  from c have rows: "\<exists>rs. rows = r # rs" and "u = t"
    by (simp_all add: eff_simps split: list.split_asm)
  with ex0 have ex: "execute ''update_with_optimistic_lock'' (tb_name T) ?U s = (Inr rows, t)" by simp
  obtain n ds where n: "fst (?U (rerun ?U n s)) = Inr rows" "t = (rerun ?U (Suc n) s)\<lparr>net := ds\<rparr>"
    using execute_result [OF update_net_free ex] by auto
  have t: "t = (snd (?U s))\<lparr>net := ds\<rparr>" using n(2) by (simp add: rerun_once)
  have "fst (?U s) = Inr rows"
  proof (cases n)
    case 0
    with n(1) show ?thesis by simp
  next
    case (Suc m)
    then have r1: "fst (?U (snd (?U s))) = Inr rows" using n(1) by (simp add: rerun_once)
    with rows have "?U (snd (?U s)) \<noteq> (Inr [], snd (?U s))" by auto
    then have "snd (?U s) = s"
      using second_run_misses [of i v f s "fst (?U s)" "snd (?U s)"] by auto
    with r1 show ?thesis by simp
  qed
  then have "?U s = (Inr rows, snd (?U s))" by (metis prod.collapse)
  from update_stmt_rows [OF this] rows t show ?thesis
    by (intro exI [of _ ds]) (auto simp: written_def Cons_eq_map_conv cong: if_cong)
qed

lemma update_rows:
  "tb_rows T (snd (update_with_optimistic_lock T i v f s)) = tb_rows T s \<or>
   tb_rows T (snd (update_with_optimistic_lock T i v f s)) =
     map (\<lambda>x. if locked T i v x then written T v f (clock s) x else x) (tb_rows T s)"
proof -
  let ?U = "update_stmt T (locked T i v) (\<lambda>r. tb_set_version T (v + 1) (f r))"
  obtain r t where ex: "execute ''update_with_optimistic_lock'' (tb_name T) ?U s = (r, t)" by fastforce
  have snd_t: "snd (update_with_optimistic_lock T i v f s) = t"
    using ex by (auto simp: update_locked and_then_def eff_simps split: sum.splits list.splits)
  obtain n ds where "t = (rerun ?U n s)\<lparr>net := ds\<rparr>"
    using execute_result [OF update_net_free ex] by (cases r) auto
  then have "tb_rows T t = tb_rows T s \<or> tb_rows T t = tb_rows T (snd (?U s))"
    by (cases n) (auto simp: rerun_once laws)
  moreover have "tb_rows T (snd (?U s)) = tb_rows T s \<or>
    tb_rows T (snd (?U s)) = map (\<lambda>x. if locked T i v x then written T v f (clock s) x else x) (tb_rows T s)"
  proof (cases "fst (?U s)")
    case (Inl e)
    then show ?thesis using update_stmt_error by (metis prod.collapse)
  next
    case (Inr rs)
    then have "?U s = (Inr rs, snd (?U s))" by (metis prod.collapse)
    from update_stmt_rows [OF this] show ?thesis by (simp add: laws written_def cong: if_cong)
  qed
  ultimately show ?thesis unfolding snd_t by auto
qed

lemma update_delivered:
  assumes "net s = []" and "filter (locked T i v) (tb_rows T s) = [r]"
    and "tb_check T s (written T v f (clock s) r) = None"
  shows "update_with_optimistic_lock T i v f s =
    (Inr (written T v f (clock s) r),
     tb_set_rows T (map (\<lambda>x. if locked T i v x then written T v f (clock s) x else x) (tb_rows T s)) s)"
proof -
  have "update_stmt T (locked T i v) (\<lambda>r. tb_set_version T (v + 1) (f r)) s =
    (Inr [written T v f (clock s) r],
     tb_set_rows T (map (\<lambda>x. if locked T i v x then written T v f (clock s) x else x) (tb_rows T s)) s)"
    using assms(2,3) by (simp add: update_stmt_def Let_def written_def cong: if_cong)
  note execute_delivered [where stmt = "update_stmt T (locked T i v) (\<lambda>r. tb_set_version T (v + 1) (f r))"
    and op = "''update_with_optimistic_lock''" and tbl = "tb_name T" and s = s, OF assms(1) this]
  then show ?thesis by (simp add: update_locked and_then_def eff_simps)
qed

lemma update_conflict:
  assumes "net s = []" and "filter (locked T i v) (tb_rows T s) = []"
  shows "update_with_optimistic_lock T i v f s = (Inl (Raised (Db (ConcurrentUpdateError (tb_name T) i v))), s)"
proof -
  have "update_stmt T (locked T i v) (\<lambda>r. tb_set_version T (v + 1) (f r)) s = (Inr [], s)"
    using assms(2) by (intro update_stmt_miss) (auto simp: filter_empty_conv)
  note execute_delivered [where stmt = "update_stmt T (locked T i v) (\<lambda>r. tb_set_version T (v + 1) (f r))"
    and op = "''update_with_optimistic_lock''" and tbl = "tb_name T" and s = s, OF assms(1) this]
  then show ?thesis by (simp add: update_locked and_then_def eff_simps)
qed

end

lemma exists_net [simp]:
  "profile_exists (s\<lparr>net := ds\<rparr>) = profile_exists s" "request_exists (s\<lparr>net := ds\<rparr>) = request_exists s"
  "stage_exists (s\<lparr>net := ds\<rparr>) = stage_exists s" "definition_exists (s\<lparr>net := ds\<rparr>) = definition_exists s"
  by (simp_all add: profile_exists_def request_exists_def stage_exists_def definition_exists_def fun_eq_iff)

interpretation profiles: versioned_store profile_table
  by unfold_locales (auto simp: check_profile_def)

interpretation definitions: versioned_store definition_table
  by unfold_locales (auto simp: check_definition_def fun_eq_iff)

interpretation requests: versioned_store request_table
  by unfold_locales (auto simp: check_request_def fun_eq_iff)

interpretation stages: versioned_store stage_table
  by unfold_locales (auto simp: check_stage_def fun_eq_iff)

interpretation audits: table_store audit_table
  by unfold_locales (auto simp: check_audit_def fun_eq_iff)

interpretation notifications: table_store notification_table
  by unfold_locales (auto simp: check_notification_def fun_eq_iff)

lemma locked_rows [simp]:
  "locked request_table i v = (\<lambda>r. rq_id r = i \<and> rq_version r = v)"
  "locked stage_table i v = (\<lambda>st. st_id st = i \<and> st_version st = v)"
  "locked definition_table i v = (\<lambda>d. df_id d = i \<and> df_row_version d = v)"
  "locked profile_table i v = (\<lambda>p. pr_id p = i \<and> pr_version p = v)"
  by (simp_all add: locked_def fun_eq_iff)

lemma written_rows [simp]:
  "written request_table v f now = (\<lambda>r. (f r)\<lparr>rq_version := v + 1, rq_updated_at := now\<rparr>)"
  "written stage_table v g now = (\<lambda>st. (g st)\<lparr>st_version := v + 1\<rparr>)"
  "written definition_table v h now = (\<lambda>d. (h d)\<lparr>df_row_version := v + 1\<rparr>)"
  "written profile_table v k now = (\<lambda>p. (k p)\<lparr>pr_version := v + 1, pr_updated_at := now\<rparr>)"
  by (simp_all add: written_def fun_eq_iff)

end
