(* ===== verification/Locking.thy ===== *)
theory Locking imports Store
begin

text \<open>
  What the optimistic lock of \<open>BaseRepository.update_with_optimistic_lock\<close> guarantees: clients that
  read a row and later write it, in any order and over any network, never overwrite a change they have
  not seen; one update is applied at most once, whatever is lost and retried; and what the lock cannot
  guarantee, when a response is lost. The pages of \<open>paginate\<close> partition
  the result.
\<close>

section \<open>Clients racing for one row\<close>

type_synonym ('z, 'r) race = "'z db_scheme \<times> (nat \<Rightarrow> 'r option)"

text \<open>
  A client reads row \<open>i\<close> and keeps what it read; later it writes with the version it has seen, and
  whatever the answer, gives its copy up. The clock moves between the steps.
\<close>

inductive race_step :: "('z db_scheme, 'r) table \<Rightarrow> uuid \<Rightarrow> ('z, 'r) race \<Rightarrow> ('z, 'r) race \<Rightarrow> bool"
  for T i where
  reads: "get_by_id T i s = (Inr r, t) \<Longrightarrow> race_step T i (s, C) (t, C(c := Some r))"
| writes: "C c = Some r \<Longrightarrow> (\<And>x. tb_id T (f x) = tb_id T x) \<Longrightarrow>
    t = snd (update_with_optimistic_lock T i (tb_version T r) f s) \<Longrightarrow>
    race_step T i (s, C) (t, C(c := None))"
| tick: "race_step T i (s, C) (s\<lparr>clock := now\<rparr>, C)"

definition sees_current :: "('z db_scheme, 'r) table \<Rightarrow> uuid \<Rightarrow> ('z, 'r) race \<Rightarrow> bool" where
  "sees_current T i w \<longleftrightarrow> (\<exists>cur. filter (\<lambda>r. tb_id T r = i) (tb_rows T (fst w)) = [cur] \<and>
     (\<forall>c r. snd w c = Some r \<longrightarrow> tb_version T r \<le> tb_version T cur \<and>
        (tb_version T r = tb_version T cur \<longrightarrow> r = cur)))"

context versioned_store
begin

lemma filter_written:
  assumes "\<And>r. tb_id T (f r) = tb_id T r" and "filter (\<lambda>r. tb_id T r = i) rows = [cur]"
  shows "filter (\<lambda>r. tb_id T r = i) (map (\<lambda>x. if locked T i v x then written T v f now x else x) rows) =
    [if tb_version T cur = v then written T v f now cur else cur]"
proof -
  have "filter (\<lambda>r. tb_id T r = i) (map (\<lambda>x. if locked T i v x then written T v f now x else x) rows) =
    map (\<lambda>x. if locked T i v x then written T v f now x else x) (filter (\<lambda>r. tb_id T r = i) rows)"
    by (induction rows) (auto simp: written_id [OF assms(1)])
  moreover have "tb_id T cur = i" using assms(2) by (auto dest: filter_eq_ConsD)
  ultimately show ?thesis using assms(2) by (simp add: locked_def)
qed

lemma race_step_invariant:
  assumes "race_step T i w w'" and "sees_current T i w"
  shows "sees_current T i w'"
  using assms
proof (cases rule: race_step.cases)
  case (reads s r t C c)
  obtain ds where t: "t = s\<lparr>net := ds\<rparr>" and r: "r \<in> set (filter (\<lambda>r. tb_id T r = i) (tb_rows T s))"
    using get_by_id_Inr [OF reads(3)] by auto
  from assms(2) reads(1) obtain cur where
    "filter (\<lambda>r. tb_id T r = i) (tb_rows T s) = [cur]"
    "\<forall>c r. C c = Some r \<longrightarrow> tb_version T r \<le> tb_version T cur \<and> (tb_version T r = tb_version T cur \<longrightarrow> r = cur)"
    by (auto simp: sees_current_def)
  with r t reads(2) show ?thesis by (auto simp: sees_current_def laws)
next
  case (writes C c r f t s)
  let ?v = "tb_version T r"
  from assms(2) writes(1) obtain cur where
    cur: "filter (\<lambda>r. tb_id T r = i) (tb_rows T s) = [cur]"
    and C: "\<forall>c r. C c = Some r \<longrightarrow> tb_version T r \<le> tb_version T cur \<and> (tb_version T r = tb_version T cur \<longrightarrow> r = cur)"
    by (auto simp: sees_current_def)
  consider "tb_rows T t = tb_rows T s"
    | "tb_rows T t = map (\<lambda>x. if locked T i ?v x then written T ?v f (clock s) x else x) (tb_rows T s)"
    using update_rows [of i ?v f s] writes(5) by blast
  then show ?thesis
  proof cases
    case 1
    with cur C writes(2) show ?thesis by (auto simp: sees_current_def)
  next
    case 2
    then have f: "filter (\<lambda>r. tb_id T r = i) (tb_rows T t) =
        [if tb_version T cur = ?v then written T ?v f (clock s) cur else cur]"
      using filter_written [OF writes(4) cur] by simp
    have "tb_version T r' < tb_version T (written T ?v f (clock s) cur)"
      if "C c' = Some r'" "tb_version T cur = ?v" for c' r'
    proof -
      have "tb_version T r' \<le> tb_version T cur" using C that(1) by blast
      with that(2) show ?thesis by (simp add: written_version)
    qed
    with f C writes(2) show ?thesis unfolding sees_current_def by fastforce
  qed
next
  case (tick s C now)
  then show ?thesis using assms(2) by (simp add: sees_current_def rows_clock)
qed

lemma race_invariant:
  "(race_step T i)\<^sup>*\<^sup>* w w' \<Longrightarrow> sees_current T i w \<Longrightarrow> sees_current T i w'"
  by (induction rule: rtranclp_induct) (auto intro: race_step_invariant)

lemma write_sees_current:
  assumes "sees_current T i (s, C)" "C c = Some r" "\<And>x. tb_id T (f x) = tb_id T x"
    and "update_with_optimistic_lock T i (tb_version T r) f s = (Inr r', t)"
  shows "filter (\<lambda>x. tb_id T x = i) (tb_rows T s) = [r] \<and>
    filter (\<lambda>x. tb_id T x = i) (tb_rows T t) = [r'] \<and>
    r' = tb_touch T (clock s) (tb_set_version T (tb_version T r + 1) (f r))"
proof -
  let ?v = "tb_version T r"
  obtain cur where cur: "filter (\<lambda>r. tb_id T r = i) (tb_rows T s) = [cur]"
    and C: "tb_version T r = tb_version T cur \<longrightarrow> r = cur"
    using assms(1,2) by (fastforce simp: sees_current_def)
  obtain ds r0 rest where u: "filter (locked T i ?v) (tb_rows T s) = r0 # rest" "r' = written T ?v f (clock s) r0"
    "t = (tb_set_rows T (map (\<lambda>x. if locked T i ?v x then written T ?v f (clock s) x else x) (tb_rows T s)) s)\<lparr>net := ds\<rparr>"
    using update_Inr [OF assms(4)] by blast
  have "r0 \<in> set (filter (locked T i ?v) (tb_rows T s))" using u(1) by simp
  then have "r0 \<in> set (filter (\<lambda>r. tb_id T r = i) (tb_rows T s))" "tb_version T r0 = ?v"
    by (auto simp: locked_def)
  with cur have "r0 = cur" "tb_version T cur = ?v" by auto
  moreover from this C have "cur = r" by simp
  moreover have "filter (\<lambda>x. tb_id T x = i) (tb_rows T t) = [written T ?v f (clock s) cur]"
    using filter_written [OF assms(3) cur, of ?v "clock s"] u(3) \<open>tb_version T cur = ?v\<close> by (simp add: laws)
  ultimately show ?thesis using cur u(2) by (simp add: written_def)
qed

lemma update_state:
  "\<exists>ds. snd (update_with_optimistic_lock T i v f s) = s\<lparr>net := ds\<rparr> \<or>
   snd (update_with_optimistic_lock T i v f s) =
     (tb_set_rows T (map (\<lambda>x. if locked T i v x then written T v f (clock s) x else x) (tb_rows T s)) s)\<lparr>net := ds\<rparr>"
proof -
  let ?U = "update_stmt T (locked T i v) (\<lambda>r. tb_set_version T (v + 1) (f r))"
  obtain r t where ex: "execute ''update_with_optimistic_lock'' (tb_name T) ?U s = (r, t)" by fastforce
  have snd_t: "snd (update_with_optimistic_lock T i v f s) = t"
    using ex by (auto simp: update_locked and_then_def eff_simps split: sum.splits list.splits)
  obtain n ds where t: "t = (rerun ?U n s)\<lparr>net := ds\<rparr>"
    using execute_result [OF update_net_free ex] by (cases r) auto
  have "rerun ?U n s = s \<or> rerun ?U n s = snd (?U s)" by (cases n) (simp_all add: rerun_once)
  moreover have "snd (?U s) = s \<or>
    snd (?U s) = tb_set_rows T (map (\<lambda>x. if locked T i v x then written T v f (clock s) x else x) (tb_rows T s)) s"
  proof (cases "fst (?U s)")
    case (Inl e)
    then show ?thesis using update_stmt_error by (metis prod.collapse)
  next
    case (Inr rs)
    then have "?U s = (Inr rs, snd (?U s))" by (metis prod.collapse)
    from update_stmt_rows [OF this] show ?thesis by (simp add: written_def cong: if_cong)
  qed
  ultimately show ?thesis unfolding snd_t t by (elim disjE) (simp_all, blast+)
qed

text \<open>With distinct ids a locked update meets no row, or one; and the rest of the table stands.\<close>

lemma locked_map:
  assumes "distinct (map (tb_id T) xs)"
  shows "map (\<lambda>x. if locked T i v x then g x else x) xs = xs \<and> filter (locked T i v) xs = [] \<or>
    (\<exists>before r0 after. xs = before @ r0 # after \<and> locked T i v r0 \<and> filter (locked T i v) xs = [r0] \<and>
       map (\<lambda>x. if locked T i v x then g x else x) xs = before @ g r0 # after)"
proof (cases "\<exists>r0\<in>set xs. locked T i v r0")
  case False
  then show ?thesis by (intro disjI1 conjI map_idI) (auto simp: filter_empty_conv)
next
  case True
  then obtain r0 before after where split: "xs = before @ r0 # after" "locked T i v r0" by (meson split_list)
  have rest: "\<not> locked T i v x" if "x \<in> set before \<union> set after" for x
    using assms that split by (force simp: locked_def image_iff)
  then have same: "map (\<lambda>x. if locked T i v x then g x else x) ys = ys" "filter (locked T i v) ys = []"
    if "set ys \<subseteq> set before \<union> set after" for ys
    using that by (auto simp: filter_empty_conv intro!: map_idI)
  show ?thesis
    using split same [of before] same [of after] by (intro disjI2 exI [of _ before] exI [of _ r0] exI [of _ after]) simp
qed

end

text \<open>
  C9. No lost update. Start with one row of the given id and no client holding a copy; let any number
  of clients read and write it in any interleaving, over a network that may lose requests and
  responses or refuse statements. Whenever a client's locked write returns, the row was, just before
  it, exactly the row that client had read, and just after it exactly that row with the client's
  change and the next version.
\<close>

theorem no_lost_update:
  assumes "versioned_store T"
    and "filter (\<lambda>x. tb_id T x = i) (tb_rows T s0) = [r0]"
    and "(race_step T i)\<^sup>*\<^sup>* (s0, \<lambda>_. None) (s, C)"
    and "C c = Some r" and "\<And>x. tb_id T (f x) = tb_id T x"
    and "update_with_optimistic_lock T i (tb_version T r) f s = (Inr r', t)"
  shows "filter (\<lambda>x. tb_id T x = i) (tb_rows T s) = [r] \<and>
    filter (\<lambda>x. tb_id T x = i) (tb_rows T t) = [r'] \<and>
    r' = tb_touch T (clock s) (tb_set_version T (tb_version T r + 1) (f r))"
proof -
  have "sees_current T i (s0, \<lambda>_. None)" using assms(2) by (simp add: sees_current_def)
  then have "sees_current T i (s, C)"
    by (rule versioned_store.race_invariant [OF assms(1,3)])
  from versioned_store.write_sees_current [where f = f and T = T and r = r and r' = r' and t = t and c = c,
      OF assms(1) this assms(4) assms(5) assms(6)]
  show ?thesis .
qed

definition sample_row :: profile_record where
  "sample_row = \<lparr>pr_id = 1, pr_full_name = ''Ada'', pr_role = Admin, pr_department = None, pr_version = 1,
     pr_created_at = 0, pr_updated_at = 0, pr_company_id = 7, pr_is_platform_admin = False,
     pr_is_active = True, pr_deleted_at = None, pr_deleted_by = None\<rparr>"

definition one_profile_db :: db where
  "one_profile_db = empty_db\<lparr>t_profiles := [sample_row]\<rparr>"

theorem no_lost_update_witness:
  "\<exists>r' t. update_with_optimistic_lock profile_table 1 1 (\<lambda>p. p\<lparr>pr_full_name := ''Bo''\<rparr>) one_profile_db = (Inr r', t) \<and>
     filter (\<lambda>x. pr_id x = 1) (t_profiles t) = [r']"
proof -
  have r: "get_by_id profile_table 1 one_profile_db = (Inr sample_row, one_profile_db)"
    by (simp add: profiles.get_by_id_delivered one_profile_db_def empty_db_def sample_row_def)
  have run: "(race_step profile_table 1)\<^sup>*\<^sup>* (one_profile_db, \<lambda>_. None) (one_profile_db, (\<lambda>_. None)(0 := Some sample_row))"
    by (intro r_into_rtranclp race_step.reads r)
  obtain r' t where u: "update_with_optimistic_lock profile_table 1 (tb_version profile_table sample_row)
      (\<lambda>p. p\<lparr>pr_full_name := ''Bo''\<rparr>) one_profile_db = (Inr r', t)"
    using profiles.update_delivered [of one_profile_db 1 1 sample_row "\<lambda>p. p\<lparr>pr_full_name := ''Bo''\<rparr>"]
    by (simp add: one_profile_db_def empty_db_def sample_row_def check_profile_def)
  have "filter (\<lambda>x. tb_id profile_table x = 1) (tb_rows profile_table t) = [r']"
    using no_lost_update [of profile_table 1 one_profile_db sample_row one_profile_db
        "(\<lambda>_. None)(0 := Some sample_row)" 0 sample_row "\<lambda>p. p\<lparr>pr_full_name := ''Bo''\<rparr>" r' t] run u
    by (simp add: profiles.versioned_store_axioms one_profile_db_def sample_row_def)
  then show ?thesis using u by (auto simp: sample_row_def)
qed

definition sample_request_row :: request_record where
  "sample_request_row = \<lparr>rq_id = 5, rq_requester_id = 1, rq_workflow_definition_id = 3, rq_request_type = ''leave'',
     rq_title = ''Trip'', rq_description = None, rq_department = None, rq_status = ReqPending,
     rq_current_stage_id = None, rq_version = 1, rq_deleted_at = None, rq_deleted_by = None,
     rq_created_at = 0, rq_updated_at = 0, rq_completed_at = None, rq_company_id = 7\<rparr>"

definition sample_definition_row :: definition_record where
  "sample_definition_row = \<lparr>df_id = 3, df_request_type = ''leave'', df_version = 1, df_definition = [],
     df_is_active = True, df_created_by = Some 1, df_row_version = 1, df_created_at = 0, df_company_id = 7\<rparr>"

definition one_request_db :: "delivery list \<Rightarrow> db" where
  "one_request_db ds = empty_db\<lparr>t_profiles := [sample_row], t_definitions := [sample_definition_row],
     t_requests := [sample_request_row], net := ds\<rparr>"

lemmas sample_row_defs = sample_row_def sample_request_row_def sample_definition_row_def one_request_db_def
  empty_db_def

section \<open>One write, and the write whose answer is lost\<close>

text \<open>
  C10. Over any network, with its lost requests, lost responses and the retries that answer them, a
  locked update is applied at most once: either nothing but the network's schedule has moved, and then it
  has raised; or one row with the id and the version asked for is replaced by the change with the version
  advanced by one, every other row and everything else in the database as it was, and what a call that
  returns has returned is that row. A call that returns has therefore been applied exactly once; one that
  raises may have been applied or not.
\<close>

theorem locked_update_exactly_once:
  assumes "versioned_store T" and "distinct (map (tb_id T) (tb_rows T s))"
    and "update_with_optimistic_lock T i v f s = (res, t)"
  shows "\<exists>ds. (t = s\<lparr>net := ds\<rparr> \<and> (\<exists>e. res = Inl e)) \<or>
    (\<exists>before r0 after r. tb_rows T s = before @ r0 # after \<and> tb_id T r0 = i \<and> tb_version T r0 = v \<and>
       r = tb_touch T (clock s) (tb_set_version T (v + 1) (f r0)) \<and>
       t = (tb_set_rows T (before @ r # after) s)\<lparr>net := ds\<rparr> \<and> ((\<exists>e. res = Inl e) \<or> res = Inr r))"
proof -
  note store = versioned_store.update_state [OF assms(1), of i v f s] versioned_store.update_Inr [OF assms(1), of i v f s]
    table_store.set_same [OF versioned_store.axioms(1) [OF assms(1)], of s]
  consider (untouched) "filter (locked T i v) (tb_rows T s) = []"
      "map (\<lambda>x. if locked T i v x then written T v f (clock s) x else x) (tb_rows T s) = tb_rows T s"
    | (one) before r0 after where "tb_rows T s = before @ r0 # after" "locked T i v r0"
      "filter (locked T i v) (tb_rows T s) = [r0]"
      "map (\<lambda>x. if locked T i v x then written T v f (clock s) x else x) (tb_rows T s) =
        before @ written T v f (clock s) r0 # after"
    using versioned_store.locked_map [OF assms(1,2), of i v "written T v f (clock s)"] by blast
  then show ?thesis
  proof cases
    case untouched
    with store assms(3) show ?thesis by (cases res) fastforce+
  next
    case one
    show ?thesis
    proof (cases res)
      case (Inl e)
      with store(1) one assms(3) show ?thesis by (fastforce simp: locked_def written_def)
    next
      case (Inr r)
      with store(2) one assms(3) show ?thesis by (fastforce simp: locked_def written_def)
    qed
  qed
qed

text \<open>
  When the first response to a locked update is lost, the change is in the table and the caller
  nevertheless gets \<open>ConcurrentUpdateError\<close>: the retry no longer finds the version it asks for.
\<close>

theorem lost_response_reports_conflict:
  fixes s :: "'z db_scheme"
  assumes "net s = [ResponseLost]" and "filter (\<lambda>r. rq_id r = i) (t_requests s) = [r0]"
    and "check_request s ((f r0)\<lparr>rq_version := rq_version r0 + 1, rq_updated_at := clock s\<rparr>) = None"
    and "\<And>r. rq_id (f r) = rq_id r"
  shows "\<exists>t. update_with_optimistic_lock request_table i (rq_version r0) f s =
      (Inl (Raised (Db (ConcurrentUpdateError ''requests'' i (rq_version r0)))), t) \<and>
    filter (\<lambda>r. rq_id r = i) (t_requests t) = [(f r0)\<lparr>rq_version := rq_version r0 + 1, rq_updated_at := clock s\<rparr>]"
proof -
  let ?w = "(f r0)\<lparr>rq_version := rq_version r0 + 1, rq_updated_at := clock s\<rparr>"
  let ?L = "\<lambda>x. rq_id x = i \<and> rq_version x = rq_version r0"
  let ?W = "\<lambda>x. (f x)\<lparr>rq_version := rq_version r0 + 1, rq_updated_at := clock s\<rparr>"
  let ?rows = "map (\<lambda>x. if ?L x then ?W x else x) (t_requests s)"
  define U where "U = update_stmt (request_table :: ('z db_scheme, request_record) table) ?L
      (\<lambda>r. (f r)\<lparr>rq_version := rq_version r0 + 1\<rparr>)"
  have U: "U = update_stmt request_table (locked request_table i (rq_version r0))
      (\<lambda>r. tb_set_version request_table (rq_version r0 + 1) (f r))"
    by (simp add: U_def)
  have "filter ?L (t_requests s) =
      filter (\<lambda>r. rq_version r = rq_version r0) (filter (\<lambda>r. rq_id r = i) (t_requests s))"
    by (simp add: conj_commute)
  then have L: "filter ?L (t_requests s) = [r0]" using assms(2) by simp
  have first: "U (s\<lparr>net := []\<rparr>) = (Inr [?w], s\<lparr>net := [], t_requests := ?rows\<rparr>)"
    using L assms(3) requests.check_net [where s = s and ds = "[]"] by (simp add: U_def update_stmt_def Let_def)
  have "\<not> ?L x" if "x \<in> set ?rows" for x
    using that by auto
  then have second: "U (s\<lparr>net := [], t_requests := ?rows\<rparr>) = (Inr [], s\<lparr>net := [], t_requests := ?rows\<rparr>)"
    unfolding U_def by (intro requests.update_stmt_miss) simp
  have "execute ''update_with_optimistic_lock'' (tb_name request_table) U s =
      (Inr [], s\<lparr>net := [], t_requests := ?rows\<rparr>)"
    using assms(1) first second
    by (simp add: execute_def retry_call_def TRANSIENT_RETRY_POLICY_def numeral_3_eq_3 handle_def attempt_def
        eff_simps and_then_def)
  then have "update_with_optimistic_lock request_table i (rq_version r0) f s =
      (Inl (Raised (Db (ConcurrentUpdateError ''requests'' i (rq_version r0)))), s\<lparr>net := [], t_requests := ?rows\<rparr>)"
    unfolding requests.update_locked U [symmetric] by (simp add: and_then_def eff_simps)
  moreover have "filter (\<lambda>r. rq_id r = i) ?rows = [?w]"
    using requests.filter_written [of f i "t_requests s" r0 "rq_version r0" "clock s"] assms(2,4)
    by (simp cong: if_cong)
  ultimately show ?thesis by (intro exI conjI) (assumption, simp)
qed

theorem lost_response_reports_conflict_witness:
  "\<exists>t. update_with_optimistic_lock request_table 5 1 (\<lambda>r. r\<lparr>rq_title := ''New''\<rparr>) (one_request_db [ResponseLost]) =
      (Inl (Raised (Db (ConcurrentUpdateError ''requests'' 5 1))), t) \<and>
    map rq_title (filter (\<lambda>r. rq_id r = 5) (t_requests t)) = [''New'']"
proof -
  have v: "rq_version sample_request_row = 1" by (simp add: sample_request_row_def)
  show ?thesis
    using lost_response_reports_conflict [of "one_request_db [ResponseLost]" 5 sample_request_row
        "\<lambda>r. r\<lparr>rq_title := ''New''\<rparr>"]
    by (force simp: v sample_row_defs check_request_def profile_exists_def definition_exists_def)
qed

text \<open>
  The first request lost, the update returns after a retry; then the response lost as well, it raises,
  and the row is changed all the same.
\<close>

lemma lossy_updates:
  "is_ok (fst (update_with_optimistic_lock request_table 5 1 (\<lambda>r. r\<lparr>rq_title := ''New''\<rparr>) (one_request_db [RequestLost])))"
  "\<not> is_ok (fst (update_with_optimistic_lock request_table 5 1 (\<lambda>r. r\<lparr>rq_title := ''New''\<rparr>)
      (one_request_db [RequestLost, ResponseLost])))"
  "map rq_version (t_requests (snd (update_with_optimistic_lock request_table 5 1 (\<lambda>r. r\<lparr>rq_title := ''New''\<rparr>)
      (one_request_db [RequestLost, ResponseLost])))) = [2]"
  by code_simp+

theorem locked_update_exactly_once_witness:
  "\<exists>r t e t'. update_with_optimistic_lock request_table 5 1 (\<lambda>r. r\<lparr>rq_title := ''New''\<rparr>) (one_request_db [RequestLost]) = (Inr r, t) \<and>
     t_requests t = [r] \<and> rq_version r = 2 \<and>
     update_with_optimistic_lock request_table 5 1 (\<lambda>r. r\<lparr>rq_title := ''New''\<rparr>) (one_request_db [RequestLost, ResponseLost]) = (Inl e, t') \<and>
     (\<exists>ds. t' = (one_request_db [])\<lparr>t_requests := [sample_request_row\<lparr>rq_title := ''New'', rq_version := 2\<rparr>], net := ds\<rparr>)"
proof -
  let ?f = "\<lambda>r :: request_record. r\<lparr>rq_title := ''New''\<rparr>"
  have one: "distinct (map (tb_id request_table) (tb_rows request_table (one_request_db ds)))" for ds
    by (simp add: sample_row_defs)
  obtain r t where u: "update_with_optimistic_lock request_table 5 1 ?f (one_request_db [RequestLost]) = (Inr r, t)"
    using is_ok_run [OF lossy_updates(1)] by blast
  obtain e t' where u': "update_with_optimistic_lock request_table 5 1 ?f (one_request_db [RequestLost, ResponseLost]) = (Inl e, t')"
    using not_ok_run [OF lossy_updates(2)] by blast
  have "t_requests t = [r] \<and> rq_version r = 2"
    using locked_update_exactly_once [OF requests.versioned_store_axioms one u]
    by (auto simp: one_request_db_def append_eq_Cons_conv Cons_eq_append_conv)
  moreover have "map rq_version (t_requests t') = [2]" using lossy_updates(3) unfolding u' by simp
  then have "\<exists>ds. t' = (one_request_db [])\<lparr>t_requests := [sample_request_row\<lparr>rq_title := ''New'', rq_version := 2\<rparr>], net := ds\<rparr>"
    using locked_update_exactly_once [OF requests.versioned_store_axioms one u']
    by (auto simp: sample_row_defs append_eq_Cons_conv Cons_eq_append_conv)
  ultimately show ?thesis using u u' by blast
qed

section \<open>Pages\<close>

lemma row_range_page:
  "Page n sz = Inr p \<Longrightarrow>
   row_range (page_offset p) (page_upper_bound p) xs = take (nat sz) (drop (nat ((n - 1) * sz)) xs)"
  by (auto simp: Page_def row_range_def page_offset_def page_upper_bound_def split: if_splits)

lemma chunks_take:
  "concat (map (\<lambda>k. take m (drop (k * m) xs)) [0..<n]) = take (n * m) xs"
  by (induction n) (simp_all add: take_add [symmetric] add.commute)

text \<open>
  \<open>paginate\<close> on a query: the pages 1 to \<open>total_pages\<close>, each read by the code's own row range,
  put one after another are the whole result in its order; every page but the last is full and none is
  empty.
\<close>

theorem pages_partition_result:
  assumes "1 \<le> sz" and "sz \<le> MAX_PAGE_SIZE"
    and "pages = total_pages \<lparr>res_items = xs, res_page = 1, res_page_size = sz, res_total_records = int (length xs)\<rparr>"
    and "\<And>n. 1 \<le> n \<Longrightarrow> Page n sz = Inr (pg n)"
  shows "concat (map (\<lambda>n. row_range (page_offset (pg n)) (page_upper_bound (pg n)) xs) [1..pages]) = xs \<and>
    (\<forall>n. 1 \<le> n \<longrightarrow> n < pages \<longrightarrow>
       int (length (row_range (page_offset (pg n)) (page_upper_bound (pg n)) xs)) = sz) \<and>
    (xs \<noteq> [] \<longrightarrow> row_range (page_offset (pg pages)) (page_upper_bound (pg pages)) xs \<noteq> [])"
proof -
  define k where "k = nat pages"
  define m where "m = nat sz"
  have sz: "sz = int m" "0 < m" using assms(1) by (simp_all add: m_def)
  have pages: "pages = - (- int (length xs) div int m)"
    using assms(1,3) sz by (simp add: total_pages_def)
  have "0 \<le> pages" unfolding pages using sz(2) by (simp add: div_nonpos_pos_le0)
  then have k: "pages = int k" by (simp add: k_def)
  define q where "q = - int (length xs) div int m"
  have "q * int m + - int (length xs) mod int m = - int (length xs)"
    "0 \<le> - int (length xs) mod int m" "- int (length xs) mod int m < int m"
    using sz(2) by (simp_all add: q_def)
  moreover have kq: "int k = - q" using k pages by (simp add: q_def)
  ultimately have km: "int (length xs) \<le> int k * int m" and low: "int k * int m - int m < int (length xs)"
    by simp_all
  from km have up: "length xs \<le> k * m" by (metis of_nat_le_iff of_nat_mult)
  have range: "row_range (page_offset (pg n)) (page_upper_bound (pg n)) xs = take m (drop (nat (n - 1) * m) xs)"
    if "1 \<le> n" for n
    using row_range_page [OF assms(4) [OF that]] that sz by (simp add: nat_mult_distrib)
  have ints: "[1..int k] = map (\<lambda>i. int i + 1) [0..<k]"
    by (induction k) (simp_all add: upto_rec2)
  have "concat (map (\<lambda>n. row_range (page_offset (pg n)) (page_upper_bound (pg n)) xs) [1..pages]) =
      concat (map (\<lambda>i. take m (drop (i * m) xs)) [0..<k])"
    unfolding k ints by (simp add: comp_def range)
  also have "\<dots> = xs" using up by (simp add: chunks_take)
  finally have 1: "concat (map (\<lambda>n. row_range (page_offset (pg n)) (page_upper_bound (pg n)) xs) [1..pages]) = xs" .
  have 2: "int (length (row_range (page_offset (pg n)) (page_upper_bound (pg n)) xs)) = sz"
    if "1 \<le> n" "n < pages" for n
  proof -
    have "nat (n - 1) + 2 \<le> k" using that k by simp
    then have "(nat (n - 1) + 2) * m \<le> k * m" by (rule mult_le_mono1)
    then have "int (nat (n - 1) * m + m) + int m \<le> int k * int m"
      by (simp add: algebra_simps flip: of_nat_mult of_nat_add)
    with low have "nat (n - 1) * m + m < length xs" by linarith
    then show ?thesis using range [OF that(1)] sz(1) by simp
  qed
  have 3: "row_range (page_offset (pg pages)) (page_upper_bound (pg pages)) xs \<noteq> []" if "xs \<noteq> []"
  proof -
    have "0 < k" using up that by (cases k) auto
    then have "nat (pages - 1) * m < length xs" using low k by (cases k) (simp_all add: algebra_simps flip: of_nat_mult of_nat_add)
    then show ?thesis using range [of pages] \<open>0 < k\<close> k sz(2) by simp
  qed
  from 1 2 3 show ?thesis by blast
qed

definition sample_page :: "int \<Rightarrow> page" where
  "sample_page n = \<lparr>pg_number = n, pg_size = 2\<rparr>"

theorem pages_partition_result_witness:
  "concat (map (\<lambda>n. row_range (page_offset (sample_page n)) (page_upper_bound (sample_page n)) [7 :: int, 8, 9]) [1..2]) =
    [7, 8, 9]"
  by (rule conjunct1 [OF pages_partition_result [where sz = 2]])
    (simp_all add: MAX_PAGE_SIZE_def total_pages_def Page_def sample_page_def)

end
