(* ===== verification/Repositories.thy ===== *)
theory Repositories imports Store
begin

text \<open>
  The repositories of \<open>app/database/repositories/\<close> over the tables: requests, workflow stages and
  approvals, workflow definitions, profiles, the audit log. Each operation is the statement the method
  builds, with the argument checks before it. Filters compare columns, so a filter on a NULL column is
  false. The order of rows with equal sort keys, which PostgreSQL leaves open, is the table's order.
  A range that starts past the last row is an empty page.
\<close>

section \<open>Filters\<close>

definition eq_filter :: "('r \<Rightarrow> 'a) \<Rightarrow> 'a option \<Rightarrow> 'r \<Rightarrow> bool" where
  "eq_filter col v r = (case v of None \<Rightarrow> True | Some x \<Rightarrow> col r = x)"

definition in_filter :: "('r \<Rightarrow> 'a) \<Rightarrow> 'a list option \<Rightarrow> 'r \<Rightarrow> bool" where
  "in_filter col vs r = (case vs of None \<Rightarrow> True | Some xs \<Rightarrow> List.member xs (col r))"

definition gte_filter :: "('r \<Rightarrow> int) \<Rightarrow> int option \<Rightarrow> 'r \<Rightarrow> bool" where
  "gte_filter col v r = (case v of None \<Rightarrow> True | Some x \<Rightarrow> x \<le> col r)"

definition lte_filter :: "('r \<Rightarrow> int) \<Rightarrow> int option \<Rightarrow> 'r \<Rightarrow> bool" where
  "lte_filter col v r = (case v of None \<Rightarrow> True | Some x \<Rightarrow> col r \<le> x)"

definition order_desc :: "('r \<Rightarrow> int) \<Rightarrow> 'r list \<Rightarrow> 'r list" where
  "order_desc col = sort_key (\<lambda>r. - col r)"

lemmas filter_defs = eq_filter_def in_filter_def gte_filter_def lte_filter_def order_desc_def

text \<open>\<open>if not query_text or not query_text.strip()\<close>\<close>

definition require_query :: "string \<Rightarrow> string \<Rightarrow> ('s, unit) eff" where
  "require_query op query_text = guard_that (strip query_text \<noteq> []) (Raised (Db (InvalidQueryError op)))"

definition invalid_query :: "string \<Rightarrow> exn" where
  "invalid_query m = Raised (Db (InvalidQueryError m))"

section \<open>Requests\<close>

definition get_request_row :: "uuid \<Rightarrow> ('z db_scheme, request_record) eff" where
  "get_request_row = get_by_id request_table"

definition create_request_row ::
  "uuid \<Rightarrow> uuid \<Rightarrow> string \<Rightarrow> string \<Rightarrow> uuid \<Rightarrow> string option \<Rightarrow> string option \<Rightarrow>
   ('z db_scheme, request_record) eff" where
  "create_request_row requester_id definition_id request_type title company_id description department =
     insert_row request_table (\<lambda>new_id now.
       \<lparr>rq_id = new_id, rq_requester_id = requester_id, rq_workflow_definition_id = definition_id,
        rq_request_type = request_type, rq_title = title, rq_description = description,
        rq_department = department, rq_status = ReqPending, rq_current_stage_id = None, rq_version = 1,
        rq_deleted_at = None, rq_deleted_by = None, rq_created_at = now, rq_updated_at = now,
        rq_completed_at = None, rq_company_id = company_id\<rparr>)"

definition set_current_stage ::
  "uuid \<Rightarrow> int \<Rightarrow> uuid option \<Rightarrow> request_status \<Rightarrow> timestamp option \<Rightarrow> ('z db_scheme, request_record) eff" where
  "set_current_stage request_id expected_version current_stage_id status completed_at =
     update_with_optimistic_lock request_table request_id expected_version
       (\<lambda>r. r\<lparr>rq_current_stage_id := current_stage_id, rq_status := status, rq_completed_at := completed_at\<rparr>)"

fun set_if_given :: "('a \<Rightarrow> 'r \<Rightarrow> 'r) \<Rightarrow> 'a option \<Rightarrow> 'r \<Rightarrow> 'r" where
  "set_if_given put None r = r"
| "set_if_given put (Some v) r = put v r"

definition update_editable_fields ::
  "uuid \<Rightarrow> int \<Rightarrow> string option \<Rightarrow> string option \<Rightarrow> string option \<Rightarrow> ('z db_scheme, request_record) eff" where
  "update_editable_fields request_id expected_version title description department =
     (if title = None \<and> description = None \<and> department = None
      then throw (invalid_query ''update_editable_fields'')
      else update_with_optimistic_lock request_table request_id expected_version
        (\<lambda>r. set_if_given (\<lambda>v r. r\<lparr>rq_department := Some v\<rparr>) department
              (set_if_given (\<lambda>v r. r\<lparr>rq_description := Some v\<rparr>) description
                (set_if_given (\<lambda>v r. r\<lparr>rq_title := v\<rparr>) title r))))"

definition soft_delete :: "uuid \<Rightarrow> int \<Rightarrow> uuid \<Rightarrow> ('z db_scheme, request_record) eff" where
  "soft_delete request_id expected_version deleted_by =
     and_then (gets clock) (\<lambda>now.
       update_with_optimistic_lock request_table request_id expected_version
         (\<lambda>r. r\<lparr>rq_deleted_at := Some now, rq_deleted_by := Some deleted_by\<rparr>))"

record request_filters =
  rf_status :: "request_status option"
  rf_request_type :: "string option"
  rf_department :: "string option"
  rf_requester_id :: "uuid option"
  rf_request_ids :: "uuid list option"
  rf_created_after :: "timestamp option"
  rf_created_before :: "timestamp option"
  rf_include_deleted :: bool
  rf_sort_descending :: bool

definition matches_request_filters :: "request_filters \<Rightarrow> request_record \<Rightarrow> bool" where
  "matches_request_filters f r \<longleftrightarrow>
     eq_filter rq_status (rf_status f) r \<and> eq_filter rq_request_type (rf_request_type f) r \<and>
     (case rf_department f of None \<Rightarrow> True | Some d \<Rightarrow> rq_department r = Some d) \<and>
     eq_filter rq_requester_id (rf_requester_id f) r \<and> in_filter rq_id (rf_request_ids f) r \<and>
     gte_filter rq_created_at (rf_created_after f) r \<and> lte_filter rq_created_at (rf_created_before f) r \<and>
     (rf_include_deleted f \<or> rq_deleted_at r = None)"

definition list_requests :: "uuid \<Rightarrow> request_filters \<Rightarrow> page \<Rightarrow> ('z db_scheme, request_record paged_result) eff" where
  "list_requests company_id f =
     paginate request_table (\<lambda>s.
       sort_key (\<lambda>r. if rf_sort_descending f then - rq_created_at r else rq_created_at r)
         (filter (\<lambda>r. rq_company_id r = company_id \<and> matches_request_filters f r) (t_requests s)))"

text \<open>\<open>wfts\<close> is PostgreSQL's full-text match of the row's search vector, a parameter.\<close>

definition search_requests ::
  "(string \<Rightarrow> request_record \<Rightarrow> bool) \<Rightarrow> string \<Rightarrow> uuid \<Rightarrow> uuid option \<Rightarrow> uuid list option \<Rightarrow> bool \<Rightarrow> page \<Rightarrow>
   ('z db_scheme, request_record paged_result) eff" where
  "search_requests wfts query_text company_id requester_id request_ids include_deleted p =
     and_then (require_query ''search_requests'' query_text) (\<lambda>_.
       let q = strip query_text in
       paginate request_table (\<lambda>s. order_desc rq_created_at (filter (\<lambda>r.
           rq_company_id r = company_id \<and>
           (ilike q (rq_title r) \<or> (case rq_description r of None \<Rightarrow> False | Some d \<Rightarrow> ilike q d) \<or> wfts q r) \<and>
           eq_filter rq_requester_id requester_id r \<and> in_filter rq_id request_ids r \<and>
           (include_deleted \<or> rq_deleted_at r = None)) (t_requests s))) p)"

section \<open>Workflow stages\<close>

definition get_stage_row :: "uuid \<Rightarrow> ('z db_scheme, stage_record) eff" where
  "get_stage_row = get_by_id stage_table"

definition get_stage_for_company :: "uuid \<Rightarrow> uuid \<Rightarrow> ('z db_scheme, stage_record) eff" where
  "get_stage_for_company stage_id company_id =
     and_then (get_stage_row stage_id) (\<lambda>record.
       if st_company_id record \<noteq> company_id
       then throw (Raised (Db (RecordNotFoundError ''workflow_stage'' stage_id)))
       else return record)"

definition create_stage ::
  "uuid \<Rightarrow> int \<Rightarrow> string \<Rightarrow> uuid \<Rightarrow> user_role option \<Rightarrow> uuid option \<Rightarrow> ('z db_scheme, stage_record) eff" where
  "create_stage request_id stage_order stage_name company_id assigned_role assigned_to =
     insert_row stage_table (\<lambda>new_id now.
       \<lparr>st_id = new_id, st_request_id = request_id, st_stage_order = stage_order,
        st_stage_name = stage_name, st_assigned_role = assigned_role, st_assigned_to = assigned_to,
        st_status = StagePending, st_decided_by = None, st_decided_at = None, st_decision_note = None,
        st_version = 1, st_created_at = now, st_company_id = company_id\<rparr>)"

text \<open>A stage is referenced by the request whose current stage it is.\<close>

definition stage_referenced :: "'z db_scheme \<Rightarrow> stage_record \<Rightarrow> bool" where
  "stage_referenced s st = list_ex (\<lambda>r. rq_current_stage_id r = Some (st_id st)) (t_requests s)"

definition delete_if_unchanged :: "uuid \<Rightarrow> int \<Rightarrow> ('z db_scheme, bool) eff" where
  "delete_if_unchanged stage_id expected_version =
     and_then (execute ''delete_if_unchanged'' ''workflow_stages''
                (delete_stmt stage_table (\<lambda>st. st_id st = stage_id \<and> st_version st = expected_version) stage_referenced))
       (\<lambda>rows. return (rows \<noteq> []))"

definition list_stages_for_request :: "uuid \<Rightarrow> page \<Rightarrow> ('z db_scheme, stage_record paged_result) eff" where
  "list_stages_for_request request_id =
     paginate stage_table (\<lambda>s. sort_key st_stage_order
       (filter (\<lambda>st. st_request_id st = request_id) (t_stages s)))"

definition get_highest_stage_order :: "uuid \<Rightarrow> ('z db_scheme, int) eff" where
  "get_highest_stage_order request_id =
     and_then (execute ''get_highest_stage_order'' ''workflow_stages'' (gets (\<lambda>s.
         take 1 (order_desc st_stage_order (filter (\<lambda>st. st_request_id st = request_id) (t_stages s))))))
       (\<lambda>rows. return (case rows of [] \<Rightarrow> 0 | st # _ \<Rightarrow> st_stage_order st))"

definition list_decided_for_request :: "uuid \<Rightarrow> page \<Rightarrow> ('z db_scheme, stage_record paged_result) eff" where
  "list_decided_for_request request_id =
     paginate stage_table (\<lambda>s. sort_key st_stage_order
       (filter (\<lambda>st. st_request_id st = request_id \<and> st_status st \<noteq> StagePending) (t_stages s)))"

definition list_decided ::
  "uuid \<Rightarrow> timestamp option \<Rightarrow> timestamp option \<Rightarrow> page \<Rightarrow> ('z db_scheme, stage_record paged_result) eff" where
  "list_decided company_id created_after created_before =
     paginate stage_table (\<lambda>s. order_desc st_created_at
       (filter (\<lambda>st. st_company_id st = company_id \<and>
           (st_status st = StageApproved \<or> st_status st = StageRejected) \<and>
           gte_filter st_created_at created_after st \<and> lte_filter st_created_at created_before st) (t_stages s)))"

subsection \<open>Approvals\<close>

definition approve_stage :: "uuid \<Rightarrow> int \<Rightarrow> uuid \<Rightarrow> string option \<Rightarrow> ('z db_scheme, stage_record) eff" where
  "approve_stage stage_id expected_version decided_by decision_note =
     and_then (gets clock) (\<lambda>now.
       update_with_optimistic_lock stage_table stage_id expected_version
         (\<lambda>st. st\<lparr>st_status := StageApproved, st_decided_by := Some decided_by,
                  st_decided_at := Some now, st_decision_note := decision_note\<rparr>))"

definition reject_stage :: "uuid \<Rightarrow> int \<Rightarrow> uuid \<Rightarrow> string \<Rightarrow> ('z db_scheme, stage_record) eff" where
  "reject_stage stage_id expected_version decided_by decision_note =
     (if strip decision_note = [] then throw (invalid_query ''reject_stage'')
      else and_then (gets clock) (\<lambda>now.
        update_with_optimistic_lock stage_table stage_id expected_version
          (\<lambda>st. st\<lparr>st_status := StageRejected, st_decided_by := Some decided_by,
                   st_decided_at := Some now, st_decision_note := Some decision_note\<rparr>)))"

definition revert_to_pending :: "uuid \<Rightarrow> int \<Rightarrow> ('z db_scheme, stage_record) eff" where
  "revert_to_pending stage_id expected_version =
     update_with_optimistic_lock stage_table stage_id expected_version
       (\<lambda>st. st\<lparr>st_status := StagePending, st_decided_by := None, st_decided_at := None,
                st_decision_note := None\<rparr>)"

definition escalate_stage_row ::
  "uuid \<Rightarrow> int \<Rightarrow> uuid option \<Rightarrow> user_role option \<Rightarrow> ('z db_scheme, stage_record) eff" where
  "escalate_stage_row stage_id expected_version new_assigned_to new_assigned_role =
     update_with_optimistic_lock stage_table stage_id expected_version
       (\<lambda>st. st\<lparr>st_assigned_to := new_assigned_to, st_assigned_role := new_assigned_role\<rparr>)"

definition list_pending_for_approver ::
  "uuid \<Rightarrow> uuid option \<Rightarrow> user_role option \<Rightarrow> page \<Rightarrow> ('z db_scheme, stage_record paged_result) eff" where
  "list_pending_for_approver company_id assigned_to assigned_role p =
     (if assigned_to = None \<and> assigned_role = None then throw (invalid_query ''list_pending_for_approver'')
      else paginate stage_table (\<lambda>s. sort_key st_created_at (filter (\<lambda>st.
          st_company_id st = company_id \<and> st_status st = StagePending \<and>
          ((assigned_to \<noteq> None \<and> st_assigned_to st = assigned_to) \<or>
           (assigned_role \<noteq> None \<and> st_assigned_role st = assigned_role))) (t_stages s))) p)"

definition list_overdue_stages ::
  "timestamp \<Rightarrow> uuid \<Rightarrow> page \<Rightarrow> ('z db_scheme, stage_record paged_result) eff" where
  "list_overdue_stages created_before company_id =
     paginate stage_table (\<lambda>s. sort_key st_created_at (filter (\<lambda>st.
       st_company_id st = company_id \<and> st_status st = StagePending \<and> st_created_at st \<le> created_before)
         (t_stages s)))"

definition list_overdue_stages_all_companies ::
  "timestamp \<Rightarrow> page \<Rightarrow> ('z db_scheme, stage_record paged_result) eff" where
  "list_overdue_stages_all_companies created_before =
     paginate stage_table (\<lambda>s. sort_key st_created_at (filter (\<lambda>st.
       st_status st = StagePending \<and> st_created_at st \<le> created_before) (t_stages s)))"

section \<open>Workflow definitions\<close>

definition get_definition_for_company :: "uuid \<Rightarrow> uuid \<Rightarrow> ('z db_scheme, definition_record) eff" where
  "get_definition_for_company definition_id company_id =
     and_then (get_by_id definition_table definition_id) (\<lambda>record.
       if df_company_id record \<noteq> company_id
       then throw (Raised (Db (RecordNotFoundError ''workflow_definition'' definition_id)))
       else return record)"

definition list_definitions_by_ids ::
  "uuid list \<Rightarrow> uuid \<Rightarrow> page \<Rightarrow> ('z db_scheme, definition_record paged_result) eff" where
  "list_definitions_by_ids definition_ids company_id p =
     (if definition_ids = []
      then return \<lparr>res_items = [], res_page = pg_number p, res_page_size = pg_size p, res_total_records = 0\<rparr>
      else paginate definition_table (\<lambda>s. filter (\<lambda>d.
          df_company_id d = company_id \<and> List.member definition_ids (df_id d)) (t_definitions s)) p)"

definition find_active_for_request_type :: "string \<Rightarrow> uuid \<Rightarrow> ('z db_scheme, definition_record option) eff" where
  "find_active_for_request_type request_type company_id =
     and_then (execute ''find_active_for_request_type'' ''workflow_definitions'' (gets (\<lambda>s.
         take 1 (filter (\<lambda>d. df_request_type d = request_type \<and> df_company_id d = company_id \<and> df_is_active d)
           (t_definitions s)))))
       (\<lambda>rows. return (case rows of [] \<Rightarrow> None | d # _ \<Rightarrow> Some d))"

definition create_definition_row ::
  "string \<Rightarrow> int \<Rightarrow> stage_definition list \<Rightarrow> uuid \<Rightarrow> uuid \<Rightarrow> ('z db_scheme, definition_record) eff" where
  "create_definition_row request_type version document created_by company_id =
     insert_row definition_table (\<lambda>new_id now.
       \<lparr>df_id = new_id, df_request_type = request_type, df_version = version, df_definition = document,
        df_is_active = False, df_created_by = Some created_by, df_row_version = 1, df_created_at = now,
        df_company_id = company_id\<rparr>)"

definition update_inactive_definition ::
  "uuid \<Rightarrow> int \<Rightarrow> stage_definition list \<Rightarrow> ('z db_scheme, definition_record) eff" where
  "update_inactive_definition definition_id expected_row_version document =
     update_with_optimistic_lock definition_table definition_id expected_row_version
       (\<lambda>d. d\<lparr>df_definition := document\<rparr>)"

definition definition_referenced :: "'z db_scheme \<Rightarrow> definition_record \<Rightarrow> bool" where
  "definition_referenced s d = list_ex (\<lambda>r. rq_workflow_definition_id r = df_id d) (t_requests s)"

definition delete_inactive_definition :: "uuid \<Rightarrow> uuid \<Rightarrow> ('z db_scheme, unit) eff" where
  "delete_inactive_definition definition_id company_id =
     and_then (execute ''delete_inactive_definition'' ''workflow_definitions''
                (delete_stmt definition_table
                   (\<lambda>d. df_id d = definition_id \<and> df_company_id d = company_id \<and> \<not> df_is_active d)
                   definition_referenced))
       (\<lambda>rows. if rows = []
         then throw (Raised (Db (RecordNotFoundError ''workflow_definitions'' definition_id)))
         else return ())"

definition deactivate_previous_definition :: "definition_record \<Rightarrow> ('z db_scheme, definition_record list) eff" where
  "deactivate_previous_definition current_active =
     execute ''deactivate_previous_definition'' ''workflow_definitions''
       (update_stmt definition_table (\<lambda>d. df_id d = df_id current_active \<and> df_row_version d = df_row_version current_active)
         (\<lambda>d. d\<lparr>df_is_active := False, df_row_version := df_row_version current_active + 1\<rparr>))"

definition activate_definition_row ::
  "uuid \<Rightarrow> string \<Rightarrow> int \<Rightarrow> uuid \<Rightarrow> ('z db_scheme, definition_record) eff" where
  "activate_definition_row definition_id request_type expected_row_version company_id =
     and_then (find_active_for_request_type request_type company_id) (\<lambda>current.
     and_then (case current of
         Some current_active \<Rightarrow>
           if df_id current_active \<noteq> definition_id
           then and_then (deactivate_previous_definition current_active) (\<lambda>_. return ())
           else return ()
       | None \<Rightarrow> return ()) (\<lambda>_.
     update_with_optimistic_lock definition_table definition_id expected_row_version
       (\<lambda>d. d\<lparr>df_is_active := True\<rparr>)))"

definition list_definitions ::
  "uuid \<Rightarrow> string option \<Rightarrow> bool option \<Rightarrow> page \<Rightarrow> ('z db_scheme, definition_record paged_result) eff" where
  "list_definitions company_id request_type is_active =
     paginate definition_table (\<lambda>s. order_desc df_created_at (filter (\<lambda>d. df_company_id d = company_id \<and>
       eq_filter df_request_type request_type d \<and> eq_filter df_is_active is_active d) (t_definitions s)))"

definition search_definition_rows ::
  "string \<Rightarrow> uuid \<Rightarrow> bool option \<Rightarrow> page \<Rightarrow> ('z db_scheme, definition_record paged_result) eff" where
  "search_definition_rows query_text company_id is_active p =
     and_then (require_query ''search_definitions'' query_text) (\<lambda>_.
       paginate definition_table (\<lambda>s. order_desc df_created_at (filter (\<lambda>d.
         ilike (strip query_text) (df_request_type d) \<and> df_company_id d = company_id \<and>
         eq_filter df_is_active is_active d) (t_definitions s))) p)"

section \<open>Profiles\<close>

definition get_profile_row :: "uuid \<Rightarrow> ('z db_scheme, profile_record) eff" where
  "get_profile_row = get_by_id profile_table"

definition find_profile_row :: "uuid \<Rightarrow> ('z db_scheme, profile_record option) eff" where
  "find_profile_row = find_by_id profile_table"

definition find_profiles_by_ids :: "uuid list \<Rightarrow> ('z db_scheme, profile_record list) eff" where
  "find_profiles_by_ids profile_ids =
     (if profile_ids = [] then return []
      else execute ''find_by_ids'' ''profiles''
        (gets (\<lambda>s. filter (\<lambda>p. List.member profile_ids (pr_id p)) (t_profiles s))))"

definition update_profile_row ::
  "uuid \<Rightarrow> int \<Rightarrow> string option \<Rightarrow> user_role option \<Rightarrow> string option \<Rightarrow> bool option \<Rightarrow>
   ('z db_scheme, profile_record) eff" where
  "update_profile_row profile_id expected_version full_name role department is_active =
     (if full_name = None \<and> role = None \<and> department = None \<and> is_active = None
      then throw (invalid_query ''update_profile'')
      else update_with_optimistic_lock profile_table profile_id expected_version
        (\<lambda>p. set_if_given (\<lambda>v p. p\<lparr>pr_is_active := v\<rparr>) is_active
              (set_if_given (\<lambda>v p. p\<lparr>pr_department := Some v\<rparr>) department
                (set_if_given (\<lambda>v p. p\<lparr>pr_role := v\<rparr>) role
                  (set_if_given (\<lambda>v p. p\<lparr>pr_full_name := v\<rparr>) full_name p)))))"

definition erase_profile :: "uuid \<Rightarrow> int \<Rightarrow> uuid \<Rightarrow> string \<Rightarrow> ('z db_scheme, profile_record) eff" where
  "erase_profile profile_id expected_version deleted_by anonymized_full_name =
     and_then (gets clock) (\<lambda>now.
       update_with_optimistic_lock profile_table profile_id expected_version
         (\<lambda>p. p\<lparr>pr_deleted_at := Some now, pr_deleted_by := Some deleted_by, pr_is_active := False,
                pr_full_name := anonymized_full_name, pr_department := None\<rparr>))"

definition count_for_company :: "uuid \<Rightarrow> ('z db_scheme, int) eff" where
  "count_for_company company_id = count_rows profile_table (\<lambda>s.
     filter (\<lambda>p. pr_company_id p = company_id \<and> pr_deleted_at p = None) (t_profiles s))"

text \<open>The text order of \<open>full_name\<close> is the database's collation, a parameter.\<close>

definition list_by_role ::
  "(string \<Rightarrow> nat) \<Rightarrow> user_role \<Rightarrow> uuid \<Rightarrow> string option \<Rightarrow> bool \<Rightarrow> page \<Rightarrow>
   ('z db_scheme, profile_record paged_result) eff" where
  "list_by_role collation role company_id department include_deleted =
     paginate profile_table (\<lambda>s. sort_key (\<lambda>p. collation (pr_full_name p)) (filter (\<lambda>p.
       pr_role p = role \<and> pr_company_id p = company_id \<and>
       (case department of None \<Rightarrow> True | Some d \<Rightarrow> pr_department p = Some d) \<and>
       (include_deleted \<or> pr_deleted_at p = None)) (t_profiles s)))"

definition search_by_name ::
  "(string \<Rightarrow> nat) \<Rightarrow> string \<Rightarrow> uuid \<Rightarrow> bool \<Rightarrow> page \<Rightarrow> ('z db_scheme, profile_record paged_result) eff" where
  "search_by_name collation query_text company_id include_deleted p =
     and_then (require_query ''search_by_name'' query_text) (\<lambda>_.
       paginate profile_table (\<lambda>s. sort_key (\<lambda>p. collation (pr_full_name p)) (filter (\<lambda>p.
         ilike (strip query_text) (pr_full_name p) \<and> pr_company_id p = company_id \<and>
         (include_deleted \<or> pr_deleted_at p = None)) (t_profiles s))) p)"

section \<open>The audit log\<close>

definition record_event ::
  "string \<Rightarrow> uuid option \<Rightarrow> uuid option \<Rightarrow> (string \<times> meta_value) list option \<Rightarrow> uuid option \<Rightarrow>
   ('z db_scheme, audit_record) eff" where
  "record_event action actor_id request_id metadata company_id =
     insert_row audit_table (\<lambda>new_id now.
       \<lparr>au_id = new_id, au_actor_id = actor_id, au_request_id = request_id, au_action = action,
        au_metadata = metadata, au_created_at = now, au_company_id = company_id\<rparr>)"

definition list_audit_for_request :: "uuid \<Rightarrow> page \<Rightarrow> ('z db_scheme, audit_record paged_result) eff" where
  "list_audit_for_request request_id =
     paginate audit_table (\<lambda>s. sort_key au_created_at
       (filter (\<lambda>a. au_request_id a = Some request_id) (t_audit s)))"

definition list_audit_for_actor :: "uuid \<Rightarrow> page \<Rightarrow> ('z db_scheme, audit_record paged_result) eff" where
  "list_audit_for_actor actor_id =
     paginate audit_table (\<lambda>s. order_desc au_created_at
       (filter (\<lambda>a. au_actor_id a = Some actor_id) (t_audit s)))"

definition some_filter :: "('r \<Rightarrow> 'a option) \<Rightarrow> 'a option \<Rightarrow> 'r \<Rightarrow> bool" where
  "some_filter col v r = (case v of None \<Rightarrow> True | Some x \<Rightarrow> col r = Some x)"

definition list_audit_all ::
  "uuid \<Rightarrow> uuid option \<Rightarrow> string option \<Rightarrow> timestamp option \<Rightarrow> timestamp option \<Rightarrow> page \<Rightarrow>
   ('z db_scheme, audit_record paged_result) eff" where
  "list_audit_all company_id actor_id action created_after created_before =
     paginate audit_table (\<lambda>s. order_desc au_created_at (filter (\<lambda>a.
       au_company_id a = Some company_id \<and> some_filter au_actor_id actor_id a \<and> eq_filter au_action action a \<and>
       gte_filter au_created_at created_after a \<and> lte_filter au_created_at created_before a) (t_audit s)))"

definition list_platform_wide ::
  "uuid option \<Rightarrow> uuid option \<Rightarrow> string option \<Rightarrow> timestamp option \<Rightarrow> timestamp option \<Rightarrow> page \<Rightarrow>
   ('z db_scheme, audit_record paged_result) eff" where
  "list_platform_wide company_id actor_id action created_after created_before =
     paginate audit_table (\<lambda>s. order_desc au_created_at (filter (\<lambda>a.
       some_filter au_company_id company_id a \<and> some_filter au_actor_id actor_id a \<and> eq_filter au_action action a \<and>
       gte_filter au_created_at created_after a \<and> lte_filter au_created_at created_before a) (t_audit s)))"

definition search_audit ::
  "string \<Rightarrow> uuid list option \<Rightarrow> page \<Rightarrow> ('z db_scheme, audit_record paged_result) eff" where
  "search_audit query_text request_ids p =
     and_then (require_query ''search'' query_text) (\<lambda>_.
       paginate audit_table (\<lambda>s. order_desc au_created_at (filter (\<lambda>a.
         ilike (strip query_text) (au_action a) \<and>
         (case request_ids of None \<Rightarrow> True | Some ids \<Rightarrow> list_ex (\<lambda>i. au_request_id a = Some i) ids)) (t_audit s))) p)"

end
