(* ===== verification/Domain.thy ===== *)
theory Domain imports Repositories Engine StateMachine Auth
begin

text \<open>
  The domain objects that services return (\<open>app/models/request.py\<close>, \<open>workflow.py\<close>,
  \<open>notification.py\<close>, \<open>approval.py\<close>), each with the validation its constructor performs after
  stripping the strings, and the \<open>map_..._record_to_domain\<close> functions of the services.
\<close>

definition pydantic :: "string \<Rightarrow> exn" where
  "pydantic field = Raised (Model (PydanticValidationError field))"

section \<open>Requests\<close>

record request =
  req_id :: uuid
  req_requester_id :: uuid
  req_workflow_definition_id :: uuid
  req_request_type :: string
  req_title :: string
  req_description :: "string option"
  req_department :: "string option"
  req_status :: request_status
  req_current_stage_id :: "uuid option"
  req_version :: int
  req_deleted_at :: "timestamp option"
  req_deleted_by :: "uuid option"
  req_created_at :: timestamp
  req_updated_at :: timestamp
  req_completed_at :: "timestamp option"

definition title_ok :: "string \<Rightarrow> bool" where
  "title_ok t \<longleftrightarrow> 1 \<le> length t \<and> length t \<le> 200"

definition description_ok :: "string option \<Rightarrow> bool" where
  "description_ok d = (case d of None \<Rightarrow> True | Some t \<Rightarrow> length t \<le> 5000)"

definition Request :: "request \<Rightarrow> request fallible" where
  "Request raw =
     (let r = raw\<lparr>req_request_type := strip (req_request_type raw), req_title := strip (req_title raw),
                  req_description := map_option strip (req_description raw),
                  req_department := map_option strip (req_department raw)\<rparr> in
      if req_version r < 1 then Inl (pydantic ''version'')
      else if req_request_type r = [] then Inl (pydantic ''request_type'')
      else if \<not> title_ok (req_title r) then Inl (pydantic ''title'')
      else if \<not> description_ok (req_description r) then Inl (pydantic ''description'')
      else Inr r)"

record request_create =
  rc_request_type :: string
  rc_title :: string
  rc_description :: "string option"
  rc_department :: "string option"

definition RequestCreate :: "request_create \<Rightarrow> request_create fallible" where
  "RequestCreate raw =
     (let r = raw\<lparr>rc_request_type := strip (rc_request_type raw), rc_title := strip (rc_title raw),
                  rc_description := map_option strip (rc_description raw),
                  rc_department := map_option strip (rc_department raw)\<rparr> in
      if rc_request_type r = [] then Inl (pydantic ''request_type'')
      else if \<not> title_ok (rc_title r) then Inl (pydantic ''title'')
      else if \<not> description_ok (rc_description r) then Inl (pydantic ''description'')
      else Inr r)"

text \<open>
  The service always passes the three fields to \<open>RequestUpdate\<close>, so \<open>model_fields_set\<close> is never
  empty there and the empty-payload check of the model cannot fail.
\<close>

definition RequestUpdate :: "string option \<Rightarrow> string option \<Rightarrow> string option \<Rightarrow> unit fallible" where
  "RequestUpdate title description department =
     (if (case title of None \<Rightarrow> False | Some t \<Rightarrow> \<not> title_ok (strip t)) then Inl (pydantic ''title'')
      else if \<not> description_ok (map_option strip description) then Inl (pydantic ''description'')
      else Inr ())"

definition map_request_record_to_domain :: "request_record \<Rightarrow> request fallible" where
  "map_request_record_to_domain r = Request
     \<lparr>req_id = rq_id r, req_requester_id = rq_requester_id r,
      req_workflow_definition_id = rq_workflow_definition_id r, req_request_type = rq_request_type r,
      req_title = rq_title r, req_description = rq_description r, req_department = rq_department r,
      req_status = rq_status r, req_current_stage_id = rq_current_stage_id r, req_version = rq_version r,
      req_deleted_at = rq_deleted_at r, req_deleted_by = rq_deleted_by r, req_created_at = rq_created_at r,
      req_updated_at = rq_updated_at r, req_completed_at = rq_completed_at r\<rparr>"

section \<open>Workflow stages\<close>

record workflow_stage =
  ws_id :: uuid
  ws_request_id :: uuid
  ws_stage_order :: int
  ws_stage_name :: string
  ws_assigned_role :: "user_role option"
  ws_assigned_to :: "uuid option"
  ws_status :: stage_status
  ws_decided_by :: "uuid option"
  ws_decided_at :: "timestamp option"
  ws_decision_note :: "string option"
  ws_version :: int
  ws_created_at :: timestamp

definition decision_note_ok :: "string option \<Rightarrow> bool" where
  "decision_note_ok n = (case n of None \<Rightarrow> True | Some t \<Rightarrow> 1 \<le> length t \<and> length t \<le> 1000)"

definition WorkflowStage :: "workflow_stage \<Rightarrow> workflow_stage fallible" where
  "WorkflowStage raw =
     (let st = raw\<lparr>ws_stage_name := strip (ws_stage_name raw),
                   ws_decision_note := map_option strip (ws_decision_note raw)\<rparr> in
      if ws_stage_order st \<le> 0 then Inl (pydantic ''stage_order'')
      else if ws_stage_name st = [] then Inl (pydantic ''stage_name'')
      else if \<not> decision_note_ok (ws_decision_note st) then Inl (pydantic ''decision_note'')
      else if ws_version st < 1 then Inl (pydantic ''version'')
      else Inr st)"

definition map_workflow_stage_record_to_domain :: "stage_record \<Rightarrow> workflow_stage fallible" where
  "map_workflow_stage_record_to_domain st = WorkflowStage
     \<lparr>ws_id = st_id st, ws_request_id = st_request_id st, ws_stage_order = st_stage_order st,
      ws_stage_name = st_stage_name st, ws_assigned_role = st_assigned_role st,
      ws_assigned_to = st_assigned_to st, ws_status = st_status st, ws_decided_by = st_decided_by st,
      ws_decided_at = st_decided_at st, ws_decision_note = st_decision_note st, ws_version = st_version st,
      ws_created_at = st_created_at st\<rparr>"

record approval_outcome =
  ao_stage :: workflow_stage
  ao_request_status :: request_status
  ao_current_stage_id :: "uuid option"

section \<open>Notifications\<close>

record notification =
  nf_id :: uuid
  nf_recipient_id :: uuid
  nf_request_id :: "uuid option"
  nf_type :: notification_type
  nf_message :: string
  nf_is_read :: bool
  nf_read_at :: "timestamp option"
  nf_email_sent :: bool
  nf_email_sent_at :: "timestamp option"
  nf_archived_at :: "timestamp option"
  nf_created_at :: timestamp

definition Notification :: "notification \<Rightarrow> notification fallible" where
  "Notification raw =
     (let n = raw\<lparr>nf_message := strip (nf_message raw)\<rparr> in
      if nf_message n = [] then Inl (pydantic ''message'') else Inr n)"

definition map_notification_record_to_domain :: "notification_record \<Rightarrow> notification fallible" where
  "map_notification_record_to_domain n = Notification
     \<lparr>nf_id = nt_id n, nf_recipient_id = nt_recipient_id n, nf_request_id = nt_request_id n,
      nf_type = nt_type n, nf_message = nt_message n, nf_is_read = nt_is_read n, nf_read_at = nt_read_at n,
      nf_email_sent = nt_email_sent n, nf_email_sent_at = nt_email_sent_at n,
      nf_archived_at = nt_archived_at n, nf_created_at = nt_created_at n\<rparr>"

section \<open>Profiles and definitions\<close>

definition map_profile_record_to_domain :: "profile_record \<Rightarrow> profile fallible" where
  "map_profile_record_to_domain p = Profile
     \<lparr>pf_id = pr_id p, pf_full_name = pr_full_name p, pf_role = pr_role p, pf_department = pr_department p,
      pf_version = pr_version p, pf_company_id = pr_company_id p,
      pf_is_platform_admin = pr_is_platform_admin p\<rparr>"

definition translate_fallible :: "(exn \<Rightarrow> bool) \<Rightarrow> (exn \<Rightarrow> exn) \<Rightarrow> 'a fallible \<Rightarrow> 'a fallible" where
  "translate_fallible p tr r = (case r of Inl e \<Rightarrow> Inl (if p e then tr e else e) | Inr x \<Rightarrow> Inr x)"

definition map_workflow_definition_record_to_domain :: "definition_record \<Rightarrow> workflow_definition fallible" where
  "map_workflow_definition_record_to_domain d =
     bind_result (translate_fallible is_model_error translate_model_construction_error
                   (WorkflowDefinitionDocument (df_definition d))) (\<lambda>document.
       WorkflowDefinition
         \<lparr>wd_id = df_id d, wd_request_type = df_request_type d, wd_version = df_version d,
          wd_definition = document, wd_is_active = df_is_active d, wd_created_by = df_created_by d,
          wd_row_version = df_row_version d, wd_created_at = df_created_at d\<rparr>)"

lemma map_definition_Inr:
  assumes "map_workflow_definition_record_to_domain d = Inr w"
  shows "WorkflowDefinitionDocument (df_definition d) = Inr (wd_definition w) \<and> wd_id w = df_id d \<and>
    wd_is_active w = df_is_active d \<and> valid_document (wd_definition w)"
proof -
  from assms obtain doc where doc: "WorkflowDefinitionDocument (df_definition d) = Inr doc"
    and w: "WorkflowDefinition
         \<lparr>wd_id = df_id d, wd_request_type = df_request_type d, wd_version = df_version d,
          wd_definition = doc, wd_is_active = df_is_active d, wd_created_by = df_created_by d,
          wd_row_version = df_row_version d, wd_created_at = df_created_at d\<rparr> = Inr w"
    by (auto simp: map_workflow_definition_record_to_domain_def bind_result_def translate_fallible_def
        split: sum.splits)
  with WorkflowDefinition_Inr [OF w] WorkflowDefinitionDocument_valid [OF doc] show ?thesis by simp
qed

text \<open>A page of domain objects: the rows mapped one by one, the page data kept.\<close>

definition map_page :: "('a \<Rightarrow> 'b fallible) \<Rightarrow> 'a paged_result \<Rightarrow> 'b paged_result fallible" where
  "map_page f r = bind_result (map_result f (res_items r)) (\<lambda>items.
     Inr \<lparr>res_items = items, res_page = res_page r, res_page_size = res_page_size r,
          res_total_records = res_total_records r\<rparr>)"

definition page_of_size :: "int \<Rightarrow> page" where
  "page_of_size sz = \<lparr>pg_number = 1, pg_size = sz\<rparr>"

end
