(* ===== verification/Saga.thy ===== *)
theory Saga imports Prelude Errors
begin

text \<open>
  \<open>TransactionContext\<close> (\<open>app/services/workflow_definition_service.py\<close>), the services' stand-in for a
  database transaction: the body of a \<open>with TransactionContext(...)\<close> block runs over the state and the
  list of registered compensations; if it raises, the compensations run, most recent first, their own
  failures are only logged, and the exception travels on.
\<close>

type_synonym 's compensation = "('s, unit) eff"
type_synonym ('s, 'a) saga = "('s \<times> 's compensation list, 'a) eff"

definition perform :: "('s, 'a) eff \<Rightarrow> ('s, 'a) saga" where
  "perform m w = (case m (fst w) of (r, t) \<Rightarrow> (r, (t, snd w)))"

definition register_compensation :: "'s compensation \<Rightarrow> ('s, unit) saga" where
  "register_compensation c w = (Inr (), (fst w, snd w @ [c]))"

fun run_compensations :: "'s compensation list \<Rightarrow> 's \<Rightarrow> 's" where
  "run_compensations [] s = s"
| "run_compensations (c # cs) s = run_compensations cs (snd (c s))"

definition transaction :: "('s, 'a) saga \<Rightarrow> ('s, 'a) eff" where
  "transaction body s =
     (case body (s, []) of
        (Inr x, (t, cs)) \<Rightarrow> (Inr x, t)
      | (Inl e, (t, cs)) \<Rightarrow> (Inl e, run_compensations (rev cs) t))"

lemma perform_apply [eff_simps]: "perform m (s, cs) = (fst (m s), (snd (m s), cs))"
  by (simp add: perform_def split: prod.splits)

lemma register_apply [eff_simps]: "register_compensation c (s, cs) = (Inr (), (s, cs @ [c]))"
  by (simp add: register_compensation_def)

lemma transaction_Inr: "transaction body s = (Inr x, t) \<longleftrightarrow> (\<exists>cs. body (s, []) = (Inr x, (t, cs)))"
  by (auto simp: transaction_def split: prod.splits sum.splits)

lemma perform_eq_Inr: "perform m (s, cs) = (Inr x, (t, cs')) \<longleftrightarrow> m s = (Inr x, t) \<and> cs' = cs"
  by (cases "m s") (auto simp: eff_simps)

text \<open>
  A predicate that the body's statements and all registered compensations preserve is preserved by the
  transaction, whether it commits or rolls back.
\<close>

definition saga_keeps :: "('s \<Rightarrow> bool) \<Rightarrow> 's \<times> 's compensation list \<Rightarrow> bool" where
  "saga_keeps P w \<longleftrightarrow> P (fst w) \<and> list_all (preserves P) (snd w)"

lemma preserves_perform [pres]: "preserves P m \<Longrightarrow> preserves (saga_keeps P) (perform m)"
  by (auto simp: preserves_def saga_keeps_def perform_def split: prod.splits)

lemma preserves_register [pres]: "preserves P c \<Longrightarrow> preserves (saga_keeps P) (register_compensation c)"
  by (auto simp: preserves_def [of "saga_keeps P"] saga_keeps_def register_compensation_def)

lemma run_compensations_preserves: "list_all (preserves P) cs \<Longrightarrow> P s \<Longrightarrow> P (run_compensations cs s)"
  by (induction cs arbitrary: s) (auto dest: preservesD)

lemma preserves_transaction [pres]:
  assumes "preserves (saga_keeps P) body"
  shows "preserves P (transaction body)"
proof (rule preservesI)
  fix s assume "P s"
  obtain r t cs where b: "body (s, []) = (r, (t, cs))" by (metis prod.collapse)
  have "saga_keeps P (s, [])" using \<open>P s\<close> by (simp add: saga_keeps_def)
  from preservesD [OF assms this] b have t: "P t" and cs: "list_all (preserves P) (rev cs)"
    by (simp_all add: saga_keeps_def)
  from run_compensations_preserves [OF cs t] t show "P (snd (transaction body s))"
    by (cases r) (simp_all add: transaction_def b)
qed

lemma transaction_Inl: "transaction body s = (Inl e, t) \<longleftrightarrow>
    (\<exists>w. body (s, []) = (Inl e, w) \<and> t = run_compensations (rev (snd w)) (fst w))"
  by (auto simp: transaction_def split: prod.splits sum.splits)

text \<open>Steps of a saga, taken apart.\<close>

lemma perform_eq: "perform m w = (r, w') \<longleftrightarrow> m (fst w) = (r, fst w') \<and> snd w' = snd w"
  by (cases w') (auto simp: perform_def split: prod.splits)

lemma register_eq: "register_compensation c w = (r, w') \<longleftrightarrow> r = Inr () \<and> w' = (fst w, snd w @ [c])"
  by (auto simp: register_compensation_def)

lemma return_eq: "return x s = (r, t) \<longleftrightarrow> r = Inr x \<and> t = s"
  by (auto simp: return_def)

lemmas saga_steps = and_then_eq_Inr and_then_eq_Inl perform_eq register_eq return_eq

end
