(* ===== verification/NotificationService.thy ===== *)
theory NotificationService imports Domain
begin

text \<open>
  \<open>app/services/notification_service.py\<close> with \<open>notification_repository.py\<close> and the reads of
  \<open>notification_preference_repository.py\<close>: the preference lookup, the creation of a notification, its
  email and the recipient's own operations on it. The email sender is a parameter (or absent); an
  executor that hands the dispatch to a worker thread returns before it, so the dispatch is then no
  step of the call.
\<close>

section \<open>The repositories\<close>

definition get_preferences_for_user :: "uuid \<Rightarrow> ('z db_scheme, preference_record list) eff" where
  "get_preferences_for_user user_id =
     execute ''get_for_user'' ''notification_preferences''
       (gets (\<lambda>s. filter (\<lambda>p. np_user_id p = user_id) (t_preferences s)))"

text \<open>
  \<open>INSERT ... ON CONFLICT (user_id, notification_type) DO UPDATE\<close>, one statement.
\<close>

definition upsert_preference_stmt ::
  "uuid \<Rightarrow> notification_type \<Rightarrow> bool \<Rightarrow> bool \<Rightarrow> ('z db_scheme, preference_record list) eff" where
  "upsert_preference_stmt user_id notification_type in_app email s =
     (let mine = (\<lambda>p. np_user_id p = user_id \<and> np_type p = notification_type);
          put = (\<lambda>p. p\<lparr>np_in_app_enabled := in_app, np_email_enabled := email, np_updated_at := clock s\<rparr>) in
      if list_ex mine (t_preferences s)
      then (Inr (map put (filter mine (t_preferences s))),
            s\<lparr>t_preferences := map (\<lambda>p. if mine p then put p else p) (t_preferences s)\<rparr>)
      else if \<not> profile_exists s user_id
      then (Inl (Raised (Client (APIError foreign_key_violation ''''))), s)
      else let p = \<lparr>np_id = next_uuid s, np_user_id = user_id, np_type = notification_type,
             np_in_app_enabled = in_app, np_email_enabled = email, np_created_at = clock s,
             np_updated_at = clock s\<rparr> in
           (Inr [p], s\<lparr>t_preferences := t_preferences s @ [p], next_uuid := Suc (next_uuid s)\<rparr>))"

definition upsert_preference ::
  "uuid \<Rightarrow> notification_type \<Rightarrow> bool \<Rightarrow> bool \<Rightarrow> ('z db_scheme, preference_record) eff" where
  "upsert_preference user_id notification_type in_app email =
     and_then (execute ''upsert'' ''notification_preferences''
                (upsert_preference_stmt user_id notification_type in_app email))
       (single_row ''notification_preferences'' user_id)"

definition create_notification ::
  "uuid \<Rightarrow> notification_type \<Rightarrow> string \<Rightarrow> uuid option \<Rightarrow> ('z db_scheme, notification_record) eff" where
  "create_notification recipient_id notification_type message request_id =
     insert_row notification_table (\<lambda>new_id now.
       \<lparr>nt_id = new_id, nt_recipient_id = recipient_id, nt_request_id = request_id,
        nt_type = notification_type, nt_message = message, nt_is_read = False, nt_read_at = None,
        nt_email_sent = False, nt_email_sent_at = None, nt_archived_at = None, nt_created_at = now\<rparr>)"

definition update_notification ::
  "string \<Rightarrow> uuid \<Rightarrow> (timestamp \<Rightarrow> notification_record \<Rightarrow> notification_record) \<Rightarrow>
   ('z db_scheme, notification_record) eff" where
  "update_notification op notification_id f =
     and_then (gets clock) (\<lambda>now.
     and_then (execute op ''notifications''
                (update_stmt notification_table (\<lambda>n. nt_id n = notification_id) (f now)))
       (single_row ''notifications'' notification_id))"

definition mark_read_row :: "uuid \<Rightarrow> ('z db_scheme, notification_record) eff" where
  "mark_read_row i = update_notification ''mark_read'' i (\<lambda>now n. n\<lparr>nt_is_read := True, nt_read_at := Some now\<rparr>)"

definition mark_all_read_rows :: "uuid \<Rightarrow> ('z db_scheme, int) eff" where
  "mark_all_read_rows recipient_id =
     and_then (gets clock) (\<lambda>now.
     and_then (execute ''mark_all_read'' ''notifications''
                (update_stmt notification_table (\<lambda>n. nt_recipient_id n = recipient_id \<and> \<not> nt_is_read n)
                   (\<lambda>n. n\<lparr>nt_is_read := True, nt_read_at := Some now\<rparr>)))
       (\<lambda>rows. return (int (length rows))))"

definition archive_row :: "uuid \<Rightarrow> ('z db_scheme, notification_record) eff" where
  "archive_row i = update_notification ''archive'' i (\<lambda>now n. n\<lparr>nt_archived_at := Some now\<rparr>)"

definition unarchive_row :: "uuid \<Rightarrow> ('z db_scheme, notification_record) eff" where
  "unarchive_row i = update_notification ''unarchive'' i (\<lambda>now n. n\<lparr>nt_archived_at := None\<rparr>)"

definition mark_email_sent :: "uuid \<Rightarrow> ('z db_scheme, notification_record) eff" where
  "mark_email_sent i =
     update_notification ''mark_email_sent'' i (\<lambda>now n. n\<lparr>nt_email_sent := True, nt_email_sent_at := Some now\<rparr>)"

definition list_for_recipient ::
  "uuid \<Rightarrow> bool option \<Rightarrow> notification_type option \<Rightarrow> bool option \<Rightarrow> string option \<Rightarrow> page \<Rightarrow>
   ('z db_scheme, notification_record paged_result) eff" where
  "list_for_recipient recipient_id is_read notification_type is_archived search =
     paginate notification_table (\<lambda>s. order_desc nt_created_at (filter (\<lambda>n.
       nt_recipient_id n = recipient_id \<and> eq_filter nt_is_read is_read n \<and>
       eq_filter nt_type notification_type n \<and>
       (case is_archived of None \<Rightarrow> True | Some a \<Rightarrow> (nt_archived_at n \<noteq> None) = a) \<and>
       (case search of None \<Rightarrow> True | Some q \<Rightarrow> q = [] \<or> ilike (strip q) (nt_message n))) (t_notifications s)))"

definition unread_count :: "uuid \<Rightarrow> ('z db_scheme, int) eff" where
  "unread_count recipient_id = count_rows notification_table (\<lambda>s. filter (\<lambda>n.
     nt_recipient_id n = recipient_id \<and> \<not> nt_is_read n \<and> nt_archived_at n = None) (t_notifications s))"

section \<open>The service\<close>

record notification_config =
  nc_email_sender :: "(string \<Rightarrow> string \<Rightarrow> string \<Rightarrow> bool fallible) option"
  nc_show_uuid :: "uuid \<Rightarrow> string"
  nc_subject_prefix :: string
  nc_immediate :: bool

definition DEFAULT_PREFERENCE :: "bool \<times> bool" where
  "DEFAULT_PREFERENCE = (True, True)"

definition effective_preference :: "uuid \<Rightarrow> notification_type \<Rightarrow> ('z db_scheme, bool \<times> bool) eff" where
  "effective_preference recipient_id notification_type =
     and_then (db_call (get_preferences_for_user recipient_id)) (\<lambda>configured.
       return (case List.find (\<lambda>p. np_type p = notification_type) configured of
           Some p \<Rightarrow> (np_in_app_enabled p, np_email_enabled p) | None \<Rightarrow> DEFAULT_PREFERENCE))"

text \<open>\<open>str.title\<close> on the enum's values, which are single lower-case words.\<close>

fun title_case :: "string \<Rightarrow> string" where
  "title_case [] = []"
| "title_case (c # cs) =
     (let n = (of_char c :: nat) in if 97 \<le> n \<and> n \<le> 122 then char_of (n - 32) else c) # cs"

definition attempt_email_dispatch ::
  "notification_config \<Rightarrow> notification_record \<Rightarrow> ('z db_scheme, notification_record) eff" where
  "attempt_email_dispatch cfg n =
     (case nc_email_sender cfg of
        None \<Rightarrow> return n
      | Some send \<Rightarrow>
          (case send (nc_show_uuid cfg (nt_recipient_id n))
                     (nc_subject_prefix cfg @ '' '' @ title_case (notification_type_value (nt_type n)))
                     (nt_message n) of
             Inl _ \<Rightarrow> return n
           | Inr sent \<Rightarrow> if sent then mark_email_sent (nt_id n) else return n))"

definition create_and_dispatch ::
  "notification_config \<Rightarrow> uuid \<Rightarrow> uuid option \<Rightarrow> notification_type \<Rightarrow> string \<Rightarrow>
   ('z db_scheme, notification option) eff" where
  "create_and_dispatch cfg recipient_id request_id notification_type message =
     and_then (effective_preference recipient_id notification_type) (\<lambda>(in_app_enabled, email_enabled).
       if \<not> in_app_enabled then return None
       else and_then (db_call (create_notification recipient_id notification_type message request_id)) (\<lambda>created.
         if \<not> email_enabled
         then and_then (pure (map_notification_record_to_domain created)) (\<lambda>n. return (Some n))
         else and_then (if nc_immediate cfg then attempt_email_dispatch cfg created else return created) (\<lambda>outcome.
              and_then (pure (map_notification_record_to_domain outcome)) (\<lambda>n. return (Some n)))))"

definition notify_assignment where
  "notify_assignment cfg recipient_id request_id message =
     create_and_dispatch cfg recipient_id (Some request_id) NotifyAssignment message"

definition notify_reminder where
  "notify_reminder cfg recipient_id request_id message =
     create_and_dispatch cfg recipient_id (Some request_id) NotifyReminder message"

definition notify_escalation where
  "notify_escalation cfg recipient_id request_id message =
     create_and_dispatch cfg recipient_id (Some request_id) NotifyEscalation message"

definition notify_decision where
  "notify_decision cfg recipient_id request_id message =
     create_and_dispatch cfg recipient_id (Some request_id) NotifyDecision message"

definition notify_completion where
  "notify_completion cfg recipient_id request_id message =
     create_and_dispatch cfg recipient_id (Some request_id) NotifyCompletion message"

definition notify_system where
  "notify_system cfg recipient_id message = create_and_dispatch cfg recipient_id None NotifySystem message"

lemmas notify_defs = notify_assignment_def notify_reminder_def notify_escalation_def notify_decision_def
  notify_completion_def notify_system_def

definition list_notifications ::
  "identity \<Rightarrow> bool option \<Rightarrow> notification_type option \<Rightarrow> bool option \<Rightarrow> string option \<Rightarrow> page \<Rightarrow>
   ('z db_scheme, notification paged_result) eff" where
  "list_notifications ident is_read notification_type is_archived search p =
     and_then (db_call (list_for_recipient (id_user_id ident) is_read notification_type is_archived search p))
       (\<lambda>result. pure (map_page map_notification_record_to_domain result))"

definition mark_all_read :: "identity \<Rightarrow> ('z db_scheme, int) eff" where
  "mark_all_read ident = db_call (mark_all_read_rows (id_user_id ident))"

definition get_owned_notification :: "identity \<Rightarrow> uuid \<Rightarrow> ('z db_scheme, notification_record) eff" where
  "get_owned_notification ident notification_id =
     and_then (lookup_call (get_by_id notification_table notification_id)) (\<lambda>existing.
       if nt_recipient_id existing \<noteq> id_user_id ident
       then throw (Service (PermissionDeniedError (Message ''notification recipient'')))
       else return existing)"

definition change_owned ::
  "(uuid \<Rightarrow> ('z db_scheme, notification_record) eff) \<Rightarrow> identity \<Rightarrow> uuid \<Rightarrow> ('z db_scheme, notification) eff" where
  "change_owned write ident notification_id =
     and_then (get_owned_notification ident notification_id) (\<lambda>existing.
     and_then (db_call (write (nt_id existing))) (\<lambda>updated.
       pure (map_notification_record_to_domain updated)))"

definition archive_notification where "archive_notification = change_owned archive_row"
definition unarchive_notification where "unarchive_notification = change_owned unarchive_row"
definition mark_read where "mark_read = change_owned mark_read_row"

definition get_unread_count :: "identity \<Rightarrow> ('z db_scheme, int) eff" where
  "get_unread_count ident = db_call (unread_count (id_user_id ident))"

record notification_preference =
  npr_type :: notification_type
  npr_in_app_enabled :: bool
  npr_email_enabled :: bool
  npr_updated_at :: "timestamp option"

definition list_preferences :: "identity \<Rightarrow> ('z db_scheme, notification_preference list) eff" where
  "list_preferences ident =
     and_then (db_call (get_preferences_for_user (id_user_id ident))) (\<lambda>configured.
       return (map (\<lambda>ty. case List.find (\<lambda>p. np_type p = ty) (rev configured) of
           Some p \<Rightarrow> \<lparr>npr_type = ty, npr_in_app_enabled = np_in_app_enabled p,
                       npr_email_enabled = np_email_enabled p, npr_updated_at = Some (np_updated_at p)\<rparr>
         | None \<Rightarrow> \<lparr>npr_type = ty, npr_in_app_enabled = fst DEFAULT_PREFERENCE,
                     npr_email_enabled = snd DEFAULT_PREFERENCE, npr_updated_at = None\<rparr>)
         notification_type_members))"

definition update_preference ::
  "identity \<Rightarrow> notification_type \<Rightarrow> bool option \<Rightarrow> bool option \<Rightarrow>
   ('z db_scheme, notification_preference) eff" where
  "update_preference ident notification_type in_app_enabled email_enabled =
     and_then (effective_preference (id_user_id ident) notification_type) (\<lambda>(current_in_app, current_email).
     and_then (db_call (upsert_preference (id_user_id ident) notification_type
         (case in_app_enabled of Some b \<Rightarrow> b | None \<Rightarrow> current_in_app)
         (case email_enabled of Some b \<Rightarrow> b | None \<Rightarrow> current_email))) (\<lambda>p.
       return \<lparr>npr_type = np_type p, npr_in_app_enabled = np_in_app_enabled p,
               npr_email_enabled = np_email_enabled p, npr_updated_at = Some (np_updated_at p)\<rparr>))"

end
