(* ===== verification/ApprovalService.thy ===== *)
theory ApprovalService imports NotificationService Saga
begin

text \<open>
  \<open>app/services/approval_service.py\<close>: deciding a stage, advancing or finishing the request, the
  compensations registered on the way, escalation, and the approver's queue. The text order of names in
  \<open>list_by_role\<close> and the email parameters are the configuration.
\<close>

record service_config =
  sc_notify :: notification_config
  sc_collation :: "string \<Rightarrow> nat"

record decision_advancement =
  da_request_status :: request_status
  da_new_stage_id :: "uuid option"
  da_notify_recipient_id :: "uuid option"
  da_audit_action :: audit_action

fun meta_id :: "uuid option \<Rightarrow> meta_value" where
  "meta_id None = MetaNull"
| "meta_id (Some i) = MetaId i"

fun meta_text :: "string option \<Rightarrow> meta_value" where
  "meta_text None = MetaNull"
| "meta_text (Some t) = MetaText t"

section \<open>Compensations\<close>

definition compensate_decision :: "uuid \<Rightarrow> stage_record \<Rightarrow> 'z db_scheme compensation" where
  "compensate_decision stage_id decided_stage =
     and_then (revert_to_pending stage_id (st_version decided_stage)) (\<lambda>_. return ())"

definition compensate_stage_creation :: "stage_record \<Rightarrow> 'z db_scheme compensation" where
  "compensate_stage_creation new_stage =
     and_then (delete_if_unchanged (st_id new_stage) (st_version new_stage)) (\<lambda>_. return ())"

definition compensate_request_advancement ::
  "uuid \<Rightarrow> request_record \<Rightarrow> request_record \<Rightarrow> 'z db_scheme compensation" where
  "compensate_request_advancement request_id updated_request original =
     and_then (set_current_stage request_id (rq_version updated_request) (rq_current_stage_id original)
                (rq_status original) (rq_completed_at original)) (\<lambda>_. return ())"

section \<open>Advancing the request\<close>

definition department_approvers_for ::
  "service_config \<Rightarrow> uuid \<Rightarrow> profile \<Rightarrow> ('z db_scheme, profile list) eff" where
  "department_approvers_for cfg company_id requester =
     and_then (list_by_role (sc_collation cfg) Approver company_id (pf_department requester) False (page_of_size 100))
       (\<lambda>result. pure (map_result map_profile_record_to_domain (res_items result)))"

definition next_stage_approvers ::
  "service_config \<Rightarrow> stage_record \<Rightarrow> request_record \<Rightarrow> workflow_definition \<Rightarrow> profile \<Rightarrow>
   ('z db_scheme, profile list) eff" where
  "next_stage_approvers cfg stage request d requester =
     (case filter (\<lambda>st. sd_order st = st_stage_order stage + 1) (ordered_stages (wd_definition d)) of
        stage_def # _ \<Rightarrow>
          if sd_strategy stage_def = RequesterManager
          then department_approvers_for cfg (rq_company_id request) requester
          else return []
      | [] \<Rightarrow> return [])"

text \<open>Everything \<open>_advance_after_approval\<close> reads before it writes, and the plan it makes.\<close>

definition plan_advancement ::
  "service_config \<Rightarrow> stage_record \<Rightarrow> ('z db_scheme, request_record \<times> stage_plan option) eff" where
  "plan_advancement cfg stage =
     and_then (lookup_call (get_request_row (st_request_id stage))) (\<lambda>request.
     and_then (lookup_call (get_by_id definition_table (rq_workflow_definition_id request))) (\<lambda>definition_record.
     and_then (pure (map_workflow_definition_record_to_domain definition_record)) (\<lambda>definition_domain.
     and_then (get_highest_stage_order (rq_id request)) (\<lambda>highest_existing_order.
     and_then (lookup_call (get_profile_row (rq_requester_id request))) (\<lambda>requester_record.
     and_then (pure (map_profile_record_to_domain requester_record)) (\<lambda>requester_domain.
     and_then (next_stage_approvers cfg stage request definition_domain requester_domain) (\<lambda>department_approvers.
     and_then (pure (plan_next_stage definition_domain (st_stage_order stage) highest_existing_order
                       requester_domain department_approvers)) (\<lambda>plan.
       return (request, plan)))))))))"

definition complete_request ::
  "request_record \<Rightarrow> ('z db_scheme, decision_advancement) saga" where
  "complete_request request =
     and_then (perform (engine_call (validate_request_transition (rq_status request) ReqCompleted))) (\<lambda>_.
     and_then (perform (gets clock)) (\<lambda>now.
     and_then (perform (db_call (set_current_stage (rq_id request) (rq_version request) None ReqCompleted (Some now))))
       (\<lambda>updated_request.
     and_then (register_compensation (compensate_request_advancement (rq_id request) updated_request request)) (\<lambda>_.
       return \<lparr>da_request_status = ReqCompleted, da_new_stage_id = None, da_notify_recipient_id = None,
               da_audit_action = STAGE_APPROVED\<rparr>))))"

definition open_next_stage ::
  "request_record \<Rightarrow> stage_plan \<Rightarrow> ('z db_scheme, decision_advancement) saga" where
  "open_next_stage request plan =
     and_then (perform (db_call (create_stage (rq_id request) (sp_stage_order plan) (sp_stage_name plan)
                 (rq_company_id request) (sp_assigned_role plan) (sp_assigned_to plan)))) (\<lambda>new_stage.
     and_then (register_compensation (compensate_stage_creation new_stage)) (\<lambda>_.
     and_then (perform (engine_call (validate_request_transition (rq_status request) ReqInReview))) (\<lambda>_.
     and_then (perform (db_call (set_current_stage (rq_id request) (rq_version request) (Some (st_id new_stage))
                 ReqInReview None))) (\<lambda>updated_request.
     and_then (register_compensation (compensate_request_advancement (rq_id request) updated_request request)) (\<lambda>_.
       return \<lparr>da_request_status = ReqInReview, da_new_stage_id = Some (st_id new_stage),
               da_notify_recipient_id = sp_assigned_to plan, da_audit_action = STAGE_APPROVED\<rparr>)))))"

definition advance_after_approval ::
  "service_config \<Rightarrow> stage_record \<Rightarrow> ('z db_scheme, decision_advancement) saga" where
  "advance_after_approval cfg stage =
     and_then (perform (plan_advancement cfg stage)) (\<lambda>(request, plan).
       case plan of None \<Rightarrow> complete_request request | Some p \<Rightarrow> open_next_stage request p)"

definition finalize_rejection :: "stage_record \<Rightarrow> ('z db_scheme, decision_advancement) saga" where
  "finalize_rejection stage =
     and_then (perform (lookup_call (get_request_row (st_request_id stage)))) (\<lambda>request.
     and_then (perform (engine_call (validate_request_transition (rq_status request) ReqRejected))) (\<lambda>_.
     and_then (perform (gets clock)) (\<lambda>now.
     and_then (perform (db_call (set_current_stage (rq_id request) (rq_version request) None ReqRejected (Some now))))
       (\<lambda>updated_request.
     and_then (register_compensation (compensate_request_advancement (rq_id request) updated_request request)) (\<lambda>_.
       return \<lparr>da_request_status = ReqRejected, da_new_stage_id = None, da_notify_recipient_id = None,
               da_audit_action = STAGE_REJECTED\<rparr>)))))"

section \<open>Deciding a stage\<close>

definition replay_idempotent_decision :: "stage_record \<Rightarrow> ('z db_scheme, approval_outcome) eff" where
  "replay_idempotent_decision stage =
     and_then (lookup_call (get_request_row (st_request_id stage))) (\<lambda>request.
     and_then (pure (map_workflow_stage_record_to_domain stage)) (\<lambda>st.
       return \<lparr>ao_stage = st, ao_request_status = rq_status request,
               ao_current_stage_id = rq_current_stage_id request\<rparr>))"

definition dispatch_post_decision_notifications ::
  "service_config \<Rightarrow> stage_record \<Rightarrow> request_status \<Rightarrow> uuid option \<Rightarrow> ('z db_scheme, unit) eff" where
  "dispatch_post_decision_notifications cfg stage request_status notify_recipient_id =
     and_then (handle (and_then (get_request_row (st_request_id stage)) (\<lambda>r. return (Some r)))
                (\<lambda>exc. if is_record_not_found exc then return None else throw exc)) (\<lambda>found.
       case found of
         None \<Rightarrow> return ()
       | Some request \<Rightarrow>
           and_then
             (if request_status = ReqRejected
              then notify_decision (sc_notify cfg) (rq_requester_id request) (rq_id request)
                     (''Your request '' @ [CHR 0x27] @ rq_title request @ [CHR 0x27] @ '' was rejected.'')
              else if request_status = ReqCompleted
              then notify_completion (sc_notify cfg) (rq_requester_id request) (rq_id request)
                     (''Your request '' @ [CHR 0x27] @ rq_title request @ [CHR 0x27] @ '' has been completed.'')
              else (case notify_recipient_id of
                  None \<Rightarrow> return None
                | Some recipient \<Rightarrow>
                    notify_assignment (sc_notify cfg) recipient (rq_id request)
                      (''You have been assigned to review '' @ [CHR 0x27] @ rq_title request @ [CHR 0x27] @ ''.'')))
             (\<lambda>_. return ()))"

definition best_effort :: "('s, unit) eff \<Rightarrow> ('s, unit) eff" where
  "best_effort m = handle m (\<lambda>_. return ())"

definition decision_body ::
  "service_config \<Rightarrow> identity \<Rightarrow> stage_record \<Rightarrow> stage_status \<Rightarrow> int \<Rightarrow> string option \<Rightarrow>
   ('z db_scheme, stage_record \<times> decision_advancement) saga" where
  "decision_body cfg ident stage target_stage_status version_to_use decision_note =
     and_then (perform (db_call
         (if target_stage_status = StageApproved
          then approve_stage (st_id stage) version_to_use (id_user_id ident) decision_note
          else reject_stage (st_id stage) version_to_use (id_user_id ident)
                 (case decision_note of None \<Rightarrow> [] | Some n \<Rightarrow> n)))) (\<lambda>decided_stage.
     and_then (register_compensation (compensate_decision (st_id stage) decided_stage)) (\<lambda>_.
     and_then (if target_stage_status = StageApproved then advance_after_approval cfg stage
               else finalize_rejection stage) (\<lambda>advancement.
     and_then (perform (db_call (record_event (audit_action_value (da_audit_action advancement))
         (Some (id_user_id ident)) (Some (st_request_id stage))
         (Some [(''stage_id'', MetaId (st_id stage)), (''decision_note'', meta_text decision_note)]) None))) (\<lambda>_.
       return (decided_stage, advancement)))))"

definition authorize_decision :: "identity \<Rightarrow> stage_record \<Rightarrow> ('z db_scheme, unit) eff" where
  "authorize_decision ident stage =
     and_then (gets clock) (\<lambda>now.
       auth_call (authorize_stage_decision now ident (st_assigned_to stage = Some (id_user_id ident))
         (st_assigned_role stage = Some (id_role ident)) (st_status stage = StagePending)))"

definition decide_stage ::
  "service_config \<Rightarrow> identity \<Rightarrow> uuid \<Rightarrow> stage_status \<Rightarrow> int option \<Rightarrow> string option \<Rightarrow>
   ('z db_scheme, approval_outcome) eff" where
  "decide_stage cfg ident stage_id target_stage_status expected_version decision_note =
     and_then (lookup_call (get_stage_for_company stage_id (id_company_id ident))) (\<lambda>stage.
       if st_status stage = target_stage_status \<and> st_decided_by stage = Some (id_user_id ident)
       then replay_idempotent_decision stage
       else
         and_then (authorize_decision ident stage) (\<lambda>_.
         and_then (engine_call (validate_stage_transition (st_status stage) target_stage_status)) (\<lambda>_.
         and_then (transaction (decision_body cfg ident stage target_stage_status
             (case expected_version of Some v \<Rightarrow> v | None \<Rightarrow> st_version stage) decision_note))
           (\<lambda>(decided_stage, advancement).
         and_then (best_effort (dispatch_post_decision_notifications cfg stage (da_request_status advancement)
             (da_notify_recipient_id advancement))) (\<lambda>_.
         and_then (pure (map_workflow_stage_record_to_domain decided_stage)) (\<lambda>st.
           return \<lparr>ao_stage = st, ao_request_status = da_request_status advancement,
                   ao_current_stage_id = da_new_stage_id advancement\<rparr>))))))"

definition service_approve_stage ::
  "service_config \<Rightarrow> identity \<Rightarrow> uuid \<Rightarrow> int option \<Rightarrow> string option \<Rightarrow> ('z db_scheme, approval_outcome) eff" where
  "service_approve_stage cfg ident stage_id expected_version decision_note =
     decide_stage cfg ident stage_id StageApproved expected_version decision_note"

definition service_reject_stage ::
  "service_config \<Rightarrow> identity \<Rightarrow> uuid \<Rightarrow> int option \<Rightarrow> string \<Rightarrow> ('z db_scheme, approval_outcome) eff" where
  "service_reject_stage cfg ident stage_id expected_version decision_note =
     (if strip decision_note = [] then throw (Service (ValidationError (Message ''decision_note'')))
      else decide_stage cfg ident stage_id StageRejected expected_version (Some decision_note))"

section \<open>Escalation\<close>

definition escalation_body ::
  "stage_record \<Rightarrow> escalation_plan \<Rightarrow> ('z db_scheme, stage_record) saga" where
  "escalation_body stage plan =
     and_then (perform (db_call (escalate_stage_row (st_id stage) (st_version stage)
                 (ep_new_assigned_to plan) (Some (ep_new_assigned_role plan))))) (\<lambda>reassigned.
     and_then (register_compensation (and_then (escalate_stage_row (st_id stage) (st_version reassigned)
                 (ep_previous_assigned_to plan) (ep_previous_assigned_role plan)) (\<lambda>_. return ()))) (\<lambda>_.
     and_then (perform (db_call (record_event (audit_action_value STAGE_ESCALATED) None
         (Some (st_request_id stage))
         (Some [(''stage_id'', MetaId (st_id stage)),
                (''previous_assigned_to'', meta_id (ep_previous_assigned_to plan)),
                (''previous_assigned_role'',
                 meta_text (map_option user_role_value (ep_previous_assigned_role plan)))]) None))) (\<lambda>_.
       return reassigned)))"

definition service_escalate_stage :: "service_config \<Rightarrow> uuid \<Rightarrow> ('z db_scheme, workflow_stage) eff" where
  "service_escalate_stage cfg stage_id =
     and_then (lookup_call (get_stage_row stage_id)) (\<lambda>stage.
     let plan = plan_escalation (st_assigned_to stage) (st_assigned_role stage) in
     and_then (transaction (escalation_body stage plan)) (\<lambda>reassigned.
     and_then (case st_assigned_to reassigned of
         None \<Rightarrow> return ()
       | Some recipient \<Rightarrow> best_effort (and_then (notify_escalation (sc_notify cfg) recipient (st_request_id stage)
           (''Stage '' @ [CHR 0x27] @ st_stage_name stage @ [CHR 0x27] @ '' has been escalated to you.''))
           (\<lambda>_. return ()))) (\<lambda>_.
       pure (map_workflow_stage_record_to_domain reassigned))))"

section \<open>The approver's queue\<close>

definition list_pending_approvals :: "identity \<Rightarrow> page \<Rightarrow> ('z db_scheme, workflow_stage paged_result) eff" where
  "list_pending_approvals ident p =
     (if id_role ident \<noteq> Approver \<and> id_role ident \<noteq> Admin
      then throw (Service (PermissionDeniedError (Message ''pending approvals'')))
      else and_then (db_call (list_pending_for_approver (id_company_id ident) (Some (id_user_id ident))
               (Some (id_role ident)) p)) (\<lambda>result.
           pure (map_page map_workflow_stage_record_to_domain result)))"

end
