(* ===== verification/RequestService.thy ===== *)
theory RequestService imports ApprovalService
begin

text \<open>
  \<open>app/services/request_service.py\<close>: creating a request with its first stage, reading it with its
  progress and audit trail, listing and searching, editing and withdrawing.
\<close>

section \<open>Creating a request\<close>

definition ASSIGNMENT_FALLBACK_METADATA_KEY :: string where
  "ASSIGNMENT_FALLBACK_METADATA_KEY = ''assignment_fallback_applied''"

definition fetch_department_approvers_if_needed ::
  "service_config \<Rightarrow> workflow_definition \<Rightarrow> profile \<Rightarrow> uuid \<Rightarrow> ('z db_scheme, profile list) eff" where
  "fetch_department_approvers_if_needed cfg d requester company_id =
     (case ordered_stages (wd_definition d) of
        [] \<Rightarrow> throw (Raised (Py IndexError))
      | first # _ \<Rightarrow>
          if sd_strategy first \<noteq> RequesterManager then return []
          else and_then (db_call (list_by_role (sc_collation cfg) Approver company_id (pf_department requester)
                   False (page_of_size 100)))
                 (\<lambda>result. pure (map_result map_profile_record_to_domain (res_items result))))"

text \<open>Everything \<open>create_request\<close> validates and reads before its first write.\<close>

definition prepare_request ::
  "service_config \<Rightarrow> identity \<Rightarrow> request_create \<Rightarrow>
   ('z db_scheme, request_create \<times> workflow_definition \<times> stage_plan) eff" where
  "prepare_request cfg ident raw =
     and_then (model_call (RequestCreate raw)) (\<lambda>payload.
     and_then (db_call (list_definitions (id_company_id ident) (Some (rc_request_type payload)) (Some True)
                 (page_of_size 10))) (\<lambda>candidates.
     and_then (pure (map_result map_workflow_definition_record_to_domain (res_items candidates))) (\<lambda>candidate_domains.
     and_then (engine_call (resolve_definition (rc_request_type payload) candidate_domains)) (\<lambda>definition_domain.
     and_then (lookup_call (get_profile_row (id_user_id ident))) (\<lambda>requester_record.
     and_then (pure (map_profile_record_to_domain requester_record)) (\<lambda>requester_domain.
     and_then (fetch_department_approvers_if_needed cfg definition_domain requester_domain (id_company_id ident))
       (\<lambda>department_approvers.
     and_then (pure (plan_first_stage definition_domain requester_domain department_approvers)) (\<lambda>plan.
       return (payload, definition_domain, plan)))))))))"

definition audit_metadata_for_creation :: "uuid \<Rightarrow> stage_plan \<Rightarrow> (string \<times> meta_value) list" where
  "audit_metadata_for_creation stage_id plan =
     (''stage_id'', MetaId stage_id) #
     (if sp_used_fallback plan
      then [(ASSIGNMENT_FALLBACK_METADATA_KEY, meta_text (sp_fallback_reason plan))] else [])"

definition creation_body ::
  "identity \<Rightarrow> request_create \<Rightarrow> workflow_definition \<Rightarrow> stage_plan \<Rightarrow> ('z db_scheme, request_record) saga" where
  "creation_body ident payload d plan =
     and_then (perform (db_call (create_request_row (id_user_id ident) (wd_id d) (rc_request_type payload)
         (rc_title payload) (id_company_id ident) (rc_description payload) (rc_department payload))))
       (\<lambda>created_request.
     and_then (register_compensation (and_then (soft_delete (rq_id created_request) (rq_version created_request)
         (id_user_id ident)) (\<lambda>_. return ()))) (\<lambda>_.
     and_then (perform (db_call (create_stage (rq_id created_request) (sp_stage_order plan) (sp_stage_name plan)
         (id_company_id ident) (sp_assigned_role plan) (sp_assigned_to plan)))) (\<lambda>created_stage.
     and_then (perform (db_call (set_current_stage (rq_id created_request) (rq_version created_request)
         (Some (st_id created_stage)) ReqPending None))) (\<lambda>updated_request.
     and_then (perform (db_call (record_event (audit_action_value REQUEST_CREATED) (Some (id_user_id ident))
         (Some (rq_id created_request)) (Some (audit_metadata_for_creation (st_id created_stage) plan)) None)))
       (\<lambda>_. return updated_request)))))"

definition service_create_request ::
  "service_config \<Rightarrow> identity \<Rightarrow> request_create \<Rightarrow> ('z db_scheme, request) eff" where
  "service_create_request cfg ident raw =
     and_then (prepare_request cfg ident raw) (\<lambda>(payload, d, plan).
     and_then (transaction (creation_body ident payload d plan)) (\<lambda>updated_request.
     and_then (case sp_assigned_to plan of
         None \<Rightarrow> return None
       | Some recipient \<Rightarrow> notify_assignment (sc_notify cfg) recipient (rq_id updated_request)
           (''You have been assigned to review '' @ [CHR 0x27] @ rc_title payload @ [CHR 0x27] @ ''.'')) (\<lambda>_.
       pure (map_request_record_to_domain updated_request))))"

section \<open>Reading\<close>

definition fetch_request_of_company :: "identity \<Rightarrow> uuid \<Rightarrow> ('z db_scheme, request_record) eff" where
  "fetch_request_of_company ident request_id =
     and_then (lookup_call (get_request_row request_id)) (\<lambda>record.
       if rq_company_id record \<noteq> id_company_id ident
       then throw (Service (NotFoundError ''request'' (ById request_id)))
       else return record)"

definition is_assigned_to_any_stage :: "uuid \<Rightarrow> uuid \<Rightarrow> user_role \<Rightarrow> ('z db_scheme, bool) eff" where
  "is_assigned_to_any_stage request_id user_id role =
     (if role \<noteq> Approver \<and> role \<noteq> Admin then return False
      else and_then (list_stages_for_request request_id (page_of_size 100)) (\<lambda>result.
        return (list_ex (\<lambda>st. st_assigned_to st = Some user_id \<or> st_assigned_role st = Some role)
          (res_items result))))"

text \<open>\<open>except Exception as exc: raise NotFoundError("request", request_id) from exc\<close>\<close>

definition hidden_as_not_found :: "uuid \<Rightarrow> unit fallible \<Rightarrow> ('s, unit) eff" where
  "hidden_as_not_found request_id r =
     catching (\<lambda>_. True) (\<lambda>_. Service (NotFoundError ''request'' (ById request_id))) (pure r)"

definition get_request :: "identity \<Rightarrow> uuid \<Rightarrow> ('z db_scheme, request) eff" where
  "get_request ident request_id =
     and_then (fetch_request_of_company ident request_id) (\<lambda>record.
     and_then (is_assigned_to_any_stage (rq_id record) (id_user_id ident) (id_role ident)) (\<lambda>is_assigned_approver.
     and_then (gets clock) (\<lambda>now.
     and_then (hidden_as_not_found request_id (authorize_request_view now ident
         (rq_requester_id record = id_user_id ident) is_assigned_approver)) (\<lambda>_.
       pure (map_request_record_to_domain record)))))"

text \<open>The per-call name resolver: one lookup per profile, remembered in its cache.\<close>

type_synonym name_cache = "uuid \<rightharpoonup> string"

definition resolve_name :: "uuid option \<Rightarrow> name_cache \<Rightarrow> ('z db_scheme, string option \<times> name_cache) eff" where
  "resolve_name profile_id cache =
     (case profile_id of
        None \<Rightarrow> return (None, cache)
      | Some i \<Rightarrow>
          (case cache i of
             Some name \<Rightarrow> return (Some name, cache)
           | None \<Rightarrow> and_then (find_profile_row i) (\<lambda>p.
               let name = (case p of Some pr \<Rightarrow> pr_full_name pr | None \<Rightarrow> ''Unknown user'') in
               return (Some name, cache(i := Some name)))))"

record stage_detail =
  sdt_stage_id :: uuid
  sdt_stage_order :: int
  sdt_stage_name :: string
  sdt_assigned_to_name :: "string option"
  sdt_assigned_role :: "user_role option"
  sdt_status :: stage_status
  sdt_created_at :: timestamp
  sdt_decided_at :: "timestamp option"
  sdt_decided_by_name :: "string option"
  sdt_decision_note :: "string option"
  sdt_is_escalated :: bool

record workflow_progress =
  wp_stages :: "stage_detail list"
  wp_upcoming_stages :: "(int \<times> string) list"
  wp_current_stage_order :: int
  wp_total_stages :: int

fun stage_details ::
  "(uuid \<Rightarrow> bool) \<Rightarrow> stage_record list \<Rightarrow> name_cache \<Rightarrow> ('z db_scheme, stage_detail list) eff" where
  "stage_details escalated [] cache = return []"
| "stage_details escalated (st # sts) cache =
     and_then (resolve_name (st_assigned_to st) cache) (\<lambda>(assigned_name, cache1).
     and_then (resolve_name (st_decided_by st) cache1) (\<lambda>(decided_name, cache2).
     and_then (stage_details escalated sts cache2) (\<lambda>rest.
       return (\<lparr>sdt_stage_id = st_id st, sdt_stage_order = st_stage_order st, sdt_stage_name = st_stage_name st,
          sdt_assigned_to_name = assigned_name, sdt_assigned_role = st_assigned_role st,
          sdt_status = st_status st, sdt_created_at = st_created_at st, sdt_decided_at = st_decided_at st,
          sdt_decided_by_name = decided_name, sdt_decision_note = st_decision_note st,
          sdt_is_escalated = escalated (st_id st)\<rparr> # rest))))"

definition escalated_stage_ids :: "audit_record list \<Rightarrow> meta_value option list" where
  "escalated_stage_ids entries =
     map (\<lambda>e. map_of (case au_metadata e of Some m \<Rightarrow> m | None \<Rightarrow> []) ''stage_id'')
       (filter (\<lambda>e. au_action e = audit_action_value STAGE_ESCALATED \<and>
          au_metadata e \<noteq> None \<and> au_metadata e \<noteq> Some []) entries)"

definition current_order_of :: "stage_detail list \<Rightarrow> int" where
  "current_order_of stages =
     (case List.find (\<lambda>st. sdt_status st = StagePending) stages of
        Some st \<Rightarrow> sdt_stage_order st
      | None \<Rightarrow> if stages = [] then 0 else sdt_stage_order (last stages))"

definition get_workflow_progress :: "identity \<Rightarrow> uuid \<Rightarrow> ('z db_scheme, workflow_progress) eff" where
  "get_workflow_progress ident request_id =
     and_then (fetch_request_of_company ident request_id) (\<lambda>record.
     and_then (is_assigned_to_any_stage (rq_id record) (id_user_id ident) (id_role ident)) (\<lambda>is_assigned_approver.
     and_then (gets clock) (\<lambda>now.
     and_then (hidden_as_not_found request_id (authorize_request_view now ident
         (rq_requester_id record = id_user_id ident) is_assigned_approver)) (\<lambda>_.
     and_then (db_call (list_stages_for_request request_id (page_of_size 100))) (\<lambda>stage_page.
     and_then (db_call (list_audit_for_request request_id (page_of_size 100))) (\<lambda>audit_page.
     and_then (stage_details
         (\<lambda>i. List.member (escalated_stage_ids (res_items audit_page)) (Some (MetaId i)))
         (res_items stage_page) Map.empty) (\<lambda>stages.
     and_then (lookup_call (get_by_id definition_table (rq_workflow_definition_id record))) (\<lambda>definition_record.
       let stage_defs = df_definition definition_record in
       return \<lparr>wp_stages = stages,
         wp_upcoming_stages = map (\<lambda>d. (sd_order d, sd_name d))
           (filter (\<lambda>d. \<not> List.member (map sdt_stage_order stages) (sd_order d)) (sort_key sd_order stage_defs)),
         wp_current_stage_order = current_order_of stages,
         wp_total_stages = int (length stage_defs)\<rparr>))))))))"

record audit_entry_detail =
  aed_action :: audit_action
  aed_actor_name :: "string option"
  aed_created_at :: timestamp
  aed_metadata :: "(string \<times> meta_value) list option"

fun audit_details :: "audit_record list \<Rightarrow> name_cache \<Rightarrow> ('z db_scheme, audit_entry_detail list) eff" where
  "audit_details [] cache = return []"
| "audit_details (a # as) cache =
     and_then (pure (audit_action_of_value (au_action a))) (\<lambda>action.
     and_then (resolve_name (au_actor_id a) cache) (\<lambda>(actor_name, cache1).
     and_then (audit_details as cache1) (\<lambda>rest.
       return (\<lparr>aed_action = action, aed_actor_name = actor_name, aed_created_at = au_created_at a,
                aed_metadata = au_metadata a\<rparr> # rest))))"

definition get_audit_trail :: "identity \<Rightarrow> uuid \<Rightarrow> ('z db_scheme, audit_entry_detail list) eff" where
  "get_audit_trail ident request_id =
     and_then (fetch_request_of_company ident request_id) (\<lambda>record.
     and_then (is_assigned_to_any_stage (rq_id record) (id_user_id ident) (id_role ident)) (\<lambda>is_assigned_approver.
     and_then (gets clock) (\<lambda>now.
     and_then (hidden_as_not_found request_id (authorize_audit_trail_view now ident
         (rq_requester_id record = id_user_id ident) is_assigned_approver)) (\<lambda>_.
     and_then (db_call (list_audit_for_request request_id (page_of_size 100))) (\<lambda>entries.
       audit_details (res_items entries) Map.empty)))))"

section \<open>Listing\<close>

definition visible_request_ids_for_approver :: "identity \<Rightarrow> ('z db_scheme, uuid list) eff" where
  "visible_request_ids_for_approver ident =
     and_then (list_pending_for_approver (id_company_id ident) (Some (id_user_id ident)) (Some (id_role ident))
                (page_of_size MAX_PAGE_SIZE)) (\<lambda>result.
       return (remdups (map st_request_id (res_items result))))"

text \<open>
  The part \<open>list_requests\<close> and \<open>search_requests\<close> share: an employee's own requests, an approver's
  queue (\<open>None\<close> as result when it is empty), everything for an administrator.
\<close>

definition visibility_filters :: "identity \<Rightarrow> ('z db_scheme, (uuid option \<times> uuid list option) option) eff" where
  "visibility_filters ident =
     (case id_role ident of
        Employee \<Rightarrow> return (Some (Some (id_user_id ident), None))
      | Approver \<Rightarrow> and_then (visible_request_ids_for_approver ident) (\<lambda>ids.
          return (if ids = [] then None else Some (None, Some ids)))
      | Admin \<Rightarrow> return (Some (None, None)))"

definition empty_page :: "page \<Rightarrow> 'a paged_result" where
  "empty_page p = \<lparr>res_items = [], res_page = pg_number p, res_page_size = pg_size p, res_total_records = 0\<rparr>"

definition service_list_requests ::
  "identity \<Rightarrow> request_status option \<Rightarrow> string option \<Rightarrow> string option \<Rightarrow> page \<Rightarrow>
   ('z db_scheme, request paged_result) eff" where
  "service_list_requests ident status request_type department p =
     and_then (visibility_filters ident) (\<lambda>visible.
       case visible of
         None \<Rightarrow> return (empty_page p)
       | Some (requester_filter, ids_filter) \<Rightarrow>
           and_then (db_call (list_requests (id_company_id ident)
             \<lparr>rf_status = status, rf_request_type = request_type, rf_department = department,
              rf_requester_id = requester_filter, rf_request_ids = ids_filter, rf_created_after = None,
              rf_created_before = None, rf_include_deleted = False, rf_sort_descending = True\<rparr> p)) (\<lambda>result.
           pure (map_page map_request_record_to_domain result)))"

definition service_search_requests ::
  "(string \<Rightarrow> request_record \<Rightarrow> bool) \<Rightarrow> identity \<Rightarrow> string \<Rightarrow> page \<Rightarrow>
   ('z db_scheme, request paged_result) eff" where
  "service_search_requests wfts ident query_text p =
     and_then (visibility_filters ident) (\<lambda>visible.
       case visible of
         None \<Rightarrow> return (empty_page p)
       | Some (requester_filter, ids_filter) \<Rightarrow>
           and_then (db_call (search_requests wfts query_text (id_company_id ident) requester_filter ids_filter
               False p)) (\<lambda>result.
           pure (map_page map_request_record_to_domain result)))"

section \<open>Editing and withdrawing\<close>

definition update_request ::
  "identity \<Rightarrow> uuid \<Rightarrow> string option \<Rightarrow> string option \<Rightarrow> string option \<Rightarrow> int \<Rightarrow> ('z db_scheme, request) eff" where
  "update_request ident request_id title description department expected_version =
     and_then (fetch_request_of_company ident request_id) (\<lambda>record.
     and_then (gets clock) (\<lambda>now.
     and_then (auth_call (authorize_request_edit now ident (rq_requester_id record = id_user_id ident)
         (rq_status record = ReqPending))) (\<lambda>_.
     and_then (model_call (RequestUpdate title description department)) (\<lambda>_.
     and_then (db_call (update_editable_fields request_id expected_version title description department))
       (\<lambda>updated. pure (map_request_record_to_domain updated))))))"

definition withdraw_request :: "identity \<Rightarrow> uuid \<Rightarrow> int \<Rightarrow> ('z db_scheme, request) eff" where
  "withdraw_request ident request_id expected_version =
     and_then (fetch_request_of_company ident request_id) (\<lambda>record.
     and_then (gets clock) (\<lambda>now.
     and_then (auth_call (authorize_request_withdrawal now ident (rq_requester_id record = id_user_id ident)
         (rq_status record = ReqPending))) (\<lambda>_.
     and_then (db_call (soft_delete request_id expected_version (id_user_id ident))) (\<lambda>updated.
     and_then (db_call (record_event (audit_action_value REQUEST_WITHDRAWN) (Some (id_user_id ident))
         (Some request_id) None None)) (\<lambda>_.
       pure (map_request_record_to_domain updated))))))"

end
