(* ===== verification/DefinitionService.thy ===== *)
theory DefinitionService imports ApprovalService
begin

text \<open>
  \<open>app/services/workflow_definition_service.py\<close>: authoring, editing, deleting, activating and listing
  the workflow definitions of a company.
\<close>

definition validate_document :: "stage_definition list \<Rightarrow> ('z db_scheme, workflow_document) eff" where
  "validate_document document = model_call (WorkflowDefinitionDocument document)"

definition referenced_user_ids :: "workflow_document \<Rightarrow> uuid list" where
  "referenced_user_ids document =
     remdups (List.map_filter (\<lambda>st. if sd_strategy st = SpecificUser then sd_assigned_user_id st else None)
       (doc_stages document))"

definition validate_assignees :: "workflow_document \<Rightarrow> ('z db_scheme, unit) eff" where
  "validate_assignees document =
     (if referenced_user_ids document = [] then pure (validate_definition_assignees document {})
      else and_then (find_profiles_by_ids (referenced_user_ids document)) (\<lambda>found.
        engine_call (validate_definition_assignees document (set (map pr_id found)))))"

definition authorize_management :: "identity \<Rightarrow> ('z db_scheme, unit) eff" where
  "authorize_management ident =
     and_then (gets clock) (\<lambda>now. auth_call (authorize_workflow_definition_management now ident))"

definition create_definition ::
  "identity \<Rightarrow> string \<Rightarrow> stage_definition list \<Rightarrow> ('z db_scheme, workflow_definition) eff" where
  "create_definition ident request_type document =
     and_then (authorize_management ident) (\<lambda>_.
     and_then (validate_document document) (\<lambda>doc.
     and_then (validate_assignees doc) (\<lambda>_.
     and_then (db_call (list_definitions (id_company_id ident) (Some request_type) None (page_of_size 100)))
       (\<lambda>existing.
     let next_version = next_version_number (map df_version (res_items existing)) in
     and_then (db_call (create_definition_row request_type next_version (doc_stages doc) (id_user_id ident)
         (id_company_id ident))) (\<lambda>created.
       pure (map_workflow_definition_record_to_domain created))))))"

definition load_editable :: "identity \<Rightarrow> uuid \<Rightarrow> ('z db_scheme, definition_record) eff" where
  "load_editable ident definition_id =
     and_then (authorize_management ident) (\<lambda>_.
     and_then (lookup_call (get_definition_for_company definition_id (id_company_id ident))) (\<lambda>existing.
     and_then (pure (map_workflow_definition_record_to_domain existing)) (\<lambda>existing_domain.
     and_then (engine_call (validate_edit_allowed existing_domain)) (\<lambda>_.
       return existing))))"

definition update_draft ::
  "identity \<Rightarrow> uuid \<Rightarrow> stage_definition list \<Rightarrow> ('z db_scheme, workflow_definition) eff" where
  "update_draft ident definition_id document =
     and_then (load_editable ident definition_id) (\<lambda>existing.
     and_then (validate_document document) (\<lambda>doc.
     and_then (validate_assignees doc) (\<lambda>_.
     and_then (db_call (update_inactive_definition definition_id (df_row_version existing) (doc_stages doc)))
       (\<lambda>updated. pure (map_workflow_definition_record_to_domain updated)))))"

definition delete_draft :: "identity \<Rightarrow> uuid \<Rightarrow> ('z db_scheme, unit) eff" where
  "delete_draft ident definition_id =
     and_then (load_editable ident definition_id) (\<lambda>existing.
       db_call (delete_inactive_definition definition_id (id_company_id ident)))"

text \<open>The compensation that \<open>activate_version\<close> registers only writes a log line.\<close>

definition activation_body ::
  "identity \<Rightarrow> definition_record \<Rightarrow> definition_record option \<Rightarrow> ('z db_scheme, definition_record) saga" where
  "activation_body ident candidate currently_active =
     and_then (perform (db_call (activate_definition_row (df_id candidate) (df_request_type candidate)
         (df_row_version candidate) (id_company_id ident)))) (\<lambda>activated.
     and_then (register_compensation (return ())) (\<lambda>_.
     and_then (perform (db_call (record_event (audit_action_value WORKFLOW_DEFINITION_ACTIVATED)
         (Some (id_user_id ident)) None
         (Some [(''definition_id'', MetaId (df_id activated)),
                (''request_type'', MetaText (df_request_type activated)),
                (''version'', MetaInt (df_version activated)),
                (''previously_active_definition_id'', meta_id (map_option df_id currently_active))]) None)))
       (\<lambda>_. return activated)))"

definition activate_version :: "identity \<Rightarrow> uuid \<Rightarrow> ('z db_scheme, workflow_definition) eff" where
  "activate_version ident definition_id =
     and_then (authorize_management ident) (\<lambda>_.
     and_then (lookup_call (get_definition_for_company definition_id (id_company_id ident))) (\<lambda>candidate.
     and_then (find_active_for_request_type (df_request_type candidate) (id_company_id ident))
       (\<lambda>currently_active.
     and_then (pure (map_workflow_definition_record_to_domain candidate)) (\<lambda>candidate_domain.
     and_then (case currently_active of
         None \<Rightarrow> return None
       | Some record \<Rightarrow> and_then (pure (map_workflow_definition_record_to_domain record)) (\<lambda>d. return (Some d)))
       (\<lambda>currently_active_domain.
     and_then (engine_call (validate_activation candidate_domain currently_active_domain)) (\<lambda>_.
     and_then (transaction (activation_body ident candidate currently_active)) (\<lambda>activated.
       pure (map_workflow_definition_record_to_domain activated))))))))"

definition is_active_filter :: "identity \<Rightarrow> bool option" where
  "is_active_filter ident = (if id_role ident \<noteq> Admin then Some True else None)"

definition list_versions ::
  "identity \<Rightarrow> string \<Rightarrow> page \<Rightarrow> ('z db_scheme, workflow_definition paged_result) eff" where
  "list_versions ident request_type p =
     and_then (db_call (list_definitions (id_company_id ident) (Some request_type) (is_active_filter ident) p))
       (\<lambda>result. pure (map_page map_workflow_definition_record_to_domain result))"

definition search_definitions ::
  "identity \<Rightarrow> string \<Rightarrow> page \<Rightarrow> ('z db_scheme, workflow_definition paged_result) eff" where
  "search_definitions ident query_text p =
     and_then (db_call (search_definition_rows query_text (id_company_id ident) (is_active_filter ident) p))
       (\<lambda>result. pure (map_page map_workflow_definition_record_to_domain result))"

definition get_active_version :: "string \<Rightarrow> uuid \<Rightarrow> ('z db_scheme, workflow_definition) eff" where
  "get_active_version request_type company_id =
     and_then (find_active_for_request_type request_type company_id) (\<lambda>record.
       case record of
         None \<Rightarrow> throw (Service (NotFoundError ''workflow_definition (active)'' (ByName request_type)))
       | Some d \<Rightarrow> pure (map_workflow_definition_record_to_domain d))"

end
