(* ===== verification/Logic.thy ===== *)
theory Logic imports Store Saga
begin

text \<open>
  Reasoning about effectful code: triples with a postcondition for a normal and one for an exceptional
  end, read-only computations, and what the writes of \<open>BaseRepository\<close> do on a network that may refuse
  statements or lose requests but loses no responses (\<open>lossless\<close>).
\<close>

section \<open>Triples\<close>

definition triple :: "('s \<Rightarrow> bool) \<Rightarrow> ('s, 'a) eff \<Rightarrow> ('a \<Rightarrow> 's \<Rightarrow> bool) \<Rightarrow> (exn \<Rightarrow> 's \<Rightarrow> bool) \<Rightarrow> bool" where
  "triple P m Q E \<longleftrightarrow> (\<forall>s. P s \<longrightarrow> (case m s of (Inr x, t) \<Rightarrow> Q x t | (Inl e, t) \<Rightarrow> E e t))"

lemma tripleI:
  "(\<And>s x t. P s \<Longrightarrow> m s = (Inr x, t) \<Longrightarrow> Q x t) \<Longrightarrow> (\<And>s e t. P s \<Longrightarrow> m s = (Inl e, t) \<Longrightarrow> E e t) \<Longrightarrow>
   triple P m Q E"
  by (auto simp: triple_def split: prod.splits sum.splits)

lemma triple_InrD: "triple P m Q E \<Longrightarrow> P s \<Longrightarrow> m s = (Inr x, t) \<Longrightarrow> Q x t"
  by (auto simp: triple_def)

lemma triple_InlD: "triple P m Q E \<Longrightarrow> P s \<Longrightarrow> m s = (Inl e, t) \<Longrightarrow> E e t"
  by (auto simp: triple_def)

named_theorems triples \<open>rules for triples\<close>

lemma triple_and_then:
  "triple P m R E \<Longrightarrow> (\<And>x. triple (R x) (f x) Q E) \<Longrightarrow> triple P (and_then m f) Q E"
  by (fastforce simp: triple_def and_then_def split: prod.splits sum.splits)

lemma triple_weaken:
  "triple P m Q E \<Longrightarrow> (\<And>s. P' s \<Longrightarrow> P s) \<Longrightarrow> (\<And>x t. Q x t \<Longrightarrow> Q' x t) \<Longrightarrow> (\<And>e t. E e t \<Longrightarrow> E' e t) \<Longrightarrow>
   triple P' m Q' E'"
  by (fastforce simp: triple_def split: prod.splits sum.splits)

lemma triple_return: "(\<And>s. P s \<Longrightarrow> Q x s) \<Longrightarrow> triple P (return x) Q E"
  by (simp add: triple_def eff_simps)

lemma triple_throw: "(\<And>s. P s \<Longrightarrow> E e s) \<Longrightarrow> triple P (throw e) Q E"
  by (simp add: triple_def eff_simps)

lemma triple_assume: "(A \<Longrightarrow> triple P m Q E) \<Longrightarrow> triple (\<lambda>s. P s \<and> A) m Q E"
  by (auto simp: triple_def)

text \<open>
  Saga steps: the statement of a \<open>perform\<close> is looked at on the database alone, with the compensations
  registered so far fixed.
\<close>

lemma triple_perform:
  "(\<And>cs. triple (\<lambda>s. P (s, cs)) m (\<lambda>x t. Q x (t, cs)) (\<lambda>e t. E e (t, cs))) \<Longrightarrow>
   triple P (perform m) Q E"
  by (fastforce simp: triple_def perform_def split: prod.splits sum.splits)

lemma triple_register:
  "(\<And>s cs. P (s, cs) \<Longrightarrow> Q () (s, cs @ [c])) \<Longrightarrow> triple P (register_compensation c) Q E"
  by (simp add: triple_def register_compensation_def)

lemma triple_transaction:
  assumes "triple (\<lambda>w. P (fst w) \<and> snd w = []) body (\<lambda>x w. Q x (fst w))
    (\<lambda>e w. E e (run_compensations (rev (snd w)) (fst w)))"
  shows "triple P (transaction body) Q E"
proof (rule tripleI)
  fix s x t assume "P s" "transaction body s = (Inr x, t)"
  with triple_InrD [OF assms] show "Q x t" by (fastforce simp: transaction_Inr)
next
  fix s e t assume P: "P s" and m: "transaction body s = (Inl e, t)"
  obtain r w where b: "body (s, []) = (r, w)" by (cases "body (s, [])")
  with m have "r = Inl e" "t = run_compensations (rev (snd w)) (fst w)"
    by (auto simp: transaction_def split: sum.splits prod.splits)
  with triple_InlD [OF assms _ b [unfolded \<open>r = Inl e\<close>]] P show "E e t" by simp
qed

section \<open>Read-only computations\<close>

definition same_data :: "'z db_scheme \<Rightarrow> 'z db_scheme \<Rightarrow> bool" where
  "same_data s t \<longleftrightarrow> (\<exists>ds. t = s\<lparr>net := ds\<rparr> \<and> set ds \<subseteq> set (net s))"

definition lossless :: "'z db_scheme \<Rightarrow> bool" where
  "lossless s \<longleftrightarrow> ResponseLost \<notin> set (net s)"

definition read_only :: "('z db_scheme, 'a) eff \<Rightarrow> bool" where
  "read_only m \<longleftrightarrow> (\<forall>s. same_data s (snd (m s)))"

named_theorems reading \<open>read-only computations\<close>

lemma same_data_refl [simp]: "same_data s s"
  by (auto simp: same_data_def intro: exI [of _ "net s"])

lemma same_data_upd: "set ds \<subseteq> set (net s) \<Longrightarrow> same_data s (s\<lparr>net := ds\<rparr>)"
  by (auto simp: same_data_def)

lemma same_data_trans: "same_data s t \<Longrightarrow> same_data t u \<Longrightarrow> same_data s u"
  by (force simp: same_data_def)

lemma same_data_lossless: "same_data s t \<Longrightarrow> lossless s \<Longrightarrow> lossless t"
  by (auto simp: same_data_def lossless_def)

lemma read_onlyD: "read_only m \<Longrightarrow> m s = (r, t) \<Longrightarrow> same_data s t"
  by (metis read_only_def snd_conv)

lemma attempt_net: "net_free stmt \<Longrightarrow> (\<And>s. net (snd (stmt s)) = net s) \<Longrightarrow>
   set (net (snd (attempt stmt s))) \<subseteq> set (net s)"
  by (auto simp: attempt_def net_freeD split: list.splits delivery.splits)

lemma read_only_return [reading]: "read_only (return x)"
  by (simp add: read_only_def eff_simps)

lemma read_only_throw [reading]: "read_only (throw e)"
  by (simp add: read_only_def eff_simps)

lemma read_only_pure [reading]: "read_only (pure r)"
  by (simp add: read_only_def eff_simps)

lemma read_only_gets [reading]: "read_only (gets f)"
  by (simp add: read_only_def eff_simps)

lemma read_only_guard_that [reading]: "read_only (guard_that b e)"
  by (simp add: read_only_def eff_simps)

lemma read_only_and_then [reading]:
  "read_only m \<Longrightarrow> (\<And>x. read_only (f x)) \<Longrightarrow> read_only (and_then m f)"
  unfolding read_only_def
  by (fastforce simp: and_then_def split: prod.splits sum.splits intro: same_data_trans)

lemma read_only_handle [reading]:
  "read_only m \<Longrightarrow> (\<And>e. read_only (h e)) \<Longrightarrow> read_only (handle m h)"
  unfolding read_only_def
  by (fastforce simp: handle_def split: prod.splits sum.splits intro: same_data_trans)

lemma read_only_catching [reading]: "read_only m \<Longrightarrow> read_only (catching p tr m)"
  by (simp add: catching_def reading)

lemma read_only_calls [reading]:
  "read_only m \<Longrightarrow> read_only (db_call m)" "read_only m \<Longrightarrow> read_only (lookup_call m)"
  "read_only (engine_call r)" "read_only (auth_call r)" "read_only (model_call r)"
  by (simp_all add: call_defs reading)

lemma read_only_attempt: "read_only m \<Longrightarrow> read_only (attempt m)"
  unfolding read_only_def
proof (rule allI)
  fix s :: "'a db_scheme"
  assume m: "\<forall>s. same_data s (snd (m s))"
  show "same_data s (snd (attempt m s))"
  proof (cases "net s")
    case Nil
    with m show ?thesis by (simp add: attempt_def)
  next
    case (Cons d ds)
    then have 1: "same_data s (s\<lparr>net := ds\<rparr>)" by (auto simp: same_data_def)
    with m have "same_data s (snd (m (s\<lparr>net := ds\<rparr>)))" using same_data_trans by blast
    with 1 Cons show ?thesis by (cases d) (simp_all add: attempt_def)
  qed
qed

lemma read_only_retry_loop:
  "read_only m \<Longrightarrow> read_only (retry_loop p (\<lambda>_. return ()) fr m n left)"
proof (induction left arbitrary: n)
  case (Suc left)
  then show ?case by (auto intro!: reading)
qed (simp add: reading)

lemma read_only_execute [reading]: "read_only m \<Longrightarrow> read_only (execute op tbl m)"
  by (simp add: execute_def retry_call_def reading read_only_retry_loop read_only_attempt)

lemma read_only_get_by_id [reading]: "read_only (get_by_id T i)"
  by (auto simp: get_by_id_def select_stmt_def single_row_def split: list.splits intro!: reading)

lemma read_only_find_by_id [reading]: "read_only (find_by_id T i)"
  by (auto simp: find_by_id_def select_stmt_def intro!: reading)

lemma read_only_paginate [reading]: "read_only (paginate T q p)"
  by (auto simp: paginate_def intro!: reading)

lemma read_only_case_list [reading]:
  "read_only m \<Longrightarrow> (\<And>x xs. read_only (f x xs)) \<Longrightarrow> read_only (case l of [] \<Rightarrow> m | x # xs \<Rightarrow> f x xs)"
  by (simp split: list.splits)

lemma read_only_case_option [reading]:
  "read_only m \<Longrightarrow> (\<And>x. read_only (f x)) \<Longrightarrow> read_only (case opt of None \<Rightarrow> m | Some x \<Rightarrow> f x)"
  by (simp split: option.splits)

lemma read_only_if [reading]: "read_only m \<Longrightarrow> read_only m' \<Longrightarrow> read_only (if b then m else m')"
  by simp

lemma read_only_case_prod [reading]: "(\<And>x y. read_only (f x y)) \<Longrightarrow> read_only (case p of (x, y) \<Rightarrow> f x y)"
  by (simp split: prod.splits)

lemma triple_read_only:
  assumes "read_only m" "\<And>s t. P s \<Longrightarrow> same_data s t \<Longrightarrow> P t"
  shows "triple P m (\<lambda>_. P) (\<lambda>_. P)"
  using assms by (auto intro!: tripleI dest: read_onlyD)

section \<open>Writes without lost responses\<close>

text \<open>What all statements have in common: a refused statement changes nothing.\<close>

definition statement :: "('z db_scheme, 'a) eff \<Rightarrow> bool" where
  "statement stmt \<longleftrightarrow> net_free stmt \<and> (\<forall>s e. fst (stmt s) = Inl e \<longrightarrow> snd (stmt s) = s) \<and>
     (\<forall>s. net (snd (stmt s)) = net s)"

lemma statementI:
  "net_free stmt \<Longrightarrow> (\<And>s e t. stmt s = (Inl e, t) \<Longrightarrow> t = s) \<Longrightarrow> (\<And>s. net (snd (stmt s)) = net s) \<Longrightarrow>
   statement stmt"
  unfolding statement_def by (metis prod.collapse)

lemma statement_net_free: "statement stmt \<Longrightarrow> net_free stmt"
  by (simp add: statement_def)

lemma statement_error: "statement stmt \<Longrightarrow> fst (stmt s) = Inl e \<Longrightarrow> snd (stmt s) = s"
  by (auto simp: statement_def)

lemma statement_net: "statement stmt \<Longrightarrow> net (snd (stmt s)) = net s"
  by (simp add: statement_def)

lemma lossless_attempt:
  assumes "statement stmt" "lossless s"
  shows "\<exists>ds. set ds \<subseteq> set (net s) \<and>
    (case fst (attempt stmt s) of
       Inr x \<Rightarrow> fst (stmt s) = Inr x \<and> snd (attempt stmt s) = (snd (stmt s))\<lparr>net := ds\<rparr>
     | Inl e \<Rightarrow> snd (attempt stmt s) = s\<lparr>net := ds\<rparr>)"
proof (cases "net s")
  case Nil
  then have "attempt stmt s = stmt s" by (simp add: attempt_def)
  moreover have "(snd (stmt s))\<lparr>net := net s\<rparr> = snd (stmt s)"
    by (simp flip: statement_net [OF assms(1), of s])
  ultimately show ?thesis
    by (intro exI [of _ "net s"]) (auto simp: statement_error [OF assms(1)] split: sum.splits)
next
  case (Cons d ds)
  show ?thesis
  proof (cases d)
    case Delivered
    with Cons have a: "attempt stmt s = (fst (stmt s), (snd (stmt s))\<lparr>net := ds\<rparr>)"
      by (simp add: attempt_def net_freeD [OF statement_net_free [OF assms(1)]])
    with Cons show ?thesis
      by (intro exI [of _ ds]) (auto simp: statement_error [OF assms(1)] split: sum.splits)
  qed (use Cons assms(2) in \<open>auto simp: attempt_def lossless_def intro!: exI [of _ ds]\<close>)
qed

lemma lossless_retry_loop:
  assumes "statement stmt"
  shows "lossless s \<Longrightarrow> retry_loop p (\<lambda>_. return ()) fr (attempt stmt) n left s = (r, t) \<Longrightarrow>
    \<exists>ds. set ds \<subseteq> set (net s) \<and>
      (case r of Inr x \<Rightarrow> fst (stmt s) = Inr x \<and> t = (snd (stmt s))\<lparr>net := ds\<rparr> | Inl e \<Rightarrow> t = s\<lparr>net := ds\<rparr>)"
proof (induction left arbitrary: n s)
  case 0
  then show ?case by (auto simp: eff_simps intro: exI [of _ "net s"])
next
  case (Suc left)
  obtain ds where ds: "set ds \<subseteq> set (net s)"
    "case fst (attempt stmt s) of
       Inr x \<Rightarrow> fst (stmt s) = Inr x \<and> snd (attempt stmt s) = (snd (stmt s))\<lparr>net := ds\<rparr>
     | Inl e \<Rightarrow> snd (attempt stmt s) = s\<lparr>net := ds\<rparr>"
    using lossless_attempt [OF assms Suc.prems(1)] by blast
  show ?case
  proof (cases "attempt stmt s")
    case (Pair r1 t1)
    show ?thesis
    proof (cases r1)
      case (Inr x)
      with Pair Suc.prems(2) ds show ?thesis by (auto simp: handle_def)
    next
      case (Inl e)
      with Pair ds have t1: "t1 = s\<lparr>net := ds\<rparr>" by simp
      show ?thesis
      proof (cases "rp_retryable p e \<and> left \<noteq> 0")
        case True
        with Pair Inl Suc.prems(2) have
          "retry_loop p (\<lambda>_. return ()) fr (attempt stmt) (Suc n) left t1 = (r, t)"
          by (simp add: handle_def)
        moreover have "lossless t1" using Suc.prems(1) ds(1) t1 by (auto simp: lossless_def)
        ultimately obtain ds' where "set ds' \<subseteq> set (net t1)"
          "case r of Inr x \<Rightarrow> fst (stmt t1) = Inr x \<and> t = (snd (stmt t1))\<lparr>net := ds'\<rparr> | Inl e \<Rightarrow> t = t1\<lparr>net := ds'\<rparr>"
          using Suc.IH by blast
        then show ?thesis using t1 ds(1)
          by (intro exI [of _ ds']) (auto simp: net_freeD [OF statement_net_free [OF assms(1)]] split: sum.splits)
      next
        case False
        with Pair Inl Suc.prems(2) have "t = t1" "\<exists>e'. r = Inl e'"
          by (auto simp: handle_def eff_simps split: if_splits)
        with t1 ds(1) show ?thesis by auto
      qed
    qed
  qed
qed

lemma lossless_execute:
  assumes "statement stmt" and "lossless s" "execute op tbl stmt s = (r, t)"
  shows "case r of
      Inr x \<Rightarrow> \<exists>ds. set ds \<subseteq> set (net s) \<and> fst (stmt s) = Inr x \<and> t = (snd (stmt s))\<lparr>net := ds\<rparr>
    | Inl e \<Rightarrow> same_data s t"
proof -
  obtain r1 where 1: "retry_loop TRANSIENT_RETRY_POLICY (\<lambda>_. return ()) (\<lambda>_. 0) (attempt stmt) 1 3 s = (r1, t)"
    and 2: "(\<exists>x. r1 = Inr x \<and> r = Inr x) \<or> (\<exists>e e'. r1 = Inl e \<and> r = Inl e')"
    using assms(3)
    by (auto simp: execute_def retry_call_def TRANSIENT_RETRY_POLICY_def handle_def eff_simps
        split: prod.splits sum.splits)
  obtain ds where "set ds \<subseteq> set (net s)"
    "case r1 of Inr x \<Rightarrow> fst (stmt s) = Inr x \<and> t = (snd (stmt s))\<lparr>net := ds\<rparr> | Inl e \<Rightarrow> t = s\<lparr>net := ds\<rparr>"
    using lossless_retry_loop [OF assms(1,2) 1] by blast
  with 2 show ?thesis unfolding same_data_def
    by (elim disjE exE conjE) (simp, blast)+
qed

context table_store
begin

lemma update_statement: "statement (update_stmt T p f)"
proof (rule statementI [OF update_net_free])
  show "net (snd (update_stmt T p f s)) = net s" for s
    by (auto simp: update_stmt_def Let_def laws split: option.splits)
qed (rule update_stmt_error)

lemma insert_statement: "statement (insert_stmt T mk)"
proof (rule statementI [OF insert_net_free])
  show "insert_stmt T mk s = (Inl e, t) \<Longrightarrow> t = s" for s e t
    by (auto simp: insert_stmt_def Let_def split: option.splits)
  show "net (snd (insert_stmt T mk s)) = net s" for s
    by (auto simp: insert_stmt_def Let_def laws split: option.splits)
qed

lemma delete_statement:
  "(\<And>s ds. referenced (s\<lparr>net := ds\<rparr>) = referenced s) \<Longrightarrow> statement (delete_stmt T p referenced)"
  by (rule statementI [OF delete_net_free]) (auto simp: delete_stmt_def laws split: if_splits)

lemma update_lossless:
  assumes "lossless s" "execute op tbl (update_stmt T p f) s = (r, t)"
  shows "case r of
      Inr rs \<Rightarrow> \<exists>ds. set ds \<subseteq> set (net s) \<and> rs = map (\<lambda>r. tb_touch T (clock s) (f r)) (filter p (tb_rows T s)) \<and>
        t = (tb_set_rows T (map (\<lambda>r. if p r then tb_touch T (clock s) (f r) else r) (tb_rows T s)) s)\<lparr>net := ds\<rparr>
    | Inl e \<Rightarrow> same_data s t"
proof -
  note res = lossless_execute [OF update_statement assms]
  show ?thesis
  proof (cases r)
    case (Inr rs)
    with res obtain ds where ds: "set ds \<subseteq> set (net s)" "fst (update_stmt T p f s) = Inr rs"
      "t = (snd (update_stmt T p f s))\<lparr>net := ds\<rparr>" by auto
    from ds(2) have "update_stmt T p f s = (Inr rs, snd (update_stmt T p f s))" by (metis prod.collapse)
    from update_stmt_rows [OF this] ds show ?thesis unfolding Inr by simp blast
  qed (use res in simp)
qed

lemma insert_lossless:
  assumes "lossless s" "insert_row T mk s = (r, t)"
  shows "case r of
      Inr x \<Rightarrow> \<exists>ds. set ds \<subseteq> set (net s) \<and> x = mk (next_uuid s) (clock s) \<and> tb_check T s x = None \<and>
        t = (tb_set_rows T (tb_rows T s @ [x]) s)\<lparr>next_uuid := Suc (next_uuid s), net := ds\<rparr>
    | Inl e \<Rightarrow> same_data s t"
proof -
  obtain r1 where ex: "execute ''insert'' (tb_name T) (insert_stmt T mk) s = (r1, t)"
    and r1: "case r1 of Inl e \<Rightarrow> r = Inl e | Inr rows \<Rightarrow> (case rows of [] \<Rightarrow> \<exists>e. r = Inl e | x # _ \<Rightarrow> r = Inr x)"
    using assms(2)
    by (auto simp: insert_row_def and_then_def single_row_def eff_simps split: sum.splits list.splits prod.splits)
  have res: "case r1 of
      Inr x \<Rightarrow> \<exists>ds. set ds \<subseteq> set (net s) \<and> fst (insert_stmt T mk s) = Inr x \<and> t = (snd (insert_stmt T mk s))\<lparr>net := ds\<rparr>
    | Inl e \<Rightarrow> same_data s t"
    by (rule lossless_execute [OF insert_statement assms(1) ex])
  show ?thesis
  proof (cases r1)
    case (Inl e)
    with res r1 show ?thesis by simp
  next
    case (Inr rows)
    with res obtain ds where ds: "set ds \<subseteq> set (net s)" "fst (insert_stmt T mk s) = Inr rows"
      "t = (snd (insert_stmt T mk s))\<lparr>net := ds\<rparr>" by auto
    then have "tb_check T s (mk (next_uuid s) (clock s)) = None" "rows = [mk (next_uuid s) (clock s)]"
      "snd (insert_stmt T mk s) =
        (tb_set_rows T (tb_rows T s @ [mk (next_uuid s) (clock s)]) s)\<lparr>next_uuid := Suc (next_uuid s)\<rparr>"
      by (auto simp: insert_stmt_def Let_def split: option.splits)
    with ds(1,3) Inr r1 show ?thesis by auto
  qed
qed

end

context versioned_store
begin

lemma locked_lossless:
  assumes "lossless s" "update_with_optimistic_lock T i v f s = (r, t)"
  shows "case r of
      Inr x \<Rightarrow> \<exists>ds r0 rest. set ds \<subseteq> set (net s) \<and> filter (locked T i v) (tb_rows T s) = r0 # rest \<and>
        x = written T v f (clock s) r0 \<and>
        t = (tb_set_rows T (map (\<lambda>x. if locked T i v x then written T v f (clock s) x else x) (tb_rows T s)) s)\<lparr>net := ds\<rparr>
    | Inl e \<Rightarrow> same_data s t"
proof -
  let ?U = "update_stmt T (locked T i v) (\<lambda>r. tb_set_version T (v + 1) (f r))"
  obtain r1 where ex: "execute ''update_with_optimistic_lock'' (tb_name T) ?U s = (r1, t)"
    and r1: "case r1 of Inl e \<Rightarrow> r = Inl e | Inr rows \<Rightarrow> (case rows of [] \<Rightarrow> \<exists>e. r = Inl e | x # _ \<Rightarrow> r = Inr x)"
    using assms(2)
    by (auto simp: update_locked and_then_def eff_simps split: sum.splits list.splits prod.splits)
  note res = update_lossless [OF assms(1) ex]
  show ?thesis
  proof (cases r1)
    case (Inl e)
    with res r1 show ?thesis by simp
  next
    case (Inr rows)
    with res obtain ds where ds: "set ds \<subseteq> set (net s)"
      "rows = map (written T v f (clock s)) (filter (locked T i v) (tb_rows T s))"
      "t = (tb_set_rows T (map (\<lambda>x. if locked T i v x then written T v f (clock s) x else x) (tb_rows T s)) s)\<lparr>net := ds\<rparr>"
      by (auto simp: written_def [abs_def] cong: if_cong)
    show ?thesis
    proof (cases "filter (locked T i v) (tb_rows T s)")
      case Nil
      then have "map (\<lambda>x. if locked T i v x then written T v f (clock s) x else x) (tb_rows T s) = tb_rows T s"
        by (auto simp: filter_empty_conv intro: map_idI)
      with ds have "same_data s t" by (auto simp: set_same same_data_def)
      with Nil ds(2) Inr r1 show ?thesis by auto
    next
      case (Cons r0 rest)
      with ds Inr r1 show ?thesis by auto
    qed
  qed
qed

text \<open>The same with one row of the id: the row is replaced, by key.\<close>

lemma locked_unique:
  assumes "lossless s" "update_with_optimistic_lock T i v f s = (r, t)"
    and "filter (\<lambda>r. tb_id T r = i) (tb_rows T s) = [r0]"
  shows "case r of
      Inr x \<Rightarrow> \<exists>ds. set ds \<subseteq> set (net s) \<and> tb_version T r0 = v \<and> x = written T v f (clock s) r0 \<and>
        t = (tb_set_rows T (map (\<lambda>y. if tb_id T y = i then x else y) (tb_rows T s)) s)\<lparr>net := ds\<rparr>
    | Inl e \<Rightarrow> same_data s t"
proof (cases r)
  case (Inl e)
  with locked_lossless [OF assms(1,2)] show ?thesis by simp
next
  case (Inr x)
  with locked_lossless [OF assms(1,2)] obtain ds r1 rest where u: "set ds \<subseteq> set (net s)"
    "filter (locked T i v) (tb_rows T s) = r1 # rest" "x = written T v f (clock s) r1"
    "t = (tb_set_rows T (map (\<lambda>x. if locked T i v x then written T v f (clock s) x else x) (tb_rows T s)) s)\<lparr>net := ds\<rparr>"
    by auto
  have only: "y = r0" if "y \<in> set (tb_rows T s)" "tb_id T y = i" for y
  proof -
    from that have "y \<in> set (filter (\<lambda>r. tb_id T r = i) (tb_rows T s))" by simp
    then show ?thesis by (simp add: assms(3))
  qed
  have "r1 \<in> set (filter (locked T i v) (tb_rows T s))" using u(2) by simp
  then have r1: "r1 = r0" "tb_version T r0 = v" using only by (auto simp: locked_def)
  have "map (\<lambda>x. if locked T i v x then written T v f (clock s) x else x) (tb_rows T s) =
      map (\<lambda>y. if tb_id T y = i then x else y) (tb_rows T s)"
    using only r1 u(3) by (auto simp: locked_def)
  with u r1 Inr show ?thesis by auto
qed

end

section \<open>A quiet network stays quiet\<close>

definition quiet :: "'z db_scheme \<Rightarrow> bool" where
  "quiet s \<longleftrightarrow> net s = []"

lemma quiet_lossless: "quiet s \<Longrightarrow> lossless s"
  by (simp add: quiet_def lossless_def)

lemma quiet_execute: "statement stmt \<Longrightarrow> preserves quiet (execute op tbl stmt)"
proof -
  assume st: "statement stmt"
  have "preserves quiet (attempt stmt)"
    by (simp add: preserves_def quiet_def attempt_def statement_net [OF st])
  then show ?thesis
    by (auto simp: execute_def retry_call_def intro!: preserves_handle preserves_retry_loop preserves_return
        preserves_throw)
qed

lemma quiet_same_data: "same_data s t \<Longrightarrow> quiet s \<Longrightarrow> quiet t"
  by (auto simp: same_data_def quiet_def)

lemma quiet_read_only: "read_only m \<Longrightarrow> preserves quiet m"
  unfolding preserves_def read_only_def using quiet_same_data by blast

context table_store
begin

lemma quiet_insert_row: "preserves quiet (insert_row T mk)"
  unfolding insert_row_def single_row_def by (intro pres_flow quiet_execute insert_statement)

lemma quiet_update: "preserves quiet (execute op tbl (update_stmt T p f))"
  by (intro quiet_execute update_statement)

end

context versioned_store
begin

lemma quiet_locked: "preserves quiet (update_with_optimistic_lock T i v f)"
  unfolding update_locked by (intro pres_flow quiet_update)

end

lemma quiet_same: "quiet s \<Longrightarrow> same_data s t \<longleftrightarrow> t = s"
  by (auto simp: quiet_def same_data_def intro: exI [of _ "[]"])

end
