(* ===== verification/WellFormed.thy ===== *)
theory WellFormed imports Logic ApprovalService
begin

text \<open>
  The row-level view of the writes (replace a row by key, append a row), the well-formedness of the
  requests and stages tables, and what each compensation of the approval service restores.
\<close>

section \<open>Replacing and appending rows\<close>

definition put_row :: "('s, 'r) table \<Rightarrow> 'r \<Rightarrow> 's \<Rightarrow> 's" where
  "put_row T r s = tb_set_rows T (map (\<lambda>y. if tb_id T y = tb_id T r then r else y) (tb_rows T s)) s"

definition add_row :: "('s, 'r) table \<Rightarrow> 'r \<Rightarrow> 's \<Rightarrow> 's" where
  "add_row T r s = tb_set_rows T (tb_rows T s @ [r]) s"

definition only_row :: "('s, 'r) table \<Rightarrow> 'r \<Rightarrow> 's \<Rightarrow> bool" where
  "only_row T r s \<longleftrightarrow> filter (\<lambda>y. tb_id T y = tb_id T r) (tb_rows T s) = [r]"

lemma distinct_only_row:
  assumes "distinct (map (tb_id T) (tb_rows T s))" "r \<in> set (tb_rows T s)"
  shows "only_row T r s"
proof -
  obtain xs ys where "tb_rows T s = xs @ r # ys" using assms(2) by (meson split_list)
  with assms(1) have "tb_id T r \<notin> tb_id T ` set xs" "tb_id T r \<notin> tb_id T ` set ys" by simp_all
  then have "filter (\<lambda>y. tb_id T y = tb_id T r) xs = []" "filter (\<lambda>y. tb_id T y = tb_id T r) ys = []"
    unfolding filter_empty_conv by (metis imageI)+
  with \<open>tb_rows T s = xs @ r # ys\<close> show ?thesis by (simp add: only_row_def)
qed

lemma only_row_in: "only_row T r s \<Longrightarrow> r \<in> set (tb_rows T s)"
  unfolding only_row_def by (drule filter_eq_ConsD) auto

lemma only_row_unique: "only_row T r s \<Longrightarrow> y \<in> set (tb_rows T s) \<Longrightarrow> tb_id T y = tb_id T r \<Longrightarrow> y = r"
proof -
  assume o: "only_row T r s" and "y \<in> set (tb_rows T s)" "tb_id T y = tb_id T r"
  then have "y \<in> set (filter (\<lambda>y. tb_id T y = tb_id T r) (tb_rows T s))" by simp
  with o show "y = r" by (simp add: only_row_def)
qed

context table_store
begin

lemma rows_put: "tb_rows T (put_row T r s) = map (\<lambda>y. if tb_id T y = tb_id T r then r else y) (tb_rows T s)"
  by (simp add: put_row_def rows_set)

lemma put_put: "tb_id T r' = tb_id T r \<Longrightarrow> put_row T r' (put_row T r s) = put_row T r' s"
  by (simp add: put_row_def rows_set set_set cong: map_cong) (rule arg_cong [of _ _ "\<lambda>x. tb_set_rows T x s"], simp)

lemma put_same: "only_row T r s \<Longrightarrow> put_row T r s = s"
proof -
  assume o: "only_row T r s"
  have "map (\<lambda>y. if tb_id T y = tb_id T r then r else y) (tb_rows T s) = tb_rows T s"
    by (rule map_idI) (auto dest: only_row_unique [OF o])
  then show ?thesis by (simp add: put_row_def set_same)
qed

lemma only_put:
  assumes "only_row T r0 s" "tb_id T r = tb_id T r0"
  shows "only_row T r (put_row T r s)"
proof -
  have "filter (\<lambda>y. tb_id T y = tb_id T r) (map (\<lambda>y. if tb_id T y = tb_id T r then r else y) (tb_rows T s)) =
    map (\<lambda>y. r) (filter (\<lambda>y. tb_id T y = tb_id T r) (tb_rows T s))"
    by (induction "tb_rows T s") (auto simp: filter_map comp_def cong: map_cong filter_cong)
  with assms show ?thesis by (simp add: only_row_def rows_put)
qed

lemma put_net: "put_row T r (s\<lparr>net := ds\<rparr>) = (put_row T r s)\<lparr>net := ds\<rparr>"
  by (simp add: put_row_def laws)

lemma only_net: "only_row T r (s\<lparr>net := ds\<rparr>) = only_row T r s"
  by (simp add: only_row_def laws)

end

context versioned_store
begin

lemma locked_put:
  assumes "lossless s" "update_with_optimistic_lock T (tb_id T r0) v f s = (r, t)" "only_row T r0 s"
    and "\<And>x. tb_id T (f x) = tb_id T x"
  shows "case r of
      Inr x \<Rightarrow> tb_version T r0 = v \<and> x = written T v f (clock s) r0 \<and>
        (\<exists>ds. set ds \<subseteq> set (net s) \<and> t = (put_row T x s)\<lparr>net := ds\<rparr>)
    | Inl e \<Rightarrow> same_data s t"
  using locked_unique [OF assms(1,2)] assms(3) written_id [OF assms(4)]
  by (auto simp: only_row_def put_row_def split: sum.splits)

lemma delivered_put:
  assumes "net s = []" "only_row T r s" "\<And>x. tb_id T (f x) = tb_id T x"
    and "tb_check T s (written T (tb_version T r) f (clock s) r) = None"
  shows "update_with_optimistic_lock T (tb_id T r) (tb_version T r) f s =
    (Inr (written T (tb_version T r) f (clock s) r), put_row T (written T (tb_version T r) f (clock s) r) s)"
proof -
  let ?w = "written T (tb_version T r) f (clock s)"
  have "filter (locked T (tb_id T r) (tb_version T r)) (tb_rows T s) =
      filter (\<lambda>y. tb_version T y = tb_version T r) (filter (\<lambda>y. tb_id T y = tb_id T r) (tb_rows T s))"
    by (simp add: locked_def [abs_def] conj_commute)
  then have l: "filter (locked T (tb_id T r) (tb_version T r)) (tb_rows T s) = [r]"
    using assms(2) by (simp only: only_row_def) simp
  have "map (\<lambda>x. if locked T (tb_id T r) (tb_version T r) x then ?w x else x) (tb_rows T s) =
      map (\<lambda>y. if tb_id T y = tb_id T r then ?w r else y) (tb_rows T s)"
    by (rule map_cong [OF refl]) (use only_row_unique [OF assms(2)] in \<open>auto simp: locked_def\<close>)
  with update_delivered [OF assms(1) l assms(4)] show ?thesis
    by (simp add: put_row_def written_id [OF assms(3)])
qed

end

lemmas stage_locked_put = stages.locked_put [simplified]
lemmas stage_delivered_put = stages.delivered_put [simplified]
lemmas request_locked_put = requests.locked_put [simplified]
lemmas request_delivered_put = requests.delivered_put [simplified]

lemma put_other_tables [simp]:
  "t_requests (put_row stage_table st s) = t_requests s" "t_stages (put_row request_table r s) = t_stages s"
  "t_profiles (put_row stage_table st s) = t_profiles s" "t_profiles (put_row request_table r s) = t_profiles s"
  "t_definitions (put_row stage_table st s) = t_definitions s"
  "t_definitions (put_row request_table r s) = t_definitions s"
  "t_audit (put_row stage_table st s) = t_audit s" "t_audit (put_row request_table r s) = t_audit s"
  "next_uuid (put_row stage_table st s) = next_uuid s" "next_uuid (put_row request_table r s) = next_uuid s"
  "clock (put_row stage_table st s) = clock s" "clock (put_row request_table r s) = clock s"
  "net (put_row stage_table st s) = net s" "net (put_row request_table r s) = net s"
  by (simp_all add: put_row_def)

lemma put_stage_rows [simp]:
  "t_stages (put_row stage_table st s) = map (\<lambda>y. if st_id y = st_id st then st else y) (t_stages s)"
  "t_requests (put_row request_table r s) = map (\<lambda>y. if rq_id y = rq_id r then r else y) (t_requests s)"
  by (simp_all add: put_row_def)

section \<open>Well-formed tables\<close>

definition undecided :: "stage_record \<Rightarrow> bool" where
  "undecided st \<longleftrightarrow> st_decided_by st = None \<and> st_decided_at st = None \<and> st_decision_note st = None"

definition wf_db :: "'z db_scheme \<Rightarrow> bool" where
  "wf_db s \<longleftrightarrow>
     distinct (map st_id (t_stages s)) \<and> distinct (map rq_id (t_requests s)) \<and>
     (\<forall>st\<in>set (t_stages s). st_id st < next_uuid s \<and> check_stage s st = None \<and>
        (st_status st = StagePending \<longrightarrow> undecided st)) \<and>
     (\<forall>r\<in>set (t_requests s). rq_id r < next_uuid s \<and> check_request s r = None)"

lemma first_violation_None: "first_violation cs = None \<longleftrightarrow> list_all fst cs"
  by (induction cs rule: first_violation.induct) auto

lemma exists_iff:
  "profile_exists s i \<longleftrightarrow> i \<in> pr_id ` set (t_profiles s)" "request_exists s i \<longleftrightarrow> i \<in> rq_id ` set (t_requests s)"
  "stage_exists s i \<longleftrightarrow> i \<in> st_id ` set (t_stages s)" "definition_exists s i \<longleftrightarrow> i \<in> df_id ` set (t_definitions s)"
  by (auto simp: profile_exists_def request_exists_def stage_exists_def definition_exists_def list_ex_iff)

lemma opt_ok_iff: "opt_ok p x \<longleftrightarrow> (\<forall>y. x = Some y \<longrightarrow> p y)"
  by (cases x) auto

text \<open>What the two checks look at.\<close>

lemma check_stage_None:
  "check_stage s t = None \<longleftrightarrow> 0 < st_stage_order t \<and> 0 < st_version t \<and>
     (\<forall>n. st_decision_note t = Some n \<longrightarrow> length n \<le> 1000) \<and>
     (\<forall>x\<in>set (t_stages s). st_id x \<noteq> st_id t \<longrightarrow> st_request_id x = st_request_id t \<longrightarrow>
        st_stage_order x \<noteq> st_stage_order t) \<and>
     st_request_id t \<in> rq_id ` set (t_requests s) \<and>
     (\<forall>p. st_assigned_to t = Some p \<longrightarrow> p \<in> pr_id ` set (t_profiles s)) \<and>
     (\<forall>p. st_decided_by t = Some p \<longrightarrow> p \<in> pr_id ` set (t_profiles s))"
  by (auto simp: check_stage_def first_violation_None opt_ok_iff exists_iff list_ex_iff)

lemma check_request_None:
  "check_request s r = None \<longleftrightarrow> 1 \<le> length (rq_title r) \<and> length (rq_title r) \<le> 200 \<and>
     (\<forall>d. rq_description r = Some d \<longrightarrow> length d \<le> 5000) \<and> 0 < rq_version r \<and>
     rq_requester_id r \<in> pr_id ` set (t_profiles s) \<and>
     rq_workflow_definition_id r \<in> df_id ` set (t_definitions s) \<and>
     (\<forall>i. rq_current_stage_id r = Some i \<longrightarrow> i \<in> st_id ` set (t_stages s)) \<and>
     (\<forall>i. rq_deleted_by r = Some i \<longrightarrow> i \<in> pr_id ` set (t_profiles s))"
  by (auto simp: check_request_def first_violation_None opt_ok_iff exists_iff)

lemma wf_stageD:
  "wf_db s \<Longrightarrow> st \<in> set (t_stages s) \<Longrightarrow>
   only_row stage_table st s \<and> st_id st < next_uuid s \<and> check_stage s st = None \<and>
   (st_status st = StagePending \<longrightarrow> undecided st)"
  by (simp add: wf_db_def distinct_only_row)

lemma wf_requestD:
  "wf_db s \<Longrightarrow> r \<in> set (t_requests s) \<Longrightarrow>
   only_row request_table r s \<and> rq_id r < next_uuid s \<and> check_request s r = None"
  by (simp add: wf_db_def distinct_only_row)

lemma wf_net [simp]: "wf_db (s\<lparr>net := ds\<rparr>) = wf_db s"
  by (simp add: wf_db_def check_stage_None check_request_None)

lemma put_ids:
  "map st_id (t_stages (put_row stage_table st s)) = map st_id (t_stages s)"
  "map rq_id (t_requests (put_row request_table r s)) = map rq_id (t_requests s)"
  by (auto simp: comp_def intro!: map_cong)

end
