(* ===== verification/Decisions.thy ===== *)
theory Decisions imports WellFormed
begin

text \<open>
  What a decision does to the tables, as a function of the rows it starts from (\<open>decision_result\<close>), and
  the proof that \<open>decision_body\<close> implements it: when it returns, that is the state it leaves; when it
  raises, the compensations it has registered restore the tables up to row versions.
\<close>

section \<open>The rows a decision writes\<close>

definition decided_row :: "stage_status \<Rightarrow> uuid \<Rightarrow> string option \<Rightarrow> timestamp \<Rightarrow> stage_record \<Rightarrow> stage_record" where
  "decided_row status user note now st = st\<lparr>st_status := status, st_decided_by := Some user,
     st_decided_at := Some now, st_decision_note := note, st_version := st_version st + 1\<rparr>"

definition advanced_row ::
  "uuid option \<Rightarrow> request_status \<Rightarrow> timestamp option \<Rightarrow> timestamp \<Rightarrow> request_record \<Rightarrow> request_record" where
  "advanced_row current status completed now r = r\<lparr>rq_current_stage_id := current, rq_status := status,
     rq_completed_at := completed, rq_version := rq_version r + 1, rq_updated_at := now\<rparr>"

definition new_stage_row :: "uuid \<Rightarrow> timestamp \<Rightarrow> uuid \<Rightarrow> uuid \<Rightarrow> stage_plan \<Rightarrow> stage_record" where
  "new_stage_row new_id now request_id company_id plan =
     \<lparr>st_id = new_id, st_request_id = request_id, st_stage_order = sp_stage_order plan,
      st_stage_name = sp_stage_name plan, st_assigned_role = sp_assigned_role plan,
      st_assigned_to = sp_assigned_to plan, st_status = StagePending, st_decided_by = None,
      st_decided_at = None, st_decision_note = None, st_version = 1, st_created_at = now,
      st_company_id = company_id\<rparr>"

definition decision_audit_row ::
  "uuid \<Rightarrow> timestamp \<Rightarrow> audit_action \<Rightarrow> uuid \<Rightarrow> stage_record \<Rightarrow> string option \<Rightarrow> audit_record" where
  "decision_audit_row new_id now action user st note =
     \<lparr>au_id = new_id, au_actor_id = Some user, au_request_id = Some (st_request_id st),
      au_action = audit_action_value action,
      au_metadata = Some [(''stage_id'', MetaId (st_id st)), (''decision_note'', meta_text note)],
      au_created_at = now, au_company_id = None\<rparr>"

definition log_decision ::
  "audit_action \<Rightarrow> uuid \<Rightarrow> stage_record \<Rightarrow> string option \<Rightarrow> 'z db_scheme \<Rightarrow> 'z db_scheme" where
  "log_decision action user st note s =
     (add_row audit_table (decision_audit_row (next_uuid s) (clock s) action user st note) s)
       \<lparr>next_uuid := Suc (next_uuid s)\<rparr>"

definition open_stage_state :: "request_record \<Rightarrow> stage_plan \<Rightarrow> 'z db_scheme \<Rightarrow> 'z db_scheme" where
  "open_stage_state rq plan s =
     (add_row stage_table (new_stage_row (next_uuid s) (clock s) (rq_id rq) (rq_company_id rq) plan) s)
       \<lparr>next_uuid := Suc (next_uuid s)\<rparr>"

text \<open>
  The whole decision: the stage decided; the request rejected, completed (no stage follows), or moved
  to the newly opened next stage; one audit entry.
\<close>

definition decision_result ::
  "stage_status \<Rightarrow> uuid \<Rightarrow> string option \<Rightarrow> stage_record \<Rightarrow> request_record \<Rightarrow> stage_plan option \<Rightarrow>
   'z db_scheme \<Rightarrow> 'z db_scheme" where
  "decision_result target user note st rq plan s =
     (let s1 = put_row stage_table (decided_row target user note (clock s) st) s in
      if target = StageApproved then
        log_decision STAGE_APPROVED user st note
          (case plan of
             None \<Rightarrow> put_row request_table (advanced_row None ReqCompleted (Some (clock s)) (clock s) rq) s1
           | Some p \<Rightarrow> put_row request_table
               (advanced_row (Some (next_uuid s)) ReqInReview None (clock s) rq) (open_stage_state rq p s1))
      else
        log_decision STAGE_REJECTED user st note
          (put_row request_table (advanced_row None ReqRejected (Some (clock s)) (clock s) rq) s1))"

definition decision_summary :: "stage_status \<Rightarrow> stage_plan option \<Rightarrow> uuid \<Rightarrow> decision_advancement" where
  "decision_summary target plan new_id =
     (if target = StageApproved then
        (case plan of
           None \<Rightarrow> \<lparr>da_request_status = ReqCompleted, da_new_stage_id = None, da_notify_recipient_id = None,
                   da_audit_action = STAGE_APPROVED\<rparr>
         | Some p \<Rightarrow> \<lparr>da_request_status = ReqInReview, da_new_stage_id = Some new_id,
                     da_notify_recipient_id = sp_assigned_to p, da_audit_action = STAGE_APPROVED\<rparr>)
      else \<lparr>da_request_status = ReqRejected, da_new_stage_id = None, da_notify_recipient_id = None,
            da_audit_action = STAGE_REJECTED\<rparr>)"

text \<open>The tables after a rollback: only versions, the touch time, and the id supply have moved.\<close>

definition restored :: "stage_record \<Rightarrow> request_record \<Rightarrow> 'z db_scheme \<Rightarrow> 'z db_scheme \<Rightarrow> bool" where
  "restored st rq s t \<longleftrightarrow> (\<exists>v w u n ds.
     t = (put_row request_table (rq\<lparr>rq_version := v, rq_updated_at := u\<rparr>)
            (put_row stage_table (st\<lparr>st_version := w\<rparr>) s))\<lparr>next_uuid := n, net := ds\<rparr>)"

section \<open>The statements of the decision\<close>

lemma db_call_Inl: "db_call m s = (Inl e, t) \<Longrightarrow> \<exists>e'. m s = (Inl e', t)"
  by (auto simp: db_call_def catching_apply split: prod.splits sum.splits)

definition decision_write ::
  "stage_status \<Rightarrow> uuid \<Rightarrow> int \<Rightarrow> uuid \<Rightarrow> string option \<Rightarrow> ('z db_scheme, stage_record) eff" where
  "decision_write target stage_id v user note =
     (if target = StageApproved then approve_stage stage_id v user note
      else reject_stage stage_id v user (case note of None \<Rightarrow> [] | Some n \<Rightarrow> n))"

lemma decision_write_put:
  assumes "lossless s" "only_row stage_table st s" "target = StageApproved \<or> target = StageRejected"
    and "decision_write target (st_id st) v user note s = (r, t)"
  shows "case r of
      Inr x \<Rightarrow> st_version st = v \<and> x = decided_row target user note (clock s) st \<and>
        (target = StageRejected \<longrightarrow> (\<exists>n. note = Some n \<and> strip n \<noteq> [])) \<and>
        (\<exists>ds. set ds \<subseteq> set (net s) \<and> t = (put_row stage_table x s)\<lparr>net := ds\<rparr>)
    | Inl e \<Rightarrow> same_data s t"
proof (cases "target = StageApproved")
  case True
  have "update_with_optimistic_lock stage_table (st_id st) v
      (\<lambda>x. x\<lparr>st_status := StageApproved, st_decided_by := Some user, st_decided_at := Some (clock s),
            st_decision_note := note\<rparr>) s = (r, t)"
    using assms(4) True by (simp add: decision_write_def approve_stage_def and_then_def eff_simps)
  from stage_locked_put [OF assms(1) this assms(2)] True show ?thesis
    by (auto simp: decided_row_def split: sum.splits)
next
  case False
  then have target: "target = StageRejected" using assms(3) by simp
  define n where "n = (case note of None \<Rightarrow> [] | Some n \<Rightarrow> n)"
  show ?thesis
  proof (cases "strip n = []")
    case True
    then have "r = Inl (invalid_query ''reject_stage'')" "t = s"
      using assms(4) target by (auto simp: decision_write_def reject_stage_def n_def eff_simps)
    then show ?thesis by simp
  next
    case strip: False
    then have given: "note = Some n" by (cases "note") (auto simp: n_def)
    have "update_with_optimistic_lock stage_table (st_id st) v
        (\<lambda>x. x\<lparr>st_status := StageRejected, st_decided_by := Some user, st_decided_at := Some (clock s),
              st_decision_note := Some n\<rparr>) s = (r, t)"
      using assms(4) target strip
      by (simp add: decision_write_def reject_stage_def and_then_def eff_simps n_def)
    from stage_locked_put [OF assms(1) this assms(2)] target given strip show ?thesis
      by (auto simp: decided_row_def split: sum.splits)
  qed
qed

lemma set_current_stage_put:
  assumes "lossless s" "only_row request_table rq s"
    and "set_current_stage (rq_id rq) v current status completed s = (r, t)"
  shows "case r of
      Inr x \<Rightarrow> rq_version rq = v \<and> x = advanced_row current status completed (clock s) rq \<and>
        (\<exists>ds. set ds \<subseteq> set (net s) \<and> t = (put_row request_table x s)\<lparr>net := ds\<rparr>)
    | Inl e \<Rightarrow> same_data s t"
proof -
  have "update_with_optimistic_lock request_table (rq_id rq) v
      (\<lambda>r. r\<lparr>rq_current_stage_id := current, rq_status := status, rq_completed_at := completed\<rparr>) s = (r, t)"
    using assms(3) by (simp add: set_current_stage_def)
  from request_locked_put [OF assms(1) this assms(2)] show ?thesis
    by (auto simp: advanced_row_def split: sum.splits)
qed

lemma create_stage_add:
  assumes "lossless s"
    and "create_stage (rq_id rq) (sp_stage_order p) (sp_stage_name p) (rq_company_id rq)
      (sp_assigned_role p) (sp_assigned_to p) s = (r, t)"
  shows "case r of
      Inr x \<Rightarrow> x = new_stage_row (next_uuid s) (clock s) (rq_id rq) (rq_company_id rq) p \<and>
        check_stage s x = None \<and> (\<exists>ds. set ds \<subseteq> set (net s) \<and> t = (open_stage_state rq p s)\<lparr>net := ds\<rparr>)
    | Inl e \<Rightarrow> same_data s t"
  using stages.insert_lossless [OF assms(1) assms(2) [unfolded create_stage_def]]
  by (auto simp: new_stage_row_def open_stage_state_def add_row_def split: sum.splits)

lemma record_decision_add:
  assumes "lossless s"
    and "record_event (audit_action_value action) (Some user) (Some (st_request_id st))
      (Some [(''stage_id'', MetaId (st_id st)), (''decision_note'', meta_text note)]) None s = (r, t)"
  shows "case r of
      Inr x \<Rightarrow> \<exists>ds. set ds \<subseteq> set (net s) \<and> t = (log_decision action user st note s)\<lparr>net := ds\<rparr>
    | Inl e \<Rightarrow> same_data s t"
  using audits.insert_lossless [OF assms(1) assms(2) [unfolded record_event_def]]
  by (auto simp: decision_audit_row_def log_decision_def add_row_def split: sum.splits)

section \<open>What the compensations restore\<close>

lemma compensate_decision_reverts:
  assumes "net u = []" "only_row stage_table (decided_row target user note now st) u"
    and "st_status st = StagePending" "undecided st"
    and "check_stage u (st\<lparr>st_version := st_version st + 2\<rparr>) = None"
  shows "snd (compensate_decision (st_id st) (decided_row target user note now st) u) =
    put_row stage_table (st\<lparr>st_version := st_version st + 2\<rparr>) u"
proof -
  let ?d = "decided_row target user note now st"
  let ?f = "\<lambda>st. st\<lparr>st_status := StagePending, st_decided_by := None, st_decided_at := None, st_decision_note := None\<rparr>"
  have w: "(?f ?d)\<lparr>st_version := st_version ?d + 1\<rparr> = st\<lparr>st_version := st_version st + 2\<rparr>"
    using assms(3,4) by (cases st) (simp add: decided_row_def undecided_def)
  have "update_with_optimistic_lock stage_table (st_id ?d) (st_version ?d) ?f u =
      (Inr ((?f ?d)\<lparr>st_version := st_version ?d + 1\<rparr>), put_row stage_table ((?f ?d)\<lparr>st_version := st_version ?d + 1\<rparr>) u)"
    by (rule stage_delivered_put [OF assms(1,2)]) (simp_all only: w assms(5), simp)
  then show ?thesis unfolding w
    by (simp add: compensate_decision_def revert_to_pending_def and_then_def eff_simps) (simp add: decided_row_def eff_simps)
qed

lemma compensate_advancement_reverts:
  assumes "net u = []" "only_row request_table (advanced_row current status completed now rq) u"
    and "check_request u (rq\<lparr>rq_version := rq_version rq + 2, rq_updated_at := clock u\<rparr>) = None"
  shows "snd (compensate_request_advancement (rq_id rq) (advanced_row current status completed now rq) rq u) =
    put_row request_table (rq\<lparr>rq_version := rq_version rq + 2, rq_updated_at := clock u\<rparr>) u"
proof -
  let ?a = "advanced_row current status completed now rq"
  let ?f = "\<lambda>r. r\<lparr>rq_current_stage_id := rq_current_stage_id rq, rq_status := rq_status rq,
    rq_completed_at := rq_completed_at rq\<rparr>"
  let ?w = "(?f ?a)\<lparr>rq_version := rq_version ?a + 1, rq_updated_at := clock u\<rparr>"
  have w: "?w = rq\<lparr>rq_version := rq_version rq + 2, rq_updated_at := clock u\<rparr>"
    by (cases rq) (simp add: advanced_row_def)
  have "update_with_optimistic_lock request_table (rq_id ?a) (rq_version ?a) ?f u = (Inr ?w, put_row request_table ?w u)"
    by (rule request_delivered_put [OF assms(1,2)]) (simp_all only: w assms(3), simp)
  then show ?thesis unfolding w
    by (simp add: compensate_request_advancement_def set_current_stage_def and_then_def eff_simps)
      (simp add: advanced_row_def eff_simps)
qed

lemma compensate_creation_deletes:
  assumes "net u = []" "\<And>x. x \<in> set rows \<Longrightarrow> st_id x \<noteq> st_id new" "t_stages u = rows @ [new]"
    and "\<And>r. r \<in> set (t_requests u) \<Longrightarrow> rq_current_stage_id r \<noteq> Some (st_id new)"
  shows "snd (compensate_stage_creation new u) = u\<lparr>t_stages := rows\<rparr>"
proof -
  let ?p = "\<lambda>st. st_id st = st_id new \<and> st_version st = st_version new"
  have "filter ?p (t_stages u) = [new]" "filter (\<lambda>r. \<not> ?p r) (t_stages u) = rows"
    using assms(2,3) by (auto simp: filter_empty_conv filter_id_conv)
  moreover have "\<not> stage_referenced u new"
    using assms(4) by (auto simp: stage_referenced_def list_ex_iff)
  ultimately have "delete_stmt stage_table ?p stage_referenced u = (Inr [new], u\<lparr>t_stages := rows\<rparr>)"
    by (simp add: delete_stmt_def)
  then have "execute ''delete_if_unchanged'' ''workflow_stages'' (delete_stmt stage_table ?p stage_referenced) u =
      (Inr [new], u\<lparr>t_stages := rows\<rparr>)"
    by (rule execute_delivered [OF assms(1)])
  then show ?thesis
    by (simp add: compensate_stage_creation_def delete_if_unchanged_def and_then_def eff_simps)
qed

section \<open>The plan\<close>

text \<open>
  What the plan says of the request and the definition it was read from: the decided stage is the
  request's last one; nothing follows when the definition has no stage after it, else exactly the next
  order is opened.
\<close>

definition plan_ok :: "stage_record \<Rightarrow> request_record \<Rightarrow> stage_plan option \<Rightarrow> 'z db_scheme \<Rightarrow> bool" where
  "plan_ok st rq plan s \<longleftrightarrow> rq \<in> set (t_requests s) \<and> rq_id rq = st_request_id st \<and>
     0 < st_stage_order st \<and>
     (\<forall>x\<in>set (t_stages s). st_request_id x = rq_id rq \<longrightarrow> st_stage_order x \<le> st_stage_order st) \<and>
     (\<exists>d doc. d \<in> set (t_definitions s) \<and> df_id d = rq_workflow_definition_id rq \<and>
        WorkflowDefinitionDocument (df_definition d) = Inr doc \<and>
        (case plan of
           None \<Rightarrow> int (length (doc_stages doc)) \<le> st_stage_order st
         | Some p \<Rightarrow> sp_stage_order p = st_stage_order st + 1 \<and> st_stage_order st < int (length (doc_stages doc))))"

lemma plan_ok_net [simp]: "plan_ok st rq plan (s\<lparr>net := ds\<rparr>) = plan_ok st rq plan s"
  by (simp add: plan_ok_def)

lemma read_only_get_highest [reading]: "read_only (get_highest_stage_order i)"
  by (auto simp: get_highest_stage_order_def intro!: reading)

lemma read_only_list_by_role [reading]: "read_only (list_by_role c r i d b p)"
  by (simp add: list_by_role_def reading)

lemma read_only_next_stage_approvers [reading]: "read_only (next_stage_approvers cfg st rq d p)"
  by (auto simp: next_stage_approvers_def department_approvers_for_def split: list.splits intro!: reading)

lemma read_only_plan_advancement [reading]: "read_only (plan_advancement cfg st)"
  by (auto simp: plan_advancement_def get_request_row_def get_profile_row_def intro!: reading)

lemma order_desc_hd:
  assumes "order_desc f xs = y # ys"
  shows "y \<in> set xs \<and> (\<forall>x\<in>set xs. f x \<le> f y)"
proof -
  have "sort_key (\<lambda>r. - f r) xs = y # ys" using assms by (simp add: order_desc_def)
  from sort_key_hd_least [OF this] show ?thesis by auto
qed

lemma get_highest_Inr:
  assumes "get_highest_stage_order i s = (Inr h, t)"
  shows "\<forall>x\<in>set (t_stages s). st_request_id x = i \<longrightarrow> st_stage_order x \<le> h"
proof -
  let ?q = "\<lambda>s. take 1 (order_desc st_stage_order (filter (\<lambda>st. st_request_id st = i) (t_stages s)))"
  obtain rows u where "execute ''get_highest_stage_order'' ''workflow_stages'' (gets ?q) s = (Inr rows, u)"
    and h: "h = (case rows of [] \<Rightarrow> 0 | st # _ \<Rightarrow> st_stage_order st)"
    using assms by (auto simp: get_highest_stage_order_def and_then_eq_Inr eff_simps)
  then have rows: "rows = ?q s" using execute_read [of ?q] by fastforce
  show ?thesis
  proof (cases "order_desc st_stage_order (filter (\<lambda>st. st_request_id st = i) (t_stages s))")
    case Nil
    then have "filter (\<lambda>st. st_request_id st = i) (t_stages s) = []"
      by (metis length_0_conv length_sort order_desc_def)
    then show ?thesis by (auto simp: filter_empty_conv)
  next
    case (Cons y ys)
    with order_desc_hd [OF Cons] rows h show ?thesis by auto
  qed
qed

lemma plan_advancement_Inr:
  assumes "plan_advancement cfg st s = (Inr (rq, plan), t)"
  shows "plan_ok st rq plan s \<and> same_data s t"
proof -
  have t: "same_data s t" by (rule read_onlyD [OF read_only_plan_advancement assms])
  obtain s1 s2 s3 s4 s5 d w h prec prof apps where
    1: "get_request_row (st_request_id st) s = (Inr rq, s1)"
    and 2: "get_by_id definition_table (rq_workflow_definition_id rq) s1 = (Inr d, s2)"
    and 3: "map_workflow_definition_record_to_domain d = Inr w"
    and 4: "get_highest_stage_order (rq_id rq) s2 = (Inr h, s3)"
    and 5: "get_profile_row (rq_requester_id rq) s3 = (Inr prec, s4)"
    and 6: "map_profile_record_to_domain prec = Inr prof"
    and 7: "next_stage_approvers cfg st rq w prof s4 = (Inr apps, s5)"
    and 8: "plan_next_stage w (st_stage_order st) h prof apps = Inr plan"
    using assms by (auto simp: plan_advancement_def and_then_eq_Inr eff_simps)
  obtain ds where s1: "s1 = s\<lparr>net := ds\<rparr>" "rq \<in> set (t_requests s)" "rq_id rq = st_request_id st"
    using requests.get_by_id_Inr [OF 1 [unfolded get_request_row_def]] by auto
  obtain ds' where s2: "s2 = s1\<lparr>net := ds'\<rparr>" "d \<in> set (t_definitions s1)" "df_id d = rq_workflow_definition_id rq"
    using definitions.get_by_id_Inr [OF 2] by auto
  have doc: "WorkflowDefinitionDocument (df_definition d) = Inr (wd_definition w)" "valid_document (wd_definition w)"
    using map_definition_Inr [OF 3] by simp_all
  note plan = plan_next_stage_cases [OF doc(2) 8]
  have "\<forall>x\<in>set (t_stages s). st_request_id x = rq_id rq \<longrightarrow> st_stage_order x \<le> st_stage_order st"
    using get_highest_Inr [OF 4] s1 s2 plan by simp
  with s1 s2 doc plan t show ?thesis
    unfolding plan_ok_def by (intro conjI exI [of _ d] exI [of _ "wd_definition w"]) (auto split: option.splits)
qed

section \<open>The decision implements its result, or is rolled back\<close>

lemma same_data_E: "same_data s t \<Longrightarrow> (\<And>ds. t = s\<lparr>net := ds\<rparr> \<Longrightarrow> set ds \<subseteq> set (net s) \<Longrightarrow> R) \<Longrightarrow> R"
  by (auto simp: same_data_def)

definition rolls_back :: "stage_record \<Rightarrow> request_record \<Rightarrow> 'z db_scheme \<Rightarrow> 'z db_scheme \<times> 'z db_scheme compensation list \<Rightarrow> bool" where
  "rolls_back st rq s w \<longleftrightarrow> (net (fst w) = [] \<longrightarrow> restored st rq s (run_compensations (rev (snd w)) (fst w)))"

text \<open>
  The state between the statements: \<open>u\<close> up to what is left of the network schedule, with the
  compensations \<open>cs\<close>.
\<close>

definition at_state :: "'z db_scheme \<Rightarrow> 'z db_scheme compensation list \<Rightarrow> 'z db_scheme \<times> 'z db_scheme compensation list \<Rightarrow> bool" where
  "at_state u cs w \<longleftrightarrow> snd w = cs \<and> 
     (\<exists>ds. fst w = u\<lparr>net := ds\<rparr> \<and> set ds \<subseteq> set (net u) \<and> ResponseLost \<notin> set ds)"

lemma at_state_lossless: "at_state u cs w \<Longrightarrow> lossless (fst w)"
  by (auto simp: at_state_def lossless_def)

lemma at_state_same_data: "at_state u cs (s, cs') \<Longrightarrow> same_data s t \<Longrightarrow> at_state u cs (t, cs')"
  by (fastforce simp: at_state_def same_data_def)

lemma triple_perform_read:
  assumes "read_only m" "\<And>w. at_state u cs w \<Longrightarrow> E w"
  shows "triple (at_state u cs) (perform m)
    (\<lambda>x w. at_state u cs w \<and> (\<exists>ds t. m (u\<lparr>net := ds\<rparr>) = (Inr x, t))) (\<lambda>_. E)"
proof (rule triple_perform, rule tripleI)
  fix cs' s x t assume s: "at_state u cs (s, cs')" "m s = (Inr x, t)"
  then have "at_state u cs (t, cs')" using at_state_same_data read_onlyD [OF assms(1)] by blast
  with s show "at_state u cs (t, cs') \<and> (\<exists>ds t. m (u\<lparr>net := ds\<rparr>) = (Inr x, t))"
    by (auto simp: at_state_def)
next
  fix cs' s e t assume "at_state u cs (s, cs')" "m s = (Inl e, t)"
  then have "at_state u cs (t, cs')" using at_state_same_data read_onlyD [OF assms(1)] by blast
  then show "E (t, cs')" by (rule assms(2))
qed

text \<open>A write: from \<open>u\<close> it leads to \<open>f x\<close>, or fails without an effect.\<close>

lemma triple_perform_write:
  assumes "\<And>s r t. lossless s \<Longrightarrow> s = u\<lparr>net := net s\<rparr> \<Longrightarrow> m s = (r, t) \<Longrightarrow>
      (case r of Inr x \<Rightarrow> R x \<and> (\<exists>ds. set ds \<subseteq> set (net s) \<and> t = (f x)\<lparr>net := ds\<rparr>) | Inl e \<Rightarrow> same_data s t)"
    and "\<And>x. net (f x) = net u"
    and "\<And>w. at_state u cs w \<Longrightarrow> E w"
  shows "triple (at_state u cs) (perform (db_call m)) (\<lambda>x w. R x \<and> at_state (f x) cs w) (\<lambda>_. E)"
proof (rule triple_perform, rule tripleI)
  fix cs' s x t assume s: "at_state u cs (s, cs')" "db_call m s = (Inr x, t)"
  then have "lossless s" "s = u\<lparr>net := net s\<rparr>" "m s = (Inr x, t)"
    using at_state_lossless [OF s(1)] by (auto simp: at_state_def)
  with assms(1) obtain ds where "R x" "set ds \<subseteq> set (net s)" "t = (f x)\<lparr>net := ds\<rparr>" by fastforce
  moreover from s(1) have "set (net s) \<subseteq> set (net u)" "ResponseLost \<notin> set (net s)" "cs' = cs"
    by (auto simp: at_state_def)
  moreover from calculation have "set ds \<subseteq> set (net u)" "ResponseLost \<notin> set ds" by blast+
  ultimately show "R x \<and> at_state (f x) cs (t, cs')"
    unfolding at_state_def by (simp add: assms(2)) blast
next
  fix cs' s e t assume s: "at_state u cs (s, cs')" "db_call m s = (Inl e, t)"
  then obtain e' where "lossless s" "s = u\<lparr>net := net s\<rparr>" "m s = (Inl e', t)"
    using at_state_lossless [OF s(1)] db_call_Inl [OF s(2)] by (auto simp: at_state_def)
  with assms(1) have "same_data s t" by fastforce
  with s(1) show "E (t, cs')" using at_state_same_data assms(3) by blast
qed

subsection \<open>Undoing\<close>

lemma check_stage_again:
  assumes "check_stage s st = None" "t_profiles u = t_profiles s"
    and "rq_id ` set (t_requests s) \<subseteq> rq_id ` set (t_requests u)"
    and "\<And>x. x \<in> set (t_stages u) \<Longrightarrow> st_id x \<noteq> st_id st \<Longrightarrow> x \<in> set (t_stages s)"
  shows "check_stage u (st\<lparr>st_version := st_version st + 2\<rparr>) = None"
  using assms unfolding check_stage_None by (simp; blast)

lemma check_request_again:
  assumes "check_request s rq = None" "t_profiles u = t_profiles s" "t_definitions u = t_definitions s"
    and "st_id ` set (t_stages s) \<subseteq> st_id ` set (t_stages u)"
  shows "check_request u (rq\<lparr>rq_version := rq_version rq + 2, rq_updated_at := now\<rparr>) = None"
  using assms unfolding check_request_None by (simp; blast)

lemma put_ids_set:
  "st_id ` set (t_stages (put_row stage_table x s)) = st_id ` set (t_stages s)"
  "rq_id ` set (t_requests (put_row request_table y s)) = rq_id ` set (t_requests s)"
  by (metis list.set_map put_ids)+

lemma restored_same:
  assumes "only_row stage_table st s" "only_row request_table rq s"
  shows "restored st rq s (s\<lparr>net := ds\<rparr>)"
  unfolding restored_def
proof (intro exI)
  have "put_row request_table rq (put_row stage_table st s) = s"
    using stages.put_same [OF assms(1)] requests.put_same [OF assms(2)] by simp
  then show "s\<lparr>net := ds\<rparr> = (put_row request_table (rq\<lparr>rq_version := rq_version rq, rq_updated_at := rq_updated_at rq\<rparr>)
      (put_row stage_table (st\<lparr>st_version := st_version st\<rparr>) s))\<lparr>next_uuid := next_uuid s, net := ds\<rparr>"
    by simp
qed

text \<open>The situation of a decision: a pending stage of well-formed tables, and its request.\<close>

definition deciding :: "'z db_scheme \<Rightarrow> stage_record \<Rightarrow> request_record \<Rightarrow> bool" where
  "deciding s st rq \<longleftrightarrow> wf_db s \<and> st \<in> set (t_stages s) \<and> rq \<in> set (t_requests s) \<and>
     rq_id rq = st_request_id st \<and> st_status st = StagePending"

lemma decidingD:
  assumes "deciding s st rq"
  shows "only_row stage_table st s" "check_stage s st = None" "undecided st" "st_id st < next_uuid s"
    "only_row request_table rq s" "check_request s rq = None" "wf_db s" "st_status st = StagePending"
    "st \<in> set (t_stages s)" "rq \<in> set (t_requests s)" "rq_id rq = st_request_id st"
  using assms wf_stageD [of s st] wf_requestD [of s rq] by (auto simp: deciding_def)

definition decided_state :: "stage_status \<Rightarrow> uuid \<Rightarrow> string option \<Rightarrow> stage_record \<Rightarrow> 'z db_scheme \<Rightarrow> 'z db_scheme" where
  "decided_state target user remark st s = put_row stage_table (decided_row target user remark (clock s) st) s"

definition stage_back :: "stage_record \<Rightarrow> stage_record" where
  "stage_back st = st\<lparr>st_version := st_version st + 2\<rparr>"

definition request_back :: "timestamp \<Rightarrow> request_record \<Rightarrow> request_record" where
  "request_back now rq = rq\<lparr>rq_version := rq_version rq + 2, rq_updated_at := now\<rparr>"

lemma back_ids [simp]:
  "st_id (decided_row target user remark now st) = st_id st" "st_id (stage_back st) = st_id st"
  "rq_id (request_back now rq) = rq_id rq" "rq_id (advanced_row cur status fin now rq) = rq_id rq"
  by (simp_all add: decided_row_def stage_back_def request_back_def advanced_row_def)

lemma decided_state_other [simp]:
  "t_requests (decided_state target user remark st s) = t_requests s"
  "t_profiles (decided_state target user remark st s) = t_profiles s"
  "t_definitions (decided_state target user remark st s) = t_definitions s"
  "t_audit (decided_state target user remark st s) = t_audit s"
  "clock (decided_state target user remark st s) = clock s"
  "next_uuid (decided_state target user remark st s) = next_uuid s"
  by (simp_all add: decided_state_def)

lemma decided_state_stages:
  "t_stages (decided_state target user remark st s) =
     map (\<lambda>y. if st_id y = st_id st then decided_row target user remark (clock s) st else y) (t_stages s)"
  by (simp add: decided_state_def)

lemma decided_state_ids:
  "deciding s st rq \<Longrightarrow> st_id ` set (t_stages (decided_state target user remark st s)) = st_id ` set (t_stages s)"
  by (simp only: decided_state_def put_ids_set)

lemma only_decided:
  "deciding s st rq \<Longrightarrow>
   only_row stage_table (decided_row target user remark (clock s) st) (decided_state target user remark st s)"
  unfolding decided_state_def by (rule stages.only_put [OF decidingD(1)]) simp_all

lemma revert_in:
  assumes "deciding s st rq" "net u = []"
    and "only_row stage_table (decided_row target user remark now st) u" "t_profiles u = t_profiles s"
    and "rq_id ` set (t_requests s) \<subseteq> rq_id ` set (t_requests u)"
    and "\<And>x. x \<in> set (t_stages u) \<Longrightarrow> st_id x \<noteq> st_id st \<Longrightarrow> x \<in> set (t_stages s)"
  shows "snd (compensate_decision (st_id st) (decided_row target user remark now st) u) =
    put_row stage_table (stage_back st) u"
  using compensate_decision_reverts [OF assms(2,3) decidingD(8,3) [OF assms(1)]
      check_stage_again [OF decidingD(2) [OF assms(1)] assms(4-6)]]
  by (simp add: stage_back_def)

lemma undo_decided:
  assumes d: "deciding s st rq"
  shows "restored st rq s (snd (compensate_decision (st_id st) (decided_row target user remark (clock s) st)
    ((decided_state target user remark st s)\<lparr>net := []\<rparr>)))"
proof -
  let ?u = "(decided_state target user remark st s)\<lparr>net := []\<rparr>"
  have "snd (compensate_decision (st_id st) (decided_row target user remark (clock s) st) ?u) =
      put_row stage_table (stage_back st) ?u"
    by (rule revert_in [OF d]) (auto simp: stages.only_net only_decided [OF d] decided_state_stages split: if_splits)
  also have "\<dots> = (put_row stage_table (stage_back st) s)\<lparr>net := []\<rparr>"
    by (simp add: stages.put_net decided_state_def stages.put_put)
  also have "put_row stage_table (stage_back st) s = put_row request_table rq (put_row stage_table (stage_back st) s)"
    using requests.put_same [of rq "put_row stage_table (stage_back st) s"] decidingD(5) [OF d]
    by (simp add: only_row_def)
  finally show ?thesis
    unfolding restored_def stage_back_def
    by (intro exI [of _ "rq_version rq"] exI [of _ "st_version st + 2"] exI [of _ "rq_updated_at rq"]
        exI [of _ "next_uuid s"] exI [of _ "[]"]) simp
qed

lemma undo_advanced:
  assumes d: "deciding s st rq"
    and u: "u = (put_row request_table (request_back (clock s) rq) (decided_state target user remark st s))\<lparr>next_uuid := n, net := []\<rparr>"
  shows "restored st rq s (snd (compensate_decision (st_id st) (decided_row target user remark (clock s) st) u))"
proof -
  have "rq_id ` set (t_requests u) = rq_id ` set (t_requests s)"
    using put_ids_set(2) [of "request_back (clock s) rq" s] u by simp
  moreover have "only_row stage_table (decided_row target user remark (clock s) st) u"
    using only_decided [OF d, of target user remark] u by (simp add: only_row_def)
  ultimately have "snd (compensate_decision (st_id st) (decided_row target user remark (clock s) st) u) =
      put_row stage_table (stage_back st) u"
    using u by (intro revert_in [OF d]) (auto simp: decided_state_stages split: if_splits)
  also have "\<dots> = (put_row request_table (request_back (clock s) rq) (put_row stage_table (stage_back st) s))
      \<lparr>next_uuid := n, net := []\<rparr>"
    using u by (simp add: put_row_def decided_state_def comp_def cong: if_cong)
  finally show ?thesis
    unfolding restored_def stage_back_def request_back_def by blast
qed

lemma unadvance:
  assumes d: "deciding s st rq"
    and u: "u = (put_row request_table (advanced_row cur status fin now rq) v)\<lparr>net := []\<rparr>"
    and v: "only_row request_table rq v" "t_profiles v = t_profiles s" "t_definitions v = t_definitions s"
      "st_id ` set (t_stages s) \<subseteq> st_id ` set (t_stages v)" "clock v = clock s"
  shows "snd (compensate_request_advancement (rq_id rq) (advanced_row cur status fin now rq) rq u) =
    (put_row request_table (request_back (clock s) rq) v)\<lparr>net := []\<rparr>"
proof -
  let ?a = "advanced_row cur status fin now rq"
  have "only_row request_table ?a u"
    using requests.only_put [OF v(1), of ?a] u by (simp add: requests.only_net)
  moreover have "check_request u (rq\<lparr>rq_version := rq_version rq + 2, rq_updated_at := clock u\<rparr>) = None"
    using u v by (intro check_request_again [OF decidingD(6) [OF d]]) simp_all
  ultimately have "snd (compensate_request_advancement (rq_id rq) ?a rq u) =
      put_row request_table (rq\<lparr>rq_version := rq_version rq + 2, rq_updated_at := clock u\<rparr>) u"
    using u by (intro compensate_advancement_reverts) simp_all
  also have "\<dots> = put_row request_table (request_back (clock s) rq) u" using u v by (simp add: request_back_def)
  also have "\<dots> = (put_row request_table (request_back (clock s) rq) v)\<lparr>net := []\<rparr>"
    using requests.put_put [of "request_back (clock s) rq" ?a v] u by (simp add: requests.put_net)
  finally show ?thesis .
qed

lemma unopen:
  assumes d: "deciding s st rq"
    and new: "st_id new = next_uuid s" "t_stages u = t_stages (decided_state target user remark st s) @ [new]"
    and u: "net u = []" "rq_current_stage_id ` set (t_requests u) \<subseteq> rq_current_stage_id ` set (t_requests s)"
  shows "snd (compensate_stage_creation new u) = u\<lparr>t_stages := t_stages (decided_state target user remark st s)\<rparr>"
proof (rule compensate_creation_deletes [OF u(1) _ new(2)])
  fix x assume "x \<in> set (t_stages (decided_state target user remark st s))"
  then have "st_id x \<in> st_id ` set (t_stages s)" using decided_state_ids [OF d] by blast
  then show "st_id x \<noteq> st_id new"
    using decidingD(7) [OF d] new(1) by (auto simp: wf_db_def)
next
  fix r assume "r \<in> set (t_requests u)"
  with u(2) obtain r' where r': "r' \<in> set (t_requests s)" "rq_current_stage_id r = rq_current_stage_id r'"
    by blast
  have "i < next_uuid s" if "rq_current_stage_id r' = Some i" for i
  proof -
    have "i \<in> st_id ` set (t_stages s)"
      using wf_requestD [OF decidingD(7) [OF d] r'(1)] that by (simp add: check_request_None)
    then show ?thesis using decidingD(7) [OF d] by (auto simp: wf_db_def)
  qed
  then have "rq_current_stage_id r' \<noteq> Some (next_uuid s)" by blast
  then show "rq_current_stage_id r \<noteq> Some (st_id new)" by (simp add: r'(2) new(1))
qed

subsection \<open>The registered compensations restore the tables at every point\<close>

lemma rolls_back_start: "deciding s st rq \<Longrightarrow> at_state s [] w \<Longrightarrow> rolls_back st rq s w"
  by (auto simp: rolls_back_def at_state_def intro!: restored_same dest: decidingD(1,5))

lemma rolls_back_decided:
  "deciding s st rq \<Longrightarrow>
   at_state (decided_state target user remark st s)
     [compensate_decision (st_id st) (decided_row target user remark (clock s) st)] w \<Longrightarrow> rolls_back st rq s w"
  by (auto simp: rolls_back_def at_state_def undo_decided)

lemma rolls_back_finished:
  assumes d: "deciding s st rq"
    and w: "at_state (put_row request_table (advanced_row cur status fin now rq) (decided_state target user remark st s))
      [compensate_decision (st_id st) (decided_row target user remark (clock s) st),
       compensate_request_advancement (rq_id rq) (advanced_row cur status fin now rq) rq] w"
  shows "rolls_back st rq s w"
  unfolding rolls_back_def
proof
  assume "net (fst w) = []"
  let ?v = "decided_state target user remark st s"
  from w \<open>net (fst w) = []\<close> have u: "fst w = (put_row request_table (advanced_row cur status fin now rq) ?v)\<lparr>net := []\<rparr>"
    by (auto simp: at_state_def)
  have "only_row request_table rq ?v" using decidingD(5) [OF d] by (simp add: only_row_def)
  then have "snd (compensate_request_advancement (rq_id rq) (advanced_row cur status fin now rq) rq (fst w)) =
      (put_row request_table (request_back (clock s) rq) ?v)\<lparr>net := []\<rparr>"
    by (rule unadvance [OF d u]) (simp_all add: decided_state_ids [OF d])
  moreover have "restored st rq s (snd (compensate_decision (st_id st) (decided_row target user remark (clock s) st)
      ((put_row request_table (request_back (clock s) rq) ?v)\<lparr>net := []\<rparr>)))"
    by (rule undo_advanced [OF d, where n = "next_uuid s"]) simp
  ultimately show "restored st rq s (run_compensations (rev (snd w)) (fst w))"
    using w by (simp add: at_state_def)
qed

lemma open_stage_other [simp]:
  "t_requests (open_stage_state rq p s) = t_requests s" "t_profiles (open_stage_state rq p s) = t_profiles s"
  "t_definitions (open_stage_state rq p s) = t_definitions s" "clock (open_stage_state rq p s) = clock s"
  "next_uuid (open_stage_state rq p s) = Suc (next_uuid s)" "net (open_stage_state rq p s) = net s"
  "t_stages (open_stage_state rq p s) =
     t_stages s @ [new_stage_row (next_uuid s) (clock s) (rq_id rq) (rq_company_id rq) p]"
  by (simp_all add: open_stage_state_def add_row_def)

lemma open_then_forget:
  "(open_stage_state rq p v)\<lparr>t_stages := t_stages v\<rparr> = v\<lparr>next_uuid := Suc (next_uuid v)\<rparr>"
  by (simp add: open_stage_state_def add_row_def)

lemma new_stage_id [simp]: "st_id (new_stage_row i now r c p) = i"
  by (simp add: new_stage_row_def)

lemma undo_next_uuid:
  assumes d: "deciding s st rq"
    and u: "u = (decided_state target user remark st s)\<lparr>next_uuid := n, net := []\<rparr>"
  shows "restored st rq s (snd (compensate_decision (st_id st) (decided_row target user remark (clock s) st) u))"
proof -
  have "only_row stage_table (decided_row target user remark (clock s) st) u"
    using only_decided [OF d, of target user remark] u by (simp add: only_row_def)
  then have "snd (compensate_decision (st_id st) (decided_row target user remark (clock s) st) u) =
      put_row stage_table (stage_back st) u"
    using u by (intro revert_in [OF d]) (auto simp: decided_state_stages split: if_splits)
  also have "\<dots> = (put_row request_table (rq\<lparr>rq_version := rq_version rq, rq_updated_at := rq_updated_at rq\<rparr>)
      (put_row stage_table (st\<lparr>st_version := st_version st + 2\<rparr>) s))\<lparr>next_uuid := n, net := []\<rparr>"
    using u requests.put_same [of rq "put_row stage_table (stage_back st) s"] decidingD(5) [OF d]
    by (simp add: only_row_def) (simp add: put_row_def decided_state_def stage_back_def comp_def cong: if_cong)
  finally show ?thesis unfolding restored_def by blast
qed

lemma rolls_back_opened:
  assumes d: "deciding s st rq"
    and w: "at_state (open_stage_state rq p (decided_state target user remark st s))
      [compensate_decision (st_id st) (decided_row target user remark (clock s) st),
       compensate_stage_creation (new_stage_row (next_uuid s) (clock s) (rq_id rq) (rq_company_id rq) p)] w"
  shows "rolls_back st rq s w"
  unfolding rolls_back_def
proof
  assume "net (fst w) = []"
  let ?v = "decided_state target user remark st s"
  from w \<open>net (fst w) = []\<close> have u: "fst w = (open_stage_state rq p ?v)\<lparr>net := []\<rparr>"
    by (auto simp: at_state_def)
  have "snd (compensate_stage_creation (new_stage_row (next_uuid s) (clock s) (rq_id rq) (rq_company_id rq) p) (fst w)) =
      (fst w)\<lparr>t_stages := t_stages ?v\<rparr>"
    by (rule unopen [OF d]) (simp_all add: u)
  also have "\<dots> = (((open_stage_state rq p ?v)\<lparr>t_stages := t_stages ?v\<rparr>)\<lparr>net := []\<rparr>)"
    by (simp add: u)
  also have "\<dots> = ?v\<lparr>next_uuid := Suc (next_uuid s), net := []\<rparr>"
    by (simp only: open_then_forget) simp
  finally show "restored st rq s (run_compensations (rev (snd w)) (fst w))"
    using w undo_next_uuid [OF d refl, of target user remark "Suc (next_uuid s)"] by (simp add: at_state_def)
qed

lemma rolls_back_moved:
  assumes d: "deciding s st rq"
    and w: "at_state (put_row request_table (advanced_row cur status fin now rq)
        (open_stage_state rq p (decided_state target user remark st s)))
      [compensate_decision (st_id st) (decided_row target user remark (clock s) st),
       compensate_stage_creation (new_stage_row (next_uuid s) (clock s) (rq_id rq) (rq_company_id rq) p),
       compensate_request_advancement (rq_id rq) (advanced_row cur status fin now rq) rq] w"
  shows "rolls_back st rq s w"
  unfolding rolls_back_def
proof
  assume "net (fst w) = []"
  let ?v = "decided_state target user remark st s"
  let ?o = "open_stage_state rq p ?v"
  let ?b = "request_back (clock s) rq"
  let ?u2 = "(put_row request_table ?b ?o)\<lparr>net := []\<rparr>"
  from w \<open>net (fst w) = []\<close> have u: "fst w = (put_row request_table (advanced_row cur status fin now rq) ?o)\<lparr>net := []\<rparr>"
    by (auto simp: at_state_def)
  have "only_row request_table rq ?o" using decidingD(5) [OF d] by (simp add: only_row_def)
  then have 3: "snd (compensate_request_advancement (rq_id rq) (advanced_row cur status fin now rq) rq (fst w)) = ?u2"
    by (rule unadvance [OF d u]) (simp_all add: decided_state_ids [OF d] subset_insertI)
  have "rq_current_stage_id ?b = rq_current_stage_id rq" by (simp add: request_back_def)
  then have cur: "rq_current_stage_id ` set (t_requests ?u2) \<subseteq> rq_current_stage_id ` set (t_requests s)"
    using decidingD(10) [OF d] by auto
  have 2: "snd (compensate_stage_creation (new_stage_row (next_uuid s) (clock s) (rq_id rq) (rq_company_id rq) p) ?u2) =
      ?u2\<lparr>t_stages := t_stages ?v\<rparr>"
    by (rule unopen [OF d _ _ _ cur]) simp_all
  have u3: "?u2\<lparr>t_stages := t_stages ?v\<rparr> = (put_row request_table ?b ?v)\<lparr>next_uuid := Suc (next_uuid s), net := []\<rparr>"
    by (simp add: put_row_def open_stage_state_def add_row_def)
  show "restored st rq s (run_compensations (rev (snd w)) (fst w))"
    using w 3 2 u3 undo_advanced [OF d u3] by (simp add: at_state_def)
qed

subsection \<open>The body\<close>

lemma triple_fact: "(A \<Longrightarrow> triple P m Q E) \<Longrightarrow> triple (\<lambda>s. A \<and> P s) m Q E"
  by (auto simp: triple_def)

lemma triple_register_at:
  "(\<And>w. at_state u (cs @ [c]) w \<Longrightarrow> Q () w) \<Longrightarrow> triple (at_state u cs) (register_compensation c) Q E"
  by (rule triple_register) (simp add: at_state_def)

lemma triple_and_then_fact:
  assumes "triple P m (\<lambda>x w. R x \<and> P' x w) E" "\<And>x. R x \<Longrightarrow> triple (P' x) (f x) Q E"
  shows "triple P (and_then m f) Q E"
  by (rule triple_and_then [OF assms(1)]) (rule triple_fact [OF assms(2)])

text \<open>A pure guard, and the clock.\<close>

lemma triple_perform_engine:
  assumes "\<And>w. at_state u cs w \<Longrightarrow> E w"
  shows "triple (at_state u cs) (perform (engine_call r)) (\<lambda>x w. r = Inr x \<and> at_state u cs w) (\<lambda>_. E)"
  by (rule triple_weaken [OF triple_perform_read [of "engine_call r" u cs E]]) (auto intro: reading assms)

lemma triple_perform_clock:
  assumes "\<And>w. at_state u cs w \<Longrightarrow> E w"
  shows "triple (at_state u cs) (perform (gets clock)) (\<lambda>x w. x = clock u \<and> at_state u cs w) (\<lambda>_. E)"
  by (rule triple_weaken [OF triple_perform_read [of "gets clock" u cs E]])
    (auto intro: reading assms simp: eff_simps)

lemma triple_set_current:
  assumes "only_row request_table rq u" "\<And>w. at_state u cs w \<Longrightarrow> E w"
  shows "triple (at_state u cs) (perform (db_call (set_current_stage (rq_id rq) v cur status fin)))
    (\<lambda>x w. x = advanced_row cur status fin (clock u) rq \<and> at_state (put_row request_table x u) cs w) (\<lambda>_. E)"
proof (rule triple_perform_write [OF _ _ assms(2)])
  fix s r t assume s: "lossless s" "s = u\<lparr>net := net s\<rparr>" "set_current_stage (rq_id rq) v cur status fin s = (r, t)"
  have o: "only_row request_table rq s" by (subst s(2)) (simp add: requests.only_net assms(1))
  have "clock s = clock u" by (subst s(2)) simp
  moreover have "put_row request_table x s = (put_row request_table x u)\<lparr>net := net s\<rparr>" for x
    by (subst s(2)) (rule requests.put_net)
  ultimately show "case r of
      Inr x \<Rightarrow> x = advanced_row cur status fin (clock u) rq \<and>
        (\<exists>ds. set ds \<subseteq> set (net s) \<and> t = (put_row request_table x u)\<lparr>net := ds\<rparr>)
    | Inl e \<Rightarrow> same_data s t"
    using set_current_stage_put [OF s(1) o s(3)] by (cases r) auto
qed (simp_all add: decided_state_def log_decision_def add_row_def)

lemma triple_decision_write:
  assumes "only_row stage_table st s" "target = StageApproved \<or> target = StageRejected"
    and "\<And>w. at_state s cs w \<Longrightarrow> E w"
  shows "triple (at_state s cs) (perform (db_call (decision_write target (st_id st) v user remark)))
    (\<lambda>x w. (x = decided_row target user remark (clock s) st \<and> st_version st = v \<and>
       (target = StageRejected \<longrightarrow> (\<exists>n. remark = Some n \<and> strip n \<noteq> []))) \<and>
       at_state (decided_state target user remark st s) cs w) (\<lambda>_. E)"
proof (rule triple_perform_write [OF _ _ assms(3)])
  fix s' r t
  assume s: "lossless s'" "s' = s\<lparr>net := net s'\<rparr>" "decision_write target (st_id st) v user remark s' = (r, t)"
  have o: "only_row stage_table st s'" by (subst s(2)) (simp add: stages.only_net assms(1))
  have "clock s' = clock s" by (subst s(2)) simp
  moreover have "put_row stage_table x s' = (put_row stage_table x s)\<lparr>net := net s'\<rparr>" for x
    by (subst s(2)) (rule stages.put_net)
  ultimately show "case r of
      Inr x \<Rightarrow> (x = decided_row target user remark (clock s) st \<and> st_version st = v \<and>
         (target = StageRejected \<longrightarrow> (\<exists>n. remark = Some n \<and> strip n \<noteq> []))) \<and>
        (\<exists>ds. set ds \<subseteq> set (net s') \<and> t = (decided_state target user remark st s)\<lparr>net := ds\<rparr>)
    | Inl e \<Rightarrow> same_data s' t"
    using decision_write_put [OF s(1) o assms(2) s(3)] by (cases r) (auto simp: decided_state_def)
qed (simp_all add: decided_state_def log_decision_def add_row_def)

lemma triple_create_stage:
  assumes "\<And>w. at_state u cs w \<Longrightarrow> E w"
  shows "triple (at_state u cs) (perform (db_call (create_stage (rq_id rq) (sp_stage_order p) (sp_stage_name p)
      (rq_company_id rq) (sp_assigned_role p) (sp_assigned_to p))))
    (\<lambda>x w. x = new_stage_row (next_uuid u) (clock u) (rq_id rq) (rq_company_id rq) p \<and>
       at_state (open_stage_state rq p u) cs w) (\<lambda>_. E)"
proof (rule triple_perform_write [OF _ _ assms])
  fix s r t assume s: "lossless s" "s = u\<lparr>net := net s\<rparr>"
    "create_stage (rq_id rq) (sp_stage_order p) (sp_stage_name p) (rq_company_id rq) (sp_assigned_role p)
       (sp_assigned_to p) s = (r, t)"
  have "clock s = clock u" "next_uuid s = next_uuid u" by (subst s(2), simp)+
  moreover have "open_stage_state rq p s = (open_stage_state rq p u)\<lparr>net := net s\<rparr>"
    by (subst s(2)) (simp add: open_stage_state_def add_row_def)
  ultimately show "case r of
      Inr x \<Rightarrow> x = new_stage_row (next_uuid u) (clock u) (rq_id rq) (rq_company_id rq) p \<and>
        (\<exists>ds. set ds \<subseteq> set (net s) \<and> t = (open_stage_state rq p u)\<lparr>net := ds\<rparr>)
    | Inl e \<Rightarrow> same_data s t"
    using create_stage_add [OF s(1,3)] by (cases r) auto
qed (simp_all add: decided_state_def log_decision_def add_row_def)

lemma triple_record_decision:
  assumes "\<And>w. at_state u cs w \<Longrightarrow> E w"
  shows "triple (at_state u cs) (perform (db_call (record_event (audit_action_value action) (Some user)
      (Some (st_request_id st)) (Some [(''stage_id'', MetaId (st_id st)), (''decision_note'', meta_text remark)]) None)))
    (\<lambda>x w. True \<and> at_state (log_decision action user st remark u) cs w) (\<lambda>_. E)"
proof (rule triple_perform_write [OF _ _ assms])
  fix s r t assume s: "lossless s" "s = u\<lparr>net := net s\<rparr>"
    "record_event (audit_action_value action) (Some user) (Some (st_request_id st))
       (Some [(''stage_id'', MetaId (st_id st)), (''decision_note'', meta_text remark)]) None s = (r, t)"
  have "log_decision action user st remark s = (log_decision action user st remark u)\<lparr>net := net s\<rparr>"
    by (subst s(2)) (simp add: log_decision_def add_row_def)
  then show "case r of
      Inr x \<Rightarrow> True \<and> (\<exists>ds. set ds \<subseteq> set (net s) \<and> t = (log_decision action user st remark u)\<lparr>net := ds\<rparr>)
    | Inl e \<Rightarrow> same_data s t"
    using record_decision_add [OF s(1,3)] by (cases r) auto
qed (simp_all add: decided_state_def log_decision_def add_row_def)

text \<open>Where a decision stands after the request has been moved, before its audit entry.\<close>

definition moved_request :: "stage_status \<Rightarrow> stage_plan option \<Rightarrow> 'z db_scheme \<Rightarrow> request_record \<Rightarrow> request_record" where
  "moved_request target plan s rq =
     (if target = StageApproved then
        (case plan of
           None \<Rightarrow> advanced_row None ReqCompleted (Some (clock s)) (clock s) rq
         | Some p \<Rightarrow> advanced_row (Some (next_uuid s)) ReqInReview None (clock s) rq)
      else advanced_row None ReqRejected (Some (clock s)) (clock s) rq)"

definition moved_state ::
  "stage_status \<Rightarrow> uuid \<Rightarrow> string option \<Rightarrow> stage_record \<Rightarrow> request_record \<Rightarrow> stage_plan option \<Rightarrow>
   'z db_scheme \<Rightarrow> 'z db_scheme" where
  "moved_state target user remark st rq plan s =
     (let s1 = decided_state target user remark st s in
      put_row request_table (moved_request target plan s rq)
        (if target = StageApproved then (case plan of None \<Rightarrow> s1 | Some p \<Rightarrow> open_stage_state rq p s1) else s1))"

lemma decision_result_moved:
  "decision_result target user remark st rq plan s =
     log_decision (if target = StageApproved then STAGE_APPROVED else STAGE_REJECTED) user st remark
       (moved_state target user remark st rq plan s)"
  by (simp add: decision_result_def moved_state_def moved_request_def decided_state_def Let_def split: option.splits)

definition status_move_ok :: "stage_status \<Rightarrow> stage_plan option \<Rightarrow> request_status \<Rightarrow> bool" where
  "status_move_ok target plan current = is_valid_request_transition current
     (if target = StageApproved then (if plan = None then ReqCompleted else ReqInReview) else ReqRejected)"

definition moved_ok ::
  "stage_status \<Rightarrow> uuid \<Rightarrow> string option \<Rightarrow> stage_record \<Rightarrow> request_record \<Rightarrow> 'z db_scheme \<Rightarrow>
   decision_advancement \<Rightarrow> 'z db_scheme \<times> 'z db_scheme compensation list \<Rightarrow> bool" where
  "moved_ok target user remark st rq s adv w \<longleftrightarrow>
     (\<exists>plan cs. (target = StageApproved \<longrightarrow> plan_ok st rq plan s) \<and> status_move_ok target plan (rq_status rq) \<and>
        adv = decision_summary target plan (next_uuid s) \<and>
        at_state (moved_state target user remark st rq plan s) cs w \<and>
        (\<forall>w'. at_state (moved_state target user remark st rq plan s) cs w' \<longrightarrow> rolls_back st rq s w'))"

lemma only_rq_decided: "deciding s st rq \<Longrightarrow> only_row request_table rq (decided_state target user remark st s)"
  using decidingD(5) [of s st rq] by (simp add: only_row_def)

lemma only_rq_opened:
  "deciding s st rq \<Longrightarrow> only_row request_table rq (open_stage_state rq p (decided_state target user remark st s))"
  using decidingD(5) [of s st rq] by (simp add: only_row_def)

lemma plan_ok_decided:
  assumes d: "deciding s st rq" and p: "plan_ok st rq' plan (decided_state target user remark st s)"
  shows "rq' = rq \<and> plan_ok st rq plan s"
proof -
  have "rq' \<in> set (t_requests s)" "rq_id rq' = rq_id rq"
    using p decidingD(11) [OF d] by (simp_all add: plan_ok_def)
  then have rq: "rq' = rq" using only_row_unique [OF decidingD(5) [OF d], of rq'] by simp
  have "st_stage_order x \<le> st_stage_order st" if x: "x \<in> set (t_stages s)" "st_request_id x = rq_id rq" for x
  proof (cases "st_id x = st_id st")
    case True
    then show ?thesis using only_row_unique [OF decidingD(1) [OF d], of x] x by simp
  next
    case False
    then have "x \<in> set (t_stages (decided_state target user remark st s))"
      using x(1) by (force simp: decided_state_stages)
    then show ?thesis using p x(2) rq by (simp add: plan_ok_def)
  qed
  with p rq show ?thesis by (simp add: plan_ok_def)
qed

lemma triple_complete_request:
  assumes d: "deciding s st rq" and p: "plan_ok st rq None s"
  shows "triple (at_state (decided_state StageApproved user remark st s)
      [compensate_decision (st_id st) (decided_row StageApproved user remark (clock s) st)])
    (complete_request rq) (moved_ok StageApproved user remark st rq s) (\<lambda>_. rolls_back st rq s)"
  unfolding complete_request_def
proof (intro triple_and_then_fact [OF triple_perform_engine] triple_and_then_fact [OF triple_perform_clock]
    triple_and_then_fact [OF triple_set_current [OF only_rq_decided [OF d]]])
  let ?u = "decided_state StageApproved user remark st s"
  let ?cs = "[compensate_decision (st_id st) (decided_row StageApproved user remark (clock s) st)]"
  fix x now upd
  assume v: "validate_request_transition (rq_status rq) ReqCompleted = Inr x" and now: "now = clock ?u"
    and upd: "upd = advanced_row None ReqCompleted (Some now) (clock ?u) rq"
  let ?m = "moved_state StageApproved user remark st rq None s"
  let ?c = "compensate_request_advancement (rq_id rq) upd rq"
  have m: "put_row request_table upd ?u = ?m"
    by (simp add: moved_state_def moved_request_def upd now)
  have undone: "rolls_back st rq s w" if "at_state ?m (?cs @ [?c]) w" for w
    using that unfolding m [symmetric] upd now
    by (intro rolls_back_finished [OF d]) simp
  show "triple (at_state (put_row request_table upd ?u) ?cs)
      (and_then (register_compensation ?c)
        (\<lambda>_. return \<lparr>da_request_status = ReqCompleted, da_new_stage_id = None, da_notify_recipient_id = None,
               da_audit_action = STAGE_APPROVED\<rparr>))
      (moved_ok StageApproved user remark st rq s) (\<lambda>_. rolls_back st rq s)"
    unfolding m
  proof (rule triple_and_then)
    show "triple (at_state ?m ?cs) (register_compensation ?c) (\<lambda>_. at_state ?m (?cs @ [?c])) (\<lambda>_. rolls_back st rq s)"
      by (rule triple_register_at)
    show "triple (at_state ?m (?cs @ [?c]))
        (return \<lparr>da_request_status = ReqCompleted, da_new_stage_id = None, da_notify_recipient_id = None,
               da_audit_action = STAGE_APPROVED\<rparr>)
        (moved_ok StageApproved user remark st rq s) (\<lambda>_. rolls_back st rq s)"
      using p v undone unfolding moved_ok_def
      by (intro triple_return exI [of _ None] exI [of _ "?cs @ [?c]"])
        (auto simp: decision_summary_def status_move_ok_def)
  qed
qed (rule rolls_back_decided [OF d], assumption)+

lemma triple_open_next_stage:
  assumes d: "deciding s st rq" and p: "plan_ok st rq (Some p) s"
  shows "triple (at_state (decided_state StageApproved user remark st s)
      [compensate_decision (st_id st) (decided_row StageApproved user remark (clock s) st)])
    (open_next_stage rq p) (moved_ok StageApproved user remark st rq s) (\<lambda>_. rolls_back st rq s)"
proof -
  let ?u = "decided_state StageApproved user remark st s"
  let ?c1 = "compensate_decision (st_id st) (decided_row StageApproved user remark (clock s) st)"
  let ?new = "new_stage_row (next_uuid s) (clock s) (rq_id rq) (rq_company_id rq) p"
  let ?o = "open_stage_state rq p ?u"
  let ?cs = "[?c1, compensate_stage_creation ?new]"
  let ?upd = "advanced_row (Some (next_uuid s)) ReqInReview None (clock s) rq"
  let ?m = "moved_state StageApproved user remark st rq (Some p) s"
  let ?c3 = "compensate_request_advancement (rq_id rq) ?upd rq"
  let ?Q = "moved_ok StageApproved user remark st rq s"
  let ?E = "rolls_back st rq s"
  let ?adv = "\<lparr>da_request_status = ReqInReview, da_new_stage_id = Some (next_uuid s),
     da_notify_recipient_id = sp_assigned_to p, da_audit_action = STAGE_APPROVED\<rparr>"
  have m: "put_row request_table ?upd ?o = ?m" by (simp add: moved_state_def moved_request_def)
  have e1: "\<And>w. at_state ?u [?c1] w \<Longrightarrow> ?E w" by (rule rolls_back_decided [OF d])
  have e2: "\<And>w. at_state ?o ?cs w \<Longrightarrow> ?E w" by (rule rolls_back_opened [OF d])
  have e3: "\<And>w. at_state ?m (?cs @ [?c3]) w \<Longrightarrow> ?E w"
    unfolding m [symmetric] by (rule rolls_back_moved [OF d]) simp
  have fin: "triple (at_state ?m ?cs) (and_then (register_compensation ?c3) (\<lambda>_. return ?adv)) ?Q (\<lambda>_. ?E)"
    if v: "validate_request_transition (rq_status rq) ReqInReview = Inr x" for x
  proof (rule triple_and_then [where R = "\<lambda>_. at_state ?m (?cs @ [?c3])"])
    show "triple (at_state ?m ?cs) (register_compensation ?c3) (\<lambda>_. at_state ?m (?cs @ [?c3])) (\<lambda>_. ?E)"
      by (rule triple_register_at)
    show "triple (at_state ?m (?cs @ [?c3])) (return ?adv) ?Q (\<lambda>_. ?E)"
      using p v e3 unfolding moved_ok_def
      by (intro triple_return exI [of _ "Some p"] exI [of _ "?cs @ [?c3]"])
        (auto simp: decision_summary_def status_move_ok_def)
  qed
  have move: "triple (at_state ?o ?cs)
      (and_then (perform (engine_call (validate_request_transition (rq_status rq) ReqInReview))) (\<lambda>_.
       and_then (perform (db_call (set_current_stage (rq_id rq) (rq_version rq) (Some (st_id ?new)) ReqInReview None)))
         (\<lambda>updated. and_then (register_compensation (compensate_request_advancement (rq_id rq) updated rq)) (\<lambda>_.
           return \<lparr>da_request_status = ReqInReview, da_new_stage_id = Some (st_id ?new),
             da_notify_recipient_id = sp_assigned_to p, da_audit_action = STAGE_APPROVED\<rparr>)))) ?Q (\<lambda>_. ?E)"
  proof (rule triple_and_then_fact [OF triple_perform_engine [OF e2]], assumption)
    fix x assume v: "validate_request_transition (rq_status rq) ReqInReview = Inr x"
    show "triple (at_state ?o ?cs)
      (and_then (perform (db_call (set_current_stage (rq_id rq) (rq_version rq) (Some (st_id ?new)) ReqInReview None)))
         (\<lambda>updated. and_then (register_compensation (compensate_request_advancement (rq_id rq) updated rq)) (\<lambda>_.
           return \<lparr>da_request_status = ReqInReview, da_new_stage_id = Some (st_id ?new),
             da_notify_recipient_id = sp_assigned_to p, da_audit_action = STAGE_APPROVED\<rparr>))) ?Q (\<lambda>_. ?E)"
    proof (rule triple_and_then_fact [OF triple_set_current [OF only_rq_opened [OF d] e2]], assumption)
      fix updated assume "updated = advanced_row (Some (st_id ?new)) ReqInReview None (clock ?o) rq"
      then have "updated = ?upd" by simp
      then show "triple (at_state (put_row request_table updated ?o) ?cs)
        (and_then (register_compensation (compensate_request_advancement (rq_id rq) updated rq)) (\<lambda>_.
           return \<lparr>da_request_status = ReqInReview, da_new_stage_id = Some (st_id ?new),
             da_notify_recipient_id = sp_assigned_to p, da_audit_action = STAGE_APPROVED\<rparr>)) ?Q (\<lambda>_. ?E)"
        using fin [OF v] m by simp
    qed
  qed
  show ?thesis
    unfolding open_next_stage_def
  proof (rule triple_and_then_fact [OF triple_create_stage [OF e1]], assumption)
    fix new assume "new = new_stage_row (next_uuid ?u) (clock ?u) (rq_id rq) (rq_company_id rq) p"
    then have new: "new = ?new" by simp
    show "triple (at_state ?o [?c1]) (and_then (register_compensation (compensate_stage_creation new)) (\<lambda>_.
       and_then (perform (engine_call (validate_request_transition (rq_status rq) ReqInReview))) (\<lambda>_.
       and_then (perform (db_call (set_current_stage (rq_id rq) (rq_version rq) (Some (st_id new)) ReqInReview None)))
         (\<lambda>updated. and_then (register_compensation (compensate_request_advancement (rq_id rq) updated rq)) (\<lambda>_.
           return \<lparr>da_request_status = ReqInReview, da_new_stage_id = Some (st_id new),
             da_notify_recipient_id = sp_assigned_to p, da_audit_action = STAGE_APPROVED\<rparr>))))) ?Q (\<lambda>_. ?E)"
      unfolding new by (rule triple_and_then [OF triple_register_at move]) simp
  qed
qed

lemma triple_advance:
  assumes d: "deciding s st rq"
  shows "triple (at_state (decided_state StageApproved user remark st s)
      [compensate_decision (st_id st) (decided_row StageApproved user remark (clock s) st)])
    (advance_after_approval cfg st) (moved_ok StageApproved user remark st rq s) (\<lambda>_. rolls_back st rq s)"
  unfolding advance_after_approval_def
proof (rule triple_and_then)
  let ?u = "decided_state StageApproved user remark st s"
  let ?cs = "[compensate_decision (st_id st) (decided_row StageApproved user remark (clock s) st)]"
  show "triple (at_state ?u ?cs) (perform (plan_advancement cfg st))
      (\<lambda>x w. (fst x = rq \<and> plan_ok st rq (snd x) s) \<and> at_state ?u ?cs w) (\<lambda>_. rolls_back st rq s)"
  proof (rule triple_weaken [OF triple_perform_read [OF read_only_plan_advancement rolls_back_decided [OF d]]])
    fix x w assume "at_state ?u ?cs w \<and> (\<exists>ds t. plan_advancement cfg st (?u\<lparr>net := ds\<rparr>) = (Inr x, t))"
    then obtain ds t where w: "at_state ?u ?cs w" and "plan_advancement cfg st (?u\<lparr>net := ds\<rparr>) = (Inr (fst x, snd x), t)"
      by auto
    from plan_advancement_Inr [OF this(2)] have "plan_ok st (fst x) (snd x) ?u" by simp
    with w show "(fst x = rq \<and> plan_ok st rq (snd x) s) \<and> at_state ?u ?cs w"
      using plan_ok_decided [OF d] by blast
  qed auto
  show "triple (\<lambda>w. (fst x = rq \<and> plan_ok st rq (snd x) s) \<and> at_state ?u ?cs w)
      (case x of (request, plan) \<Rightarrow> case plan of None \<Rightarrow> complete_request request | Some p \<Rightarrow> open_next_stage request p)
      (moved_ok StageApproved user remark st rq s) (\<lambda>_. rolls_back st rq s)" for x
    by (rule triple_fact)
      (auto split: prod.splits option.splits intro: triple_complete_request [OF d] triple_open_next_stage [OF d])
qed

lemma triple_finalize_rejection:
  assumes d: "deciding s st rq"
  shows "triple (at_state (decided_state StageRejected user remark st s)
      [compensate_decision (st_id st) (decided_row StageRejected user remark (clock s) st)])
    (finalize_rejection st) (moved_ok StageRejected user remark st rq s) (\<lambda>_. rolls_back st rq s)"
  unfolding finalize_rejection_def
proof (rule triple_and_then_fact)
  let ?u = "decided_state StageRejected user remark st s"
  let ?cs = "[compensate_decision (st_id st) (decided_row StageRejected user remark (clock s) st)]"
  let ?Q = "moved_ok StageRejected user remark st rq s"
  let ?E = "rolls_back st rq s"
  let ?adv = "\<lparr>da_request_status = ReqRejected, da_new_stage_id = None, da_notify_recipient_id = None,
     da_audit_action = STAGE_REJECTED\<rparr>"
  have e1: "\<And>w. at_state ?u ?cs w \<Longrightarrow> ?E w" by (rule rolls_back_decided [OF d])
  show "triple (at_state ?u ?cs) (perform (lookup_call (get_request_row (st_request_id st))))
      (\<lambda>x w. x = rq \<and> at_state ?u ?cs w) (\<lambda>_. ?E)"
  proof (rule triple_weaken [OF triple_perform_read [of "lookup_call (get_request_row (st_request_id st))", OF _ e1]])
    show "read_only (lookup_call (get_request_row (st_request_id st)))"
      by (simp add: get_request_row_def reading)
    fix x w assume "at_state ?u ?cs w \<and> (\<exists>ds t. lookup_call (get_request_row (st_request_id st)) (?u\<lparr>net := ds\<rparr>) = (Inr x, t))"
    then obtain ds t where w: "at_state ?u ?cs w" and g: "get_by_id request_table (st_request_id st) (?u\<lparr>net := ds\<rparr>) = (Inr x, t)"
      by (auto simp: get_request_row_def)
    from requests.get_by_id_Inr [OF g] have "x \<in> set (t_requests s)" "rq_id x = rq_id rq"
      using decidingD(11) [OF d] by auto
    then show "x = rq \<and> at_state ?u ?cs w"
      using w only_row_unique [OF decidingD(5) [OF d], of x] by simp
  qed auto
  show "triple (at_state ?u ?cs)
      (and_then (perform (engine_call (validate_request_transition (rq_status x) ReqRejected))) (\<lambda>_.
       and_then (perform (gets clock)) (\<lambda>now.
       and_then (perform (db_call (set_current_stage (rq_id x) (rq_version x) None ReqRejected (Some now)))) (\<lambda>updated.
       and_then (register_compensation (compensate_request_advancement (rq_id x) updated x)) (\<lambda>_. return ?adv))))) ?Q (\<lambda>_. ?E)"
    if x: "x = rq" for x
    unfolding x
  proof (intro triple_and_then_fact [OF triple_perform_engine] triple_and_then_fact [OF triple_perform_clock]
      triple_and_then_fact [OF triple_set_current [OF only_rq_decided [OF d]]])
    fix y now upd
    assume v: "validate_request_transition (rq_status rq) ReqRejected = Inr y" and now: "now = clock ?u"
      and upd: "upd = advanced_row None ReqRejected (Some now) (clock ?u) rq"
    let ?m = "moved_state StageRejected user remark st rq None s"
    let ?c = "compensate_request_advancement (rq_id rq) upd rq"
    have m: "put_row request_table upd ?u = ?m"
      by (simp add: moved_state_def moved_request_def upd now)
    have undone: "?E w" if "at_state ?m (?cs @ [?c]) w" for w
      using that unfolding m [symmetric] upd now
      by (intro rolls_back_finished [OF d]) simp
    show "triple (at_state (put_row request_table upd ?u) ?cs)
        (and_then (register_compensation ?c) (\<lambda>_. return ?adv)) ?Q (\<lambda>_. ?E)"
      unfolding m
    proof (rule triple_and_then [where R = "\<lambda>_. at_state ?m (?cs @ [?c])"])
      show "triple (at_state ?m ?cs) (register_compensation ?c) (\<lambda>_. at_state ?m (?cs @ [?c])) (\<lambda>_. ?E)"
        by (rule triple_register_at)
      show "triple (at_state ?m (?cs @ [?c])) (return ?adv) ?Q (\<lambda>_. ?E)"
        using v undone unfolding moved_ok_def
        by (intro triple_return exI [of _ None] exI [of _ "?cs @ [?c]"])
          (auto simp: decision_summary_def status_move_ok_def)
    qed
  qed (rule e1, assumption)+
qed

text \<open>The outcome of the whole body.\<close>

definition decision_ok ::
  "stage_status \<Rightarrow> uuid \<Rightarrow> int \<Rightarrow> string option \<Rightarrow> stage_record \<Rightarrow> request_record \<Rightarrow> 'z db_scheme \<Rightarrow>
   stage_record \<times> decision_advancement \<Rightarrow> 'z db_scheme \<Rightarrow> bool" where
  "decision_ok target user v remark st rq s res t \<longleftrightarrow>
     (\<exists>plan ds. (target = StageApproved \<longrightarrow> plan_ok st rq plan s) \<and> status_move_ok target plan (rq_status rq) \<and>
        st_version st = v \<and> (target = StageRejected \<longrightarrow> (\<exists>n. remark = Some n \<and> strip n \<noteq> [])) \<and>
        res = (decided_row target user remark (clock s) st, decision_summary target plan (next_uuid s)) \<and>
        t = (decision_result target user remark st rq plan s)\<lparr>net := ds\<rparr>)"

lemma triple_decision_body:
  assumes d: "deciding s st rq" and tgt: "target = StageApproved \<or> target = StageRejected"
  shows "triple (at_state s []) (decision_body cfg ident st target v remark)
    (\<lambda>res w. decision_ok target (id_user_id ident) v remark st rq s res (fst w)) (\<lambda>_. rolls_back st rq s)"
proof -
  let ?user = "id_user_id ident"
  let ?u = "decided_state target ?user remark st s"
  let ?dec = "decided_row target ?user remark (clock s) st"
  let ?cs = "[compensate_decision (st_id st) ?dec]"
  let ?E = "rolls_back st rq s"
  let ?log = "\<lambda>adv. record_event (audit_action_value (da_audit_action adv)) (Some ?user) (Some (st_request_id st))
      (Some [(''stage_id'', MetaId (st_id st)), (''decision_note'', meta_text remark)]) None"
  have move: "triple (at_state ?u ?cs)
      (if target = StageApproved then advance_after_approval cfg st else finalize_rejection st)
      (moved_ok target ?user remark st rq s) (\<lambda>_. ?E)"
    using tgt triple_advance [OF d] triple_finalize_rejection [OF d] by auto
  have rest: "triple (moved_ok target ?user remark st rq s adv)
      (and_then (perform (db_call (?log adv))) (\<lambda>_. return (?dec, adv)))
      (\<lambda>res w. decision_ok target ?user v remark st rq s res (fst w)) (\<lambda>_. ?E)"
    if ok: "st_version st = v" "target = StageRejected \<longrightarrow> (\<exists>n. remark = Some n \<and> strip n \<noteq> [])" for adv
  proof (rule tripleI)
    fix w x t assume mo: "moved_ok target ?user remark st rq s adv w"
      and r: "and_then (perform (db_call (?log adv))) (\<lambda>_. return (?dec, adv)) w = (Inr x, t)"
    obtain plan cs where m: "target = StageApproved \<longrightarrow> plan_ok st rq plan s" "status_move_ok target plan (rq_status rq)"
      "adv = decision_summary target plan (next_uuid s)" "at_state (moved_state target ?user remark st rq plan s) cs w"
      "\<And>w. at_state (moved_state target ?user remark st rq plan s) cs w \<Longrightarrow> ?E w"
      using mo by (auto simp: moved_ok_def)
    from r obtain y where y: "perform (db_call (?log adv)) w = (Inr y, t)" and x: "x = (?dec, adv)"
      by (auto simp: and_then_eq_Inr eff_simps)
    have act: "da_audit_action adv = (if target = StageApproved then STAGE_APPROVED else STAGE_REJECTED)"
      using m(3) by (simp add: decision_summary_def split: option.splits)
    have "True \<and> at_state (log_decision (da_audit_action adv) ?user st remark (moved_state target ?user remark st rq plan s)) cs t"
      by (rule triple_InrD [OF triple_record_decision [OF m(5)] m(4) y])
    then show "decision_ok target ?user v remark st rq s x (fst t)"
      using m ok x tgt unfolding decision_ok_def act at_state_def decision_result_moved by blast
  next
    fix w e t assume mo: "moved_ok target ?user remark st rq s adv w"
      and r: "and_then (perform (db_call (?log adv))) (\<lambda>_. return (?dec, adv)) w = (Inl e, t)"
    obtain plan cs where m: "at_state (moved_state target ?user remark st rq plan s) cs w"
      "\<And>w. at_state (moved_state target ?user remark st rq plan s) cs w \<Longrightarrow> ?E w"
      using mo by (auto simp: moved_ok_def)
    from r have "perform (db_call (?log adv)) w = (Inl e, t)"
      by (auto simp: and_then_def eff_simps split: prod.splits sum.splits)
    from triple_InlD [OF triple_record_decision [OF m(2)] m(1) this] show "?E t" .
  qed
  show ?thesis
    unfolding decision_body_def decision_write_def [symmetric]
  proof (rule triple_and_then_fact [OF triple_decision_write [OF decidingD(1) [OF d] tgt rolls_back_start [OF d]]],
      assumption, elim conjE)
    fix x assume x: "x = ?dec" and ok: "st_version st = v" "target = StageRejected \<longrightarrow> (\<exists>n. remark = Some n \<and> strip n \<noteq> [])"
    show "triple (at_state ?u [])
      (and_then (register_compensation (compensate_decision (st_id st) x)) (\<lambda>_.
       and_then (if target = StageApproved then advance_after_approval cfg st else finalize_rejection st) (\<lambda>adv.
       and_then (perform (db_call (?log adv))) (\<lambda>_. return (x, adv)))))
      (\<lambda>res w. decision_ok target ?user v remark st rq s res (fst w)) (\<lambda>_. ?E)"
      unfolding x
      by (rule triple_and_then [OF triple_register_at triple_and_then [OF move rest [OF ok]]]) simp
  qed
qed

end
