(* ===== verification/Operations.thy ===== *)
theory Operations imports Decisions RequestService DefinitionService
begin

text \<open>
  The interface between the repositories and the services, seen from a property of the database: a
  property that the repositories' operations keep is kept by every operation of the approval, request
  and definition services, the compensations included. It is instantiated below with the quiet network
  and the growing id supply, and by \<open>Integrity\<close> with the tables' constraints.
\<close>

section \<open>Reading steps\<close>

lemma read_only_stage_lookup: "read_only (get_stage_for_company i c)"
  unfolding get_stage_for_company_def get_stage_row_def by (intro reading)

lemma read_only_authorize: "read_only (authorize_decision ident st)"
  unfolding authorize_decision_def by (intro reading)

lemma read_only_replay: "read_only (replay_idempotent_decision st)"
  unfolding replay_idempotent_decision_def get_request_row_def by (intro reading)

lemma read_only_prepare: "read_only (prepare_request cfg ident raw)"
  unfolding prepare_request_def fetch_department_approvers_if_needed_def list_definitions_def get_profile_row_def
    list_by_role_def
  by (auto intro!: reading split: list.splits)

lemma read_only_fetch_request: "read_only (fetch_request_of_company ident i)"
  unfolding fetch_request_of_company_def get_request_row_def by (intro reading)

lemma read_only_load:
  "read_only (get_definition_for_company i c)" "read_only (find_active_for_request_type rt c)"
  "read_only (validate_assignees doc)" "read_only (validate_document raw)" "read_only (authorize_management ident)"
  "read_only (list_definitions c rt' act p)"
  unfolding get_definition_for_company_def find_active_for_request_type_def validate_assignees_def
    validate_document_def authorize_management_def list_definitions_def find_profiles_by_ids_def select_stmt_def
  by (auto intro!: reading split: list.splits)

lemma read_only_rows: "read_only (get_request_row i)" "read_only (get_stage_row i)"
  unfolding get_request_row_def get_stage_row_def by (intro reading)+

lemmas service_reads = read_only_stage_lookup read_only_authorize read_only_replay read_only_prepare
  read_only_fetch_request read_only_load read_only_rows read_only_plan_advancement read_only_get_by_id

lemma preserves_best_effort: "preserves P m \<Longrightarrow> preserves P (best_effort m)"
  by (simp add: best_effort_def preserves_handle preserves_return)

section \<open>What the repositories keep, the services keep\<close>

text \<open>
  First the operations that move no request along: reassigning a stage, editing and deleting a request,
  the definitions, the audit log, the notifications.
\<close>

locale side_invariant =
  fixes P :: "'z db_scheme \<Rightarrow> bool"
  assumes same: "same_data s t \<Longrightarrow> P s \<Longrightarrow> P t"
    and side_rows: "preserves P (escalate_stage_row i v a r)" "preserves P (soft_delete i v u)"
      "preserves P (update_editable_fields i v ti' de' dp')"
    and audit_rows: "preserves P (record_event act au ar am ac)"
    and definition_rows: "preserves P (create_definition_row ty w doc u c)" "preserves P (update_inactive_definition i w doc)"
      "preserves P (delete_inactive_definition i c)" "preserves P (activate_definition_row i ty w c)"
    and notice_rows: "preserves P (create_and_dispatch ncfg i nr nty nmsg)"
begin

lemma reads: "read_only m \<Longrightarrow> preserves P m"
  using same by (auto simp: preserves_def read_only_def)

lemmas flow = pres_flow pres_calls preserves_perform preserves_register preserves_transaction
  preserves_best_effort side_rows audit_rows definition_rows notice_rows

lemma post_decision: "preserves P (dispatch_post_decision_notifications cfg st status r)"
  unfolding dispatch_post_decision_notifications_def notify_defs
  by (auto intro!: flow service_reads [THEN reads] split: option.splits)

lemma escalate: "preserves P (service_escalate_stage cfg sid)"
  unfolding service_escalate_stage_def escalation_body_def notify_defs Let_def
  by (auto intro!: flow service_reads [THEN reads] split: prod.splits option.splits)

lemma edit: "preserves P (update_request ident i ti' de' dp' v)" "preserves P (withdraw_request ident i v)"
  unfolding update_request_def withdraw_request_def
  by (intro flow service_reads [THEN reads])+

lemma definitions:
  "preserves P (create_definition ident ty raw_doc)" "preserves P (update_draft ident i raw_doc)"
  "preserves P (delete_draft ident i)" "preserves P (activate_version ident i)"
  unfolding create_definition_def update_draft_def delete_draft_def activate_version_def load_editable_def
    activation_body_def Let_def
  by (auto intro!: flow service_reads [THEN reads] split: option.splits)

end

text \<open>With the writes of decisions and of new requests, all of them.\<close>

locale operation_invariant = side_invariant +
  assumes decide_rows: "preserves P (approve_stage i v u n)" "preserves P (reject_stage i v u m)"
      "preserves P (revert_to_pending i v)"
    and stage_rows: "preserves P (create_stage i k nm c r a)" "preserves P (delete_if_unchanged i v)"
    and request_rows: "preserves P (create_request_row q d ty ti c de dp)" "preserves P (set_current_stage i v cu st co)"
begin

lemmas all_flow = flow decide_rows stage_rows request_rows

lemma decision_body: "preserves (saga_keeps P) (decision_body cfg ident st target v remark)"
  unfolding decision_body_def advance_after_approval_def complete_request_def open_next_stage_def
    finalize_rejection_def compensate_decision_def compensate_stage_creation_def
    compensate_request_advancement_def
  by (auto intro!: all_flow service_reads [THEN reads] split: option.splits prod.splits)

lemma decide: "preserves P (decide_stage cfg ident sid target expected remark)"
  unfolding decide_stage_def
  by (auto intro!: all_flow decision_body post_decision service_reads [THEN reads] split: prod.splits)

lemma approve: "preserves P (service_approve_stage cfg ident sid expected remark)"
  by (simp add: service_approve_stage_def decide)

lemma reject: "preserves P (service_reject_stage cfg ident sid expected remark')"
  by (auto simp: service_reject_stage_def intro!: decide flow)

lemma create: "preserves P (service_create_request cfg ident raw)"
  unfolding service_create_request_def creation_body_def notify_defs
  by (auto intro!: all_flow service_reads [THEN reads] split: prod.splits option.splits)

end

section \<open>A quiet network and the supply of ids\<close>

lemma quiet_rows:
  "preserves quiet (approve_stage i v u n)" "preserves quiet (reject_stage i v u m)"
  "preserves quiet (revert_to_pending i v)" "preserves quiet (escalate_stage_row i v a r)"
  "preserves quiet (create_stage i k nm c r a)" "preserves quiet (delete_if_unchanged i v)"
  "preserves quiet (create_request_row q d ty ti c de dp)" "preserves quiet (set_current_stage i v cu st co)"
  "preserves quiet (update_editable_fields i v ti' de' dp')" "preserves quiet (soft_delete i v u)"
  "preserves quiet (record_event act au ar am ac)"
  unfolding approve_stage_def reject_stage_def revert_to_pending_def escalate_stage_row_def create_stage_def
    delete_if_unchanged_def create_request_row_def set_current_stage_def update_editable_fields_def soft_delete_def
    record_event_def
  by (auto intro!: pres_flow stages.quiet_locked stages.quiet_insert_row requests.quiet_locked
      requests.quiet_insert_row audits.quiet_insert_row quiet_execute stages.delete_statement
      split: list.splits simp: stage_referenced_def)

lemma quiet_definition_rows:
  "preserves quiet (create_definition_row ty w doc u c)" "preserves quiet (update_inactive_definition i w doc)"
  "preserves quiet (delete_inactive_definition i c)" "preserves quiet (activate_definition_row i ty w c)"
  unfolding create_definition_row_def update_inactive_definition_def delete_inactive_definition_def
    activate_definition_row_def deactivate_previous_definition_def single_row_def
  by (auto intro!: pres_flow definitions.quiet_insert_row definitions.quiet_update quiet_execute
      definitions.delete_statement definitions.quiet_locked quiet_read_only [OF read_only_load(2)]
      split: list.splits option.splits simp: definition_referenced_def)

lemma quiet_notify: "preserves quiet (create_and_dispatch cfg i r ty m)"
  unfolding create_and_dispatch_def effective_preference_def get_preferences_for_user_def
    create_notification_def attempt_email_dispatch_def mark_email_sent_def update_notification_def single_row_def
  by (auto split: prod.splits option.splits sum.splits list.splits
      intro!: pres_flow pres_calls notifications.quiet_insert_row notifications.quiet_update
        quiet_read_only [OF read_only_execute] reading)

interpretation quiet_ops: operation_invariant "quiet :: 'z db_scheme \<Rightarrow> bool"
  by unfold_locales (use quiet_same_data in \<open>blast intro: quiet_rows quiet_definition_rows quiet_notify\<close>)+

definition ids_from :: "uuid \<Rightarrow> 'z db_scheme \<Rightarrow> bool" where
  "ids_from n s \<longleftrightarrow> n \<le> next_uuid s"

lemma net_stable_ids: "net_stable (ids_from n)"
  by (simp add: net_stable_def ids_from_def)

context table_store
begin

lemma ids_statements:
  "preserves (ids_from n) (insert_stmt T mk)" "preserves (ids_from n) (update_stmt T p f)"
  "preserves (ids_from n) (delete_stmt T p referenced)"
  by (auto simp: preserves_def ids_from_def insert_stmt_def update_stmt_def delete_stmt_def Let_def uuid_set
      split: option.splits)

end

lemmas ids_statement = requests.ids_statements stages.ids_statements audits.ids_statements
  definitions.ids_statements notifications.ids_statements

lemmas ids_flow = pres_flow pres_calls net_stable_ids preserves_insert_row preserves_update_with_optimistic_lock
  preserves_execute preserves_single_row preserves_get_by_id

lemma ids_rows:
  "preserves (ids_from k) (approve_stage i v u n)" "preserves (ids_from k) (reject_stage i v u m)"
  "preserves (ids_from k) (revert_to_pending i v)" "preserves (ids_from k) (escalate_stage_row i v a r)"
  "preserves (ids_from k) (create_stage i j nm c r a)" "preserves (ids_from k) (delete_if_unchanged i v)"
  "preserves (ids_from k) (create_request_row q d ty ti c de dp)" "preserves (ids_from k) (set_current_stage i v cu st co)"
  "preserves (ids_from k) (update_editable_fields i v ti' de' dp')" "preserves (ids_from k) (soft_delete i v u)"
  "preserves (ids_from k) (record_event act au ar am ac)"
  unfolding approve_stage_def reject_stage_def revert_to_pending_def escalate_stage_row_def create_stage_def
    delete_if_unchanged_def create_request_row_def set_current_stage_def update_editable_fields_def soft_delete_def
    record_event_def
  by (auto intro!: ids_flow ids_statement [simplified])

lemma ids_definition_rows:
  "preserves (ids_from k) (create_definition_row ty w doc u c)" "preserves (ids_from k) (update_inactive_definition i w doc)"
  "preserves (ids_from k) (delete_inactive_definition i c)" "preserves (ids_from k) (activate_definition_row i ty w c)"
  unfolding create_definition_row_def update_inactive_definition_def delete_inactive_definition_def
    activate_definition_row_def deactivate_previous_definition_def find_active_for_request_type_def select_stmt_def
  by (auto intro!: ids_flow ids_statement [simplified] split: list.splits option.splits)

lemma ids_notify: "preserves (ids_from k) (create_and_dispatch cfg i r ty m)"
  unfolding create_and_dispatch_def effective_preference_def get_preferences_for_user_def
    create_notification_def attempt_email_dispatch_def mark_email_sent_def update_notification_def
  by (auto split: prod.splits option.splits sum.splits intro!: ids_flow ids_statement [simplified])

interpretation ids_ops: operation_invariant "ids_from k :: 'z db_scheme \<Rightarrow> bool"
  by unfold_locales (auto simp: same_data_def ids_from_def [of k] intro: ids_rows ids_definition_rows ids_notify)

end
