(* ===== verification/Samples.thy ===== *)
theory Samples imports ApprovalService
begin

text \<open>
  A small company for the concrete instances of the properties: an administrator, a requester and an
  approver, an active two-stage definition, and one pending request at its first stage.
\<close>

definition sample_person :: "uuid \<Rightarrow> string \<Rightarrow> user_role \<Rightarrow> profile_record" where
  "sample_person i name role = \<lparr>pr_id = i, pr_full_name = name, pr_role = role,
     pr_department = Some ''Finance'', pr_version = 1, pr_created_at = 0, pr_updated_at = 0, pr_company_id = 7,
     pr_is_platform_admin = False, pr_is_active = True, pr_deleted_at = None, pr_deleted_by = None\<rparr>"

definition sample_workflow :: definition_record where
  "sample_workflow = \<lparr>df_id = 10, df_request_type = ''leave'', df_version = 1,
     df_definition = [sample_stage 1 RequesterManager, sample_stage 2 DepartmentQueue],
     df_is_active = True, df_created_by = Some 1, df_row_version = 1, df_created_at = 0, df_company_id = 7\<rparr>"

definition sample_open_request :: request_record where
  "sample_open_request = \<lparr>rq_id = 20, rq_requester_id = 2, rq_workflow_definition_id = 10,
     rq_request_type = ''leave'', rq_title = ''Trip'', rq_description = None, rq_department = None,
     rq_status = ReqPending, rq_current_stage_id = Some 30, rq_version = 2, rq_deleted_at = None,
     rq_deleted_by = None, rq_created_at = 0, rq_updated_at = 0, rq_completed_at = None, rq_company_id = 7\<rparr>"

definition sample_open_stage :: stage_record where
  "sample_open_stage = \<lparr>st_id = 30, st_request_id = 20, st_stage_order = 1, st_stage_name = ''Review'',
     st_assigned_role = None, st_assigned_to = Some 3, st_status = StagePending, st_decided_by = None,
     st_decided_at = None, st_decision_note = None, st_version = 1, st_created_at = 0, st_company_id = 7\<rparr>"

definition sample_db :: "delivery list \<Rightarrow> db" where
  "sample_db ds = \<lparr>t_profiles = [sample_person 1 ''Ada'' Admin, sample_person 2 ''Bo'' Employee, sample_person 3 ''Cy'' Approver],
     t_definitions = [sample_workflow], t_requests = [sample_open_request], t_stages = [sample_open_stage],
     t_audit = [], t_notifications = [], t_preferences = [], next_uuid = 100, clock = 5, net = ds\<rparr>"

definition sample_config :: service_config where
  "sample_config = \<lparr>sc_notify = \<lparr>nc_email_sender = None, nc_show_uuid = (\<lambda>_. ''u''), nc_subject_prefix = ''EAH'',
     nc_immediate = True\<rparr>, sc_collation = (\<lambda>name. length name)\<rparr>"

definition identity_of :: "uuid \<Rightarrow> user_role \<Rightarrow> uuid \<Rightarrow> identity" where
  "identity_of i role company = \<lparr>id_user_id = i, id_role = role, id_company_id = company,
     id_is_platform_admin = False, id_expires_at = None\<rparr>"

definition sample_approver :: identity where "sample_approver = identity_of 3 Approver 7"

lemmas sample_defs = sample_person_def sample_workflow_def sample_open_request_def sample_open_stage_def
  sample_db_def sample_config_def identity_of_def sample_approver_def

end
