(* ===== verification/Approval.thy ===== *)
theory Approval imports Operations Samples
begin

text \<open>
  The properties of \<open>ApprovalService\<close>: a decision that returns has done exactly what
  \<open>decision_result\<close> says and nothing else to the workflow tables; one that raises has been undone; a
  repeated decision returns the first one's outcome; another company's stage is not found; and what
  escalation does.
\<close>

section \<open>The workflow tables, and what notifications leave alone\<close>

definition core :: "'z db_scheme \<Rightarrow> profile_record list \<times> definition_record list \<times> request_record list \<times>
    stage_record list \<times> audit_record list" where
  "core s = (t_profiles s, t_definitions s, t_requests s, t_stages s, t_audit s)"

lemma core_simps [simp]:
  "core (s\<lparr>net := ds\<rparr>) = core s" "core (s\<lparr>next_uuid := n\<rparr>) = core s" "core (s\<lparr>t_notifications := ns\<rparr>) = core s"
  by (simp_all add: core_def)

lemma core_fields:
  "core s = core t \<longleftrightarrow> t_profiles s = t_profiles t \<and> t_definitions s = t_definitions t \<and>
     t_requests s = t_requests t \<and> t_stages s = t_stages t \<and> t_audit s = t_audit t"
  by (simp add: core_def)

lemma same_data_core: "same_data s t \<Longrightarrow> core t = core s"
  by (auto simp: same_data_def)

definition core_is where "core_is K s \<longleftrightarrow> core s = K"

lemma net_stable_core_is [intro]: "net_stable (core_is K)"
  by (simp add: net_stable_def core_is_def)

lemma preserves_core_insert: "preserves (core_is K) (insert_stmt notification_table mk)"
  by (auto simp: preserves_def core_is_def insert_stmt_def Let_def split: option.splits)

lemma preserves_core_update: "preserves (core_is K) (update_stmt notification_table p f)"
  by (auto simp: preserves_def core_is_def update_stmt_def Let_def split: option.splits)

lemma preserves_core_notify: "preserves (core_is K) (create_and_dispatch cfg i r ty m)"
  unfolding create_and_dispatch_def effective_preference_def get_preferences_for_user_def
    create_notification_def attempt_email_dispatch_def mark_email_sent_def update_notification_def
  by (intro pres preserves_core_insert preserves_core_update net_stable_core_is)
    (auto split: prod.splits option.splits sum.splits
      intro!: pres preserves_core_insert preserves_core_update net_stable_core_is)

lemma preserves_core_post_decision: "preserves (core_is K) (dispatch_post_decision_notifications cfg st status r)"
  unfolding dispatch_post_decision_notifications_def get_request_row_def notify_defs
  by (auto intro!: pres preserves_core_notify net_stable_core_is split: option.splits)

lemma post_decision_core:
  "best_effort (dispatch_post_decision_notifications cfg st status r) s = (x, t) \<Longrightarrow> core t = core s"
  using preservesD [OF preserves_best_effort [OF preserves_core_post_decision], of "core s" s cfg st status r]
  by (simp add: core_is_def)

section \<open>A decision that returns\<close>

lemma authorize_decision_Inr:
  "authorize_decision ident st s = (Inr x, t) \<longleftrightarrow> t = s \<and> \<not> is_expired (clock s) ident \<and>
     can_decide_stage (id_role ident) (st_assigned_to st = Some (id_user_id ident))
       (st_assigned_role st = Some (id_role ident)) (st_status st = StagePending)"
  by (auto simp: authorize_decision_def and_then_eq_Inr eff_simps authorize_stage_decision_def
      ensure_not_expired_def require_ownership_def bind_result_def split: sum.splits if_splits)

lemma get_stage_for_company_Inr:
  assumes "get_stage_for_company sid c s = (Inr st, t)"
  shows "same_data s t \<and> st \<in> set (t_stages s) \<and> st_id st = sid \<and> st_company_id st = c"
proof -
  obtain u where g: "get_by_id stage_table sid s = (Inr st, u)" and "st_company_id st = c" "u = t"
    using assms by (auto simp: get_stage_for_company_def get_stage_row_def and_then_eq_Inr eff_simps split: if_splits)
  with stages.get_by_id_Inr [OF g] read_onlyD [OF read_only_get_by_id g] show ?thesis by auto
qed

lemma stage_move_from_pending:
  "is_valid_stage_transition a b \<Longrightarrow> a = StagePending"
  by (cases a) (auto simp: is_valid_stage_transition_def)

lemma request_of_stage:
  assumes "wf_db s" "st \<in> set (t_stages s)"
  shows "\<exists>rq \<in> set (t_requests s). rq_id rq = st_request_id st"
  using wf_stageD [OF assms] by (force simp: check_stage_None)

lemma wf_same_data: "same_data s t \<Longrightarrow> wf_db t = wf_db s"
  by (auto simp: same_data_def)

lemma deciding_same_data: "same_data s t \<Longrightarrow> deciding t st rq = deciding s st rq"
  by (auto simp: same_data_def deciding_def)

lemma at_state_start: "lossless s \<Longrightarrow> at_state s [] (s, [])"
  by (auto simp: at_state_def lossless_def intro: exI [of _ "net s"])

definition fresh_decision ::
  "stage_status \<Rightarrow> identity \<Rightarrow> int option \<Rightarrow> string option \<Rightarrow> stage_record \<Rightarrow> approval_outcome \<Rightarrow>
   'z db_scheme \<Rightarrow> 'z db_scheme \<Rightarrow> bool" where
  "fresh_decision target ident expected remark st out s t \<longleftrightarrow>
     st_status st = StagePending \<and> \<not> is_expired (clock s) ident \<and>
     can_decide_stage (id_role ident) (st_assigned_to st = Some (id_user_id ident))
       (st_assigned_role st = Some (id_role ident)) True \<and>
     (\<forall>v. expected = Some v \<longrightarrow> v = st_version st) \<and>
     (target = StageRejected \<longrightarrow> (\<exists>n. remark = Some n \<and> strip n \<noteq> [])) \<and>
     (\<exists>rq plan. rq \<in> set (t_requests s) \<and> rq_id rq = st_request_id st \<and>
        (target = StageApproved \<longrightarrow> plan_ok st rq plan s) \<and> status_move_ok target plan (rq_status rq) \<and>
        core t = core (decision_result target (id_user_id ident) remark st rq plan s) \<and>
        map_workflow_stage_record_to_domain (decided_row target (id_user_id ident) remark (clock s) st) =
          Inr (ao_stage out) \<and>
        ao_request_status out = da_request_status (decision_summary target plan (next_uuid s)) \<and>
        ao_current_stage_id out = da_new_stage_id (decision_summary target plan (next_uuid s)))"

definition replayed_decision ::
  "stage_status \<Rightarrow> identity \<Rightarrow> stage_record \<Rightarrow> approval_outcome \<Rightarrow> 'z db_scheme \<Rightarrow> 'z db_scheme \<Rightarrow> bool" where
  "replayed_decision target ident st out s t \<longleftrightarrow>
     st_status st = target \<and> st_decided_by st = Some (id_user_id ident) \<and> same_data s t \<and>
     map_workflow_stage_record_to_domain st = Inr (ao_stage out) \<and>
     (\<exists>rq. rq \<in> set (t_requests s) \<and> rq_id rq = st_request_id st \<and>
        ao_request_status out = rq_status rq \<and> ao_current_stage_id out = rq_current_stage_id rq)"

lemma replay_Inr:
  assumes "replay_idempotent_decision st s = (Inr out, t)"
    and "st_status st = target" "st_decided_by st = Some (id_user_id ident)"
  shows "replayed_decision target ident st out s t"
proof -
  obtain rq ws where g: "get_by_id request_table (st_request_id st) s = (Inr rq, t)"
    and ws: "map_workflow_stage_record_to_domain st = Inr ws"
    and out: "out = \<lparr>ao_stage = ws, ao_request_status = rq_status rq, ao_current_stage_id = rq_current_stage_id rq\<rparr>"
    using assms(1) by (auto simp: replay_idempotent_decision_def get_request_row_def and_then_eq_Inr eff_simps)
  show ?thesis
    using requests.get_by_id_Inr [OF g] read_onlyD [OF read_only_get_by_id g] ws out assms(2,3)
    by (auto simp: replayed_decision_def)
qed

lemma decide_stage_Inr:
  assumes wf: "wf_db s" and ll: "lossless s" and tgt: "target = StageApproved \<or> target = StageRejected"
    and run: "decide_stage cfg ident sid target expected remark s = (Inr out, t)"
  shows "\<exists>st \<in> set (t_stages s). st_id st = sid \<and> st_company_id st = id_company_id ident \<and>
    (replayed_decision target ident st out s t \<or> fresh_decision target ident expected remark st out s t)"
proof -
  obtain st s1 where st: "get_stage_for_company sid (id_company_id ident) s = (Inr st, s1)"
    and rest: "(if st_status st = target \<and> st_decided_by st = Some (id_user_id ident)
       then replay_idempotent_decision st
       else and_then (authorize_decision ident st) (\<lambda>_.
         and_then (engine_call (validate_stage_transition (st_status st) target)) (\<lambda>_.
         and_then (transaction (decision_body cfg ident st target
             (case expected of Some v \<Rightarrow> v | None \<Rightarrow> st_version st) remark)) (\<lambda>(dec, adv).
         and_then (best_effort (dispatch_post_decision_notifications cfg st (da_request_status adv)
             (da_notify_recipient_id adv))) (\<lambda>_.
         and_then (pure (map_workflow_stage_record_to_domain dec)) (\<lambda>ws.
           return \<lparr>ao_stage = ws, ao_request_status = da_request_status adv,
                   ao_current_stage_id = da_new_stage_id adv\<rparr>)))))) s1 = (Inr out, t)"
    using run by (auto simp: decide_stage_def and_then_eq_Inr [of "lookup_call _"])
  note stage = get_stage_for_company_Inr [OF st]
  show ?thesis
  proof (cases "st_status st = target \<and> st_decided_by st = Some (id_user_id ident)")
    case True
    with rest replay_Inr [of st s1 out t target ident] have "replayed_decision target ident st out s1 t" by simp
    moreover have "same_data s t"
      using calculation stage same_data_trans by (auto simp: replayed_decision_def)
    moreover have "t_requests s1 = t_requests s" using stage by (auto simp: same_data_def)
    ultimately have "replayed_decision target ident st out s t"
      by (simp add: replayed_decision_def)
    with stage show ?thesis by blast
  next
    case False
    obtain dec adv u ws v where
      auth: "\<not> is_expired (clock s1) ident" "can_decide_stage (id_role ident) (st_assigned_to st = Some (id_user_id ident))
         (st_assigned_role st = Some (id_role ident)) (st_status st = StagePending)"
      and move: "is_valid_stage_transition (st_status st) target"
      and tx: "transaction (decision_body cfg ident st target
             (case expected of Some v \<Rightarrow> v | None \<Rightarrow> st_version st) remark) s1 = (Inr (dec, adv), u)"
      and mail: "best_effort (dispatch_post_decision_notifications cfg st (da_request_status adv)
             (da_notify_recipient_id adv)) u = (Inr v, t)"
      and ws: "map_workflow_stage_record_to_domain dec = Inr ws"
      and out: "out = \<lparr>ao_stage = ws, ao_request_status = da_request_status adv,
                   ao_current_stage_id = da_new_stage_id adv\<rparr>"
      using rest False
      by (auto simp: and_then_eq_Inr authorize_decision_Inr eff_simps split: prod.splits)
    from move have pending: "st_status st = StagePending" by (rule stage_move_from_pending)
    obtain rq where rq: "rq \<in> set (t_requests s)" "rq_id rq = st_request_id st"
      using request_of_stage [OF wf] stage by blast
    have d: "deciding s1 st rq"
      using deciding_same_data [of s s1 st rq] stage wf rq pending unfolding deciding_def [of s] by simp
    have ll1: "lossless s1" using same_data_lossless stage ll by blast
    obtain w where w: "decision_body cfg ident st target
        (case expected of Some v \<Rightarrow> v | None \<Rightarrow> st_version st) remark (s1, []) = (Inr (dec, adv), w)" "fst w = u"
      using tx by (fastforce simp: transaction_Inr)
    have ok: "decision_ok target (id_user_id ident) (case expected of Some v \<Rightarrow> v | None \<Rightarrow> st_version st)
        remark st rq s1 (dec, adv) u"
      using triple_InrD [OF triple_decision_body [OF d tgt] at_state_start [OF ll1] w(1)] w(2) by simp
    obtain ds where s1: "s1 = s\<lparr>net := ds\<rparr>" using stage by (auto simp: same_data_def)
    have res: "decision_result target us rm st rq plan s1 = (decision_result target us rm st rq plan s)\<lparr>net := ds\<rparr>" for us rm plan
      by (simp add: s1 decision_result_def Let_def log_decision_def open_stage_state_def add_row_def put_row_def
          split: option.splits)
    obtain plan ds' where ok': "target = StageApproved \<longrightarrow> plan_ok st rq plan s1"
        "status_move_ok target plan (rq_status rq)" "st_version st = (case expected of Some v \<Rightarrow> v | None \<Rightarrow> st_version st)"
        "target = StageRejected \<longrightarrow> (\<exists>n. remark = Some n \<and> strip n \<noteq> [])"
        "dec = decided_row target (id_user_id ident) remark (clock s) st" "adv = decision_summary target plan (next_uuid s)"
        "u = (decision_result target (id_user_id ident) remark st rq plan s1)\<lparr>net := ds'\<rparr>"
      using ok unfolding decision_ok_def by (fastforce simp: s1)
    have "target = StageApproved \<longrightarrow> plan_ok st rq plan s" using ok'(1) by (simp add: s1 plan_ok_def)
    moreover have "core t = core (decision_result target (id_user_id ident) remark st rq plan s)"
      using post_decision_core [OF mail] ok'(7) by (simp add: res)
    moreover have "\<forall>v. expected = Some v \<longrightarrow> v = st_version st" using ok'(3) by (auto split: option.splits)
    ultimately have "fresh_decision target ident expected remark st out s t"
      using auth pending rq ws out ok' unfolding fresh_decision_def
      by (intro conjI exI [of _ rq] exI [of _ plan]) (simp_all add: s1)
    with stage show ?thesis by blast
  qed
qed

section \<open>A decision that raises\<close>

lemma decision_undone:
  assumes d: "deciding s st rq" and tgt: "target = StageApproved \<or> target = StageRejected" and q: "quiet s"
    and run: "transaction (decision_body cfg ident st target v remark) s = (Inl e, t)"
  shows "restored st rq s t"
proof -
  obtain w where w: "decision_body cfg ident st target v remark (s, []) = (Inl e, w)"
    and t: "t = run_compensations (rev (snd w)) (fst w)"
    using run by (auto simp: transaction_Inl)
  have "saga_keeps quiet w"
    using preservesD [OF quiet_ops.decision_body, of "(s, [])" cfg ident st target v remark] q w
    by (simp add: saga_keeps_def)
  then have "net (fst w) = []" by (simp add: saga_keeps_def quiet_def)
  with triple_InlD [OF triple_decision_body [OF d tgt] at_state_start [OF quiet_lossless [OF q]] w]
  show ?thesis by (simp add: rolls_back_def t)
qed

text \<open>What a raising decision leaves: the state as it was, or the transaction undone, or, the decision
  committed, a stage whose row does not satisfy the domain model.\<close>

definition unreadable_decision ::
  "stage_status \<Rightarrow> identity \<Rightarrow> string option \<Rightarrow> stage_record \<Rightarrow> 'z db_scheme \<Rightarrow> 'z db_scheme \<Rightarrow> bool" where
  "unreadable_decision target ident remark st s t \<longleftrightarrow> st_status st = StagePending \<and>
     (\<exists>rq plan. rq \<in> set (t_requests s) \<and> rq_id rq = st_request_id st \<and>
        (target = StageApproved \<longrightarrow> plan_ok st rq plan s) \<and> status_move_ok target plan (rq_status rq) \<and>
        core t = core (decision_result target (id_user_id ident) remark st rq plan s)) \<and>
     \<not> is_ok (map_workflow_stage_record_to_domain (decided_row target (id_user_id ident) remark (clock s) st))"

lemma best_effort_Inl: "best_effort m s \<noteq> (Inl e, t)"
  by (auto simp: best_effort_def handle_def eff_simps split: prod.splits sum.splits)

lemma pure_engine_same: "engine_call r s = (x, t) \<Longrightarrow> t = s" "pure r s = (x, t) \<Longrightarrow> t = s"
  by (auto simp: engine_call_def catching_apply eff_simps split: sum.splits)

lemma decide_stage_Inl:
  assumes wf: "wf_db s" and q: "quiet s" and tgt: "target = StageApproved \<or> target = StageRejected"
    and run: "decide_stage cfg ident sid target expected remark s = (Inl e, t)"
  shows "t = s \<or> (\<exists>st rq. st \<in> set (t_stages s) \<and> st_id st = sid \<and> st_company_id st = id_company_id ident \<and>
      (rq \<in> set (t_requests s) \<and> rq_id rq = st_request_id st \<and> restored st rq s t \<or>
       unreadable_decision target ident remark st s t))"
proof (cases "fst (lookup_call (get_stage_for_company sid (id_company_id ident)) s)")
  case (Inl x)
  then have "lookup_call (get_stage_for_company sid (id_company_id ident)) s = (Inl e, t)"
    using run by (auto simp: decide_stage_def and_then_def split: prod.splits sum.splits)
  then have "same_data s t"
    using read_onlyD [OF read_only_calls(2) [OF read_only_stage_lookup]] by blast
  with q show ?thesis by (simp add: quiet_same)
next
  case (Inr st)
  then obtain u where u: "get_stage_for_company sid (id_company_id ident) s = (Inr st, u)"
    by (metis lookup_call_eq_Inr prod.collapse)
  note stage = get_stage_for_company_Inr [OF u]
  with q have us: "u = s" by (simp add: quiet_same)
  have lookup: "lookup_call (get_stage_for_company sid (id_company_id ident)) s = (Inr st, s)"
    using u us by simp
  note run' = run [unfolded decide_stage_def and_then_step [of "lookup_call _", OF lookup]]
  show ?thesis
  proof (cases "st_status st = target \<and> st_decided_by st = Some (id_user_id ident)")
    case True
    with run' have "replay_idempotent_decision st s = (Inl e, t)" by simp
    from read_onlyD [OF read_only_replay this] q show ?thesis by (simp add: quiet_same)
  next
    case False
    let ?v = "case expected of Some v \<Rightarrow> v | None \<Rightarrow> st_version st"
    let ?tx = "transaction (decision_body cfg ident st target ?v remark)"
    have body: "and_then (authorize_decision ident st) (\<lambda>_.
         and_then (engine_call (validate_stage_transition (st_status st) target)) (\<lambda>_.
         and_then ?tx (\<lambda>(dec, adv).
         and_then (best_effort (dispatch_post_decision_notifications cfg st (da_request_status adv)
             (da_notify_recipient_id adv))) (\<lambda>_.
         and_then (pure (map_workflow_stage_record_to_domain dec)) (\<lambda>ws.
           return \<lparr>ao_stage = ws, ao_request_status = da_request_status adv,
                   ao_current_stage_id = da_new_stage_id adv\<rparr>))))) s = (Inl e, t)"
      using run' by (simp only: if_not_P [OF False])
    consider (auth) "authorize_decision ident st s = (Inl e, t)"
      | (engine) x w where "authorize_decision ident st s = (Inr x, w)"
          "engine_call (validate_stage_transition (st_status st) target) w = (Inl e, t)"
      | (tx) x w y w' where "authorize_decision ident st s = (Inr x, w)"
          "engine_call (validate_stage_transition (st_status st) target) w = (Inr y, w')" "?tx w' = (Inl e, t)"
      | (late) x w y w' dec adv w3 z w4 where "authorize_decision ident st s = (Inr x, w)"
          "engine_call (validate_stage_transition (st_status st) target) w = (Inr y, w')" "?tx w' = (Inr (dec, adv), w3)"
          "best_effort (dispatch_post_decision_notifications cfg st (da_request_status adv)
             (da_notify_recipient_id adv)) w3 = (Inr z, w4)"
          "pure (map_workflow_stage_record_to_domain dec) w4 = (Inl e, t)"
      using body by (auto simp: and_then_eq_Inl best_effort_Inl eff_simps split: prod.splits)
    then show ?thesis
    proof cases
      case auth
      from read_onlyD [OF read_only_authorize auth] q show ?thesis by (simp add: quiet_same)
    next
      case engine
      from engine(1) have "w = s" by (simp add: authorize_decision_Inr)
      with pure_engine_same(1) [OF engine(2)] show ?thesis by simp
    next
      case tx
      have "w' = s" using tx(1,2) by (auto simp: authorize_decision_Inr)
      have "st_status st = StagePending" using tx(2) by (auto intro: stage_move_from_pending)
      with stage wf obtain rq where d: "deciding s st rq"
        using request_of_stage [OF wf, of st] by (auto simp: deciding_def)
      from decision_undone [OF d tgt q tx(3) [unfolded \<open>w' = s\<close>]] decidingD(10,11) [OF d] stage
      show ?thesis by blast
    next
      case late
      have "w' = s" using late(1,2) by (auto simp: authorize_decision_Inr)
      have "st_status st = StagePending" using late(2) by (auto intro: stage_move_from_pending)
      with stage wf obtain rq where d: "deciding s st rq"
        using request_of_stage [OF wf, of st] by (auto simp: deciding_def)
      obtain w0 where w0: "decision_body cfg ident st target ?v remark (s, []) = (Inr (dec, adv), w0)" "fst w0 = w3"
        using late(3) \<open>w' = s\<close> by (fastforce simp: transaction_Inr)
      have ok: "decision_ok target (id_user_id ident) ?v remark st rq s (dec, adv) w3"
        using triple_InrD [OF triple_decision_body [OF d tgt] at_state_start [OF quiet_lossless [OF q]] w0(1)] w0(2)
        by simp
      then obtain plan where "target = StageApproved \<longrightarrow> plan_ok st rq plan s" "status_move_ok target plan (rq_status rq)"
        "dec = decided_row target (id_user_id ident) remark (clock s) st"
        "core w3 = core (decision_result target (id_user_id ident) remark st rq plan s)"
        unfolding decision_ok_def by fastforce
      moreover have "core t = core w3" "\<not> is_ok (map_workflow_stage_record_to_domain dec)"
        using late(5) post_decision_core [OF late(4)] by (auto simp: eff_simps is_ok_def)
      moreover have "rq \<in> set (t_requests s)" "rq_id rq = st_request_id st" using d by (simp_all add: deciding_def)
      ultimately have "unreadable_decision target ident remark st s t"
        unfolding unreadable_decision_def using \<open>st_status st = StagePending\<close> by metis
      with stage show ?thesis by blast
    qed
  qed
qed

section \<open>The tables after a decision\<close>

definition opened_stages :: "stage_status \<Rightarrow> request_record \<Rightarrow> stage_plan option \<Rightarrow> 'z db_scheme \<Rightarrow> stage_record list" where
  "opened_stages target rq plan s = (case plan of
     Some p \<Rightarrow> if target = StageApproved
       then [new_stage_row (next_uuid s) (clock s) (rq_id rq) (rq_company_id rq) p] else []
   | None \<Rightarrow> [])"

lemma decision_result_tables:
  assumes "target = StageApproved \<or> target = StageRejected"
  shows "t_stages (decision_result target user remark st rq plan s) =
      map (\<lambda>y. if st_id y = st_id st then decided_row target user remark (clock s) st else y) (t_stages s) @
      opened_stages target rq plan s"
    "t_requests (decision_result target user remark st rq plan s) =
      map (\<lambda>y. if rq_id y = rq_id rq then moved_request target plan s rq else y) (t_requests s)"
    "t_profiles (decision_result target user remark st rq plan s) = t_profiles s"
    "t_definitions (decision_result target user remark st rq plan s) = t_definitions s"
    "\<exists>row. t_audit (decision_result target user remark st rq plan s) = t_audit s @ [row] \<and>
       au_company_id row = None \<and> au_request_id row = Some (st_request_id st) \<and> au_actor_id row = Some user"
  using assms
  by (auto simp: decision_result_def log_decision_def open_stage_state_def Let_def add_row_def opened_stages_def
      moved_request_def decided_row_def advanced_row_def decision_audit_row_def split: option.splits)

lemma summary_matches_request:
  "target = StageApproved \<or> target = StageRejected \<Longrightarrow>
   da_request_status (decision_summary target plan (next_uuid s)) = rq_status (moved_request target plan s rq) \<and>
   da_new_stage_id (decision_summary target plan (next_uuid s)) = rq_current_stage_id (moved_request target plan s rq)"
  by (auto simp: decision_summary_def moved_request_def advanced_row_def split: option.splits)

lemma row_ids [simp]:
  "st_id (decided_row target user remark now st) = st_id st"
  "st_request_id (decided_row target user remark now st) = st_request_id st"
  "st_company_id (decided_row target user remark now st) = st_company_id st"
  "st_stage_order (decided_row target user remark now st) = st_stage_order st"
  "st_status (decided_row target user remark now st) = target"
  "st_decided_by (decided_row target user remark now st) = Some user"
  "rq_id (moved_request target plan s rq) = rq_id rq"
  "rq_id (advanced_row c q f now rq) = rq_id rq"
  by (auto simp: decided_row_def moved_request_def advanced_row_def split: option.splits)

text \<open>A second, identical decision finds the decided stage and replays the outcome.\<close>

lemma replay_quiet:
  assumes q: "quiet s" and st: "filter (\<lambda>y. st_id y = sid) (t_stages s) = st # sts"
    and rq: "filter (\<lambda>y. rq_id y = st_request_id st) (t_requests s) = rq # rqs"
    and "st_company_id st = id_company_id ident" "st_status st = target" "st_decided_by st = Some (id_user_id ident)"
    and ws: "map_workflow_stage_record_to_domain st = Inr ws"
  shows "decide_stage cfg ident sid target expected remark s =
    (Inr \<lparr>ao_stage = ws, ao_request_status = rq_status rq, ao_current_stage_id = rq_current_stage_id rq\<rparr>, s)"
proof -
  have "get_stage_for_company sid (id_company_id ident) s = (Inr st, s)"
    using q stages.get_by_id_delivered [of s sid] st assms(4)
    by (simp add: get_stage_for_company_def get_stage_row_def quiet_def and_then_def eff_simps)
  then have "lookup_call (get_stage_for_company sid (id_company_id ident)) s = (Inr st, s)" by simp
  moreover have "lookup_call (get_request_row (st_request_id st)) s = (Inr rq, s)"
    using q requests.get_by_id_delivered [of s "st_request_id st"] rq by (simp add: get_request_row_def quiet_def)
  ultimately show ?thesis
    using assms(5,6) ws
    by (simp add: decide_stage_def replay_idempotent_decision_def and_then_def eff_simps
        del: lookup_call_eq_Inr)
qed

section \<open>Properties\<close>

lemma sample_wf: "wf_db (sample_db ds)"
  by (simp add: wf_db_def sample_defs check_stage_None check_request_None undecided_def)

lemma sample_quiet: "quiet (sample_db [])" "lossless (sample_db [])"
  by (simp_all add: quiet_def lossless_def sample_db_def)

text \<open>
  C1. An approval that returns was allowed (live session, the stage pending in the caller's company and
  assigned to the caller or the caller's role, the expected version the stored one) and has left exactly
  the tables \<open>decision_result\<close> describes: the stage approved, the request completed or moved to its newly
  opened next stage, one audit entry; or it repeats the caller's own earlier approval and has left the
  data alone. The outcome returned is the stored one.
\<close>

theorem approval_effect:
  assumes "wf_db s" "lossless s" "service_approve_stage cfg ident sid expected remark s = (Inr out, t)"
  shows "\<exists>st\<in>set (t_stages s). st_id st = sid \<and> st_company_id st = id_company_id ident \<and>
    (replayed_decision StageApproved ident st out s t \<or>
     fresh_decision StageApproved ident expected remark st out s t)"
  using decide_stage_Inr [OF assms(1,2)] assms(3) by (simp add: service_approve_stage_def)

lemma sample_approves:
  "is_ok (fst (service_approve_stage sample_config sample_approver 30 (Some 1) (Some ''fine'') (sample_db [])))"
  by code_simp

theorem approval_effect_witness:
  "\<exists>out t. service_approve_stage sample_config sample_approver 30 (Some 1) (Some ''fine'') (sample_db []) = (Inr out, t) \<and>
    (\<exists>st\<in>set (t_stages (sample_db [])). st_id st = 30 \<and> st_company_id st = id_company_id sample_approver \<and>
      (replayed_decision StageApproved sample_approver st out (sample_db []) t \<or>
       fresh_decision StageApproved sample_approver (Some 1) (Some ''fine'') st out (sample_db []) t))"
  using is_ok_run [OF sample_approves] approval_effect [OF sample_wf sample_quiet(2)] by blast

text \<open>
  C6. The same of a rejection, which also needs a note with something in it: the stage is rejected, the
  request rejected and closed, one audit entry written, and no stage opened.
\<close>

theorem rejection_effect:
  assumes "wf_db s" "lossless s" "service_reject_stage cfg ident sid expected remark s = (Inr out, t)"
  shows "strip remark \<noteq> [] \<and> (\<exists>st\<in>set (t_stages s). st_id st = sid \<and> st_company_id st = id_company_id ident \<and>
    (replayed_decision StageRejected ident st out s t \<or>
     fresh_decision StageRejected ident expected (Some remark) st out s t))"
  using decide_stage_Inr [OF assms(1,2)] assms(3) by (simp add: service_reject_stage_def eff_simps split: if_splits)

lemma sample_rejects:
  "is_ok (fst (service_reject_stage sample_config sample_approver 30 None ''no'' (sample_db [])))"
  by code_simp

theorem rejection_effect_witness:
  "\<exists>out t. service_reject_stage sample_config sample_approver 30 None ''no'' (sample_db []) = (Inr out, t) \<and>
    strip ''no'' \<noteq> [] \<and> (\<exists>st\<in>set (t_stages (sample_db [])). st_id st = 30 \<and>
      st_company_id st = id_company_id sample_approver \<and>
      (replayed_decision StageRejected sample_approver st out (sample_db []) t \<or>
       fresh_decision StageRejected sample_approver None (Some ''no'') st out (sample_db []) t))"
  using is_ok_run [OF sample_rejects] rejection_effect [OF sample_wf sample_quiet(2)] by blast

text \<open>
  C2. A decision that raises while the network is quiet has changed nothing but row versions, the
  request's touch time and the id supply; the one exception is a decision that committed and whose
  decided row then fails the domain model's validation.
\<close>

theorem failed_decision_undone:
  assumes "wf_db s" "quiet s"
    and "service_approve_stage cfg ident sid expected remark s = (Inl e, t) \<and> target = StageApproved \<or>
      service_reject_stage cfg ident sid expected (the remark) s = (Inl e, t) \<and> target = StageRejected \<and> remark \<noteq> None"
  shows "t = s \<or> (\<exists>st rq. st \<in> set (t_stages s) \<and> st_id st = sid \<and> st_company_id st = id_company_id ident \<and>
      (rq \<in> set (t_requests s) \<and> rq_id rq = st_request_id st \<and> restored st rq s t \<or>
       unreadable_decision target ident remark st s t))"
  using decide_stage_Inl [OF assms(1,2), of target cfg ident sid expected remark e t] assms(3)
  by (auto simp: service_approve_stage_def service_reject_stage_def eff_simps split: if_splits)

text \<open>The instance: the definition the request runs on has lost its stages, so the plan for the next
  stage raises after the approval has been written.\<close>

definition broken_db :: db where
  "broken_db = (sample_db [])\<lparr>t_definitions := [sample_workflow\<lparr>df_definition := []\<rparr>]\<rparr>"

lemma broken_wf: "wf_db broken_db" "quiet broken_db"
  by (simp_all add: broken_db_def quiet_def wf_db_def sample_defs check_stage_None check_request_None undecided_def)

lemma broken_fails: "\<not> is_ok (fst (service_approve_stage sample_config sample_approver 30 None None broken_db))"
  by code_simp

theorem failed_decision_undone_witness:
  "\<exists>e t. service_approve_stage sample_config sample_approver 30 None None broken_db = (Inl e, t) \<and>
    (t = broken_db \<or> (\<exists>st rq. st \<in> set (t_stages broken_db) \<and> st_id st = 30 \<and>
      st_company_id st = id_company_id sample_approver \<and>
      (rq \<in> set (t_requests broken_db) \<and> rq_id rq = st_request_id st \<and> restored st rq broken_db t \<or>
       unreadable_decision StageApproved sample_approver None st broken_db t)))"
proof -
  obtain e t where run: "service_approve_stage sample_config sample_approver 30 None None broken_db = (Inl e, t)"
    using not_ok_run [OF broken_fails] by blast
  with failed_decision_undone [OF broken_wf, of sample_config sample_approver 30 None None e t StageApproved]
  show ?thesis by auto
qed

lemma filter_opened:
  "wf_db s \<Longrightarrow> st \<in> set (t_stages s) \<Longrightarrow> filter (\<lambda>y. st_id y = st_id st) (opened_stages target rq plan s) = []"
  using wf_stageD [of s st] by (auto simp: opened_stages_def new_stage_row_def split: option.splits)

lemma decision_repeats_aux:
  assumes wf: "wf_db s" and q: "quiet s" and tgt: "target = StageApproved \<or> target = StageRejected"
    and run: "decide_stage cfg ident sid target expected remark s = (Inr out, t)"
  shows "decide_stage cfg ident sid target expected' remark' t = (Inr out, t)"
proof -
  obtain st where st: "st \<in> set (t_stages s)" "st_id st = sid" "st_company_id st = id_company_id ident"
    and alt: "replayed_decision target ident st out s t \<or> fresh_decision target ident expected remark st out s t"
    using decide_stage_Inr [OF wf quiet_lossless [OF q] tgt run] by blast
  have qt: "quiet t" using preservesD [OF quiet_ops.decide, of s cfg ident sid target expected remark] q run by simp
  have only: "filter (\<lambda>y. st_id y = sid) (t_stages s) = [st]"
    using wf_stageD(1) [OF wf st(1)] st(2) by (simp add: only_row_def)
  have only_rq: "filter (\<lambda>y. rq_id y = st_request_id st) (t_requests s) = [rq]"
    if "rq \<in> set (t_requests s)" "rq_id rq = st_request_id st" for rq
    using wf_requestD(1) [OF wf that(1)] that(2) by (simp add: only_row_def)
  from alt show ?thesis
  proof
    assume r: "replayed_decision target ident st out s t"
    then have "t = s" using q by (simp add: replayed_decision_def quiet_same)
    obtain rq where "rq \<in> set (t_requests s)" "rq_id rq = st_request_id st" "ao_request_status out = rq_status rq"
      "ao_current_stage_id out = rq_current_stage_id rq"
      using r by (auto simp: replayed_decision_def)
    with replay_quiet [OF q only only_rq] r st(3) \<open>t = s\<close> show ?thesis
      by (auto simp: replayed_decision_def)
  next
    assume f: "fresh_decision target ident expected remark st out s t"
    then obtain rq plan where rq: "rq \<in> set (t_requests s)" "rq_id rq = st_request_id st"
      and core: "core t = core (decision_result target (id_user_id ident) remark st rq plan s)"
      and ws: "map_workflow_stage_record_to_domain (decided_row target (id_user_id ident) remark (clock s) st) =
          Inr (ao_stage out)"
      and out: "ao_request_status out = da_request_status (decision_summary target plan (next_uuid s))"
        "ao_current_stage_id out = da_new_stage_id (decision_summary target plan (next_uuid s))"
      by (auto simp: fresh_decision_def)
    let ?dec = "decided_row target (id_user_id ident) remark (clock s) st"
    have "filter (\<lambda>y. st_id y = sid) (t_stages t) = [?dec]"
      using core only filter_put [of st_id sid "t_stages s" st ?dec] filter_opened [OF wf st(1), of target rq plan] st(2)
      by (simp add: core_fields decision_result_tables [OF tgt])
    moreover have "filter (\<lambda>y. rq_id y = st_request_id ?dec) (t_requests t) = [moved_request target plan s rq]"
      using core only_rq [OF rq] filter_put [of rq_id "rq_id rq" "t_requests s" rq "moved_request target plan s rq"] rq(2)
      by (simp add: core_fields decision_result_tables [OF tgt])
    ultimately show ?thesis
      using replay_quiet [OF qt _ _ _ _ _ ws, of sid "[]"] st(3) out summary_matches_request [OF tgt, of plan s rq]
      by simp
  qed
qed

text \<open>
  C7. A decision can be sent again: over a quiet network, the same caller repeating a decision that
  returned, with any expected version and note, gets the same outcome and nothing is written.
\<close>

theorem decision_repeats:
  assumes "wf_db s" "quiet s" "target = StageApproved \<or> target = StageRejected"
    and "decide_stage cfg ident sid target expected remark s = (Inr out, t)"
  shows "decide_stage cfg ident sid target expected' remark' t = (Inr out, t)"
  by (rule decision_repeats_aux [OF assms])

theorem decision_repeats_witness:
  "\<exists>out t. decide_stage sample_config sample_approver 30 StageApproved (Some 1) (Some ''fine'') (sample_db []) = (Inr out, t) \<and>
     decide_stage sample_config sample_approver 30 StageApproved (Some 1) (Some ''fine'') t = (Inr out, t)"
proof -
  obtain out t where "decide_stage sample_config sample_approver 30 StageApproved (Some 1) (Some ''fine'') (sample_db []) = (Inr out, t)"
    using is_ok_run [OF sample_approves] by (auto simp: service_approve_stage_def)
  with decision_repeats [OF sample_wf sample_quiet(1), of StageApproved] show ?thesis by blast
qed

lemma decided_stage_stays:
  assumes only: "filter (\<lambda>y. st_id y = sid) (t_stages s) = [st]" and decided: "st_status st \<noteq> StagePending"
    and other: "\<not> (st_status st = target \<and> st_decided_by st = Some (id_user_id ident))"
  shows "\<exists>e t. decide_stage cfg ident sid target expected remark s = (Inl e, t) \<and> same_data s t"
proof (cases "get_stage_for_company sid (id_company_id ident) s")
  case (Pair r u)
  have su: "same_data s u" by (rule read_onlyD [OF read_only_stage_lookup Pair])
  show ?thesis
  proof (cases r)
    case (Inl e)
    with Pair su show ?thesis
      by (auto simp: decide_stage_def and_then_def lookup_call_def catching_apply)
  next
    case (Inr x)
    with get_stage_for_company_Inr [of sid "id_company_id ident" s x u] Pair
    have "x \<in> set (filter (\<lambda>y. st_id y = sid) (t_stages s))" by auto
    with only have x: "x = st" by simp
    with Pair Inr have l: "lookup_call (get_stage_for_company sid (id_company_id ident)) s = (Inr st, u)" by simp
    obtain r2 w where a: "authorize_decision ident st u = (r2, w)" by (cases "authorize_decision ident st u")
    have "is_expired (clock u) ident \<or> \<not> can_decide_stage (id_role ident) (st_assigned_to st = Some (id_user_id ident))
       (st_assigned_role st = Some (id_role ident)) (st_status st = StagePending)"
      using decided by (auto simp: can_decide_stage_def)
    with a have "\<exists>e. r2 = Inl e" by (cases r2) (auto simp: authorize_decision_Inr)
    with a have "\<exists>e. authorize_decision ident st u = (Inl e, w)" "same_data u w"
      using read_onlyD [OF read_only_authorize a] by auto
    with su other show ?thesis
      unfolding decide_stage_def and_then_step [of "lookup_call _", OF l]
      by (auto simp: and_then_def intro: same_data_trans)
  qed
qed

text \<open>
  C8. A decided stage stays as it is, whatever the network does: a second decision of it, by anyone
  else or the other way round, raises and changes no data.
\<close>

theorem decided_stage_is_final:
  assumes "filter (\<lambda>y. st_id y = sid) (t_stages s) = [st]" "st_status st \<noteq> StagePending"
    and "\<not> (st_status st = target \<and> st_decided_by st = Some (id_user_id ident))"
  shows "\<exists>e t. decide_stage cfg ident sid target expected remark s = (Inl e, t) \<and> same_data s t"
  by (rule decided_stage_stays [OF assms])

definition decided_db :: "delivery list \<Rightarrow> db" where
  "decided_db ds = (sample_db ds)\<lparr>t_stages := [sample_open_stage\<lparr>st_status := StageRejected, st_decided_by := Some 3\<rparr>]\<rparr>"

theorem decided_stage_is_final_witness:
  "\<exists>e t. decide_stage sample_config sample_approver 30 StageApproved None None (decided_db [RequestLost]) = (Inl e, t) \<and>
     same_data (decided_db [RequestLost]) t"
  by (rule decided_stage_is_final [where st = "sample_open_stage\<lparr>st_status := StageRejected, st_decided_by := Some 3\<rparr>"])
    (simp_all add: decided_db_def sample_defs)

text \<open>
  Companies are kept apart: for a stage that is not in the caller's company, a decision raises and
  changes no data. Over a quiet network the exception says which of the two it is: the name in it is
  \<open>workflow_stage\<close> for another company's stage and \<open>workflow_stages\<close> for an unknown id.
\<close>

theorem foreign_stage_not_found:
  assumes "\<And>st. st \<in> set (t_stages s) \<Longrightarrow> st_id st = sid \<Longrightarrow> st_company_id st \<noteq> id_company_id ident"
  shows "\<exists>e t. decide_stage cfg ident sid target expected remark s = (Inl e, t) \<and> same_data s t \<and>
    (quiet s \<longrightarrow> e = Service (NotFoundError
       (if sid \<in> st_id ` set (t_stages s) then ''workflow_stage'' else ''workflow_stages'') (ById sid)))"
proof -
  obtain r t where g: "get_stage_for_company sid (id_company_id ident) s = (r, t)"
    by (cases "get_stage_for_company sid (id_company_id ident) s")
  from g get_stage_for_company_Inr assms have "\<exists>e. r = Inl e" by (cases r) blast+
  then obtain e where e: "r = Inl e" by blast
  have known: "filter (\<lambda>y. st_id y = sid) (t_stages s) = [] \<longleftrightarrow> sid \<notin> st_id ` set (t_stages s)"
    by (auto simp: filter_empty_conv)
  have "quiet s \<longrightarrow> e = Raised (Db (RecordNotFoundError
      (if sid \<in> st_id ` set (t_stages s) then ''workflow_stage'' else ''workflow_stages'') sid))"
    using g e stages.get_by_id_delivered [of s sid] known
    by (auto simp: get_stage_for_company_def get_stage_row_def quiet_def and_then_def eff_simps
        split: list.splits if_splits)
  with g e read_onlyD [OF read_only_stage_lookup g] show ?thesis
    by (auto simp: decide_stage_def and_then_def lookup_call_def catching_apply)
qed

definition sample_stranger :: identity where "sample_stranger = identity_of 9 Admin 8"

theorem foreign_stage_not_found_witness:
  "\<exists>e t. decide_stage sample_config sample_stranger 30 StageApproved None None (sample_db [RequestLost]) = (Inl e, t) \<and>
     same_data (sample_db [RequestLost]) t"
  using foreign_stage_not_found [of "sample_db [RequestLost]" 30 sample_stranger sample_config StageApproved None None]
  by (simp add: sample_stranger_def sample_defs) blast

text \<open>
  An approval note of nothing but blanks is never accepted with success: the approval is committed
  and the call raises, so only the repetition of an earlier approval returns.
\<close>

theorem blank_approval_note:
  assumes "wf_db s" "lossless s" "strip n = []"
    and "service_approve_stage cfg ident sid expected (Some n) s = (Inr out, t)"
  shows "same_data s t \<and> (\<exists>st\<in>set (t_stages s). st_id st = sid \<and> st_status st = StageApproved)"
proof -
  have "\<not> fresh_decision StageApproved ident expected (Some n) st out s t" for st
    using assms(3) by (auto simp: fresh_decision_def map_workflow_stage_record_to_domain_def WorkflowStage_def
        Let_def decided_row_def decision_note_ok_def split: if_splits)
  with decide_stage_Inr [OF assms(1,2)] assms(4) show ?thesis
    unfolding service_approve_stage_def replayed_decision_def by blast
qed

text \<open>The instance: the stage was approved before, without a note.\<close>

definition approved_db :: "delivery list \<Rightarrow> db" where
  "approved_db ds = (sample_db ds)\<lparr>t_stages := [sample_open_stage\<lparr>st_status := StageApproved, st_decided_by := Some 3\<rparr>]\<rparr>"

lemma approved_wf: "wf_db (approved_db [])" "quiet (approved_db [])"
  by (simp_all add: approved_db_def quiet_def wf_db_def sample_defs check_stage_None check_request_None)

lemma approved_replays:
  "is_ok (fst (service_approve_stage sample_config sample_approver 30 None (Some '' '') (approved_db [])))"
  by code_simp

theorem blank_approval_note_witness:
  "\<exists>out t. service_approve_stage sample_config sample_approver 30 None (Some '' '') (approved_db []) = (Inr out, t) \<and>
    same_data (approved_db []) t \<and>
    (\<exists>st\<in>set (t_stages (approved_db [])). st_id st = 30 \<and> st_status st = StageApproved)"
proof -
  have blank: "strip '' '' = []" by code_simp
  show ?thesis
    using is_ok_run [OF approved_replays]
      blank_approval_note [OF approved_wf(1) quiet_lossless [OF approved_wf(2)] blank] by blast
qed

text \<open>On the fresh stage the same call raises, and the stage is approved all the same.\<close>

lemma blank_note_commits:
  "\<not> is_ok (fst (service_approve_stage sample_config sample_approver 30 None (Some '' '') (sample_db [])))"
  "map st_status (t_stages (snd (service_approve_stage sample_config sample_approver 30 None (Some '' '') (sample_db [])))) =
     [StageApproved, StagePending]"
  by code_simp+

section \<open>What the company's audit trail shows of a decision\<close>

lemma list_audit_all_quiet:
  "quiet s \<Longrightarrow> list_audit_all c a act f b p s =
    (Inr \<lparr>res_items = row_range (page_offset p) (page_upper_bound p) (order_desc au_created_at (filter (\<lambda>x.
         au_company_id x = Some c \<and> some_filter au_actor_id a x \<and> eq_filter au_action act x \<and>
         gte_filter au_created_at f x \<and> lte_filter au_created_at b x) (t_audit s))),
       res_page = pg_number p, res_page_size = pg_size p,
       res_total_records = int (length (order_desc au_created_at (filter (\<lambda>x.
         au_company_id x = Some c \<and> some_filter au_actor_id a x \<and> eq_filter au_action act x \<and>
         gte_filter au_created_at f x \<and> lte_filter au_created_at b x) (t_audit s))))\<rparr>, s)"
  by (simp add: list_audit_all_def paginate_def and_then_def execute_gets_reliable quiet_def eff_simps)

text \<open>
  A fresh decision writes one audit entry, naming the request and the decider, but without the
  company: what \<open>list_all\<close> lists of any company's trail, under any filter and on any page, is the same
  before and after the decision.
\<close>

theorem decision_unlisted_in_company_trail:
  assumes "wf_db s" "quiet s" "target = StageApproved \<or> target = StageRejected"
    and "decide_stage cfg ident sid target expected remark s = (Inr out, t)"
    and "\<And>st. st \<in> set (t_stages s) \<Longrightarrow> st_id st = sid \<Longrightarrow> st_status st = StagePending"
  shows "(\<exists>row st. t_audit t = t_audit s @ [row] \<and> st \<in> set (t_stages s) \<and> st_id st = sid \<and>
      au_request_id row = Some (st_request_id st) \<and> au_actor_id row = Some (id_user_id ident)) \<and>
    fst (list_audit_all c a act f b p t) = fst (list_audit_all c a act f b p s)"
proof -
  have "quiet t" using preservesD [OF quiet_ops.decide, of s cfg ident sid target expected remark] assms(2,4) by simp
  obtain st where st: "st \<in> set (t_stages s)" "st_id st = sid"
    and alt: "replayed_decision target ident st out s t \<or> fresh_decision target ident expected remark st out s t"
    using decide_stage_Inr [OF assms(1) quiet_lossless [OF assms(2)] assms(3,4)] by blast
  have "fresh_decision target ident expected remark st out s t"
    using alt assms(3) assms(5) [OF st] by (auto simp: replayed_decision_def)
  then obtain rq plan where "core t = core (decision_result target (id_user_id ident) remark st rq plan s)"
    by (auto simp: fresh_decision_def)
  with decision_result_tables(5) [OF assms(3), of "id_user_id ident" remark st rq plan s]
  obtain row where "t_audit t = t_audit s @ [row]" "au_company_id row = None"
    "au_request_id row = Some (st_request_id st)" "au_actor_id row = Some (id_user_id ident)"
    by (auto simp: core_fields)
  with st \<open>quiet t\<close> assms(2) show ?thesis by (auto simp: list_audit_all_quiet)
qed

theorem decision_unlisted_in_company_trail_witness:
  "\<exists>out t. decide_stage sample_config sample_approver 30 StageApproved (Some 1) (Some ''fine'') (sample_db []) = (Inr out, t) \<and>
    fst (list_audit_all 7 None None None None (page_of_size 20) t) =
    fst (list_audit_all 7 None None None None (page_of_size 20) (sample_db []))"
proof -
  obtain out t where run: "decide_stage sample_config sample_approver 30 StageApproved (Some 1) (Some ''fine'') (sample_db []) = (Inr out, t)"
    using is_ok_run [OF sample_approves] by (auto simp: service_approve_stage_def)
  have "\<And>st. st \<in> set (t_stages (sample_db [])) \<Longrightarrow> st_id st = 30 \<Longrightarrow> st_status st = StagePending"
    by (simp add: sample_defs)
  with decision_unlisted_in_company_trail [OF sample_wf sample_quiet(1) _ run] run show ?thesis by blast
qed

end
