(* ===== verification/Escalation.thy ===== *)
theory Escalation imports Approval
begin

text \<open>
  \<open>ApprovalService.escalate_stage\<close>, which the scheduler's escalation job calls: what it writes, that a
  failure of its audit entry is undone, and that it takes a stage as it finds it, decided or not.
\<close>

definition escalated_row :: "stage_record \<Rightarrow> stage_record" where
  "escalated_row st = st\<lparr>st_assigned_to := None, st_assigned_role := Some Admin, st_version := st_version st + 1\<rparr>"

definition escalation_audit_row :: "uuid \<Rightarrow> timestamp \<Rightarrow> stage_record \<Rightarrow> audit_record" where
  "escalation_audit_row new_id now st =
     \<lparr>au_id = new_id, au_actor_id = None, au_request_id = Some (st_request_id st),
      au_action = audit_action_value STAGE_ESCALATED,
      au_metadata = Some [(''stage_id'', MetaId (st_id st)), (''previous_assigned_to'', meta_id (st_assigned_to st)),
        (''previous_assigned_role'', meta_text (map_option user_role_value (st_assigned_role st)))],
      au_created_at = now, au_company_id = None\<rparr>"

definition escalation_result :: "stage_record \<Rightarrow> 'z db_scheme \<Rightarrow> 'z db_scheme" where
  "escalation_result st s =
     (add_row audit_table (escalation_audit_row (next_uuid s) (clock s) st)
       (put_row stage_table (escalated_row st) s))\<lparr>next_uuid := Suc (next_uuid s)\<rparr>"

lemma escalated_ids [simp]: "st_id (escalated_row st) = st_id st"
  by (simp add: escalated_row_def)

lemma escalate_row_put:
  assumes "lossless s" "only_row stage_table st s"
    and "escalate_stage_row (st_id st) (st_version st) None (Some Admin) s = (r, t)"
  shows "case r of
      Inr x \<Rightarrow> x = escalated_row st \<and> (\<exists>ds. set ds \<subseteq> set (net s) \<and> t = (put_row stage_table x s)\<lparr>net := ds\<rparr>)
    | Inl e \<Rightarrow> same_data s t"
proof -
  have "update_with_optimistic_lock stage_table (st_id st) (st_version st)
      (\<lambda>st. st\<lparr>st_assigned_to := None, st_assigned_role := Some Admin\<rparr>) s = (r, t)"
    using assms(3) by (simp add: escalate_stage_row_def)
  from stage_locked_put [OF assms(1) this assms(2)] show ?thesis
    by (auto simp: escalated_row_def split: sum.splits)
qed

definition escalation_log :: "stage_record \<Rightarrow> ('z db_scheme, audit_record) eff" where
  "escalation_log st = record_event (audit_action_value STAGE_ESCALATED) None (Some (st_request_id st))
     (Some [(''stage_id'', MetaId (st_id st)), (''previous_assigned_to'', meta_id (st_assigned_to st)),
        (''previous_assigned_role'', meta_text (map_option user_role_value (st_assigned_role st)))]) None"

lemma escalation_log_add:
  assumes "lossless s" "escalation_log st s = (r, t)"
  shows "case r of
      Inr x \<Rightarrow> \<exists>ds. set ds \<subseteq> set (net s) \<and> t = (add_row audit_table (escalation_audit_row (next_uuid s) (clock s) st) s)
         \<lparr>next_uuid := Suc (next_uuid s), net := ds\<rparr>
    | Inl e \<Rightarrow> same_data s t"
  using audits.insert_lossless [OF assms(1) assms(2) [unfolded escalation_log_def record_event_def]]
  by (auto simp: escalation_audit_row_def add_row_def split: sum.splits)

lemma escalation_body_runs:
  "escalation_body st (plan_escalation (st_assigned_to st) (st_assigned_role st)) =
     and_then (perform (db_call (escalate_stage_row (st_id st) (st_version st) None (Some Admin)))) (\<lambda>re.
     and_then (register_compensation (and_then (escalate_stage_row (st_id st) (st_version re)
         (st_assigned_to st) (st_assigned_role st)) (\<lambda>_. return ()))) (\<lambda>_.
     and_then (perform (db_call (escalation_log st))) (\<lambda>_. return re)))"
  by (simp add: escalation_body_def plan_escalation_def escalation_log_def ESCALATION_FALLBACK_ROLE_def)

lemma escalation_commits:
  assumes ll: "lossless s" and only: "only_row stage_table st s"
    and run: "transaction (escalation_body st (plan_escalation (st_assigned_to st) (st_assigned_role st))) s = (Inr re, t)"
  shows "re = escalated_row st \<and> core t = core (escalation_result st s) \<and> Suc (next_uuid s) = next_uuid t"
proof -
  obtain u a where e: "escalate_stage_row (st_id st) (st_version st) None (Some Admin) s = (Inr re, u)"
    and l: "escalation_log st u = (Inr a, t)"
    using run unfolding escalation_body_runs transaction_Inr
    by (auto simp: saga_steps)
  from escalate_row_put [OF ll only e] obtain ds where u: "re = escalated_row st"
    "set ds \<subseteq> set (net s)" "u = (put_row stage_table (escalated_row st) s)\<lparr>net := ds\<rparr>" by auto
  then have "lossless u" using ll by (auto simp: lossless_def)
  from escalation_log_add [OF this l] u show ?thesis
    by (auto simp: escalation_result_def core_def add_row_def)
qed

lemma escalation_undone:
  assumes q: "quiet s" and only: "only_row stage_table st s" and chk: "check_stage s st = None"
    and run: "transaction (escalation_body st (plan_escalation (st_assigned_to st) (st_assigned_role st))) s = (Inl e, t)"
  shows "t = s \<or> t = put_row stage_table (st\<lparr>st_version := st_version st + 2\<rparr>) s"
proof -
  let ?esc = "escalate_stage_row (st_id st) (st_version st) None (Some Admin)"
  let ?prior = "st\<lparr>st_version := st_version st + 2\<rparr>"
  consider (first) e' where "?esc s = (Inl e', t)"
    | (log) re u e' where "?esc s = (Inr re, u)" "escalation_log st u = (Inl e', snd (escalation_log st u))"
        "t = snd (and_then (escalate_stage_row (st_id st) (st_version re) (st_assigned_to st) (st_assigned_role st))
          (\<lambda>_. return ()) (snd (escalation_log st u)))"
    using run unfolding escalation_body_runs transaction_Inl
    by (auto simp: saga_steps dest!: db_call_Inl)
  then show ?thesis
  proof cases
    case first
    from escalate_row_put [OF quiet_lossless [OF q] only first] q show ?thesis by (simp add: quiet_same)
  next
    case log
    from escalate_row_put [OF quiet_lossless [OF q] only log(1)] q
    have re: "re = escalated_row st" and u: "u = put_row stage_table (escalated_row st) s"
      by (auto simp: quiet_def)
    then have qu: "quiet u" using q by (simp add: quiet_def)
    from escalation_log_add [OF quiet_lossless [OF qu] log(2)] qu have lu: "snd (escalation_log st u) = u"
      by (simp add: quiet_same)
    have only_u: "only_row stage_table (escalated_row st) u"
      unfolding u by (rule stages.only_put [OF only]) simp
    let ?f = "\<lambda>x. x\<lparr>st_assigned_to := st_assigned_to st, st_assigned_role := st_assigned_role st\<rparr>"
    have w: "(?f (escalated_row st))\<lparr>st_version := st_version (escalated_row st) + 1\<rparr> = ?prior"
      by (cases st) (simp add: escalated_row_def)
    have "check_stage u ?prior = None"
      by (rule check_stage_again [OF chk]) (auto simp: u)
    then have "update_with_optimistic_lock stage_table (st_id (escalated_row st)) (st_version (escalated_row st)) ?f u =
        (Inr ?prior, put_row stage_table ?prior u)"
      using stage_delivered_put [OF _ only_u, of ?f] qu w by (simp add: quiet_def)
    then have "t = put_row stage_table ?prior u"
      using log(3) by (simp add: lu re escalate_stage_row_def and_then_def eff_simps)
    then show ?thesis using stages.put_put [of ?prior "escalated_row st" s] by (simp add: u)
  qed
qed

section \<open>The service operation\<close>

definition escalation_notice :: "service_config \<Rightarrow> stage_record \<Rightarrow> stage_record \<Rightarrow> ('z db_scheme, unit) eff" where
  "escalation_notice cfg st re =
     (case st_assigned_to re of
        None \<Rightarrow> return ()
      | Some recipient \<Rightarrow> best_effort (and_then (notify_escalation (sc_notify cfg) recipient (st_request_id st)
          (''Stage '' @ [CHR 0x27] @ st_stage_name st @ [CHR 0x27] @ '' has been escalated to you.''))
          (\<lambda>_. return ())))"

lemma escalate_runs:
  "service_escalate_stage cfg sid =
     and_then (lookup_call (get_stage_row sid)) (\<lambda>st.
     and_then (transaction (escalation_body st (plan_escalation (st_assigned_to st) (st_assigned_role st)))) (\<lambda>re.
     and_then (escalation_notice cfg st re) (\<lambda>_. pure (map_workflow_stage_record_to_domain re))))"
  by (simp add: service_escalate_stage_def escalation_notice_def Let_def)

lemma escalation_notice_none: "escalation_notice cfg st (escalated_row st) = return ()"
  by (simp add: escalation_notice_def escalated_row_def)

text \<open>
  C27. An escalation that returns has handed the stage to the administrators' queue and written one audit
  entry with no actor; nothing else of the workflow tables has changed. The stage's status plays no part:
  a stage decided in the meantime is reassigned like a pending one.
\<close>

theorem escalation_effect:
  assumes "wf_db s" "lossless s" "service_escalate_stage cfg sid s = (Inr ws, t)"
  shows "\<exists>st\<in>set (t_stages s). st_id st = sid \<and> core t = core (escalation_result st s) \<and>
    map_workflow_stage_record_to_domain (escalated_row st) = Inr ws"
proof -
  obtain st u re v w where g: "get_by_id stage_table sid s = (Inr st, u)"
    and tx: "transaction (escalation_body st (plan_escalation (st_assigned_to st) (st_assigned_role st))) u = (Inr re, v)"
    and n: "escalation_notice cfg st re v = (Inr (), w)" "(map_workflow_stage_record_to_domain re, w) = (Inr ws, t)"
    using assms(3) unfolding escalate_runs by (auto simp: and_then_eq_Inr get_stage_row_def pure_def)
  obtain ds where u: "u = s\<lparr>net := ds\<rparr>" "set ds \<subseteq> set (net s)" and st: "st \<in> set (t_stages s)" "st_id st = sid"
    using stages.get_by_id_Inr [OF g] read_onlyD [OF read_only_get_by_id g] by (auto simp: same_data_def)
  have "only_row stage_table st u" using wf_stageD [OF assms(1) st(1)] u(1) by (simp add: only_row_def)
  moreover have "lossless u" using assms(2) u by (auto simp: lossless_def)
  ultimately have "re = escalated_row st" "core v = core (escalation_result st u)"
    using escalation_commits tx by blast+
  moreover have "core (escalation_result st u) = core (escalation_result st s)"
    by (simp add: u(1) escalation_result_def core_def add_row_def)
  ultimately show ?thesis using n st by (auto simp: escalation_notice_none return_eq)
qed

text \<open>
  An escalation that raises on a quiet network has left the data alone or put the assignment back
  (only the stage's version has moved), or has committed and found the stage's row outside the domain
  model.
\<close>

theorem failed_escalation_undone:
  assumes "wf_db s" "quiet s" "service_escalate_stage cfg sid s = (Inl e, t)"
  shows "t = s \<or> (\<exists>st\<in>set (t_stages s). st_id st = sid \<and>
    (t = put_row stage_table (st\<lparr>st_version := st_version st + 2\<rparr>) s \<or>
     core t = core (escalation_result st s) \<and> \<not> is_ok (map_workflow_stage_record_to_domain (escalated_row st))))"
proof -
  consider (none) "lookup_call (get_stage_row sid) s = (Inl e, t)"
    | (found) st u where "get_by_id stage_table sid s = (Inr st, u)"
      "and_then (transaction (escalation_body st (plan_escalation (st_assigned_to st) (st_assigned_role st)))) (\<lambda>re.
       and_then (escalation_notice cfg st re) (\<lambda>_. pure (map_workflow_stage_record_to_domain re))) u = (Inl e, t)"
    using assms(3) unfolding escalate_runs by (auto simp: and_then_eq_Inl [of "lookup_call _"] get_stage_row_def)
  then show ?thesis
  proof cases
    case none
    have "read_only (lookup_call (get_stage_row sid))" unfolding get_stage_row_def by (intro reading)
    from read_onlyD [OF this none] assms(2) show ?thesis by (simp add: quiet_same)
  next
    case found
    have u: "u = s" using read_onlyD [OF read_only_get_by_id found(1)] assms(2) by (simp add: quiet_same)
    have st: "st \<in> set (t_stages s)" "st_id st = sid" using stages.get_by_id_Inr [OF found(1)] by auto
    note row = wf_stageD [OF assms(1) st(1)]
    show ?thesis
    proof (cases "transaction (escalation_body st (plan_escalation (st_assigned_to st) (st_assigned_role st))) s")
      case (Pair r v)
      show ?thesis
      proof (cases r)
        case (Inl e')
        with Pair found(2) u have "v = t" by (simp add: and_then_def)
        with escalation_undone [OF assms(2)] row Pair Inl st show ?thesis by blast
      next
        case (Inr re)
        with Pair row quiet_lossless [OF assms(2)] escalation_commits
        have re: "re = escalated_row st" "core v = core (escalation_result st s)" by blast+
        with found(2) u Pair Inr have "(map_workflow_stage_record_to_domain (escalated_row st), v) = (Inl e, t)"
          by (simp add: and_then_def escalation_notice_none return_def pure_def)
        with re(2) st show ?thesis by (auto simp: is_ok_def)
      qed
    qed
  qed
qed

lemma decided_escalates: "is_ok (fst (service_escalate_stage sample_config 30 (decided_db [])))"
  by code_simp

lemma decided_wf: "wf_db (decided_db ds)"
  by (simp add: decided_db_def wf_db_def sample_defs check_stage_None check_request_None)

lemma decided_quiet: "quiet (decided_db [])" "lossless (decided_db [])"
  by (simp_all add: decided_db_def quiet_def lossless_def sample_db_def)

text \<open>The instance escalates a stage that has been rejected.\<close>

theorem escalation_effect_witness:
  "\<exists>ws t. service_escalate_stage sample_config 30 (decided_db []) = (Inr ws, t) \<and>
    (\<exists>st\<in>set (t_stages (decided_db [])). st_id st = 30 \<and> core t = core (escalation_result st (decided_db [])) \<and>
      map_workflow_stage_record_to_domain (escalated_row st) = Inr ws)"
  using is_ok_run [OF decided_escalates] escalation_effect [OF decided_wf decided_quiet(2)] by blast

lemma unknown_escalation_fails: "\<not> is_ok (fst (service_escalate_stage sample_config 31 (sample_db [])))"
  by code_simp

theorem failed_escalation_undone_witness:
  "\<exists>e t. service_escalate_stage sample_config 31 (sample_db []) = (Inl e, t) \<and>
    (t = sample_db [] \<or> (\<exists>st\<in>set (t_stages (sample_db [])). st_id st = 31 \<and>
      (t = put_row stage_table (st\<lparr>st_version := st_version st + 2\<rparr>) (sample_db []) \<or>
       core t = core (escalation_result st (sample_db [])) \<and> \<not> is_ok (map_workflow_stage_record_to_domain (escalated_row st)))))"
  using not_ok_run [OF unknown_escalation_fails] failed_escalation_undone [OF sample_wf sample_quiet(1)] by blast

end
