(* ===== verification/Integrity.thy ===== *)
theory Integrity imports Escalation RequestService DefinitionService
begin

text \<open>
  The database's referential integrity (\<open>wf_db\<close>: keys distinct and below the id supply, every request
  and stage within its table's constraints, a pending stage undecided) is kept by every statement of the
  repositories, and so by every operation of the services, over any network.
\<close>

section \<open>Statements\<close>

lemma net_stable_wf [intro, simp]: "net_stable wf_db"
  by (simp add: net_stable_def)

lemma wf_dbI:
  assumes "distinct (map st_id (t_stages s))" "distinct (map rq_id (t_requests s))"
    and "\<And>st. st \<in> set (t_stages s) \<Longrightarrow> st_id st < next_uuid s"
    and "\<And>st. st \<in> set (t_stages s) \<Longrightarrow> check_stage s st = None"
    and "\<And>st. st \<in> set (t_stages s) \<Longrightarrow> st_status st = StagePending \<Longrightarrow> undecided st"
    and "\<And>r. r \<in> set (t_requests s) \<Longrightarrow> rq_id r < next_uuid s"
    and "\<And>r. r \<in> set (t_requests s) \<Longrightarrow> check_request s r = None"
  shows "wf_db s"
  using assms by (simp add: wf_db_def)

lemma wf_dbD:
  assumes "wf_db s"
  shows "distinct (map st_id (t_stages s))" "distinct (map rq_id (t_requests s))"
    "st \<in> set (t_stages s) \<Longrightarrow> st_id st < next_uuid s" "st \<in> set (t_stages s) \<Longrightarrow> check_stage s st = None"
    "st \<in> set (t_stages s) \<Longrightarrow> st_status st = StagePending \<Longrightarrow> undecided st"
    "r \<in> set (t_requests s) \<Longrightarrow> rq_id r < next_uuid s" "r \<in> set (t_requests s) \<Longrightarrow> check_request s r = None"
  using assms by (simp_all add: wf_db_def)

lemma wf_db_mapped:
  assumes "wf_db s" "t_stages t = map g (t_stages s)" "t_requests t = map h (t_requests s)" "next_uuid t = next_uuid s"
    and ids: "\<And>st. st_id (g st) = st_id st" "\<And>r. rq_id (h r) = rq_id r"
    and "\<And>st. st \<in> set (t_stages s) \<Longrightarrow> check_stage t (g st) = None"
    and "\<And>st. st \<in> set (t_stages s) \<Longrightarrow> st_status (g st) = StagePending \<Longrightarrow> undecided (g st)"
    and "\<And>r. r \<in> set (t_requests s) \<Longrightarrow> check_request t (h r) = None"
  shows "wf_db t"
proof -
  have "map st_id (t_stages t) = map st_id (t_stages s)" "map rq_id (t_requests t) = map rq_id (t_requests s)"
    by (simp_all add: assms(2,3) ids comp_def)
  with assms show ?thesis unfolding wf_db_def by (simp add: comp_def)
qed

lemma image_of_map_eq: "map f xs = map f ys \<Longrightarrow> f ` set xs = f ` set ys"
  by (metis list.set_map)

lemma written_checked:
  assumes "update_stmt T p f s = (Inr rs, t)" "r \<in> set (tb_rows T s)" "p r"
  shows "tb_check T s (tb_touch T (clock s) (f r)) = None"
  using assms by (auto simp: update_stmt_def Let_def find_None_iff split: option.splits)

lemma update_stmt_cases:
  "snd (update_stmt T p f s) = s \<or>
   (\<exists>rs. update_stmt T p f s = (Inr rs, snd (update_stmt T p f s)) \<and>
     snd (update_stmt T p f s) = tb_set_rows T (map (\<lambda>r. if p r then tb_touch T (clock s) (f r) else r) (tb_rows T s)) s)"
  by (auto simp: update_stmt_def Let_def split: option.splits)

definition stage_update :: "(stage_record \<Rightarrow> stage_record) \<Rightarrow> bool" where
  "stage_update f \<longleftrightarrow> (\<forall>st. st_id (f st) = st_id st \<and> st_request_id (f st) = st_request_id st \<and>
     st_stage_order (f st) = st_stage_order st \<and>
     ((st_status st = StagePending \<longrightarrow> undecided st) \<longrightarrow> st_status (f st) = StagePending \<longrightarrow> undecided (f st)))"

lemma wf_stage_update: "stage_update f \<Longrightarrow> preserves wf_db (update_stmt stage_table p f)"
proof (rule preservesI)
  fix s :: "'a db_scheme" assume f: "stage_update f" and wf: "wf_db s"
  let ?g = "\<lambda>r. if p r then f r else r"
  have g: "st_id (f r) = st_id r" "st_request_id (f r) = st_request_id r" "st_stage_order (f r) = st_stage_order r" for r
    using f by (simp_all add: stage_update_def)
  consider "snd (update_stmt stage_table p f s) = s"
    | rs where "update_stmt stage_table p f s = (Inr rs, snd (update_stmt stage_table p f s))"
      "snd (update_stmt stage_table p f s) = s\<lparr>t_stages := map ?g (t_stages s)\<rparr>"
    using update_stmt_cases [of stage_table p f s] by auto
  then show "wf_db (snd (update_stmt stage_table p f s))"
  proof cases
    case 2
    have chk: "check_stage s (?g r) = None" if "r \<in> set (t_stages s)" for r
      using that wf written_checked [OF 2(1), of r] by (auto simp: wf_db_def)
    have pend: "st_status (?g r) = StagePending \<longrightarrow> undecided (?g r)" if "r \<in> set (t_stages s)" for r
      using that wf f by (auto simp: wf_db_def stage_update_def)
    have ids: "map st_id (map ?g (t_stages s)) = map st_id (t_stages s)" by (auto simp: g intro!: map_cong)
    note ids = ids image_of_map_eq [OF ids]
    let ?t = "s\<lparr>t_stages := map ?g (t_stages s)\<rparr>"
    have "check_stage ?t (?g r) = None" if "r \<in> set (t_stages s)" for r
      using chk [OF that] unfolding check_stage_None by (cases "p r") (auto simp: g)
    moreover have "check_request ?t r = None" if "r \<in> set (t_requests s)" for r
      using wf that ids(2) by (simp add: wf_db_def check_request_None)
    ultimately show ?thesis
      unfolding 2(2) using pend g by (intro wf_db_mapped [OF wf, of _ ?g id]) simp_all
  qed (simp add: wf)
qed

lemma wf_request_update:
  assumes f: "\<And>r. rq_id (f r) = rq_id r"
  shows "preserves wf_db (update_stmt request_table p f)"
proof (rule preservesI)
  fix s :: "'a db_scheme" assume wf: "wf_db s"
  let ?g = "\<lambda>r. if p r then (f r)\<lparr>rq_updated_at := clock s\<rparr> else r"
  have g: "rq_id (?g r) = rq_id r" for r by (simp add: f)
  consider "snd (update_stmt request_table p f s) = s"
    | rs where "update_stmt request_table p f s = (Inr rs, snd (update_stmt request_table p f s))"
      "snd (update_stmt request_table p f s) = s\<lparr>t_requests := map ?g (t_requests s)\<rparr>"
    using update_stmt_cases [of request_table p f s] by auto
  then show "wf_db (snd (update_stmt request_table p f s))"
  proof cases
    case 2
    have chk: "check_request s (?g r) = None" if "r \<in> set (t_requests s)" for r
      using that wf written_checked [OF 2(1), of r] by (auto simp: wf_db_def)
    have ids: "map rq_id (map ?g (t_requests s)) = map rq_id (t_requests s)"
      by (auto simp: f comp_def intro!: map_cong)
    note ids = ids image_of_map_eq [OF ids]
    let ?t = "s\<lparr>t_requests := map ?g (t_requests s)\<rparr>"
    have "check_stage ?t r = None" if "r \<in> set (t_stages s)" for r
      using wf that ids(2) by (auto simp: wf_db_def check_stage_None)
    moreover have "check_request ?t (?g r) = None" if "r \<in> set (t_requests s)" for r
      using chk [OF that] unfolding check_request_None by simp
    ultimately show ?thesis
      unfolding 2(2) using wf_dbD(5) [OF wf] by (intro wf_db_mapped [OF wf, of _ id ?g]) (simp_all add: f)
  qed (simp add: wf)
qed

lemma wf_stage_insert:
  assumes "\<And>i now. st_id (mk i now) = i \<and> undecided (mk i now)"
  shows "preserves wf_db (insert_stmt stage_table mk)"
proof (rule preservesI)
  fix s :: "'a db_scheme" assume wf: "wf_db s"
  let ?r = "mk (next_uuid s) (clock s)"
  show "wf_db (snd (insert_stmt stage_table mk s))"
  proof (cases "check_stage s ?r")
    case None
    have new: "st_id ?r = next_uuid s" "undecided ?r" using assms by auto
    let ?t = "s\<lparr>t_stages := t_stages s @ [?r], next_uuid := Suc (next_uuid s)\<rparr>"
    have old: "st_id x < next_uuid s" if "x \<in> set (t_stages s)" for x using wf that by (simp add: wf_db_def)
    have "check_stage ?t ?r = None" using None unfolding check_stage_None by auto
    moreover have "check_stage ?t x = None" if "x \<in> set (t_stages s)" for x
    proof -
      have "st_request_id ?r = st_request_id x \<Longrightarrow> st_stage_order ?r \<noteq> st_stage_order x"
        using None that old [OF that] new(1) unfolding check_stage_None by (metis less_irrefl)
      then show ?thesis using wf that unfolding wf_db_def check_stage_None by auto
    qed
    moreover have "check_request ?t x = None" if "x \<in> set (t_requests s)" for x
      using wf that unfolding wf_db_def check_request_None by auto
    moreover have "next_uuid s \<notin> st_id ` set (t_stages s)" using old by (metis imageE less_irrefl)
    ultimately have "wf_db ?t"
      using wf_dbD [OF wf] new by (intro wf_dbI) (auto simp: less_Suc_eq)
    then show ?thesis using None by (simp add: insert_stmt_def Let_def)
  qed (simp add: insert_stmt_def wf)
qed

lemma wf_request_insert:
  assumes "\<And>i now. rq_id (mk i now) = i"
  shows "preserves wf_db (insert_stmt request_table mk)"
proof (rule preservesI)
  fix s :: "'a db_scheme" assume wf: "wf_db s"
  let ?r = "mk (next_uuid s) (clock s)"
  show "wf_db (snd (insert_stmt request_table mk s))"
  proof (cases "check_request s ?r")
    case None
    let ?t = "s\<lparr>t_requests := t_requests s @ [?r], next_uuid := Suc (next_uuid s)\<rparr>"
    have "check_request ?t ?r = None" using None unfolding check_request_None by auto
    moreover have "check_request ?t x = None" if "x \<in> set (t_requests s)" for x
      using wf that unfolding wf_db_def check_request_None by auto
    moreover have "check_stage ?t x = None" if "x \<in> set (t_stages s)" for x
      using wf that unfolding wf_db_def check_stage_None by auto
    moreover have "next_uuid s \<notin> rq_id ` set (t_requests s)" using wf by (auto simp: wf_db_def)
    ultimately have "wf_db ?t" using wf_dbD [OF wf] assms by (intro wf_dbI) (auto simp: less_Suc_eq)
    then show ?thesis using None by (simp add: insert_stmt_def Let_def)
  qed (simp add: insert_stmt_def wf)
qed

text \<open>A stage that no request points to may go.\<close>

lemma wf_stage_delete: "preserves wf_db (delete_stmt stage_table p stage_referenced)"
proof (rule preservesI)
  fix s :: "'a db_scheme" assume wf: "wf_db s"
  let ?t = "s\<lparr>t_stages := filter (\<lambda>r. \<not> p r) (t_stages s)\<rparr>"
  show "wf_db (snd (delete_stmt stage_table p stage_referenced s))"
  proof (cases "list_ex (stage_referenced s) (filter p (t_stages s))")
    case False
    have kept: "i \<in> st_id ` set (t_stages ?t)"
      if r: "r \<in> set (t_requests s)" and cur: "rq_current_stage_id r = Some i" for r i
    proof -
      have "i \<in> st_id ` set (t_stages s)" using wf r cur by (auto simp: wf_db_def check_request_None)
      then obtain x where x: "x \<in> set (t_stages s)" "st_id x = i" by auto
      then have "\<not> p x" using False r cur by (auto simp: list_ex_iff stage_referenced_def)
      with x show ?thesis by auto
    qed
    have "check_request ?t r = None" if "r \<in> set (t_requests s)" for r
      using wf that kept [OF that] unfolding wf_db_def check_request_None by simp
    moreover have "check_stage ?t r = None" if "r \<in> set (t_stages s)" for r
      using wf that unfolding wf_db_def check_stage_None by auto
    ultimately have "wf_db ?t" using wf unfolding wf_db_def by (auto simp: distinct_map_filter)
    then show ?thesis using False by (simp add: delete_stmt_def)
  qed (simp add: delete_stmt_def wf)
qed

text \<open>
  The other tables: a change that keeps requests, stages and the id supply's growth, and loses no profile
  and no definition a request refers to.
\<close>

definition wf_frame :: "'z db_scheme \<Rightarrow> 'z db_scheme \<Rightarrow> bool" where
  "wf_frame s t \<longleftrightarrow> t_requests t = t_requests s \<and> t_stages t = t_stages s \<and> next_uuid s \<le> next_uuid t \<and>
     pr_id ` set (t_profiles s) \<subseteq> pr_id ` set (t_profiles t) \<and>
     (\<forall>r\<in>set (t_requests s). rq_workflow_definition_id r \<in> df_id ` set (t_definitions s) \<longrightarrow>
        rq_workflow_definition_id r \<in> df_id ` set (t_definitions t))"

lemma wf_framed:
  assumes "wf_frame s t" "wf_db s"
  shows "wf_db t"
proof -
  note f = assms(1) [unfolded wf_frame_def]
  have "check_stage t r = None" if "r \<in> set (t_stages s)" for r
    using f assms(2) that unfolding wf_db_def check_stage_None by (simp; blast)
  moreover have "check_request t r = None" if "r \<in> set (t_requests s)" for r
    using f assms(2) that unfolding wf_db_def check_request_None by (simp; blast)
  ultimately show ?thesis using f assms(2) unfolding wf_db_def by auto
qed

lemma wf_framedI: "(\<And>s. wf_frame s (snd (m s))) \<Longrightarrow> preserves wf_db m"
  using wf_framed by (auto simp: preserves_def)

lemma wf_other_inserts:
  "preserves wf_db (insert_stmt audit_table mk1)" "preserves wf_db (insert_stmt notification_table mk2)"
  "preserves wf_db (insert_stmt definition_table mk3)"
  by (auto intro!: wf_framedI simp: wf_frame_def insert_stmt_def Let_def split: option.splits)

lemma keys_of_update:
  "(\<And>x. k (g x) = k x) \<Longrightarrow> k ` (g ` (A \<inter> Collect q) \<union> A \<inter> {r. \<not> q r}) = k ` A"
  by (simp add: image_Un image_image) blast

lemma wf_other_updates:
  "preserves wf_db (update_stmt notification_table p f)"
  "(\<And>d. df_id (g d) = df_id d) \<Longrightarrow> preserves wf_db (update_stmt definition_table q g)"
  "(\<And>d. pr_id (h d) = pr_id d) \<Longrightarrow> preserves wf_db (update_stmt profile_table u h)"
  by (auto intro!: wf_framedI simp: wf_frame_def update_stmt_def Let_def keys_of_update split: option.splits)

lemma wf_definition_delete: "preserves wf_db (delete_stmt definition_table p definition_referenced)"
  by (auto intro!: wf_framedI simp: wf_frame_def delete_stmt_def definition_referenced_def list_ex_iff image_iff) metis

lemma wf_upsert_preference: "preserves wf_db (upsert_preference_stmt i ty a b)"
  by (auto intro!: wf_framedI simp: wf_frame_def upsert_preference_stmt_def Let_def)

section \<open>Repository operations\<close>

lemmas wf_statements = wf_stage_insert wf_request_insert wf_stage_delete wf_other_inserts wf_other_updates
  wf_definition_delete wf_upsert_preference

lemma wf_locked_stage: "stage_update f \<Longrightarrow> preserves wf_db (update_with_optimistic_lock stage_table i v f)"
  by (intro preserves_update_with_optimistic_lock net_stable_wf wf_stage_update) (simp add: stage_update_def undecided_def)

lemma wf_locked_request:
  "(\<And>r. rq_id (f r) = rq_id r) \<Longrightarrow> preserves wf_db (update_with_optimistic_lock request_table i v f)"
  by (intro preserves_update_with_optimistic_lock net_stable_wf wf_request_update) simp

lemma set_if_given_id: "(\<And>v r. k (put v r) = k r) \<Longrightarrow> k (set_if_given put x r) = k r"
  by (cases x) simp_all

lemma wf_stage_operations:
  "preserves wf_db (approve_stage i v u n)" "preserves wf_db (reject_stage i v u m)"
  "preserves wf_db (revert_to_pending i v)" "preserves wf_db (escalate_stage_row i v a r)"
  "preserves wf_db (create_stage i k nm c r a)" "preserves wf_db (delete_if_unchanged i v)"
  unfolding approve_stage_def reject_stage_def revert_to_pending_def escalate_stage_row_def create_stage_def
    delete_if_unchanged_def
  by (auto intro!: pres_flow wf_locked_stage preserves_insert_row wf_stage_insert preserves_execute wf_stage_delete
      simp: stage_update_def undecided_def)

lemma wf_request_operations:
  "preserves wf_db (create_request_row q d ty ti c de dp)" "preserves wf_db (set_current_stage i v cu st co)"
  "preserves wf_db (update_editable_fields i v ti' de' dp')" "preserves wf_db (soft_delete i v u)"
  unfolding create_request_row_def set_current_stage_def update_editable_fields_def soft_delete_def
  by (auto intro!: pres_flow wf_locked_request preserves_insert_row wf_request_insert simp: set_if_given_id)

lemma wf_record_event: "preserves wf_db (record_event a u r m c)"
  unfolding record_event_def by (intro preserves_insert_row net_stable_wf wf_other_inserts)

lemma wf_definition_operations:
  "preserves wf_db (create_definition_row rt v doc u c)" "preserves wf_db (update_inactive_definition i w doc)"
  "preserves wf_db (delete_inactive_definition i c)" "preserves wf_db (activate_definition_row i rt w c)"
  unfolding create_definition_row_def update_inactive_definition_def delete_inactive_definition_def
    activate_definition_row_def deactivate_previous_definition_def find_active_for_request_type_def
    update_with_optimistic_lock_def select_stmt_def
  by (auto intro!: pres_flow preserves_single_row preserves_insert_row preserves_execute wf_statements
      split: list.splits option.splits)

lemma wf_notify: "preserves wf_db (create_and_dispatch cfg i r ty m)"
  unfolding create_and_dispatch_def effective_preference_def get_preferences_for_user_def
    create_notification_def attempt_email_dispatch_def mark_email_sent_def update_notification_def
  by (auto split: prod.splits option.splits sum.splits list.splits
      intro!: pres_flow pres_calls preserves_single_row preserves_insert_row preserves_execute wf_statements)

lemmas wf_operations = wf_stage_operations wf_request_operations wf_record_event wf_definition_operations wf_notify

text \<open>The constraints are kept by the repositories, so by the services, over any network.\<close>

interpretation integrity: operation_invariant "wf_db :: 'z db_scheme \<Rightarrow> bool"
  by unfold_locales (auto simp: wf_same_data intro: wf_operations)

end
