(* ===== verification/Workflow.thy ===== *)
theory Workflow imports Integrity
begin

text \<open>
  Runs of the service: any sequence of the operations the services offer, each with any caller and any
  arguments and ending in any way, with time passing in between. What every run keeps: the constraints
  of the tables, which the statements enforce themselves, over any network (\<open>integrity.run\<close>); and, over a
  network that delivers, the agreement of every request with its stages.
\<close>

section \<open>Steps\<close>

inductive service_step :: "service_config \<Rightarrow> 'z db_scheme \<Rightarrow> 'z db_scheme \<Rightarrow> bool" for cfg where
  approving: "service_step cfg s (snd (service_approve_stage cfg ident sid expected remark s))"
| rejecting: "service_step cfg s (snd (service_reject_stage cfg ident sid expected remark' s))"
| escalating: "service_step cfg s (snd (service_escalate_stage cfg sid s))"
| creating: "service_step cfg s (snd (service_create_request cfg ident raw s))"
| editing: "service_step cfg s (snd (update_request ident i title description department v s))"
| withdrawing: "service_step cfg s (snd (withdraw_request ident i v s))"
| authoring: "service_step cfg s (snd (create_definition ident ty stages s))"
| redrafting: "service_step cfg s (snd (update_draft ident i stages s))"
| discarding: "service_step cfg s (snd (delete_draft ident i s))"
| activating: "service_step cfg s (snd (activate_version ident i s))"
| waiting: "clock s \<le> now \<Longrightarrow> service_step cfg s (s\<lparr>clock := now\<rparr>)"

lemma two_steps: "service_step cfg s t \<Longrightarrow> service_step cfg t u \<Longrightarrow> (service_step cfg)\<^sup>*\<^sup>* s u"
  by (meson converse_rtranclp_into_rtranclp r_into_rtranclp)

context operation_invariant
begin

lemma step:
  assumes "service_step cfg s t" "P s" and tick: "\<And>u now. P u \<Longrightarrow> P (u\<lparr>clock := now\<rparr>)"
  shows "P t"
  using assms(1,2)
  by cases (auto intro: tick preservesD approve reject escalate create edit definitions)

lemma run:
  assumes "(service_step cfg)\<^sup>*\<^sup>* s t" "P s" and tick: "\<And>u now. P u \<Longrightarrow> P (u\<lparr>clock := now\<rparr>)"
  shows "P t"
  using assms(1,2) by (induction rule: rtranclp_induct) (blast intro: step tick)+

end

lemma wf_clock [simp]: "wf_db (s\<lparr>clock := now\<rparr>) = wf_db s"
  by (simp add: wf_db_def check_stage_None check_request_None)

lemma quiet_clock [simp]: "quiet (s\<lparr>clock := now\<rparr>) = quiet s"
  by (simp add: quiet_def)

section \<open>The agreement of requests and stages\<close>

definition stages_of :: "'z db_scheme \<Rightarrow> uuid \<Rightarrow> stage_record list" where
  "stages_of s i = filter (\<lambda>st. st_request_id st = i) (t_stages s)"

text \<open>What the last stage of a request is, by the request's status. No request is ever \<open>approved\<close>.\<close>

fun last_status :: "request_status \<Rightarrow> stage_status option" where
  "last_status ReqPending = Some StagePending"
| "last_status ReqInReview = Some StagePending"
| "last_status ReqCompleted = Some StageApproved"
| "last_status ReqRejected = Some StageRejected"
| "last_status ReqApproved = None"

definition stages_shape :: "stage_status \<Rightarrow> stage_record list \<Rightarrow> bool" where
  "stages_shape l sts \<longleftrightarrow> st_stage_order ` set sts = {1..int (length sts)} \<and>
     (\<forall>st\<in>set sts. st_status st = (if st_stage_order st = int (length sts) then l else StageApproved))"

definition points_to_last :: "uuid option \<Rightarrow> stage_record list \<Rightarrow> bool" where
  "points_to_last current sts \<longleftrightarrow> (\<forall>c. current = Some c \<longrightarrow>
     (\<exists>st\<in>set sts. st_id st = c \<and> st_stage_order st = int (length sts)))"

definition agrees :: "request_record \<Rightarrow> stage_record list \<Rightarrow> bool" where
  "agrees rq sts \<longleftrightarrow>
     (case last_status (rq_status rq) of
        None \<Rightarrow> False
      | Some l \<Rightarrow> stages_shape l sts \<and>
          (if l = StagePending then points_to_last (rq_current_stage_id rq) sts \<and> rq_completed_at rq = None
           else sts \<noteq> [] \<and> rq_current_stage_id rq = None \<and> rq_completed_at rq \<noteq> None))"

definition consistent :: "'z db_scheme \<Rightarrow> bool" where
  "consistent s \<longleftrightarrow> (\<forall>rq\<in>set (t_requests s). agrees rq (stages_of s (rq_id rq)))"

text \<open>The fields the agreement is about.\<close>

definition same_stage :: "stage_record \<Rightarrow> stage_record \<Rightarrow> bool" where
  "same_stage x y \<longleftrightarrow> st_id x = st_id y \<and> st_request_id x = st_request_id y \<and>
     st_stage_order x = st_stage_order y \<and> st_status x = st_status y"

definition same_request :: "request_record \<Rightarrow> request_record \<Rightarrow> bool" where
  "same_request x y \<longleftrightarrow> rq_id x = rq_id y \<and> rq_status x = rq_status y \<and>
     rq_current_stage_id x = rq_current_stage_id y \<and> rq_completed_at x = rq_completed_at y"

lemma shape_touched:
  assumes "\<And>x. x \<in> set sts \<Longrightarrow> same_stage (g x) x"
  shows "stages_shape l (map g sts) = stages_shape l sts" "points_to_last c (map g sts) = points_to_last c sts"
proof -
  have "st_stage_order ` set (map g sts) = st_stage_order ` set sts"
    using assms by (force simp: same_stage_def image_iff)
  then show "stages_shape l (map g sts) = stages_shape l sts"
    using assms by (simp add: stages_shape_def same_stage_def)
  show "points_to_last c (map g sts) = points_to_last c sts"
    using assms by (auto simp: points_to_last_def same_stage_def)
qed

lemma agrees_touched:
  assumes "agrees rq sts" "same_request rq' rq" "\<And>x. x \<in> set sts \<Longrightarrow> same_stage (g x) x"
  shows "agrees rq' (map g sts)"
  using assms(1,2) shape_touched [OF assms(3), of sts]
  by (auto simp: agrees_def same_request_def split: option.splits if_splits)

lemma stages_of_map:
  assumes "t_stages t = map g (t_stages s)" "\<And>x. x \<in> set (t_stages s) \<Longrightarrow> st_request_id (g x) = st_request_id x"
  shows "stages_of t i = map g (stages_of s i)"
  unfolding stages_of_def assms(1) filter_map
  by (rule arg_cong [of _ _ "map g"], rule filter_cong) (simp_all add: assms(2))

lemma consistent_touched:
  assumes "consistent s" "t_stages t = map g (t_stages s)" "t_requests t = map h (t_requests s)"
    and g: "\<And>x. x \<in> set (t_stages s) \<Longrightarrow> same_stage (g x) x"
    and h: "\<And>x. x \<in> set (t_requests s) \<Longrightarrow> same_request (h x) x"
  shows "consistent t"
  unfolding consistent_def
proof
  fix rq assume "rq \<in> set (t_requests t)"
  then obtain r where r: "r \<in> set (t_requests s)" "rq = h r" using assms(3) by auto
  have "stages_of t (rq_id rq) = map g (stages_of s (rq_id r))"
    using stages_of_map [OF assms(2)] g h [OF r(1)] r(2) by (simp add: same_stage_def same_request_def)
  moreover have "agrees r (stages_of s (rq_id r))" using assms(1) r(1) by (simp add: consistent_def)
  then have "agrees (h r) (map g (stages_of s (rq_id r)))"
    by (rule agrees_touched [OF _ h [OF r(1)]]) (simp add: g stages_of_def)
  ultimately show "agrees rq (stages_of t (rq_id rq))" using r(2) by simp
qed

lemma consistent_same_rows:
  "consistent s \<Longrightarrow> t_stages t = t_stages s \<Longrightarrow> t_requests t = t_requests s \<Longrightarrow> consistent t"
  by (simp add: consistent_def stages_of_def)

section \<open>Operations that move no request\<close>

lemma net_stable_consistent: "net_stable consistent"
  by (simp add: net_stable_def consistent_def stages_of_def)

lemma consistent_stage_update:
  assumes f: "\<And>x. same_stage (f x) x"
  shows "preserves consistent (update_stmt stage_table p f)"
proof (rule preservesI)
  fix s :: "'b db_scheme" assume s: "consistent s"
  have "consistent (s\<lparr>t_stages := map (\<lambda>r. if p r then f r else r) (t_stages s)\<rparr>)"
    by (rule consistent_touched [OF s, of _ "\<lambda>r. if p r then f r else r" id])
      (use f in \<open>auto simp: same_stage_def same_request_def\<close>)
  with s show "consistent (snd (update_stmt stage_table p f s))"
    by (auto simp: update_stmt_def Let_def split: option.splits)
qed

lemma consistent_request_update:
  assumes h: "\<And>x. same_request (h x) x"
  shows "preserves consistent (update_stmt request_table q h)"
proof (rule preservesI)
  fix s :: "'b db_scheme" assume s: "consistent s"
  let ?h = "\<lambda>r. if q r then (h r)\<lparr>rq_updated_at := clock s\<rparr> else r"
  have "consistent (s\<lparr>t_requests := map ?h (t_requests s)\<rparr>)"
    by (rule consistent_touched [OF s, of _ id ?h]) (use h in \<open>auto simp: same_stage_def same_request_def\<close>)
  with s show "consistent (snd (update_stmt request_table q h s))"
    by (auto simp: update_stmt_def Let_def split: option.splits)
qed

lemma consistent_statements:
  "preserves consistent (insert_stmt audit_table mk1)" "preserves consistent (insert_stmt notification_table mk2)"
  "preserves consistent (insert_stmt definition_table mk3)" "preserves consistent (update_stmt notification_table p f)"
  "preserves consistent (update_stmt definition_table q g)" "preserves consistent (delete_stmt definition_table r ref)"
  by (auto simp: preserves_def insert_stmt_def update_stmt_def delete_stmt_def Let_def
      intro: consistent_same_rows split: option.splits)

lemmas consistent_flow = pres_flow pres_calls net_stable_consistent preserves_insert_row
  preserves_update_with_optimistic_lock preserves_execute preserves_single_row consistent_statements
  consistent_stage_update consistent_request_update

lemma consistent_rows:
  "preserves consistent (escalate_stage_row i v a r)" "preserves consistent (soft_delete i v u)"
  "preserves consistent (update_editable_fields i v ti' de' dp')" "preserves consistent (record_event act au ar am ac)"
  unfolding escalate_stage_row_def soft_delete_def update_editable_fields_def record_event_def
  by (auto intro!: consistent_flow simp: same_stage_def same_request_def set_if_given_id)

lemma consistent_definition_rows:
  "preserves consistent (create_definition_row ty w doc u c)" "preserves consistent (update_inactive_definition i w doc)"
  "preserves consistent (delete_inactive_definition i c)" "preserves consistent (activate_definition_row i ty w c)"
  unfolding create_definition_row_def update_inactive_definition_def delete_inactive_definition_def
    activate_definition_row_def deactivate_previous_definition_def find_active_for_request_type_def select_stmt_def
  by (auto intro!: consistent_flow split: list.splits option.splits)

lemma consistent_notify: "preserves consistent (create_and_dispatch cfg i r ty m)"
  unfolding create_and_dispatch_def effective_preference_def get_preferences_for_user_def
    create_notification_def attempt_email_dispatch_def mark_email_sent_def update_notification_def
  by (auto split: prod.splits option.splits sum.splits intro!: consistent_flow)

interpretation agreement: side_invariant "consistent :: 'z db_scheme \<Rightarrow> bool"
  by unfold_locales (auto simp: same_data_def net_stableD [OF net_stable_consistent]
      intro: consistent_rows consistent_definition_rows consistent_notify)

section \<open>Decisions\<close>

lemma pending_is_last:
  assumes "agrees rq sts" "st \<in> set sts" "st_status st = StagePending"
  shows "last_status (rq_status rq) = Some StagePending \<and> stages_shape StagePending sts \<and>
    st_stage_order st = int (length sts)"
  using assms by (auto simp: agrees_def stages_shape_def split: option.splits if_splits)

lemma shape_orders_inj:
  assumes "stages_shape l sts"
  shows "inj_on st_stage_order (set sts)"
proof -
  have "card (st_stage_order ` set sts) = length sts" using assms by (simp add: stages_shape_def)
  then show ?thesis
    by (metis card_image_le card_length eq_card_imp_inj_on finite_set le_antisym)
qed

lemma decided_shape:
  assumes s: "stages_shape StagePending sts" and st: "st \<in> set sts" "st_stage_order st = int (length sts)"
    and ids: "distinct (map st_id sts)"
  shows "stages_shape target (map (\<lambda>y. if st_id y = st_id st then decided_row target user remark now st else y) sts)"
proof -
  let ?g = "\<lambda>y. if st_id y = st_id st then decided_row target user remark now st else y"
  have same: "y = st" if "y \<in> set sts" "st_id y = st_id st" for y
    using ids that st(1) by (metis distinct_map inj_onD)
  have order: "st_stage_order (?g y) = st_stage_order y" if "y \<in> set sts" for y
    using same [OF that] by auto
  have "map st_stage_order (map ?g sts) = map st_stage_order sts" using order by simp
  from image_of_map_eq [OF this] have image: "st_stage_order ` set (map ?g sts) = st_stage_order ` set sts" .
  have status: "st_status (?g y) = (if st_stage_order y = int (length sts) then target else StageApproved)"
    if "y \<in> set sts" for y
    using s that same [OF that] st inj_onD [OF shape_orders_inj [OF s], of y st] by (auto simp: stages_shape_def)
  show ?thesis
    unfolding stages_shape_def length_map image
  proof (intro conjI ballI)
    show "st_stage_order ` set sts = {1..int (length sts)}" using s by (simp add: stages_shape_def)
    fix z assume "z \<in> set (map ?g sts)"
    then obtain y where "y \<in> set sts" "z = ?g y" by auto
    with status order show "st_status z = (if st_stage_order z = int (length sts) then target else StageApproved)"
      by (simp only:)
  qed
qed

lemma shape_snoc:
  assumes "stages_shape StageApproved sts" "st_stage_order x = int (length sts) + 1" "st_status x = l"
  shows "stages_shape l (sts @ [x])"
proof -
  have orders: "st_stage_order ` set sts = {1..int (length sts)}" and a: "\<forall>st\<in>set sts. st_status st = StageApproved"
    using assms(1) by (auto simp: stages_shape_def)
  have "insert (int (length sts) + 1) {1..int (length sts)} = {1..int (length sts) + 1}" by auto
  then have image: "st_stage_order ` set (sts @ [x]) = {1..int (length (sts @ [x]))}"
    using orders assms(2) by (simp add: add.commute)
  have below: "st_stage_order y \<noteq> int (length sts) + 1" if "y \<in> set sts" for y
  proof -
    have "st_stage_order y \<in> {1..int (length sts)}" using that orders by blast
    then show ?thesis by simp
  qed
  show ?thesis
    unfolding stages_shape_def
  proof (intro conjI ballI)
    fix y assume "y \<in> set (sts @ [x])"
    then consider "y \<in> set sts" | "y = x" by auto
    then show "st_status y = (if st_stage_order y = int (length (sts @ [x])) then l else StageApproved)"
      by cases (use a below assms(2,3) in \<open>simp_all add: add.commute\<close>)
  qed (rule image)
qed

lemma decision_agrees:
  assumes a: "agrees rq sts" and st: "st \<in> set sts" "st_status st = StagePending" and ids: "distinct (map st_id sts)"
    and tgt: "target = StageApproved \<or> target = StageRejected"
    and plan: "\<And>p. target = StageApproved \<Longrightarrow> plan = Some p \<Longrightarrow> sp_stage_order p = st_stage_order st + 1"
  shows "agrees (moved_request target plan s rq)
    (map (\<lambda>y. if st_id y = st_id st then decided_row target user remark now st else y) sts @ opened_stages target rq plan s)"
proof -
  let ?sts = "map (\<lambda>y. if st_id y = st_id st then decided_row target user remark now st else y) sts"
  note l = pending_is_last [OF a st]
  have d: "stages_shape target ?sts" "?sts \<noteq> []"
    using decided_shape [OF _ st(1) _ ids] l st(1) by auto
  show ?thesis
  proof (cases "target = StageApproved \<and> plan \<noteq> None")
    case True
    then obtain p where p: "plan = Some p" "target = StageApproved" by auto
    let ?x = "new_stage_row (next_uuid s) (clock s) (rq_id rq) (rq_company_id rq) p"
    have "stages_shape StagePending (?sts @ [?x])"
      by (rule shape_snoc) (use d p plan [OF p(2,1)] l in \<open>auto simp: new_stage_row_def\<close>)
    moreover have "points_to_last (Some (next_uuid s)) (?sts @ [?x])"
      using plan [OF p(2,1)] l by (auto simp: points_to_last_def new_stage_row_def)
    ultimately show ?thesis
      using p by (simp add: agrees_def moved_request_def advanced_row_def opened_stages_def)
  next
    case False
    then have "opened_stages target rq plan s = []" by (auto simp: opened_stages_def split: option.splits)
    with False d tgt show ?thesis
      by (auto simp: agrees_def moved_request_def advanced_row_def split: option.splits)
  qed
qed

lemma stages_of_decision:
  assumes wf: "wf_db s" and st: "st \<in> set (t_stages s)" "st_request_id st = rq_id rq"
    and t: "t_stages t = map (\<lambda>y. if st_id y = st_id st then decided_row target user remark now st else y) (t_stages s) @
      opened_stages target rq plan s"
  shows "stages_of t (rq_id rq) =
      map (\<lambda>y. if st_id y = st_id st then decided_row target user remark now st else y) (stages_of s (rq_id rq)) @
      opened_stages target rq plan s"
    "i \<noteq> rq_id rq \<Longrightarrow> stages_of t i = stages_of s i"
proof -
  let ?g = "\<lambda>y. if st_id y = st_id st then decided_row target user remark now st else y"
  have same: "y = st" if "y \<in> set (t_stages s)" "st_id y = st_id st" for y
    using wf_dbD(1) [OF wf] that st(1) by (metis distinct_map inj_onD)
  have keep: "st_request_id (?g y) = st_request_id y" if "y \<in> set (t_stages s)" for y
    using same [OF that] by auto
  have new: "\<forall>x\<in>set (opened_stages target rq plan s). st_request_id x = rq_id rq"
    by (auto simp: opened_stages_def new_stage_row_def split: option.splits)
  have mapped: "filter (\<lambda>st. st_request_id st = j) (map ?g (t_stages s)) = map ?g (stages_of s j)" for j
    unfolding stages_of_def filter_map
    by (rule arg_cong [of _ _ "map ?g"], rule filter_cong) (simp_all add: keep)
  from new show "stages_of t (rq_id rq) = map ?g (stages_of s (rq_id rq)) @ opened_stages target rq plan s"
    unfolding stages_of_def [of t] t filter_append mapped by simp
  assume i: "i \<noteq> rq_id rq"
  have "map ?g (stages_of s i) = stages_of s i"
    by (rule map_idI) (use same st(2) i in \<open>auto simp: stages_of_def\<close>)
  with new i show "stages_of t i = stages_of s i"
    unfolding stages_of_def [of t] t filter_append mapped by (simp add: filter_empty_conv)
qed

lemma consistent_decision:
  assumes wf: "wf_db s" and c: "consistent s" and tgt: "target = StageApproved \<or> target = StageRejected"
    and st: "st \<in> set (t_stages s)" "st_status st = StagePending"
    and rq: "rq \<in> set (t_requests s)" "rq_id rq = st_request_id st"
    and plan: "target = StageApproved \<longrightarrow> plan_ok st rq plan s"
    and t: "core t = core (decision_result target user remark st rq plan s)"
  shows "consistent t"
  unfolding consistent_def
proof
  have rows: "t_stages t = map (\<lambda>y. if st_id y = st_id st then decided_row target user remark (clock s) st else y) (t_stages s) @
      opened_stages target rq plan s"
    "t_requests t = map (\<lambda>y. if rq_id y = rq_id rq then moved_request target plan s rq else y) (t_requests s)"
    using t decision_result_tables [OF tgt] by (simp_all add: core_fields)
  note stages = stages_of_decision [OF wf st(1) rq(2) [symmetric] rows(1)]
  have mid: "rq_id (moved_request target plan s rq) = rq_id rq" by simp
  fix r assume "r \<in> set (t_requests t)"
  then consider (moved) "r = moved_request target plan s rq" | (other) "r \<in> set (t_requests s)" "rq_id r \<noteq> rq_id rq"
    using rows(2) by (auto split: if_splits)
  then show "agrees r (stages_of t (rq_id r))"
  proof cases
    case moved
    have "st \<in> set (stages_of s (rq_id rq))" using st rq by (simp add: stages_of_def)
    moreover have "distinct (map st_id (stages_of s (rq_id rq)))"
      using wf_dbD(1) [OF wf] by (simp add: stages_of_def distinct_map_filter)
    moreover have "agrees rq (stages_of s (rq_id rq))" using c rq(1) by (simp add: consistent_def)
    ultimately have "agrees (moved_request target plan s rq) (stages_of t (rq_id rq))"
      unfolding stages(1) using st(2) tgt plan by (intro decision_agrees) (auto simp: plan_ok_def)
    with moved mid show ?thesis by simp
  next
    case other
    with c stages(2) [of "rq_id r"] show ?thesis by (simp add: consistent_def)
  qed
qed

lemma consistent_restored:
  assumes "consistent s" "restored st rq s t" "wf_db s" "st \<in> set (t_stages s)" "rq \<in> set (t_requests s)"
  shows "consistent t"
proof -
  obtain v w u n ds where t: "t = (put_row request_table (rq\<lparr>rq_version := v, rq_updated_at := u\<rparr>)
            (put_row stage_table (st\<lparr>st_version := w\<rparr>) s))\<lparr>next_uuid := n, net := ds\<rparr>"
    using assms(2) by (auto simp: restored_def)
  have "x = st" if "x \<in> set (t_stages s)" "st_id x = st_id st" for x
    using wf_dbD(1) [OF assms(3)] that assms(4) by (metis distinct_map inj_onD)
  moreover have "x = rq" if "x \<in> set (t_requests s)" "rq_id x = rq_id rq" for x
    using wf_dbD(2) [OF assms(3)] that assms(5) by (metis distinct_map inj_onD)
  ultimately show ?thesis
    by (intro consistent_touched [OF assms(1), of _ "\<lambda>y. if st_id y = st_id st then st\<lparr>st_version := w\<rparr> else y"
          "\<lambda>y. if rq_id y = rq_id rq then rq\<lparr>rq_version := v, rq_updated_at := u\<rparr> else y"])
      (auto simp: t same_stage_def same_request_def)
qed

end
