(* ===== verification/Creation.thy ===== *)
theory Creation imports Approval Integrity
begin

text \<open>
  \<open>RequestService.create_request\<close>: what a creation that returns has written, what one that raises leaves
  behind, and why its only compensation cannot undo the whole.
\<close>

section \<open>The rows of a new request\<close>

definition first_request_row ::
  "uuid \<Rightarrow> timestamp \<Rightarrow> identity \<Rightarrow> request_create \<Rightarrow> workflow_definition \<Rightarrow> request_record" where
  "first_request_row new_id now ident payload d =
     \<lparr>rq_id = new_id, rq_requester_id = id_user_id ident, rq_workflow_definition_id = wd_id d,
      rq_request_type = rc_request_type payload, rq_title = rc_title payload,
      rq_description = rc_description payload, rq_department = rc_department payload, rq_status = ReqPending,
      rq_current_stage_id = None, rq_version = 1, rq_deleted_at = None, rq_deleted_by = None,
      rq_created_at = now, rq_updated_at = now, rq_completed_at = None, rq_company_id = id_company_id ident\<rparr>"

abbreviation new_request :: "identity \<Rightarrow> request_create \<Rightarrow> workflow_definition \<Rightarrow> 'z db_scheme \<Rightarrow> request_record" where
  "new_request ident payload d s \<equiv> first_request_row (next_uuid s) (clock s) ident payload d"

definition request_added :: "identity \<Rightarrow> request_create \<Rightarrow> workflow_definition \<Rightarrow> 'z db_scheme \<Rightarrow> 'z db_scheme" where
  "request_added ident payload d s =
     (add_row request_table (new_request ident payload d s) s)\<lparr>next_uuid := Suc (next_uuid s)\<rparr>"

definition stage_added ::
  "identity \<Rightarrow> request_create \<Rightarrow> workflow_definition \<Rightarrow> stage_plan \<Rightarrow> 'z db_scheme \<Rightarrow> 'z db_scheme" where
  "stage_added ident payload d plan s =
     open_stage_state (new_request ident payload d s) plan (request_added ident payload d s)"

definition opened_request :: "identity \<Rightarrow> request_create \<Rightarrow> workflow_definition \<Rightarrow> 'z db_scheme \<Rightarrow> request_record" where
  "opened_request ident payload d s =
     advanced_row (Some (Suc (next_uuid s))) ReqPending None (clock s) (new_request ident payload d s)"

definition request_opened ::
  "identity \<Rightarrow> request_create \<Rightarrow> workflow_definition \<Rightarrow> stage_plan \<Rightarrow> 'z db_scheme \<Rightarrow> 'z db_scheme" where
  "request_opened ident payload d plan s =
     put_row request_table (opened_request ident payload d s) (stage_added ident payload d plan s)"

definition creation_audit_row :: "identity \<Rightarrow> stage_plan \<Rightarrow> 'z db_scheme \<Rightarrow> audit_record" where
  "creation_audit_row ident plan s =
     \<lparr>au_id = Suc (Suc (next_uuid s)), au_actor_id = Some (id_user_id ident), au_request_id = Some (next_uuid s),
      au_action = audit_action_value REQUEST_CREATED,
      au_metadata = Some (audit_metadata_for_creation (Suc (next_uuid s)) plan), au_created_at = clock s,
      au_company_id = None\<rparr>"

definition creation_result ::
  "identity \<Rightarrow> request_create \<Rightarrow> workflow_definition \<Rightarrow> stage_plan \<Rightarrow> 'z db_scheme \<Rightarrow> 'z db_scheme" where
  "creation_result ident payload d plan s =
     (add_row audit_table (creation_audit_row ident plan s) (request_opened ident payload d plan s))
       \<lparr>next_uuid := Suc (Suc (Suc (next_uuid s)))\<rparr>"

lemmas creation_states = request_added_def stage_added_def request_opened_def creation_result_def
  open_stage_state_def add_row_def

lemma creation_net:
  "net (request_added ident payload d s) = net s" "net (stage_added ident payload d plan s) = net s"
  "net (request_opened ident payload d plan s) = net s" "net (creation_result ident payload d plan s) = net s"
  by (simp_all add: creation_states)

lemma creation_states_net:
  "request_added ident payload d (s\<lparr>net := ds\<rparr>) = (request_added ident payload d s)\<lparr>net := ds\<rparr>"
  "stage_added ident payload d plan (s\<lparr>net := ds\<rparr>) = (stage_added ident payload d plan s)\<lparr>net := ds\<rparr>"
  "request_opened ident payload d plan (s\<lparr>net := ds\<rparr>) = (request_opened ident payload d plan s)\<lparr>net := ds\<rparr>"
  "creation_result ident payload d plan (s\<lparr>net := ds\<rparr>) = (creation_result ident payload d plan s)\<lparr>net := ds\<rparr>"
  by (simp_all add: creation_states put_row_def opened_request_def creation_audit_row_def)

section \<open>The steps\<close>

text \<open>\<open>upto_net X u\<close>: the state \<open>X\<close>, with what is left of its network schedule.\<close>

lemma step_request:
  assumes "lossless s" "create_request_row (id_user_id ident) (wd_id d) (rc_request_type payload) (rc_title payload)
     (id_company_id ident) (rc_description payload) (rc_department payload) s = (r, t)"
  shows "case r of Inr x \<Rightarrow> x = new_request ident payload d s \<and> check_request s x = None \<and>
      same_data (request_added ident payload d s) t
    | Inl e \<Rightarrow> same_data s t"
  using requests.insert_lossless [OF assms(1) assms(2) [unfolded create_request_row_def]]
  by (auto simp: first_request_row_def request_added_def add_row_def same_data_def split: sum.splits)

lemma step_stage:
  assumes "lossless u" "same_data (request_added ident payload d s) u"
    and "create_stage (next_uuid s) (sp_stage_order plan) (sp_stage_name plan) (id_company_id ident)
      (sp_assigned_role plan) (sp_assigned_to plan) u = (r, t)"
  shows "case r of Inr x \<Rightarrow> st_id x = Suc (next_uuid s) \<and> same_data (stage_added ident payload d plan s) t
    | Inl e \<Rightarrow> same_data (request_added ident payload d s) t"
proof -
  let ?rq = "new_request ident payload d s"
  obtain ds where u: "u = (request_added ident payload d s)\<lparr>net := ds\<rparr>" "set ds \<subseteq> set (net s)"
    using assms(2) by (auto simp: same_data_def creation_net)
  have run: "create_stage (rq_id ?rq) (sp_stage_order plan) (sp_stage_name plan) (rq_company_id ?rq)
      (sp_assigned_role plan) (sp_assigned_to plan) u = (r, t)"
    using assms(3) by (simp add: first_request_row_def)
  show ?thesis
  proof (cases r)
    case (Inl e)
    with create_stage_add [OF assms(1) run] assms(2) same_data_trans show ?thesis by auto
  next
    case (Inr x)
    with create_stage_add [OF assms(1) run] obtain ds' where t: "x = new_stage_row (next_uuid u) (clock u) (rq_id ?rq) (rq_company_id ?rq) plan"
      "set ds' \<subseteq> set (net u)" "t = (open_stage_state ?rq plan u)\<lparr>net := ds'\<rparr>" by auto
    have "t = (stage_added ident payload d plan s)\<lparr>net := ds'\<rparr>"
      by (simp add: t(3) u(1) stage_added_def open_stage_state_def add_row_def)
    moreover have "set ds' \<subseteq> set (net s)" using t(2) u by auto
    ultimately show ?thesis using Inr t(1) u(1) by (auto simp: same_data_def creation_net new_stage_row_def request_added_def)
  qed
qed

lemma new_request_only:
  assumes "wf_db s"
  shows "only_row request_table (new_request ident payload d s) (stage_added ident payload d plan s)"
proof -
  have "filter (\<lambda>y. rq_id y = next_uuid s) (t_requests s) = []"
    using wf_dbD(6) [OF assms] by (force simp: filter_empty_conv)
  then show ?thesis by (simp add: only_row_def creation_states first_request_row_def)
qed

lemma step_open:
  assumes "wf_db s" "lossless u" "same_data (stage_added ident payload d plan s) u"
    and "set_current_stage (next_uuid s) 1 (Some (Suc (next_uuid s))) ReqPending None u = (r, t)"
  shows "case r of Inr x \<Rightarrow> x = opened_request ident payload d s \<and> same_data (request_opened ident payload d plan s) t
    | Inl e \<Rightarrow> same_data (stage_added ident payload d plan s) t"
proof -
  let ?rq = "new_request ident payload d s"
  obtain ds where u: "u = (stage_added ident payload d plan s)\<lparr>net := ds\<rparr>" "set ds \<subseteq> set (net s)"
    using assms(3) by (auto simp: same_data_def creation_net)
  have only: "only_row request_table ?rq u"
    using new_request_only [OF assms(1)] by (simp add: u(1) only_row_def)
  have run: "set_current_stage (rq_id ?rq) 1 (Some (Suc (next_uuid s))) ReqPending None u = (r, t)"
    using assms(4) by (simp add: first_request_row_def)
  have "clock u = clock s" by (simp add: u(1) creation_states)
  with set_current_stage_put [OF assms(2) only run] u assms(3) show ?thesis
    by (auto simp: opened_request_def request_opened_def same_data_def creation_net put_row_def
        split: sum.splits intro: same_data_trans)
qed


lemma step_audit:
  assumes "lossless u" "same_data (request_opened ident payload d plan s) u"
    and "record_event (audit_action_value REQUEST_CREATED) (Some (id_user_id ident)) (Some (next_uuid s))
      (Some (audit_metadata_for_creation (Suc (next_uuid s)) plan)) None u = (r, t)"
  shows "case r of Inr x \<Rightarrow> same_data (creation_result ident payload d plan s) t
    | Inl e \<Rightarrow> same_data (request_opened ident payload d plan s) t"
proof -
  obtain ds where u: "u = (request_opened ident payload d plan s)\<lparr>net := ds\<rparr>" "set ds \<subseteq> set (net s)"
    using assms(2) by (auto simp: same_data_def creation_net)
  have ids: "next_uuid u = Suc (Suc (next_uuid s))" "clock u = clock s"
    using u by (simp_all add: creation_states put_row_def)
  show ?thesis
  proof (cases r)
    case (Inl e)
    with audits.insert_lossless [OF assms(1) assms(3) [unfolded record_event_def]] assms(2) same_data_trans
    show ?thesis by auto
  next
    case (Inr x)
    with audits.insert_lossless [OF assms(1) assms(3) [unfolded record_event_def]] u ids show ?thesis
      by (auto simp: creation_result_def creation_audit_row_def add_row_def same_data_def creation_net)
  qed
qed

section \<open>The outcomes\<close>

text \<open>The deletion the compensation writes, when it meets the row it expects.\<close>

definition deleted_request :: "identity \<Rightarrow> request_create \<Rightarrow> workflow_definition \<Rightarrow> 'z db_scheme \<Rightarrow> request_record" where
  "deleted_request ident payload d s = (new_request ident payload d s)\<lparr>rq_deleted_at := Some (clock s),
     rq_deleted_by := Some (id_user_id ident), rq_version := 2, rq_updated_at := clock s\<rparr>"

text \<open>
  \<open>compensated \<dots> X v t\<close>: what the compensation, run in \<open>v\<close>, makes of the rows \<open>X\<close>. The request is
  deleted if the network delivers from there on, and otherwise exactly when the soft delete is answered.
\<close>

definition compensated :: "identity \<Rightarrow> request_create \<Rightarrow> workflow_definition \<Rightarrow> 'z db_scheme \<Rightarrow>
    'z db_scheme \<Rightarrow> 'z db_scheme \<Rightarrow> 'z db_scheme \<Rightarrow> bool" where
  "compensated ident payload d s X v t \<longleftrightarrow>
     core t = core (if net v = [] \<or> is_ok (fst (soft_delete (next_uuid s) 1 (id_user_id ident) v))
                    then put_row request_table (deleted_request ident payload d s) X else X)"

text \<open>
  What a creation whose transaction starts in \<open>s\<close> and that raises has left, by the statement that failed:
  the request's insertion, the stage's, the link from the request to the stage, the audit entry; or none
  of them (the notification that follows the transaction failed).
\<close>

definition creation_debris ::
  "identity \<Rightarrow> request_create \<Rightarrow> workflow_definition \<Rightarrow> stage_plan \<Rightarrow> 'z db_scheme \<Rightarrow> 'z db_scheme \<Rightarrow> bool" where
  "creation_debris ident payload d plan s t \<longleftrightarrow>
     (case create_request_row (id_user_id ident) (wd_id d) (rc_request_type payload) (rc_title payload)
         (id_company_id ident) (rc_description payload) (rc_department payload) s of
        (Inl _, _) \<Rightarrow> core t = core s
      | (Inr _, s1) \<Rightarrow> (case create_stage (next_uuid s) (sp_stage_order plan) (sp_stage_name plan)
         (id_company_id ident) (sp_assigned_role plan) (sp_assigned_to plan) s1 of
        (Inl _, v) \<Rightarrow> compensated ident payload d s (request_added ident payload d s) v t
      | (Inr _, s2) \<Rightarrow> (case set_current_stage (next_uuid s) 1 (Some (Suc (next_uuid s))) ReqPending None s2 of
        (Inl _, v) \<Rightarrow> compensated ident payload d s (stage_added ident payload d plan s) v t
      | (Inr _, s3) \<Rightarrow> (case record_event (audit_action_value REQUEST_CREATED) (Some (id_user_id ident))
         (Some (next_uuid s)) (Some (audit_metadata_for_creation (Suc (next_uuid s)) plan)) None s3 of
        (Inl _, _) \<Rightarrow> core t = core (request_opened ident payload d plan s)
      | (Inr _, _) \<Rightarrow> core t = core (creation_result ident payload d plan s)))))"

lemma debris_core: "core t = core t' \<Longrightarrow> creation_debris ident payload d plan s t = creation_debris ident payload d plan s t'"
  by (auto simp: creation_debris_def compensated_def split: prod.splits sum.splits)

lemma debris_rows:
  "creation_debris ident payload d plan s t \<Longrightarrow>
     (\<exists>X \<in> {request_added ident payload d s, stage_added ident payload d plan s}.
        core t = core X \<or> core t = core (put_row request_table (deleted_request ident payload d s) X)) \<or>
     core t = core s \<or> core t = core (request_opened ident payload d plan s) \<or>
     core t = core (creation_result ident payload d plan s)"
  by (auto simp: creation_debris_def compensated_def split: prod.splits sum.splits if_splits)

text \<open>The row that was accepted is accepted with the deletion's marks, if nothing was taken away.\<close>

lemma deletion_accepted:
  assumes "check_request s (new_request ident payload d s) = None"
    and "t_profiles v = t_profiles s" "t_definitions v = t_definitions s"
  shows "check_request v (deleted_request ident payload d s) = None"
  using assms by (simp add: check_request_None deleted_request_def first_request_row_def)

lemma compensation_deletes:
  assumes "lossless u" "same_data X u" "only_row request_table (new_request ident payload d s) X" "clock X = clock s"
    and "check_request u (deleted_request ident payload d s) = None"
    and "soft_delete (next_uuid s) 1 (id_user_id ident) u = (r, t)"
  shows "compensated ident payload d s X u t"
proof -
  let ?f = "\<lambda>r. r\<lparr>rq_deleted_at := Some (clock s), rq_deleted_by := Some (id_user_id ident)\<rparr>"
  obtain ds where u: "u = X\<lparr>net := ds\<rparr>" "set ds \<subseteq> set (net X)" using assms(2) by (auto simp: same_data_def)
  have only: "only_row request_table (new_request ident payload d s) u"
    using assms(3) by (simp add: u(1) only_row_def)
  have clock: "clock u = clock s" using assms(4) by (simp add: u(1))
  have run: "update_with_optimistic_lock request_table (rq_id (new_request ident payload d s)) 1 ?f u = (r, t)"
    using assms(6) by (simp add: soft_delete_def and_then_def eff_simps clock first_request_row_def)
  show ?thesis
  proof (cases r)
    case (Inl e)
    have "net u \<noteq> []"
      using requests.delivered_put [OF _ only, of ?f] assms(5) run Inl
      by (auto simp: clock deleted_request_def first_request_row_def)
    with request_locked_put [OF assms(1) run only] same_data_core [OF assms(2)] Inl assms(6) show ?thesis
      by (auto simp: compensated_def is_ok_def dest: same_data_core)
  next
    case (Inr x)
    with request_locked_put [OF assms(1) run only] obtain ds' where "set ds' \<subseteq> set (net u)"
      "x = deleted_request ident payload d s" "t = (put_row request_table x u)\<lparr>net := ds'\<rparr>"
      using clock by (auto simp: deleted_request_def first_request_row_def)
    with u have "core t = core (put_row request_table (deleted_request ident payload d s) X)"
      by (simp add: put_row_def core_def)
    with Inr assms(6) show ?thesis by (simp add: compensated_def is_ok_def)
  qed
qed

text \<open>Once the request points to its stage its stored version is 2: the compensation's version 1 meets no row.\<close>

lemma compensation_misses:
  assumes "wf_db s" "lossless u" "same_data (request_opened ident payload d plan s) u"
    and "soft_delete (next_uuid s) 1 who u = (r, t)"
  shows "same_data (request_opened ident payload d plan s) t"
proof -
  obtain ds where u: "u = (request_opened ident payload d plan s)\<lparr>net := ds\<rparr>" using assms(3) by (auto simp: same_data_def)
  let ?f = "\<lambda>r. r\<lparr>rq_deleted_at := Some (clock u), rq_deleted_by := Some who\<rparr>"
  have run: "update_with_optimistic_lock request_table (next_uuid s) 1 ?f u = (r, t)"
    using assms(4) by (simp add: soft_delete_def and_then_def eff_simps)
  have "filter (\<lambda>y. rq_id y = next_uuid s) (t_requests s) = []"
    using wf_dbD(6) [OF assms(1)] by (force simp: filter_empty_conv)
  then have "filter (locked request_table (next_uuid s) 1) (t_requests u) = []"
    by (auto simp: u creation_states put_row_def locked_def opened_request_def advanced_row_def first_request_row_def
        filter_empty_conv)
  with requests.locked_lossless [OF assms(2) run] assms(3) same_data_trans show ?thesis
    by (auto split: sum.splits)
qed


lemma db_call_result: "db_call m s = (Inr x, t) \<longleftrightarrow> m s = (Inr x, t)"
  by (auto simp: db_call_def catching_apply split: prod.splits sum.splits)

lemma same_request_added: "same_data (request_added ident payload d s) u \<Longrightarrow> lossless s \<Longrightarrow> lossless u"
  and same_stage_added: "same_data (stage_added ident payload d plan s) u \<Longrightarrow> lossless s \<Longrightarrow> lossless u"
  and same_request_opened: "same_data (request_opened ident payload d plan s) u \<Longrightarrow> lossless s \<Longrightarrow> lossless u"
  by (auto simp: same_data_def creation_net lossless_def)

lemma added_only:
  assumes "wf_db s"
  shows "only_row request_table (new_request ident payload d s) (request_added ident payload d s)"
  using new_request_only [OF assms, of ident payload d] by (simp add: stage_added_def only_row_def open_stage_state_def add_row_def)

lemma creation_clock:
  "clock (request_added ident payload d s) = clock s" "clock (stage_added ident payload d plan s) = clock s"
  by (simp_all add: creation_states)

section \<open>The transaction\<close>

definition undo_creation :: "identity \<Rightarrow> 'z db_scheme \<Rightarrow> 'z db_scheme compensation" where
  "undo_creation ident s = and_then (soft_delete (next_uuid s) 1 (id_user_id ident)) (\<lambda>_. return ())"

lemma undo_state: "snd (undo_creation ident s u) = snd (soft_delete (next_uuid s) 1 (id_user_id ident) u)"
  by (simp add: undo_creation_def and_then_def eff_simps split: prod.splits sum.splits)

text \<open>A statement inside the transaction: its answer travels on, its error is translated and ends the body.\<close>

lemma perform_call:
  "m v = (Inr x, w) \<Longrightarrow> and_then (perform (db_call m)) f (v, cs) = f x (w, cs)"
  "m v = (Inl e, w) \<Longrightarrow> \<exists>e'. and_then (perform (db_call m)) f (v, cs) = (Inl e', (w, cs))"
  by (auto simp: db_call_def catching_apply and_then_def perform_def split: prod.splits sum.splits)

lemma transaction_raises: "body (s, []) = (Inl e, (v, cs)) \<Longrightarrow> transaction body s = (Inl e, run_compensations (rev cs) v)"
  and transaction_returns: "body (s, []) = (Inr x, (v, cs)) \<Longrightarrow> transaction body s = (Inr x, v)"
  by (simp_all add: transaction_def)

lemma creation_transaction:
  assumes wf: "wf_db s" and ll: "lossless s" and run: "transaction (creation_body ident payload d plan) s = (r, t)"
  shows "case r of
      Inr x \<Rightarrow> x = opened_request ident payload d s \<and> core t = core (creation_result ident payload d plan s) \<and>
        creation_debris ident payload d plan s t
    | Inl e \<Rightarrow> creation_debris ident payload d plan s t"
proof -
  let ?body = "creation_body ident payload d plan"
  let ?X = "request_added ident payload d s" and ?Y = "stage_added ident payload d plan s"
  let ?Z = "request_opened ident payload d plan s"
  let ?cs = "[undo_creation ident s]"
  let ?m1 = "create_request_row (id_user_id ident) (wd_id d) (rc_request_type payload) (rc_title payload)
      (id_company_id ident) (rc_description payload) (rc_department payload)"
  let ?m2 = "create_stage (next_uuid s) (sp_stage_order plan) (sp_stage_name plan) (id_company_id ident)
      (sp_assigned_role plan) (sp_assigned_to plan)"
  let ?m3 = "set_current_stage (next_uuid s) 1 (Some (Suc (next_uuid s))) ReqPending None"
  let ?m4 = "record_event (audit_action_value REQUEST_CREATED) (Some (id_user_id ident)) (Some (next_uuid s))
      (Some (audit_metadata_for_creation (Suc (next_uuid s)) plan)) None"
  obtain r1 s1 where 1: "?m1 s = (r1, s1)" by (meson surj_pair)
  obtain r2 s2 where 2: "?m2 s1 = (r2, s2)" by (meson surj_pair)
  obtain r3 s3 where 3: "?m3 s2 = (r3, s3)" by (meson surj_pair)
  obtain r4 s4 where 4: "?m4 s3 = (r4, s4)" by (meson surj_pair)
  have ids: "rq_id (new_request ident payload d s) = next_uuid s" "rq_version (new_request ident payload d s) = 1"
    by (simp_all add: first_request_row_def)
  note debris = creation_debris_def 1 2 3 4 4 [simplified]
  show ?thesis
  proof (cases r1)
    case (Inl e)
    with step_request [OF ll 1] have "core s1 = core s" by (simp add: same_data_core)
    moreover from Inl 1 perform_call(2) have "\<exists>e'. ?body (s, []) = (Inl e', (s1, []))"
      unfolding creation_body_def by fastforce
    ultimately show ?thesis using run Inl by (auto simp: debris dest!: transaction_raises)
  next
    case i1: (Inr x1)
    with step_request [OF ll 1] have x1: "x1 = new_request ident payload d s" "check_request s x1 = None" "same_data ?X s1"
      by auto
    have l1: "lossless s1" by (rule same_request_added [OF x1(3) ll])
    let ?rest = "\<lambda>x2. and_then (perform (db_call (set_current_stage (next_uuid s) 1 (Some (st_id x2)) ReqPending None)))
        (\<lambda>x3. and_then (perform (db_call (record_event (audit_action_value REQUEST_CREATED) (Some (id_user_id ident))
          (Some (next_uuid s)) (Some (audit_metadata_for_creation (st_id x2) plan)) None))) (\<lambda>_. return x3))"
    have b1: "?body (s, []) = and_then (perform (db_call ?m2)) ?rest (s1, ?cs)"
      unfolding creation_body_def perform_call(1) [of ?m1, OF 1 [unfolded i1]]
      by (simp add: and_then_def register_apply x1(1) ids undo_creation_def)
    have check: "check_request v (deleted_request ident payload d s) = None" if "same_data ?X v \<or> same_data ?Y v" for v
      using that x1(1,2) by (intro deletion_accepted) (auto simp: same_data_def creation_states)
    show ?thesis
    proof (cases r2)
      case (Inl e)
      with step_stage [OF l1 x1(3) 2] have s2: "same_data ?X s2" by simp
      obtain e' where "?body (s, []) = (Inl e', (s2, ?cs))"
        unfolding b1 using perform_call(2) [of ?m2, OF 2 [unfolded Inl]] by blast
      with run have "r = Inl e'" "t = snd (soft_delete (next_uuid s) 1 (id_user_id ident) s2)"
        by (auto dest!: transaction_raises simp: undo_state)
      with compensation_deletes [OF same_request_added [OF s2 ll] s2 added_only [OF wf] creation_clock(1) _ surjective_pairing]
        check s2 Inl i1 show ?thesis by (simp add: debris)
    next
      case i2: (Inr x2)
      with step_stage [OF l1 x1(3) 2] have x2: "st_id x2 = Suc (next_uuid s)" "same_data ?Y s2" by simp_all
      have l2: "lossless s2" by (rule same_stage_added [OF x2(2) ll])
      have b2: "?body (s, []) = and_then (perform (db_call ?m3)) (\<lambda>x3. and_then (perform (db_call ?m4)) (\<lambda>_. return x3)) (s2, ?cs)"
        unfolding b1 perform_call(1) [of ?m2, OF 2 [unfolded i2]] x2(1) ..
      show ?thesis
      proof (cases r3)
        case (Inl e)
        with step_open [OF wf l2 x2(2) 3] have s3: "same_data ?Y s3" by simp
        obtain e' where "?body (s, []) = (Inl e', (s3, ?cs))"
        unfolding b2 using perform_call(2) [of ?m3, OF 3 [unfolded Inl]] by blast
      with run have "r = Inl e'" "t = snd (soft_delete (next_uuid s) 1 (id_user_id ident) s3)"
          by (auto dest!: transaction_raises simp: undo_state)
        with compensation_deletes [OF same_stage_added [OF s3 ll] s3 new_request_only [OF wf] creation_clock(2) _ surjective_pairing]
          check s3 Inl i1 i2 show ?thesis by (simp add: debris)
      next
        case i3: (Inr x3)
        with step_open [OF wf l2 x2(2) 3] have x3: "x3 = opened_request ident payload d s" "same_data ?Z s3" by simp_all
        have l3: "lossless s3" by (rule same_request_opened [OF x3(2) ll])
        have b3: "?body (s, []) = and_then (perform (db_call ?m4)) (\<lambda>_. return x3) (s3, ?cs)"
          unfolding b2 perform_call(1) [of ?m3, OF 3 [unfolded i3]] ..
        show ?thesis
        proof (cases r4)
          case (Inl e)
          with step_audit [OF l3 x3(2) 4] have s4: "same_data ?Z s4" by simp
          obtain e' where "?body (s, []) = (Inl e', (s4, ?cs))"
        unfolding b3 using perform_call(2) [of ?m4, OF 4 [unfolded Inl]] by blast
      with run have "r = Inl e'" "t = snd (soft_delete (next_uuid s) 1 (id_user_id ident) s4)"
            by (auto dest!: transaction_raises simp: undo_state)
          with compensation_misses [OF wf same_request_opened [OF s4 ll] s4 surjective_pairing] Inl i1 i2 i3
          show ?thesis by (auto simp: debris dest: same_data_core)
        next
          case i4: (Inr x4)
          have "?body (s, []) = (Inr x3, (s4, ?cs))"
            unfolding b3 perform_call(1) [of ?m4, OF 4 [unfolded i4]] by (simp add: eff_simps)
          with run have "r = Inr x3" "t = s4" by (auto dest!: transaction_returns)
          with step_audit [OF l3 x3(2) 4] x3(1) i1 i2 i3 i4 show ?thesis by (auto simp: debris dest: same_data_core)
        qed
      qed
    qed
  qed
qed

section \<open>What is read before\<close>

lemma row_range_subset: "set (row_range lo hi xs) \<subseteq> set xs"
  unfolding row_range_def using set_take_subset set_drop_subset by (metis order_trans)

lemma map_result_members:
  "map_result f xs = Inr ys \<Longrightarrow> y \<in> set ys \<Longrightarrow> \<exists>x\<in>set xs. f x = Inr y"
  by (induction xs arbitrary: ys) (auto simp: bind_result_def split: sum.splits)

lemma paginate_Inr:
  assumes "\<And>s ds. q (s\<lparr>net := ds\<rparr>) = q s" "paginate T q p s = (Inr res, t)"
  shows "set (res_items res) \<subseteq> set (q s)"
proof -
  let ?q = "\<lambda>s. (row_range (page_offset p) (page_upper_bound p) (q s), int (length (q s)))"
  obtain x u where x: "execute ''paginate'' (tb_name T) (gets ?q) s = (Inr x, u)" and res: "res_items res = fst x"
    using assms(2) unfolding paginate_def and_then_eq_Inr by (auto simp: return_eq split: prod.splits)
  have "x = ?q s" using execute_read [OF _ x] assms(1) by simp
  then show ?thesis using res row_range_subset by simp
qed

lemma list_definitions_members:
  assumes "list_definitions c (Some rt) (Some True) p s = (Inr res, t)" "x \<in> set (res_items res)"
  shows "x \<in> set (t_definitions s) \<and> df_company_id x = c \<and> df_request_type x = rt \<and> df_is_active x"
  using subsetD [OF paginate_Inr [OF _ assms(1) [unfolded list_definitions_def]] assms(2)]
  by (auto simp: order_desc_def eq_filter_def)

text \<open>The definition a creation uses is an active one of the caller's company and the asked type.\<close>

definition usable_definition :: "identity \<Rightarrow> request_create \<Rightarrow> workflow_definition \<Rightarrow> 'z db_scheme \<Rightarrow> bool" where
  "usable_definition ident payload d s \<longleftrightarrow> (\<exists>x\<in>set (t_definitions s).
     map_workflow_definition_record_to_domain x = Inr d \<and> df_company_id x = id_company_id ident \<and>
     df_request_type x = rc_request_type payload \<and> df_is_active x)"

lemma prepare_request_Inr:
  assumes "prepare_request cfg ident raw s = (Inr (payload, d, plan), u)"
  shows "same_data s u \<and> RequestCreate raw = Inr payload \<and> usable_definition ident payload d s \<and> sp_stage_order plan = 1"
proof -
  have u: "same_data s u" by (rule read_onlyD [OF read_only_prepare assms])
  obtain s1 res ds prof apps where 1: "RequestCreate raw = Inr payload"
    and 2: "list_definitions (id_company_id ident) (Some (rc_request_type payload)) (Some True) (page_of_size 10) s = (Inr res, s1)"
    and 3: "map_result map_workflow_definition_record_to_domain (res_items res) = Inr ds"
    and 4: "resolve_definition (rc_request_type payload) ds = Inr d"
    and 5: "plan_first_stage d prof apps = Inr plan"
    using assms by (auto simp: prepare_request_def and_then_eq_Inr eff_simps)
  have "filter (\<lambda>c. wd_request_type c = rc_request_type payload \<and> wd_is_active c) ds = [d]"
    using 4 by (auto simp: resolve_definition_def Let_def split: list.splits)
  then have "d \<in> set (filter (\<lambda>c. wd_request_type c = rc_request_type payload \<and> wd_is_active c) ds)" by simp
  then obtain x where x: "x \<in> set (res_items res)" "map_workflow_definition_record_to_domain x = Inr d"
    using map_result_members [OF 3] by auto
  have "sp_stage_order plan = 1"
    by (rule plan_first_stage_order [OF _ 5]) (use map_definition_Inr [OF x(2)] in simp)
  with u 1 list_definitions_members [OF 2 x(1)] x(2) show ?thesis unfolding usable_definition_def by blast
qed


section \<open>Creating a request\<close>

lemma notify_assignment_core:
  assumes "(case a of None \<Rightarrow> return None | Some w \<Rightarrow> notify_assignment cfg w i m) u = (r, t)"
  shows "core t = core u"
proof -
  have "preserves (core_is K) (case a of None \<Rightarrow> return None | Some w \<Rightarrow> notify_assignment cfg w i m)" for K
    unfolding notify_defs by (auto intro!: pres preserves_core_notify split: option.splits)
  from preservesD [OF this, of "core u" u] assms show ?thesis by (simp add: core_is_def)
qed

lemma creation_result_same:
  assumes "same_data s u"
  shows "core (creation_result ident payload d plan u) = core (creation_result ident payload d plan s)"
    "opened_request ident payload d u = opened_request ident payload d s"
    "usable_definition ident payload d u = usable_definition ident payload d s" "wf_db u = wf_db s"
  using assms by (auto simp: same_data_def creation_states_net opened_request_def usable_definition_def)

lemma create_request_run:
  assumes "wf_db s" "lossless s" "service_create_request cfg ident raw s = (r, t)"
  shows "case prepare_request cfg ident raw s of
      (Inl e, u) \<Rightarrow> r = Inl e \<and> core t = core s
    | (Inr (payload, d, plan), u) \<Rightarrow> same_data s u \<and> RequestCreate raw = Inr payload \<and>
        usable_definition ident payload d s \<and> sp_stage_order plan = 1 \<and> creation_debris ident payload d plan u t \<and>
        (\<forall>req. r = Inr req \<longrightarrow> map_request_record_to_domain (opened_request ident payload d s) = Inr req \<and>
           core t = core (creation_result ident payload d plan s))"
proof (cases "prepare_request cfg ident raw s")
  case (Pair r1 u)
  have u: "same_data s u" by (rule read_onlyD [OF read_only_prepare Pair])
  show ?thesis
  proof (cases r1)
    case (Inl e)
    with Pair assms(3) have "r = Inl e" "t = u" by (simp_all add: service_create_request_def and_then_def)
    with same_data_core [OF u] Pair Inl show ?thesis by simp
  next
    case (Inr x)
    obtain payload d plan where x: "x = (payload, d, plan)" by (cases x)
    note ready = prepare_request_Inr [OF Pair [unfolded Inr x]]
    have wf: "wf_db u" "lossless u"
      using assms(1,2) creation_result_same(4) [OF u] same_data_lossless [OF u] by simp_all
    obtain r2 v where 2: "transaction (creation_body ident payload d plan) u = (r2, v)" by (meson surj_pair)
    note body = creation_transaction [OF wf 2]
    show ?thesis
    proof (cases r2)
      case (Inl e)
      with Pair Inr x 2 assms(3) have "r = Inl e" "t = v" by (simp_all add: service_create_request_def and_then_def)
      with body Inl ready Pair Inr x show ?thesis by auto
    next
      case 3: (Inr req)
      with body creation_result_same [OF u] have v: "req = opened_request ident payload d s"
        "core v = core (creation_result ident payload d plan s)" "creation_debris ident payload d plan u v"
        by auto
      let ?m = "(case sp_assigned_to plan of None \<Rightarrow> return None
        | Some w \<Rightarrow> notify_assignment (sc_notify cfg) w (rq_id req)
           (''You have been assigned to review '' @ [CHR 0x27] @ rc_title payload @ [CHR 0x27] @ ''.''))"
      obtain r3 w where m: "?m v = (r3, w)" by (meson surj_pair)
      have w: "core w = core v" using notify_assignment_core [OF m] .
      moreover have "t = w" "r = (case r3 of Inl e \<Rightarrow> Inl e | Inr y \<Rightarrow> map_request_record_to_domain req)"
        using Pair Inr x 2 3 assms(3) m
        by (auto simp: service_create_request_def and_then_def eff_simps split: sum.splits)
      ultimately show ?thesis using ready v Pair Inr x debris_core [OF w, of ident payload d plan u]
        by (auto split: sum.splits)
    qed
  qed
qed


text \<open>
  C4. A creation that returns has added exactly one request, pending, owned by the caller and of the
  caller's company, under an active definition of that company for the (stripped) type asked for, with
  one pending stage of order 1 that the request points to, and one audit entry; what it returns is that
  request's row.
\<close>

theorem creation_effect:
  assumes "wf_db s" "lossless s" "service_create_request cfg ident raw s = (Inr req, t)"
  shows "\<exists>payload d plan. RequestCreate raw = Inr payload \<and> usable_definition ident payload d s \<and> sp_stage_order plan = 1 \<and>
    map_request_record_to_domain (opened_request ident payload d s) = Inr req \<and>
    core t = core (creation_result ident payload d plan s)"
  using create_request_run [OF assms] by (auto split: prod.splits sum.splits) blast

text \<open>
  C5. What a creation that raises leaves depends only on the statement that failed. Nothing has changed
  when the reading before it, or the insertion of the request, failed. When the insertion of the stage, or
  the link from the request to it, failed, the request that was inserted is soft-deleted by the
  compensation: always if the network delivers from there on, and otherwise exactly when the deletion is
  answered. When the audit entry failed, the compensation asks for version 1 of a row now at version 2 and
  deletes nothing: the request stays, live and pending, though its creator was told it failed; and a
  failure after the transaction (of the notification) leaves the whole creation.
\<close>

theorem failed_creation_leftover:
  assumes "wf_db s" "lossless s" "service_create_request cfg ident raw s = (Inl e, t)"
  shows "case prepare_request cfg ident raw s of
      (Inl _, _) \<Rightarrow> core t = core s
    | (Inr (payload, d, plan), u) \<Rightarrow> same_data s u \<and> RequestCreate raw = Inr payload \<and>
        usable_definition ident payload d s \<and> sp_stage_order plan = 1 \<and> creation_debris ident payload d plan u t"
  using create_request_run [OF assms] by (auto split: prod.splits sum.splits)

text \<open>
  The creation of a leave request in the sample company; and two whose network refuses a statement, the
  insertion of the stage or the audit entry.
\<close>

definition sample_payload :: request_create where
  "sample_payload = \<lparr>rc_request_type = ''leave'', rc_title = ''Day off'', rc_description = None, rc_department = None\<rparr>"

definition sample_requester :: identity where "sample_requester = identity_of 2 Employee 7"

definition refused_after :: "nat \<Rightarrow> db" where
  "refused_after n = sample_db (replicate n Delivered @ [Refused [] []])"

lemma sample_creates: "is_ok (fst (service_create_request sample_config sample_requester sample_payload (sample_db [])))"
  by code_simp

lemma sample_orphan:
  "\<not> is_ok (fst (service_create_request sample_config sample_requester sample_payload (refused_after 6)))"
  "list_ex (\<lambda>r. rq_id r = 100 \<and> rq_status r = ReqPending \<and> rq_current_stage_id r = Some 101 \<and> rq_deleted_at r = None)
     (t_requests (snd (service_create_request sample_config sample_requester sample_payload (refused_after 6))))"
  by code_simp+

lemma sample_undone:
  "\<not> is_ok (fst (service_create_request sample_config sample_requester sample_payload (refused_after 4)))"
  "list_ex (\<lambda>r. rq_id r = 100 \<and> rq_version r = 2 \<and> rq_deleted_by r = Some 2)
     (t_requests (snd (service_create_request sample_config sample_requester sample_payload (refused_after 4))))"
  by code_simp+

lemma refused_wf: "wf_db (refused_after n)" "lossless (refused_after n)"
  by (simp_all add: refused_after_def lossless_def wf_db_def sample_defs check_stage_None check_request_None undecided_def)

theorem creation_effect_witness:
  "\<exists>req t payload d plan. service_create_request sample_config sample_requester sample_payload (sample_db []) = (Inr req, t) \<and>
    RequestCreate sample_payload = Inr payload \<and> usable_definition sample_requester payload d (sample_db []) \<and> sp_stage_order plan = 1 \<and>
    map_request_record_to_domain (opened_request sample_requester payload d (sample_db [])) = Inr req \<and>
    core t = core (creation_result sample_requester payload d plan (sample_db []))"
  using is_ok_run [OF sample_creates] creation_effect [OF sample_wf quiet_lossless [OF sample_quiet(1)]] by metis

theorem failed_creation_leftover_witness:
  "\<exists>e t e' t' payload d plan u payload' d' plan' u'.
    service_create_request sample_config sample_requester sample_payload (refused_after 4) = (Inl e, t) \<and>
    creation_debris sample_requester payload d plan u t \<and> same_data (refused_after 4) u \<and>
    (\<exists>r\<in>set (t_requests t). rq_id r = 100 \<and> rq_version r = 2 \<and> rq_deleted_by r = Some 2) \<and>
    service_create_request sample_config sample_requester sample_payload (refused_after 6) = (Inl e', t') \<and>
    creation_debris sample_requester payload' d' plan' u' t' \<and> same_data (refused_after 6) u' \<and>
    (\<exists>r\<in>set (t_requests t'). rq_id r = 100 \<and> rq_status r = ReqPending \<and> rq_deleted_at r = None)"
proof -
  obtain e t where run:
    "service_create_request sample_config sample_requester sample_payload (refused_after 4) = (Inl e, t)"
    using not_ok_run [OF sample_undone(1)] by blast
  obtain e' t' where run':
    "service_create_request sample_config sample_requester sample_payload (refused_after 6) = (Inl e', t')"
    using not_ok_run [OF sample_orphan(1)] by blast
  have ready: "is_ok (fst (prepare_request sample_config sample_requester sample_payload (refused_after 4)))"
    "is_ok (fst (prepare_request sample_config sample_requester sample_payload (refused_after 6)))"
    by code_simp+
  obtain payload d plan u where "prepare_request sample_config sample_requester sample_payload (refused_after 4) =
      (Inr (payload, d, plan), u)"
    using is_ok_run [OF ready(1)] by (metis prod_cases3)
  moreover obtain payload' d' plan' u' where "prepare_request sample_config sample_requester sample_payload (refused_after 6) =
      (Inr (payload', d', plan'), u')"
    using is_ok_run [OF ready(2)] by (metis prod_cases3)
  moreover have "\<exists>r\<in>set (t_requests t). rq_id r = 100 \<and> rq_version r = 2 \<and> rq_deleted_by r = Some 2"
    using sample_undone(2) unfolding run list_ex_iff by auto
  moreover have "\<exists>r\<in>set (t_requests t'). rq_id r = 100 \<and> rq_status r = ReqPending \<and> rq_deleted_at r = None"
    using sample_orphan(2) unfolding run' list_ex_iff by auto
  moreover from calculation have "creation_debris sample_requester payload d plan u t \<and> same_data (refused_after 4) u"
    using failed_creation_leftover [OF refused_wf run] by simp
  moreover from calculation have "creation_debris sample_requester payload' d' plan' u' t' \<and> same_data (refused_after 6) u'"
    using failed_creation_leftover [OF refused_wf run'] by simp
  ultimately show ?thesis using run run' by blast
qed

end
