(* ===== verification/Reachable.thy ===== *)
theory Reachable imports Workflow Creation
begin

text \<open>
  The agreement of requests and stages along runs: decisions and creations keep it too, so every state
  reached from an agreeing one over a network that delivers agrees.
\<close>

section \<open>Decisions\<close>

lemma consistent_net [simp]: "consistent (s\<lparr>net := ds\<rparr>) = consistent s"
  by (simp add: net_stableD [OF net_stable_consistent])

lemma consistent_core: "core t = core s \<Longrightarrow> consistent t = consistent s"
  by (simp add: core_fields consistent_def stages_of_def)

lemma consistent_same_data: "same_data s t \<Longrightarrow> consistent t = consistent s"
  using consistent_core same_data_core by blast

lemma decide_consistent:
  assumes wf: "wf_db s" and q: "quiet s" and c: "consistent s" and tgt: "target = StageApproved \<or> target = StageRejected"
    and run: "decide_stage cfg ident sid target expected remark s = (r, t)"
  shows "consistent t"
proof (cases r)
  case (Inl e)
  with decide_stage_Inl [OF wf q tgt] run consider "t = s"
    | (undone) st rq where "st \<in> set (t_stages s)" "rq \<in> set (t_requests s)" "restored st rq s t"
    | (unread) st where "st \<in> set (t_stages s)" "unreadable_decision target ident remark st s t"
    by blast
  then show ?thesis
  proof cases
    case undone
    with consistent_restored [OF c undone(3) wf undone(1,2)] show ?thesis by simp
  next
    case unread
    then show ?thesis
      unfolding unreadable_decision_def using consistent_decision [OF wf c tgt unread(1)] by blast
  qed (use c in simp)
next
  case (Inr out)
  with decide_stage_Inr [OF wf quiet_lossless [OF q] tgt] run obtain st where st: "st \<in> set (t_stages s)"
    and d: "replayed_decision target ident st out s t \<or> fresh_decision target ident expected remark st out s t" by blast
  from d show ?thesis
  proof
    assume "replayed_decision target ident st out s t"
    then show ?thesis using c consistent_same_data [of s t] by (simp add: replayed_decision_def)
  next
    assume "fresh_decision target ident expected remark st out s t"
    then show ?thesis unfolding fresh_decision_def using consistent_decision [OF wf c tgt st] by blast
  qed
qed

section \<open>Creations\<close>

lemma fresh_request_unstaged:
  assumes "wf_db s"
  shows "stages_of s (next_uuid s) = []"
proof -
  have "st_request_id st \<noteq> next_uuid s" if "st \<in> set (t_stages s)" for st
    using wf_dbD(4) [OF assms that] wf_dbD(6) [OF assms] by (force simp: check_stage_None)
  then show ?thesis by (auto simp: stages_of_def filter_empty_conv)
qed

lemma old_request_id: "wf_db s \<Longrightarrow> \<forall>r\<in>set (t_requests s). rq_id r \<noteq> next_uuid s"
  using wf_dbD(6) by fastforce

lemma creation_tables:
  "t_stages (request_added ident payload d s) = t_stages s"
  "t_requests (request_added ident payload d s) = t_requests s @ [new_request ident payload d s]"
  "t_stages (stage_added ident payload d plan s) = t_stages s @
     [new_stage_row (Suc (next_uuid s)) (clock s) (next_uuid s) (id_company_id ident) plan]"
  "t_requests (stage_added ident payload d plan s) = t_requests s @ [new_request ident payload d s]"
  by (simp_all add: creation_states first_request_row_def)

lemma request_added_consistent:
  assumes wf: "wf_db s" and c: "consistent s"
  shows "consistent (request_added ident payload d s)"
  using c fresh_request_unstaged [OF wf]
  by (auto simp: consistent_def stages_of_def creation_tables agrees_def first_request_row_def stages_shape_def points_to_last_def)

lemma stage_added_of:
  assumes wf: "wf_db s"
  shows "stages_of (stage_added ident payload d plan s) (next_uuid s) =
      [new_stage_row (Suc (next_uuid s)) (clock s) (next_uuid s) (id_company_id ident) plan]"
    "r \<in> set (t_requests s) \<Longrightarrow> stages_of (stage_added ident payload d plan s) (rq_id r) = stages_of s (rq_id r)"
  using fresh_request_unstaged [OF wf] old_request_id [OF wf]
  by (auto simp: stages_of_def creation_tables new_stage_row_def)

lemma one_pending_stage:
  assumes "sp_stage_order plan = 1"
  shows "stages_shape StagePending [new_stage_row i now q c plan]"
    "points_to_last (Some i) [new_stage_row i now q c plan]" "points_to_last None [new_stage_row i now q c plan]"
  using assms by (auto simp: stages_shape_def points_to_last_def new_stage_row_def)

lemma new_request_agrees:
  assumes "sp_stage_order plan = 1"
  shows "agrees (new_request ident payload d s) [new_stage_row (Suc (next_uuid s)) now q c plan]"
    "agrees (opened_request ident payload d s) [new_stage_row (Suc (next_uuid s)) now q c plan]"
  using one_pending_stage [OF assms]
  by (simp_all add: agrees_def opened_request_def advanced_row_def first_request_row_def)

lemma new_request_ids [simp]:
  "rq_id (new_request ident payload d s) = next_uuid s" "rq_id (opened_request ident payload d s) = next_uuid s"
  by (simp_all add: opened_request_def advanced_row_def first_request_row_def)

lemma stage_added_consistent:
  assumes wf: "wf_db s" and c: "consistent s" and plan: "sp_stage_order plan = 1"
  shows "consistent (stage_added ident payload d plan s)"
  unfolding consistent_def creation_tables
  using c by (auto simp: consistent_def stage_added_of [OF wf] new_request_agrees [OF plan])

lemma request_opened_consistent:
  assumes wf: "wf_db s" and c: "consistent s" and plan: "sp_stage_order plan = 1"
  shows "consistent (request_opened ident payload d plan s)"
proof -
  let ?t = "request_opened ident payload d plan s"
  have rows: "t_stages ?t = t_stages (stage_added ident payload d plan s)"
    "t_requests ?t = t_requests s @ [opened_request ident payload d s]"
    using old_request_id [OF wf]
    by (auto simp: request_opened_def creation_tables put_row_def opened_request_def advanced_row_def first_request_row_def
        intro: map_idI)
  have "stages_of ?t i = stages_of (stage_added ident payload d plan s) i" for i
    by (simp add: stages_of_def rows)
  then show ?thesis
    unfolding consistent_def rows
    using c by (auto simp: consistent_def stage_added_of [OF wf] new_request_agrees [OF plan])
qed

lemma result_consistent:
  "consistent (creation_result ident payload d plan s) = consistent (request_opened ident payload d plan s)"
  by (simp add: consistent_def stages_of_def creation_result_def add_row_def)

text \<open>The compensation's deletion is not part of the agreement.\<close>

lemma deleted_consistent:
  assumes "consistent u" "\<And>x. x \<in> set (t_requests u) \<Longrightarrow> rq_id x = next_uuid s \<Longrightarrow> x = new_request ident payload d s"
  shows "consistent (put_row request_table (deleted_request ident payload d s) u)"
proof -
  let ?g = "\<lambda>y. if rq_id y = next_uuid s then deleted_request ident payload d s else y"
  have i: "rq_id (deleted_request ident payload d s) = next_uuid s"
    by (simp add: deleted_request_def first_request_row_def)
  have "same_request (?g x) x" if "x \<in> set (t_requests u)" for x
    using assms(2) [OF that] by (auto simp: same_request_def deleted_request_def)
  then show ?thesis
    by (intro consistent_touched [OF assms(1), of _ id ?g]) (simp_all add: put_row_def i same_stage_def)
qed

lemma creation_consistent:
  assumes wf: "wf_db s" and q: "lossless s" and c: "consistent s"
    and run: "service_create_request cfg ident raw s = (r, t)"
  shows "consistent t"
proof (cases "core t = core s")
  case True
  with c show ?thesis by (simp add: consistent_core [OF True])
next
  case False
  with create_request_run [OF wf q run] obtain payload d plan u where u: "same_data s u"
    and plan: "sp_stage_order plan = 1" and res: "creation_debris ident payload d plan u t"
    by (auto split: prod.splits sum.splits)
  have wf': "wf_db u" using creation_result_same(4) [OF u] wf by simp
  have c': "consistent u" using c by (simp add: consistent_core [OF same_data_core [OF u]])
  note steps = request_added_consistent [OF wf' c', of ident payload d] stage_added_consistent [OF wf' c' plan, of ident payload d]
    request_opened_consistent [OF wf' c' plan, of ident payload d]
  have new: "x = new_request ident payload d u" if "x \<in> set (t_requests X)" "rq_id x = next_uuid u"
    "X \<in> {request_added ident payload d u, stage_added ident payload d plan u}" for x X
    using that old_request_id [OF wf'] by (auto simp: creation_tables)
  have debris: "consistent X \<and> consistent (put_row request_table (deleted_request ident payload d u) X)"
    if X: "X \<in> {request_added ident payload d u, stage_added ident payload d plan u}" for X
  proof -
    have "consistent X" using X steps by blast
    with deleted_consistent [OF this new [OF _ _ X]] show ?thesis by blast
  qed
  from debris_rows [OF res] show ?thesis
    using debris steps(3) c' by (metis consistent_core result_consistent)
qed

section \<open>Runs\<close>

lemma step_consistent:
  assumes "service_step cfg s t" "wf_db s" "quiet s" "consistent s"
  shows "consistent t"
  using assms(1)
proof cases
  case (approving ident sid expected remark)
  then show ?thesis
    using decide_consistent [OF assms(2-4), of StageApproved cfg ident sid expected remark]
    by (simp add: service_approve_stage_def) (metis surj_pair snd_conv)
next
  case (rejecting ident sid expected remark')
  then show ?thesis
    using decide_consistent [OF assms(2-4), of StageRejected cfg ident sid expected "Some remark'"] assms(4)
    by (simp add: service_reject_stage_def eff_simps split: if_splits) (metis surj_pair snd_conv)
next
  case (creating ident raw)
  then show ?thesis
    using creation_consistent [OF assms(2) quiet_lossless [OF assms(3)] assms(4)] by (metis surj_pair snd_conv)
qed (use assms(4) in \<open>auto intro: preservesD agreement.escalate agreement.edit agreement.definitions simp: consistent_same_rows\<close>)

text \<open>
  C3. Over a network that delivers, from any well-formed state where requests and stages agree, every
  state the service's operations can reach is one where they agree: the stages of each request are
  numbered from 1 without gaps, all but the last approved; a pending or in-review request's last stage
  is the pending one, and it is the one the request points to; a completed request's last stage is
  approved and a rejected one's rejected; and exactly the completed and rejected requests have a
  completion time.
\<close>

theorem reachable_requests_agree:
  assumes "(service_step cfg)\<^sup>*\<^sup>* s t" "wf_db s" "quiet s" "consistent s"
  shows "consistent t"
proof -
  have "wf_db t \<and> quiet t \<and> consistent t"
    using assms
  proof (induction rule: rtranclp_induct)
    case (step t u)
    then have "wf_db t" "quiet t" "consistent t" by blast+
    then show ?case
      using step_consistent [OF step(2)] integrity.step [OF step(2)] quiet_ops.step [OF step(2)] by simp
  qed simp
  then show ?thesis by simp
qed


lemma sample_consistent: "consistent (sample_db [])"
  by (simp add: consistent_def agrees_def stages_shape_def points_to_last_def stages_of_def sample_defs)

theorem reachable_requests_agree_witness:
  "consistent (snd (service_reject_stage sample_config sample_approver 30 None ''no''
     (snd (service_create_request sample_config sample_requester sample_payload (sample_db [])))))"
  by (rule reachable_requests_agree [OF two_steps [OF creating rejecting]
        sample_wf sample_quiet(1) sample_consistent])

end
