(* ===== verification/Activation.thy ===== *)
theory Activation imports Approval DefinitionService
begin

text \<open>
  \<open>WorkflowDefinitionService.activate_version\<close> over \<open>WorkflowRepository.activate\<close>: the switch from the
  active version of a request type to another, as two statements with a gap between them.
\<close>

section \<open>The switch\<close>

definition is_active_for :: "string \<Rightarrow> uuid \<Rightarrow> definition_record \<Rightarrow> bool" where
  "is_active_for rt c d \<longleftrightarrow> df_request_type d = rt \<and> df_company_id d = c \<and> df_is_active d"

text \<open>What the table's primary key and its partial unique index say.\<close>

definition one_active :: "'z db_scheme \<Rightarrow> bool" where
  "one_active s \<longleftrightarrow> distinct (map df_id (t_definitions s)) \<and>
     (\<forall>rt c. length (filter (is_active_for rt c) (t_definitions s)) \<le> 1)"

definition active_version :: "string \<Rightarrow> uuid \<Rightarrow> 'z db_scheme \<Rightarrow> definition_record option" where
  "active_version rt c s = List.find (is_active_for rt c) (t_definitions s)"

definition deactivated_row :: "definition_record \<Rightarrow> definition_record" where
  "deactivated_row d = d\<lparr>df_is_active := False, df_row_version := df_row_version d + 1\<rparr>"

definition activated_row :: "definition_record \<Rightarrow> definition_record" where
  "activated_row d = d\<lparr>df_is_active := True, df_row_version := df_row_version d + 1\<rparr>"

definition vacated :: "string \<Rightarrow> uuid \<Rightarrow> 'z db_scheme \<Rightarrow> 'z db_scheme" where
  "vacated rt c s = (case active_version rt c s of
     None \<Rightarrow> s | Some a \<Rightarrow> put_row definition_table (deactivated_row a) s)"

definition switched :: "definition_record \<Rightarrow> 'z db_scheme \<Rightarrow> 'z db_scheme" where
  "switched d s = put_row definition_table (activated_row d) (vacated (df_request_type d) (df_company_id d) s)"

lemma active_version_Some:
  "active_version rt c s = Some a \<Longrightarrow> a \<in> set (t_definitions s) \<and> is_active_for rt c a"
  by (auto simp: active_version_def find_Some_iff)

lemma definition_only: "one_active s \<Longrightarrow> d \<in> set (t_definitions s) \<Longrightarrow> only_row definition_table d s"
  by (intro distinct_only_row) (simp_all add: one_active_def)

lemma definition_unique:
  "one_active s \<Longrightarrow> x \<in> set (t_definitions s) \<Longrightarrow> y \<in> set (t_definitions s) \<Longrightarrow> df_id x = df_id y \<Longrightarrow> x = y"
  by (metis distinct_map inj_onD one_active_def)

lemma put_definition_rows [simp]:
  "t_definitions (put_row definition_table d s) = map (\<lambda>y. if df_id y = df_id d then d else y) (t_definitions s)"
  "net (put_row definition_table d s) = net s" "clock (put_row definition_table d s) = clock s"
  by (simp_all add: put_row_def)

lemma definition_row_ids [simp]: "df_id (deactivated_row d) = df_id d" "df_id (activated_row d) = df_id d"
  by (simp_all add: deactivated_row_def activated_row_def)

lemma vacated_net [simp]: "net (vacated rt c s) = net s"
  by (simp add: vacated_def split: option.splits)

lemma active_version_net [simp]: "active_version rt c (s\<lparr>net := ds\<rparr>) = active_version rt c s"
  by (simp add: active_version_def)

lemma vacated_upd [simp]: "vacated rt c (s\<lparr>net := ds\<rparr>) = (vacated rt c s)\<lparr>net := ds\<rparr>"
  by (simp add: vacated_def put_row_def split: option.splits)

section \<open>The statements\<close>

lemma find_active_Inr:
  assumes "find_active_for_request_type rt c s = (Inr x, t)"
  shows "x = active_version rt c s"
proof -
  let ?q = "\<lambda>s. take 1 (filter (\<lambda>d. df_request_type d = rt \<and> df_company_id d = c \<and> df_is_active d) (t_definitions s))"
  obtain rows u where r: "execute ''find_active_for_request_type'' ''workflow_definitions'' (gets ?q) s = (Inr rows, u)"
    and x: "x = (case rows of [] \<Rightarrow> None | d # _ \<Rightarrow> Some d)"
    using assms unfolding find_active_for_request_type_def and_then_eq_Inr return_eq by blast
  have "rows = ?q s" using execute_read [OF _ r] by simp
  moreover have "(case take 1 (filter P xs) of [] \<Rightarrow> None | d # _ \<Rightarrow> Some d) = List.find P xs" for P and xs :: "definition_record list"
    by (induction xs) auto
  ultimately show ?thesis by (simp add: x active_version_def is_active_for_def [abs_def])
qed

lemma deactivate_step:
  assumes "one_active s" "lossless s" "active_version rt c s = Some a" "deactivate_previous_definition a s = (r, t)"
  shows "case r of Inr _ \<Rightarrow> same_data (vacated rt c s) t | Inl e \<Rightarrow> same_data s t"
proof (cases r)
  case (Inl e)
  with definitions.update_lossless [OF assms(2) assms(4) [unfolded deactivate_previous_definition_def]] show ?thesis by simp
next
  case (Inr rs)
  let ?p = "\<lambda>d. df_id d = df_id a \<and> df_row_version d = df_row_version a"
  from Inr definitions.update_lossless [OF assms(2) assms(4) [unfolded deactivate_previous_definition_def]]
  obtain ds where ds: "set ds \<subseteq> set (net s)"
    "t = (s\<lparr>t_definitions := map (\<lambda>r. if ?p r then r\<lparr>df_is_active := False, df_row_version := df_row_version a + 1\<rparr> else r)
      (t_definitions s)\<rparr>)\<lparr>net := ds\<rparr>"
    by auto
  have a: "a \<in> set (t_definitions s)" using active_version_Some [OF assms(3)] by simp
  have "map (\<lambda>r. if ?p r then r\<lparr>df_is_active := False, df_row_version := df_row_version a + 1\<rparr> else r) (t_definitions s) =
      map (\<lambda>y. if df_id y = df_id (deactivated_row a) then deactivated_row a else y) (t_definitions s)"
    by (rule map_cong [OF refl]) (use definition_unique [OF assms(1) _ a] in \<open>auto simp: deactivated_row_def\<close>)
  with ds assms(3) Inr show ?thesis by (auto simp: same_data_def vacated_def put_row_def)
qed

lemma filter_put_other:
  "k r \<noteq> i \<Longrightarrow> filter (\<lambda>y. k y = i) (map (\<lambda>y. if k y = k r then r else y) xs) = filter (\<lambda>y. k y = i) xs"
  by (induction xs) auto

lemma vacated_only:
  assumes "one_active s" "d \<in> set (t_definitions s)" "\<not> df_is_active d"
  shows "only_row definition_table d (vacated rt c s)"
proof (cases "active_version rt c s")
  case None
  with assms definition_only show ?thesis by (simp add: vacated_def)
next
  case (Some a)
  then have a: "a \<in> set (t_definitions s)" "df_is_active a" using active_version_Some by (auto simp: is_active_for_def)
  then have ne: "df_id d \<noteq> df_id a" using definition_unique [OF assms(1,2)] assms(3) by blast
  have "filter (\<lambda>y. df_id y = df_id d) (t_definitions (vacated rt c s)) = filter (\<lambda>y. df_id y = df_id d) (t_definitions s)"
    using filter_put_other [of df_id "deactivated_row a" "df_id d"] ne by (simp add: vacated_def Some)
  with definition_only [OF assms(1,2)] show ?thesis by (simp add: only_row_def)
qed

lemma activate_row_step:
  assumes ok: "one_active s" and d: "d \<in> set (t_definitions s)" "\<not> df_is_active d"
    and u: "lossless u" "same_data s u"
    and run: "activate_definition_row (df_id d) (df_request_type d) (df_row_version d) (df_company_id d) u = (r, t)"
  shows "case r of
      Inr x \<Rightarrow> x = activated_row d \<and> same_data (switched d s) t
    | Inl e \<Rightarrow> same_data s t \<or> same_data (vacated (df_request_type d) (df_company_id d) s) t"
proof -
  let ?rt = "df_request_type d" and ?c = "df_company_id d"
  have act: "active_version ?rt ?c u = active_version ?rt ?c s" and oku: "one_active u"
    using u(2) ok by (auto simp: same_data_def one_active_def)
  have vac: "same_data (vacated ?rt ?c s) v" if "same_data (vacated ?rt ?c u) v" for v
    using that u(2) by (auto simp: same_data_def) (metis order_trans)
  let ?cont = "update_with_optimistic_lock definition_table (df_id d) (df_row_version d) (\<lambda>d. d\<lparr>df_is_active := True\<rparr>)"
  have lock: "case r' of Inr x \<Rightarrow> x = activated_row d \<and> same_data (switched d s) t'
      | Inl e \<Rightarrow> same_data s t' \<or> same_data (vacated ?rt ?c s) t'"
    if v: "lossless v" "same_data (vacated ?rt ?c s) v" "?cont v = (r', t')" for v r' t'
  proof -
    obtain ds where ds: "v = (vacated ?rt ?c s)\<lparr>net := ds\<rparr>" "set ds \<subseteq> set (net s)"
      using v(2) by (auto simp: same_data_def)
    have only: "only_row definition_table d v" using vacated_only [OF ok d] by (simp add: ds(1) only_row_def)
    note w = definitions.locked_put [OF v(1) _ only, of "df_row_version d" "\<lambda>d. d\<lparr>df_is_active := True\<rparr>" r' t', simplified, OF v(3)]
    show ?thesis
    proof (cases r')
      case (Inl e)
      with w same_data_trans [OF v(2)] show ?thesis by auto
    next
      case (Inr x)
      with w obtain ds' where t': "set ds' \<subseteq> set (net v)" "t' = (put_row definition_table x v)\<lparr>net := ds'\<rparr>" "x = activated_row d"
        by (auto simp: activated_row_def)
      then have "t' = (switched d s)\<lparr>net := ds'\<rparr>" by (simp add: ds(1) switched_def put_row_def)
      moreover have "set ds' \<subseteq> set (net (switched d s))" using t'(1) ds by (simp add: switched_def)
      ultimately show ?thesis using Inr t'(3) same_data_upd by simp
    qed
  qed
  obtain x u1 where 1: "find_active_for_request_type ?rt ?c u = (x, u1)" by (meson surj_pair)
  have u1: "same_data u u1" by (rule read_onlyD [OF read_only_load(2) 1])
  note l1 = same_data_lossless [OF u1 u(1)]
  show ?thesis
  proof (cases x)
    case (Inl e)
    with run 1 same_data_trans [OF u(2) u1] show ?thesis by (auto simp: activate_definition_row_def and_then_def)
  next
    case (Inr cur)
    have cur: "cur = active_version ?rt ?c s" using find_active_Inr [OF 1 [unfolded Inr]] act by simp
    show ?thesis
    proof (cases cur)
      case None
      then have "?cont u1 = (r, t)"
        using run 1 Inr by (simp add: activate_definition_row_def and_then_def eff_simps)
      moreover have "same_data (vacated ?rt ?c s) u1"
        using same_data_trans [OF u(2) u1] cur None by (simp add: vacated_def)
      ultimately show ?thesis by (intro lock [OF l1])
    next
      case (Some a)
      have a: "a \<in> set (t_definitions s)" "df_is_active a" using active_version_Some [of "df_request_type d" "df_company_id d" s a] cur Some
        by (auto simp: is_active_for_def)
      then have ne: "df_id a \<noteq> df_id d" using definition_unique [OF ok _ d(1)] d(2) by blast
      obtain y u2 where 2: "deactivate_previous_definition a u1 = (y, u2)" by (meson surj_pair)
      have ok1: "one_active u1" "active_version ?rt ?c u1 = Some a" "vacated ?rt ?c u1 = vacated ?rt ?c u\<lparr>net := net u1\<rparr>"
        using u1 oku act cur Some by (auto simp: same_data_def one_active_def)
      note step = deactivate_step [OF ok1(1) l1 ok1(2) 2]
      show ?thesis
      proof (cases y)
        case (Inl e)
        with run 1 Inr Some ne 2 have "t = u2" "\<exists>e. r = Inl e" by (auto simp: activate_definition_row_def and_then_def)
        with step Inl same_data_trans [OF same_data_trans [OF u(2) u1]] show ?thesis by auto
      next
        case y: (Inr z)
        have "?cont u2 = (r, t)"
          using run 1 Inr Some ne 2 y by (simp add: activate_definition_row_def and_then_def eff_simps)
        moreover have "same_data (vacated ?rt ?c s) u2"
          using step y u1 u(2) by (auto simp: same_data_def) (metis order_trans)
        moreover have "lossless u2" using calculation(2) u(1) l1 step y by (auto simp: same_data_def lossless_def)
        ultimately show ?thesis by (intro lock)
      qed
    qed
  qed
qed


section \<open>Activating a version\<close>

definition activation_audit_row :: "identity \<Rightarrow> definition_record \<Rightarrow> 'z db_scheme \<Rightarrow> audit_record" where
  "activation_audit_row ident d s =
     \<lparr>au_id = next_uuid s, au_actor_id = Some (id_user_id ident), au_request_id = None,
      au_action = audit_action_value WORKFLOW_DEFINITION_ACTIVATED,
      au_metadata = Some [(''definition_id'', MetaId (df_id d)), (''request_type'', MetaText (df_request_type d)),
        (''version'', MetaInt (df_version d)),
        (''previously_active_definition_id'',
          meta_id (map_option df_id (active_version (df_request_type d) (df_company_id d) s)))],
      au_created_at = clock s, au_company_id = None\<rparr>"

lemma activation_transaction:
  assumes ok: "one_active s" and d: "d \<in> set (t_definitions s)" "\<not> df_is_active d" "df_company_id d = id_company_id ident"
    and ll: "lossless s" and u: "same_data s u"
    and run: "transaction (activation_body ident d (active_version (df_request_type d) (df_company_id d) s)) u = (r, t)"
  shows "case r of
      Inr x \<Rightarrow> x = activated_row d \<and> core t = core (add_row audit_table (activation_audit_row ident d s) (switched d s))
    | Inl e \<Rightarrow> core t = core s \<or> core t = core (vacated (df_request_type d) (df_company_id d) s) \<or> core t = core (switched d s)"
proof -
  obtain x v where 1: "activate_definition_row (df_id d) (df_request_type d) (df_row_version d) (id_company_id ident) u = (x, v)"
    by (meson surj_pair)
  note act = activate_row_step [OF ok d(1,2) same_data_lossless [OF u ll] u 1 [folded d(3)]]
  show ?thesis
  proof (cases x)
    case (Inl e)
    with run 1 have "t = v" "\<exists>e. r = Inl e"
      by (auto simp: transaction_def activation_body_def and_then_def perform_def db_call_def catching_apply split: if_splits)
    with act Inl show ?thesis by (auto dest: same_data_core)
  next
    case (Inr a)
    with act have a: "a = activated_row d" and v: "same_data (switched d s) v" by simp_all
    have "next_uuid v = next_uuid s" "clock v = clock s"
      using v by (auto simp: same_data_def switched_def vacated_def put_row_def split: option.splits)
    moreover have lv: "lossless v" using v ll by (auto simp: same_data_def lossless_def switched_def)
    moreover obtain y w where 2: "record_event (audit_action_value WORKFLOW_DEFINITION_ACTIVATED) (Some (id_user_id ident)) None
        (Some [(''definition_id'', MetaId (df_id a)), (''request_type'', MetaText (df_request_type a)),
          (''version'', MetaInt (df_version a)), (''previously_active_definition_id'',
             meta_id (map_option df_id (active_version (df_request_type d) (df_company_id d) s)))]) None v = (y, w)"
      by (meson surj_pair)
    moreover note log = audits.insert_lossless [OF lv 2 [unfolded record_event_def]]
    have t: "t = w" "r = (case y of Inl e \<Rightarrow> Inl (if is_database_error e then translate_database_error e else e) | Inr _ \<Rightarrow> Inr a)"
      using run 1 Inr 2
      by (auto simp: transaction_def activation_body_def and_then_def perform_def db_call_def catching_apply
          register_compensation_def eff_simps split: sum.splits)
    show ?thesis
    proof (cases y)
      case (Inl e)
      with log t same_data_core [OF v] show ?thesis by (auto dest: same_data_core)
    next
      case (Inr z)
      have "core w = core (add_row audit_table (activation_audit_row ident d s) v)"
        using log Inr calculation(1,2)
        by (auto simp: add_row_def activation_audit_row_def core_fields a activated_row_def)
      also have "\<dots> = core (add_row audit_table (activation_audit_row ident d s) (switched d s))"
        using v by (auto simp: same_data_def core_fields add_row_def)
      finally show ?thesis using t Inr a by simp
    qed
  qed
qed


text \<open>The version that is active afterwards.\<close>

lemma vacated_rows:
  assumes ok: "one_active s"
  shows "filter (is_active_for rt c) (t_definitions (vacated rt c s)) = []"
proof (cases "active_version rt c s")
  case None
  then have "\<forall>d\<in>set (t_definitions s). \<not> is_active_for rt c d" by (auto simp: active_version_def find_None_iff)
  with None show ?thesis by (simp add: vacated_def filter_empty_conv)
next
  case (Some a)
  note a = active_version_Some [OF Some]
  have "x = a" if "x \<in> set (t_definitions s)" "is_active_for rt c x" for x
  proof -
    have "length (filter (is_active_for rt c) (t_definitions s)) \<le> 1" using ok by (simp add: one_active_def)
    moreover have "{x, a} \<subseteq> set (filter (is_active_for rt c) (t_definitions s))" using that a by auto
    ultimately show ?thesis by (cases "filter (is_active_for rt c) (t_definitions s)") auto
  qed
  then show ?thesis
    by (auto simp: vacated_def Some filter_empty_conv deactivated_row_def is_active_for_def)
qed

lemma filter_replaced:
  "\<forall>y\<in>set xs. \<not> P y \<Longrightarrow> P z \<Longrightarrow>
   filter P (map (\<lambda>y. if k y = i then z else y) xs) = map (\<lambda>_. z) (filter (\<lambda>y. k y = i) xs)"
  by (induction xs) auto

lemma switched_active:
  assumes ok: "one_active s" and d: "d \<in> set (t_definitions s)" "\<not> df_is_active d"
  shows "filter (is_active_for (df_request_type d) (df_company_id d)) (t_definitions (switched d s)) = [activated_row d]"
proof -
  let ?v = "vacated (df_request_type d) (df_company_id d) s"
  have only: "only_row definition_table d ?v" by (rule vacated_only [OF ok d])
  have "\<forall>y\<in>set (t_definitions ?v). \<not> is_active_for (df_request_type d) (df_company_id d) y"
    using vacated_rows [OF ok, of "df_request_type d" "df_company_id d"] by (simp add: filter_empty_conv)
  moreover have "is_active_for (df_request_type d) (df_company_id d) (activated_row d)"
    by (simp add: is_active_for_def activated_row_def)
  ultimately have "filter (is_active_for (df_request_type d) (df_company_id d))
      (map (\<lambda>y. if df_id y = df_id d then activated_row d else y) (t_definitions ?v)) =
    map (\<lambda>_. activated_row d) (filter (\<lambda>y. df_id y = df_id d) (t_definitions ?v))"
    by (rule filter_replaced)
  with only show ?thesis by (simp add: switched_def only_row_def)
qed


text \<open>Everything \<open>activate_version\<close> reads and checks before its transaction.\<close>

definition activation_check ::
  "identity \<Rightarrow> uuid \<Rightarrow> ('z db_scheme, definition_record \<times> definition_record option) eff" where
  "activation_check ident definition_id =
     and_then (authorize_management ident) (\<lambda>_.
     and_then (lookup_call (get_definition_for_company definition_id (id_company_id ident))) (\<lambda>candidate.
     and_then (find_active_for_request_type (df_request_type candidate) (id_company_id ident)) (\<lambda>cur.
     and_then (pure (map_workflow_definition_record_to_domain candidate)) (\<lambda>candidate_domain.
     and_then (case cur of
         None \<Rightarrow> return None
       | Some record \<Rightarrow> and_then (pure (map_workflow_definition_record_to_domain record)) (\<lambda>d. return (Some d)))
       (\<lambda>cur_domain.
     and_then (engine_call (validate_activation candidate_domain cur_domain)) (\<lambda>_. return (candidate, cur)))))))"

lemma activate_version_split:
  "activate_version ident i = and_then (activation_check ident i) (\<lambda>(candidate, cur).
     and_then (transaction (activation_body ident candidate cur)) (\<lambda>activated.
       pure (map_workflow_definition_record_to_domain activated)))"
  by (simp add: activate_version_def activation_check_def and_then_assoc and_then_return)

lemma read_only_activation_check: "read_only (activation_check ident i)"
  unfolding activation_check_def
  by (auto intro!: reading service_reads split: option.splits)

lemma activation_check_Inr:
  assumes "activation_check ident i s = (Inr (d, cur), u)"
  shows "same_data s u \<and> d \<in> set (t_definitions s) \<and> df_id d = i \<and> df_company_id d = id_company_id ident \<and>
    \<not> df_is_active d \<and> can_manage_workflow_definitions (id_role ident) \<and>
    cur = active_version (df_request_type d) (df_company_id d) s"
proof -
  obtain s1 s2 s3 w cw where 0: "authorize_management ident s = (Inr (), s1)"
    and 1: "get_definition_for_company i (id_company_id ident) s1 = (Inr d, s2)"
    and 2: "find_active_for_request_type (df_request_type d) (id_company_id ident) s2 = (Inr cur, s3)"
    and 3: "map_workflow_definition_record_to_domain d = Inr w" and 4: "validate_activation w cw = Inr ()"
    using assms by (auto simp: activation_check_def and_then_eq_Inr eff_simps)
  have s1: "same_data s s1" by (rule read_onlyD [OF read_only_load(5) 0])
  have "can_manage_workflow_definitions (id_role ident)"
    using 0 by (auto simp: authorize_management_def authorize_workflow_definition_management_def and_then_eq_Inr
        eff_simps bind_result_def auth_call_def catching_apply split: sum.splits if_splits)
  moreover obtain v where g: "get_by_id definition_table i s1 = (Inr d, v)" and c: "df_company_id d = id_company_id ident" "v = s2"
    using 1 by (auto simp: get_definition_for_company_def and_then_eq_Inr eff_simps split: if_splits)
  moreover have "same_data s s2" using same_data_trans [OF s1 read_onlyD [OF read_only_get_by_id g]] c(2) by simp
  moreover have "d \<in> set (t_definitions s)" "df_id d = i"
    using definitions.get_by_id_Inr [OF g] s1 by (auto simp: same_data_def)
  moreover have "\<not> df_is_active d"
    using 4 map_definition_Inr [OF 3] by (auto simp: validate_activation_def split: if_splits)
  moreover have "cur = active_version (df_request_type d) (df_company_id d) s"
    using find_active_Inr [OF 2] c \<open>same_data s s2\<close> by (auto simp: same_data_def)
  ultimately show ?thesis using read_onlyD [OF read_only_activation_check assms] by simp
qed

lemma activation_run:
  assumes ok: "one_active s" "lossless s" and run: "activate_version ident i s = (r, t)"
  shows "(\<exists>e. r = Inl e) \<and> core t = core s \<or>
    (\<exists>d\<in>set (t_definitions s). df_id d = i \<and> df_company_id d = id_company_id ident \<and> \<not> df_is_active d \<and>
      can_manage_workflow_definitions (id_role ident) \<and>
      (core t = core (add_row audit_table (activation_audit_row ident d s) (switched d s)) \<and>
         r = map_workflow_definition_record_to_domain (activated_row d) \<or>
       (\<exists>e. r = Inl e) \<and> (core t = core (vacated (df_request_type d) (df_company_id d) s) \<or> core t = core (switched d s))))"
proof -
  obtain x u where 1: "activation_check ident i s = (x, u)" by (meson surj_pair)
  show ?thesis
  proof (cases x)
    case (Inl e)
    with 1 run have "r = Inl e" "t = u" by (simp_all add: activate_version_split and_then_def)
    with same_data_core [OF read_onlyD [OF read_only_activation_check 1]] show ?thesis by simp
  next
    case (Inr y)
    obtain d cur where y: "y = (d, cur)" by (cases y)
    note check = activation_check_Inr [OF 1 [unfolded Inr y]]
    obtain z v where 2: "transaction (activation_body ident d cur) u = (z, v)" by (meson surj_pair)
    with check have body: "case z of
        Inr x \<Rightarrow> x = activated_row d \<and> core v = core (add_row audit_table (activation_audit_row ident d s) (switched d s))
      | Inl e \<Rightarrow> core v = core s \<or> core v = core (vacated (df_request_type d) (df_company_id d) s) \<or> core v = core (switched d s)"
      by (intro activation_transaction [OF ok(1) _ _ _ ok(2), of d ident u]) auto
    show ?thesis
    proof (cases z)
      case (Inl e)
      with 1 Inr y 2 run have "r = Inl e" "t = v" by (simp_all add: activate_version_split and_then_def)
      with body Inl check show ?thesis by auto
    next
      case (Inr w)
      with 1 \<open>x = Inr y\<close> y 2 run have "t = v" "r = map_workflow_definition_record_to_domain w"
        by (simp_all add: activate_version_split and_then_def eff_simps)
      with body Inr check show ?thesis by auto
    qed
  qed
qed

text \<open>
  C34. An activation that returns leaves exactly one active version of the request type in the company,
  the one activated: the previous one is deactivated in the same call, the caller administers the
  company's definitions, and one audit entry names both.
\<close>

theorem activation_effect:
  assumes "one_active s" "lossless s" "activate_version ident i s = (Inr w, t)"
  shows "\<exists>d\<in>set (t_definitions s). df_id d = i \<and> df_company_id d = id_company_id ident \<and> \<not> df_is_active d \<and>
    can_manage_workflow_definitions (id_role ident) \<and>
    filter (is_active_for (df_request_type d) (df_company_id d)) (t_definitions t) = [activated_row d] \<and>
    core t = core (add_row audit_table (activation_audit_row ident d s) (switched d s)) \<and>
    map_workflow_definition_record_to_domain (activated_row d) = Inr w"
proof -
  obtain d where d: "d \<in> set (t_definitions s)" "df_id d = i" "df_company_id d = id_company_id ident" "\<not> df_is_active d"
    "can_manage_workflow_definitions (id_role ident)"
    "core t = core (add_row audit_table (activation_audit_row ident d s) (switched d s))"
    "map_workflow_definition_record_to_domain (activated_row d) = Inr w"
    using activation_run [OF assms] by auto
  from d(6) have "t_definitions t = t_definitions (switched d s)" by (simp add: core_fields add_row_def)
  with d switched_active [OF assms(1) d(1,4)] show ?thesis by auto
qed

text \<open>
  An activation that raises has changed nothing, or has switched the versions without an audit
  entry, or has deactivated the previous version and activated none: then no version of the type is
  active, and nobody can create a request of it.
\<close>

theorem failed_activation_leftover:
  assumes "one_active s" "lossless s" "activate_version ident i s = (Inl e, t)"
  shows "core t = core s \<or> (\<exists>d\<in>set (t_definitions s). df_id d = i \<and>
    (core t = core (vacated (df_request_type d) (df_company_id d) s) \<and>
       active_version (df_request_type d) (df_company_id d) t = None \<or>
     core t = core (switched d s) \<or> core t = core (add_row audit_table (activation_audit_row ident d s) (switched d s))))"
proof -
  have "active_version rt c t = None" if "core t = core (vacated rt c s)" for rt c
  proof -
    have "t_definitions t = t_definitions (vacated rt c s)" using that by (simp add: core_fields)
    with vacated_rows [OF assms(1), of rt c] show ?thesis
      by (simp add: active_version_def find_None_iff filter_empty_conv)
  qed
  with activation_run [OF assms] show ?thesis by fastforce
qed


text \<open>The sample company with a second, inactive version of its definition.\<close>

definition sample_draft :: definition_record where
  "sample_draft = sample_workflow\<lparr>df_id := 11, df_version := 2, df_is_active := False\<rparr>"

definition draft_db :: "delivery list \<Rightarrow> db" where
  "draft_db ds = (sample_db ds)\<lparr>t_definitions := [sample_workflow, sample_draft]\<rparr>"

definition sample_admin :: identity where "sample_admin = identity_of 1 Admin 7"

definition activation_refused :: "delivery list" where
  "activation_refused = replicate 4 Delivered @ [Refused [] []]"

lemma draft_ok: "one_active (draft_db ds)" "lossless (draft_db [])" "lossless (draft_db activation_refused)"
  by (simp_all add: one_active_def is_active_for_def draft_db_def sample_draft_def activation_refused_def lossless_def sample_defs)

lemma draft_activates: "is_ok (fst (activate_version sample_admin 11 (draft_db [])))"
  by code_simp

lemma draft_gap:
  "\<not> is_ok (fst (activate_version sample_admin 11 (draft_db activation_refused)))"
  "list_all (\<lambda>d. \<not> df_is_active d) (t_definitions (snd (activate_version sample_admin 11 (draft_db activation_refused))))"
  by code_simp+

theorem activation_effect_witness:
  "\<exists>w t. activate_version sample_admin 11 (draft_db []) = (Inr w, t) \<and> (\<exists>d\<in>set (t_definitions (draft_db [])).
    df_id d = 11 \<and> df_company_id d = id_company_id sample_admin \<and> \<not> df_is_active d \<and>
    can_manage_workflow_definitions (id_role sample_admin) \<and>
    filter (is_active_for (df_request_type d) (df_company_id d)) (t_definitions t) = [activated_row d] \<and>
    core t = core (add_row audit_table (activation_audit_row sample_admin d (draft_db [])) (switched d (draft_db []))) \<and>
    map_workflow_definition_record_to_domain (activated_row d) = Inr w)"
  using is_ok_run [OF draft_activates] activation_effect [OF draft_ok(1,2)] by metis

theorem failed_activation_leftover_witness:
  "\<exists>e t. activate_version sample_admin 11 (draft_db activation_refused) = (Inl e, t) \<and>
    list_all (\<lambda>d. \<not> df_is_active d) (t_definitions t) \<and>
    (core t = core (draft_db activation_refused) \<or> (\<exists>d\<in>set (t_definitions (draft_db activation_refused)). df_id d = 11 \<and>
      (core t = core (vacated (df_request_type d) (df_company_id d) (draft_db activation_refused)) \<and>
         active_version (df_request_type d) (df_company_id d) t = None \<or>
       core t = core (switched d (draft_db activation_refused)) \<or>
       core t = core (add_row audit_table (activation_audit_row sample_admin d (draft_db activation_refused))
         (switched d (draft_db activation_refused))))))"
proof -
  obtain e t where run: "activate_version sample_admin 11 (draft_db activation_refused) = (Inl e, t)"
    using not_ok_run [OF draft_gap(1)] by blast
  with draft_gap(2) failed_activation_leftover [OF draft_ok(1,3) run] show ?thesis by auto
qed

end
