(* ===== verification/Envelope.thy ===== *)
theory Envelope imports Enums
begin

text \<open>
  The messages of the job queue: \<open>json.dumps\<close> of a dict of strings and \<open>json.loads\<close> of what it wrote
  (\<open>app/jobs/redis_queue.py\<close> writes the envelope, its Lua script and \<open>dequeue\<close> read it back). Strings
  are read and written as Python's \<open>json\<close> does by default: everything outside the printable ASCII
  characters is escaped.
\<close>

section \<open>Writing\<close>

definition hex_digit :: "nat \<Rightarrow> char" where
  "hex_digit n = (if n < 10 then char_of (48 + n) else char_of (87 + n))"

definition json_escape :: "char \<Rightarrow> string" where
  "json_escape c =
     (let n = of_char c in
      if n = (34 :: nat) then [CHR 0x5C, CHR 0x22]
      else if n = 92 then [CHR 0x5C, CHR 0x5C]
      else if n = 10 then [CHR 0x5C, CHR ''n'']
      else if n = 13 then [CHR 0x5C, CHR ''r'']
      else if n = 9 then [CHR 0x5C, CHR ''t'']
      else if n = 12 then [CHR 0x5C, CHR ''f'']
      else if n = 8 then [CHR 0x5C, CHR ''b'']
      else if 32 \<le> n \<and> n \<le> 126 then [c]
      else [CHR 0x5C, CHR ''u'', CHR ''0'', CHR ''0'', hex_digit (n div 16), hex_digit (n mod 16)])"

definition json_string :: "string \<Rightarrow> string" where
  "json_string s = CHR 0x22 # concat (map json_escape s) @ [CHR 0x22]"

fun json_members :: "(string \<times> string) list \<Rightarrow> string" where
  "json_members [] = []"
| "json_members [(k, v)] = json_string k @ '': '' @ json_string v"
| "json_members ((k, v) # m # ms) = json_string k @ '': '' @ json_string v @ '', '' @ json_members (m # ms)"

definition json_dumps :: "(string \<times> string) list \<Rightarrow> string" where
  "json_dumps members = CHR ''{'' # json_members members @ [CHR ''}'']"

section \<open>Reading\<close>

definition hex_value :: "char \<Rightarrow> nat option" where
  "hex_value c =
     (let n = of_char c in
      if 48 \<le> n \<and> n \<le> (57 :: nat) then Some (n - 48)
      else if 97 \<le> n \<and> n \<le> 102 then Some (n - 87)
      else if 65 \<le> n \<and> n \<le> 70 then Some (n - 55)
      else None)"

definition hex4 :: "char \<Rightarrow> char \<Rightarrow> char \<Rightarrow> char \<Rightarrow> nat option" where
  "hex4 a b c d =
     (case (hex_value a, hex_value b, hex_value c, hex_value d) of
        (Some w, Some x, Some y, Some z) \<Rightarrow> Some (4096 * w + 256 * x + 16 * y + z)
      | _ \<Rightarrow> None)"

definition unescape :: "char \<Rightarrow> char option" where
  "unescape c =
     (if c = CHR 0x22 \<or> c = CHR 0x5C \<or> c = CHR ''/'' then Some c
      else if c = CHR ''n'' then Some (char_of (10 :: nat))
      else if c = CHR ''r'' then Some (char_of (13 :: nat))
      else if c = CHR ''t'' then Some (char_of (9 :: nat))
      else if c = CHR ''f'' then Some (char_of (12 :: nat))
      else if c = CHR ''b'' then Some (char_of (8 :: nat))
      else None)"

text \<open>The characters up to the closing quote, and the rest. Code points above 255 are no \<open>char\<close>.\<close>

fun read_string :: "string \<Rightarrow> (string \<times> string) option" where
  "read_string [] = None"
| "read_string (c # cs) =
     (if c = CHR 0x22 then Some ([], cs)
      else if c = CHR 0x5C then
        (case cs of
           [] \<Rightarrow> None
         | e # es \<Rightarrow>
             if e = CHR ''u'' then
               (case es of
                  h1 # h2 # h3 # h4 # rest \<Rightarrow>
                    (case hex4 h1 h2 h3 h4 of
                       Some n \<Rightarrow> if n < 256 then map_option (\<lambda>(s, r). (char_of n # s, r)) (read_string rest) else None
                     | None \<Rightarrow> None)
                | _ \<Rightarrow> None)
             else (case unescape e of
                     Some x \<Rightarrow> map_option (\<lambda>(s, r). (x # s, r)) (read_string es)
                   | None \<Rightarrow> None))
      else if of_char c < (32 :: nat) then None
      else map_option (\<lambda>(s, r). (c # s, r)) (read_string cs))"

definition skip_spaces :: "string \<Rightarrow> string" where
  "skip_spaces = dropWhile (\<lambda>c. c = CHR '' '' \<or> c = CHR 0x09 \<or> c = CHR 0x0A \<or> c = CHR 0x0D)"

definition read_quoted :: "string \<Rightarrow> (string \<times> string) option" where
  "read_quoted s = (case skip_spaces s of c # cs \<Rightarrow> if c = CHR 0x22 then read_string cs else None | [] \<Rightarrow> None)"

definition read_char :: "char \<Rightarrow> string \<Rightarrow> string option" where
  "read_char c s = (case skip_spaces s of d # ds \<Rightarrow> if d = c then Some ds else None | [] \<Rightarrow> None)"

text \<open>One member per unit of fuel; a text has fewer members than characters.\<close>

fun read_members :: "nat \<Rightarrow> string \<Rightarrow> ((string \<times> string) list \<times> string) option" where
  "read_members 0 s = None"
| "read_members (Suc fuel) s =
     (case read_quoted s of None \<Rightarrow> None | Some (k, s1) \<Rightarrow>
     (case read_char (CHR '':'') s1 of None \<Rightarrow> None | Some s2 \<Rightarrow>
     (case read_quoted s2 of None \<Rightarrow> None | Some (v, s3) \<Rightarrow>
     (case read_char (CHR '','') s3 of
        Some s4 \<Rightarrow> map_option (\<lambda>(ms, r). ((k, v) # ms, r)) (read_members fuel s4)
      | None \<Rightarrow> map_option (\<lambda>r. ([(k, v)], r)) (read_char (CHR ''}'') s3)))))"

definition json_loads :: "string \<Rightarrow> (string \<times> string) list option" where
  "json_loads s =
     (case read_char (CHR ''{'') s of
        None \<Rightarrow> None
      | Some s1 \<Rightarrow>
          (case read_char (CHR ''}'') s1 of
             Some r \<Rightarrow> if skip_spaces r = [] then Some [] else None
           | None \<Rightarrow>
               (case read_members (length s1) s1 of
                  Some (ms, r) \<Rightarrow> if skip_spaces r = [] then Some ms else None
                | None \<Rightarrow> None)))"

section \<open>What is written is read back\<close>

lemma hex_value_digit: "n < 16 \<Longrightarrow> hex_value (hex_digit n) = Some n"
  by (auto simp: hex_value_def hex_digit_def Let_def)

lemma hex4_byte:
  assumes "n < 256"
  shows "hex4 (CHR ''0'') (CHR ''0'') (hex_digit (n div 16)) (hex_digit (n mod 16)) = Some n"
proof -
  have "hex_value (hex_digit (n div 16)) = Some (n div 16)" "hex_value (hex_digit (n mod 16)) = Some (n mod 16)"
    using assms by (simp_all add: hex_value_digit)
  moreover have "hex_value (CHR ''0'') = Some 0" by (simp add: hex_value_def)
  ultimately show ?thesis by (simp add: hex4_def)
qed

lemma quote_chars: "char_of (34 :: nat) = CHR 0x22" "char_of (92 :: nat) = CHR 0x5C"
  by (simp_all add: char_of_def bit_iff_odd)

lemma read_escaped: "read_string (json_escape c @ rest) = map_option (\<lambda>(s, r). (c # s, r)) (read_string rest)"
proof -
  define n where "n = (of_char c :: nat)"
  have c: "c = char_of n" by (simp add: n_def)
  have n: "n < 256" by (simp add: n_def)
  consider "n = 34" | "n = 92" | "n = 10" | "n = 13" | "n = 9" | "n = 12" | "n = 8"
    | "n \<notin> {34, 92, 10, 13, 9, 12, 8}" "32 \<le> n \<and> n \<le> 126"
    | "n \<notin> {34, 92, 10, 13, 9, 12, 8}" "\<not> (32 \<le> n \<and> n \<le> 126)" by blast
  then show ?thesis
  proof cases
    case 8
    have "c \<noteq> CHR 0x22" "c \<noteq> CHR 0x5C" using 8 by (auto simp: n_def)
    with 8 show ?thesis by (simp add: json_escape_def n_def [symmetric] Let_def)
  next
    case 9
    then have e: "json_escape c = [CHR 0x5C, CHR ''u'', CHR ''0'', CHR ''0'', hex_digit (n div 16), hex_digit (n mod 16)]"
      by (auto simp: json_escape_def n_def [symmetric] Let_def)
    show ?thesis unfolding e by (simp add: hex4_byte [OF n] n c)
  qed (simp_all add: c json_escape_def Let_def unescape_def quote_chars)
qed

lemma read_json_string: "read_string (concat (map json_escape s) @ CHR 0x22 # rest) = Some (s, rest)"
proof (induction s)
  case (Cons c s)
  then show ?case using read_escaped [of c "concat (map json_escape s) @ CHR 0x22 # rest"] by simp
qed simp

lemma read_quoted_string: "read_quoted (json_string s @ rest) = Some (s, rest)"
  using read_json_string [of s rest] by (simp add: read_quoted_def json_string_def skip_spaces_def)

lemma read_quoted_spaced: "read_quoted (CHR '' '' # json_string s @ rest) = Some (s, rest)"
  using read_quoted_string [of s rest] by (simp add: read_quoted_def skip_spaces_def)

lemma read_char_here: "read_char (CHR '':'') (CHR '':'' # s) = Some s" "read_char (CHR '','') (CHR '','' # s) = Some s"
  "read_char (CHR ''}'') (CHR ''}'' # s) = Some s" "read_char (CHR ''{'') (CHR ''{'' # s) = Some s"
  "read_char (CHR '','') (CHR ''}'' # s) = None" "read_char (CHR ''}'') (CHR 0x22 # s) = None"
  by (simp_all add: read_char_def skip_spaces_def)

lemma read_quoted_after_space: "read_quoted (CHR '' '' # s) = read_quoted s"
  by (simp add: read_quoted_def skip_spaces_def)

lemma read_members_after_space: "read_members fuel (CHR '' '' # s) = read_members fuel s"
  by (cases fuel) (simp_all add: read_quoted_after_space)

lemma read_json_members:
  "ms \<noteq> [] \<Longrightarrow> length ms \<le> fuel \<Longrightarrow> read_members fuel (json_members ms @ CHR ''}'' # rest) = Some (ms, rest)"
proof (induction ms arbitrary: fuel rule: json_members.induct)
  case (2 k v)
  then obtain f where "fuel = Suc f" by (cases fuel) auto
  then show ?case by (simp add: read_quoted_string read_quoted_spaced read_char_here)
next
  case (3 k v m ms)
  then obtain f where "fuel = Suc f" "length (m # ms) \<le> f" by (cases fuel) auto
  with "3.IH" [of f] show ?case
    by (simp add: read_quoted_string read_quoted_spaced read_char_here read_members_after_space)
qed simp

lemma json_members_length: "length ms \<le> length (json_members ms)"
  by (induction ms rule: json_members.induct) (auto simp: json_string_def)

text \<open>For any dict of strings, over all characters, reading its text gives its members in order.\<close>

lemma json_loads_dumps: "json_loads (json_dumps members) = Some members"
proof (cases members)
  case Nil
  then show ?thesis by (simp add: json_loads_def json_dumps_def read_char_here skip_spaces_def)
next
  case (Cons m ms)
  have "\<exists>rest. json_members members = CHR 0x22 # rest"
    unfolding Cons by (cases m; cases ms) (auto simp: json_string_def)
  then have "read_char (CHR ''}'') (json_members members @ [CHR ''}'']) = None"
    by (auto simp: read_char_here)
  moreover have "read_members (length (json_members members @ [CHR ''}''])) (json_members members @ [CHR ''}'']) =
      Some (members, [])"
    by (rule read_json_members) (use Cons json_members_length [of members] in auto)
  ultimately show ?thesis
    by (simp add: json_loads_def json_dumps_def read_char_here skip_spaces_def)
qed

end
