(* ===== verification/JobQueue.thy ===== *)
theory JobQueue imports Envelope Prelude
begin

text \<open>
  \<open>app/jobs/redis_queue.py\<close>: the dispatch queue over Redis. The Redis client is a parameter, a record
  of the commands the code issues; what the code relies on of them is \<open>redis_contract\<close>, the
  documented effect of a command that returns, on the lists and sorted sets of the server. The queue is
  shown to implement a first-in first-out queue per priority with a set of delayed jobs.
\<close>

section \<open>The client\<close>

record 's redis_client =
  rc_lpush :: "string \<Rightarrow> string \<Rightarrow> ('s, unit) eff"
  rc_brpop :: "string list \<Rightarrow> int \<Rightarrow> ('s, (string \<times> string) option) eff"
  rc_llen :: "string \<Rightarrow> ('s, int) eff"
  rc_zadd :: "string \<Rightarrow> string \<Rightarrow> timestamp \<Rightarrow> ('s, unit) eff"
  rc_zrangebyscore :: "string \<Rightarrow> timestamp \<Rightarrow> ('s, string list) eff"
  rc_zrem :: "string \<Rightarrow> string \<Rightarrow> ('s, unit) eff"
  rc_zcard :: "string \<Rightarrow> ('s, int) eff"
  rc_set :: "string \<Rightarrow> string \<Rightarrow> int \<Rightarrow> ('s, unit) eff"
  rc_exists :: "string \<Rightarrow> ('s, bool) eff"

text \<open>What the server holds: a list per key, head first, and a score per member of a sorted set.\<close>

record 's redis_view =
  rv_list :: "'s \<Rightarrow> string \<Rightarrow> string list"
  rv_zset :: "'s \<Rightarrow> string \<Rightarrow> string \<Rightarrow> timestamp option"

definition same_view :: "'s redis_view \<Rightarrow> 's \<Rightarrow> 's \<Rightarrow> bool" where
  "same_view V s t \<longleftrightarrow> rv_list V t = rv_list V s \<and> rv_zset V t = rv_zset V s"

definition lpush_law :: "'s redis_client \<Rightarrow> 's redis_view \<Rightarrow> bool" where
  "lpush_law R V \<longleftrightarrow> (\<forall>k m s x t. rc_lpush R k m s = (Inr x, t) \<longrightarrow>
     rv_list V t = (rv_list V s)(k := m # rv_list V s k) \<and> rv_zset V t = rv_zset V s)"

definition brpop_law :: "'s redis_client \<Rightarrow> 's redis_view \<Rightarrow> bool" where
  "brpop_law R V \<longleftrightarrow> (\<forall>ks n s x t. rc_brpop R ks n s = (Inr x, t) \<longrightarrow>
     (case List.find (\<lambda>k. rv_list V s k \<noteq> []) ks of
        None \<Rightarrow> x = None \<and> same_view V s t
      | Some k \<Rightarrow> x = Some (k, last (rv_list V s k)) \<and>
          rv_list V t = (rv_list V s)(k := butlast (rv_list V s k)) \<and> rv_zset V t = rv_zset V s))"

definition zset_laws :: "'s redis_client \<Rightarrow> 's redis_view \<Rightarrow> bool" where
  "zset_laws R V \<longleftrightarrow>
     (\<forall>k m score s x t. rc_zadd R k m score s = (Inr x, t) \<longrightarrow>
        rv_list V t = rv_list V s \<and> rv_zset V t = (rv_zset V s)(k := (rv_zset V s k)(m \<mapsto> score))) \<and>
     (\<forall>k m s x t. rc_zrem R k m s = (Inr x, t) \<longrightarrow>
        rv_list V t = rv_list V s \<and> rv_zset V t = (rv_zset V s)(k := (rv_zset V s k)(m := None))) \<and>
     (\<forall>k now s ms t. rc_zrangebyscore R k now s = (Inr ms, t) \<longrightarrow>
        same_view V s t \<and> distinct ms \<and> set ms = {m. \<exists>score. rv_zset V s k m = Some score \<and> score \<le> now} \<and>
        sorted (map (\<lambda>m. the (rv_zset V s k m)) ms))"

definition redis_contract :: "'s redis_client \<Rightarrow> 's redis_view \<Rightarrow> bool" where
  "redis_contract R V \<longleftrightarrow> lpush_law R V \<and> brpop_law R V \<and> zset_laws R V"

section \<open>The queue\<close>

definition ready_key :: "string \<Rightarrow> string \<Rightarrow> string" where
  "ready_key queue_name priority = ''eah:jobs:ready:'' @ queue_name @ '':'' @ priority"

definition ready_key_prefix :: "string \<Rightarrow> string" where
  "ready_key_prefix queue_name = ''eah:jobs:ready:'' @ queue_name @ '':''"

definition delayed_key :: "string \<Rightarrow> string" where
  "delayed_key queue_name = ''eah:jobs:delayed:'' @ queue_name"

definition heartbeat_key :: "string \<Rightarrow> string" where
  "heartbeat_key hostname = ''eah:jobs:heartbeat:'' @ hostname"

definition HEARTBEAT_TTL_SECONDS :: int where "HEARTBEAT_TTL_SECONDS = 30"

definition envelope :: "string \<Rightarrow> job_priority \<Rightarrow> string" where
  "envelope job_id priority = json_dumps [(''job_id'', job_id), (''priority'', job_priority_value priority)]"

definition push_ready :: "'s redis_client \<Rightarrow> string \<Rightarrow> job_priority \<Rightarrow> string \<Rightarrow> ('s, unit) eff" where
  "push_ready R queue_name priority job_id =
     rc_lpush R (ready_key queue_name (job_priority_value priority)) (envelope job_id priority)"

definition push_delayed :: "'s redis_client \<Rightarrow> string \<Rightarrow> job_priority \<Rightarrow> string \<Rightarrow> timestamp \<Rightarrow> ('s, unit) eff" where
  "push_delayed R queue_name priority job_id ready_at =
     rc_zadd R (delayed_key queue_name) (envelope job_id priority) ready_at"

text \<open>The Lua script: the due members, each pushed on the list its priority names and then removed.\<close>

fun promote_members :: "'s redis_client \<Rightarrow> string \<Rightarrow> string \<Rightarrow> string list \<Rightarrow> int \<Rightarrow> ('s, int) eff" where
  "promote_members R delayed ready_prefix [] promoted = return promoted"
| "promote_members R delayed ready_prefix (member # due) promoted =
     (case Option.bind (json_loads member) (\<lambda>decoded. map_of decoded ''priority'') of
        None \<Rightarrow> promote_members R delayed ready_prefix due promoted
      | Some priority \<Rightarrow>
          and_then (rc_lpush R (ready_prefix @ priority) member) (\<lambda>_.
          and_then (rc_zrem R delayed member) (\<lambda>_.
            promote_members R delayed ready_prefix due (promoted + 1))))"

definition promote_due :: "'s redis_client \<Rightarrow> string \<Rightarrow> timestamp \<Rightarrow> ('s, int) eff" where
  "promote_due R queue_name now =
     and_then (rc_zrangebyscore R (delayed_key queue_name) now) (\<lambda>due.
       promote_members R (delayed_key queue_name) (ready_key_prefix queue_name) due 0)"

definition dequeue :: "'s redis_client \<Rightarrow> string list \<Rightarrow> job_priority list \<Rightarrow> int \<Rightarrow> ('s, string option) eff" where
  "dequeue R queue_names priority_order timeout_seconds =
     and_then (rc_brpop R (concat (map (\<lambda>p. map (\<lambda>q. ready_key q (job_priority_value p)) queue_names) priority_order))
                timeout_seconds) (\<lambda>result.
       case result of
         None \<Rightarrow> return None
       | Some (_, raw) \<Rightarrow>
           (case json_loads raw of
              None \<Rightarrow> throw (Raised (Py (ValueError ''json'')))
            | Some decoded \<Rightarrow>
                (case map_of decoded ''job_id'' of
                   None \<Rightarrow> throw (Raised (Py KeyError))
                 | Some job_id \<Rightarrow> return (Some job_id))))"

definition queue_depth :: "'s redis_client \<Rightarrow> string \<Rightarrow> job_priority \<Rightarrow> ('s, int) eff" where
  "queue_depth R queue_name priority = rc_llen R (ready_key queue_name (job_priority_value priority))"

definition delayed_count :: "'s redis_client \<Rightarrow> string \<Rightarrow> ('s, int) eff" where
  "delayed_count R queue_name = rc_zcard R (delayed_key queue_name)"

definition record_heartbeat :: "'s redis_client \<Rightarrow> string \<Rightarrow> ('s, unit) eff" where
  "record_heartbeat R hostname = rc_set R (heartbeat_key hostname) ''1'' HEARTBEAT_TTL_SECONDS"

definition heartbeat_exists :: "'s redis_client \<Rightarrow> string \<Rightarrow> ('s, bool) eff" where
  "heartbeat_exists R hostname = rc_exists R (heartbeat_key hostname)"

section \<open>Envelopes and keys\<close>

lemma envelope_loads: "json_loads (envelope i p) = Some [(''job_id'', i), (''priority'', job_priority_value p)]"
  by (simp add: envelope_def json_loads_dumps)

lemma priority_value_inj: "job_priority_value p = job_priority_value p' \<longleftrightarrow> p = p'"
  by (cases p; cases p') simp_all

lemma envelope_inj [simp]: "envelope i p = envelope j p' \<longleftrightarrow> i = j \<and> p = p'"
proof
  assume "envelope i p = envelope j p'"
  then have "json_loads (envelope i p) = json_loads (envelope j p')" by simp
  then have "i = j" "job_priority_value p = job_priority_value p'" unfolding envelope_loads by simp_all
  then show "i = j \<and> p = p'" by (simp add: priority_value_inj)
qed simp

text \<open>
  An envelope is read back as it was written, whatever characters its job id has: the id and the
  priority's value, and no other id or priority has the same envelope.
\<close>

theorem envelope_roundtrip:
  "json_loads (envelope i p) = Some [(''job_id'', i), (''priority'', job_priority_value p)] \<and>
   (envelope i p = envelope j p' \<longleftrightarrow> i = j \<and> p = p')"
  using envelope_loads by simp

text \<open>A priority's value has no colon, so a ready key determines its queue and its priority.\<close>

lemma ready_key_inj [simp]:
  "ready_key q (job_priority_value p) = ready_key q' (job_priority_value p') \<longleftrightarrow> q = q' \<and> p = p'"
proof
  assume k: "ready_key q (job_priority_value p) = ready_key q' (job_priority_value p')"
  have colon: "takeWhile (\<lambda>c. c \<noteq> CHR '':'') (rev (ready_key q (job_priority_value p))) = rev (job_priority_value p)" for q p
    by (cases p) (simp_all add: ready_key_def)
  have "job_priority_value p = job_priority_value p'" using colon [of q p] colon [of q' p'] k by simp
  then show "q = q' \<and> p = p'" using k by (simp add: ready_key_def priority_value_inj)
qed simp

lemma delayed_key_inj [simp]: "delayed_key q = delayed_key q' \<longleftrightarrow> q = q'"
  by (simp add: delayed_key_def)

lemma ready_key_prefix: "ready_key_prefix q @ p = ready_key q p"
  by (simp add: ready_key_prefix_def ready_key_def)

section \<open>The abstract queue\<close>

text \<open>Per queue and priority the ids that are ready, first in first out, and the delayed ones with their times.\<close>

record job_queue =
  jq_ready :: "string \<Rightarrow> job_priority \<Rightarrow> string list"
  jq_delayed :: "string \<Rightarrow> string \<times> job_priority \<Rightarrow> timestamp option"

definition empty_queue :: job_queue where
  "empty_queue = \<lparr>jq_ready = (\<lambda>_ _. []), jq_delayed = (\<lambda>_ _. None)\<rparr>"

definition enqueued :: "string \<Rightarrow> job_priority \<Rightarrow> string list \<Rightarrow> job_queue \<Rightarrow> job_queue" where
  "enqueued q p ids Q = Q\<lparr>jq_ready := (\<lambda>q' p'. if q' = q \<and> p' = p then jq_ready Q q p @ ids else jq_ready Q q' p')\<rparr>"

definition promoted :: "string \<Rightarrow> (string \<times> job_priority) list \<Rightarrow> job_queue \<Rightarrow> job_queue" where
  "promoted q due Q = Q
     \<lparr>jq_ready := (\<lambda>q' p'. jq_ready Q q' p' @ (if q' = q then map fst (filter (\<lambda>m. snd m = p') due) else [])),
      jq_delayed := (jq_delayed Q)(q := (\<lambda>m. if m \<in> set due then None else jq_delayed Q q m))\<rparr>"

definition first_ready :: "job_queue \<Rightarrow> string list \<Rightarrow> job_priority list \<Rightarrow> (string \<times> job_priority) option" where
  "first_ready Q queue_names priority_order =
     List.find (\<lambda>(q, p). jq_ready Q q p \<noteq> []) (concat (map (\<lambda>p. map (\<lambda>q. (q, p)) queue_names) priority_order))"

definition popped :: "string \<Rightarrow> job_priority \<Rightarrow> job_queue \<Rightarrow> job_queue" where
  "popped q p Q = Q\<lparr>jq_ready := (\<lambda>q' p'. if q' = q \<and> p' = p then tl (jq_ready Q q p) else jq_ready Q q' p')\<rparr>"

datatype queue_call =
    PushReady string job_priority string
  | PushDelayed string job_priority string timestamp
  | PromoteDue string timestamp
  | Dequeue "string list" "job_priority list" int

datatype queue_reply = Pushed | Promoted int | Popped "string option"

inductive queue_step :: "job_queue \<Rightarrow> queue_call \<Rightarrow> queue_reply \<Rightarrow> job_queue \<Rightarrow> bool" where
  push: "queue_step Q (PushReady q p i) Pushed (enqueued q p [i] Q)"
| delay: "queue_step Q (PushDelayed q p i at) Pushed
    (Q\<lparr>jq_delayed := (jq_delayed Q)(q := (jq_delayed Q q)((i, p) \<mapsto> at))\<rparr>)"
| promote: "distinct due \<Longrightarrow> set due = {m. \<exists>at. jq_delayed Q q m = Some at \<and> at \<le> now} \<Longrightarrow>
    sorted (map (\<lambda>m. the (jq_delayed Q q m)) due) \<Longrightarrow>
    queue_step Q (PromoteDue q now) (Promoted (int (length due))) (promoted q due Q)"
| pop: "first_ready Q qs ps = Some (q, p) \<Longrightarrow>
    queue_step Q (Dequeue qs ps n) (Popped (Some (hd (jq_ready Q q p)))) (popped q p Q)"
| empty: "first_ready Q qs ps = None \<Longrightarrow> queue_step Q (Dequeue qs ps n) (Popped None) Q"

section \<open>The refinement\<close>

definition represents :: "'s redis_view \<Rightarrow> job_queue \<Rightarrow> 's \<Rightarrow> bool" where
  "represents V Q s \<longleftrightarrow>
     (\<forall>q p. rv_list V s (ready_key q (job_priority_value p)) = rev (map (\<lambda>i. envelope i p) (jq_ready Q q p))) \<and>
     (\<forall>q i p. rv_zset V s (delayed_key q) (envelope i p) = jq_delayed Q q (i, p)) \<and>
     (\<forall>q m. rv_zset V s (delayed_key q) m \<noteq> None \<longrightarrow> (\<exists>i p. m = envelope i p))"

fun queue_exec :: "'s redis_client \<Rightarrow> queue_call \<Rightarrow> ('s, queue_reply) eff" where
  "queue_exec R (PushReady q p i) = and_then (push_ready R q p i) (\<lambda>_. return Pushed)"
| "queue_exec R (PushDelayed q p i at) = and_then (push_delayed R q p i at) (\<lambda>_. return Pushed)"
| "queue_exec R (PromoteDue q now) = and_then (promote_due R q now) (\<lambda>n. return (Promoted n))"
| "queue_exec R (Dequeue qs ps n) = and_then (dequeue R qs ps n) (\<lambda>r. return (Popped r))"

lemma push_ready_refines:
  assumes "redis_contract R V" "represents V Q s" "push_ready R q p i s = (Inr x, t)"
  shows "represents V (enqueued q p [i] Q) t"
proof -
  have "rv_list V t = (rv_list V s)(ready_key q (job_priority_value p) := envelope i p # rv_list V s (ready_key q (job_priority_value p)))"
    "rv_zset V t = rv_zset V s"
    using assms(1,3) by (auto simp: redis_contract_def lpush_law_def push_ready_def)
  with assms(2) show ?thesis by (simp add: represents_def enqueued_def)
qed

lemma push_delayed_refines:
  assumes "redis_contract R V" "represents V Q s" "push_delayed R q p i at s = (Inr x, t)"
  shows "represents V (Q\<lparr>jq_delayed := (jq_delayed Q)(q := (jq_delayed Q q)((i, p) \<mapsto> at))\<rparr>) t"
proof -
  have "rv_list V t = rv_list V s"
    "rv_zset V t = (rv_zset V s)(delayed_key q := (rv_zset V s (delayed_key q))(envelope i p \<mapsto> at))"
    using assms(1,3) by (auto simp: redis_contract_def zset_laws_def push_delayed_def)
  with assms(2) show ?thesis by (auto simp: represents_def)
qed


lemma find_ready:
  assumes "represents V Q s"
  shows "List.find (\<lambda>k. rv_list V s k \<noteq> []) (concat (map (\<lambda>p. map (\<lambda>q. ready_key q (job_priority_value p)) qs) ps)) =
    map_option (\<lambda>(q, p). ready_key q (job_priority_value p)) (first_ready Q qs ps)"
proof -
  have lists: "rv_list V s (ready_key q (job_priority_value p)) = rev (map (\<lambda>i. envelope i p) (jq_ready Q q p))" for q p
    using assms by (simp add: represents_def)
  have find_map: "List.find P (map f xs) = map_option f (List.find (P \<circ> f) xs)" for P and f :: "'b \<Rightarrow> 'c" and xs
    by (induction xs) auto
  have keys: "concat (map (\<lambda>p. map (\<lambda>q. ready_key q (job_priority_value p)) qs) ps) =
      map (\<lambda>(q, p). ready_key q (job_priority_value p)) (concat (map (\<lambda>p. map (\<lambda>q. (q, p)) qs) ps))"
    by (simp add: map_concat comp_def)
  have "(\<lambda>k. rv_list V s k \<noteq> []) \<circ> (\<lambda>(q, p). ready_key q (job_priority_value p)) = (\<lambda>(q, p). jq_ready Q q p \<noteq> [])"
    by (auto simp: fun_eq_iff lists)
  then show ?thesis by (simp only: keys find_map first_ready_def)
qed

lemma find_Some_holds: "List.find P xs = Some x \<Longrightarrow> P x"
  by (induction xs) (auto split: if_splits)

lemma dequeue_refines:
  assumes "redis_contract R V" "represents V Q s" "dequeue R qs ps n s = (Inr x, t)"
  shows "\<exists>Q'. queue_step Q (Dequeue qs ps n) (Popped x) Q' \<and> represents V Q' t"
proof -
  let ?keys = "concat (map (\<lambda>p. map (\<lambda>q. ready_key q (job_priority_value p)) qs) ps)"
  obtain y u where 1: "rc_brpop R ?keys n s = (Inr y, u)"
    and 2: "(case y of None \<Rightarrow> return None
       | Some (_, raw) \<Rightarrow> (case json_loads raw of None \<Rightarrow> throw (Raised (Py (ValueError ''json'')))
            | Some decoded \<Rightarrow> (case map_of decoded ''job_id'' of None \<Rightarrow> throw (Raised (Py KeyError))
                | Some job_id \<Rightarrow> return (Some job_id)))) u = (Inr x, t)"
    using assms(3) unfolding dequeue_def and_then_eq_Inr by blast
  have law: "case List.find (\<lambda>k. rv_list V s k \<noteq> []) ?keys of
        None \<Rightarrow> y = None \<and> same_view V s u
      | Some k \<Rightarrow> y = Some (k, last (rv_list V s k)) \<and>
          rv_list V u = (rv_list V s)(k := butlast (rv_list V s k)) \<and> rv_zset V u = rv_zset V s"
    using assms(1) 1 unfolding redis_contract_def brpop_law_def by blast
  show ?thesis
  proof (cases "first_ready Q qs ps")
    case None
    with law find_ready [OF assms(2)] have "y = None" "same_view V s u" by simp_all
    with 2 None assms(2) show ?thesis
      by (intro exI [of _ Q]) (auto simp: eff_simps represents_def same_view_def intro: queue_step.empty)
  next
    case (Some qp)
    obtain q p where qp: "qp = (q, p)" by (cases qp)
    let ?k = "ready_key q (job_priority_value p)"
    have ne: "jq_ready Q q p \<noteq> []" using find_Some_holds [OF Some [unfolded first_ready_def]] qp by simp
    have lists: "rv_list V s ?k = rev (map (\<lambda>i. envelope i p) (jq_ready Q q p))"
      using assms(2) by (simp add: represents_def)
    obtain i rest where rest: "jq_ready Q q p = i # rest" using ne by (cases "jq_ready Q q p") auto
    from law find_ready [OF assms(2)] Some qp have u: "y = Some (?k, last (rv_list V s ?k))"
      "rv_list V u = (rv_list V s)(?k := butlast (rv_list V s ?k))" "rv_zset V u = rv_zset V s" by simp_all
    have "last (rv_list V s ?k) = envelope i p" "butlast (rv_list V s ?k) = rev (map (\<lambda>i. envelope i p) rest)"
      by (simp_all add: lists rest)
    with u 2 have "x = Some i" "t = u" by (simp_all add: envelope_loads eff_simps)
    moreover have "represents V (popped q p Q) u"
      using assms(2) u \<open>butlast _ = _\<close> rest by (simp add: represents_def popped_def)
    ultimately show ?thesis
      using queue_step.pop [of Q qs ps q p n] Some qp rest by (intro exI [of _ "popped q p Q"]) simp
  qed
qed


lemma promote_one_refines:
  assumes "redis_contract R V" "represents V Q s"
    and "rc_lpush R (ready_key_prefix q @ job_priority_value p) (envelope i p) s = (Inr x, u)"
    and "rc_zrem R (delayed_key q) (envelope i p) u = (Inr y, t)"
  shows "represents V (promoted q [(i, p)] Q) t"
proof -
  have "rv_list V u = (rv_list V s)(ready_key q (job_priority_value p) := envelope i p # rv_list V s (ready_key q (job_priority_value p)))"
    "rv_zset V u = rv_zset V s"
    using assms(1,3) by (auto simp: redis_contract_def lpush_law_def ready_key_prefix)
  moreover have "rv_list V t = rv_list V u"
    "rv_zset V t = (rv_zset V u)(delayed_key q := (rv_zset V u (delayed_key q))(envelope i p := None))"
    using assms(1,4) by (auto simp: redis_contract_def zset_laws_def)
  ultimately show ?thesis using assms(2) by (auto simp: represents_def promoted_def)
qed

lemma promoted_Cons: "promoted q (m # due) Q = promoted q due (promoted q [m] Q)"
  by (auto simp: promoted_def fun_eq_iff)

lemma promote_members_refines:
  assumes "redis_contract R V"
  shows "represents V Q s \<Longrightarrow>
    promote_members R (delayed_key q) (ready_key_prefix q) (map (\<lambda>(i, p). envelope i p) due) k s = (Inr n, t) \<Longrightarrow>
    n = k + int (length due) \<and> represents V (promoted q due Q) t"
proof (induction due arbitrary: Q s k)
  case Nil
  then show ?case by (simp add: eff_simps promoted_def represents_def)
next
  case (Cons m due)
  obtain i p where m: "m = (i, p)" by (cases m)
  have "Option.bind (json_loads (envelope i p)) (\<lambda>decoded. map_of decoded ''priority'') = Some (job_priority_value p)"
    by (simp add: envelope_loads)
  with Cons.prems(2) have "and_then (rc_lpush R (ready_key_prefix q @ job_priority_value p) (envelope i p)) (\<lambda>_.
      and_then (rc_zrem R (delayed_key q) (envelope i p)) (\<lambda>_.
        promote_members R (delayed_key q) (ready_key_prefix q) (map (\<lambda>(i, p). envelope i p) due) (k + 1))) s = (Inr n, t)"
    by (simp only: m list.map prod.case promote_members.simps option.case)
  then obtain x u y v where 1: "rc_lpush R (ready_key_prefix q @ job_priority_value p) (envelope i p) s = (Inr x, u)"
    "rc_zrem R (delayed_key q) (envelope i p) u = (Inr y, v)"
    and 2: "promote_members R (delayed_key q) (ready_key_prefix q) (map (\<lambda>(i, p). envelope i p) due) (k + 1) v = (Inr n, t)"
    unfolding and_then_eq_Inr by blast
  from Cons.IH [OF promote_one_refines [OF assms Cons.prems(1) 1] 2] show ?case
    by (simp add: m promoted_Cons [of q "(i, p)" due])
qed

lemma promote_due_refines:
  assumes "redis_contract R V" "represents V Q s" "promote_due R q now s = (Inr n, t)"
  shows "\<exists>Q'. queue_step Q (PromoteDue q now) (Promoted n) Q' \<and> represents V Q' t"
proof -
  obtain ms u where 1: "rc_zrangebyscore R (delayed_key q) now s = (Inr ms, u)"
    and 2: "promote_members R (delayed_key q) (ready_key_prefix q) ms 0 u = (Inr n, t)"
    using assms(3) unfolding promote_due_def and_then_eq_Inr by blast
  from assms(1) 1 have u: "same_view V s u" "distinct ms" "sorted (map (\<lambda>m. the (rv_zset V s (delayed_key q) m)) ms)"
    and ms: "set ms = {m. \<exists>score. rv_zset V s (delayed_key q) m = Some score \<and> score \<le> now}"
    unfolding redis_contract_def zset_laws_def by blast+
  have "\<exists>ip. m = (case ip of (i, p) \<Rightarrow> envelope i p)" if "m \<in> set ms" for m
  proof -
    have "rv_zset V s (delayed_key q) m \<noteq> None" using that ms by auto
    with assms(2) obtain i p where "m = envelope i p" unfolding represents_def by blast
    then show ?thesis by (intro exI [of _ "(i, p)"]) simp
  qed
  then have "\<exists>due. ms = map (\<lambda>(i, p). envelope i p) due"
    by (metis ex_map_conv)
  then obtain due where due: "ms = map (\<lambda>(i, p). envelope i p) due" ..
  have z: "rv_zset V s (delayed_key q) (case m of (i, p) \<Rightarrow> envelope i p) = jq_delayed Q q m" for m
    using assms(2) by (cases m) (simp add: represents_def)
  have "distinct due" using u(2) due by (auto simp: distinct_map)
  moreover have "set due = {m. \<exists>at. jq_delayed Q q m = Some at \<and> at \<le> now}"
  proof (rule set_eqI)
    fix m
    have "m \<in> set due \<longleftrightarrow> (case m of (i, p) \<Rightarrow> envelope i p) \<in> set ms"
      by (auto simp: due image_iff split: prod.splits)
    also have "\<dots> \<longleftrightarrow> (\<exists>at. jq_delayed Q q m = Some at \<and> at \<le> now)" by (simp add: ms z)
    finally show "m \<in> set due \<longleftrightarrow> m \<in> {m. \<exists>at. jq_delayed Q q m = Some at \<and> at \<le> now}" by simp
  qed
  moreover have "sorted (map (\<lambda>m. the (jq_delayed Q q m)) due)"
    using u(3) by (simp add: due comp_def z)
  ultimately have "queue_step Q (PromoteDue q now) (Promoted (int (length due))) (promoted q due Q)"
    by (rule queue_step.promote)
  moreover have "represents V Q u" using assms(2) u(1) by (simp add: represents_def same_view_def)
  ultimately show ?thesis using promote_members_refines [OF assms(1) _ 2 [unfolded due]] by auto
qed

lemma queue_exec_refines:
  assumes "redis_contract R V" "represents V Q s" "queue_exec R c s = (Inr r, t)"
  shows "\<exists>Q'. queue_step Q c r Q' \<and> represents V Q' t"
proof (cases c)
  case (PushReady q p i)
  with assms push_ready_refines [OF assms(1,2)] show ?thesis
    by (auto simp: and_then_eq_Inr eff_simps intro: queue_step.push)
next
  case (PushDelayed q p i at)
  with assms push_delayed_refines [OF assms(1,2)] show ?thesis
    by (auto simp: and_then_eq_Inr eff_simps intro: queue_step.delay)
next
  case (PromoteDue q now)
  with assms promote_due_refines [OF assms(1,2)] show ?thesis by (auto simp: and_then_eq_Inr eff_simps)
next
  case (Dequeue qs ps n)
  with assms dequeue_refines [OF assms(1,2)] show ?thesis by (auto simp: and_then_eq_Inr eff_simps)
qed

text \<open>Whole histories: the replies of the code are replies the abstract queue can give.\<close>

fun queue_exec_all :: "'s redis_client \<Rightarrow> queue_call list \<Rightarrow> ('s, queue_reply list) eff" where
  "queue_exec_all R [] = return []"
| "queue_exec_all R (c # cs) = and_then (queue_exec R c) (\<lambda>r. and_then (queue_exec_all R cs) (\<lambda>rs. return (r # rs)))"

inductive queue_history :: "job_queue \<Rightarrow> (queue_call \<times> queue_reply) list \<Rightarrow> job_queue \<Rightarrow> bool" where
  start: "queue_history Q [] Q"
| more: "queue_step Q c r Q' \<Longrightarrow> queue_history Q' h Q'' \<Longrightarrow> queue_history Q ((c, r) # h) Q''"

text \<open>
  C31. Whenever the Redis commands do what they document, any sequence of pushes, delayed pushes,
  promotions and dequeues that returns gives replies that the abstract queue allows: first in first out
  for each queue and priority, delayed jobs ready once their time has come and in the order of their
  times, a dequeue taking from the first non-empty list in the order asked for.
\<close>

theorem redis_queue_refines:
  assumes "redis_contract R V" "represents V Q s" "queue_exec_all R cs s = (Inr rs, t)"
  shows "\<exists>Q'. queue_history Q (zip cs rs) Q' \<and> represents V Q' t \<and> length rs = length cs"
  using assms(2,3)
proof (induction cs arbitrary: Q s rs)
  case Nil
  then show ?case by (auto simp: eff_simps intro: queue_history.start)
next
  case (Cons c cs)
  from Cons.prems(2) obtain r u rs' where c: "queue_exec R c s = (Inr r, u)"
    and cs: "queue_exec_all R cs u = (Inr rs', t)" and rs: "rs = r # rs'"
    by (auto simp: and_then_eq_Inr eff_simps)
  obtain Q1 where 1: "queue_step Q c r Q1" "represents V Q1 u"
    using queue_exec_refines [OF assms(1) Cons.prems(1) c] by blast
  obtain Q2 where "queue_history Q1 (zip cs rs') Q2" "represents V Q2 t" "length rs' = length cs"
    using Cons.IH [OF 1(2) cs] by blast
  with 1(1) rs show ?case by (auto intro: queue_history.more)
qed

end
