(* ===== verification/RedisMemory.thy ===== *)
theory RedisMemory imports JobQueue "HOL-Library.AList"
begin

text \<open>
  A Redis server in memory that satisfies \<open>redis_contract\<close>, for the concrete instances of the
  properties that assume it; it lives in a field of any larger state.
\<close>

record memory =
  me_lists :: "string \<Rightarrow> string list"
  me_zsets :: "string \<Rightarrow> (string \<times> timestamp) list"

definition empty_memory :: memory where
  "empty_memory = \<lparr>me_lists = (\<lambda>_. []), me_zsets = (\<lambda>_. [])\<rparr>"

definition due_members :: "timestamp \<Rightarrow> (string \<times> timestamp) list \<Rightarrow> string list" where
  "due_members now al = map fst (sort_key snd (filter (\<lambda>m. snd m \<le> now) (AList.clearjunk al)))"

definition memory_redis :: "('s \<Rightarrow> memory) \<Rightarrow> (memory \<Rightarrow> 's \<Rightarrow> 's) \<Rightarrow> 's redis_client" where
  "memory_redis get put =
     \<lparr>rc_lpush = (\<lambda>k m s. (Inr (), put ((get s)\<lparr>me_lists := (me_lists (get s))(k := m # me_lists (get s) k)\<rparr>) s)),
      rc_brpop = (\<lambda>ks _ s. case List.find (\<lambda>k. me_lists (get s) k \<noteq> []) ks of
          None \<Rightarrow> (Inr None, s)
        | Some k \<Rightarrow> (Inr (Some (k, last (me_lists (get s) k))),
            put ((get s)\<lparr>me_lists := (me_lists (get s))(k := butlast (me_lists (get s) k))\<rparr>) s)),
      rc_llen = (\<lambda>k s. (Inr (int (length (me_lists (get s) k))), s)),
      rc_zadd = (\<lambda>k m score s. (Inr (), put ((get s)\<lparr>me_zsets := (me_zsets (get s))(k := (m, score) # me_zsets (get s) k)\<rparr>) s)),
      rc_zrangebyscore = (\<lambda>k now s. (Inr (due_members now (me_zsets (get s) k)), s)),
      rc_zrem = (\<lambda>k m s. (Inr (), put ((get s)\<lparr>me_zsets := (me_zsets (get s))(k := AList.delete m (me_zsets (get s) k))\<rparr>) s)),
      rc_zcard = (\<lambda>k s. (Inr (int (length (AList.clearjunk (me_zsets (get s) k)))), s)),
      rc_set = (\<lambda>_ _ _ s. (Inr (), s)),
      rc_exists = (\<lambda>_ s. (Inr False, s))\<rparr>"

definition memory_view :: "('s \<Rightarrow> memory) \<Rightarrow> 's redis_view" where
  "memory_view get = \<lparr>rv_list = (\<lambda>s. me_lists (get s)), rv_zset = (\<lambda>s k. map_of (me_zsets (get s) k))\<rparr>"

lemma clearjunk_entry: "(m, a) \<in> set (AList.clearjunk al) \<longleftrightarrow> map_of al m = Some a"
  by (metis AList.distinct_clearjunk AList.map_of_clearjunk map_of_eq_Some_iff)

lemma due_members:
  "distinct (due_members now al)" "set (due_members now al) = {m. \<exists>a. map_of al m = Some a \<and> a \<le> now}"
  "sorted (map (\<lambda>m. the (map_of al m)) (due_members now al))"
proof -
  let ?l = "sort_key snd (filter (\<lambda>m. snd m \<le> now) (AList.clearjunk al))"
  have d: "distinct (map fst (AList.clearjunk al))" by (rule AList.distinct_clearjunk)
  then have "inj_on fst (set ?l)" by (auto simp: distinct_map inj_on_def)
  moreover have "distinct ?l" using d by (simp add: distinct_map)
  ultimately show "distinct (due_members now al)" by (simp add: due_members_def distinct_map)
  have "m \<in> set (due_members now al) \<longleftrightarrow> (\<exists>a. (m, a) \<in> set (AList.clearjunk al) \<and> a \<le> now)" for m
    by (force simp: due_members_def)
  then show "set (due_members now al) = {m. \<exists>a. map_of al m = Some a \<and> a \<le> now}"
    by (auto simp: clearjunk_entry)
  have "map (\<lambda>m. the (map_of al m)) (due_members now al) = map snd ?l"
    by (auto simp: due_members_def clearjunk_entry)
  then show "sorted (map (\<lambda>m. the (map_of al m)) (due_members now al))" by simp
qed

lemma memory_contract:
  assumes "\<And>m s. get (put m s) = m"
  shows "redis_contract (memory_redis get put) (memory_view get)"
  unfolding redis_contract_def
proof (intro conjI)
  show "lpush_law (memory_redis get put) (memory_view get)"
    by (auto simp: lpush_law_def memory_redis_def memory_view_def assms)
  show "brpop_law (memory_redis get put) (memory_view get)"
    by (auto simp: brpop_law_def memory_redis_def memory_view_def assms same_view_def split: option.splits)
  show "zset_laws (memory_redis get put) (memory_view get)"
    by (auto simp: zset_laws_def memory_redis_def memory_view_def due_members assms same_view_def AList.delete_conv fun_eq_iff)
qed

definition local_redis :: "memory redis_client" where "local_redis = memory_redis (\<lambda>s. s) (\<lambda>m _. m)"
definition local_view :: "memory redis_view" where "local_view = memory_view (\<lambda>s. s)"

lemma local_contract: "redis_contract local_redis local_view"
  unfolding local_redis_def local_view_def by (rule memory_contract) simp

lemma local_total: "is_ok (fst (rc_brpop local_redis ks n s))" "\<exists>t. rc_lpush local_redis k m s = (Inr (), t)"
  by (simp_all add: local_redis_def memory_redis_def is_ok_def split: option.splits)

lemma empty_represents: "represents local_view empty_queue empty_memory"
  by (simp add: represents_def local_view_def memory_view_def empty_queue_def empty_memory_def)

definition sample_calls :: "queue_call list" where
  "sample_calls = [PushReady ''default'' PriorityLow ''a'', PushDelayed ''default'' PriorityHigh ''b'' 5,
     PromoteDue ''default'' 7, Dequeue [''default''] [PriorityHigh, PriorityNormal, PriorityLow] 5]"

lemma sample_calls_return: "is_ok (fst (queue_exec_all local_redis sample_calls empty_memory))"
  by code_simp

theorem redis_queue_refines_witness:
  "\<exists>rs t Q'. queue_exec_all local_redis sample_calls empty_memory = (Inr rs, t) \<and>
     queue_history empty_queue (zip sample_calls rs) Q' \<and> represents local_view Q' t \<and> length rs = length sample_calls"
  using is_ok_run [OF sample_calls_return] redis_queue_refines [OF local_contract empty_represents] by metis

end
