(* ===== verification/Jobs.thy ===== *)
theory Jobs imports JobQueue Retry WellFormed
begin

text \<open>
  The background jobs: the \<open>jobs\<close> table and its repository (\<open>database/repositories/job_repository.py\<close>),
  the dispatchers (\<open>jobs/job_service.py\<close>), the back-off (\<open>jobs/backoff.py\<close>), the handlers
  (\<open>jobs/handlers.py\<close>), the worker (\<open>jobs/worker.py\<close>) and the reaper
  (\<open>scheduler/stuck_job_reaper_job.py\<close>). The database of the other services is extended by the table;
  the Redis server is wherever the client of \<open>JobQueue\<close> keeps it.
\<close>

section \<open>The table\<close>

datatype payload_value = PText string | PBool bool

type_synonym payload = "(string \<times> payload_value) list"

record error_entry =
  ee_attempt :: int
  ee_error :: string
  ee_at :: timestamp

record job_record =
  jb_id :: uuid
  jb_task_type :: string
  jb_queue_name :: string
  jb_priority :: string
  jb_status :: string
  jb_payload :: payload
  jb_attempts :: int
  jb_max_attempts :: int
  jb_last_error :: "string option"
  jb_error_history :: "error_entry list"
  jb_scheduled_for :: "timestamp option"
  jb_started_at :: "timestamp option"
  jb_finished_at :: "timestamp option"
  jb_locked_by :: "string option"
  jb_request_id :: "uuid option"
  jb_actor_id :: "uuid option"
  jb_version :: int
  jb_created_at :: timestamp

record job_db = db +
  t_jobs :: "job_record list"

definition check_job :: "'z job_db_scheme \<Rightarrow> job_record \<Rightarrow> string option" where
  "check_job s j = first_violation
     [(jb_status j \<in> set [''queued'', ''running'', ''retrying'', ''succeeded'', ''dead_lettered''], check_violation),
      (jb_priority j \<in> set [''high'', ''normal'', ''low''], check_violation),
      (0 < jb_version j, check_violation),
      (0 \<le> jb_attempts j \<and> jb_attempts j \<le> jb_max_attempts j, check_violation),
      (opt_ok (request_exists s) (jb_request_id j), foreign_key_violation),
      (opt_ok (profile_exists s) (jb_actor_id j), foreign_key_violation)]"

definition job_table :: "('z job_db_scheme, job_record) table" where
  "job_table =
     \<lparr>tb_name = ''jobs'', tb_rows = t_jobs, tb_set_rows = (\<lambda>rs s. s\<lparr>t_jobs := rs\<rparr>),
      tb_id = jb_id, tb_version = jb_version, tb_set_version = (\<lambda>v r. r\<lparr>jb_version := v\<rparr>),
      tb_touch = (\<lambda>now r. r), tb_check = check_job\<rparr>"

lemma job_table_fields [simp]:
  "tb_name job_table = ''jobs''" "tb_rows job_table = t_jobs" "tb_set_rows job_table = (\<lambda>rs s. s\<lparr>t_jobs := rs\<rparr>)"
  "tb_id job_table = jb_id" "tb_version job_table = jb_version" "tb_set_version job_table = (\<lambda>v r. r\<lparr>jb_version := v\<rparr>)"
  "tb_touch job_table = (\<lambda>now r. r)" "tb_check job_table = check_job"
  by (simp_all add: job_table_def)

interpretation jobs: versioned_store job_table
  by unfold_locales (auto simp: check_job_def fun_eq_iff)

lemma job_rows [simp]:
  "locked job_table i v = (\<lambda>j. jb_id j = i \<and> jb_version j = v)"
  "written job_table v f now = (\<lambda>j. (f j)\<lparr>jb_version := v + 1\<rparr>)"
  by (simp_all add: locked_def written_def fun_eq_iff)

section \<open>The repository\<close>

definition MAX_ERROR_HISTORY_ENTRIES :: nat where "MAX_ERROR_HISTORY_ENTRIES = 20"

definition append_error_history :: "error_entry list \<Rightarrow> int \<Rightarrow> string \<Rightarrow> timestamp \<Rightarrow> error_entry list" where
  "append_error_history current attempts err now =
     (let all = current @ [\<lparr>ee_attempt = attempts, ee_error = err, ee_at = now\<rparr>] in
      drop (length all - MAX_ERROR_HISTORY_ENTRIES) all)"

definition get_job :: "uuid \<Rightarrow> ('z job_db_scheme, job_record) eff" where
  "get_job job_id = get_by_id job_table job_id"

definition create_job ::
  "string \<Rightarrow> string \<Rightarrow> string \<Rightarrow> payload \<Rightarrow> int \<Rightarrow> timestamp option \<Rightarrow> uuid option \<Rightarrow> uuid option \<Rightarrow>
   ('z job_db_scheme, job_record) eff" where
  "create_job task_type queue_name priority payload max_attempts scheduled_for request_id actor_id =
     insert_row job_table (\<lambda>new_id now.
       \<lparr>jb_id = new_id, jb_task_type = task_type, jb_queue_name = queue_name, jb_priority = priority,
        jb_status = ''queued'', jb_payload = payload, jb_attempts = 0, jb_max_attempts = max_attempts,
        jb_last_error = None, jb_error_history = [], jb_scheduled_for = scheduled_for, jb_started_at = None,
        jb_finished_at = None, jb_locked_by = None, jb_request_id = request_id, jb_actor_id = actor_id,
        jb_version = 1, jb_created_at = now\<rparr>)"

definition mark_running :: "uuid \<Rightarrow> int \<Rightarrow> string \<Rightarrow> ('z job_db_scheme, job_record) eff" where
  "mark_running job_id expected_version locked_by =
     and_then (gets clock) (\<lambda>now. update_with_optimistic_lock job_table job_id expected_version
       (\<lambda>j. j\<lparr>jb_status := ''running'', jb_started_at := Some now, jb_locked_by := Some locked_by\<rparr>))"

definition mark_succeeded :: "uuid \<Rightarrow> int \<Rightarrow> ('z job_db_scheme, job_record) eff" where
  "mark_succeeded job_id expected_version =
     and_then (gets clock) (\<lambda>now. update_with_optimistic_lock job_table job_id expected_version
       (\<lambda>j. j\<lparr>jb_status := ''succeeded'', jb_finished_at := Some now\<rparr>))"

definition mark_failed_will_retry ::
  "uuid \<Rightarrow> int \<Rightarrow> int \<Rightarrow> string \<Rightarrow> error_entry list \<Rightarrow> timestamp \<Rightarrow> ('z job_db_scheme, job_record) eff" where
  "mark_failed_will_retry job_id expected_version attempts err current_error_history next_attempt_scheduled_for =
     and_then (gets clock) (\<lambda>now. update_with_optimistic_lock job_table job_id expected_version
       (\<lambda>j. j\<lparr>jb_status := ''retrying'', jb_attempts := attempts, jb_last_error := Some err,
          jb_error_history := append_error_history current_error_history attempts err now,
          jb_scheduled_for := Some next_attempt_scheduled_for, jb_finished_at := Some now\<rparr>))"

definition mark_dead_lettered ::
  "uuid \<Rightarrow> int \<Rightarrow> int \<Rightarrow> string \<Rightarrow> error_entry list \<Rightarrow> ('z job_db_scheme, job_record) eff" where
  "mark_dead_lettered job_id expected_version attempts err current_error_history =
     and_then (gets clock) (\<lambda>now. update_with_optimistic_lock job_table job_id expected_version
       (\<lambda>j. j\<lparr>jb_status := ''dead_lettered'', jb_attempts := attempts, jb_last_error := Some err,
          jb_error_history := append_error_history current_error_history attempts err now,
          jb_finished_at := Some now\<rparr>))"

definition retry_dead_letter :: "uuid \<Rightarrow> int \<Rightarrow> ('z job_db_scheme, job_record) eff" where
  "retry_dead_letter job_id expected_version =
     update_with_optimistic_lock job_table job_id expected_version
       (\<lambda>j. j\<lparr>jb_status := ''queued'', jb_attempts := 0, jb_last_error := None, jb_scheduled_for := None,
          jb_locked_by := None, jb_finished_at := None\<rparr>)"

definition list_jobs ::
  "string option \<Rightarrow> string option \<Rightarrow> string option \<Rightarrow> string option \<Rightarrow> page \<Rightarrow>
   ('z job_db_scheme, job_record paged_result) eff" where
  "list_jobs status task_type queue_name priority p =
     paginate job_table (\<lambda>s. order_desc jb_created_at (filter (\<lambda>j. eq_filter jb_status status j \<and>
       eq_filter jb_task_type task_type j \<and> eq_filter jb_queue_name queue_name j \<and>
       eq_filter jb_priority priority j) (t_jobs s))) p"

definition list_dead_letter :: "string option \<Rightarrow> page \<Rightarrow> ('z job_db_scheme, job_record paged_result) eff" where
  "list_dead_letter task_type p = list_jobs (Some ''dead_lettered'') task_type None None p"

definition stuck_running :: "timestamp \<Rightarrow> job_record \<Rightarrow> bool" where
  "stuck_running older_than j \<longleftrightarrow> jb_status j = ''running'' \<and>
     (case jb_started_at j of None \<Rightarrow> False | Some begun \<Rightarrow> begun < older_than)"

definition stuck_queued :: "timestamp \<Rightarrow> job_record \<Rightarrow> bool" where
  "stuck_queued older_than j \<longleftrightarrow> jb_status j = ''queued'' \<and> jb_scheduled_for j = None \<and> jb_created_at j < older_than"

definition list_stuck_running :: "timestamp \<Rightarrow> ('z job_db_scheme, job_record list) eff" where
  "list_stuck_running older_than = execute ''list_stuck_running'' ''jobs'' (gets (\<lambda>s.
     sort_key (\<lambda>j. the (jb_started_at j)) (filter (stuck_running older_than) (t_jobs s))))"

definition list_stuck_queued :: "timestamp \<Rightarrow> ('z job_db_scheme, job_record list) eff" where
  "list_stuck_queued older_than = execute ''list_stuck_queued'' ''jobs'' (gets (\<lambda>s.
     sort_key jb_created_at (filter (stuck_queued older_than) (t_jobs s))))"

definition AGGREGATION_SCAN_LIMIT :: nat where "AGGREGATION_SCAN_LIMIT = 1000"

definition count_dead_letter_by_queue :: "('z job_db_scheme, string \<Rightarrow> nat) eff" where
  "count_dead_letter_by_queue =
     and_then (execute ''count_dead_letter_by_queue'' ''jobs'' (gets (\<lambda>s.
        take AGGREGATION_SCAN_LIMIT (filter (\<lambda>j. jb_status j = ''dead_lettered'') (t_jobs s)))))
       (\<lambda>rows. return (\<lambda>queue. length (filter (\<lambda>j. jb_queue_name j = queue) rows)))"

section \<open>Back-off\<close>

definition DEFAULT_BASE_SECONDS :: rat where "DEFAULT_BASE_SECONDS = 30"
definition DEFAULT_MULTIPLIER :: rat where "DEFAULT_MULTIPLIER = 2"
definition DEFAULT_CAP_SECONDS :: rat where "DEFAULT_CAP_SECONDS = 3600"

text \<open>\<open>source.uniform(0, ceiling)\<close> is \<open>ceiling\<close> times the draw \<open>fraction\<close>.\<close>

definition compute_delay_seconds :: "int \<Rightarrow> rat \<Rightarrow> rat \<Rightarrow> rat \<Rightarrow> rat \<Rightarrow> rat" where
  "compute_delay_seconds attempts base_seconds multiplier cap_seconds fraction =
     (let ceiling = min cap_seconds (base_seconds * multiplier ^ nat attempts) in fraction * ceiling)"

definition default_delay :: "int \<Rightarrow> rat \<Rightarrow> rat" where
  "default_delay attempts fraction =
     compute_delay_seconds attempts DEFAULT_BASE_SECONDS DEFAULT_MULTIPLIER DEFAULT_CAP_SECONDS fraction"

text \<open>\<open>timedelta(seconds=...)\<close>: whole microseconds, a tie to the even one.\<close>

definition timedelta_seconds :: "rat \<Rightarrow> int" where
  "timedelta_seconds d =
     (let x = d * 1000000; f = \<lfloor>x\<rfloor>; rest = x - of_int f in
      if rest < 1 / 2 then f else if 1 / 2 < rest then f + 1 else if even f then f else f + 1)"

section \<open>Dispatch\<close>

definition enqueue ::
  "'z job_db_scheme redis_client \<Rightarrow> (uuid \<Rightarrow> string) \<Rightarrow> int \<Rightarrow> string \<Rightarrow> string \<Rightarrow> payload \<Rightarrow> job_priority \<Rightarrow> int option \<Rightarrow>
   timestamp option \<Rightarrow> uuid option \<Rightarrow> uuid option \<Rightarrow> ('z job_db_scheme, job_record) eff" where
  "enqueue R show_uuid default_max_attempts task_type queue_name payload priority max_attempts scheduled_for
     request_id actor_id =
     (let resolved_max_attempts = (case max_attempts of Some n \<Rightarrow> n | None \<Rightarrow> default_max_attempts) in
      and_then (create_job task_type queue_name (job_priority_value priority) payload resolved_max_attempts
        scheduled_for request_id actor_id) (\<lambda>job.
      and_then (handle (case scheduled_for of
            None \<Rightarrow> push_ready R queue_name priority (show_uuid (jb_id job))
          | Some due \<Rightarrow> push_delayed R queue_name priority (show_uuid (jb_id job)) due) (\<lambda>_. return ())) (\<lambda>_.
        return job)))"

type_synonym 's handlers = "string \<Rightarrow> (payload \<Rightarrow> ('s, bool) eff) option"

definition enqueue_synchronously :: "'s handlers \<Rightarrow> string \<Rightarrow> payload \<Rightarrow> ('s, unit) eff" where
  "enqueue_synchronously handlers task_type payload =
     (case handlers task_type of
        None \<Rightarrow> return ()
      | Some handler \<Rightarrow> handle (and_then (handler payload) (\<lambda>_. return ())) (\<lambda>_. return ()))"

end
