(* ===== verification/Worker.thy ===== *)
theory Worker imports Jobs
begin

text \<open>
  \<open>jobs/handlers.py\<close>, \<open>jobs/worker.py\<close> and the reaper. What a handler does outside this code (sending a
  mail) and how a UUID is printed and parsed are fields of the configuration; \<open>ConcurrencyError\<close> is the
  service error that a lost race is translated to.
\<close>

section \<open>Handlers\<close>

definition TASK_SEND_EMAIL :: string where "TASK_SEND_EMAIL = ''send_email''"
definition TASK_SEND_INVITATION_EMAIL :: string where "TASK_SEND_INVITATION_EMAIL = ''send_invitation_email''"
definition TASK_ESCALATE_STAGE :: string where "TASK_ESCALATE_STAGE = ''escalate_stage''"
definition TASK_SEND_REMINDER :: string where "TASK_SEND_REMINDER = ''send_reminder''"

record 's worker_config =
  wc_services :: service_config
  wc_parse_uuid :: "string \<Rightarrow> uuid option"
  wc_show_uuid :: "uuid \<Rightarrow> string"
  wc_smtp_enabled :: bool
  wc_send_email :: "string \<Rightarrow> string \<Rightarrow> string \<Rightarrow> ('s, bool) eff"
  wc_send_invitation :: "payload \<Rightarrow> ('s, bool) eff"
  wc_describe :: "exn \<Rightarrow> string"
  wc_hostname :: string

definition payload_text :: "payload \<Rightarrow> string \<Rightarrow> string fallible" where
  "payload_text payload key =
     (case map_of payload key of Some (PText t) \<Rightarrow> Inr t | Some (PBool _) \<Rightarrow> Inl (Raised (Py (TypeError key)))
      | None \<Rightarrow> Inl (Raised (Py KeyError)))"

definition payload_uuid :: "'s worker_config \<Rightarrow> payload \<Rightarrow> string \<Rightarrow> uuid fallible" where
  "payload_uuid cfg payload key = bind_result (payload_text payload key) (\<lambda>t.
     case wc_parse_uuid cfg t of Some i \<Rightarrow> Inr i | None \<Rightarrow> Inl (Raised (Py (ValueError key))))"

definition handle_send_email :: "'s worker_config \<Rightarrow> payload \<Rightarrow> ('s, bool) eff" where
  "handle_send_email cfg payload =
     (if \<not> wc_smtp_enabled cfg then return False
      else and_then (pure (payload_text payload ''to_address'')) (\<lambda>to_address.
        and_then (pure (payload_text payload ''subject'')) (\<lambda>subject.
        and_then (pure (payload_text payload ''body'')) (\<lambda>body.
          wc_send_email cfg to_address subject body))))"

definition handle_send_invitation_email :: "'s worker_config \<Rightarrow> payload \<Rightarrow> ('s, bool) eff" where
  "handle_send_invitation_email cfg payload =
     (if \<not> wc_smtp_enabled cfg then return False else wc_send_invitation cfg payload)"

fun is_concurrency_error :: "exn \<Rightarrow> bool" where
  "is_concurrency_error (Service (ConcurrencyError _)) = True"
| "is_concurrency_error _ = False"

definition handle_escalate_stage :: "'z db_scheme worker_config \<Rightarrow> payload \<Rightarrow> ('z db_scheme, bool) eff" where
  "handle_escalate_stage cfg payload =
     and_then (pure (payload_uuid cfg payload ''stage_id'')) (\<lambda>stage_id.
     and_then (handle (and_then (service_escalate_stage (wc_services cfg) stage_id) (\<lambda>_. return ()))
                (\<lambda>e. if is_concurrency_error e then return () else throw e)) (\<lambda>_.
       return True))"

definition handle_send_reminder :: "'z db_scheme worker_config \<Rightarrow> payload \<Rightarrow> ('z db_scheme, bool) eff" where
  "handle_send_reminder cfg payload =
     and_then (pure (payload_uuid cfg payload ''recipient_id'')) (\<lambda>recipient_id.
     and_then (pure (payload_uuid cfg payload ''request_id'')) (\<lambda>request_id.
     and_then (pure (payload_text payload ''message'')) (\<lambda>message.
     and_then (notify_reminder (sc_notify (wc_services cfg)) recipient_id request_id message) (\<lambda>_.
       return True))))"

definition TASK_HANDLERS :: "'z db_scheme worker_config \<Rightarrow> 'z db_scheme handlers" where
  "TASK_HANDLERS cfg task_type =
     (if task_type = TASK_SEND_EMAIL then Some (handle_send_email cfg)
      else if task_type = TASK_SEND_INVITATION_EMAIL then Some (handle_send_invitation_email cfg)
      else if task_type = TASK_ESCALATE_STAGE then Some (handle_escalate_stage cfg)
      else if task_type = TASK_SEND_REMINDER then Some (handle_send_reminder cfg)
      else None)"

section \<open>The worker\<close>

definition ROLE_QUEUE_NAMES :: "string \<Rightarrow> string list option" where
  "ROLE_QUEUE_NAMES = [''default'' \<mapsto> [''default''], ''escalation'' \<mapsto> [''escalation''],
     ''all'' \<mapsto> [''default'', ''escalation'']]"

definition DEQUEUE_TIMEOUT_SECONDS :: int where "DEQUEUE_TIMEOUT_SECONDS = 5"
definition PRIORITY_REVERSAL_INTERVAL :: nat where "PRIORITY_REVERSAL_INTERVAL = 8"

definition priority_order :: "nat \<Rightarrow> job_priority list" where
  "priority_order iteration =
     (let order = [PriorityHigh, PriorityNormal, PriorityLow] in
      if iteration mod PRIORITY_REVERSAL_INTERVAL = 0 then rev order else order)"

text \<open>One pass of the promoter thread over its queues; its exceptions are logged.\<close>

fun promoter_pass :: "'z db_scheme redis_client \<Rightarrow> string list \<Rightarrow> ('z db_scheme, unit) eff" where
  "promoter_pass R [] = return ()"
| "promoter_pass R (q # qs) =
     and_then (handle (and_then (gets clock) (\<lambda>now. and_then (promote_due R q now) (\<lambda>_. return ()))) (\<lambda>_. return ()))
       (\<lambda>_. promoter_pass R qs)"

text \<open>What the handler reports: the outcome and, when it raised, the error's text.\<close>

definition run_handler ::
  "'s worker_config \<Rightarrow> 's handlers \<Rightarrow> job_record \<Rightarrow> ('s, bool \<times> string option) eff" where
  "run_handler cfg handlers job =
     (case handlers (jb_task_type job) of
        None \<Rightarrow> return (False, Some (''No handler registered for task_type '' @ [CHR 0x27] @ jb_task_type job @ [CHR 0x27] @ ''.''))
      | Some handler \<Rightarrow> handle (and_then (handler (jb_payload job)) (\<lambda>outcome. return (outcome, None)))
          (\<lambda>exc. return (False, Some (wc_describe cfg exc))))"

definition failure_text :: "string option \<Rightarrow> string" where
  "failure_text error_message =
     (case error_message of Some e \<Rightarrow> if e = [] then ''handler reported failure'' else e
      | None \<Rightarrow> ''handler reported failure'')"

definition schedule_retry ::
  "'z job_db_scheme redis_client \<Rightarrow> (uuid \<Rightarrow> string) \<Rightarrow> rat \<Rightarrow> job_record \<Rightarrow> int \<Rightarrow> string \<Rightarrow> ('z job_db_scheme, unit) eff" where
  "schedule_retry R show_uuid fraction job new_attempts err =
     and_then (gets clock) (\<lambda>now.
     let next_attempt_at = now + timedelta_seconds (default_delay new_attempts fraction) in
     and_then (mark_failed_will_retry (jb_id job) (jb_version job) new_attempts err (jb_error_history job)
        next_attempt_at) (\<lambda>_.
     and_then (pure (job_priority_of_value (jb_priority job))) (\<lambda>priority.
       push_delayed R (jb_queue_name job) priority (show_uuid (jb_id job)) next_attempt_at)))"

definition load_job :: "'s worker_config \<Rightarrow> string \<Rightarrow> ('z job_db_scheme, job_record) eff" where
  "load_job cfg job_id =
     (case wc_parse_uuid cfg job_id of
        None \<Rightarrow> throw (Raised (Py (ValueError ''job_id'')))
      | Some i \<Rightarrow> get_job i)"

definition settle_job ::
  "'z job_db_scheme redis_client \<Rightarrow> 's worker_config \<Rightarrow> rat \<Rightarrow> job_record \<Rightarrow> bool \<Rightarrow> string option \<Rightarrow>
   ('z job_db_scheme, unit) eff" where
  "settle_job R cfg fraction job outcome error_message =
     (if outcome then and_then (mark_succeeded (jb_id job) (jb_version job)) (\<lambda>_. return ())
      else if jb_attempts job + 1 < jb_max_attempts job
      then schedule_retry R (wc_show_uuid cfg) fraction job (jb_attempts job + 1) (failure_text error_message)
      else and_then (mark_dead_lettered (jb_id job) (jb_version job) (jb_attempts job + 1) (failure_text error_message)
             (jb_error_history job)) (\<lambda>_. return ()))"

definition execute_job ::
  "'z job_db_scheme redis_client \<Rightarrow> 'z job_db_scheme worker_config \<Rightarrow> 'z job_db_scheme handlers \<Rightarrow> rat \<Rightarrow>
   job_record \<Rightarrow> ('z job_db_scheme, unit) eff" where
  "execute_job R cfg handlers fraction loaded =
     and_then (mark_running (jb_id loaded) (jb_version loaded) (wc_hostname cfg)) (\<lambda>job.
     and_then (run_handler cfg handlers job) (\<lambda>(outcome, error_message).
       settle_job R cfg fraction job outcome error_message))"

definition process_one ::
  "'z job_db_scheme redis_client \<Rightarrow> 'z job_db_scheme worker_config \<Rightarrow> 'z job_db_scheme handlers \<Rightarrow> rat \<Rightarrow>
   string \<Rightarrow> ('z job_db_scheme, unit) eff" where
  "process_one R cfg handlers fraction job_id =
     and_then (handle (and_then (load_job cfg job_id) (\<lambda>j. return (Some j))) (\<lambda>_. return None)) (\<lambda>loaded.
       case loaded of None \<Rightarrow> return () | Some job \<Rightarrow> execute_job R cfg handlers fraction job)"

text \<open>One iteration of \<open>run\<close>'s loop; an exception of \<open>process_one\<close> leaves the loop.\<close>

definition worker_iteration ::
  "'z job_db_scheme redis_client \<Rightarrow> 'z job_db_scheme worker_config \<Rightarrow> 'z job_db_scheme handlers \<Rightarrow> rat \<Rightarrow>
   string list \<Rightarrow> nat \<Rightarrow> ('z job_db_scheme, unit) eff" where
  "worker_iteration R cfg handlers fraction queue_names iteration =
     and_then (record_heartbeat R (wc_hostname cfg)) (\<lambda>_.
     and_then (dequeue R queue_names (priority_order iteration) DEQUEUE_TIMEOUT_SECONDS) (\<lambda>job_id.
       case job_id of None \<Rightarrow> return () | Some i \<Rightarrow> process_one R cfg handlers fraction i))"

section \<open>The reaper\<close>

definition RECOVERY_ERROR_MESSAGE :: string where
  "RECOVERY_ERROR_MESSAGE =
     ''Recovered by StuckJobReaperJob: job made no progress within the stuck threshold.''"

fun is_concurrent_update :: "exn \<Rightarrow> bool" where
  "is_concurrent_update (Raised (Db (ConcurrentUpdateError _ _ _))) = True"
| "is_concurrent_update _ = False"

definition recover ::
  "'z job_db_scheme redis_client \<Rightarrow> (uuid \<Rightarrow> string) \<Rightarrow> rat \<Rightarrow> job_record \<Rightarrow> ('z job_db_scheme, unit) eff" where
  "recover R show_uuid fraction job =
     (let new_attempts = jb_attempts job + 1 in
      handle (if new_attempts < jb_max_attempts job
              then schedule_retry R show_uuid fraction job new_attempts RECOVERY_ERROR_MESSAGE
              else and_then (mark_dead_lettered (jb_id job) (jb_version job) new_attempts RECOVERY_ERROR_MESSAGE
                     (jb_error_history job)) (\<lambda>_. return ()))
        (\<lambda>e. if is_concurrent_update e then return () else throw e))"

text \<open>\<open>run_over_items\<close>: one item's exception is counted and logged, the others still run.\<close>

fun run_over_items :: "('a \<Rightarrow> ('s, unit) eff) \<Rightarrow> 'a list \<Rightarrow> ('s, nat \<times> nat) eff" where
  "run_over_items process [] = return (0, 0)"
| "run_over_items process (item # items) =
     and_then (handle (and_then (process item) (\<lambda>_. return True)) (\<lambda>_. return False)) (\<lambda>fine.
     and_then (run_over_items process items) (\<lambda>(processed, failed).
       return (if fine then (Suc processed, failed) else (processed, Suc failed))))"

definition reap ::
  "'z job_db_scheme redis_client \<Rightarrow> (uuid \<Rightarrow> string) \<Rightarrow> int \<Rightarrow> (uuid \<Rightarrow> rat) \<Rightarrow> ('z job_db_scheme, nat \<times> nat) eff" where
  "reap R show_uuid threshold_minutes fraction =
     and_then (gets clock) (\<lambda>now.
     let cutoff = now - threshold_minutes * 60000000 in
     and_then (list_stuck_running cutoff) (\<lambda>running.
     and_then (list_stuck_queued cutoff) (\<lambda>queued.
       run_over_items (\<lambda>j. recover R show_uuid (fraction (jb_id j)) j) (running @ queued))))"

end
