(* ===== verification/Fairness.thy ===== *)
theory Fairness imports Worker RedisMemory
begin

text \<open>
  The polling order of the worker's loop: with the order reversed in every eighth iteration, a job of
  low priority on the first queue that is polled is dequeued in bounded time whatever is pushed meanwhile.
  A job of normal priority need not be, because it comes first in neither order; nor a job of the second
  queue, which follows the first queue's job of its own priority in both.
\<close>

section \<open>A worker polling its queues\<close>

definition waiting :: "'s redis_view \<Rightarrow> string \<Rightarrow> job_priority \<Rightarrow> 's \<Rightarrow> string list \<Rightarrow> bool" where
  "waiting V q p s ids \<longleftrightarrow> rv_list V s (ready_key q (job_priority_value p)) = rev (map (\<lambda>i. envelope i p) ids)"

text \<open>
  Iteration \<open>n\<close> starts in \<open>s n\<close>; by the time it dequeues, other clients have taken the server to
  \<open>u n\<close>, only adding ready jobs; it gets \<open>r n\<close>.
\<close>

definition polling ::
  "'s redis_client \<Rightarrow> 's redis_view \<Rightarrow> string list \<Rightarrow> (nat \<Rightarrow> 's) \<Rightarrow> (nat \<Rightarrow> 's) \<Rightarrow> (nat \<Rightarrow> string option) \<Rightarrow> bool" where
  "polling R V qs s u r \<longleftrightarrow> (\<forall>n.
     (\<exists>Q Q'. represents V Q (s n) \<and> represents V Q' (u n) \<and> (\<forall>q p. \<exists>ids. jq_ready Q' q p = jq_ready Q q p @ ids)) \<and>
     dequeue R qs (priority_order n) DEQUEUE_TIMEOUT_SECONDS (u n) = (Inr (r n), s (Suc n)))"

lemma represents_empty:
  "represents V Q s \<Longrightarrow> rv_list V s (ready_key q (job_priority_value p)) = [] \<longleftrightarrow> jq_ready Q q p = []"
  by (simp add: represents_def)

lemma rev_envelopes_eq: "rev (map (\<lambda>i. envelope i p) xs) = rev (map (\<lambda>i. envelope i p) ys) \<longleftrightarrow> xs = ys"
  by (simp add: inj_map_eq_map inj_on_def)

lemma waiting_ready: "represents V Q s \<Longrightarrow> waiting V q p s ids \<longleftrightarrow> ids = jq_ready Q q p"
  using rev_envelopes_eq [of p "jq_ready Q q p" ids] by (auto simp: represents_def waiting_def)

inductive_cases dequeue_cases: "queue_step Q (Dequeue qs ps n) r Q'"

text \<open>One iteration: what has been added, and what is taken from the first non-empty list.\<close>

lemma polling_step:
  assumes "redis_contract R V" "polling R V qs s u r"
  shows "\<exists>Q Q' Q''. represents V Q (s n) \<and> represents V Q' (u n) \<and> represents V Q'' (s (Suc n)) \<and>
    (\<forall>q p. \<exists>ids. jq_ready Q' q p = jq_ready Q q p @ ids) \<and>
    (case first_ready Q' qs (priority_order n) of
       None \<Rightarrow> r n = None \<and> Q'' = Q'
     | Some (q', p) \<Rightarrow> r n = Some (hd (jq_ready Q' q' p)) \<and> Q'' = popped q' p Q')"
proof -
  obtain Q Q' where Q: "represents V Q (s n)" "represents V Q' (u n)"
    "\<forall>q p. \<exists>ids. jq_ready Q' q p = jq_ready Q q p @ ids"
    and d: "dequeue R qs (priority_order n) DEQUEUE_TIMEOUT_SECONDS (u n) = (Inr (r n), s (Suc n))"
    using assms(2) unfolding polling_def by meson
  obtain Q'' where Q'': "queue_step Q' (Dequeue qs (priority_order n) DEQUEUE_TIMEOUT_SECONDS) (Popped (r n)) Q''"
    "represents V Q'' (s (Suc n))"
    using dequeue_refines [OF assms(1) Q(2) d] by blast
  from Q''(1) have "case first_ready Q' qs (priority_order n) of
       None \<Rightarrow> r n = None \<and> Q'' = Q'
     | Some (q', p) \<Rightarrow> r n = Some (hd (jq_ready Q' q' p)) \<and> Q'' = popped q' p Q'"
    by (rule dequeue_cases) auto
  with Q Q''(2) show ?thesis by blast
qed

text \<open>The lists that come first in the two orders.\<close>

lemma first_ready_reversed:
  "n mod 8 = 0 \<Longrightarrow> jq_ready Q q PriorityLow \<noteq> [] \<Longrightarrow> first_ready Q (q # qs) (priority_order n) = Some (q, PriorityLow)"
  by (simp add: first_ready_def priority_order_def PRIORITY_REVERSAL_INTERVAL_def)

lemma first_ready_straight:
  "n mod 8 \<noteq> 0 \<Longrightarrow> jq_ready Q q PriorityHigh \<noteq> [] \<Longrightarrow> first_ready Q (q # qs) (priority_order n) = Some (q, PriorityHigh)"
  by (simp add: first_ready_def priority_order_def PRIORITY_REVERSAL_INTERVAL_def)

text \<open>In both orders the first of two queues is asked for a priority before the second is.\<close>

lemma first_queue_first:
  "q \<noteq> q' \<Longrightarrow> jq_ready Q q p \<noteq> [] \<Longrightarrow> first_ready Q [q, q'] (priority_order n) \<noteq> Some (q', p)"
  by (cases p; cases "n mod 8 = 0") (auto simp: first_ready_def priority_order_def PRIORITY_REVERSAL_INTERVAL_def Let_def split: if_splits)

text \<open>A list that is not popped keeps its jobs in their places.\<close>

lemma unpopped_kept:
  assumes "case first_ready Q' qs ps of None \<Rightarrow> x = None \<and> Q'' = Q'
     | Some (q', p') \<Rightarrow> x = Some (hd (jq_ready Q' q' p')) \<and> Q'' = popped q' p' Q'"
    and "first_ready Q' qs ps \<noteq> Some (q, p)"
  shows "jq_ready Q'' q p = jq_ready Q' q p"
  using assms by (cases "first_ready Q' qs ps") (auto simp: popped_def split: prod.splits if_splits)

section \<open>Low priority is served\<close>

lemma low_step:
  assumes "redis_contract R V" "polling R V (q # qs) s u r" "waiting V q PriorityLow (s n) (xs @ i # ys)"
  shows "r n = Some i \<or> (\<exists>xs' ys'. waiting V q PriorityLow (s (Suc n)) (xs' @ i # ys') \<and>
    length xs' \<le> length xs \<and> (n mod 8 = 0 \<longrightarrow> length xs' < length xs))"
proof -
  obtain Q Q' Q'' where Q: "represents V Q (s n)" "represents V Q'' (s (Suc n))"
    and more: "\<forall>q p. \<exists>ids. jq_ready Q' q p = jq_ready Q q p @ ids"
    and pop: "case first_ready Q' (q # qs) (priority_order n) of
       None \<Rightarrow> r n = None \<and> Q'' = Q'
     | Some (q', p) \<Rightarrow> r n = Some (hd (jq_ready Q' q' p)) \<and> Q'' = popped q' p Q'"
    using polling_step [OF assms(1,2), of n] by blast
  have "jq_ready Q q PriorityLow = xs @ i # ys" using waiting_ready [OF Q(1)] assms(3) by metis
  with more obtain zs where low: "jq_ready Q' q PriorityLow = xs @ i # ys @ zs" by (metis append_Cons append_assoc)
  show ?thesis
  proof (cases "first_ready Q' (q # qs) (priority_order n) = Some (q, PriorityLow)")
    case True
    with pop have r: "r n = Some (hd (xs @ i # ys @ zs))" and Q'': "Q'' = popped q PriorityLow Q'" by (simp_all add: low)
    show ?thesis
    proof (cases xs)
      case Nil
      with r show ?thesis by simp
    next
      case (Cons x xs')
      have "jq_ready Q'' q PriorityLow = xs' @ i # ys @ zs" by (simp add: Q'' popped_def low Cons)
      with waiting_ready [OF Q(2)] Cons show ?thesis by (intro disjI2 exI [of _ xs'] exI [of _ "ys @ zs"]) simp
    qed
  next
    case False
    then have "n mod 8 \<noteq> 0" using first_ready_reversed [of n Q' q qs] low by auto
    moreover have "jq_ready Q'' q PriorityLow = jq_ready Q' q PriorityLow" by (rule unpopped_kept [OF pop False])
    ultimately show ?thesis
      using waiting_ready [OF Q(2)] low by (intro disjI2 exI [of _ xs] exI [of _ "ys @ zs"]) simp
  qed
qed

lemma rounds:
  fixes n :: nat
  shows "n \<le> 8 * ((n + 7) div 8)" "(Suc n + 7) div 8 \<le> (n + 7) div 8 + 1"
    "n mod 8 \<noteq> 0 \<Longrightarrow> (Suc n + 7) div 8 = (n + 7) div 8"
proof -
  note parts = mult_div_mod_eq [of 8 "n + 7"] mod_less_divisor [of 8 "n + 7"]
    mult_div_mod_eq [of 8 "Suc n + 7"] mod_less_divisor [of 8 "Suc n + 7"]
  show "n \<le> 8 * ((n + 7) div 8)" "(Suc n + 7) div 8 \<le> (n + 7) div 8 + 1" using parts by linarith+
  have "Suc (n + 7) = n + 8" by simp
  then have e: "Suc (n + 7) mod 8 = n mod 8" by (metis mod_add_self2)
  have s: "Suc n + 7 = Suc (n + 7)" by simp
  show "n mod 8 \<noteq> 0 \<Longrightarrow> (Suc n + 7) div 8 = (n + 7) div 8" unfolding s div_Suc e by (simp only: if_False)
qed

text \<open>
  C35. A job of low priority on the first queue the worker polls, whatever other queues it polls after it, with k
  jobs before it in its list, is dequeued at the latest k reversals after the next reversal of the order,
  however many jobs of any priority are pushed on any queue meanwhile.
\<close>

theorem low_priority_served:
  assumes "redis_contract R V" "polling R V (q # qs) s u r" "waiting V q PriorityLow (s n) (xs @ i # ys)"
  shows "\<exists>m. n \<le> m \<and> m \<le> 8 * ((n + 7) div 8 + length xs) \<and> r m = Some i"
  using assms(3)
proof (induction "8 * ((n + 7) div 8 + length xs) - n" arbitrary: n xs ys rule: less_induct)
  case less
  let ?B = "8 * ((n + 7) div 8 + length xs)"
  have "n \<le> 8 * ((n + 7) div 8)" by (rule rounds(1))
  then have n: "n \<le> ?B" by (rule order_trans) (simp add: add_mult_distrib2)
  from low_step [OF assms(1,2) less.prems] show ?case
  proof
    assume "r n = Some i"
    with n show ?thesis by (intro exI [of _ n]) (simp only: order_refl simp_thms)
  next
    assume "\<exists>xs' ys'. waiting V q PriorityLow (s (Suc n)) (xs' @ i # ys') \<and>
      length xs' \<le> length xs \<and> (n mod 8 = 0 \<longrightarrow> length xs' < length xs)"
    then obtain xs' ys' where w: "waiting V q PriorityLow (s (Suc n)) (xs' @ i # ys')"
      "length xs' \<le> length xs" "n mod 8 = 0 \<longrightarrow> length xs' < length xs" by (elim exE conjE)
    have B: "8 * ((Suc n + 7) div 8 + length xs') \<le> ?B"
    proof (cases "n mod 8 = 0")
      case True
      with w(3) rounds(2) [of n] show ?thesis by (intro mult_le_mono2) linarith
    next
      case False
      with w(2) rounds(3) [of n] show ?thesis by (intro mult_le_mono2) linarith
    qed
    moreover have "Suc n \<le> 8 * ((Suc n + 7) div 8)" by (rule rounds(1))
    then have "Suc n \<le> 8 * ((Suc n + 7) div 8 + length xs')" by (rule order_trans) (simp add: add_mult_distrib2)
    ultimately have small: "8 * ((Suc n + 7) div 8 + length xs') - Suc n < ?B - n" by linarith
    from less.hyps [OF small w(1)] obtain m where "Suc n \<le> m" "m \<le> 8 * ((Suc n + 7) div 8 + length xs')" "r m = Some i" by (elim exE conjE)
    with B show ?thesis by (intro exI [of _ m] conjI) (erule Suc_leD, erule (1) order_trans, assumption)
  qed
qed

section \<open>What may starve\<close>

text \<open>A list that is never the first one that is not empty keeps its jobs, in their places.\<close>

lemma never_first_starves:
  assumes "redis_contract R V" "polling R V qs s u r"
    and never: "\<And>n Q. represents V Q (u n) \<Longrightarrow> first_ready Q qs (priority_order n) \<noteq> Some (q, p)"
    and "waiting V q p (s 0) ids"
  shows "\<exists>more. waiting V q p (s n) (ids @ more)"
proof (induction n)
  case 0
  with assms(4) show ?case by (metis append_Nil2)
next
  case (Suc n)
  then obtain more where w: "waiting V q p (s n) (ids @ more)" by blast
  obtain Q Q' Q'' where Q: "represents V Q (s n)" "represents V Q' (u n)" "represents V Q'' (s (Suc n))"
    and added: "\<forall>q p. \<exists>ids. jq_ready Q' q p = jq_ready Q q p @ ids"
    and pop: "case first_ready Q' qs (priority_order n) of
       None \<Rightarrow> r n = None \<and> Q'' = Q'
     | Some (q', p) \<Rightarrow> r n = Some (hd (jq_ready Q' q' p)) \<and> Q'' = popped q' p Q'"
    using polling_step [OF assms(1,2), of n] by blast
  have "jq_ready Q'' q p = jq_ready Q' q p" by (rule unpopped_kept [OF pop never [OF Q(2)]])
  moreover have "jq_ready Q q p = ids @ more" using waiting_ready [OF Q(1)] w by metis
  then obtain zs where "jq_ready Q' q p = ids @ more @ zs" using added by (metis append_assoc)
  ultimately show ?case using waiting_ready [OF Q(3)] by metis
qed

text \<open>
  While there is always a job of high and a job of low priority on the first queue, no job of normal priority
  is dequeued from it: those waiting at the start are still waiting, in their places, at every iteration.
\<close>

theorem normal_priority_starves:
  assumes "redis_contract R V" "polling R V (q # qs) s u r"
    and "\<And>n. rv_list V (u n) (ready_key q (job_priority_value PriorityHigh)) \<noteq> []"
    and "\<And>n. rv_list V (u n) (ready_key q (job_priority_value PriorityLow)) \<noteq> []"
    and "waiting V q PriorityNormal (s 0) ids"
  shows "\<exists>more. waiting V q PriorityNormal (s n) (ids @ more)"
proof (rule never_first_starves [OF assms(1,2) _ assms(5)])
  fix n Q assume "represents V Q (u n)"
  with assms(3,4) have "jq_ready Q q PriorityHigh \<noteq> []" "jq_ready Q q PriorityLow \<noteq> []" by (metis represents_empty)+
  then show "first_ready Q (q # qs) (priority_order n) \<noteq> Some (q, PriorityNormal)"
    using first_ready_reversed [of n Q q qs] first_ready_straight [of n Q q qs] by (cases "n mod 8 = 0") auto
qed

text \<open>
  C36. A worker of the role \<open>all\<close>, the default one, may never serve its second queue: while there is always a job
  of some priority on the queue \<open>default\<close>, no job of that priority is dequeued from \<open>escalation\<close>, in either
  order. Those waiting there at the start are still waiting, in their places, at every iteration, and so the
  low-priority jobs of that queue are not rescued by the reversals.
\<close>

theorem escalation_queue_starves:
  assumes "ROLE_QUEUE_NAMES ''all'' = Some qs" "redis_contract R V" "polling R V qs s u r"
    and "\<And>n. rv_list V (u n) (ready_key ''default'' (job_priority_value p)) \<noteq> []"
    and "waiting V ''escalation'' p (s 0) ids"
  shows "\<exists>more. waiting V ''escalation'' p (s n) (ids @ more)"
proof -
  have qs: "qs = [''default'', ''escalation'']" using assms(1) by (simp add: ROLE_QUEUE_NAMES_def)
  show ?thesis
  proof (rule never_first_starves [OF assms(2,3) _ assms(5)])
    fix n Q assume "represents V Q (u n)"
    with assms(4) have "jq_ready Q ''default'' p \<noteq> []" by (metis represents_empty)
    then show "first_ready Q qs (priority_order n) \<noteq> Some (''escalation'', p)" unfolding qs by (intro first_queue_first) simp_all
  qed
qed

section \<open>A server in memory, polled\<close>

lemma dequeue_returns:
  assumes "redis_contract R V" "represents V Q s" and total: "\<And>ks n. is_ok (fst (rc_brpop R ks n s))"
  shows "is_ok (fst (dequeue R qs ps n s))"
proof -
  let ?keys = "concat (map (\<lambda>p. map (\<lambda>q. ready_key q (job_priority_value p)) qs) ps)"
  obtain y u where 1: "rc_brpop R ?keys n s = (Inr y, u)" using is_ok_run [OF total] by blast
  have law: "case List.find (\<lambda>k. rv_list V s k \<noteq> []) ?keys of
        None \<Rightarrow> y = None \<and> same_view V s u
      | Some k \<Rightarrow> y = Some (k, last (rv_list V s k)) \<and>
          rv_list V u = (rv_list V s)(k := butlast (rv_list V s k)) \<and> rv_zset V u = rv_zset V s"
    using assms(1) 1 unfolding redis_contract_def brpop_law_def by blast
  show ?thesis
  proof (cases "first_ready Q qs ps")
    case None
    with law find_ready [OF assms(2)] have "y = None" by simp
    with 1 show ?thesis by (simp add: dequeue_def and_then_def eff_simps is_ok_def)
  next
    case (Some qp)
    obtain q p where qp: "qp = (q, p)" by (cases qp)
    have ne: "jq_ready Q q p \<noteq> []" using find_Some_holds [OF Some [unfolded first_ready_def]] qp by simp
    then obtain i rest where "jq_ready Q q p = i # rest" by (cases "jq_ready Q q p") auto
    with law find_ready [OF assms(2)] Some qp assms(2) have "y = Some (ready_key q (job_priority_value p), envelope i p)"
      by (simp add: represents_def)
    with 1 show ?thesis by (simp add: dequeue_def and_then_def eff_simps envelope_loads is_ok_def)
  qed
qed

text \<open>The pushes of the other clients before iteration \<open>n\<close> are \<open>env n\<close>; the worker has the role \<open>all\<close>.\<close>

abbreviation both_queues :: "string list" where "both_queues \<equiv> [''default'', ''escalation'']"

fun pushes :: "(string \<times> job_priority \<times> string) list \<Rightarrow> memory \<Rightarrow> memory" where
  "pushes [] s = s"
| "pushes ((q, p, i) # ps) s = pushes ps (snd (push_ready local_redis q p i s))"

fun poll_state :: "(nat \<Rightarrow> (string \<times> job_priority \<times> string) list) \<Rightarrow> memory \<Rightarrow> nat \<Rightarrow> memory" where
  "poll_state env s 0 = s"
| "poll_state env s (Suc n) = snd (dequeue local_redis both_queues (priority_order n) DEQUEUE_TIMEOUT_SECONDS
     (pushes (env n) (poll_state env s n)))"

definition poll_result :: "(nat \<Rightarrow> (string \<times> job_priority \<times> string) list) \<Rightarrow> memory \<Rightarrow> nat \<Rightarrow> string option" where
  "poll_result env s n = (case fst (dequeue local_redis both_queues (priority_order n) DEQUEUE_TIMEOUT_SECONDS
     (pushes (env n) (poll_state env s n))) of Inr x \<Rightarrow> x | Inl _ \<Rightarrow> None)"

definition pushed_on :: "string \<Rightarrow> job_priority \<Rightarrow> (string \<times> job_priority \<times> string) list \<Rightarrow> string list" where
  "pushed_on q p ps = map (snd \<circ> snd) (filter (\<lambda>x. fst x = q \<and> fst (snd x) = p) ps)"

lemma pushes_represent:
  "represents local_view Q s \<Longrightarrow> \<exists>Q'. represents local_view Q' (pushes ps s) \<and>
     (\<forall>q p. jq_ready Q' q p = jq_ready Q q p @ pushed_on q p ps)"
proof (induction ps arbitrary: Q s)
  case (Cons x ps)
  obtain q p i where x: "x = (q, p, i)" by (cases x)
  obtain t where t: "push_ready local_redis q p i s = (Inr (), t)"
    using local_total(2) unfolding push_ready_def by blast
  from Cons.IH [OF push_ready_refines [OF local_contract Cons.prems t]] obtain Q' where
    "represents local_view Q' (pushes ps t)" "\<forall>q' p'. jq_ready Q' q' p' =
       jq_ready (enqueued q p [i] Q) q' p' @ pushed_on q' p' ps" by blast
  with x t show ?case by (intro exI [of _ Q']) (auto simp: enqueued_def pushed_on_def)
qed (auto simp: pushed_on_def)

lemma poll_dequeues:
  assumes "represents local_view Q s"
  shows "\<exists>y t. dequeue local_redis both_queues ps k s = (Inr y, t)"
  using is_ok_run [OF dequeue_returns [OF local_contract assms local_total(1)]] .

lemma poll_represents: "represents local_view Q s \<Longrightarrow> \<exists>Q'. represents local_view Q' (poll_state env s n)"
proof (induction n)
  case (Suc n)
  then obtain Q1 where "represents local_view Q1 (poll_state env s n)" by blast
  from pushes_represent [OF this] obtain Q2 where Q2: "represents local_view Q2 (pushes (env n) (poll_state env s n))" by blast
  obtain y t where d: "dequeue local_redis both_queues (priority_order n) DEQUEUE_TIMEOUT_SECONDS
      (pushes (env n) (poll_state env s n)) = (Inr y, t)"
    using poll_dequeues [OF Q2] by blast
  from dequeue_refines [OF local_contract Q2 d] d show ?case by auto
qed auto

lemma memory_polling:
  assumes "represents local_view Q s"
  shows "polling local_redis local_view both_queues (poll_state env s) (\<lambda>n. pushes (env n) (poll_state env s n)) (poll_result env s)"
  unfolding polling_def
proof
  fix n
  obtain Q1 where Q1: "represents local_view Q1 (poll_state env s n)" using poll_represents [OF assms] by blast
  obtain Q2 where Q2: "represents local_view Q2 (pushes (env n) (poll_state env s n))"
    "\<forall>q p. jq_ready Q2 q p = jq_ready Q1 q p @ pushed_on q p (env n)"
    using pushes_represent [OF Q1] by blast
  obtain y t where d: "dequeue local_redis both_queues (priority_order n) DEQUEUE_TIMEOUT_SECONDS
      (pushes (env n) (poll_state env s n)) = (Inr y, t)"
    using poll_dequeues [OF Q2(1)] by blast
  from Q2(2) have grown: "\<forall>q p. \<exists>ids. jq_ready Q2 q p = jq_ready Q1 q p @ ids" by blast
  with Q1 Q2(1) have "\<exists>Q Q'. represents local_view Q (poll_state env s n) \<and>
      represents local_view Q' (pushes (env n) (poll_state env s n)) \<and>
      (\<forall>q p. \<exists>ids. jq_ready Q' q p = jq_ready Q q p @ ids)" by blast
  with d show "(\<exists>Q Q'. represents local_view Q (poll_state env s n) \<and>
      represents local_view Q' (pushes (env n) (poll_state env s n)) \<and>
      (\<forall>q p. \<exists>ids. jq_ready Q' q p = jq_ready Q q p @ ids)) \<and>
    dequeue local_redis both_queues (priority_order n) DEQUEUE_TIMEOUT_SECONDS (pushes (env n) (poll_state env s n)) =
      (Inr (poll_result env s n), poll_state env s (Suc n))"
    by (auto simp: poll_result_def)
qed

definition busy_env :: "nat \<Rightarrow> (string \<times> job_priority \<times> string) list" where
  "busy_env n = [(''default'', PriorityHigh, ''h''), (''default'', PriorityLow, ''l'')]"

lemma busy_lists:
  assumes "represents local_view Q s" "p = PriorityHigh \<or> p = PriorityLow"
  shows "rv_list local_view (pushes (busy_env n) (poll_state busy_env s n)) (ready_key ''default'' (job_priority_value p)) \<noteq> []"
proof -
  obtain Q1 where Q1: "represents local_view Q1 (poll_state busy_env s n)" using poll_represents [OF assms(1)] by blast
  from pushes_represent [OF this, of "busy_env n"] obtain Q2 where
    Q2: "represents local_view Q2 (pushes (busy_env n) (poll_state busy_env s n))"
    "\<forall>q p. jq_ready Q2 q p = jq_ready Q1 q p @ pushed_on q p (busy_env n)" by blast
  have "jq_ready Q2 ''default'' p \<noteq> []" using Q2(2) assms(2) by (auto simp: busy_env_def pushed_on_def)
  then show ?thesis using represents_empty [OF Q2(1)] by metis
qed

definition first_pushes :: "(string \<times> job_priority \<times> string) list" where
  "first_pushes = [(''default'', PriorityLow, ''a''), (''default'', PriorityLow, ''b''), (''default'', PriorityNormal, ''c''),
     (''escalation'', PriorityLow, ''d'')]"

definition first_jobs :: memory where "first_jobs = pushes first_pushes empty_memory"

lemma first_jobs_waiting:
  "\<exists>Q. represents local_view Q first_jobs" "waiting local_view ''default'' PriorityLow first_jobs [''a'', ''b'']"
  "waiting local_view ''default'' PriorityNormal first_jobs [''c'']"
  "waiting local_view ''escalation'' PriorityLow first_jobs [''d'']"
proof -
  obtain Q where Q: "represents local_view Q first_jobs" "\<forall>q p. jq_ready Q q p = pushed_on q p first_pushes"
    using pushes_represent [OF empty_represents, of first_pushes] by (auto simp: first_jobs_def empty_queue_def)
  then show "\<exists>Q. represents local_view Q first_jobs" "waiting local_view ''default'' PriorityLow first_jobs [''a'', ''b'']"
    "waiting local_view ''default'' PriorityNormal first_jobs [''c'']" "waiting local_view ''escalation'' PriorityLow first_jobs [''d'']"
    using waiting_ready [OF Q(1)] by (auto simp: pushed_on_def first_pushes_def)
qed

theorem low_priority_served_witness: "\<exists>m \<le> 8. poll_result busy_env first_jobs m = Some ''b''"
proof -
  obtain Q where "represents local_view Q first_jobs" using first_jobs_waiting(1) by blast
  from low_priority_served [OF local_contract memory_polling [OF this, of busy_env], of 0 "[''a'']" "''b''" "[]"]
  show ?thesis using first_jobs_waiting(2) by auto
qed

theorem normal_priority_starves_witness:
  "\<exists>more. waiting local_view ''default'' PriorityNormal (poll_state busy_env first_jobs 1000) (''c'' # more)"
proof -
  obtain Q where Q: "represents local_view Q first_jobs" using first_jobs_waiting(1) by blast
  have "\<exists>more. waiting local_view ''default'' PriorityNormal (poll_state busy_env first_jobs 1000) ([''c''] @ more)"
    by (rule normal_priority_starves [OF local_contract memory_polling [OF Q]])
      (rule busy_lists [OF Q], simp, rule busy_lists [OF Q], simp, simp add: first_jobs_waiting(3))
  then show ?thesis by simp
qed

theorem escalation_queue_starves_witness:
  "\<exists>more. waiting local_view ''escalation'' PriorityLow (poll_state busy_env first_jobs 1000) (''d'' # more)"
proof -
  obtain Q where Q: "represents local_view Q first_jobs" using first_jobs_waiting(1) by blast
  have "ROLE_QUEUE_NAMES ''all'' = Some both_queues" by (simp add: ROLE_QUEUE_NAMES_def)
  then have "\<exists>more. waiting local_view ''escalation'' PriorityLow (poll_state busy_env first_jobs 1000) ([''d''] @ more)"
    by (rule escalation_queue_starves [OF _ local_contract memory_polling [OF Q]])
      (rule busy_lists [OF Q], simp, simp add: first_jobs_waiting(4))
  then show ?thesis by simp
qed

end
