(* ===== verification/JobRuns.thy ===== *)
theory JobRuns imports Worker Integrity
begin

text \<open>
  What processing a job does to its row, on a quiet network and for handlers and Redis commands that
  leave the jobs table to the worker.
\<close>

section \<open>Handlers that leave the jobs table alone\<close>

lemma check_job_None:
  "check_job s j = None \<longleftrightarrow>
     jb_status j \<in> {''queued'', ''running'', ''retrying'', ''succeeded'', ''dead_lettered''} \<and>
     jb_priority j \<in> {''high'', ''normal'', ''low''} \<and> 0 < jb_version j \<and>
     0 \<le> jb_attempts j \<and> jb_attempts j \<le> jb_max_attempts j \<and>
     (\<forall>i. jb_request_id j = Some i \<longrightarrow> i \<in> rq_id ` set (t_requests s)) \<and>
     (\<forall>i. jb_actor_id j = Some i \<longrightarrow> i \<in> pr_id ` set (t_profiles s))"
  by (auto simp: check_job_def first_violation_None opt_ok_iff exists_iff)

definition job_frame :: "job_record list \<Rightarrow> uuid set \<Rightarrow> uuid set \<Rightarrow> 'z job_db_scheme \<Rightarrow> bool" where
  "job_frame J A B s \<longleftrightarrow> quiet s \<and> t_jobs s = J \<and> A \<subseteq> rq_id ` set (t_requests s) \<and> B \<subseteq> pr_id ` set (t_profiles s)"

text \<open>Neither the jobs nor the rows they refer to are lost, and the network stays quiet.\<close>

definition polite :: "('z job_db_scheme, 'a) eff \<Rightarrow> bool" where
  "polite m \<longleftrightarrow> (\<forall>J A B. preserves (job_frame J A B) m)"

lemma politeD:
  assumes "polite m" "quiet s" "m s = (r, t)"
  shows "quiet t" "t_jobs t = t_jobs s" "check_job s j = None \<Longrightarrow> check_job t j = None"
proof -
  have "job_frame (t_jobs s) (rq_id ` set (t_requests s)) (pr_id ` set (t_profiles s)) s"
    using assms(2) by (simp add: job_frame_def)
  with assms(1,3) have f: "job_frame (t_jobs s) (rq_id ` set (t_requests s)) (pr_id ` set (t_profiles s)) t"
    unfolding polite_def preserves_def by (metis snd_conv)
  then show "quiet t" "t_jobs t = t_jobs s" by (simp_all add: job_frame_def)
  show "check_job s j = None \<Longrightarrow> check_job t j = None"
    using f subsetD [of "rq_id ` set (t_requests s)" "rq_id ` set (t_requests t)"]
      subsetD [of "pr_id ` set (t_profiles s)" "pr_id ` set (t_profiles t)"]
    unfolding check_job_None job_frame_def by simp
qed

lemma polite_flow:
  "polite (return x)" "polite (throw e)" "polite (pure y)" "polite m \<Longrightarrow> (\<And>x. polite (f x)) \<Longrightarrow> polite (and_then m f)"
  "polite m' \<Longrightarrow> (\<And>e. polite (h e)) \<Longrightarrow> polite (handle m' h)" "polite m1 \<Longrightarrow> polite m2 \<Longrightarrow> polite (if b then m1 else m2)"
  by (auto simp: polite_def intro: pres)

section \<open>The rows\<close>

definition running_row :: "string \<Rightarrow> timestamp \<Rightarrow> job_record \<Rightarrow> job_record" where
  "running_row host now j = j\<lparr>jb_status := ''running'', jb_started_at := Some now, jb_locked_by := Some host,
     jb_version := jb_version j + 1\<rparr>"

definition failed_row :: "string \<Rightarrow> timestamp \<Rightarrow> job_record \<Rightarrow> job_record" where
  "failed_row err now j = j\<lparr>jb_attempts := jb_attempts j + 1, jb_last_error := Some err,
     jb_error_history := append_error_history (jb_error_history j) (jb_attempts j + 1) err now,
     jb_finished_at := Some now, jb_version := jb_version j + 1\<rparr>"

text \<open>The row a processed job ends with, from the row it ran with.\<close>

definition settled_row :: "bool \<Rightarrow> string option \<Rightarrow> rat \<Rightarrow> timestamp \<Rightarrow> job_record \<Rightarrow> job_record" where
  "settled_row outcome err fraction now j =
     (if outcome then j\<lparr>jb_status := ''succeeded'', jb_finished_at := Some now, jb_version := jb_version j + 1\<rparr>
      else if jb_attempts j + 1 < jb_max_attempts j
      then (failed_row (failure_text err) now j)\<lparr>jb_status := ''retrying'',
             jb_scheduled_for := Some (now + timedelta_seconds (default_delay (jb_attempts j + 1) fraction))\<rparr>
      else (failed_row (failure_text err) now j)\<lparr>jb_status := ''dead_lettered''\<rparr>)"

lemma running_fields [simp]:
  "jb_id (running_row host now j) = jb_id j" "jb_attempts (running_row host now j) = jb_attempts j"
  "jb_max_attempts (running_row host now j) = jb_max_attempts j" "jb_priority (running_row host now j) = jb_priority j"
  "jb_task_type (running_row host now j) = jb_task_type j" "jb_payload (running_row host now j) = jb_payload j"
  "jb_status (running_row host now j) = ''running''"
  by (simp_all add: running_row_def)

lemma settled_fields [simp]:
  "jb_id (settled_row ok err f now j) = jb_id j" "jb_max_attempts (settled_row ok err f now j) = jb_max_attempts j"
  "jb_attempts (settled_row ok err f now j) = (if ok then jb_attempts j else jb_attempts j + 1)"
  "jb_status (settled_row ok err f now j) = (if ok then ''succeeded'' else
     if jb_attempts j + 1 < jb_max_attempts j then ''retrying'' else ''dead_lettered'')"
  by (simp_all add: settled_row_def failed_row_def)

lemma job_refs [simp]:
  "profile_exists (s\<lparr>t_jobs := js\<rparr>) = profile_exists s" "request_exists (s\<lparr>t_jobs := js\<rparr>) = request_exists s"
  by (simp_all add: fun_eq_iff profile_exists_def request_exists_def)

lemma check_job_jobs [simp]: "check_job (s\<lparr>t_jobs := js\<rparr>) = check_job s"
  unfolding check_job_def [abs_def] job_refs ..

lemma job_put [simp]:
  "t_jobs (put_row job_table j s) = map (\<lambda>y. if jb_id y = jb_id j then j else y) (t_jobs s)"
  "net (put_row job_table j s) = net s" "clock (put_row job_table j s) = clock s"
  "check_job (put_row job_table j s) = check_job s"
  by (simp_all add: put_row_def)

lemma job_only_jobs: "only_row job_table j s \<longleftrightarrow> filter (\<lambda>y. jb_id y = jb_id j) (t_jobs s) = [j]"
  by (simp add: only_row_def)

lemma only_put_job: "only_row job_table j s \<Longrightarrow> jb_id j' = jb_id j \<Longrightarrow> only_row job_table j' (put_row job_table j' s)"
  using jobs.only_put [of j s j'] by simp

lemmas job_delivered = jobs.delivered_put [simplified]

lemma mark_running_row:
  assumes "quiet s" "only_row job_table j s" "check_job s j = None"
  shows "mark_running (jb_id j) (jb_version j) host s =
    (Inr (running_row host (clock s) j), put_row job_table (running_row host (clock s) j) s)"
proof -
  have "check_job s (running_row host (clock s) j) = None"
    using assms(3) by (simp add: check_job_None running_row_def)
  then show ?thesis
    using job_delivered [of s j "\<lambda>j. j\<lparr>jb_status := ''running'', jb_started_at := Some (clock s), jb_locked_by := Some host\<rparr>"] assms
    by (simp add: mark_running_def and_then_def eff_simps running_row_def quiet_def)
qed

lemma load_job_row:
  assumes "quiet s" "only_row job_table j s" "wc_parse_uuid cfg i = Some (jb_id j)"
  shows "load_job cfg i s = (Inr j, s)"
  using assms jobs.get_by_id_delivered [of s "jb_id j"]
  by (simp add: load_job_def get_job_def quiet_def job_only_jobs)

lemma run_handler_Inr: "\<exists>ok err t. run_handler cfg handlers j s = (Inr (ok, err), t)"
  by (auto simp: run_handler_def handle_def and_then_def eff_simps split: option.splits prod.splits sum.splits)

definition polite_handlers :: "'z job_db_scheme handlers \<Rightarrow> bool" where
  "polite_handlers handlers \<longleftrightarrow> (\<forall>task h p. handlers task = Some h \<longrightarrow> polite (h p))"

lemma polite_run_handler:
  assumes "polite_handlers handlers"
  shows "polite (run_handler cfg handlers j)"
  using assms unfolding polite_handlers_def by (auto simp: run_handler_def intro!: polite_flow split: option.splits)


section \<open>Settling\<close>

text \<open>The Redis client leaves the database alone; a push may raise.\<close>

definition polite_client :: "'z job_db_scheme redis_client \<Rightarrow> bool" where
  "polite_client R \<longleftrightarrow> (\<forall>q p i due. polite (push_delayed R q p i due))"

lemma job_locked:
  assumes "quiet s" "only_row job_table j s" "\<And>x. jb_id (f x) = jb_id x"
    and "check_job s ((f j)\<lparr>jb_version := jb_version j + 1\<rparr>) = None"
  shows "update_with_optimistic_lock job_table (jb_id j) (jb_version j) f s =
    (Inr ((f j)\<lparr>jb_version := jb_version j + 1\<rparr>), put_row job_table ((f j)\<lparr>jb_version := jb_version j + 1\<rparr>) s)"
  using job_delivered [of s j f] assms by (simp add: quiet_def)

lemma settle_job_row:
  assumes q: "quiet s" and only: "only_row job_table j s" and ok: "check_job s j = None" and R: "polite_client R"
    and room: "outcome \<or> jb_attempts j < jb_max_attempts j"
    and run: "settle_job R cfg fraction j outcome err s = (r, t)"
  shows "t_jobs t = t_jobs (put_row job_table (settled_row outcome err fraction (clock s) j) s) \<and> quiet t \<and>
    (\<forall>x. check_job s x = None \<longrightarrow> check_job t x = None) \<and>
    check_job t (settled_row outcome err fraction (clock s) j) = None \<and>
    (outcome \<or> jb_max_attempts j \<le> jb_attempts j + 1 \<longrightarrow> r = Inr ())"
proof -
  have c: "check_job s (settled_row outcome err fraction (clock s) j) = None"
    using ok room unfolding check_job_None by (auto simp: settled_row_def failed_row_def)
  consider (succeeds) "outcome" | (retry) "\<not> outcome" "jb_attempts j + 1 < jb_max_attempts j"
    | (dead) "\<not> outcome" "jb_max_attempts j \<le> jb_attempts j + 1" by linarith
  then show ?thesis
  proof cases
    case succeeds
    then have row: "settled_row outcome err fraction (clock s) j =
        (j\<lparr>jb_status := ''succeeded'', jb_finished_at := Some (clock s)\<rparr>)\<lparr>jb_version := jb_version j + 1\<rparr>"
      by (simp add: settled_row_def)
    have "update_with_optimistic_lock job_table (jb_id j) (jb_version j)
        (\<lambda>j. j\<lparr>jb_status := ''succeeded'', jb_finished_at := Some (clock s)\<rparr>) s =
      (Inr (settled_row outcome err fraction (clock s) j), put_row job_table (settled_row outcome err fraction (clock s) j) s)"
      using job_locked [OF q only, of "\<lambda>j. j\<lparr>jb_status := ''succeeded'', jb_finished_at := Some (clock s)\<rparr>"] c row by simp
    with run succeeds have "r = Inr ()" "t = put_row job_table (settled_row outcome err fraction (clock s) j) s"
      by (simp_all add: settle_job_def mark_succeeded_def and_then_def eff_simps)
    with c q show ?thesis by (simp add: quiet_def)
  next
    case retry
    let ?due = "clock s + timedelta_seconds (default_delay (jb_attempts j + 1) fraction)"
    let ?f = "\<lambda>x. x\<lparr>jb_status := ''retrying'', jb_attempts := jb_attempts j + 1, jb_last_error := Some (failure_text err),
          jb_error_history := append_error_history (jb_error_history j) (jb_attempts j + 1) (failure_text err) (clock s),
          jb_scheduled_for := Some ?due, jb_finished_at := Some (clock s)\<rparr>"
    have row: "settled_row outcome err fraction (clock s) j = (?f j)\<lparr>jb_version := jb_version j + 1\<rparr>"
      using retry by (simp add: settled_row_def failed_row_def)
    let ?u = "put_row job_table (settled_row outcome err fraction (clock s) j) s"
    have mark: "mark_failed_will_retry (jb_id j) (jb_version j) (jb_attempts j + 1) (failure_text err) (jb_error_history j) ?due s =
      (Inr (settled_row outcome err fraction (clock s) j), ?u)"
      using job_locked [OF q only, of ?f] c row by (simp add: mark_failed_will_retry_def and_then_def eff_simps)
    have "quiet ?u" using q by (simp add: quiet_def)
    obtain rest where rest: "(r, t) = and_then (pure (job_priority_of_value (jb_priority j))) (\<lambda>priority.
        push_delayed R (jb_queue_name j) priority (wc_show_uuid cfg (jb_id j)) ?due) ?u"
      using run retry mark by (simp add: settle_job_def schedule_retry_def Let_def and_then_def eff_simps)
    have "polite (and_then (pure (job_priority_of_value (jb_priority j))) (\<lambda>priority.
        push_delayed R (jb_queue_name j) priority (wc_show_uuid cfg (jb_id j)) ?due))"
      using R unfolding polite_client_def by (intro polite_flow) blast
    from politeD [OF this \<open>quiet ?u\<close> rest [symmetric]] c retry show ?thesis by simp
  next
    case dead
    let ?f = "\<lambda>x. x\<lparr>jb_status := ''dead_lettered'', jb_attempts := jb_attempts j + 1, jb_last_error := Some (failure_text err),
          jb_error_history := append_error_history (jb_error_history j) (jb_attempts j + 1) (failure_text err) (clock s),
          jb_finished_at := Some (clock s)\<rparr>"
    have row: "settled_row outcome err fraction (clock s) j = (?f j)\<lparr>jb_version := jb_version j + 1\<rparr>"
      using dead by (simp add: settled_row_def failed_row_def)
    have "mark_dead_lettered (jb_id j) (jb_version j) (jb_attempts j + 1) (failure_text err) (jb_error_history j) s =
      (Inr (settled_row outcome err fraction (clock s) j), put_row job_table (settled_row outcome err fraction (clock s) j) s)"
      using job_locked [OF q only, of ?f] c row by (simp add: mark_dead_lettered_def and_then_def eff_simps)
    with run dead have "r = Inr ()" "t = put_row job_table (settled_row outcome err fraction (clock s) j) s"
      by (simp_all add: settle_job_def and_then_def eff_simps)
    with c q show ?thesis by (simp add: quiet_def)
  qed
qed

lemma handler_on_running:
  assumes "quiet s" "only_row job_table j s" "check_job s j = None" "wc_parse_uuid cfg i = Some (jb_id j)"
    and "polite_handlers handlers"
  defines "j1 \<equiv> running_row (wc_hostname cfg) (clock s) j"
  shows "\<exists>outcome err u. run_handler cfg handlers j1 (put_row job_table j1 s) = (Inr (outcome, err), u) \<and>
    process_one R cfg handlers fraction i s = settle_job R cfg fraction j1 outcome err u \<and>
    t_jobs u = t_jobs (put_row job_table j1 s) \<and> quiet u \<and> only_row job_table j1 u \<and> check_job u j1 = None"
proof -
  let ?s1 = "put_row job_table j1 s"
  have q: "quiet ?s1" and o: "only_row job_table j1 ?s1" and c: "check_job ?s1 j1 = None"
    using assms(1,3) only_put_job [OF assms(2), of j1] by (auto simp: quiet_def j1_def running_row_def check_job_None)
  obtain outcome err u where h: "run_handler cfg handlers j1 ?s1 = (Inr (outcome, err), u)"
    using run_handler_Inr [of cfg handlers j1 ?s1] by blast
  have "polite (run_handler cfg handlers j1)" by (rule polite_run_handler [OF assms(5)])
  note f = politeD [OF this q h]
  have "process_one R cfg handlers fraction i s = settle_job R cfg fraction j1 outcome err u"
    using load_job_row [OF assms(1,2,4)] mark_running_row [OF assms(1-3), of "wc_hostname cfg"] h
    by (simp add: process_one_def execute_job_def handle_def and_then_def eff_simps j1_def)
  with h f o c show ?thesis by (auto simp: only_row_def)
qed

lemma process_one_settled:
  assumes "quiet s" "only_row job_table j s" "check_job s j = None" "wc_parse_uuid cfg i = Some (jb_id j)"
    and "polite_handlers handlers" and "polite_client R"
    and "jb_attempts j < jb_max_attempts j"
    and "process_one R cfg handlers fraction i s = (r, t)"
  shows "\<exists>outcome err u j'.
    run_handler cfg handlers (running_row (wc_hostname cfg) (clock s) j)
      (put_row job_table (running_row (wc_hostname cfg) (clock s) j) s) = (Inr (outcome, err), u) \<and>
    j' = settled_row outcome err fraction (clock u) (running_row (wc_hostname cfg) (clock s) j) \<and>
    t_jobs t = map (\<lambda>y. if jb_id y = jb_id j then j' else y) (t_jobs s) \<and>
    jb_version j' = jb_version j + 2 \<and> check_job t j' = None \<and> quiet t \<and>
    (outcome \<or> jb_max_attempts j \<le> jb_attempts j + 1 \<longrightarrow> r = Inr ())"
proof -
  let ?j1 = "running_row (wc_hostname cfg) (clock s) j"
  obtain outcome err u where u: "run_handler cfg handlers ?j1 (put_row job_table ?j1 s) = (Inr (outcome, err), u)"
    "settle_job R cfg fraction ?j1 outcome err u = (r, t)" "t_jobs u = t_jobs (put_row job_table ?j1 s)"
    "quiet u" "only_row job_table ?j1 u" "check_job u ?j1 = None"
    using handler_on_running [OF assms(1-5)] assms(8) by metis
  let ?j2 = "settled_row outcome err fraction (clock u) ?j1"
  have settled: "t_jobs t = t_jobs (put_row job_table ?j2 u) \<and> quiet t \<and>
      (\<forall>x. check_job u x = None \<longrightarrow> check_job t x = None) \<and> check_job t ?j2 = None \<and>
      (outcome \<or> jb_max_attempts ?j1 \<le> jb_attempts ?j1 + 1 \<longrightarrow> r = Inr ())"
    by (rule settle_job_row [OF u(4-6) assms(6) _ u(2)]) (use assms(7) in simp)
  moreover have "t_jobs (put_row job_table ?j2 u) = map (\<lambda>y. if jb_id y = jb_id j then ?j2 else y) (t_jobs s)"
    using u(3) by (simp add: comp_def)
  moreover have "jb_version ?j2 = jb_version j + 2"
    by (simp add: settled_row_def failed_row_def running_row_def)
  ultimately show ?thesis using u(1) by (intro exI [of _ outcome] exI [of _ err] exI [of _ u] exI [of _ ?j2]) simp
qed

text \<open>
  C29. \<open>_process_one\<close> on a delivered job, the network quiet and the handler and Redis leaving the jobs
  table alone: whatever the handler does, the row ends \<open>succeeded\<close>, \<open>retrying\<close> or \<open>dead_lettered\<close> by its
  outcome and the attempts left, two versions later, and is valid for the table's constraints; no other
  row changes. Unless the job is to be retried, the call returns.
\<close>

theorem process_one_settles:
  assumes "quiet s" "only_row job_table j s" "check_job s j = None" "wc_parse_uuid cfg i = Some (jb_id j)"
    and "polite_handlers handlers" and "polite_client R"
    and "jb_attempts j < jb_max_attempts j"
    and "process_one R cfg handlers fraction i s = (r, t)"
  shows "\<exists>outcome err u j'.
    run_handler cfg handlers (running_row (wc_hostname cfg) (clock s) j)
      (put_row job_table (running_row (wc_hostname cfg) (clock s) j) s) = (Inr (outcome, err), u) \<and>
    j' = settled_row outcome err fraction (clock u) (running_row (wc_hostname cfg) (clock s) j) \<and>
    t_jobs t = map (\<lambda>y. if jb_id y = jb_id j then j' else y) (t_jobs s) \<and>
    jb_version j' = jb_version j + 2 \<and> check_job t j' = None \<and> quiet t \<and>
    (outcome \<or> jb_max_attempts j \<le> jb_attempts j + 1 \<longrightarrow> r = Inr ())"
  by (rule process_one_settled [OF assms])

section \<open>Termination\<close>

text \<open>The state after delivering the job once per element of \<open>fs\<close>, the back-off's draws.\<close>

fun process_times ::
  "'z job_db_scheme redis_client \<Rightarrow> 'z job_db_scheme worker_config \<Rightarrow> 'z job_db_scheme handlers \<Rightarrow> string \<Rightarrow>
   rat list \<Rightarrow> 'z job_db_scheme \<Rightarrow> 'z job_db_scheme" where
  "process_times R cfg handlers i [] s = s"
| "process_times R cfg handlers i (f # fs) s =
     process_times R cfg handlers i fs (snd (process_one R cfg handlers f i s))"

definition job_over :: "uuid \<Rightarrow> 'z job_db_scheme \<Rightarrow> bool" where
  "job_over i s \<longleftrightarrow> (\<exists>j\<in>set (t_jobs s). jb_id j = i \<and> jb_status j \<in> {''succeeded'', ''dead_lettered''})"

text \<open>
  C30. A job cannot be retried for ever: delivered as often as it has attempts left, whatever its handler
  does and whatever delays the back-off draws, it is \<open>succeeded\<close> or \<open>dead_lettered\<close> after one of those
  deliveries.
\<close>

theorem jobs_terminate:
  assumes "quiet s" "only_row job_table j s" "check_job s j = None" "wc_parse_uuid cfg i = Some (jb_id j)"
    and "polite_handlers handlers" and "polite_client R" and "jb_attempts j < jb_max_attempts j"
    and "length fs = nat (jb_max_attempts j - jb_attempts j)"
  shows "\<exists>k \<le> length fs. job_over (jb_id j) (process_times R cfg handlers i (take k fs) s)"
  using assms(1-4,7,8)
proof (induction fs arbitrary: s j)
  case Nil
  then show ?case by simp
next
  case (Cons f fs)
  obtain r t where run: "process_one R cfg handlers f i s = (r, t)" by (cases "process_one R cfg handlers f i s")
  obtain outcome err now j' where j':
    "j' = settled_row outcome err f now (running_row (wc_hostname cfg) (clock s) j)"
    "t_jobs t = map (\<lambda>y. if jb_id y = jb_id j then j' else y) (t_jobs s)" "check_job t j' = None" "quiet t"
    using process_one_settled [OF Cons.prems(1-4) assms(5,6) Cons.prems(5) run]
    by (elim exE conjE) (rule that, assumption+)
  have id: "jb_id j' = jb_id j" using j'(1) by simp
  have in_t: "j' \<in> set (t_jobs t)"
    using image_eqI [OF refl only_row_in [OF Cons.prems(2)], of "\<lambda>y. if jb_id y = jb_id j then j' else y"] j'(2) by simp
  have only: "only_row job_table j' t"
    using only_put_job [OF Cons.prems(2) id] j'(2) id by (simp add: only_row_def)
  consider (over) "jb_status j' \<in> {''succeeded'', ''dead_lettered''}"
    | (again) "jb_attempts j' = jb_attempts j + 1" "jb_attempts j + 1 < jb_max_attempts j"
    unfolding j'(1) settled_fields running_fields by (cases outcome; cases "jb_attempts j + 1 < jb_max_attempts j") simp_all
  then show ?case
  proof cases
    case over
    then have "job_over (jb_id j) t" using in_t id by (auto simp: job_over_def)
    then show ?thesis using run by (intro exI [of _ 1]) simp
  next
    case again
    have max: "jb_max_attempts j' = jb_max_attempts j" using j'(1) by simp
    have "\<exists>k\<le>length fs. job_over (jb_id j') (process_times R cfg handlers i (take k fs) t)"
    proof (rule Cons.IH [OF j'(4) only j'(3)])
      show "wc_parse_uuid cfg i = Some (jb_id j')" using Cons.prems(4) id by simp
      show "jb_attempts j' < jb_max_attempts j'" using again max by simp
      show "length fs = nat (jb_max_attempts j' - jb_attempts j')" using Cons.prems(6) again(1) max by simp
    qed
    then obtain k where "k \<le> length fs" "job_over (jb_id j) (process_times R cfg handlers i (take k fs) t)"
      using id by auto
    then show ?thesis using run by (intro exI [of _ "Suc k"]) simp
  qed
qed

end
