(* ===== verification/JobHandlers.thy ===== *)
theory JobHandlers imports JobRuns RedisMemory Samples
begin

text \<open>
  The handlers of \<open>jobs/handlers.py\<close> leave the jobs table to the worker: with them, what \<open>JobRuns\<close> says
  of a delivered job holds of the program's own task types. The concrete jobs of the witnesses.
\<close>

section \<open>The services leave the jobs alone\<close>

definition jobs_kept :: "job_record list \<Rightarrow> uuid set \<Rightarrow> uuid set \<Rightarrow> 'z job_db_scheme \<Rightarrow> bool" where
  "jobs_kept J A B s \<longleftrightarrow> t_jobs s = J \<and> A \<subseteq> rq_id ` set (t_requests s) \<and> B \<subseteq> pr_id ` set (t_profiles s)"

lemma job_frame_split: "job_frame J A B s \<longleftrightarrow> quiet s \<and> jobs_kept J A B s"
  by (auto simp: job_frame_def jobs_kept_def)

lemma net_stable_jobs_kept: "net_stable (jobs_kept J A B)"
  by (simp add: net_stable_def jobs_kept_def)

lemma kept_same_rows:
  "jobs_kept J A B s \<Longrightarrow> t_jobs t = t_jobs s \<Longrightarrow> rq_id ` set (t_requests t) = rq_id ` set (t_requests s) \<Longrightarrow>
    t_profiles t = t_profiles s \<Longrightarrow> jobs_kept J A B t"
  by (simp add: jobs_kept_def)

lemma kept_statements:
  "preserves (jobs_kept J A B) (insert_stmt audit_table mk1)" "preserves (jobs_kept J A B) (insert_stmt notification_table mk2)"
  "preserves (jobs_kept J A B) (insert_stmt definition_table mk3)"
  "preserves (jobs_kept J A B) (update_stmt notification_table p f)"
  "preserves (jobs_kept J A B) (update_stmt definition_table q g)" "preserves (jobs_kept J A B) (delete_stmt definition_table d ref)"
  "preserves (jobs_kept J A B) (update_stmt stage_table p' f')"
  by (auto simp: preserves_def insert_stmt_def update_stmt_def delete_stmt_def Let_def
      intro: kept_same_rows split: option.splits)

lemma kept_request_update:
  "(\<And>x. rq_id (h x) = rq_id x) \<Longrightarrow> preserves (jobs_kept J A B) (update_stmt request_table q h)"
  by (simp add: preserves_def update_stmt_def Let_def jobs_kept_def keys_of_update
      split: option.splits)

lemmas kept_flow = pres_flow pres_calls net_stable_jobs_kept preserves_insert_row
  preserves_update_with_optimistic_lock preserves_execute preserves_single_row kept_statements kept_request_update

lemma kept_rows:
  "preserves (jobs_kept J A B) (escalate_stage_row i v a r)" "preserves (jobs_kept J A B) (soft_delete i v u)"
  "preserves (jobs_kept J A B) (update_editable_fields i v ti' de' dp')"
  "preserves (jobs_kept J A B) (record_event act au ar am ac)"
  unfolding escalate_stage_row_def soft_delete_def update_editable_fields_def record_event_def
  by (auto intro!: kept_flow simp: set_if_given_id)

lemma kept_definition_rows:
  "preserves (jobs_kept J A B) (create_definition_row ty w doc u c)" "preserves (jobs_kept J A B) (update_inactive_definition i w doc)"
  "preserves (jobs_kept J A B) (delete_inactive_definition i c)" "preserves (jobs_kept J A B) (activate_definition_row i ty w c)"
  unfolding create_definition_row_def update_inactive_definition_def delete_inactive_definition_def
    activate_definition_row_def deactivate_previous_definition_def find_active_for_request_type_def select_stmt_def
  by (auto intro!: kept_flow split: list.splits option.splits)

lemma kept_notify: "preserves (jobs_kept J A B) (create_and_dispatch cfg i r ty m)"
  unfolding create_and_dispatch_def effective_preference_def get_preferences_for_user_def
    create_notification_def attempt_email_dispatch_def mark_email_sent_def update_notification_def
  by (auto split: prod.splits option.splits sum.splits intro!: kept_flow)

interpretation jobs_apart: side_invariant "jobs_kept J A B :: 'z job_db_scheme \<Rightarrow> bool"
  by unfold_locales (auto simp: same_data_def net_stableD [OF net_stable_jobs_kept]
      intro: kept_rows kept_definition_rows kept_notify)

lemma politeI: "preserves quiet m \<Longrightarrow> (\<And>J A B. preserves (jobs_kept J A B) m) \<Longrightarrow> polite m"
  unfolding polite_def preserves_def job_frame_split by blast

lemma polite_services:
  "polite (service_escalate_stage cfg i)" "polite (notify_reminder ncfg u r m)"
  unfolding notify_reminder_def
  by (intro politeI quiet_ops.escalate jobs_apart.escalate quiet_notify kept_notify)+

lemma polite_TASK_HANDLERS:
  assumes "\<And>a b c. polite (wc_send_email cfg a b c)" "\<And>p. polite (wc_send_invitation cfg p)"
  shows "polite_handlers (TASK_HANDLERS cfg)"
proof -
  have "polite (handle_send_email cfg p)" "polite (handle_send_invitation_email cfg p)"
    "polite (handle_escalate_stage cfg p)" "polite (handle_send_reminder cfg p)" for p
    unfolding handle_send_email_def handle_send_invitation_email_def handle_escalate_stage_def handle_send_reminder_def
    by (intro polite_flow polite_services assms)+
  then show ?thesis by (auto simp: polite_handlers_def TASK_HANDLERS_def split: if_splits)
qed

section \<open>A worker with one job\<close>

record job_system = job_db +
  js_memory :: memory

definition system_redis :: "job_system redis_client" where
  "system_redis = memory_redis js_memory (\<lambda>m s. s\<lparr>js_memory := m\<rparr>)"

lemma polite_system_redis: "polite_client system_redis"
  by (simp add: polite_client_def polite_def preserves_def push_delayed_def system_redis_def memory_redis_def
      job_frame_def quiet_def)

definition system_of :: "job_record list \<Rightarrow> job_system" where
  "system_of js = \<lparr>t_profiles = t_profiles (sample_db []), t_definitions = t_definitions (sample_db []),
     t_requests = t_requests (sample_db []), t_stages = [], t_audit = [], t_notifications = [], t_preferences = [],
     next_uuid = 1000, clock = 10000000000, net = [], t_jobs = js, js_memory = empty_memory\<rparr>"

definition sample_job :: "uuid \<Rightarrow> string \<Rightarrow> int \<Rightarrow> job_record" where
  "sample_job i status attempts =
     \<lparr>jb_id = i, jb_task_type = TASK_SEND_EMAIL, jb_queue_name = ''default'', jb_priority = ''normal'', jb_status = status,
      jb_payload = [], jb_attempts = attempts, jb_max_attempts = 2, jb_last_error = None, jb_error_history = [],
      jb_scheduled_for = None, jb_started_at = Some 0, jb_finished_at = None, jb_locked_by = None,
      jb_request_id = None, jb_actor_id = None, jb_version = 1, jb_created_at = 0\<rparr>"

definition sample_worker :: "job_system worker_config" where
  "sample_worker = \<lparr>wc_services = sample_config, wc_parse_uuid = (\<lambda>t. if t = ''50'' then Some 50 else None),
     wc_show_uuid = (\<lambda>_. ''50''), wc_smtp_enabled = False, wc_send_email = (\<lambda>_ _ _. return True),
     wc_send_invitation = (\<lambda>_. return True), wc_describe = (\<lambda>_. ''error''), wc_hostname = ''host''\<rparr>"

lemma sample_handlers_polite: "polite_handlers (TASK_HANDLERS sample_worker)"
  by (rule polite_TASK_HANDLERS) (simp_all add: sample_worker_def polite_flow)

lemma sample_job_fits:
  "status \<in> {''queued'', ''running'', ''retrying'', ''succeeded'', ''dead_lettered''} \<Longrightarrow> 0 \<le> n \<Longrightarrow> n \<le> 2 \<Longrightarrow>
    check_job (system_of js) (sample_job i status n) = None"
  by (auto simp: check_job_None sample_job_def)

lemma sample_system:
  "quiet (system_of js)" "only_row job_table (sample_job 50 st n) (system_of [sample_job 50 st n])"
  "wc_parse_uuid sample_worker ''50'' = Some (jb_id (sample_job 50 st n))"
  by (simp_all add: quiet_def system_of_def only_row_def sample_job_def sample_worker_def)

theorem process_one_settles_witness:
  "\<exists>j'. t_jobs (snd (process_one system_redis sample_worker (TASK_HANDLERS sample_worker) (1 / 2) ''50''
      (system_of [sample_job 50 ''queued'' 0]))) = [j'] \<and> jb_version j' = 3"
proof -
  let ?j = "sample_job 50 ''queued'' 0"
  let ?p = "process_one system_redis sample_worker (TASK_HANDLERS sample_worker) (1 / 2) ''50'' (system_of [?j])"
  from process_one_settles [of "system_of [?j]" ?j sample_worker "''50''" "TASK_HANDLERS sample_worker" system_redis
      "1 / 2" "fst ?p" "snd ?p"]
  obtain j' where "t_jobs (snd ?p) = map (\<lambda>y. if jb_id y = jb_id ?j then j' else y) (t_jobs (system_of [?j]))"
    "jb_version j' = jb_version ?j + 2"
    using sample_system sample_job_fits polite_system_redis sample_handlers_polite by (auto simp: sample_job_def)
  then show ?thesis by (auto simp: system_of_def sample_job_def)
qed

theorem jobs_terminate_witness:
  "\<exists>k \<le> length [1 / 2 :: rat, 1 / 2]. job_over 50 (process_times system_redis sample_worker (TASK_HANDLERS sample_worker) ''50''
      (take k [1 / 2, 1 / 2]) (system_of [sample_job 50 ''queued'' 0]))"
  using jobs_terminate [of "system_of [sample_job 50 ''queued'' 0]" "sample_job 50 ''queued'' 0" sample_worker "''50''"
      "TASK_HANDLERS sample_worker" system_redis "[1 / 2, 1 / 2]"]
    sample_system sample_job_fits polite_system_redis sample_handlers_polite by (simp add: sample_job_def)

end
