(* ===== verification/JobRecovery.thy ===== *)
theory JobRecovery imports JobHandlers
begin

text \<open>
  The reaper of \<open>scheduler/stuck_job_reaper_job.py\<close>: which rows it recovers, to what, and which it never
  looks at; and the delivery of a job whose attempts are used up, which the table's constraint refuses.
\<close>

section \<open>One stuck job\<close>

definition recovered :: "rat \<Rightarrow> timestamp \<Rightarrow> job_record \<Rightarrow> job_record" where
  "recovered fraction now j = settled_row False (Some RECOVERY_ERROR_MESSAGE) fraction now j"

definition stuck :: "timestamp \<Rightarrow> job_record \<Rightarrow> bool" where
  "stuck cutoff j \<longleftrightarrow> stuck_running cutoff j \<or> stuck_queued cutoff j"

lemma job_refused:
  assumes "quiet s" "only_row job_table j s"
    and "check_job s ((f j)\<lparr>jb_version := jb_version j + 1\<rparr>) = Some code"
  shows "update_with_optimistic_lock job_table (jb_id j) (jb_version j) f s =
    (Inl (Raised (Db (translate_api_error ''update_with_optimistic_lock'' ''jobs'' code ''''))), s)"
proof -
  let ?U = "update_stmt job_table (\<lambda>x. jb_id x = jb_id j \<and> jb_version x = jb_version j) (\<lambda>r. (f r)\<lparr>jb_version := jb_version j + 1\<rparr>)"
  have "filter (\<lambda>x. jb_id x = jb_id j \<and> jb_version x = jb_version j) (t_jobs s) =
      filter (\<lambda>x. jb_version x = jb_version j) (filter (\<lambda>x. jb_id x = jb_id j) (t_jobs s))"
    by (simp add: conj_commute)
  then have "filter (\<lambda>x. jb_id x = jb_id j \<and> jb_version x = jb_version j) (t_jobs s) = [j]"
    using assms(2) by (simp only: job_only_jobs) simp
  then have "?U s = (Inl (Raised (Client (APIError code ''''))), s)"
    using assms(3) by (simp add: update_stmt_def Let_def)
  with assms(1) show ?thesis unfolding jobs.update_locked
    by (simp add: and_then_def execute_def retry_call_def handle_def attempt_def TRANSIENT_RETRY_POLICY_def
        numeral_3_eq_3 eff_simps quiet_def del: translate_api_error.simps)
qed

lemma used_up_refused:
  assumes "check_job s j = None" "jb_max_attempts j \<le> jb_attempts j"
    and "jb_attempts j' = jb_attempts j + 1" "jb_max_attempts j' = jb_max_attempts j" "jb_priority j' = jb_priority j"
      "jb_status j' = ''dead_lettered''" "0 < jb_version j'"
  shows "check_job s j' = Some check_violation"
  using assms(2-) assms(1) [unfolded check_job_None] by (simp add: check_job_def)

lemma settle_used_up:
  assumes "quiet s" "only_row job_table j s" "check_job s j = None" "jb_max_attempts j \<le> jb_attempts j"
  shows "settle_job R cfg fraction j False err s =
    (Inl (Raised (Db (ConstraintViolationError ''jobs'' ''check''))), s)"
proof -
  let ?f = "\<lambda>x. x\<lparr>jb_status := ''dead_lettered'', jb_attempts := jb_attempts j + 1, jb_last_error := Some (failure_text err),
        jb_error_history := append_error_history (jb_error_history j) (jb_attempts j + 1) (failure_text err) (clock s),
        jb_finished_at := Some (clock s)\<rparr>"
  have "0 < jb_version j" using assms(3) by (simp add: check_job_None)
  then have "check_job s ((?f j)\<lparr>jb_version := jb_version j + 1\<rparr>) = Some check_violation"
    using assms(3,4) by (intro used_up_refused) simp_all
  from job_refused [OF assms(1,2), of ?f, OF this] assms(4) show ?thesis
    by (simp add: settle_job_def mark_dead_lettered_def and_then_def eff_simps check_violation_def)
qed

text \<open>
  A job whose attempts are used up (a dead-lettered one delivered once more: nothing checks the status
  of a delivered job) and whose handler reports failure: the row written to dead-letter it has more
  attempts than the table's CHECK allows, so the write is refused, the exception leaves \<open>_process_one\<close>
  and with it the worker's loop, and the row stays \<open>running\<close>.
\<close>

theorem exhausted_job_crashes_worker:
  assumes "quiet s" "only_row job_table j s" "check_job s j = None" "wc_parse_uuid cfg i = Some (jb_id j)"
    and "polite_handlers handlers" and "jb_attempts j = jb_max_attempts j"
    and "run_handler cfg handlers (running_row (wc_hostname cfg) (clock s) j)
        (put_row job_table (running_row (wc_hostname cfg) (clock s) j) s) = (Inr (False, err), u)"
    and "record_heartbeat R (wc_hostname cfg) s0 = (Inr hb, s1)"
    and "dequeue R queue_names (priority_order iteration) DEQUEUE_TIMEOUT_SECONDS s1 = (Inr (Some i), s)"
  shows "\<exists>t. worker_iteration R cfg handlers fraction queue_names iteration s0 =
      (Inl (Raised (Db (ConstraintViolationError ''jobs'' ''check''))), t) \<and>
    t_jobs t = map (\<lambda>y. if jb_id y = jb_id j then running_row (wc_hostname cfg) (clock s) j else y) (t_jobs s)"
proof -
  let ?j1 = "running_row (wc_hostname cfg) (clock s) j"
  obtain outcome err' u' where u': "run_handler cfg handlers ?j1 (put_row job_table ?j1 s) = (Inr (outcome, err'), u')"
    "process_one R cfg handlers fraction i s = settle_job R cfg fraction ?j1 outcome err' u'"
    "t_jobs u' = t_jobs (put_row job_table ?j1 s)" "quiet u'" "only_row job_table ?j1 u'" "check_job u' ?j1 = None"
    using handler_on_running [OF assms(1-5)] by metis
  from u'(1) assms(7) have "outcome = False" by simp
  with settle_used_up [OF u'(4-6)] assms(6) u'(2) have
    "process_one R cfg handlers fraction i s = (Inl (Raised (Db (ConstraintViolationError ''jobs'' ''check''))), u')" by simp
  with assms(8,9) u'(3) show ?thesis by (auto simp: worker_iteration_def and_then_def eff_simps)
qed

definition delivered_again :: job_system where
  "delivered_again = snd (push_ready system_redis ''default'' PriorityNormal ''50''
     (system_of [sample_job 50 ''dead_lettered'' 2]))"

definition after_dequeue :: "(exn + string option) \<times> job_system" where
  "after_dequeue = dequeue system_redis [''default''] (priority_order 1) DEQUEUE_TIMEOUT_SECONDS delivered_again"

lemma delivered_again:
  "fst after_dequeue = Inr (Some ''50'')" "net (snd after_dequeue) = []"
  "t_jobs (snd after_dequeue) = [sample_job 50 ''dead_lettered'' 2]" "check_job (snd after_dequeue) (sample_job 50 ''dead_lettered'' 2) = None"
  by code_simp+

theorem exhausted_job_crashes_worker_witness:
  "\<exists>t. worker_iteration system_redis sample_worker (TASK_HANDLERS sample_worker) (1 / 2) [''default''] 1 delivered_again =
      (Inl (Raised (Db (ConstraintViolationError ''jobs'' ''check''))), t) \<and>
    map jb_status (t_jobs t) = [''running'']"
proof -
  let ?j = "sample_job 50 ''dead_lettered'' 2"
  let ?s = "snd after_dequeue"
  have d: "dequeue system_redis [''default''] (priority_order 1) DEQUEUE_TIMEOUT_SECONDS delivered_again = (Inr (Some ''50''), ?s)"
    using delivered_again(1) unfolding after_dequeue_def by (metis prod.collapse)
  have h: "record_heartbeat system_redis (wc_hostname sample_worker) delivered_again = (Inr (), delivered_again)"
    by (simp add: record_heartbeat_def system_redis_def memory_redis_def)
  have run: "run_handler sample_worker (TASK_HANDLERS sample_worker) (running_row (wc_hostname sample_worker) now ?j) u =
      (Inr (False, None), u)" for now u
    by (simp add: run_handler_def TASK_HANDLERS_def sample_job_def handle_send_email_def sample_worker_def
        handle_def and_then_def eff_simps running_row_def)
  obtain t where "worker_iteration system_redis sample_worker (TASK_HANDLERS sample_worker) (1 / 2) [''default''] 1 delivered_again =
      (Inl (Raised (Db (ConstraintViolationError ''jobs'' ''check''))), t)"
    "t_jobs t = map (\<lambda>y. if jb_id y = jb_id ?j then running_row (wc_hostname sample_worker) (clock ?s) ?j else y) (t_jobs ?s)"
    using exhausted_job_crashes_worker [OF _ _ delivered_again(4) _ sample_handlers_polite _ run h d, of "1 / 2"]
      delivered_again(2,3) by (auto simp: quiet_def only_row_def sample_job_def sample_worker_def)
  then show ?thesis using delivered_again(3) by simp
qed

section \<open>The reaper's pass\<close>

lemma recover_settles:
  "wc_show_uuid cfg = show_uuid \<Longrightarrow> recover R show_uuid fraction j =
     handle (settle_job R cfg fraction j False (Some RECOVERY_ERROR_MESSAGE))
       (\<lambda>e. if is_concurrent_update e then return () else throw e)"
  by (simp add: recover_def settle_job_def failure_text_def RECOVERY_ERROR_MESSAGE_def Let_def)

text \<open>What recovering a row makes of the table.\<close>

definition after_recovery :: "rat \<Rightarrow> job_record \<Rightarrow> job_record \<Rightarrow> bool" where
  "after_recovery fraction j j' \<longleftrightarrow>
     (if jb_attempts j < jb_max_attempts j then \<exists>now. j' = recovered fraction now j else j' = j)"

lemma recover_row:
  assumes "quiet s" "only_row job_table j s" "check_job s j = None" "polite_client R"
    and "t = snd (recover R show_uuid fraction j s)"
  shows "quiet t \<and> (\<forall>x. check_job s x = None \<longrightarrow> check_job t x = None) \<and>
    (\<exists>j'. after_recovery fraction j j' \<and> jb_id j' = jb_id j \<and> check_job t j' = None \<and>
       t_jobs t = map (\<lambda>y. if jb_id y = jb_id j then j' else y) (t_jobs s))"
proof -
  obtain cfg :: "'a job_db_scheme worker_config" where cfg: "wc_show_uuid cfg = show_uuid"
    by (metis worker_config.select_convs(3))
  obtain r u where u: "settle_job R cfg fraction j False (Some RECOVERY_ERROR_MESSAGE) s = (r, u)"
    by (cases "settle_job R cfg fraction j False (Some RECOVERY_ERROR_MESSAGE) s")
  have t: "t = u"
    using assms(5) u by (auto simp: recover_settles [OF cfg] handle_def eff_simps split: sum.splits)
  show ?thesis
  proof (cases "jb_attempts j < jb_max_attempts j")
    case True
    with settle_job_row [OF assms(1-4) _ u] t show ?thesis
      by (intro conjI exI [of _ "recovered fraction (clock s) j"]) (auto simp: after_recovery_def recovered_def)
  next
    case False
    have "map (\<lambda>y. if jb_id y = jb_id j then j else y) (t_jobs s) = t_jobs s"
      by (rule map_idI) (use only_row_unique [OF assms(2)] in auto)
    moreover have "u = s" using settle_used_up [OF assms(1-3), of R cfg fraction "Some RECOVERY_ERROR_MESSAGE"] False u by simp
    ultimately show ?thesis using assms(1,3) t False by (intro conjI exI [of _ j]) (simp_all add: after_recovery_def)
  qed
qed

lemma recover_all:
  assumes "quiet s" "distinct (map jb_id (t_jobs s))" "\<forall>j\<in>set (t_jobs s). check_job s j = None" "polite_client R"
    and "distinct xs" "set xs \<subseteq> set (t_jobs s)"
    and "t = snd (run_over_items (\<lambda>j. recover R show_uuid (fraction (jb_id j)) j) xs s)"
  shows "list_all2 (\<lambda>j j'. if j \<in> set xs then after_recovery (fraction (jb_id j)) j j' else j' = j) (t_jobs s) (t_jobs t)"
  using assms(1-3,5-7)
proof (induction xs arbitrary: s)
  case Nil
  then show ?case by (simp add: list_all2_refl eff_simps)
next
  case (Cons x xs)
  define u where "u = snd (recover R show_uuid (fraction (jb_id x)) x s)"
  have x: "x \<in> set (t_jobs s)" using Cons.prems(5) by simp
  have only: "only_row job_table x s" using Cons.prems(2) x by (intro distinct_only_row) simp_all
  obtain x' where u: "quiet u" "\<forall>y. check_job s y = None \<longrightarrow> check_job u y = None" "after_recovery (fraction (jb_id x)) x x'"
    "jb_id x' = jb_id x" "t_jobs u = map (\<lambda>y. if jb_id y = jb_id x then x' else y) (t_jobs s)"
    "check_job u x' = None"
    using recover_row [OF Cons.prems(1) only bspec [OF Cons.prems(3) x] assms(4) u_def] by blast
  let ?g = "\<lambda>y. if jb_id y = jb_id x then x' else y"
  have ids: "map jb_id (t_jobs u) = map jb_id (t_jobs s)" using u(4,5) by simp
  have same: "y = x" if "y \<in> set (t_jobs s)" "jb_id y = jb_id x" for y
    using only_row_unique [OF only] that by simp
  have kept: "y \<in> set (t_jobs u)" if "y \<in> set xs" for y
  proof -
    from that Cons.prems(4,5) have "y \<in> set (t_jobs s)" "y \<noteq> x" by auto
    then have "jb_id y \<noteq> jb_id x" using same by blast
    with \<open>y \<in> set (t_jobs s)\<close> show ?thesis by (force simp: u(5))
  qed
  have t: "t = snd (run_over_items (\<lambda>j. recover R show_uuid (fraction (jb_id j)) j) xs u)"
    using Cons.prems(6) by (auto simp: u_def and_then_def handle_def eff_simps split: prod.splits sum.splits)
  have "list_all2 (\<lambda>j j'. if j \<in> set xs then after_recovery (fraction (jb_id j)) j j' else j' = j) (t_jobs u) (t_jobs t)"
  proof (rule Cons.IH [OF u(1) _ _ _ _ t])
    show "distinct (map jb_id (t_jobs u))" unfolding ids by (rule Cons.prems(2))
    show "\<forall>j\<in>set (t_jobs u). check_job u j = None" using u(2,6) Cons.prems(3) by (auto simp: u(5))
    show "distinct xs" "set xs \<subseteq> set (t_jobs u)" using Cons.prems(4) kept by auto
  qed
  then have step: "list_all2 (\<lambda>j j'. if ?g j \<in> set xs then after_recovery (fraction (jb_id (?g j))) (?g j) j' else j' = ?g j)
      (t_jobs s) (t_jobs t)" by (simp only: u(5) list_all2_map1)
  have "x' \<notin> set xs" using same [of x'] u(4) Cons.prems(4,5) by auto
  from step show ?case
    by (rule list.rel_mono_strong) (use same u(3) \<open>x' \<notin> set xs\<close> in \<open>auto split: if_splits\<close>)
qed

text \<open>
  C32. A pass of the reaper, the network quiet and Redis leaving the jobs table alone (a push may fail): the
  rows that are stuck and have attempts left are made \<open>retrying\<close> or \<open>dead_lettered\<close>, exactly as a failed
  run would; every other row is as it was: in particular a \<open>queued\<close> row with a time scheduled and a
  \<open>retrying\<close> row, however old, whose entry in Redis was never written, and a stuck row whose attempts are
  used up.
\<close>

theorem reaper_recovers_stuck_rows:
  assumes "quiet s" "distinct (map jb_id (t_jobs s))" "\<forall>j\<in>set (t_jobs s). check_job s j = None" "polite_client R"
    and "t = snd (reap R show_uuid threshold_minutes fraction s)"
  shows "list_all2 (\<lambda>j j'.
      if (stuck_running (clock s - threshold_minutes * 60000000) j \<or> stuck_queued (clock s - threshold_minutes * 60000000) j) \<and>
        jb_attempts j < jb_max_attempts j
      then \<exists>now. j' = settled_row False (Some RECOVERY_ERROR_MESSAGE) (fraction (jb_id j)) now j
      else j' = j) (t_jobs s) (t_jobs t)"
proof -
  let ?cutoff = "clock s - threshold_minutes * 60000000"
  let ?xs = "sort_key (\<lambda>j. the (jb_started_at j)) (filter (stuck_running ?cutoff) (t_jobs s)) @
    sort_key jb_created_at (filter (stuck_queued ?cutoff) (t_jobs s))"
  have q: "net s = []" using assms(1) by (simp add: quiet_def)
  have t: "t = snd (run_over_items (\<lambda>j. recover R show_uuid (fraction (jb_id j)) j) ?xs s)"
    using assms(5) by (simp add: reap_def list_stuck_running_def list_stuck_queued_def and_then_def eff_simps Let_def
        execute_gets_reliable [OF q])
  have d: "distinct ?xs" using assms(2) by (auto simp: distinct_map stuck_running_def stuck_queued_def)
  have "list_all2 (\<lambda>j j'. if j \<in> set ?xs then after_recovery (fraction (jb_id j)) j j' else j' = j) (t_jobs s) (t_jobs t)"
    by (rule recover_all [OF assms(1-4) d _ t]) auto
  then show ?thesis
    by (rule list.rel_mono_strong) (auto simp: after_recovery_def recovered_def split: if_splits)
qed

theorem reaper_recovers_stuck_rows_witness:
  "\<exists>a b c. t_jobs (snd (reap system_redis (\<lambda>_. ''50'') 10 (\<lambda>_. 1 / 2)
      (system_of [sample_job 50 ''running'' 0, sample_job 51 ''retrying'' 0, sample_job 52 ''running'' 2]))) = [a, b, c] \<and>
     jb_status a = ''retrying'' \<and> b = sample_job 51 ''retrying'' 0 \<and> c = sample_job 52 ''running'' 2"
proof -
  let ?js = "[sample_job 50 ''running'' 0, sample_job 51 ''retrying'' 0, sample_job 52 ''running'' 2]"
  have "distinct (map jb_id (t_jobs (system_of ?js)))" by (simp add: system_of_def sample_job_def)
  moreover have "\<forall>j\<in>set (t_jobs (system_of ?js)). check_job (system_of ?js) j = None"
    using sample_job_fits [of "''running''" 0 ?js 50] sample_job_fits [of "''retrying''" 0 ?js 51]
      sample_job_fits [of "''running''" 2 ?js 52] by (simp add: system_of_def)
  moreover have "clock (system_of ?js) = 10000000000" "t_jobs (system_of ?js) = ?js" by (simp_all add: system_of_def)
  ultimately show ?thesis
    using reaper_recovers_stuck_rows [OF sample_system(1) [of ?js] _ _ polite_system_redis refl, where
        show_uuid = "\<lambda>_. ''50''" and threshold_minutes = 10 and fraction = "\<lambda>_. 1 / 2"]
    by (auto simp: list_all2_Cons1 sample_job_def stuck_running_def stuck_queued_def settled_row_def failed_row_def)
qed

end
