(* ===== verification/Scheduling.thy ===== *)
theory Scheduling imports Prelude
begin

text \<open>
  The scheduler's coordination: \<open>scheduler/registry.py\<close>, \<open>scheduler/distributed_lock.py\<close>,
  \<open>scheduler/leader_election.py\<close> and \<open>SchedulerCoordinator\<close> of \<open>scheduler/scheduler.py\<close>, step by step. The
  \<open>redis.lock.Lock\<close> objects are a parameter; a lock object is named by its instance and key. Instants are
  what the Redis server's clock shows.
\<close>

section \<open>The Redis lock\<close>

datatype lock_error = LockError | RedisFailure

type_synonym lock_obj = "nat \<times> string"

record 'r lock_client =
  lc_acquire :: "lock_obj \<Rightarrow> int \<Rightarrow> 'r \<Rightarrow> (lock_error + bool) \<times> 'r"
  lc_release :: "lock_obj \<Rightarrow> 'r \<Rightarrow> (lock_error + unit) \<times> 'r"
  lc_extend :: "lock_obj \<Rightarrow> int \<Rightarrow> 'r \<Rightarrow> (lock_error + bool) \<times> 'r"
  lc_owned :: "lock_obj \<Rightarrow> 'r \<Rightarrow> (lock_error + bool) \<times> 'r"

text \<open>\<open>RedisDistributedLock\<close>: no method raises.\<close>

definition lock_acquire :: "'r lock_client \<Rightarrow> int \<Rightarrow> lock_obj \<Rightarrow> 'r \<Rightarrow> bool \<times> 'r" where
  "lock_acquire R ttl_seconds obj r =
     (case lc_acquire R obj ttl_seconds r of (Inr acquired, r') \<Rightarrow> (acquired, r') | (Inl _, r') \<Rightarrow> (False, r'))"

definition lock_release :: "'r lock_client \<Rightarrow> lock_obj \<Rightarrow> 'r \<Rightarrow> 'r" where
  "lock_release R obj r = snd (lc_release R obj r)"

definition lock_extend :: "'r lock_client \<Rightarrow> lock_obj \<Rightarrow> int \<Rightarrow> 'r \<Rightarrow> bool \<times> 'r" where
  "lock_extend R obj additional_seconds r =
     (case lc_extend R obj additional_seconds r of (Inr extended, r') \<Rightarrow> (extended, r') | (Inl _, r') \<Rightarrow> (False, r'))"

definition lock_owned :: "'r lock_client \<Rightarrow> lock_obj \<Rightarrow> 'r \<Rightarrow> bool \<times> 'r" where
  "lock_owned R obj r = (case lc_owned R obj r of (Inr owned, r') \<Rightarrow> (owned, r') | (Inl _, r') \<Rightarrow> (False, r'))"

section \<open>JobRegistry\<close>

datatype scheduler_error =
    JobRegistrationError string string
  | SchedulerStartupError
  | SchedulerShutdownError

record registration =
  rg_interval_seconds :: int
  rg_enabled :: bool

type_synonym registry = "(string \<times> registration) list"

definition register :: "string \<Rightarrow> int \<Rightarrow> int option \<Rightarrow> bool \<Rightarrow> registry \<Rightarrow> scheduler_error + registry" where
  "register job_name job_interval interval_seconds enabled regs =
     (if map_of regs job_name \<noteq> None
      then Inl (JobRegistrationError job_name ''a job with this name is already registered.'')
      else Inr (regs @ [(job_name, \<lparr>rg_interval_seconds =
             (case interval_seconds of Some n \<Rightarrow> n | None \<Rightarrow> job_interval), rg_enabled = enabled\<rparr>)]))"

definition require_registered :: "string \<Rightarrow> registry \<Rightarrow> scheduler_error + registration" where
  "require_registered job_name regs =
     (case map_of regs job_name of
        None \<Rightarrow> Inl (JobRegistrationError job_name ''no job with this name is registered.'') | Some g \<Rightarrow> Inr g)"

definition unregister :: "string \<Rightarrow> registry \<Rightarrow> scheduler_error + registry" where
  "unregister job_name regs =
     (case require_registered job_name regs of Inl e \<Rightarrow> Inl e
      | Inr _ \<Rightarrow> Inr (filter (\<lambda>x. fst x \<noteq> job_name) regs))"

definition set_enabled :: "bool \<Rightarrow> string \<Rightarrow> registry \<Rightarrow> scheduler_error + registry" where
  "set_enabled b job_name regs =
     (case require_registered job_name regs of Inl e \<Rightarrow> Inl e
      | Inr _ \<Rightarrow> Inr (map (\<lambda>(n, g). if n = job_name then (n, g\<lparr>rg_enabled := b\<rparr>) else (n, g)) regs))"

definition is_registered :: "string \<Rightarrow> registry \<Rightarrow> bool" where
  "is_registered job_name regs \<longleftrightarrow> map_of regs job_name \<noteq> None"

definition list_registrations :: "bool \<Rightarrow> registry \<Rightarrow> registry" where
  "list_registrations enabled_only regs = (if enabled_only then filter (\<lambda>(n, g). rg_enabled g) regs else regs)"

section \<open>The coordinator of one instance\<close>

record execution_result =
  er_job_name :: string
  er_started_at :: int
  er_finished_at :: int
  er_success :: bool
  er_items_processed :: nat
  er_items_failed :: nat
  er_error_message :: "string option"

record job_statistics =
  js_run_count :: nat
  js_success_count :: nat
  js_failure_count :: nat
  js_skipped_overlap_count :: nat
  js_skipped_not_leader_count :: nat
  js_skipped_distributed_lock_count :: nat
  js_currently_running :: bool
  js_last_started_at :: "int option"
  js_last_finished_at :: "int option"
  js_last_duration :: "int option"
  js_last_error :: "string option"

definition fresh_statistics :: job_statistics where
  "fresh_statistics = \<lparr>js_run_count = 0, js_success_count = 0, js_failure_count = 0, js_skipped_overlap_count = 0,
     js_skipped_not_leader_count = 0, js_skipped_distributed_lock_count = 0, js_currently_running = False,
     js_last_started_at = None, js_last_finished_at = None, js_last_duration = None, js_last_error = None\<rparr>"

text \<open>
  Where a thread is in the runner that \<open>_make_runner\<close> builds; once it has the distributed lock, also the
  instant until which that lock was granted.
\<close>

datatype runner_pc =
    Idle
  | Fired string
  | Elected string
  | Locked string
  | Owning string int
  | Marked string int
  | Found string int
  | Ran string int "execution_result option"
  | Recorded string int
  | Cleared string int
  | Unlocking string

text \<open>
  \<open>co_locks\<close> has the in-process lock of every job, \<open>True\<close> when it is held; \<open>co_backend\<close> the interval of every
  job handed to APScheduler; \<open>co_lease\<close> the instant until which leadership was last granted.
\<close>

record coordinator =
  co_uses_election :: bool
  co_uses_redis :: bool
  co_is_leader :: bool
  co_lease :: int
  co_stopping :: bool
  co_registry :: registry
  co_stats :: "string \<rightharpoonup> job_statistics"
  co_locks :: "string \<rightharpoonup> bool"
  co_backend :: "string \<rightharpoonup> int"
  co_running :: bool
  co_threads :: "nat \<Rightarrow> runner_pc"

definition fresh_coordinator :: "bool \<Rightarrow> bool \<Rightarrow> coordinator" where
  "fresh_coordinator uses_election uses_redis = \<lparr>co_uses_election = uses_election, co_uses_redis = uses_redis,
     co_is_leader = False, co_lease = 0, co_stopping = False, co_registry = [], co_stats = Map.empty, co_locks = Map.empty,
     co_backend = Map.empty, co_running = False, co_threads = (\<lambda>_. Idle)\<rparr>"

definition job_lock_key :: "string \<Rightarrow> string" where "job_lock_key job_name = ''eah:scheduler:job-lock:'' @ job_name"
definition leader_key :: string where "leader_key = ''eah:scheduler:leader''"

definition add_backend_job :: "string \<Rightarrow> registration \<Rightarrow> coordinator \<Rightarrow> coordinator" where
  "add_backend_job job_name g c = c\<lparr>co_backend := (co_backend c)(job_name \<mapsto> rg_interval_seconds g)\<rparr>"

definition register_job :: "string \<Rightarrow> int \<Rightarrow> int option \<Rightarrow> bool \<Rightarrow> coordinator \<Rightarrow> scheduler_error + coordinator" where
  "register_job job_name job_interval interval_seconds enabled c =
     (case register job_name job_interval interval_seconds enabled (co_registry c) of
        Inl e \<Rightarrow> Inl e
      | Inr regs \<Rightarrow>
          (let c' = c\<lparr>co_registry := regs, co_stats := (co_stats c)(job_name \<mapsto> fresh_statistics),
                      co_locks := (co_locks c)(job_name \<mapsto> False)\<rparr> in
           if co_running c' \<and> enabled
           then (case require_registered job_name regs of Inl e \<Rightarrow> Inl e | Inr g \<Rightarrow> Inr (add_backend_job job_name g c'))
           else Inr c'))"

text \<open>Whether APScheduler starts and stops is its own affair: \<open>ok\<close>.\<close>

definition start :: "bool \<Rightarrow> coordinator \<Rightarrow> (scheduler_error option) \<times> coordinator" where
  "start ok c =
     (let c' = fold (\<lambda>(n, g). add_backend_job n g) (list_registrations True (co_registry c)) c in
      if ok then (None, c'\<lparr>co_running := True\<rparr>) else (Some SchedulerStartupError, c'))"

definition stop :: "bool \<Rightarrow> coordinator \<Rightarrow> (scheduler_error option) \<times> coordinator" where
  "stop ok c = (if ok then (None, c\<lparr>co_running := False\<rparr>) else (Some SchedulerShutdownError, c))"

definition enable_job :: "string \<Rightarrow> coordinator \<Rightarrow> scheduler_error + coordinator" where
  "enable_job job_name c =
     (case set_enabled True job_name (co_registry c) of Inl e \<Rightarrow> Inl e | Inr regs \<Rightarrow> Inr (c\<lparr>co_registry := regs\<rparr>))"

definition disable_job :: "string \<Rightarrow> coordinator \<Rightarrow> scheduler_error + coordinator" where
  "disable_job job_name c =
     (case set_enabled False job_name (co_registry c) of Inl e \<Rightarrow> Inl e | Inr regs \<Rightarrow> Inr (c\<lparr>co_registry := regs\<rparr>))"

definition get_statistics :: "string \<Rightarrow> coordinator \<Rightarrow> job_statistics option" where
  "get_statistics job_name c = co_stats c job_name"

section \<open>The runner\<close>

definition update_stats :: "string \<Rightarrow> (job_statistics \<Rightarrow> job_statistics) \<Rightarrow> coordinator \<Rightarrow> coordinator" where
  "update_stats job_name f c = c\<lparr>co_stats := (co_stats c)(job_name := map_option f (co_stats c job_name))\<rparr>"

definition record_result :: "execution_result \<Rightarrow> job_statistics \<Rightarrow> job_statistics" where
  "record_result result s =
     (let s' = s\<lparr>js_run_count := js_run_count s + 1\<rparr>;
          s'' = (if er_success result then s'\<lparr>js_success_count := js_success_count s' + 1, js_last_error := None\<rparr>
                 else s'\<lparr>js_failure_count := js_failure_count s' + 1, js_last_error := er_error_message result\<rparr>) in
      s''\<lparr>js_last_started_at := Some (er_started_at result), js_last_finished_at := Some (er_finished_at result),
          js_last_duration := Some (er_finished_at result - er_started_at result)\<rparr>)"

definition set_lock :: "string \<Rightarrow> bool \<Rightarrow> coordinator \<Rightarrow> coordinator" where
  "set_lock job_name held c = c\<lparr>co_locks := (co_locks c)(job_name \<mapsto> held)\<rparr>"

text \<open>
  One step of a thread of instance \<open>i\<close> in \<open>_run\<close>. \<open>ttl\<close> is the job lock's, \<open>now\<close> what the server's clock shows,
  \<open>result\<close> what the job's \<open>run\<close> returns, \<open>None\<close> when it raises.
\<close>

fun runner_step ::
  "'r lock_client \<Rightarrow> ('r \<Rightarrow> int) \<Rightarrow> int \<Rightarrow> nat \<Rightarrow> execution_result option \<Rightarrow> runner_pc \<Rightarrow> coordinator \<times> 'r \<Rightarrow>
   runner_pc \<times> coordinator \<times> 'r" where
  "runner_step R now ttl i result Idle (c, r) = (Idle, c, r)"
| "runner_step R now ttl i result (Fired n) (c, r) =
     (if co_uses_election c \<and> \<not> co_is_leader c
      then (Idle, update_stats n (\<lambda>s. s\<lparr>js_skipped_not_leader_count := js_skipped_not_leader_count s + 1\<rparr>) c, r)
      else (Elected n, c, r))"
| "runner_step R now ttl i result (Elected n) (c, r) =
     (case co_locks c n of
        None \<Rightarrow> (Idle, c, r)
      | Some True \<Rightarrow>
          (Idle, update_stats n (\<lambda>s. s\<lparr>js_skipped_overlap_count := js_skipped_overlap_count s + 1\<rparr>) c, r)
      | Some False \<Rightarrow> (Locked n, set_lock n True c, r))"
| "runner_step R now ttl i result (Locked n) (c, r) =
     (if \<not> co_uses_redis c then (Owning n (now r + ttl), c, r)
      else case lock_acquire R ttl (i, job_lock_key n) r of
        (True, r') \<Rightarrow> (Owning n (now r + ttl), c, r')
      | (False, r') \<Rightarrow> (Unlocking n,
          update_stats n (\<lambda>s. s\<lparr>js_skipped_distributed_lock_count := js_skipped_distributed_lock_count s + 1\<rparr>) c, r'))"
| "runner_step R now ttl i result (Owning n e) (c, r) =
     (case co_stats c n of
        None \<Rightarrow> (Recorded n e, c, r)
      | Some _ \<Rightarrow> (Marked n e, update_stats n (\<lambda>s. s\<lparr>js_currently_running := True\<rparr>) c, r))"
| "runner_step R now ttl i result (Marked n e) (c, r) =
     (if is_registered n (co_registry c) then (Found n e, c, r) else (Recorded n e, c, r))"
| "runner_step R now ttl i result (Found n e) (c, r) = (Ran n e result, c, r)"
| "runner_step R now ttl i result (Ran n e None) (c, r) = (Recorded n e, c, r)"
| "runner_step R now ttl i result (Ran n e (Some res)) (c, r) = (Recorded n e, update_stats n (record_result res) c, r)"
| "runner_step R now ttl i result (Recorded n e) (c, r) =
     (Cleared n e, update_stats n (\<lambda>s. s\<lparr>js_currently_running := False\<rparr>) c, r)"
| "runner_step R now ttl i result (Cleared n e) (c, r) =
     (Unlocking n, c, if co_uses_redis c then lock_release R (i, job_lock_key n) r else r)"
| "runner_step R now ttl i result (Unlocking n) (c, r) = (Idle, set_lock n False c, r)"

section \<open>Leader election\<close>

definition leader_tick :: "'r lock_client \<Rightarrow> ('r \<Rightarrow> int) \<Rightarrow> int \<Rightarrow> int \<Rightarrow> nat \<Rightarrow> coordinator \<times> 'r \<Rightarrow> coordinator \<times> 'r" where
  "leader_tick R now ttl renewal i = (\<lambda>(c, r).
     if co_is_leader c
     then (case lock_extend R (i, leader_key) (renewal * 3) r of
             (True, r') \<Rightarrow> (c\<lparr>co_lease := now r + renewal * 3\<rparr>, r')
           | (False, r') \<Rightarrow> (c\<lparr>co_is_leader := False\<rparr>, r'))
     else (case lock_acquire R ttl (i, leader_key) r of
             (True, r') \<Rightarrow> (c\<lparr>co_is_leader := True, co_lease := now r + ttl\<rparr>, r')
           | (False, r') \<Rightarrow> (c, r')))"

text \<open>
  \<open>stop\<close> of the election, in its two steps: the lock is released first, and only then the flag cleared.
  \<open>co_lease\<close> ends with the release.
\<close>

definition leader_release :: "'r lock_client \<Rightarrow> ('r \<Rightarrow> int) \<Rightarrow> nat \<Rightarrow> coordinator \<times> 'r \<Rightarrow> coordinator \<times> 'r" where
  "leader_release R now i = (\<lambda>(c, r).
     if co_is_leader c then (c\<lparr>co_stopping := True, co_lease := now r\<rparr>, lock_release R (i, leader_key) r) else (c, r))"

definition leader_resign :: "coordinator \<Rightarrow> coordinator" where
  "leader_resign c = (if co_stopping c then c\<lparr>co_is_leader := False, co_stopping := False\<rparr> else c)"

end
