(* ===== verification/Coordination.thy ===== *)
theory Coordination imports Scheduling
begin

text \<open>
  Instances of the scheduler sharing a Redis: their steps in any interleaving, with crashes and Redis
  failures, and what the in-process lock, the job locks and the leader lock guarantee.
\<close>

section \<open>What the Redis lock promises\<close>

text \<open>Who was last granted a key and until when, and what the server's clock shows.\<close>

record 'r lock_view =
  lv_now :: "'r \<Rightarrow> int"
  lv_holder :: "'r \<Rightarrow> string \<Rightarrow> (nat \<times> int) option"

definition untouched :: "'r lock_view \<Rightarrow> 'r \<Rightarrow> 'r \<Rightarrow> bool" where
  "untouched V r r' \<longleftrightarrow> lv_holder V r' = lv_holder V r \<and> lv_now V r \<le> lv_now V r'"

definition granted :: "'r lock_view \<Rightarrow> nat \<Rightarrow> string \<Rightarrow> int \<Rightarrow> 'r \<Rightarrow> 'r \<Rightarrow> bool" where
  "granted V i k until r r' \<longleftrightarrow>
     (\<exists>e\<ge>until. lv_holder V r' = (lv_holder V r)(k \<mapsto> (i, e))) \<and> lv_now V r \<le> lv_now V r'"

definition taken :: "'r lock_view \<Rightarrow> nat \<Rightarrow> string \<Rightarrow> int \<Rightarrow> 'r \<Rightarrow> 'r \<Rightarrow> bool" where
  "taken V i k ttl r r' \<longleftrightarrow> granted V i k (lv_now V r + ttl) r r' \<and>
     (\<forall>j e. lv_holder V r k = Some (j, e) \<longrightarrow> e \<le> lv_now V r')"

definition acquire_law :: "'r lock_client \<Rightarrow> 'r lock_view \<Rightarrow> bool" where
  "acquire_law R V \<longleftrightarrow> (\<forall>i k ttl r. case lc_acquire R (i, k) ttl r of
      (Inr True, r') \<Rightarrow> taken V i k ttl r r'
    | (Inr False, r') \<Rightarrow> untouched V r r'
    | (Inl _, r') \<Rightarrow> untouched V r r' \<or> taken V i k ttl r r')"

definition given_back :: "'r lock_view \<Rightarrow> nat \<Rightarrow> string \<Rightarrow> 'r \<Rightarrow> 'r \<Rightarrow> bool" where
  "given_back V i k r r' \<longleftrightarrow> (\<exists>e. lv_holder V r k = Some (i, e)) \<and> lv_holder V r' = (lv_holder V r)(k := None) \<and>
     lv_now V r \<le> lv_now V r'"

definition release_law :: "'r lock_client \<Rightarrow> 'r lock_view \<Rightarrow> bool" where
  "release_law R V \<longleftrightarrow> (\<forall>i k r. case lc_release R (i, k) r of
      (Inr _, r') \<Rightarrow> given_back V i k r r'
    | (Inl _, r') \<Rightarrow> untouched V r r' \<or> given_back V i k r r')"

definition extend_law :: "'r lock_client \<Rightarrow> 'r lock_view \<Rightarrow> bool" where
  "extend_law R V \<longleftrightarrow> (\<forall>i k secs r. case lc_extend R (i, k) secs r of
      (Inr True, r') \<Rightarrow> (\<exists>e. lv_holder V r k = Some (i, e)) \<and> granted V i k (lv_now V r + secs) r r'
    | (_, r') \<Rightarrow> untouched V r r' \<or> (\<exists>e. lv_holder V r k = Some (i, e)) \<and> granted V i k (lv_now V r + secs) r r')"

definition lock_contract :: "'r lock_client \<Rightarrow> 'r lock_view \<Rightarrow> bool" where
  "lock_contract R V \<longleftrightarrow> acquire_law R V \<and> release_law R V \<and> extend_law R V"

section \<open>The steps of a cluster\<close>

type_synonym 'r cluster = "'r \<times> (nat \<Rightarrow> coordinator)"

definition set_thread :: "nat \<Rightarrow> runner_pc \<Rightarrow> coordinator \<Rightarrow> coordinator" where
  "set_thread t pc c = c\<lparr>co_threads := (co_threads c)(t := pc)\<rparr>"

inductive cluster_step ::
  "'r lock_client \<Rightarrow> 'r lock_view \<Rightarrow> int \<Rightarrow> int \<Rightarrow> int \<Rightarrow> 'r cluster \<Rightarrow> 'r cluster \<Rightarrow> bool"
  for R V ttl leader_ttl renewal where
  runs: "runner_step R (lv_now V) ttl i result (co_threads (I i) t) (I i, r) = (pc, c, r') \<Longrightarrow>
    cluster_step R V ttl leader_ttl renewal (r, I) (r', I(i := set_thread t pc c))"
| fires: "co_running (I i) \<Longrightarrow> n \<in> dom (co_backend (I i)) \<Longrightarrow> co_threads (I i) t = Idle \<Longrightarrow>
    cluster_step R V ttl leader_ttl renewal (r, I) (r, I(i := set_thread t (Fired n) (I i)))"
| triggered: "is_registered n (co_registry (I i)) \<Longrightarrow> co_threads (I i) t = Idle \<Longrightarrow>
    cluster_step R V ttl leader_ttl renewal (r, I) (r, I(i := set_thread t (Fired n) (I i)))"
| registers: "register_job n interval given enabled (I i) = Inr c \<Longrightarrow>
    cluster_step R V ttl leader_ttl renewal (r, I) (r, I(i := c))"
| starts: "start ok (I i) = (err, c) \<Longrightarrow> cluster_step R V ttl leader_ttl renewal (r, I) (r, I(i := c))"
| stops: "stop ok (I i) = (err, c) \<Longrightarrow> cluster_step R V ttl leader_ttl renewal (r, I) (r, I(i := c))"
| enables: "enable_job n (I i) = Inr c \<Longrightarrow> cluster_step R V ttl leader_ttl renewal (r, I) (r, I(i := c))"
| disables: "disable_job n (I i) = Inr c \<Longrightarrow> cluster_step R V ttl leader_ttl renewal (r, I) (r, I(i := c))"
| ticks: "leader_tick R (lv_now V) leader_ttl renewal i (I i, r) = (c, r') \<Longrightarrow>
    cluster_step R V ttl leader_ttl renewal (r, I) (r', I(i := c))"
| releases: "leader_release R (lv_now V) i (I i, r) = (c, r') \<Longrightarrow>
    cluster_step R V ttl leader_ttl renewal (r, I) (r', I(i := c))"
| resigns: "cluster_step R V ttl leader_ttl renewal (r, I) (r, I(i := leader_resign (I i)))"
| crashes: "cluster_step R V ttl leader_ttl renewal (r, I) (r, I(i := fresh_coordinator election redis))"
| passes: "untouched V r r' \<Longrightarrow> cluster_step R V ttl leader_ttl renewal (r, I) (r', I)"

definition cluster_start :: "'r cluster \<Rightarrow> bool" where
  "cluster_start w \<longleftrightarrow> (\<forall>i. \<exists>a b. snd w i = fresh_coordinator a b)"

section \<open>Inside one instance\<close>

text \<open>The job whose in-process lock a thread holds; the job it is running, and until when its lock lasts.\<close>

fun in_process :: "runner_pc \<Rightarrow> string option" where
  "in_process (Locked n) = Some n"
| "in_process (Owning n e) = Some n"
| "in_process (Marked n e) = Some n"
| "in_process (Found n e) = Some n"
| "in_process (Ran n e res) = Some n"
| "in_process (Recorded n e) = Some n"
| "in_process (Cleared n e) = Some n"
| "in_process (Unlocking n) = Some n"
| "in_process _ = None"

fun in_section :: "runner_pc \<Rightarrow> (string \<times> int) option" where
  "in_section (Owning n e) = Some (n, e)"
| "in_section (Marked n e) = Some (n, e)"
| "in_section (Found n e) = Some (n, e)"
| "in_section (Ran n e res) = Some (n, e)"
| "in_section (Recorded n e) = Some (n, e)"
| "in_section (Cleared n e) = Some (n, e)"
| "in_section _ = None"

lemma section_in_process: "in_section pc = Some (n, e) \<Longrightarrow> in_process pc = Some n"
  by (cases pc) simp_all

definition exclusive :: "(string \<rightharpoonup> bool) \<Rightarrow> (nat \<Rightarrow> string option) \<Rightarrow> bool" where
  "exclusive locks at_work \<longleftrightarrow> (\<forall>t n. at_work t = Some n \<longrightarrow> locks n = Some True \<and> (\<forall>u. at_work u = Some n \<longrightarrow> u = t))"

lemma exclusiveI:
  "(\<And>t n. W t = Some n \<Longrightarrow> L n = Some True) \<Longrightarrow> (\<And>t u n. W t = Some n \<Longrightarrow> W u = Some n \<Longrightarrow> u = t) \<Longrightarrow> exclusive L W"
  by (simp add: exclusive_def)

lemma exclusive_held: "exclusive L W \<Longrightarrow> W t = Some n \<Longrightarrow> L n = Some True"
  by (simp add: exclusive_def)

lemma exclusive_one: "exclusive L W \<Longrightarrow> W t = Some n \<Longrightarrow> W u = Some n \<Longrightarrow> u = t"
  by (simp add: exclusive_def)

lemma exclusive_sub: "exclusive L W \<Longrightarrow> (\<And>u n. W' u = Some n \<Longrightarrow> W u = Some n) \<Longrightarrow> exclusive L W'"
  by (rule exclusiveI) (blast intro: exclusive_held exclusive_one)+

lemma exclusive_keep: "exclusive L W \<Longrightarrow> x = W t \<or> x = None \<Longrightarrow> exclusive L (W(t := x))"
  by (erule exclusive_sub) (auto split: if_splits)

lemma exclusive_free: "exclusive L W \<Longrightarrow> L n \<noteq> Some True \<Longrightarrow> W u = Some n \<Longrightarrow> False"
  using exclusive_held by metis

lemma exclusive_enter: "exclusive L W \<Longrightarrow> L n = Some False \<Longrightarrow> exclusive (L(n \<mapsto> True)) (W(t \<mapsto> n))"
  by (rule exclusiveI) (auto split: if_splits intro: exclusive_held exclusive_one dest: exclusive_free [rotated 2])

lemma exclusive_leave: "exclusive L W \<Longrightarrow> W t = Some n \<Longrightarrow> exclusive (L(n \<mapsto> False)) (W(t := None))"
  by (rule exclusiveI) (auto split: if_splits intro: exclusive_held exclusive_one)

lemma exclusive_new: "exclusive L W \<Longrightarrow> L n = None \<Longrightarrow> exclusive (L(n \<mapsto> False)) W"
  by (rule exclusiveI) (auto split: if_splits intro: exclusive_held exclusive_one dest: exclusive_free [rotated 2])

definition locks_sound :: "coordinator \<Rightarrow> bool" where
  "locks_sound c \<longleftrightarrow> (\<forall>n. co_locks c n \<noteq> None \<longrightarrow> is_registered n (co_registry c)) \<and>
     exclusive (co_locks c) (\<lambda>t. in_process (co_threads c t))"

lemma locks_sound_same:
  "locks_sound c \<Longrightarrow> co_locks c' = co_locks c \<Longrightarrow> co_threads c' = co_threads c \<Longrightarrow>
    (\<And>n. is_registered n (co_registry c) \<Longrightarrow> is_registered n (co_registry c')) \<Longrightarrow> locks_sound c'"
  by (auto simp: locks_sound_def)

lemma update_stats_fields [simp]:
  "co_locks (update_stats n f c) = co_locks c" "co_threads (update_stats n f c) = co_threads c"
  "co_registry (update_stats n f c) = co_registry c" "co_uses_redis (update_stats n f c) = co_uses_redis c"
  "co_is_leader (update_stats n f c) = co_is_leader c" "co_lease (update_stats n f c) = co_lease c"
  "co_backend (update_stats n f c) = co_backend c" "co_running (update_stats n f c) = co_running c"
  by (simp_all add: update_stats_def)

lemma set_lock_fields [simp]:
  "co_locks (set_lock n b c) = (co_locks c)(n \<mapsto> b)" "co_threads (set_lock n b c) = co_threads c"
  "co_registry (set_lock n b c) = co_registry c" "co_uses_redis (set_lock n b c) = co_uses_redis c"
  "co_is_leader (set_lock n b c) = co_is_leader c" "co_lease (set_lock n b c) = co_lease c" "co_stats (set_lock n b c) = co_stats c"
  by (simp_all add: set_lock_def)

lemma set_thread_fields [simp]:
  "co_threads (set_thread t pc c) = (co_threads c)(t := pc)" "co_locks (set_thread t pc c) = co_locks c"
  "co_registry (set_thread t pc c) = co_registry c" "co_uses_redis (set_thread t pc c) = co_uses_redis c"
  "co_is_leader (set_thread t pc c) = co_is_leader c" "co_lease (set_thread t pc c) = co_lease c" "co_stats (set_thread t pc c) = co_stats c"
  by (simp_all add: set_thread_def)

lemma at_work_upd: "(\<lambda>u. in_process ((f(t := pc)) u)) = (\<lambda>u. in_process (f u))(t := in_process pc)"
  by auto

text \<open>What a step of the runner does to the instance's other parts.\<close>

lemma runner_step_frame:
  assumes "runner_step R now ttl i result pc (c, r) = (pc', c', r')"
  shows "co_threads c' = co_threads c \<and> co_registry c' = co_registry c \<and> co_uses_redis c' = co_uses_redis c \<and>
    co_is_leader c' = co_is_leader c \<and> co_lease c' = co_lease c"
  using assms by (cases "(R, now, ttl, i, result, pc, c, r)" rule: runner_step.cases)
    (auto split: if_splits option.splits bool.splits prod.splits)

lemma runner_step_locks:
  assumes "runner_step R now ttl i result pc (c, r) = (pc', c', r')"
  shows "(co_locks c' = co_locks c \<and> (in_process pc' = in_process pc \<or> in_process pc' = None)) \<or>
    (\<exists>n. co_locks c n = Some False \<and> co_locks c' = (co_locks c)(n \<mapsto> True) \<and> in_process pc' = Some n) \<or>
    (\<exists>n. pc = Unlocking n \<and> co_locks c' = (co_locks c)(n \<mapsto> False) \<and> in_process pc' = None)"
  using assms by (cases "(R, now, ttl, i, result, pc, c, r)" rule: runner_step.cases)
    (auto split: if_splits option.splits bool.splits prod.splits)

lemma locks_sound_runner:
  assumes "locks_sound c" "runner_step R now ttl i result (co_threads c t) (c, r) = (pc', c', r')"
  shows "locks_sound (set_thread t pc' c')"
proof -
  let ?W = "\<lambda>u. in_process (co_threads c u)"
  have reg: "\<forall>n. co_locks c n \<noteq> None \<longrightarrow> is_registered n (co_registry c)" and ex: "exclusive (co_locks c) ?W"
    using assms(1) by (simp_all add: locks_sound_def)
  note f = runner_step_frame [OF assms(2)]
  have W: "(\<lambda>u. in_process (co_threads (set_thread t pc' c') u)) = ?W(t := in_process pc')"
    using f by auto
  from runner_step_locks [OF assms(2)] show ?thesis
  proof (elim disjE exE conjE)
    assume "co_locks c' = co_locks c" "in_process pc' = ?W t"
    then show ?thesis unfolding locks_sound_def W using reg f exclusive_keep [OF ex, of "in_process pc'" t] by simp
  next
    assume "co_locks c' = co_locks c" "in_process pc' = None"
    then show ?thesis unfolding locks_sound_def W using reg f exclusive_keep [OF ex, of "in_process pc'" t] by simp
  next
    fix n
    assume "co_locks c n = Some False" "co_locks c' = (co_locks c)(n \<mapsto> True)" "in_process pc' = Some n"
    then show ?thesis unfolding locks_sound_def W using reg f exclusive_enter [OF ex, of n t] by auto
  next
    fix n
    assume leave: "co_threads c t = Unlocking n" "co_locks c' = (co_locks c)(n \<mapsto> False)" "in_process pc' = None"
    then have "?W t = Some n" by simp
    then show ?thesis unfolding locks_sound_def W
      using leave reg f exclusive_leave [OF ex, of t n] exclusive_held [OF ex, of t n] by auto
  qed
qed

lemma set_enabled_registered:
  "set_enabled b m regs = Inr regs' \<Longrightarrow> is_registered n regs' = is_registered n regs"
  unfolding set_enabled_def is_registered_def
  by (auto simp: map_of_eq_None_iff image_iff split: sum.splits if_splits) force+


text \<open>The operations that move no thread.\<close>

definition keeps_threads :: "coordinator \<Rightarrow> coordinator \<Rightarrow> bool" where
  "keeps_threads c c' \<longleftrightarrow> co_locks c' = co_locks c \<and> co_threads c' = co_threads c \<and> co_uses_redis c' = co_uses_redis c \<and>
     (\<forall>n. is_registered n (co_registry c) \<longrightarrow> is_registered n (co_registry c'))"

definition keeps_leader :: "coordinator \<Rightarrow> coordinator \<Rightarrow> bool" where
  "keeps_leader c c' \<longleftrightarrow> co_is_leader c' = co_is_leader c \<and> co_lease c' = co_lease c"

lemma fold_backend:
  "keeps_threads c (fold (\<lambda>(n, g). add_backend_job n g) gs c) \<and> keeps_leader c (fold (\<lambda>(n, g). add_backend_job n g) gs c)"
  by (induction gs arbitrary: c) (force simp: keeps_threads_def keeps_leader_def add_backend_job_def)+

lemma keeps_quiet_operations:
  "start ok c = (err, c') \<Longrightarrow> keeps_threads c c' \<and> keeps_leader c c'"
  "stop ok c = (err, c') \<Longrightarrow> keeps_threads c c' \<and> keeps_leader c c'"
  "enable_job n c = Inr c' \<Longrightarrow> keeps_threads c c' \<and> keeps_leader c c'"
  "disable_job n c = Inr c' \<Longrightarrow> keeps_threads c c' \<and> keeps_leader c c'"
  using fold_backend [of c "list_registrations True (co_registry c)"]
  by (auto simp: start_def stop_def enable_job_def disable_job_def keeps_threads_def keeps_leader_def Let_def
      set_enabled_registered split: if_splits sum.splits)

lemma leader_keeps_threads:
  "leader_tick R now ttl renewal i (c, r) = (c', r') \<Longrightarrow> keeps_threads c c'"
  "leader_release R now i (c, r) = (c', r') \<Longrightarrow> keeps_threads c c'"
  "keeps_threads c (leader_resign c)"
  by (auto simp: leader_tick_def leader_release_def leader_resign_def keeps_threads_def split: if_splits prod.splits bool.splits)

lemma locks_sound_keeps: "locks_sound c \<Longrightarrow> keeps_threads c c' \<Longrightarrow> locks_sound c'"
  by (auto simp: locks_sound_def keeps_threads_def)

lemma register_job_parts:
  assumes "register_job n interval given enabled c = Inr c'"
  shows "\<not> is_registered n (co_registry c) \<and> co_locks c' = (co_locks c)(n \<mapsto> False) \<and> co_threads c' = co_threads c \<and>
    co_uses_redis c' = co_uses_redis c \<and> keeps_leader c c' \<and> co_stats c' = (co_stats c)(n \<mapsto> fresh_statistics) \<and>
    (\<forall>m. is_registered m (co_registry c') \<longleftrightarrow> m = n \<or> is_registered m (co_registry c))"
  using assms
  by (auto simp: register_job_def register_def require_registered_def is_registered_def keeps_leader_def
      add_backend_job_def Let_def map_add_def split: if_splits sum.splits option.splits)

lemma locks_sound_register:
  assumes "locks_sound c" "register_job n interval given enabled c = Inr c'"
  shows "locks_sound c'"
proof -
  note p = register_job_parts [OF assms(2)]
  have "co_locks c n = None" using assms(1) p unfolding locks_sound_def by blast
  then show ?thesis using assms(1) p exclusive_new [of "co_locks c" "\<lambda>t. in_process (co_threads c t)" n]
    unfolding locks_sound_def by auto
qed

lemma locks_sound_fires:
  "locks_sound c \<Longrightarrow> co_threads c t = Idle \<Longrightarrow> locks_sound (set_thread t (Fired n) c)"
  unfolding locks_sound_def at_work_upd set_thread_fields by (auto intro: exclusive_keep)

lemma locks_sound_fresh: "locks_sound (fresh_coordinator a b)"
  by (simp add: locks_sound_def fresh_coordinator_def exclusive_def)

lemma locks_sound_step:
  assumes "cluster_step R V ttl leader_ttl renewal (r, I) (r', I')" "\<forall>i. locks_sound (I i)"
  shows "\<forall>i. locks_sound (I' i)"
  using assms(1)
  by (cases rule: cluster_step.cases)
    (use assms(2) in \<open>auto intro: locks_sound_runner locks_sound_fires locks_sound_register locks_sound_fresh
       locks_sound_keeps leader_keeps_threads keeps_quiet_operations [THEN conjunct1]\<close>)


section \<open>Across the instances\<close>

text \<open>Unless the instant \<open>e\<close> has passed, the key is granted to the instance until then or longer.\<close>

definition held :: "'r lock_view \<Rightarrow> 'r \<Rightarrow> nat \<Rightarrow> string \<Rightarrow> int \<Rightarrow> bool" where
  "held V r i k e \<longleftrightarrow> (lv_now V r < e \<longrightarrow> (\<exists>e'\<ge>e. lv_holder V r k = Some (i, e')))"

lemma held_untouched: "untouched V r r' \<Longrightarrow> held V r i k e \<Longrightarrow> held V r' i k e"
  by (auto simp: untouched_def held_def)

lemma held_taken: "taken V j k' ttl r r' \<Longrightarrow> held V r i k e \<Longrightarrow> held V r' i k e"
  by (fastforce simp: taken_def granted_def held_def)

lemma held_given_back:
  assumes "given_back V j k' r r'" "(j, k') \<noteq> (i, k)" "held V r i k e"
  shows "held V r' i k e"
  using assms by (cases "k = k'") (auto simp: given_back_def held_def)

lemma held_granted:
  assumes "granted V j k' until r r'" "lv_holder V r k' = Some (j, x)" "(j, k') \<noteq> (i, k)" "held V r i k e"
  shows "held V r' i k e"
  using assms by (cases "k = k'") (auto simp: granted_def held_def)

lemma taken_held: "taken V i k ttl r r' \<Longrightarrow> held V r' i k (lv_now V r + ttl)"
  by (auto simp: taken_def granted_def held_def)

lemma granted_held: "granted V i k until r r' \<Longrightarrow> held V r' i k until"
  by (auto simp: granted_def held_def)

lemma acquire_effect:
  assumes "lock_contract R V" "lock_acquire R ttl (j, k') r = (got, r')"
  shows "taken V j k' ttl r r' \<or> (\<not> got \<and> untouched V r r')"
proof -
  have "case lc_acquire R (j, k') ttl r of (Inr True, r') \<Rightarrow> taken V j k' ttl r r'
    | (Inr False, r') \<Rightarrow> untouched V r r' | (Inl _, r') \<Rightarrow> untouched V r r' \<or> taken V j k' ttl r r'"
    using assms(1) by (simp add: lock_contract_def acquire_law_def)
  with assms(2) show ?thesis by (auto simp: lock_acquire_def split: prod.splits sum.splits bool.splits)
qed

lemma release_effect:
  assumes "lock_contract R V"
  shows "untouched V r (lock_release R (j, k') r) \<or> given_back V j k' r (lock_release R (j, k') r)"
proof -
  have "case lc_release R (j, k') r of (Inr _, r') \<Rightarrow> given_back V j k' r r'
    | (Inl _, r') \<Rightarrow> untouched V r r' \<or> given_back V j k' r r'"
    using assms(1) by (simp add: lock_contract_def release_law_def)
  then show ?thesis by (auto simp: lock_release_def split: prod.splits sum.splits)
qed

lemma extend_effect:
  assumes "lock_contract R V" "lock_extend R (j, k') secs r = (got, r')"
  shows "(\<exists>x. lv_holder V r k' = Some (j, x)) \<and> granted V j k' (lv_now V r + secs) r r' \<or> (\<not> got \<and> untouched V r r')"
proof -
  have "case lc_extend R (j, k') secs r of
      (Inr True, r') \<Rightarrow> (\<exists>e. lv_holder V r k' = Some (j, e)) \<and> granted V j k' (lv_now V r + secs) r r'
    | (_, r') \<Rightarrow> untouched V r r' \<or> (\<exists>e. lv_holder V r k' = Some (j, e)) \<and> granted V j k' (lv_now V r + secs) r r'"
    using assms(1) by (simp add: lock_contract_def extend_law_def)
  with assms(2) show ?thesis by (auto simp: lock_extend_def split: prod.splits sum.splits bool.splits)
qed

text \<open>Every lock but the one an operation is on stays held; acquiring never takes one away.\<close>

lemma held_acquire: "lock_contract R V \<Longrightarrow> lock_acquire R ttl (j, k') r = (got, r') \<Longrightarrow> held V r i k e \<Longrightarrow> held V r' i k e"
  by (drule (1) acquire_effect) (auto intro: held_taken held_untouched)

lemma held_release:
  "lock_contract R V \<Longrightarrow> (j, k') \<noteq> (i, k) \<Longrightarrow> held V r i k e \<Longrightarrow> held V (lock_release R (j, k') r) i k e"
  by (drule release_effect [of _ _ r j k']) (metis held_given_back held_untouched)

lemma held_extend:
  "lock_contract R V \<Longrightarrow> lock_extend R (j, k') secs r = (got, r') \<Longrightarrow> (j, k') \<noteq> (i, k) \<Longrightarrow> held V r i k e \<Longrightarrow> held V r' i k e"
  by (drule (1) extend_effect) (metis held_granted held_untouched)

lemma lock_keys [simp]: "job_lock_key m = job_lock_key n \<longleftrightarrow> m = n" "job_lock_key n \<noteq> leader_key" "leader_key \<noteq> job_lock_key n"
  by (auto simp: job_lock_key_def leader_key_def)

lemma runner_step_section:
  assumes "runner_step R now ttl i result pc (c, r) = (pc', c', r')"
  obtains (same) "r' = r" "in_section pc' = in_section pc \<or> in_section pc' = None \<or> \<not> co_uses_redis c"
    | (acquire) n got where "lock_acquire R ttl (i, job_lock_key n) r = (got, r')"
        "in_section pc' = (if got then Some (n, now r + ttl) else None)"
    | (release) n e where "pc = Cleared n e" "r' = lock_release R (i, job_lock_key n) r" "in_section pc' = None"
proof (cases pc)
  case (Locked n)
  show ?thesis
  proof (cases "co_uses_redis c")
    case True
    obtain got r1 where g: "lock_acquire R ttl (i, job_lock_key n) r = (got, r1)" by (cases "lock_acquire R ttl (i, job_lock_key n) r")
    with assms Locked True show ?thesis by (intro acquire [of n got]) (auto split: bool.splits)
  qed (use assms Locked same in auto)
next
  case (Cleared n e)
  with assms show ?thesis by (cases "co_uses_redis c") (auto intro: same release)
next
  case (Ran n e res)
  with assms show ?thesis by (cases res) (auto intro: same)
qed (use assms in \<open>auto intro!: same split: if_splits option.splits bool.splits\<close>)

definition sections_held :: "'r lock_view \<Rightarrow> 'r \<Rightarrow> nat \<Rightarrow> coordinator \<Rightarrow> bool" where
  "sections_held V r i c \<longleftrightarrow> (\<forall>t n e. co_uses_redis c \<longrightarrow> in_section (co_threads c t) = Some (n, e) \<longrightarrow>
     held V r i (job_lock_key n) e)"

definition leader_held :: "'r lock_view \<Rightarrow> 'r \<Rightarrow> nat \<Rightarrow> coordinator \<Rightarrow> bool" where
  "leader_held V r i c \<longleftrightarrow> (co_is_leader c \<longrightarrow> held V r i leader_key (co_lease c))"

definition cluster_sound :: "'r lock_view \<Rightarrow> 'r cluster \<Rightarrow> bool" where
  "cluster_sound V w \<longleftrightarrow> (\<forall>i. locks_sound (snd w i) \<and> sections_held V (fst w) i (snd w i) \<and> leader_held V (fst w) i (snd w i))"

lemma carried:
  assumes "\<And>k e. held V r i k e \<Longrightarrow> held V r' i k e"
  shows "sections_held V r i c \<Longrightarrow> sections_held V r' i c" "leader_held V r i c \<Longrightarrow> leader_held V r' i c"
  using assms by (auto simp: sections_held_def leader_held_def)

lemma held_runner:
  assumes "lock_contract R V" "runner_step R (lv_now V) ttl i result pc (c, r) = (pc', c', r')"
    and "j \<noteq> i \<or> k = leader_key \<or> (\<forall>n e. pc = Cleared n e \<longrightarrow> k \<noteq> job_lock_key n)" and "held V r j k e"
  shows "held V r' j k e"
  using assms(2)
proof (cases rule: runner_step_section)
  case same
  with assms(4) show ?thesis by simp
next
  case (acquire n got)
  with held_acquire [OF assms(1)] assms(4) show ?thesis by blast
next
  case (release n x)
  then have "(i, job_lock_key n) \<noteq> (j, k)" using assms(3) by auto
  with held_release [OF assms(1) _ assms(4)] release(2) show ?thesis by metis
qed

lemma runner_sections:
  assumes R: "lock_contract R V" and sound: "locks_sound c" and sec: "sections_held V r i c"
    and run: "runner_step R (lv_now V) ttl i result (co_threads c t) (c, r) = (pc', c', r')"
  shows "sections_held V r' i (set_thread t pc' c')"
  unfolding sections_held_def
proof (intro allI impI)
  fix u n e
  note f = runner_step_frame [OF run]
  assume "co_uses_redis (set_thread t pc' c')" and u: "in_section (co_threads (set_thread t pc' c') u) = Some (n, e)"
  then have redis: "co_uses_redis c" using f by simp
  have before: "held V r i (job_lock_key n) e" if "in_section (co_threads c u) = Some (n, e)" for u n e
    using sec redis that by (simp add: sections_held_def)
  show "held V r' i (job_lock_key n) e"
  proof (cases "u = t")
    case True
    with u have pc': "in_section pc' = Some (n, e)" by simp
    from run show ?thesis
    proof (cases rule: runner_step_section)
      case same
      then show ?thesis using pc' redis before [of t n e] by simp
    next
      case (acquire m got)
      with pc' have g: got "m = n" "e = lv_now V r + ttl" by (simp_all split: if_splits)
      then have "taken V i (job_lock_key n) ttl r r'" using acquire_effect [OF R acquire(1)] by simp
      then show ?thesis using taken_held g by simp
    next
      case release
      with pc' show ?thesis by simp
    qed
  next
    case False
    with u f have u': "in_section (co_threads c u) = Some (n, e)" by simp
    have "job_lock_key n \<noteq> job_lock_key m" if "co_threads c t = Cleared m x" for m x
    proof -
      have "exclusive (co_locks c) (\<lambda>t. in_process (co_threads c t))" using sound by (simp add: locks_sound_def)
      from exclusive_one [OF this, of u n t] section_in_process [OF u'] False that show ?thesis by auto
    qed
    then show ?thesis using held_runner [OF R run, of i "job_lock_key n" e] before [OF u'] by blast
  qed
qed

lemma leader_tick_sound:
  assumes R: "lock_contract R V" and run: "leader_tick R (lv_now V) ttl renewal i (c, r) = (c', r')"
  shows "leader_held V r i c \<Longrightarrow> leader_held V r' i c'"
    and "j \<noteq> i \<or> k \<noteq> leader_key \<Longrightarrow> held V r j k e \<Longrightarrow> held V r' j k e"
proof -
  obtain g1 r1 where ext: "lock_extend R (i, leader_key) (renewal * 3) r = (g1, r1)" by (cases "lock_extend R (i, leader_key) (renewal * 3) r")
  obtain g2 r2 where acq: "lock_acquire R ttl (i, leader_key) r = (g2, r2)" by (cases "lock_acquire R ttl (i, leader_key) r")
  have c': "c' = (if co_is_leader c then (if g1 then c\<lparr>co_lease := lv_now V r + renewal * 3\<rparr> else c\<lparr>co_is_leader := False\<rparr>)
      else if g2 then c\<lparr>co_is_leader := True, co_lease := lv_now V r + ttl\<rparr> else c)"
    and r': "r' = (if co_is_leader c then r1 else r2)"
    using run ext acq by (auto simp: leader_tick_def split: bool.splits)
  show "leader_held V r' i c'"
    using extend_effect [OF R ext] acquire_effect [OF R acq]
    by (auto simp: c' r' leader_held_def intro: taken_held granted_held)
  show "held V r' j k e" if "j \<noteq> i \<or> k \<noteq> leader_key" "held V r j k e"
    using held_extend [OF R ext _ that(2)] held_acquire [OF R acq that(2)] that(1) r' by auto
qed

lemma leader_release_sound:
  assumes R: "lock_contract R V" and run: "leader_release R (lv_now V) i (c, r) = (c', r')"
  shows "leader_held V r i c \<Longrightarrow> leader_held V r' i c'"
    and "j \<noteq> i \<or> k \<noteq> leader_key \<Longrightarrow> held V r j k e \<Longrightarrow> held V r' j k e"
proof -
  have c': "c' = (if co_is_leader c then c\<lparr>co_stopping := True, co_lease := lv_now V r\<rparr> else c)"
    and r': "r' = (if co_is_leader c then lock_release R (i, leader_key) r else r)"
    using run by (auto simp: leader_release_def split: if_splits)
  have "lv_now V r \<le> lv_now V r'"
    using release_effect [OF R, of r i leader_key] by (auto simp: r' untouched_def given_back_def)
  then show "leader_held V r i c \<Longrightarrow> leader_held V r' i c'"
    by (auto simp: c' r' leader_held_def held_def)
  show "held V r' j k e" if "j \<noteq> i \<or> k \<noteq> leader_key" "held V r j k e"
    using held_release [OF R _ that(2), of i leader_key] that r' by auto
qed

lemma sections_held_keeps: "keeps_threads c c' \<Longrightarrow> sections_held V r i c \<Longrightarrow> sections_held V r i c'"
  by (simp add: sections_held_def keeps_threads_def)

lemma leader_held_keeps: "keeps_leader c c' \<Longrightarrow> leader_held V r i c \<Longrightarrow> leader_held V r i c'"
  by (simp add: leader_held_def keeps_leader_def)

lemma sections_held_idle:
  "sections_held V r i c \<Longrightarrow> in_section pc = None \<Longrightarrow> sections_held V r i (set_thread t pc c)"
  by (simp add: sections_held_def)

text \<open>A step that changes one instance and the server.\<close>

lemma cluster_sound_update:
  assumes "cluster_sound V (r, I)" and "locks_sound c" "sections_held V r' i c" "leader_held V r' i c"
    and "\<And>j k e. j \<noteq> i \<Longrightarrow> held V r j k e \<Longrightarrow> held V r' j k e"
  shows "cluster_sound V (r', I(i := c))"
  using assms carried [of V r _ r'] by (auto simp: cluster_sound_def)

lemma cluster_sound_quiet:
  assumes "cluster_sound V (r, I)" "keeps_threads (I i) c \<and> keeps_leader (I i) c"
  shows "cluster_sound V (r, I(i := c))"
  using cluster_sound_update [OF assms(1), of c r i] assms locks_sound_keeps [of "I i" c] sections_held_keeps [of "I i" c V r i]
    leader_held_keeps [of "I i" c V r i] by (simp add: cluster_sound_def)

lemma cluster_sound_step:
  assumes R: "lock_contract R V" and step: "cluster_step R V ttl leader_ttl renewal (r, I) (r', I')"
    and sound: "cluster_sound V (r, I)"
  shows "cluster_sound V (r', I')"
proof -
  have locks: "locks_sound (I' i)" for i
    using locks_sound_step [OF step] sound by (simp add: cluster_sound_def)
  have old: "sections_held V r i (I i)" "leader_held V r i (I i)" "locks_sound (I i)" for i
    using sound by (simp_all add: cluster_sound_def)
  from step show ?thesis
  proof (cases rule: cluster_step.cases)
    case (runs i result t pc c)
    have "leader_held V r' i (set_thread t pc c)"
      using runner_step_frame [OF runs(2)] held_runner [OF R runs(2), of i leader_key] old(2) [of i]
      by (auto simp: leader_held_def)
    with cluster_sound_update [OF sound locks_sound_runner [OF old(3) runs(2)] runner_sections [OF R old(3,1) runs(2)]]
      held_runner [OF R runs(2)] runs(1) show ?thesis by blast
  next
    case (fires i n t)
    then show ?thesis using cluster_sound_update [OF sound locks_sound_fires [OF old(3)] sections_held_idle [OF old(1)], of i t n]
        old(2) [of i] by (auto simp: leader_held_def)
  next
    case (triggered n i t)
    then show ?thesis using cluster_sound_update [OF sound locks_sound_fires [OF old(3)] sections_held_idle [OF old(1)], of i t n]
        old(2) [of i] by (auto simp: leader_held_def)
  next
    case (registers n interval given enabled i c)
    have "sections_held V r i c" using old(1) [of i] register_job_parts [OF registers(3)] by (simp add: sections_held_def)
    then show ?thesis
      using cluster_sound_update [OF sound locks_sound_register [OF old(3) registers(3)]]
        leader_held_keeps [OF _ old(2)] register_job_parts [OF registers(3)] registers(1,2) by blast
  next
    case (starts ok i err c)
    then show ?thesis using cluster_sound_quiet [OF sound keeps_quiet_operations(1) [OF starts(3)]] by simp
  next
    case (stops ok i err c)
    then show ?thesis using cluster_sound_quiet [OF sound keeps_quiet_operations(2) [OF stops(3)]] by simp
  next
    case (enables n i c)
    then show ?thesis using cluster_sound_quiet [OF sound keeps_quiet_operations(3) [OF enables(3)]] by simp
  next
    case (disables n i c)
    then show ?thesis using cluster_sound_quiet [OF sound keeps_quiet_operations(4) [OF disables(3)]] by simp
  next
    case (ticks i c)
    note k = leader_keeps_threads(1) [OF ticks(2)] and l = leader_tick_sound [OF R ticks(2)]
    have "sections_held V r' i c"
      using old(1) [of i] k l(2) by (auto simp: sections_held_def keeps_threads_def)
    then show ?thesis unfolding ticks(1)
      by (rule cluster_sound_update [OF sound locks_sound_keeps [OF old(3) k] _ l(1) [OF old(2)]]) (use l(2) in blast)
  next
    case (releases i c)
    note k = leader_keeps_threads(2) [OF releases(2)] and l = leader_release_sound [OF R releases(2)]
    have "sections_held V r' i c"
      using old(1) [of i] k l(2) by (auto simp: sections_held_def keeps_threads_def)
    then show ?thesis unfolding releases(1)
      by (rule cluster_sound_update [OF sound locks_sound_keeps [OF old(3) k] _ l(1) [OF old(2)]]) (use l(2) in blast)
  next
    case (resigns i)
    note k = leader_keeps_threads(3) [of "I i"]
    have "leader_held V r i (leader_resign (I i))" using old(2) [of i] by (simp add: leader_held_def leader_resign_def)
    then show ?thesis unfolding resigns
      by (rule cluster_sound_update [OF sound locks_sound_keeps [OF old(3) k] sections_held_keeps [OF k old(1)]])
  next
    case (crashes i election redis)
    have "sections_held V r i (fresh_coordinator election redis)" "leader_held V r i (fresh_coordinator election redis)"
      by (simp_all add: sections_held_def leader_held_def fresh_coordinator_def)
    then show ?thesis unfolding crashes
      by (rule cluster_sound_update [OF sound locks_sound_fresh])
  next
    case passes
    have "held V r i k e \<Longrightarrow> held V r' i k e" for i k e using held_untouched [OF passes(2)] .
    then show ?thesis using carried [of V r _ r'] old passes(1) by (auto simp: cluster_sound_def)
  qed
qed

lemma cluster_sound_reachable:
  assumes "lock_contract R V" "(cluster_step R V ttl leader_ttl renewal)\<^sup>*\<^sup>* w w'" "cluster_start w"
  shows "cluster_sound V w'"
proof -
  have "cluster_sound V w" using assms(3)
    by (auto simp: cluster_start_def cluster_sound_def sections_held_def leader_held_def)
      (metis locks_sound_fresh, metis (no_types) fresh_coordinator_def coordinator.select_convs in_section.simps option.distinct(1),
       metis (no_types) fresh_coordinator_def coordinator.select_convs)
  with assms(2) show ?thesis
    by (induction rule: rtranclp_induct) (use cluster_sound_step [OF assms(1)] in \<open>metis prod.collapse\<close>)+
qed

section \<open>Mutual exclusion and leadership\<close>

text \<open>
  C33. A scheduled job excludes itself. In every state that any number of instances reach, with ticks,
  manual triggers, crashes and Redis failures in any interleaving: two threads that are in the guarded part
  of the runner for the same job belong to different instances, and if both instances use Redis locks, the
  time for which the lock was granted to one of them has passed (the lock is not renewed during a run).
\<close>

theorem jobs_exclude_each_other:
  assumes "lock_contract R V" and "(cluster_step R V ttl leader_ttl renewal)\<^sup>*\<^sup>* w (r, I)" and "cluster_start w"
    and "in_section (co_threads (I i) t) = Some (n, until1)" and "in_section (co_threads (I j) u) = Some (n, until2)"
    and "(i, t) \<noteq> (j, u)"
  shows "i \<noteq> j \<and> (co_uses_redis (I i) \<longrightarrow> co_uses_redis (I j) \<longrightarrow> until1 \<le> lv_now V r \<or> until2 \<le> lv_now V r)"
proof -
  have sound: "cluster_sound V (r, I)" by (rule cluster_sound_reachable [OF assms(1-3)])
  then have ex: "exclusive (co_locks (I i)) (\<lambda>t. in_process (co_threads (I i) t))"
    and sec: "sections_held V r i (I i)" "sections_held V r j (I j)" by (simp_all add: cluster_sound_def locks_sound_def)
  have "i \<noteq> j"
    using exclusive_one [OF ex, of t n u] section_in_process [OF assms(4)] section_in_process [OF assms(5)] assms(6) by auto
  moreover have "until1 \<le> lv_now V r \<or> until2 \<le> lv_now V r" if "co_uses_redis (I i)" "co_uses_redis (I j)"
    using sec that assms(4,5) \<open>i \<noteq> j\<close> unfolding sections_held_def held_def by fastforce
  ultimately show ?thesis by blast
qed

text \<open>
  Leadership. In every reachable state two instances that both take themselves for the leader are so
  only because the lease of one of them is over: granted until an instant that has passed without a
  renewal, or just given back by a shutdown.
\<close>

theorem one_leader_at_a_time:
  assumes "lock_contract R V" and "(cluster_step R V ttl leader_ttl renewal)\<^sup>*\<^sup>* w (r, I)" and "cluster_start w"
    and "co_is_leader (I i)" and "co_is_leader (I j)" and "i \<noteq> j"
  shows "co_lease (I i) \<le> lv_now V r \<or> co_lease (I j) \<le> lv_now V r"
proof -
  have "leader_held V r i (I i)" "leader_held V r j (I j)"
    using cluster_sound_reachable [OF assms(1-3)] by (simp_all add: cluster_sound_def)
  with assms(4-6) show ?thesis unfolding leader_held_def held_def by fastforce
qed

end
