(* ===== verification/CoordinationRuns.thy ===== *)
theory CoordinationRuns imports Coordination
begin

text \<open>
  A Redis lock kept in memory, runs of two instances over it (the witnesses of \<open>Coordination\<close>), the
  statistics a coordinator keeps, and a disabled job.
\<close>

section \<open>Locks in memory\<close>

record lock_memory =
  lm_now :: int
  lm_holder :: "string \<Rightarrow> (nat \<times> int) option"

definition live_holder :: "lock_memory \<Rightarrow> string \<Rightarrow> nat option" where
  "live_holder m k = (case lm_holder m k of None \<Rightarrow> None | Some (i, e) \<Rightarrow> if lm_now m < e then Some i else None)"

definition memory_locks :: "lock_memory lock_client" where
  "memory_locks =
     \<lparr>lc_acquire = (\<lambda>(i, k) ttl m. if live_holder m k = None
          then (Inr True, m\<lparr>lm_holder := (lm_holder m)(k \<mapsto> (i, lm_now m + ttl))\<rparr>) else (Inr False, m)),
      lc_release = (\<lambda>(i, k) m. if live_holder m k = Some i then (Inr (), m\<lparr>lm_holder := (lm_holder m)(k := None)\<rparr>)
          else (Inl LockError, m)),
      lc_extend = (\<lambda>(i, k) secs m. if live_holder m k = Some i
          then (Inr True, m\<lparr>lm_holder := (lm_holder m)(k \<mapsto> (i, lm_now m + secs))\<rparr>) else (Inl LockError, m)),
      lc_owned = (\<lambda>(i, k) m. (Inr (live_holder m k = Some i), m))\<rparr>"

definition lock_memory_view :: "lock_memory lock_view" where
  "lock_memory_view = \<lparr>lv_now = lm_now, lv_holder = lm_holder\<rparr>"

lemma memory_locks_contract: "lock_contract memory_locks lock_memory_view"
  unfolding lock_contract_def acquire_law_def release_law_def extend_law_def
  by (auto simp: memory_locks_def lock_memory_view_def live_holder_def taken_def granted_def untouched_def given_back_def
      split: option.splits if_splits)

section \<open>Runs as sequences of actions\<close>

datatype cluster_action =
    Register nat string
  | Trigger nat nat string
  | Run nat nat "execution_result option"
  | Elect nat
  | Pass int

fun act :: "int \<Rightarrow> int \<Rightarrow> int \<Rightarrow> cluster_action \<Rightarrow> lock_memory cluster \<Rightarrow> lock_memory cluster" where
  "act ttl leader_ttl renewal (Register i n) (r, I) =
     (case register_job n 60 None True (I i) of Inl _ \<Rightarrow> (r, I) | Inr c \<Rightarrow> (r, I(i := c)))"
| "act ttl leader_ttl renewal (Trigger i t n) (r, I) =
     (if is_registered n (co_registry (I i)) \<and> co_threads (I i) t = Idle then (r, I(i := set_thread t (Fired n) (I i))) else (r, I))"
| "act ttl leader_ttl renewal (Run i t result) (r, I) =
     (case runner_step memory_locks lm_now ttl i result (co_threads (I i) t) (I i, r) of
        (pc, c, r') \<Rightarrow> (r', I(i := set_thread t pc c)))"
| "act ttl leader_ttl renewal (Elect i) (r, I) =
     (case leader_tick memory_locks lm_now leader_ttl renewal i (I i, r) of (c, r') \<Rightarrow> (r', I(i := c)))"
| "act ttl leader_ttl renewal (Pass d) (r, I) = (r\<lparr>lm_now := lm_now r + max 0 d\<rparr>, I)"

lemma act_step: "(cluster_step memory_locks lock_memory_view ttl leader_ttl renewal)\<^sup>=\<^sup>= w (act ttl leader_ttl renewal a w)"
proof -
  obtain r I where w: "w = (r, I)" by (cases w)
  show ?thesis unfolding w
    by (cases a) (auto intro: cluster_step.intros simp: lock_memory_view_def untouched_def split: sum.splits prod.splits)
qed

lemma acts_reachable:
  "(cluster_step memory_locks lock_memory_view ttl leader_ttl renewal)\<^sup>*\<^sup>* w (fold (act ttl leader_ttl renewal) as w)"
proof (induction as arbitrary: w)
  case (Cons a as)
  have "(cluster_step memory_locks lock_memory_view ttl leader_ttl renewal)\<^sup>*\<^sup>* w (act ttl leader_ttl renewal a w)"
    using act_step [of ttl leader_ttl renewal w a] by auto
  with Cons.IH [of "act ttl leader_ttl renewal a w"] show ?case by simp
qed simp

definition two_instances :: "lock_memory cluster" where
  "two_instances = (\<lparr>lm_now = 0, lm_holder = (\<lambda>_. None)\<rparr>, \<lambda>_. fresh_coordinator True True)"

lemma two_instances_start: "cluster_start two_instances"
  by (auto simp: cluster_start_def two_instances_def)

text \<open>The first leader stalls for longer than both locks last; the second takes over.\<close>

definition stalled_run :: "cluster_action list" where
  "stalled_run = [Register 0 ''j'', Register 1 ''j'', Elect 0, Trigger 0 0 ''j'', Run 0 0 None, Run 0 0 None, Run 0 0 None,
     Pass 400, Elect 1, Trigger 1 5 ''j'', Run 1 5 None, Run 1 5 None, Run 1 5 None]"

definition stalled :: "lock_memory cluster" where
  "stalled = fold (act 300 30 10) stalled_run two_instances"

lemma stalled_facts:
  "in_section (co_threads (snd stalled 0) 0) = Some (''j'', 300)" "in_section (co_threads (snd stalled 1) 5) = Some (''j'', 700)"
  "co_is_leader (snd stalled 0)" "co_is_leader (snd stalled 1)" "co_uses_redis (snd stalled 0)" "co_uses_redis (snd stalled 1)"
  "lm_now (fst stalled) = 400"
  by code_simp+

theorem jobs_exclude_each_other_witness:
  "(300 :: int) \<le> lm_now (fst stalled) \<or> (700 :: int) \<le> lm_now (fst stalled)"
  using jobs_exclude_each_other [OF memory_locks_contract, of 300 30 10 two_instances "fst stalled" "snd stalled" 0 0 "''j''" 300 1 5 700]
    acts_reachable [of 300 30 10 two_instances stalled_run] two_instances_start stalled_facts
  by (simp add: stalled_def lock_memory_view_def)

theorem one_leader_at_a_time_witness:
  "co_lease (snd stalled 0) \<le> lm_now (fst stalled) \<or> co_lease (snd stalled 1) \<le> lm_now (fst stalled)"
  using one_leader_at_a_time [OF memory_locks_contract, of 300 30 10 two_instances "fst stalled" "snd stalled" 0 1]
    acts_reachable [of 300 30 10 two_instances stalled_run] two_instances_start stalled_facts
  by (simp add: stalled_def lock_memory_view_def)

section \<open>Statistics\<close>

text \<open>The job a thread counts as running.\<close>

fun at_run :: "runner_pc \<Rightarrow> string option" where
  "at_run (Marked n e) = Some n"
| "at_run (Found n e) = Some n"
| "at_run (Ran n e res) = Some n"
| "at_run (Recorded n e) = Some n"
| "at_run _ = None"

lemma at_run_in_process: "at_run pc = Some n \<Longrightarrow> in_process pc = Some n"
  by (cases pc) simp_all

definition counted :: "job_statistics \<Rightarrow> bool" where
  "counted s \<longleftrightarrow> js_run_count s = js_success_count s + js_failure_count s"

definition stats_sound :: "coordinator \<Rightarrow> bool" where
  "stats_sound c \<longleftrightarrow> (\<forall>n. co_stats c n = None \<longleftrightarrow> co_locks c n = None) \<and>
     (\<forall>n s. co_stats c n = Some s \<longrightarrow> counted s \<and> (js_currently_running s \<longleftrightarrow> (\<exists>t. at_run (co_threads c t) = Some n)))"

text \<open>The statistics change by functions that keep the counts, and only marking and clearing move the flag.\<close>

definition keeps_flag :: "(job_statistics \<Rightarrow> job_statistics) \<Rightarrow> bool" where
  "keeps_flag f \<longleftrightarrow> (\<forall>s. js_currently_running (f s) = js_currently_running s \<and> (counted s \<longrightarrow> counted (f s)))"

lemma keeps_flag_updates:
  "keeps_flag id" "keeps_flag (record_result res)" "keeps_flag (\<lambda>s. s\<lparr>js_skipped_not_leader_count := f s\<rparr>)"
  "keeps_flag (\<lambda>s. s\<lparr>js_skipped_overlap_count := f s\<rparr>)" "keeps_flag (\<lambda>s. s\<lparr>js_skipped_distributed_lock_count := f s\<rparr>)"
  by (simp_all add: keeps_flag_def counted_def record_result_def Let_def)

lemma update_stats_id [simp]: "co_stats (update_stats n id c) = co_stats c"
  by (simp add: update_stats_def option.map_id)

lemma update_stats_stats: "co_stats (update_stats n f c) = (co_stats c)(n := map_option f (co_stats c n))"
  by (simp add: update_stats_def)

lemma runner_step_stats:
  assumes "runner_step R now ttl i result pc (c, r) = (pc', c', r')"
  obtains (keep) n f where "co_stats c' = co_stats (update_stats n f c)" "keeps_flag f" "at_run pc' = at_run pc"
    | (mark) n s where "in_process pc = Some n" "at_run pc' = Some n" "at_run pc = None" "co_stats c n = Some s"
        "co_stats c' = (co_stats c)(n \<mapsto> s\<lparr>js_currently_running := True\<rparr>)"
    | (lost) n where "in_process pc = Some n" "co_stats c n = None"
    | (clear) n where "at_run pc = Some n" "at_run pc' = None"
        "co_stats c' = co_stats (update_stats n (\<lambda>s. s\<lparr>js_currently_running := False\<rparr>) c)"
proof -
  have unmoved: "co_stats c' = co_stats c \<Longrightarrow> at_run pc' = at_run pc \<Longrightarrow> thesis"
    using keep [of "[]" id] keeps_flag_updates(1) by simp
  show thesis
  proof (cases pc)
    case (Fired n)
    show ?thesis
    proof (cases "co_uses_election c \<and> \<not> co_is_leader c")
      case True
      with assms Fired show ?thesis
        by (intro keep [of n "\<lambda>s. s\<lparr>js_skipped_not_leader_count := js_skipped_not_leader_count s + 1\<rparr>"])
          (auto intro: keeps_flag_updates)
    next
      case False
      have "pc' = Elected n" "c' = c" using assms Fired False by auto
      then show ?thesis using unmoved Fired by simp
    qed
  next
    case (Elected n)
    show ?thesis
    proof (cases "co_locks c n = Some True")
      case True
      with assms Elected show ?thesis
        by (intro keep [of n "\<lambda>s. s\<lparr>js_skipped_overlap_count := js_skipped_overlap_count s + 1\<rparr>"])
          (auto intro: keeps_flag_updates)
    next
      case False
      show ?thesis by (rule unmoved) (use assms Elected False in \<open>auto split: option.splits bool.splits\<close>)+
    qed
  next
    case (Locked n)
    show ?thesis
    proof (cases "co_uses_redis c \<and> \<not> fst (lock_acquire R ttl (i, job_lock_key n) r)")
      case True
      with assms Locked show ?thesis
        by (intro keep [of n "\<lambda>s. s\<lparr>js_skipped_distributed_lock_count := js_skipped_distributed_lock_count s + 1\<rparr>"])
          (auto intro: keeps_flag_updates split: prod.splits)
    next
      case False
      show ?thesis by (rule unmoved) (use assms Locked False in \<open>auto split: prod.splits bool.splits if_splits\<close>)+
    qed
  next
    case (Owning n e)
    with assms show ?thesis by (cases "co_stats c n") (auto intro: lost mark simp: update_stats_stats)
  next
    case (Ran n e res)
    show ?thesis
    proof (cases res)
      case (Some x)
      with assms Ran show ?thesis by (intro keep [of n "record_result x"]) (auto intro: keeps_flag_updates)
    next
      case None
      show ?thesis by (rule unmoved) (use assms Ran None in auto)
    qed
  next
    case (Recorded n e)
    with assms show ?thesis by (intro clear [of n]) auto
  qed (rule unmoved, use assms in \<open>auto split: if_splits\<close>)+
qed

lemma stats_sound_runner:
  assumes locks: "locks_sound c" and sound: "stats_sound c"
    and run: "runner_step R now ttl i result (co_threads c t) (c, r) = (pc', c', r')"
  shows "stats_sound (set_thread t pc' c')"
proof -
  have ex: "exclusive (co_locks c) (\<lambda>t. in_process (co_threads c t))" using locks by (simp add: locks_sound_def)
  have dom: "\<And>n. (co_stats c n = None) = (co_locks c n = None)"
    and counts: "\<And>n s. co_stats c n = Some s \<Longrightarrow> counted s"
    and flags: "\<And>n s. co_stats c n = Some s \<Longrightarrow> js_currently_running s \<longleftrightarrow> (\<exists>t. at_run (co_threads c t) = Some n)"
    using sound by (simp_all add: stats_sound_def)
  note f = runner_step_frame [OF run]
  have L: "(co_locks c' n = None) = (co_locks c n = None)" for n
    using runner_step_locks [OF run] exclusive_held [OF ex, of t] by (auto split: if_splits)
  show ?thesis
    using run
  proof (cases rule: runner_step_stats)
    case (keep m g)
    have "at_run (((co_threads c)(t := pc')) u) = at_run (co_threads c u)" for u using keep(3) by simp
    moreover have "(co_stats c' n = None) = (co_stats c n = None)" for n using keep(1) by (simp add: update_stats_stats)
    moreover have "counted s' \<and> (js_currently_running s' \<longleftrightarrow> (\<exists>u. at_run (co_threads c u) = Some n))"
      if some: "co_stats c' n = Some s'" for n s'
    proof -
      obtain s where "co_stats c n = Some s" "s' = s \<or> s' = g s"
        using some keep(1) by (cases "co_stats c m") (auto simp: update_stats_stats split: if_splits)
      with counts flags keep(2) show ?thesis unfolding keeps_flag_def by metis
    qed
    ultimately show ?thesis using dom L f by (simp add: stats_sound_def)
  next
    case (mark m s)
    have m: "(\<exists>u. at_run (((co_threads c)(t := pc')) u) = Some n) \<longleftrightarrow> n = m \<or> (\<exists>u. at_run (co_threads c u) = Some n)" for n
      using mark(2,3) by (metis fun_upd_apply option.inject option.distinct(1))
    have "counted s' \<and> (js_currently_running s' \<longleftrightarrow> n = m \<or> (\<exists>u. at_run (co_threads c u) = Some n))"
      if "co_stats c' n = Some s'" for n s'
      using that mark(4,5) counts flags by (auto simp: counted_def split: if_splits)
    moreover have "(co_stats c' n = None) = (co_stats c n = None)" for n using mark(4,5) by simp
    ultimately show ?thesis using dom L f m by (simp add: stats_sound_def)
  next
    case (lost m)
    then show ?thesis using exclusive_held [OF ex, of t m] dom [of m] by simp
  next
    case (clear m)
    have "u = t" if "at_run (co_threads c u) = Some m" for u
      using exclusive_one [OF ex, of t m u] at_run_in_process clear(1) that by blast
    then have m: "(\<exists>u. at_run (((co_threads c)(t := pc')) u) = Some n) \<longleftrightarrow> n \<noteq> m \<and> (\<exists>u. at_run (co_threads c u) = Some n)" for n
      using clear(1,2) by (metis fun_upd_apply option.inject option.distinct(1))
    have "counted s' \<and> (js_currently_running s' \<longleftrightarrow> n \<noteq> m \<and> (\<exists>u. at_run (co_threads c u) = Some n))"
      if "co_stats c' n = Some s'" for n s'
      using that clear(3) counts flags by (auto simp: counted_def update_stats_stats split: if_splits)
    moreover have "(co_stats c' n = None) = (co_stats c n = None)" for n using clear(3) by (simp add: update_stats_stats)
    ultimately show ?thesis using dom L f m by (simp add: stats_sound_def)
  qed
qed

lemma stats_sound_threads:
  "stats_sound c \<Longrightarrow> at_run (co_threads c t) = None \<Longrightarrow> at_run pc = None \<Longrightarrow> stats_sound (set_thread t pc c)"
  unfolding stats_sound_def set_thread_fields fun_upd_apply by (metis option.distinct(1))

lemma stats_sound_same: "stats_sound c \<Longrightarrow> keeps_threads c c' \<Longrightarrow> co_stats c' = co_stats c \<Longrightarrow> stats_sound c'"
  by (simp add: stats_sound_def keeps_threads_def)

lemma fold_backend_stats: "co_stats (fold (\<lambda>(n, g). add_backend_job n g) gs c) = co_stats c"
  by (induction gs arbitrary: c) (auto simp: add_backend_job_def)

lemma stats_kept:
  "start ok c = (err, c') \<Longrightarrow> co_stats c' = co_stats c" "stop ok c = (err, c') \<Longrightarrow> co_stats c' = co_stats c"
  "enable_job n c = Inr c' \<Longrightarrow> co_stats c' = co_stats c" "disable_job n c = Inr c' \<Longrightarrow> co_stats c' = co_stats c"
  "leader_tick R now ttl renewal i (c, r) = (c', r') \<Longrightarrow> co_stats c' = co_stats c"
  "leader_release R now i (c, r) = (c', r') \<Longrightarrow> co_stats c' = co_stats c" "co_stats (leader_resign c) = co_stats c"
  by (auto simp: start_def stop_def enable_job_def disable_job_def leader_tick_def leader_release_def leader_resign_def
      Let_def fold_backend_stats split: if_splits sum.splits prod.splits bool.splits)

lemma stats_sound_register:
  assumes "locks_sound c" "stats_sound c" "register_job n interval given enabled c = Inr c'"
  shows "stats_sound c'"
proof -
  note p = register_job_parts [OF assms(3)]
  have "at_run (co_threads c t) \<noteq> Some n" for t
    using assms(1) p at_run_in_process [of "co_threads c t" n] unfolding locks_sound_def
    by (metis exclusive_held option.distinct(1))
  then show ?thesis using assms(2) p
    by (auto simp: stats_sound_def counted_def fresh_statistics_def)
qed

lemma stats_sound_fresh: "stats_sound (fresh_coordinator a b)"
  by (simp add: stats_sound_def fresh_coordinator_def)

lemma stats_sound_step:
  assumes "cluster_step R V ttl leader_ttl renewal (r, I) (r', I')" "\<forall>i. locks_sound (I i)" "\<forall>i. stats_sound (I i)"
  shows "\<forall>i. stats_sound (I' i)"
  using assms(1)
  by (cases rule: cluster_step.cases)
    (use assms(2,3) in \<open>auto intro: stats_sound_runner stats_sound_threads stats_sound_register stats_sound_fresh
       stats_sound_same leader_keeps_threads keeps_quiet_operations [THEN conjunct1] stats_kept\<close>)

lemma stats_sound_reachable:
  assumes "(cluster_step R V ttl leader_ttl renewal)\<^sup>*\<^sup>* w w'" "cluster_start w"
  shows "(\<forall>i. locks_sound (snd w' i)) \<and> (\<forall>i. stats_sound (snd w' i))"
  using assms(1)
proof (induction rule: rtranclp_induct)
  case base
  then show ?case using assms(2) locks_sound_fresh stats_sound_fresh unfolding cluster_start_def by metis
next
  case (step v u)
  obtain r I r' I' where "v = (r, I)" "u = (r', I')" by (metis prod.collapse)
  with step locks_sound_step [of R V ttl leader_ttl renewal r I r' I'] stats_sound_step [of R V ttl leader_ttl renewal r I r' I']
  show ?case by simp
qed

text \<open>
  What the health check reports is true: in every reachable state, each instance's statistics of a job
  count as many runs as successes and failures, and say \<open>currently_running\<close> exactly when a thread of that
  instance is between marking the job and clearing the mark.
\<close>

theorem statistics_tell_the_truth:
  assumes "(cluster_step R V ttl leader_ttl renewal)\<^sup>*\<^sup>* w (r, I)" and "cluster_start w"
    and "get_statistics n (I i) = Some s"
  shows "js_run_count s = js_success_count s + js_failure_count s \<and>
    (js_currently_running s \<longleftrightarrow> (\<exists>t. at_run (co_threads (I i) t) = Some n))"
  using stats_sound_reachable [OF assms(1,2)] assms(3)
  by (simp add: stats_sound_def get_statistics_def counted_def)

definition one_success :: execution_result where
  "one_success = \<lparr>er_job_name = ''j'', er_started_at = 0, er_finished_at = 1, er_success = True,
     er_items_processed = 0, er_items_failed = 0, er_error_message = None\<rparr>"

definition busy_run :: "cluster_action list" where
  "busy_run = [Register 0 ''j'', Elect 0, Trigger 0 0 ''j'', Run 0 0 None, Run 0 0 None, Run 0 0 None, Run 0 0 None,
     Run 0 0 None, Run 0 0 (Some one_success), Run 0 0 None]"

definition busy :: "lock_memory cluster" where
  "busy = fold (act 300 30 10) busy_run two_instances"

lemma busy_statistics:
  "map_option js_run_count (get_statistics ''j'' (snd busy 0)) = Some 1"
  by code_simp

theorem statistics_tell_the_truth_witness:
  "\<exists>s. get_statistics ''j'' (snd busy 0) = Some s \<and> js_run_count s = 1 \<and> js_success_count s + js_failure_count s = 1 \<and>
    (js_currently_running s \<longleftrightarrow> (\<exists>t. at_run (co_threads (snd busy 0) t) = Some ''j''))"
proof -
  obtain s where s: "get_statistics ''j'' (snd busy 0) = Some s" "js_run_count s = 1"
    using busy_statistics by auto
  with statistics_tell_the_truth [of memory_locks lock_memory_view 300 30 10 two_instances "fst busy" "snd busy" "''j''" 0 s]
    acts_reachable [of 300 30 10 two_instances busy_run] two_instances_start
  show ?thesis by (auto simp: busy_def)
qed

section \<open>A disabled job\<close>

lemma disabled_parts:
  assumes "disable_job n c = Inr c'"
  shows "\<exists>regs g. c' = c\<lparr>co_registry := regs\<rparr> \<and> map_of regs n = Some g \<and> \<not> rg_enabled g"
proof -
  obtain regs where r: "set_enabled False n (co_registry c) = Inr regs" "c' = c\<lparr>co_registry := regs\<rparr>"
    using assms by (auto simp: disable_job_def split: sum.splits)
  obtain g where g: "map_of (co_registry c) n = Some g"
    using r(1) by (auto simp: set_enabled_def require_registered_def split: option.splits)
  have "map_of (map (\<lambda>(m, g). if m = n then (m, g\<lparr>rg_enabled := False\<rparr>) else (m, g)) gs) n =
      map_option (\<lambda>g. g\<lparr>rg_enabled := False\<rparr>) (map_of gs n)" for gs
    by (induction gs) auto
  from this [of "co_registry c"] g r(1) have "map_of regs n = Some (g\<lparr>rg_enabled := False\<rparr>)"
    by (simp add: set_enabled_def require_registered_def)
  with r(2) show ?thesis by (intro exI conjI) (assumption, assumption, simp)
qed

lemma run_one:
  "runner_step R (lv_now V) ttl i result (co_threads x t) (x, r) = (pc, c', r) \<Longrightarrow>
    cluster_step R V ttl leader_ttl renewal (r, I(i := x)) (r, I(i := set_thread t pc c'))"
  using runs [of R V ttl i result "I(i := x)" t r pc c' r] by simp

text \<open>
  Disabling a job does not stop it. A job that has been handed to the running backend is run by its next
  tick all the same after \<open>disable_job\<close> has returned, and the run is counted: the backend keeps the job, and
  the runner asks only whether it is registered.
\<close>

theorem disabled_job_still_runs:
  assumes "disable_job n (I i) = Inr c" and "co_running (I i)" and "n \<in> dom (co_backend (I i))"
    and "co_threads (I i) t = Idle" and "co_uses_election (I i) \<longrightarrow> co_is_leader (I i)"
    and "co_locks (I i) n = Some False" and "co_stats (I i) n = Some s" and "\<not> co_uses_redis (I i)"
  shows "\<exists>c'. (cluster_step R V ttl leader_ttl renewal)\<^sup>*\<^sup>* (r, I(i := c)) (r, I(i := c')) \<and>
    map_of (co_registry c') n \<noteq> None \<and> \<not> rg_enabled (the (map_of (co_registry c') n)) \<and>
    (\<exists>s'. co_stats c' n = Some s' \<and> js_run_count s' = js_run_count s + 1)"
proof -
  obtain regs g where c: "c = (I i)\<lparr>co_registry := regs\<rparr>" and g: "map_of regs n = Some g" "\<not> rg_enabled g"
    using disabled_parts [OF assms(1)] by blast
  let ?step = "cluster_step R V ttl leader_ttl renewal"
  define e where "e = lv_now V r + ttl"
  define c1 where "c1 = set_thread t (Fired n) c"
  define c2 where "c2 = set_thread t (Elected n) c1"
  define c3 where "c3 = set_thread t (Locked n) (set_lock n True c2)"
  define c4 where "c4 = set_thread t (Owning n e) c3"
  define c5 where "c5 = set_thread t (Marked n e) (update_stats n (\<lambda>s. s\<lparr>js_currently_running := True\<rparr>) c4)"
  define c6 where "c6 = set_thread t (Found n e) c5"
  define c7 where "c7 = set_thread t (Ran n e (Some one_success)) c6"
  define c8 where "c8 = set_thread t (Recorded n e) (update_stats n (record_result one_success) c7)"
  note parts = set_thread_def set_lock_def update_stats_def
  have 1: "?step (r, I(i := c)) (r, I(i := c1))"
    using fires [of "I(i := c)" i n t R V ttl leader_ttl renewal r] assms(2-4) by (simp add: c c1_def)
  have 2: "?step (r, I(i := c1)) (r, I(i := c2))"
    unfolding c2_def by (rule run_one) (use assms(5) in \<open>auto simp: c1_def c parts\<close>)
  have 3: "?step (r, I(i := c2)) (r, I(i := c3))"
    unfolding c3_def by (rule run_one) (use assms(6) in \<open>simp add: c2_def c1_def c parts\<close>)
  have 4: "?step (r, I(i := c3)) (r, I(i := c4))"
    unfolding c4_def by (rule run_one) (use assms(8) in \<open>simp add: c3_def c2_def c1_def c parts e_def\<close>)
  have 5: "?step (r, I(i := c4)) (r, I(i := c5))"
    unfolding c5_def by (rule run_one) (use assms(7) in \<open>simp add: c4_def c3_def c2_def c1_def c parts\<close>)
  have 6: "?step (r, I(i := c5)) (r, I(i := c6))"
    unfolding c6_def by (rule run_one) (use g in \<open>simp add: c5_def c4_def c3_def c2_def c1_def c parts is_registered_def\<close>)
  have 7: "?step (r, I(i := c6)) (r, I(i := c7))"
    unfolding c7_def by (rule run_one [where result = "Some one_success"]) (simp add: c6_def parts)
  have 8: "?step (r, I(i := c7)) (r, I(i := c8))"
    unfolding c8_def by (rule run_one) (simp add: c7_def parts)
  have "?step\<^sup>*\<^sup>* (r, I(i := c)) (r, I(i := c8))"
    using 1 2 3 4 5 6 7 8 by (meson converse_rtranclp_into_rtranclp rtranclp.rtrancl_refl)
  moreover have "co_registry c8 = regs" "\<exists>s'. co_stats c8 n = Some s' \<and> js_run_count s' = js_run_count s + 1"
    using assms(7) by (simp_all add: c8_def c7_def c6_def c5_def c4_def c3_def c2_def c1_def c parts record_result_def
        one_success_def Let_def)
  ultimately show ?thesis using g by (intro exI [of _ c8]) simp
qed

definition started_coordinator :: coordinator where
  "started_coordinator = (case register_job ''j'' 60 None True (fresh_coordinator False False) of
     Inl _ \<Rightarrow> fresh_coordinator False False | Inr c \<Rightarrow> snd (start True c))"

lemma started_coordinator:
  "is_registered ''j'' (co_registry started_coordinator)" "co_running started_coordinator"
  "co_backend started_coordinator ''j'' = Some 60" "co_threads started_coordinator 0 = Idle"
  "\<not> co_uses_election started_coordinator" "co_locks started_coordinator ''j'' = Some False"
  "co_stats started_coordinator ''j'' = Some fresh_statistics" "\<not> co_uses_redis started_coordinator"
  by code_simp+

theorem disabled_job_still_runs_witness:
  "\<exists>c c'. disable_job ''j'' started_coordinator = Inr c \<and>
    (cluster_step memory_locks lock_memory_view 300 30 10)\<^sup>*\<^sup>* (fst two_instances, (\<lambda>_. started_coordinator)(0 := c))
      (fst two_instances, (\<lambda>_. started_coordinator)(0 := c')) \<and>
    \<not> rg_enabled (the (map_of (co_registry c') ''j'')) \<and> (\<exists>s'. co_stats c' ''j'' = Some s' \<and> js_run_count s' = 1)"
proof -
  obtain c where c: "disable_job ''j'' started_coordinator = Inr c"
    using started_coordinator(1) by (auto simp: disable_job_def set_enabled_def require_registered_def is_registered_def)
  then show ?thesis
    using disabled_job_still_runs [of "''j''" "\<lambda>_. started_coordinator" 0 c 0 fresh_statistics memory_locks lock_memory_view 300 30 10
        "fst two_instances"] started_coordinator by (auto simp: fresh_statistics_def)
qed

end
