(* ===== verification/Quiet.thy ===== *)
theory Quiet imports Logic
begin

text \<open>
  The repository's statements on a quiet network, as equations: what is read, and the row an insertion
  adds or the exception a constraint raises.
\<close>

lemma execute_quiet:
  "quiet s \<Longrightarrow> stmt s = (Inr x, t) \<Longrightarrow> execute op tbl stmt s = (Inr x, t)"
  by (simp add: execute_delivered quiet_def)

lemma paginate_quiet:
  assumes "quiet s"
  shows "paginate T query p s = (Inr \<lparr>res_items = row_range (page_offset p) (page_upper_bound p) (query s),
    res_page = pg_number p, res_page_size = pg_size p, res_total_records = int (length (query s))\<rparr>, s)"
  using assms by (simp add: paginate_def and_then_def execute_gets_reliable quiet_def eff_simps)

lemma insert_quiet:
  assumes "quiet s" "tb_check T s (mk (next_uuid s) (clock s)) = None"
  shows "insert_row T mk s = (Inr (mk (next_uuid s) (clock s)),
    (tb_set_rows T (tb_rows T s @ [mk (next_uuid s) (clock s)]) s)\<lparr>next_uuid := Suc (next_uuid s)\<rparr>)"
proof -
  have "insert_stmt T mk s = (Inr [mk (next_uuid s) (clock s)],
      (tb_set_rows T (tb_rows T s @ [mk (next_uuid s) (clock s)]) s)\<lparr>next_uuid := Suc (next_uuid s)\<rparr>)"
    using assms(2) by (simp add: insert_stmt_def Let_def)
  from execute_quiet [where stmt = "insert_stmt T mk", OF assms(1) this] show ?thesis
    by (simp add: insert_row_def and_then_def single_row_def eff_simps)
qed

lemma insert_quiet_refused:
  assumes "quiet s" "tb_check T s (mk (next_uuid s) (clock s)) = Some code"
  shows "insert_row T mk s = (Inl (Raised (Db (translate_api_error ''insert'' (tb_name T) code ''''))), s)"
proof -
  have "insert_stmt T mk s = (Inl (Raised (Client (APIError code ''''))), s)"
    using assms(2) by (simp add: insert_stmt_def Let_def)
  from execute_constraint [where stmt = "insert_stmt T mk", OF _ this] assms(1) show ?thesis
    by (simp add: insert_row_def and_then_def quiet_def)
qed

end
