(* ===== verification/DateTime.thy ===== *)
theory DateTime imports Engine
begin

text \<open>
  The clock arithmetic and the formatting of \<open>utils/datetime_utils.py\<close>. An instant is a whole number of
  microseconds; here zero is 1970-01-01T00:00:00 UTC. \<open>civil_of_days\<close> is the proleptic Gregorian calendar
  of Python's \<open>datetime\<close>, counted from 1 March of the year 0 so that the leap day ends a year.
\<close>

lemma le_div_iff_mult_le_int:
  fixes a b q :: int
  assumes "0 < q"
  shows "b \<le> a div q \<longleftrightarrow> b * q \<le> a"
proof
  assume "b \<le> a div q"
  then have "b * q \<le> a div q * q" using assms by simp
  also have "\<dots> \<le> a" using assms by (simp flip: minus_mod_eq_div_mult)
  finally show "b * q \<le> a" .
next
  assume "b * q \<le> a"
  from zdiv_mono1 [OF this assms] assms show "b \<le> a div q" by simp
qed

section \<open>The calendar\<close>

definition civil_of_days :: "int \<Rightarrow> int \<times> int \<times> int" where
  "civil_of_days n =
     (let z = n + 719468;
          era = z div 146097;
          doe = z mod 146097;
          yoe = (doe - doe div 1460 + doe div 36524 - doe div 146096) div 365;
          doy = doe - (365 * yoe + yoe div 4 - yoe div 100);
          m = (5 * doy + 2) div 153;
          day = doy - (153 * m + 2) div 5 + 1;
          month = (if m < 10 then m + 3 else m - 9)
      in (yoe + era * 400 + (if month \<le> 2 then 1 else 0), month, day))"

section \<open>Formatting\<close>

definition digit_char :: "int \<Rightarrow> char" where
  "digit_char d = char_of (48 + nat (d mod 10))"

text \<open>\<open>f'{n:0wd}'\<close> of a number with at most \<open>w\<close> digits.\<close>

fun zero_padded :: "nat \<Rightarrow> int \<Rightarrow> string" where
  "zero_padded 0 n = []"
| "zero_padded (Suc w) n = zero_padded w (n div 10) @ [digit_char n]"

definition MICROS_PER_DAY :: int where "MICROS_PER_DAY = 86400000000"

text \<open>\<open>to_utc(value).isoformat().replace('+00:00', 'Z')\<close>; the microseconds are only written when there are any.\<close>

definition format_iso8601 :: "timestamp \<Rightarrow> string" where
  "format_iso8601 t =
     (let (year, month, day) = civil_of_days (t div MICROS_PER_DAY);
          rest = t mod MICROS_PER_DAY;
          seconds = rest div 1000000;
          micros = rest mod 1000000
      in zero_padded 4 year @ ''-'' @ zero_padded 2 month @ ''-'' @ zero_padded 2 day @ ''T'' @
         zero_padded 2 (seconds div 3600) @ '':'' @ zero_padded 2 (seconds div 60 mod 60) @ '':'' @
         zero_padded 2 (seconds mod 60) @ (if micros = 0 then [] else ''.'' @ zero_padded 6 micros) @ ''Z'')"

text \<open>\<open>seconds_between\<close> and its result in hours, exact.\<close>

definition seconds_between :: "timestamp \<Rightarrow> timestamp \<Rightarrow> rat" where
  "seconds_between begun ended = of_int (ended - begun) / 1000000"

definition hours_between :: "timestamp \<Rightarrow> timestamp \<Rightarrow> rat" where
  "hours_between begun ended = seconds_between begun ended / 3600"

lemma zero_padded_length [simp]: "length (zero_padded w n) = w"
  by (induction w arbitrary: n) simp_all

lemma hours_between_mono: "a \<le> b \<Longrightarrow> hours_between c a \<le> hours_between c b"
  by (simp add: hours_between_def seconds_between_def divide_right_mono)

text \<open>The last day of a leap February, the day after a common one, and an instant before the epoch.\<close>

lemma format_iso8601_examples:
  "format_iso8601 951868799999999 = ''2000-02-29T23:59:59.999999Z''"
  "format_iso8601 4107542400000000 = ''2100-03-01T00:00:00Z''"
  "format_iso8601 (- 1) = ''1969-12-31T23:59:59.999999Z''"
  by code_simp+

end
