(* ===== verification/Discovery.thy ===== *)
theory Discovery imports DateTime JobHandlers Scheduling
begin

text \<open>
  The jobs the scheduler runs on an interval and what they share (\<open>scheduler/jobs.py\<close>): the pages of
  pending stages, the context of a stage with its cache of workflow definitions, the escalation check
  (\<open>scheduler/escalation_job.py\<close>) and the reminder dispatch (\<open>scheduler/reminder_job.py\<close>) on either
  dispatcher of \<open>jobs/job_service.py\<close>. The jobs' loop is \<open>run_over_items\<close> of \<open>Worker\<close>.
\<close>

section \<open>Pending stages\<close>

definition DISCOVERY_PAGE_SIZE :: int where "DISCOVERY_PAGE_SIZE = 100"
definition DISCOVERY_MAX_PAGES :: nat where "DISCOVERY_MAX_PAGES = 50"

text \<open>The generator's loop, with the pages that \<open>max_pages\<close> still allows as its recursion argument.\<close>

fun pending_pages :: "nat \<Rightarrow> timestamp \<Rightarrow> int \<Rightarrow> int \<Rightarrow> ('z db_scheme, stage_record list) eff" where
  "pending_pages 0 cutoff page_size page_number = return []"
| "pending_pages (Suc left) cutoff page_size page_number =
     and_then (pure (Page page_number page_size)) (\<lambda>p.
     and_then (list_overdue_stages_all_companies cutoff p) (\<lambda>result.
       if res_items result = [] then return []
       else if total_pages result \<le> page_number then return (res_items result)
       else and_then (pending_pages left cutoff page_size (page_number + 1)) (\<lambda>rest.
              return (res_items result @ rest))))"

definition iter_pending_stages :: "int \<Rightarrow> nat \<Rightarrow> ('z db_scheme, stage_record list) eff" where
  "iter_pending_stages page_size max_pages =
     and_then (gets clock) (\<lambda>cutoff. pending_pages max_pages cutoff page_size 1)"

section \<open>The context of a stage\<close>

text \<open>
  The cache is a dictionary the job owns for one run: state beside the database, kept when an item fails.
\<close>

type_synonym definition_cache = "uuid \<rightharpoonup> workflow_definition"

definition on_db :: "('s, 'a) eff \<Rightarrow> ('s \<times> definition_cache, 'a) eff" where
  "on_db m = (\<lambda>(s, c). case m s of (r, t) \<Rightarrow> (r, t, c))"

record stage_context =
  sx_request :: request_record
  sx_definition :: stage_definition

definition fetch_definition :: "uuid \<Rightarrow> ('z db_scheme, workflow_definition) eff" where
  "fetch_definition definition_id =
     and_then (get_by_id definition_table definition_id) (\<lambda>record. pure (map_workflow_definition_record_to_domain record))"

definition matching_context :: "stage_record \<Rightarrow> request_record \<Rightarrow> workflow_definition \<Rightarrow> stage_context fallible" where
  "matching_context stage request d =
     (case filter (\<lambda>sd. sd_order sd = st_stage_order stage) (doc_stages (wd_definition d)) of
        [] \<Rightarrow> Inl (Raised (Engine (StageNotFoundInDefinitionError (st_stage_order stage))))
      | sd # _ \<Rightarrow> Inr \<lparr>sx_request = request, sx_definition = sd\<rparr>)"

text \<open>\<open>definition_cache=None\<close>, the function's default: every definition is fetched.\<close>

definition load_stage_context :: "stage_record \<Rightarrow> ('z db_scheme, stage_context) eff" where
  "load_stage_context stage =
     and_then (get_request_row (st_request_id stage)) (\<lambda>request.
     and_then (fetch_definition (rq_workflow_definition_id request)) (\<lambda>d.
       pure (matching_context stage request d)))"

definition cached_definition :: "uuid \<Rightarrow> ('z db_scheme \<times> definition_cache, workflow_definition) eff" where
  "cached_definition i = (\<lambda>(s, c).
     case c i of
       Some d \<Rightarrow> (Inr d, s, c)
     | None \<Rightarrow> and_then (on_db (fetch_definition i)) (\<lambda>d.
                 and_then (modify (\<lambda>(s, c). (s, c(i \<mapsto> d)))) (\<lambda>_. return d)) (s, c))"

definition load_stage_context_cached :: "stage_record \<Rightarrow> ('z db_scheme \<times> definition_cache, stage_context) eff" where
  "load_stage_context_cached stage =
     and_then (on_db (get_request_row (st_request_id stage))) (\<lambda>request.
     and_then (cached_definition (rq_workflow_definition_id request)) (\<lambda>d.
       pure (matching_context stage request d)))"

section \<open>The dispatcher\<close>

record job_order =
  jo_task_type :: string
  jo_queue_name :: string
  jo_payload :: payload
  jo_priority :: job_priority
  jo_max_attempts :: int
  jo_request_id :: uuid

type_synonym 's dispatcher = "job_order \<Rightarrow> ('s, unit) eff"

definition durable_dispatcher ::
  "'z job_db_scheme redis_client \<Rightarrow> (uuid \<Rightarrow> string) \<Rightarrow> int \<Rightarrow> 'z job_db_scheme dispatcher" where
  "durable_dispatcher R show_uuid default_max_attempts order =
     and_then (enqueue R show_uuid default_max_attempts (jo_task_type order) (jo_queue_name order) (jo_payload order)
        (jo_priority order) (Some (jo_max_attempts order)) None (Some (jo_request_id order)) None) (\<lambda>_. return ())"

definition synchronous_dispatcher :: "'s handlers \<Rightarrow> 's dispatcher" where
  "synchronous_dispatcher handlers order = enqueue_synchronously handlers (jo_task_type order) (jo_payload order)"

section \<open>The escalation check\<close>

definition ESCALATE_STAGE_MAX_ATTEMPTS :: int where "ESCALATE_STAGE_MAX_ATTEMPTS = 3"

definition escalation_order :: "(uuid \<Rightarrow> string) \<Rightarrow> stage_record \<Rightarrow> job_order" where
  "escalation_order show_uuid stage =
     \<lparr>jo_task_type = TASK_ESCALATE_STAGE, jo_queue_name = ''escalation'',
      jo_payload = [(''stage_id'', PText (show_uuid (st_id stage)))], jo_priority = PriorityHigh,
      jo_max_attempts = ESCALATE_STAGE_MAX_ATTEMPTS, jo_request_id = st_request_id stage\<rparr>"

definition evaluate_and_escalate_if_eligible ::
  "'z db_scheme dispatcher \<Rightarrow> (uuid \<Rightarrow> string) \<Rightarrow> stage_record \<Rightarrow> ('z db_scheme \<times> definition_cache, unit) eff" where
  "evaluate_and_escalate_if_eligible dispatch show_uuid stage =
     and_then (load_stage_context_cached stage) (\<lambda>context.
     and_then (on_db (gets clock)) (\<lambda>now.
     and_then (pure (is_eligible (st_created_at stage) (sd_escalation_hours (sx_definition context)) now)) (\<lambda>eligible.
       if \<not> eligible then return ()
       else on_db (dispatch (escalation_order show_uuid stage)))))"

text \<open>\<open>_execute\<close> of both jobs: the candidates first, then the loop with a fresh cache.\<close>

definition execute_over_pending ::
  "(stage_record \<Rightarrow> ('z db_scheme \<times> definition_cache, unit) eff) \<Rightarrow> ('z db_scheme, nat \<times> nat) eff" where
  "execute_over_pending evaluate =
     and_then (iter_pending_stages DISCOVERY_PAGE_SIZE DISCOVERY_MAX_PAGES) (\<lambda>candidates s.
       case run_over_items evaluate candidates (s, Map.empty) of (r, t, c) \<Rightarrow> (r, t))"

definition escalation_execute :: "'z db_scheme dispatcher \<Rightarrow> (uuid \<Rightarrow> string) \<Rightarrow> ('z db_scheme, nat \<times> nat) eff" where
  "escalation_execute dispatch show_uuid = execute_over_pending (evaluate_and_escalate_if_eligible dispatch show_uuid)"

section \<open>The reminder dispatch\<close>

definition SEND_REMINDER_MAX_ATTEMPTS :: int where "SEND_REMINDER_MAX_ATTEMPTS = 3"
definition DUPLICATE_CHECK_PAGE_SIZE :: int where "DUPLICATE_CHECK_PAGE_SIZE = 50"

definition reminder_text :: "stage_record \<Rightarrow> request_record \<Rightarrow> string" where
  "reminder_text stage request =
     ''The stage '' @ [CHR 0x27] @ st_stage_name stage @ [CHR 0x27] @ '' on request '' @ [CHR 0x27] @ rq_title request @
     [CHR 0x27] @ '' has been awaiting your decision since '' @ format_iso8601 (st_created_at stage) @
     '' and is nearing its escalation deadline.''"

definition reminder_order :: "(uuid \<Rightarrow> string) \<Rightarrow> stage_record \<Rightarrow> uuid \<Rightarrow> request_record \<Rightarrow> job_order" where
  "reminder_order show_uuid stage recipient request =
     \<lparr>jo_task_type = TASK_SEND_REMINDER, jo_queue_name = ''escalation'',
      jo_payload = [(''recipient_id'', PText (show_uuid recipient)),
        (''request_id'', PText (show_uuid (st_request_id stage))), (''message'', PText (reminder_text stage request))],
      jo_priority = PriorityLow, jo_max_attempts = SEND_REMINDER_MAX_ATTEMPTS, jo_request_id = st_request_id stage\<rparr>"

text \<open>The page is read with \<open>list_for_recipient\<close>'s defaults: archived notifications are left out.\<close>

definition reminder_among :: "uuid \<Rightarrow> rat \<Rightarrow> timestamp \<Rightarrow> notification_record list \<Rightarrow> bool" where
  "reminder_among request_id cooldown_hours now items \<longleftrightarrow>
     list_ex (\<lambda>n. nt_type n = NotifyReminder \<and> nt_request_id n = Some request_id \<and>
       hours_between (nt_created_at n) now \<le> cooldown_hours) items"

definition recently_reminded :: "rat \<Rightarrow> uuid \<Rightarrow> stage_record \<Rightarrow> ('z db_scheme, bool) eff" where
  "recently_reminded cooldown_hours recipient stage =
     and_then (pure (Page 1 DUPLICATE_CHECK_PAGE_SIZE)) (\<lambda>p.
     and_then (list_for_recipient recipient None None (Some False) None p) (\<lambda>result.
     and_then (gets clock) (\<lambda>now.
       return (reminder_among (st_request_id stage) cooldown_hours now (res_items result)))))"

definition evaluate_and_remind_if_due ::
  "'z db_scheme dispatcher \<Rightarrow> (uuid \<Rightarrow> string) \<Rightarrow> rat \<Rightarrow> rat \<Rightarrow> stage_record \<Rightarrow>
   ('z db_scheme \<times> definition_cache, unit) eff" where
  "evaluate_and_remind_if_due dispatch show_uuid lead_time_hours cooldown_hours stage =
     (case st_assigned_to stage of
        None \<Rightarrow> return ()
      | Some recipient \<Rightarrow>
     and_then (load_stage_context_cached stage) (\<lambda>context.
     let escalation_hours = sd_escalation_hours (sx_definition context) in
     and_then (on_db (gets clock)) (\<lambda>now.
     and_then (pure (is_eligible (st_created_at stage) escalation_hours now)) (\<lambda>already_eligible.
       if already_eligible then return ()
       else if \<not> escalation_hours - hours_between (st_created_at stage) now \<le> lead_time_hours then return ()
       else and_then (on_db (recently_reminded cooldown_hours recipient stage)) (\<lambda>reminded.
         if reminded then return ()
         else on_db (dispatch (reminder_order show_uuid stage recipient (sx_request context))))))))"

definition reminder_execute ::
  "'z db_scheme dispatcher \<Rightarrow> (uuid \<Rightarrow> string) \<Rightarrow> rat \<Rightarrow> rat \<Rightarrow> ('z db_scheme, nat \<times> nat) eff" where
  "reminder_execute dispatch show_uuid lead_time_hours cooldown_hours =
     execute_over_pending (evaluate_and_remind_if_due dispatch show_uuid lead_time_hours cooldown_hours)"

section \<open>Running a job\<close>

text \<open>\<open>BaseJob.run\<close>: an exception of \<open>_execute\<close> becomes a failed result.\<close>

definition base_job_run ::
  "(exn \<Rightarrow> string) \<Rightarrow> string \<Rightarrow> ('z db_scheme, nat \<times> nat) eff \<Rightarrow> ('z db_scheme, execution_result) eff" where
  "base_job_run describe name body =
     and_then (gets clock) (\<lambda>started_at.
     handle (and_then body (\<lambda>(items_processed, items_failed).
             and_then (gets clock) (\<lambda>finished_at. return
               \<lparr>er_job_name = name, er_started_at = started_at, er_finished_at = finished_at, er_success = True,
                er_items_processed = items_processed, er_items_failed = items_failed, er_error_message = None\<rparr>)))
            (\<lambda>e. and_then (gets clock) (\<lambda>finished_at. return
               \<lparr>er_job_name = name, er_started_at = started_at, er_finished_at = finished_at, er_success = False,
                er_items_processed = 0, er_items_failed = 0, er_error_message = Some (describe e)\<rparr>)))"

end
