(* ===== verification/DiscoveryRuns.thy ===== *)
theory DiscoveryRuns imports Discovery Locking Quiet
begin

text \<open>
  What a run of the escalation check and of the reminder dispatch does to the database, on a quiet network
  and with the durable dispatcher: which pending stages get a job, and which job. The two jobs share the
  contract \<open>discovery_job\<close>: an item either fails, or is passed over, or places one job, as a function of
  the tables alone.
\<close>

section \<open>The pages\<close>

definition pending_in_order :: "timestamp \<Rightarrow> 'z db_scheme \<Rightarrow> stage_record list" where
  "pending_in_order cutoff s =
     sort_key st_created_at (filter (\<lambda>st. st_status st = StagePending \<and> st_created_at st \<le> cutoff) (t_stages s))"

lemma more_pages:
  fixes n m k :: nat
  assumes "0 < m"
  shows "- (- int n div int m) \<le> int k \<longleftrightarrow> n \<le> k * m"
proof -
  have "- int k \<le> - int n div int m \<longleftrightarrow> - int k * int m \<le> - int n"
    using assms by (intro le_div_iff_mult_le_int) simp
  then show ?thesis by (simp flip: of_nat_mult) linarith
qed

lemma pending_pages_run:
  assumes "quiet s" "0 < m" "m \<le> 100" "n = int k + 1"
  shows "pending_pages left cutoff (int m) n s =
    (Inr (take (left * m) (drop (k * m) (pending_in_order cutoff s))), s)"
  using assms(4)
proof (induction left arbitrary: k n)
  case (Suc left)
  let ?xs = "pending_in_order cutoff s"
  have p: "Page n (int m) = Inr \<lparr>pg_number = n, pg_size = int m\<rparr>"
    using assms(2,3) Suc.prems by (simp add: Page_def MAX_PAGE_SIZE_def)
  have range: "row_range (page_offset \<lparr>pg_number = n, pg_size = int m\<rparr>)
      (page_upper_bound \<lparr>pg_number = n, pg_size = int m\<rparr>) ?xs = take m (drop (k * m) ?xs)"
    using row_range_page [OF p, of ?xs] Suc.prems by (simp add: nat_mult_distrib)
  have run: "list_overdue_stages_all_companies cutoff \<lparr>pg_number = n, pg_size = int m\<rparr> s =
      (Inr \<lparr>res_items = take m (drop (k * m) ?xs), res_page = n, res_page_size = int m,
            res_total_records = int (length ?xs)\<rparr>, s)"
    using assms(1) range
    by (simp add: list_overdue_stages_all_companies_def paginate_quiet pending_in_order_def)
  have split: "take (Suc left * m) (drop (k * m) ?xs) =
      take m (drop (k * m) ?xs) @ take (left * m) (drop (Suc k * m) ?xs)"
    by (simp add: take_add add.commute)
  have pages: "total_pages \<lparr>res_items = ys, res_page = n, res_page_size = int m,
      res_total_records = int (length ?xs)\<rparr> \<le> n \<longleftrightarrow> length ?xs \<le> Suc k * m" for ys :: "stage_record list"
    using more_pages [OF assms(2), of "length ?xs" "Suc k"] assms(2) Suc.prems by (simp add: total_pages_def add.commute)
  have rest: "pending_pages left cutoff (int m) (n + 1) s = (Inr (take (left * m) (drop (Suc k * m) ?xs)), s)"
    using Suc.prems by (intro Suc.IH) simp
  have "length ?xs \<le> k * m \<Longrightarrow> length ?xs \<le> Suc k * m" by simp
  then show ?case
    using assms(2) by (auto simp: p run pages split rest and_then_def eff_simps simp del: mult_Suc)
qed (simp add: eff_simps)

lemma iter_pending_stages_run:
  assumes "quiet s"
  shows "iter_pending_stages DISCOVERY_PAGE_SIZE DISCOVERY_MAX_PAGES s =
    (Inr (take 5000 (pending_in_order (clock s) s)), s)"
  using pending_pages_run [OF assms, of 100 1 0 50 "clock s"]
  by (simp add: iter_pending_stages_def DISCOVERY_PAGE_SIZE_def DISCOVERY_MAX_PAGES_def and_then_def eff_simps)

section \<open>The context of a stage, and the cache\<close>

definition request_of :: "'z db_scheme \<Rightarrow> uuid \<Rightarrow> request_record fallible" where
  "request_of s i = (case filter (\<lambda>r. rq_id r = i) (t_requests s) of
     [] \<Rightarrow> Inl (Raised (Db (RecordNotFoundError ''requests'' i))) | r # _ \<Rightarrow> Inr r)"

definition definition_of :: "'z db_scheme \<Rightarrow> uuid \<Rightarrow> workflow_definition fallible" where
  "definition_of s i = (case filter (\<lambda>d. df_id d = i) (t_definitions s) of
     [] \<Rightarrow> Inl (Raised (Db (RecordNotFoundError ''workflow_definitions'' i)))
   | d # _ \<Rightarrow> map_workflow_definition_record_to_domain d)"

definition context_of :: "'z db_scheme \<Rightarrow> stage_record \<Rightarrow> stage_context fallible" where
  "context_of s st = bind_result (request_of s (st_request_id st)) (\<lambda>request.
     bind_result (definition_of s (rq_workflow_definition_id request)) (\<lambda>d. matching_context st request d))"

lemma get_request_quiet: "quiet s \<Longrightarrow> get_request_row i s = (request_of s i, s)"
  by (auto simp: get_request_row_def requests.get_by_id_delivered quiet_def request_of_def split: list.splits)

lemma fetch_definition_quiet: "quiet s \<Longrightarrow> fetch_definition i s = (definition_of s i, s)"
  by (auto simp: fetch_definition_def definitions.get_by_id_delivered quiet_def definition_of_def and_then_def eff_simps
      split: list.splits)

lemma load_stage_context_quiet: "quiet s \<Longrightarrow> load_stage_context st s = (context_of s st, s)"
  by (auto simp: load_stage_context_def get_request_quiet fetch_definition_quiet context_of_def bind_result_def
      and_then_def eff_simps split: sum.splits)

definition cache_sound :: "'z db_scheme \<Rightarrow> definition_cache \<Rightarrow> bool" where
  "cache_sound s c \<longleftrightarrow> (\<forall>i d. c i = Some d \<longrightarrow> definition_of s i = Inr d)"

lemma cache_sound_empty [simp]: "cache_sound s Map.empty"
  by (simp add: cache_sound_def)

lemma cached_definition_quiet:
  assumes "quiet s" "cache_sound s c"
  shows "\<exists>c'. cache_sound s c' \<and> cached_definition i (s, c) = (definition_of s i, s, c')"
  using assms
  by (cases "c i"; cases "definition_of s i")
     (auto simp: cached_definition_def on_db_def fetch_definition_quiet and_then_def eff_simps cache_sound_def
       split: option.splits)

text \<open>With a sound cache a stage's context is what the uncached function computes.\<close>

lemma load_cached_quiet:
  assumes "quiet s" "cache_sound s c"
  obtains c' where "cache_sound s c'" "load_stage_context_cached st (s, c) = (context_of s st, s, c')"
proof (cases "request_of s (st_request_id st)")
  case (Inl e)
  then have "load_stage_context_cached st (s, c) = (context_of s st, s, c)"
    using assms(1)
    by (simp add: load_stage_context_cached_def context_of_def on_db_def get_request_quiet and_then_def bind_result_def)
  then show ?thesis using assms(2) by (rule that [rotated])
next
  case (Inr rq)
  obtain c' where c': "cache_sound s c'"
    "cached_definition (rq_workflow_definition_id rq) (s, c) = (definition_of s (rq_workflow_definition_id rq), s, c')"
    using cached_definition_quiet [OF assms] by blast
  then have "load_stage_context_cached st (s, c) = (context_of s st, s, c')"
    using assms(1) Inr
    by (auto simp: load_stage_context_cached_def context_of_def on_db_def get_request_quiet and_then_def bind_result_def
        eff_simps split: sum.splits)
  with c'(1) show ?thesis by (rule that)
qed

section \<open>Placing a job\<close>

definition queued_row :: "timestamp \<Rightarrow> uuid \<Rightarrow> job_order \<Rightarrow> job_record" where
  "queued_row now i order =
     \<lparr>jb_id = i, jb_task_type = jo_task_type order, jb_queue_name = jo_queue_name order,
      jb_priority = job_priority_value (jo_priority order), jb_status = ''queued'', jb_payload = jo_payload order,
      jb_attempts = 0, jb_max_attempts = jo_max_attempts order, jb_last_error = None, jb_error_history = [],
      jb_scheduled_for = None, jb_started_at = None, jb_finished_at = None, jb_locked_by = None,
      jb_request_id = Some (jo_request_id order), jb_actor_id = None, jb_version = 1, jb_created_at = now\<rparr>"

text \<open>Everything but the jobs, the next identifier and what the Redis server holds.\<close>

definition same_tables :: "'z job_db_scheme \<Rightarrow> 'z job_db_scheme \<Rightarrow> bool" where
  "same_tables s t \<longleftrightarrow> (job_db.truncate t)\<lparr>t_jobs := [], next_uuid := 0\<rparr> = (job_db.truncate s)\<lparr>t_jobs := [], next_uuid := 0\<rparr>"

lemma same_tables_iff:
  "same_tables s t \<longleftrightarrow> t_profiles t = t_profiles s \<and> t_definitions t = t_definitions s \<and> t_requests t = t_requests s \<and>
     t_stages t = t_stages s \<and> t_audit t = t_audit s \<and> t_notifications t = t_notifications s \<and>
     t_preferences t = t_preferences s \<and> clock t = clock s \<and> net t = net s"
  by (simp add: same_tables_def job_db.defs)

text \<open>A Redis command that touches no table and no network of the database; it may fail.\<close>

definition off_database :: "('z job_db_scheme, 'a) eff \<Rightarrow> bool" where
  "off_database m \<longleftrightarrow> (\<forall>s. job_db.truncate (snd (m s)) = job_db.truncate s)"

definition placed :: "'z job_db_scheme \<Rightarrow> job_order list \<Rightarrow> 'z job_db_scheme \<Rightarrow> bool" where
  "placed s orders t \<longleftrightarrow> same_tables s t \<and> next_uuid t = next_uuid s + length orders \<and>
     t_jobs t = t_jobs s @ map2 (queued_row (clock s)) [next_uuid s..<next_uuid s + length orders] orders"

lemma placed_Nil [simp]: "placed s [] s"
  by (simp add: placed_def same_tables_def)

lemma placed_append:
  assumes "placed s xs t" "placed t ys u"
  shows "placed s (xs @ ys) u"
proof -
  have "[next_uuid s..<next_uuid s + length xs + length ys] =
      [next_uuid s..<next_uuid s + length xs] @ [next_uuid t..<next_uuid t + length ys]"
    using assms(1) upt_add_eq_append [of "next_uuid s" "next_uuid s + length xs" "length ys"] by (simp add: placed_def)
  then show ?thesis using assms by (auto simp: placed_def same_tables_iff add.assoc)
qed

lemma quiet_placed: "placed s xs t \<Longrightarrow> quiet t = quiet s"
  by (simp add: placed_def same_tables_iff quiet_def)

lemma durable_places:
  assumes "quiet s" "off_database (push_ready R (jo_queue_name order) (jo_priority order) (show_uuid (next_uuid s)))"
    and "jo_request_id order \<in> rq_id ` set (t_requests s)" "0 \<le> jo_max_attempts order"
  obtains t where "durable_dispatcher R show_uuid n order s = (Inr (), t)" "placed s [order] t"
proof -
  let ?u = "s\<lparr>t_jobs := t_jobs s @ [queued_row (clock s) (next_uuid s) order], next_uuid := Suc (next_uuid s)\<rparr>"
  let ?push = "push_ready R (jo_queue_name order) (jo_priority order) (show_uuid (next_uuid s))"
  have "job_priority_value (jo_priority order) \<in> {''high'', ''normal'', ''low''}"
    by (cases "jo_priority order") simp_all
  then have ok: "check_job s (queued_row (clock s) (next_uuid s) order) = None"
    using assms(3,4) by (simp add: check_job_None queued_row_def)
  have "create_job (jo_task_type order) (jo_queue_name order) (job_priority_value (jo_priority order)) (jo_payload order)
      (jo_max_attempts order) None (Some (jo_request_id order)) None s = (Inr (queued_row (clock s) (next_uuid s) order), ?u)"
    using assms(1) ok unfolding create_job_def by (subst insert_quiet) (simp_all add: queued_row_def)
  then have "durable_dispatcher R show_uuid n order s = (Inr (), snd (?push ?u))"
    by (auto simp: durable_dispatcher_def enqueue_def and_then_def handle_def eff_simps queued_row_def
        split: prod.splits sum.splits)
  moreover have "placed s [order] (snd (?push ?u))"
    using assms(2) unfolding off_database_def placed_def same_tables_def
    by (simp add: job_db.defs)
  ultimately show ?thesis by (rule that)
qed


section \<open>The contract of the two jobs\<close>

locale discovery_job =
  fixes evaluate :: "stage_record \<Rightarrow> ('z job_db_scheme \<times> definition_cache, unit) eff"
    and decision :: "'z job_db_scheme \<Rightarrow> stage_record \<Rightarrow> job_order option fallible"
  assumes decision_tables: "same_tables s t \<Longrightarrow> decision t = decision s"
    and evaluate_step: "quiet s \<Longrightarrow> cache_sound s c \<Longrightarrow> \<exists>t c'. cache_sound s c' \<and>
      (case decision s st of
         Inl e \<Rightarrow> evaluate st (s, c) = (Inl e, s, c')
       | Inr order \<Rightarrow> evaluate st (s, c) = (Inr (), t, c') \<and>
           placed s (case order of None \<Rightarrow> [] | Some order \<Rightarrow> [order]) t)"
begin

definition orders :: "'z job_db_scheme \<Rightarrow> stage_record list \<Rightarrow> job_order list" where
  "orders s xs = List.map_filter (\<lambda>x. case decision s x of Inl _ \<Rightarrow> None | Inr order \<Rightarrow> order) xs"

lemma orders_simps [simp]:
  "orders s [] = []"
  "orders s (x # xs) = (case decision s x of Inl _ \<Rightarrow> [] | Inr None \<Rightarrow> [] | Inr (Some order) \<Rightarrow> [order]) @ orders s xs"
  by (auto simp: orders_def List.map_filter_def split: sum.splits option.splits)

lemma run_items:
  assumes "quiet s" "cache_sound s c"
  shows "\<exists>t c'. run_over_items evaluate xs (s, c) =
      (Inr (length (filter (\<lambda>x. is_ok (decision s x)) xs), length (filter (\<lambda>x. \<not> is_ok (decision s x)) xs)), t, c') \<and>
    placed s (orders s xs) t"
  using assms
proof (induction xs arbitrary: s c)
  case Nil
  then show ?case by (simp add: eff_simps)
next
  case (Cons x xs)
  obtain t c' where sound: "cache_sound s c'" and step:
    "case decision s x of
       Inl e \<Rightarrow> evaluate x (s, c) = (Inl e, s, c')
     | Inr order \<Rightarrow> evaluate x (s, c) = (Inr (), t, c') \<and> placed s (case order of None \<Rightarrow> [] | Some order \<Rightarrow> [order]) t"
    using evaluate_step [OF Cons.prems, of x] by blast
  show ?case
  proof (cases "decision s x")
    case (Inl e)
    obtain u c'' where "run_over_items evaluate xs (s, c') =
        (Inr (length (filter (\<lambda>x. is_ok (decision s x)) xs), length (filter (\<lambda>x. \<not> is_ok (decision s x)) xs)), u, c'')"
      "placed s (orders s xs) u"
      using Cons.IH [OF Cons.prems(1) sound] by blast
    with step Inl show ?thesis by (simp add: and_then_def handle_def eff_simps is_ok_def)
  next
    case (Inr order)
    with step have x: "evaluate x (s, c) = (Inr (), t, c')" "placed s (case order of None \<Rightarrow> [] | Some order \<Rightarrow> [order]) t"
      by simp_all
    then have same: "same_tables s t" by (simp add: placed_def)
    then have "cache_sound t c'" using sound by (simp add: cache_sound_def definition_of_def same_tables_iff)
    moreover have "quiet t" using quiet_placed [OF x(2)] Cons.prems(1) by simp
    ultimately obtain u c'' where xs: "run_over_items evaluate xs (t, c') =
        (Inr (length (filter (\<lambda>x. is_ok (decision t x)) xs), length (filter (\<lambda>x. \<not> is_ok (decision t x)) xs)), u, c'')"
      "placed t (orders t xs) u"
      using Cons.IH by blast
    have "orders t xs = orders s xs" unfolding orders_def decision_tables [OF same] ..
    with placed_append [OF x(2) xs(2)] Inr have "placed s (orders s (x # xs)) u" by (auto split: option.splits)
    with x(1) xs(1) Inr show ?thesis
      by (simp add: and_then_def handle_def eff_simps is_ok_def decision_tables [OF same])
  qed
qed

lemma execute_run:
  assumes "quiet s"
  shows "\<exists>t. execute_over_pending evaluate s =
      (Inr (length (filter (\<lambda>x. is_ok (decision s x)) (take 5000 (pending_in_order (clock s) s))),
            length (filter (\<lambda>x. \<not> is_ok (decision s x)) (take 5000 (pending_in_order (clock s) s)))), t) \<and>
    placed s (orders s (take 5000 (pending_in_order (clock s) s))) t"
  using run_items [OF assms cache_sound_empty, of "take 5000 (pending_in_order (clock s) s)"]
  by (auto simp: execute_over_pending_def and_then_def iter_pending_stages_run [OF assms])

end

section \<open>What the two jobs decide\<close>

definition escalation_decision :: "(uuid \<Rightarrow> string) \<Rightarrow> 'z job_db_scheme \<Rightarrow> stage_record \<Rightarrow> job_order option fallible" where
  "escalation_decision show_uuid s st =
     bind_result (context_of s st) (\<lambda>ctx.
     bind_result (is_eligible (st_created_at st) (sd_escalation_hours (sx_definition ctx)) (clock s)) (\<lambda>eligible.
       Inr (if eligible then Some (escalation_order show_uuid st) else None)))"

definition reminded :: "'z db_scheme \<Rightarrow> rat \<Rightarrow> uuid \<Rightarrow> uuid \<Rightarrow> bool" where
  "reminded s cooldown_hours recipient request_id =
     reminder_among request_id cooldown_hours (clock s) (take 50 (order_desc nt_created_at (filter (\<lambda>n.
       nt_recipient_id n = recipient \<and> nt_archived_at n = None) (t_notifications s))))"

definition reminder_decision ::
  "(uuid \<Rightarrow> string) \<Rightarrow> rat \<Rightarrow> rat \<Rightarrow> 'z job_db_scheme \<Rightarrow> stage_record \<Rightarrow> job_order option fallible" where
  "reminder_decision show_uuid lead_time_hours cooldown_hours s st =
     (case st_assigned_to st of
        None \<Rightarrow> Inr None
      | Some recipient \<Rightarrow>
          bind_result (context_of s st) (\<lambda>ctx.
          let hours = sd_escalation_hours (sx_definition ctx) in
          bind_result (is_eligible (st_created_at st) hours (clock s)) (\<lambda>eligible.
            Inr (if \<not> eligible \<and> hours - hours_between (st_created_at st) (clock s) \<le> lead_time_hours \<and>
                    \<not> reminded s cooldown_hours recipient (st_request_id st)
                 then Some (reminder_order show_uuid st recipient (sx_request ctx)) else None))))"

lemma context_of_Inr:
  assumes "context_of s st = Inr ctx"
  shows "st_request_id st \<in> rq_id ` set (t_requests s)" "request_of s (st_request_id st) = Inr (sx_request ctx)"
proof -
  obtain rq where rq: "request_of s (st_request_id st) = Inr rq" "sx_request ctx = rq"
    using assms by (auto simp: context_of_def bind_result_def matching_context_def split: sum.splits list.splits)
  then show "request_of s (st_request_id st) = Inr (sx_request ctx)" by simp
  from rq(1) show "st_request_id st \<in> rq_id ` set (t_requests s)"
    by (auto simp: request_of_def split: list.splits dest!: filter_eq_ConsD)
qed

lemma recently_reminded_quiet:
  "quiet s \<Longrightarrow> recently_reminded cooldown recipient st s = (Inr (reminded s cooldown recipient (st_request_id st)), s)"
  by (simp add: recently_reminded_def DUPLICATE_CHECK_PAGE_SIZE_def Page_def MAX_PAGE_SIZE_def list_for_recipient_def
      paginate_quiet and_then_def eff_simps reminded_def eq_filter_def row_range_def page_offset_def page_upper_bound_def)

lemma order_fields [simp]:
  "jo_request_id (escalation_order sh st) = st_request_id st" "jo_max_attempts (escalation_order sh st) = 3"
  "jo_request_id (reminder_order sh st u rq) = st_request_id st" "jo_max_attempts (reminder_order sh st u rq) = 3"
  by (simp_all add: escalation_order_def reminder_order_def ESCALATE_STAGE_MAX_ATTEMPTS_def SEND_REMINDER_MAX_ATTEMPTS_def)

lemma same_tables_reads:
  assumes "same_tables s t"
  shows "context_of t = context_of s" "reminded t = reminded s" "clock t = clock s"
  using assms
  by (simp_all add: fun_eq_iff context_of_def request_of_def definition_of_def reminded_def same_tables_iff)

locale durable_queue =
  fixes R :: "'z job_db_scheme redis_client"
  assumes push_off_database: "off_database (push_ready R queue_name priority i)"

sublocale durable_queue \<subseteq> escalation: discovery_job
  "evaluate_and_escalate_if_eligible (durable_dispatcher R show_uuid n) show_uuid" "escalation_decision show_uuid"
  for show_uuid n
proof unfold_locales
  fix s t :: "'z job_db_scheme"
  assume "same_tables s t"
  then show "escalation_decision show_uuid t = escalation_decision show_uuid s"
    unfolding fun_eq_iff escalation_decision_def by (simp only: same_tables_reads simp_thms)
next
  fix s :: "'z job_db_scheme" and c st
  assume s: "quiet s" "cache_sound s c"
  let ?e = "evaluate_and_escalate_if_eligible (durable_dispatcher R show_uuid n) show_uuid"
  obtain c' where c': "cache_sound s c'" and load: "load_stage_context_cached st (s, c) = (context_of s st, s, c')"
    using load_cached_quiet [OF s] .
  have "\<exists>t. case escalation_decision show_uuid s st of
         Inl e \<Rightarrow> ?e st (s, c) = (Inl e, s, c')
       | Inr order \<Rightarrow> ?e st (s, c) = (Inr (), t, c') \<and> placed s (case order of None \<Rightarrow> [] | Some order \<Rightarrow> [order]) t"
  proof (cases "context_of s st")
    case (Inl e)
    then show ?thesis
      by (simp add: escalation_decision_def bind_result_def evaluate_and_escalate_if_eligible_def and_then_def load)
  next
    case (Inr ctx)
    obtain t where "durable_dispatcher R show_uuid n (escalation_order show_uuid st) s = (Inr (), t)"
      "placed s [escalation_order show_uuid st] t"
      using durable_places [OF s(1) push_off_database, of "escalation_order show_uuid st"] context_of_Inr [OF Inr] by auto
    then show ?thesis using Inr
      by (intro exI [of _ "if is_eligible (st_created_at st) (sd_escalation_hours (sx_definition ctx)) (clock s) = Inr True then t else s"])
         (auto simp: escalation_decision_def bind_result_def evaluate_and_escalate_if_eligible_def and_then_def load
           on_db_def eff_simps split: sum.splits)
  qed
  with c' show "\<exists>t c'. cache_sound s c' \<and> (case escalation_decision show_uuid s st of
         Inl e \<Rightarrow> ?e st (s, c) = (Inl e, s, c')
       | Inr order \<Rightarrow> ?e st (s, c) = (Inr (), t, c') \<and> placed s (case order of None \<Rightarrow> [] | Some order \<Rightarrow> [order]) t)"
    by blast
qed

sublocale durable_queue \<subseteq> reminder: discovery_job
  "evaluate_and_remind_if_due (durable_dispatcher R show_uuid n) show_uuid lead cooldown"
  "reminder_decision show_uuid lead cooldown"
  for show_uuid n lead cooldown
proof unfold_locales
  fix s t :: "'z job_db_scheme"
  assume "same_tables s t"
  then show "reminder_decision show_uuid lead cooldown t = reminder_decision show_uuid lead cooldown s"
    unfolding fun_eq_iff reminder_decision_def by (simp only: same_tables_reads simp_thms)
next
  fix s :: "'z job_db_scheme" and c st
  assume s: "quiet s" "cache_sound s c"
  let ?e = "evaluate_and_remind_if_due (durable_dispatcher R show_uuid n) show_uuid lead cooldown"
  obtain c' where c': "cache_sound s c'" and load: "load_stage_context_cached st (s, c) = (context_of s st, s, c')"
    using load_cached_quiet [OF s] .
  show "\<exists>t c'. cache_sound s c' \<and> (case reminder_decision show_uuid lead cooldown s st of
         Inl e \<Rightarrow> ?e st (s, c) = (Inl e, s, c')
       | Inr order \<Rightarrow> ?e st (s, c) = (Inr (), t, c') \<and> placed s (case order of None \<Rightarrow> [] | Some order \<Rightarrow> [order]) t)"
  proof (cases "st_assigned_to st")
    case None
    with s(2) show ?thesis
      by (intro exI [of _ s] exI [of _ c]) (simp add: reminder_decision_def evaluate_and_remind_if_due_def eff_simps)
  next
    case (Some recipient)
    show ?thesis
    proof (cases "context_of s st")
      case (Inl e)
      with c' Some show ?thesis
        by (intro exI [of _ s] exI [of _ c'])
           (simp add: reminder_decision_def bind_result_def evaluate_and_remind_if_due_def and_then_def load)
    next
      case (Inr ctx)
      let ?order = "reminder_order show_uuid st recipient (sx_request ctx)"
      let ?hours = "sd_escalation_hours (sx_definition ctx)"
      let ?due = "is_eligible (st_created_at st) ?hours (clock s) = Inr False \<and>
          ?hours - hours_between (st_created_at st) (clock s) \<le> lead \<and> \<not> reminded s cooldown recipient (st_request_id st)"
      obtain t where "durable_dispatcher R show_uuid n ?order s = (Inr (), t)" "placed s [?order] t"
        using durable_places [OF s(1) push_off_database, of ?order] context_of_Inr [OF Inr] by auto
      with c' Some Inr s(1) show ?thesis
        by (intro exI [of _ "if ?due then t else s"] exI [of _ c'])
           (auto simp: reminder_decision_def bind_result_def evaluate_and_remind_if_due_def and_then_def load on_db_def
             eff_simps recently_reminded_quiet Let_def split: sum.splits)
    qed
  qed
qed

section \<open>A run of the job\<close>

definition overdue :: "'z db_scheme \<Rightarrow> stage_record \<Rightarrow> bool" where
  "overdue s st = (case context_of s st of Inl _ \<Rightarrow> False
     | Inr ctx \<Rightarrow> is_eligible (st_created_at st) (sd_escalation_hours (sx_definition ctx)) (clock s) = Inr True)"

definition placed_by :: "(stage_record \<Rightarrow> job_order option fallible) \<Rightarrow> stage_record list \<Rightarrow> job_order list" where
  "placed_by decide xs = List.map_filter (\<lambda>x. case decide x of Inl _ \<Rightarrow> None | Inr order \<Rightarrow> order) xs"

definition run_summary :: "string \<Rightarrow> timestamp \<Rightarrow> (stage_record \<Rightarrow> 'a fallible) \<Rightarrow> stage_record list \<Rightarrow> execution_result" where
  "run_summary name now decide xs =
     \<lparr>er_job_name = name, er_started_at = now, er_finished_at = now, er_success = True,
      er_items_processed = length (filter (\<lambda>x. is_ok (decide x)) xs),
      er_items_failed = length (filter (\<lambda>x. \<not> is_ok (decide x)) xs), er_error_message = None\<rparr>"

definition candidates :: "'z db_scheme \<Rightarrow> stage_record list" where
  "candidates s = take 5000 (pending_in_order (clock s) s)"

lemma base_job_run_ok:
  "body s = (Inr (ok, bad), t) \<Longrightarrow> clock t = clock s \<Longrightarrow>
   base_job_run describe name body s = (Inr \<lparr>er_job_name = name, er_started_at = clock s, er_finished_at = clock s,
     er_success = True, er_items_processed = ok, er_items_failed = bad, er_error_message = None\<rparr>, t)"
  by (simp add: base_job_run_def and_then_def handle_def eff_simps)

lemma placed_same [simp]: "placed s xs t \<Longrightarrow> clock t = clock s"
  by (simp add: placed_def same_tables_iff)

context durable_queue
begin

lemma escalation_execute_run:
  assumes "quiet s"
  shows "\<exists>t. escalation_execute (durable_dispatcher R show_uuid n) show_uuid s =
      (Inr (length (filter (\<lambda>x. is_ok (escalation_decision show_uuid s x)) (candidates s)),
            length (filter (\<lambda>x. \<not> is_ok (escalation_decision show_uuid s x)) (candidates s))), t) \<and>
    placed s (placed_by (escalation_decision show_uuid s) (candidates s)) t"
  using escalation.execute_run [OF assms, of show_uuid n]
  by (simp add: escalation_execute_def candidates_def placed_by_def escalation.orders_def)

lemma escalation_run:
  assumes "quiet s"
  shows "\<exists>t. base_job_run describe name (escalation_execute (durable_dispatcher R show_uuid n) show_uuid) s =
      (Inr (run_summary name (clock s) (escalation_decision show_uuid s) (candidates s)), t) \<and>
    placed s (placed_by (escalation_decision show_uuid s) (candidates s)) t"
  using escalation.execute_run [OF assms, of show_uuid n]
  by (auto simp: escalation_execute_def base_job_run_ok run_summary_def candidates_def placed_by_def
      escalation.orders_def)

lemma reminder_run:
  assumes "quiet s"
  shows "\<exists>t. base_job_run describe name (reminder_execute (durable_dispatcher R show_uuid n) show_uuid lead cooldown) s =
      (Inr (run_summary name (clock s) (reminder_decision show_uuid lead cooldown s) (candidates s)), t) \<and>
    placed s (placed_by (reminder_decision show_uuid lead cooldown s) (candidates s)) t"
  using reminder.execute_run [OF assms, of show_uuid n lead cooldown]
  by (auto simp: reminder_execute_def base_job_run_ok run_summary_def candidates_def placed_by_def
      reminder.orders_def)

end

interpretation system_queue: durable_queue system_redis
  by unfold_locales
     (auto simp: off_database_def push_ready_def system_redis_def memory_redis_def job_db.defs)

lemma placed_by_escalation:
  "placed_by (escalation_decision show_uuid s) xs = map (escalation_order show_uuid) (filter (overdue s) xs)"
  by (induction xs)
     (auto simp: placed_by_def List.map_filter_def escalation_decision_def overdue_def bind_result_def
       split: sum.splits)

lemma candidates_same: "same_tables s t \<Longrightarrow> candidates t = candidates s"
  by (simp add: candidates_def pending_in_order_def same_tables_iff)

text \<open>
  C37. A run of the escalation check with the durable dispatcher, on a quiet network: it considers the first
  5000 pending stages in the order of their creation, places one high-priority job of three attempts for
  every one whose request, definition and stage configuration can be read and whose threshold has passed,
  in that order, and changes nothing else; it reports the stages whose context cannot be read as failed items.
\<close>

theorem escalation_check_effect:
  assumes "durable_queue R" "quiet s"
  shows "\<exists>t. base_job_run describe ''escalation_check'' (escalation_execute (durable_dispatcher R show_uuid n) show_uuid) s =
      (Inr (run_summary ''escalation_check'' (clock s) (escalation_decision show_uuid s) (candidates s)), t) \<and>
    placed s (map (escalation_order show_uuid) (filter (overdue s) (candidates s))) t"
  using durable_queue.escalation_run [OF assms, of describe "''escalation_check''" show_uuid n]
  unfolding placed_by_escalation .

text \<open>
  A second run places the same jobs once more: neither a job of the first run that is still queued nor
  one that was executed and left the stage pending keeps the check from escalating the stage again.
\<close>

theorem escalation_check_repeats:
  assumes "durable_queue R" "quiet s"
    and "escalation_execute (durable_dispatcher R show_uuid n) show_uuid s = (r, t)"
  shows "\<exists>u. escalation_execute (durable_dispatcher R show_uuid n) show_uuid t = (r, u) \<and>
    placed s (map (escalation_order show_uuid) (filter (overdue s) (candidates s)) @
              map (escalation_order show_uuid) (filter (overdue s) (candidates s))) u"
proof -
  let ?run = "escalation_execute (durable_dispatcher R show_uuid n) show_uuid"
  let ?orders = "\<lambda>s. map (escalation_order show_uuid) (filter (overdue s) (candidates s))"
  let ?count = "\<lambda>s. (length (filter (\<lambda>x. is_ok (escalation_decision show_uuid s x)) (candidates s)),
      length (filter (\<lambda>x. \<not> is_ok (escalation_decision show_uuid s x)) (candidates s)))"
  have run: "\<exists>v. ?run u = (Inr (?count u), v) \<and> placed u (?orders u) v" if "quiet u" for u
    using durable_queue.escalation_execute_run [OF assms(1) that, of show_uuid n] by (simp add: placed_by_escalation)
  from run [OF assms(2)] assms(3) have t: "r = Inr (?count s)" "placed s (?orders s) t" by auto
  then have same: "same_tables s t" by (simp add: placed_def)
  have "quiet t" using quiet_placed [OF t(2)] assms(2) by simp
  from run [OF this] obtain u where u: "?run t = (Inr (?count t), u)" "placed t (?orders t) u" by blast
  have "overdue t = overdue s"
    unfolding fun_eq_iff overdue_def by (simp only: same_tables_reads [OF same] simp_thms)
  moreover have "escalation_decision show_uuid t = escalation_decision show_uuid s"
    unfolding fun_eq_iff escalation_decision_def by (simp only: same_tables_reads [OF same] simp_thms)
  ultimately show ?thesis using u t placed_append [OF t(2) u(2)] by (simp add: candidates_same [OF same])
qed

definition overdue_system :: job_system where
  "overdue_system = (system_of [])\<lparr>t_stages := t_stages (sample_db []), clock := 1000000000000\<rparr>"

definition one_uuid :: "uuid \<Rightarrow> string" where "one_uuid i = ''30''"

lemma overdue_system_quiet: "quiet overdue_system"
  by (simp add: overdue_system_def quiet_def system_of_def)

lemma overdue_system_facts:
  "filter (overdue overdue_system) (candidates overdue_system) = t_stages (sample_db [])"
  "fst (escalation_execute (durable_dispatcher system_redis one_uuid 5) one_uuid overdue_system) = Inr (1, 0)"
  "next_uuid overdue_system = 1000" "clock overdue_system = 1000000000000" "t_jobs overdue_system = []"
  by code_simp+

theorem escalation_check_effect_witness:
  "t_jobs (snd (base_job_run (\<lambda>_. []) ''escalation_check''
       (escalation_execute (durable_dispatcher system_redis one_uuid 5) one_uuid) overdue_system)) =
     map2 (queued_row 1000000000000) [1000] (map (escalation_order one_uuid) (t_stages (sample_db [])))"
proof -
  obtain t where t: "base_job_run (\<lambda>_. []) ''escalation_check''
      (escalation_execute (durable_dispatcher system_redis one_uuid 5) one_uuid) overdue_system =
      (Inr (run_summary ''escalation_check'' (clock overdue_system) (escalation_decision one_uuid overdue_system)
         (candidates overdue_system)), t)"
    "placed overdue_system (map (escalation_order one_uuid)
        (filter (overdue overdue_system) (candidates overdue_system))) t"
    using escalation_check_effect [OF system_queue.durable_queue_axioms overdue_system_quiet] by blast
  have "length (t_stages (sample_db [])) = 1" by code_simp
  with t show ?thesis by (simp add: placed_def overdue_system_facts upt_rec)
qed

theorem escalation_check_repeats_witness:
  "\<exists>t u. escalation_execute (durable_dispatcher system_redis one_uuid 5) one_uuid overdue_system = (Inr (1, 0), t) \<and>
    escalation_execute (durable_dispatcher system_redis one_uuid 5) one_uuid t = (Inr (1, 0), u) \<and>
    placed overdue_system (map (escalation_order one_uuid) (t_stages (sample_db []) @ t_stages (sample_db []))) u"
proof -
  let ?run = "escalation_execute (durable_dispatcher system_redis one_uuid 5) one_uuid"
  have "?run overdue_system = (Inr (1, 0), snd (?run overdue_system))"
    using overdue_system_facts(2) by (metis prod.collapse)
  from escalation_check_repeats [OF system_queue.durable_queue_axioms overdue_system_quiet this] this
  show ?thesis by (auto simp: overdue_system_facts(1))
qed

section \<open>Reminders\<close>

lemma is_eligible_cases:
  "is_eligible created hours now = (if 0 < hours then Inr (add_hours created hours < now)
     else Inl (Raised (Py (InputValidationError ''escalation_hours''))))"
  by (auto simp: is_eligible_def compute_threshold_def validate_positive_number_def bind_result_def is_past_def)

lemma reminder_decision_Some:
  "reminder_decision show_uuid lead cooldown s st = Inr (Some order) \<longleftrightarrow>
     (\<exists>recipient ctx. st_assigned_to st = Some recipient \<and> context_of s st = Inr ctx \<and>
        0 < sd_escalation_hours (sx_definition ctx) \<and>
        clock s \<le> add_hours (st_created_at st) (sd_escalation_hours (sx_definition ctx)) \<and>
        sd_escalation_hours (sx_definition ctx) - hours_between (st_created_at st) (clock s) \<le> lead \<and>
        \<not> reminded s cooldown recipient (st_request_id st) \<and>
        order = reminder_order show_uuid st recipient (sx_request ctx))"
proof (cases "st_assigned_to st")
  case (Some recipient)
  show ?thesis
  proof (cases "context_of s st")
    case (Inr ctx)
    with Some show ?thesis
      by (cases "add_hours (st_created_at st) (sd_escalation_hours (sx_definition ctx)) < clock s")
         (auto simp: reminder_decision_def bind_result_def is_eligible_cases Let_def)
  qed (simp add: Some reminder_decision_def bind_result_def)
qed (simp add: reminder_decision_def)

lemma reminder_decision_archived:
  "reminder_decision show_uuid lead cooldown (s\<lparr>t_notifications := filter (\<lambda>n. nt_archived_at n = None) (t_notifications s)\<rparr>) st =
   reminder_decision show_uuid lead cooldown s st"
proof -
  have "context_of (s\<lparr>t_notifications := ns\<rparr>) = context_of s" for ns
    by (simp add: fun_eq_iff context_of_def request_of_def definition_of_def)
  moreover have "reminded (s\<lparr>t_notifications := filter (\<lambda>n. nt_archived_at n = None) (t_notifications s)\<rparr>) = reminded s"
    by (simp add: fun_eq_iff reminded_def conj_commute conj_left_commute)
  moreover have "clock (s\<lparr>t_notifications := ns\<rparr>) = clock s" for ns by simp
  ultimately show ?thesis unfolding reminder_decision_def by (simp only: simp_thms)
qed

text \<open>
  C38. A run of the reminder dispatch places one low-priority job for every one of the first 5000 pending
  stages that has an assignee of its own, has not passed its threshold but is within the lead time of it,
  and whose assignee has no reminder for the request within the cooldown among the 50 newest notifications
  that are not archived; archived notifications never make a difference.
\<close>

theorem reminder_dispatch_effect:
  assumes "durable_queue R" "quiet s"
  shows "(\<exists>t. base_job_run describe ''reminder_dispatch''
        (reminder_execute (durable_dispatcher R show_uuid n) show_uuid lead cooldown) s =
        (Inr (run_summary ''reminder_dispatch'' (clock s) (reminder_decision show_uuid lead cooldown s) (candidates s)), t) \<and>
      placed s (placed_by (reminder_decision show_uuid lead cooldown s) (candidates s)) t) \<and>
    (\<forall>st order. reminder_decision show_uuid lead cooldown s st = Inr (Some order) \<longleftrightarrow>
       (\<exists>recipient ctx. st_assigned_to st = Some recipient \<and> context_of s st = Inr ctx \<and>
          0 < sd_escalation_hours (sx_definition ctx) \<and>
          clock s \<le> add_hours (st_created_at st) (sd_escalation_hours (sx_definition ctx)) \<and>
          sd_escalation_hours (sx_definition ctx) - hours_between (st_created_at st) (clock s) \<le> lead \<and>
          \<not> reminded s cooldown recipient (st_request_id st) \<and>
          order = reminder_order show_uuid st recipient (sx_request ctx))) \<and>
    reminder_decision show_uuid lead cooldown (s\<lparr>t_notifications := filter (\<lambda>n. nt_archived_at n = None) (t_notifications s)\<rparr>) =
      reminder_decision show_uuid lead cooldown s"
  using durable_queue.reminder_run [OF assms, of describe "''reminder_dispatch''" show_uuid n lead cooldown]
  unfolding fun_eq_iff reminder_decision_archived reminder_decision_Some by simp

theorem reminder_dispatch_effect_witness:
  "\<exists>t. base_job_run (\<lambda>_. []) ''reminder_dispatch''
      (reminder_execute (durable_dispatcher system_redis one_uuid 5) one_uuid 4 24) overdue_system =
      (Inr (run_summary ''reminder_dispatch'' (clock overdue_system) (reminder_decision one_uuid 4 24 overdue_system)
         (candidates overdue_system)), t)"
  using reminder_dispatch_effect [OF system_queue.durable_queue_axioms overdue_system_quiet] by blast

end
