(* ===== verification/HealthCheck.thy ===== *)
theory HealthCheck imports CoordinationRuns
begin

text \<open>
  The health check of \<open>scheduler/health_check_job.py\<close>: the snapshot of a coordinator's statistics, one
  entry per registered job in the order of registration, and the run that stores it.
\<close>

record job_health_status =
  jh_job_name :: string
  jh_last_execution_time :: "int option"
  jh_next_run_time :: "int option"
  jh_last_duration :: "int option"
  jh_success_count :: nat
  jh_failure_count :: nat
  jh_currently_running :: bool

record health_snapshot =
  hs_collected_at :: int
  hs_scheduler_running :: bool
  hs_jobs :: "job_health_status list"

text \<open>The backend says when a job runs next; \<open>next_run\<close> is its answer.\<close>

definition get_all_statistics :: "(string \<Rightarrow> int option) \<Rightarrow> coordinator \<Rightarrow> (string \<times> job_statistics \<times> int option) list" where
  "get_all_statistics next_run c =
     List.map_filter (\<lambda>(n, g). map_option (\<lambda>stats. (n, stats, next_run n)) (co_stats c n)) (co_registry c)"

definition job_health_status_of :: "string \<times> job_statistics \<times> int option \<Rightarrow> job_health_status" where
  "job_health_status_of = (\<lambda>(n, stats, next_run_time).
     \<lparr>jh_job_name = n, jh_last_execution_time = js_last_finished_at stats, jh_next_run_time = next_run_time,
      jh_last_duration = js_last_duration stats, jh_success_count = js_success_count stats,
      jh_failure_count = js_failure_count stats, jh_currently_running = js_currently_running stats\<rparr>)"

definition collect_snapshot :: "(string \<Rightarrow> int option) \<Rightarrow> int \<Rightarrow> coordinator \<Rightarrow> health_snapshot" where
  "collect_snapshot next_run now c =
     \<lparr>hs_collected_at = now, hs_scheduler_running = co_running c,
      hs_jobs = map job_health_status_of (get_all_statistics next_run c)\<rparr>"

text \<open>
  \<open>run\<close> with the job's own state, the latest snapshot; collecting it raises only when the backend does,
  and then \<open>failure\<close> is the message.
\<close>

definition health_check_run ::
  "(string \<Rightarrow> int option) \<Rightarrow> string option \<Rightarrow> int \<Rightarrow> coordinator \<Rightarrow> health_snapshot option \<Rightarrow>
   execution_result \<times> health_snapshot option" where
  "health_check_run next_run failure now c latest =
     (case failure of
        Some msg \<Rightarrow> (\<lparr>er_job_name = ''scheduler_health_check'', er_started_at = now, er_finished_at = now,
           er_success = False, er_items_processed = 0, er_items_failed = 0, er_error_message = Some msg\<rparr>, latest)
      | None \<Rightarrow> (\<lparr>er_job_name = ''scheduler_health_check'', er_started_at = now, er_finished_at = now,
           er_success = True, er_items_processed = length (hs_jobs (collect_snapshot next_run now c)),
           er_items_failed = 0, er_error_message = None\<rparr>, Some (collect_snapshot next_run now c)))"

text \<open>
  A stored snapshot says of a job that it is running exactly when a thread of the instance is in its run.
\<close>

lemma snapshot_tells_the_truth:
  assumes "(cluster_step R V ttl leader_ttl renewal)\<^sup>*\<^sup>* w (r, I)" "cluster_start w"
    and "health_check_run next_run None now (I i) latest = (result, Some snapshot)" "status \<in> set (hs_jobs snapshot)"
  shows "jh_currently_running status \<longleftrightarrow> (\<exists>t. at_run (co_threads (I i) t) = Some (jh_job_name status))"
proof -
  obtain n stats where "co_stats (I i) n = Some stats" "status = job_health_status_of (n, stats, next_run n)"
    using assms(3,4)
    by (auto simp: health_check_run_def collect_snapshot_def get_all_statistics_def List.map_filter_def)
  with stats_sound_reachable [OF assms(1,2)] show ?thesis
    by (simp add: stats_sound_def job_health_status_of_def)
qed

end
