(* ===== verification/RateLimiter.thy ===== *)
theory RateLimiter imports Engine "HOL-Library.Char_ord" "HOL-Library.List_Lexorder"
begin

text \<open>
  The rate limiters: the one in the process (\<open>utils/rate_limiter.py\<close>), the one on a Redis server with its
  Lua script (\<open>utils/redis_rate_limiter.py\<close>), the dependencies that choose a limiter and a bucket key
  (\<open>api/rate_limiting.py\<close>), and the \<open>Retry-After\<close> header of \<open>api/exception_handlers.py\<close>. Clock readings and
  window widths are whole microseconds. Both limiters are shown to give the verdicts of a log of all
  accepted hits that is never pruned.
\<close>

section \<open>In the process\<close>

definition MIN_RETRY_AFTER :: int where "MIN_RETRY_AFTER = 1000000"

text \<open>\<open>defaultdict(deque)\<close>: a bucket that was never touched is an empty deque, oldest hit first.\<close>

record memory_limiter =
  ml_limit :: int
  ml_window :: int
  ml_hits :: "string \<Rightarrow> int list"

text \<open>The answer is \<open>None\<close>, or \<open>retry_after_seconds\<close> of the exception.\<close>

definition memory_check :: "string \<Rightarrow> int \<Rightarrow> memory_limiter \<Rightarrow> int option \<times> memory_limiter" where
  "memory_check key now L =
     (let cutoff = now - ml_window L;
          hits = dropWhile (\<lambda>h. h < cutoff) (ml_hits L key) in
      if ml_limit L \<le> int (length hits)
      then (let retry_after = (case hits of [] \<Rightarrow> ml_window L | h # _ \<Rightarrow> h + ml_window L - now) in
            (Some (max retry_after MIN_RETRY_AFTER), L\<lparr>ml_hits := (ml_hits L)(key := hits)\<rparr>))
      else (None, L\<lparr>ml_hits := (ml_hits L)(key := hits @ [now])\<rparr>))"

section \<open>On a Redis server\<close>

text \<open>
  The commands the script issues, each at an instant of the server's clock, are a parameter, \<open>zset_commands\<close>.
  What the code relies on of them is \<open>zset_contract\<close>, their documented effect on what the server holds: a
  sorted set by key, ordered by score and members of one score by their bytes, and the instant at which the
  key expires; a set that becomes empty is gone with its key.
\<close>

record zset_server =
  zs_sets :: "string \<Rightarrow> (int \<times> string) list"
  zs_expires :: "string \<Rightarrow> int option"

definition drop_key :: "string \<Rightarrow> zset_server \<Rightarrow> zset_server" where
  "drop_key k z = z\<lparr>zs_sets := (zs_sets z)(k := []), zs_expires := (zs_expires z)(k := None)\<rparr>"

definition expire_due :: "string \<Rightarrow> int \<Rightarrow> zset_server \<Rightarrow> zset_server" where
  "expire_due k server_now z =
     (case zs_expires z k of None \<Rightarrow> z | Some e \<Rightarrow> if e \<le> server_now then drop_key k z else z)"

definition zremrangebyscore :: "string \<Rightarrow> int \<Rightarrow> zset_server \<Rightarrow> zset_server" where
  "zremrangebyscore k highest z =
     (let left = filter (\<lambda>(score, _). \<not> score \<le> highest) (zs_sets z k) in
      if left = [] then drop_key k z else z\<lparr>zs_sets := (zs_sets z)(k := left)\<rparr>)"

definition entry_before :: "int \<times> string \<Rightarrow> int \<times> string \<Rightarrow> bool" where
  "entry_before = (\<lambda>(s, m) (s', m'). s < s' \<or> s = s' \<and> m < m')"

definition zadd :: "string \<Rightarrow> int \<Rightarrow> string \<Rightarrow> zset_server \<Rightarrow> zset_server" where
  "zadd k score member z =
     (let others = filter (\<lambda>(_, m). m \<noteq> member) (zs_sets z k); before = (\<lambda>e. entry_before e (score, member)) in
      z\<lparr>zs_sets := (zs_sets z)(k := takeWhile before others @ (score, member) # dropWhile before others)\<rparr>)"

definition expire :: "string \<Rightarrow> int \<Rightarrow> int \<Rightarrow> zset_server \<Rightarrow> zset_server" where
  "expire k seconds server_now z =
     (if seconds \<le> 0 then drop_key k z
      else z\<lparr>zs_expires := (zs_expires z)(k \<mapsto> server_now + seconds * 1000000)\<rparr>)"

record 's zset_commands =
  zc_zremrangebyscore :: "string \<Rightarrow> int \<Rightarrow> int \<Rightarrow> 's \<Rightarrow> 's"
  zc_zcard :: "string \<Rightarrow> int \<Rightarrow> 's \<Rightarrow> int"
  zc_zrange_first :: "string \<Rightarrow> int \<Rightarrow> 's \<Rightarrow> (int \<times> string) option"
  zc_zadd :: "string \<Rightarrow> int \<Rightarrow> string \<Rightarrow> int \<Rightarrow> 's \<Rightarrow> 's"
  zc_expire :: "string \<Rightarrow> int \<Rightarrow> int \<Rightarrow> 's \<Rightarrow> 's"

definition first_of :: "'a list \<Rightarrow> 'a option" where
  "first_of xs = (case xs of [] \<Rightarrow> None | x # _ \<Rightarrow> Some x)"

definition zset_contract :: "'s zset_commands \<Rightarrow> ('s \<Rightarrow> zset_server) \<Rightarrow> bool" where
  "zset_contract Z view \<longleftrightarrow> (\<forall>k now s.
     (\<forall>highest. view (zc_zremrangebyscore Z k highest now s) = zremrangebyscore k highest (expire_due k now (view s))) \<and>
     zc_zcard Z k now s = int (length (zs_sets (expire_due k now (view s)) k)) \<and>
     zc_zrange_first Z k now s = first_of (zs_sets (expire_due k now (view s)) k) \<and>
     (\<forall>score m. view (zc_zadd Z k score m now s) = zadd k score m (expire_due k now (view s))) \<and>
     (\<forall>seconds. view (zc_expire Z k seconds now s) = expire k seconds now (expire_due k now (view s))))"

record redis_limiter =
  rl_namespace :: string
  rl_limit :: int
  rl_window :: int

definition bucket_key :: "redis_limiter \<Rightarrow> string \<Rightarrow> string" where
  "bucket_key cfg key = ''rate_limit:'' @ rl_namespace cfg @ '':'' @ key"

definition ceil_seconds :: "int \<Rightarrow> int" where
  "ceil_seconds micros = - (- micros div 1000000)"

text \<open>The script, whose answer \<open>-1\<close> means that the hit was recorded.\<close>

definition check_script ::
  "'s zset_commands \<Rightarrow> string \<Rightarrow> int \<Rightarrow> int \<Rightarrow> int \<Rightarrow> string \<Rightarrow> int \<Rightarrow> 's \<Rightarrow> int \<times> 's" where
  "check_script Z k now window limit member server_now s0 =
     (let s = zc_zremrangebyscore Z k (now - window) server_now s0 in
      if limit \<le> zc_zcard Z k server_now s
      then (case zc_zrange_first Z k server_now s of Some (oldest, _) \<Rightarrow> (oldest + window - now, s) | None \<Rightarrow> (window, s))
      else (- 1000000, zc_expire Z k (ceil_seconds window) server_now (zc_zadd Z k now member server_now s)))"

definition redis_check ::
  "'s zset_commands \<Rightarrow> redis_limiter \<Rightarrow> string \<Rightarrow> int \<Rightarrow> string \<Rightarrow> int \<Rightarrow> 's \<Rightarrow> int option \<times> 's" where
  "redis_check Z cfg key now member server_now s =
     (case check_script Z (bucket_key cfg key) now (rl_window cfg) (rl_limit cfg) member server_now s of
        (retry_after, s') \<Rightarrow> (if 0 \<le> retry_after then Some (max retry_after MIN_RETRY_AFTER) else None, s'))"

text \<open>The commands on the server's contents themselves satisfy the contract.\<close>

definition plain_commands :: "zset_server zset_commands" where
  "plain_commands =
     \<lparr>zc_zremrangebyscore = (\<lambda>k highest now z. zremrangebyscore k highest (expire_due k now z)),
      zc_zcard = (\<lambda>k now z. int (length (zs_sets (expire_due k now z) k))),
      zc_zrange_first = (\<lambda>k now z. first_of (zs_sets (expire_due k now z) k)),
      zc_zadd = (\<lambda>k score m now z. zadd k score m (expire_due k now z)),
      zc_expire = (\<lambda>k seconds now z. expire k seconds now (expire_due k now z))\<rparr>"

lemma plain_contract: "zset_contract plain_commands (\<lambda>z. z)"
  by (simp add: zset_contract_def plain_commands_def)

lemma redis_check_view:
  assumes "zset_contract Z view" "redis_check Z cfg k now m server_now s = (r, s')"
  shows "redis_check plain_commands cfg k now m server_now (view s) = (r, view s')"
  using assms by (auto simp: redis_check_def check_script_def Let_def zset_contract_def plain_commands_def
      split: if_splits option.splits prod.splits)

section \<open>The dependencies of the routes\<close>

definition READ_METHODS :: "string list" where "READ_METHODS = [''GET'', ''HEAD'', ''OPTIONS'']"
definition UNKNOWN_CLIENT_KEY :: string where "UNKNOWN_CLIENT_KEY = ''unknown''"

definition client_key :: "string option \<Rightarrow> string" where
  "client_key host = (case host of None \<Rightarrow> UNKNOWN_CLIENT_KEY | Some h \<Rightarrow> if h = [] then UNKNOWN_CLIENT_KEY else h)"

datatype limiter_name = InvitationLimiter | ReadLimiter | WriteLimiter | UploadLimiter | PollLimiter | SearchLimiter | AiLimiter

definition general_limiter :: "string \<Rightarrow> limiter_name" where
  "general_limiter http_method = (if http_method \<in> set READ_METHODS then ReadLimiter else WriteLimiter)"

type_synonym resources = "limiter_name \<Rightarrow> memory_limiter"

definition enforce :: "limiter_name \<Rightarrow> string \<Rightarrow> int \<Rightarrow> resources \<Rightarrow> int option \<times> resources" where
  "enforce name key now R = (case memory_check key now (R name) of (refusal, L) \<Rightarrow> (refusal, R(name := L)))"

definition enforce_invitation_rate_limit :: "string option \<Rightarrow> int \<Rightarrow> resources \<Rightarrow> int option \<times> resources" where
  "enforce_invitation_rate_limit host = enforce InvitationLimiter (client_key host)"

definition enforce_rate_limit :: "(uuid \<Rightarrow> string) \<Rightarrow> string \<Rightarrow> uuid \<Rightarrow> int \<Rightarrow> resources \<Rightarrow> int option \<times> resources" where
  "enforce_rate_limit show_uuid http_method user_id = enforce (general_limiter http_method) (show_uuid user_id)"

definition enforce_upload_rate_limit :: "(uuid \<Rightarrow> string) \<Rightarrow> uuid \<Rightarrow> int \<Rightarrow> resources \<Rightarrow> int option \<times> resources" where
  "enforce_upload_rate_limit show_uuid user_id = enforce UploadLimiter (show_uuid user_id)"

definition enforce_notification_poll_rate_limit ::
  "(uuid \<Rightarrow> string) \<Rightarrow> uuid \<Rightarrow> int \<Rightarrow> resources \<Rightarrow> int option \<times> resources" where
  "enforce_notification_poll_rate_limit show_uuid user_id = enforce PollLimiter (show_uuid user_id)"

definition enforce_search_rate_limit :: "(uuid \<Rightarrow> string) \<Rightarrow> uuid \<Rightarrow> int \<Rightarrow> resources \<Rightarrow> int option \<times> resources" where
  "enforce_search_rate_limit show_uuid user_id = enforce SearchLimiter (show_uuid user_id)"

definition enforce_ai_rate_limit :: "(uuid \<Rightarrow> string) \<Rightarrow> uuid \<Rightarrow> int \<Rightarrow> resources \<Rightarrow> int option \<times> resources" where
  "enforce_ai_rate_limit show_uuid user_id = enforce AiLimiter (show_uuid user_id)"

text \<open>\<open>str(round(exc.retry_after_seconds))\<close>: the nearest whole second, a tie to the even one.\<close>

definition retry_after_header :: "int \<Rightarrow> int" where
  "retry_after_header retry_after = round_half_even (of_int retry_after / 1000000)"

lemma enforce_other: "enforce name key now R = (x, R') \<Longrightarrow> other \<noteq> name \<Longrightarrow> R' other = R other"
  by (auto simp: enforce_def split: prod.splits)

section \<open>The reference: a log of accepted hits\<close>

type_synonym hit = "string \<times> int \<times> string"

definition member_of :: "hit \<Rightarrow> string" where "member_of x = snd (snd x)"

lemma member_of_simps [simp]: "member_of (k, t, m) = m" by (simp add: member_of_def)

definition log_of :: "string \<Rightarrow> hit list \<Rightarrow> int list" where
  "log_of k past = map (\<lambda>(_, t, _). t) (filter (\<lambda>(k', _). k' = k) past)"

lemma log_of_simps [simp]:
  "log_of k [] = []" "log_of k (xs @ ys) = log_of k xs @ log_of k ys"
  "log_of k ((k', t, m) # xs) = (if k' = k then [t] else []) @ log_of k xs"
  by (simp_all add: log_of_def)

fun log_verdicts :: "(int \<Rightarrow> int \<Rightarrow> bool) \<Rightarrow> int \<Rightarrow> hit list \<Rightarrow> hit list \<Rightarrow> bool list" where
  "log_verdicts live limit past [] = []"
| "log_verdicts live limit past ((k, t, m) # xs) =
     (if int (length (filter (\<lambda>h. live h t) (log_of k past))) < limit
      then True # log_verdicts live limit (past @ [(k, t, m)]) xs
      else False # log_verdicts live limit past xs)"

fun verdicts :: "(string \<Rightarrow> int \<Rightarrow> string \<Rightarrow> 'l \<Rightarrow> int option \<times> 'l) \<Rightarrow> 'l \<Rightarrow> hit list \<Rightarrow> bool list" where
  "verdicts check l [] = []"
| "verdicts check l ((k, t, m) # xs) =
     (case check k t m l of (refusal, l') \<Rightarrow> (refusal = None) # verdicts check l' xs)"

fun times_from :: "int \<Rightarrow> hit list \<Rightarrow> bool" where
  "times_from T [] = True"
| "times_from T ((k, t, m) # xs) = (T \<le> t \<and> times_from t xs)"

locale sliding_window =
  fixes check :: "string \<Rightarrow> int \<Rightarrow> string \<Rightarrow> 'l \<Rightarrow> int option \<times> 'l"
    and held :: "'l \<Rightarrow> string \<Rightarrow> int list"
    and invar :: "'l \<Rightarrow> int \<Rightarrow> string set \<Rightarrow> bool"
    and live :: "int \<Rightarrow> int \<Rightarrow> bool"
    and limit :: int
  assumes check_step: "invar l T M \<Longrightarrow> T \<le> t \<Longrightarrow> m \<notin> M \<Longrightarrow> check k t m l = (r, l') \<Longrightarrow>
      invar l' t (insert m M) \<and>
      (r = None \<longleftrightarrow> int (length (filter (\<lambda>h. live h t) (held l k))) < limit) \<and>
      (\<forall>k' u. t \<le> u \<longrightarrow> filter (\<lambda>h. live h u) (held l' k') =
         filter (\<lambda>h. live h u) (held l k' @ (if r = None \<and> k' = k then [t] else [])))"
begin

definition agrees :: "'l \<Rightarrow> hit list \<Rightarrow> int \<Rightarrow> bool" where
  "agrees l past T \<longleftrightarrow> (\<forall>k u. T \<le> u \<longrightarrow> filter (\<lambda>h. live h u) (held l k) = filter (\<lambda>h. live h u) (log_of k past))"

theorem refines_log:
  assumes "invar l T M" "agrees l past T" "times_from T xs" "distinct (map member_of xs)"
    and "member_of ` set xs \<inter> M = {}"
  shows "verdicts check l xs = log_verdicts live limit past xs"
  using assms
proof (induction xs arbitrary: l T M past)
  case (Cons x xs)
  obtain k t m where x: "x = (k, t, m)" by (cases x)
  obtain r l' where c: "check k t m l = (r, l')" by fastforce
  from check_step [OF Cons.prems(1) _ _ c] Cons.prems(3,5) x
  have step: "invar l' t (insert m M)" "r = None \<longleftrightarrow> int (length (filter (\<lambda>h. live h t) (held l k))) < limit"
    "\<And>k' u. t \<le> u \<Longrightarrow> filter (\<lambda>h. live h u) (held l' k') =
       filter (\<lambda>h. live h u) (held l k' @ (if r = None \<and> k' = k then [t] else []))"
    and t: "T \<le> t" "times_from t xs" by auto
  have "filter (\<lambda>h. live h t) (held l k) = filter (\<lambda>h. live h t) (log_of k past)"
    using Cons.prems(2) t(1) by (simp add: agrees_def)
  with step(2) have verdict: "r = None \<longleftrightarrow> int (length (filter (\<lambda>h. live h t) (log_of k past))) < limit" by simp
  have "agrees l' (if r = None then past @ [(k, t, m)] else past) t"
    using Cons.prems(2) step(3) t(1) by (auto simp: agrees_def)
  from Cons.IH [OF step(1) this t(2)] Cons.prems(4,5) x
  have "verdicts check l' xs = log_verdicts live limit (if r = None then past @ [(k, t, m)] else past) xs" by auto
  with verdict c x show ?case by simp
qed simp

end

section \<open>Both limiters keep to the log\<close>

lemma dropWhile_less_sorted: "sorted xs \<Longrightarrow> dropWhile (\<lambda>h. h < c) xs = filter (\<lambda>h. c \<le> h) (xs :: int list)"
  by (induction xs) (auto simp: not_less intro!: filter_True [symmetric] filter_False [symmetric])

text \<open>A hit counts for the process-wide limiter from its instant to the end of its window, both included.\<close>

definition closed_window :: "int \<Rightarrow> int \<Rightarrow> int \<Rightarrow> bool" where "closed_window w h t \<longleftrightarrow> t - w \<le> h"
definition half_open_window :: "int \<Rightarrow> int \<Rightarrow> int \<Rightarrow> bool" where "half_open_window w h t \<longleftrightarrow> t - w < h"

definition memory_fits :: "int \<Rightarrow> int \<Rightarrow> memory_limiter \<Rightarrow> int \<Rightarrow> string set \<Rightarrow> bool" where
  "memory_fits limit w L T M \<longleftrightarrow> ml_limit L = limit \<and> ml_window L = w \<and>
     (\<forall>k. sorted (ml_hits L k) \<and> (\<forall>h \<in> set (ml_hits L k). h \<le> T))"

interpretation memory_window: sliding_window "\<lambda>k t _. memory_check k t" ml_hits "memory_fits limit w"
  "closed_window w" limit for limit w
proof unfold_locales
  fix L T M t m k r L'
  assume fits: "memory_fits limit w L T M" and t: "T \<le> t" and check: "memory_check k t L = (r, L')"
  have dropped: "dropWhile (\<lambda>h. h < t - w) (ml_hits L k) = filter (\<lambda>h. closed_window w h t) (ml_hits L k)"
    using fits by (simp add: dropWhile_less_sorted memory_fits_def closed_window_def)
  have live: "filter (\<lambda>h. closed_window w h u) (filter (\<lambda>h. closed_window w h t) hs) = filter (\<lambda>h. closed_window w h u) hs"
    if "t \<le> u" for u hs
    using that by (auto simp: closed_window_def intro: filter_cong)
  have "sorted (filter (\<lambda>h. closed_window w h t) (ml_hits L k))"
    "\<forall>h \<in> set (filter (\<lambda>h. closed_window w h t) (ml_hits L k)). h \<le> t"
    using fits t by (force simp: memory_fits_def intro: sorted_filter [where f = "\<lambda>x. x", simplified])+
  moreover have "\<forall>k. sorted (ml_hits L k) \<and> (\<forall>h \<in> set (ml_hits L k). h \<le> t)"
    using fits t by (force simp: memory_fits_def)
  ultimately have kept: "memory_fits limit w (L\<lparr>ml_hits := (ml_hits L)(k := filter (\<lambda>h. closed_window w h t) (ml_hits L k))\<rparr>) t M'"
    "memory_fits limit w (L\<lparr>ml_hits := (ml_hits L)(k := filter (\<lambda>h. closed_window w h t) (ml_hits L k) @ [t])\<rparr>) t M'" for M'
    using fits by (auto simp: memory_fits_def sorted_append)
  have lw: "ml_limit L = limit" "ml_window L = w" using fits by (simp_all add: memory_fits_def)
  show "memory_fits limit w L' t (insert m M) \<and>
      (r = None \<longleftrightarrow> int (length (filter (\<lambda>h. closed_window w h t) (ml_hits L k))) < limit) \<and>
      (\<forall>k' u. t \<le> u \<longrightarrow> filter (\<lambda>h. closed_window w h u) (ml_hits L' k') =
         filter (\<lambda>h. closed_window w h u) (ml_hits L k' @ (if r = None \<and> k' = k then [t] else [])))"
    using check kept live lw unfolding memory_check_def Let_def lw dropped
    by (auto split: if_splits)
qed

definition redis_held :: "redis_limiter \<Rightarrow> zset_server \<Rightarrow> string \<Rightarrow> int list" where
  "redis_held cfg z key = map fst (zs_sets z (bucket_key cfg key))"

definition redis_fits :: "redis_limiter \<Rightarrow> zset_server \<Rightarrow> int \<Rightarrow> string set \<Rightarrow> bool" where
  "redis_fits cfg z T M \<longleftrightarrow> 0 \<le> rl_window cfg \<and>
     (\<forall>k. snd ` set (zs_sets z (bucket_key cfg k)) \<subseteq> M \<and> sorted (redis_held cfg z k) \<and> (\<forall>h \<in> set (redis_held cfg z k). h \<le> T) \<and>
        (\<forall>e. zs_expires z (bucket_key cfg k) = Some e \<longrightarrow> (\<forall>h \<in> set (redis_held cfg z k). h + rl_window cfg \<le> e)))"

lemma bucket_key_inject [simp]: "bucket_key cfg k = bucket_key cfg k' \<longleftrightarrow> k = k'"
  by (simp add: bucket_key_def)

lemma ceil_seconds_upper: "w \<le> ceil_seconds w * 1000000"
proof -
  have "(- w div 1000000) * 1000000 \<le> - w" by (simp flip: minus_mod_eq_div_mult)
  then show ?thesis by (simp add: ceil_seconds_def)
qed

text \<open>What is left of a set after the expired key and the hits before the window are gone.\<close>

definition pruned :: "redis_limiter \<Rightarrow> string \<Rightarrow> int \<Rightarrow> zset_server \<Rightarrow> zset_server" where
  "pruned cfg key t z = zremrangebyscore (bucket_key cfg key) (t - rl_window cfg) (expire_due (bucket_key cfg key) t z)"

lemma zremrangebyscore_set [simp]:
  "zs_sets (zremrangebyscore k highest z) k = filter (\<lambda>(score, _). \<not> score \<le> highest) (zs_sets z k)"
  by (simp add: zremrangebyscore_def drop_key_def Let_def)

lemma expire_due_again [simp]:
  "expire_due k now (zremrangebyscore k highest (expire_due k now z)) = zremrangebyscore k highest (expire_due k now z)"
  "expire_due k now (zadd k score m (zremrangebyscore k highest (expire_due k now z))) =
   zadd k score m (zremrangebyscore k highest (expire_due k now z))"
  by (auto simp: expire_due_def zremrangebyscore_def zadd_def drop_key_def Let_def split: option.splits)

lemma insert_last:
  assumes "sorted (map fst xs)" "\<forall>h \<in> set (map fst xs). h \<le> t" "\<And>e. e \<in> set xs \<Longrightarrow> fst e < t \<Longrightarrow> before e"
  shows "map fst (takeWhile before xs) @ t # map fst (dropWhile before xs) = map fst xs @ [t]"
  using assms
proof (induction xs)
  case (Cons x xs)
  show ?case
  proof (cases "before x")
    case False
    then have "\<forall>h \<in> set (map fst (x # xs)). h = t" using Cons.prems by (fastforce simp: le_less)
    then have "map fst (x # xs) = replicate (length (x # xs)) t" by (metis length_map replicate_length_same)
    with False show ?thesis by (simp add: replicate_append_same)
  qed (use Cons in auto)
qed simp

lemma pruned_other: "k \<noteq> bucket_key cfg key \<Longrightarrow> zs_sets (pruned cfg key t z) k = zs_sets z k"
  "k \<noteq> bucket_key cfg key \<Longrightarrow> zs_expires (pruned cfg key t z) k = zs_expires z k"
  by (auto simp: pruned_def zremrangebyscore_def Let_def expire_due_def drop_key_def split: option.splits)

lemma pruned_set:
  assumes "redis_fits cfg z T M"
  shows "zs_sets (pruned cfg key t z) (bucket_key cfg key) =
    filter (\<lambda>(score, _). half_open_window (rl_window cfg) score t) (zs_sets z (bucket_key cfg key))"
proof (cases "\<exists>e. zs_expires z (bucket_key cfg key) = Some e \<and> e \<le> t")
  case True
  then obtain e where e: "zs_expires z (bucket_key cfg key) = Some e" "e \<le> t" by blast
  with assms have "\<forall>h \<in> set (redis_held cfg z key). h + rl_window cfg \<le> t" by (fastforce simp: redis_fits_def)
  then have "filter (\<lambda>(score, _). half_open_window (rl_window cfg) score t) (zs_sets z (bucket_key cfg key)) = []"
    by (fastforce simp: redis_held_def half_open_window_def filter_empty_conv)
  then show ?thesis using e by (simp add: pruned_def expire_due_def drop_key_def)
next
  case False
  then show ?thesis
    by (auto simp: pruned_def expire_due_def half_open_window_def not_le split: option.splits
        intro!: filter_cong)
qed

lemma pruned_fits:
  assumes "redis_fits cfg z T M" "T \<le> t"
  shows "redis_fits cfg (pruned cfg key t z) t M"
proof -
  have sub: "set (zs_sets (pruned cfg key t z) k) \<subseteq> set (zs_sets z k)"
    "zs_expires (pruned cfg key t z) k = None \<or> zs_expires (pruned cfg key t z) k = zs_expires z k" for k
    by (cases "k = bucket_key cfg key";
        auto simp: pruned_other pruned_def zremrangebyscore_def Let_def expire_due_def drop_key_def split: option.splits)+
  show ?thesis
    unfolding redis_fits_def
  proof (intro conjI allI)
    fix k
    note sub = sub [of "bucket_key cfg k"]
    have held: "set (redis_held cfg (pruned cfg key t z) k) \<subseteq> set (redis_held cfg z k)"
      using sub(1) by (auto simp: redis_held_def)
    show "snd ` set (zs_sets (pruned cfg key t z) (bucket_key cfg k)) \<subseteq> M"
      using sub(1) assms(1) by (fastforce simp: redis_fits_def)
    show "sorted (redis_held cfg (pruned cfg key t z) k)"
    proof (cases "k = key")
      case True
      have "sorted (redis_held cfg z k)" using assms(1) by (simp add: redis_fits_def)
      then show ?thesis unfolding True redis_held_def pruned_set [OF assms(1)] by (rule sorted_filter)
    qed (use assms(1) in \<open>simp add: redis_held_def pruned_other redis_fits_def\<close>)
    show "\<forall>h \<in> set (redis_held cfg (pruned cfg key t z) k). h \<le> t"
      using held assms by (fastforce simp: redis_fits_def)
    show "zs_expires (pruned cfg key t z) (bucket_key cfg k) = Some e \<longrightarrow>
        (\<forall>h \<in> set (redis_held cfg (pruned cfg key t z) k). h + rl_window cfg \<le> e)" for e
      using held sub(2) assms(1) by (fastforce simp: redis_fits_def)
  qed (use assms(1) in \<open>simp add: redis_fits_def\<close>)
qed

text \<open>A recorded hit goes to the end of its set.\<close>

lemma recorded_hit:
  assumes fits: "redis_fits cfg z t M" and m: "m \<notin> M"
    and z': "z' = expire (bucket_key cfg key) (ceil_seconds (rl_window cfg)) t (zadd (bucket_key cfg key) t m z)"
  shows "redis_fits cfg z' t (insert m M)"
    "t \<le> u \<Longrightarrow> filter (\<lambda>h. half_open_window (rl_window cfg) h u) (redis_held cfg z' k) =
       filter (\<lambda>h. half_open_window (rl_window cfg) h u) (redis_held cfg z k @ (if k = key then [t] else []))"
proof -
  let ?b = "bucket_key cfg key"
  have fresh: "filter (\<lambda>(_, x). x \<noteq> m) (zs_sets z ?b) = zs_sets z ?b"
    using fits m by (fastforce simp: redis_fits_def intro: filter_True)
  define before where "before = (\<lambda>e. entry_before e (t, m))"
  have upto: "sorted (map fst (zs_sets z ?b))" "\<forall>h \<in> set (map fst (zs_sets z ?b)). h \<le> t"
    using fits by (auto simp: redis_fits_def redis_held_def)
  have added: "zs_sets (zadd ?b t m z) = (zs_sets z)(?b := takeWhile before (zs_sets z ?b) @ (t, m) # dropWhile before (zs_sets z ?b))"
    "zs_expires (zadd ?b t m z) = zs_expires z"
    unfolding zadd_def Let_def fresh before_def by simp_all
  have held: "map fst (takeWhile before (zs_sets z ?b)) @ t # map fst (dropWhile before (zs_sets z ?b)) = map fst (zs_sets z ?b) @ [t]"
    by (rule insert_last [OF upto]) (auto simp: before_def entry_before_def split: prod.splits)
  have members: "set (takeWhile before (zs_sets z ?b)) \<union> set (dropWhile before (zs_sets z ?b)) = set (zs_sets z ?b)"
    by (metis set_append takeWhile_dropWhile_id)
  let ?z = "zadd ?b t m z"
  have held_added: "redis_held cfg ?z k = redis_held cfg z k @ (if k = key then [t] else [])" for k
    by (simp add: redis_held_def added held)
  have members_added: "snd ` set (zs_sets ?z (bucket_key cfg k)) \<subseteq> insert m M" for k
  proof -
    have "snd ` set (zs_sets z (bucket_key cfg k)) \<subseteq> M" using fits by (simp add: redis_fits_def)
    moreover have "set (zs_sets ?z (bucket_key cfg k)) \<subseteq> insert (t, m) (set (zs_sets z (bucket_key cfg k)))"
      using members by (auto simp: added)
    ultimately show ?thesis by fastforce
  qed
  have old: "h \<in> set (redis_held cfg z k) \<Longrightarrow> h \<le> t" "sorted (redis_held cfg z k)"
    "h \<in> set (redis_held cfg z k) \<Longrightarrow> zs_expires z (bucket_key cfg k) = Some e \<Longrightarrow> h + rl_window cfg \<le> e" for h k e
    using fits by (simp_all add: redis_fits_def)
  have w: "0 \<le> rl_window cfg" using fits by (simp add: redis_fits_def)
  have until: "h + rl_window cfg \<le> t + ceil_seconds (rl_window cfg) * 1000000" if "h \<le> t" for h
    using that ceil_seconds_upper [of "rl_window cfg"] by simp
  have z'_held: "redis_held cfg z' k = (if k = key \<and> ceil_seconds (rl_window cfg) \<le> 0 then [] else redis_held cfg ?z k)" for k
    by (simp add: z' expire_def drop_key_def redis_held_def)
  have z'_expires: "zs_expires z' (bucket_key cfg k) = (if k = key then
      if ceil_seconds (rl_window cfg) \<le> 0 then None else Some (t + ceil_seconds (rl_window cfg) * 1000000)
      else zs_expires z (bucket_key cfg k))" for k
    by (simp add: z' expire_def drop_key_def added)
  have z'_members: "snd ` set (zs_sets z' (bucket_key cfg k)) \<subseteq> insert m M" for k
    using members_added [of k] by (simp add: z' expire_def drop_key_def)
  show "redis_fits cfg z' t (insert m M)"
    unfolding redis_fits_def
  proof (intro conjI allI impI)
    fix k
    show "sorted (redis_held cfg z' k)" "\<forall>h \<in> set (redis_held cfg z' k). h \<le> t"
      using old by (auto simp: z'_held held_added sorted_append)
    show "\<forall>h \<in> set (redis_held cfg z' k). h + rl_window cfg \<le> e" if "zs_expires z' (bucket_key cfg k) = Some e" for e
      using that old until by (auto simp: z'_held held_added z'_expires split: if_splits)
  qed (rule w z'_members)+
  assume u: "t \<le> u"
  show "filter (\<lambda>h. half_open_window (rl_window cfg) h u) (redis_held cfg z' k) =
       filter (\<lambda>h. half_open_window (rl_window cfg) h u) (redis_held cfg z k @ (if k = key then [t] else []))"
  proof (cases "k = key \<and> ceil_seconds (rl_window cfg) \<le> 0")
    case True
    then have w: "rl_window cfg = 0" using w ceil_seconds_upper [of "rl_window cfg"] by simp
    have "filter (\<lambda>h. half_open_window (rl_window cfg) h u) (redis_held cfg z k @ [t]) = []"
      using old(1) [of _ k] u by (force simp: w half_open_window_def filter_empty_conv)
    then show ?thesis using True by (simp add: z'_held)
  next
    case False
    then show ?thesis by (auto simp: z'_held held_added)
  qed
qed

lemma plain_check:
  "redis_check plain_commands cfg k t m t z =
     (if rl_limit cfg \<le> int (length (zs_sets (pruned cfg k t z) (bucket_key cfg k)))
      then (case first_of (zs_sets (pruned cfg k t z) (bucket_key cfg k)) of
              Some (oldest, _) \<Rightarrow> (if 0 \<le> oldest + rl_window cfg - t
                 then Some (max (oldest + rl_window cfg - t) MIN_RETRY_AFTER) else None, pruned cfg k t z)
            | None \<Rightarrow> (if 0 \<le> rl_window cfg then Some (max (rl_window cfg) MIN_RETRY_AFTER) else None, pruned cfg k t z))
      else (None, expire (bucket_key cfg k) (ceil_seconds (rl_window cfg)) t
              (zadd (bucket_key cfg k) t m (pruned cfg k t z))))"
  by (auto simp: redis_check_def check_script_def plain_commands_def Let_def pruned_def split: option.splits prod.splits)

interpretation redis_window: sliding_window "\<lambda>k t m. redis_check plain_commands cfg k t m t" "redis_held cfg" "redis_fits cfg"
  "half_open_window (rl_window cfg)" "rl_limit cfg" for cfg
proof unfold_locales
  fix z T M t m k r z'
  assume fits: "redis_fits cfg z T M" and t: "T \<le> t" and m: "m \<notin> M" and check: "redis_check plain_commands cfg k t m t z = (r, z')"
  let ?p = "pruned cfg k t z"
  let ?live = "\<lambda>h. half_open_window (rl_window cfg) h t"
  have p: "redis_fits cfg ?p t M" using pruned_fits [OF fits t] .
  have held: "redis_held cfg ?p k = filter ?live (redis_held cfg z k)"
    by (simp add: redis_held_def pruned_set [OF fits] filter_map comp_def case_prod_unfold)
  have other: "redis_held cfg ?p k' = redis_held cfg z k'" if "k' \<noteq> k" for k'
    using that by (simp add: redis_held_def pruned_other)
  have live: "filter (\<lambda>h. half_open_window (rl_window cfg) h u) (redis_held cfg ?p k') =
      filter (\<lambda>h. half_open_window (rl_window cfg) h u) (redis_held cfg z k')" if "t \<le> u" for u k'
    using that by (cases "k' = k") (auto simp: held other half_open_window_def intro: filter_cong)
  have size: "length (zs_sets ?p (bucket_key cfg k)) = length (filter ?live (redis_held cfg z k))"
    using held by (metis length_map redis_held_def)
  have oldest: "0 \<le> h + rl_window cfg - t" if "zs_sets ?p (bucket_key cfg k) = (h, x) # rest" for h x rest
    using that pruned_set [OF fits, of k t] by (auto simp: half_open_window_def dest!: filter_eq_ConsD)
  show "redis_fits cfg z' t (insert m M) \<and>
      (r = None \<longleftrightarrow> int (length (filter ?live (redis_held cfg z k))) < rl_limit cfg) \<and>
      (\<forall>k' u. t \<le> u \<longrightarrow> filter (\<lambda>h. half_open_window (rl_window cfg) h u) (redis_held cfg z' k') =
         filter (\<lambda>h. half_open_window (rl_window cfg) h u) (redis_held cfg z k' @ (if r = None \<and> k' = k then [t] else [])))"
  proof (cases "rl_limit cfg \<le> int (length (filter ?live (redis_held cfg z k)))")
    case True
    have "z' = ?p \<and> r \<noteq> None"
      using check True size oldest fits
      by (auto simp: plain_check first_of_def redis_fits_def split: list.splits if_splits prod.splits)
    moreover have "redis_fits cfg ?p t (insert m M)" using p by (force simp: redis_fits_def)
    ultimately show ?thesis using True live by auto
  next
    case False
    have "z' = expire (bucket_key cfg k) (ceil_seconds (rl_window cfg)) t (zadd (bucket_key cfg k) t m ?p)" "r = None"
      using check False size by (simp_all add: plain_check)
    with recorded_hit [OF p m this(1)] False live show ?thesis by auto
  qed
qed

section \<open>What the callers can rely on\<close>

definition fresh_memory :: "int \<Rightarrow> int \<Rightarrow> memory_limiter" where
  "fresh_memory limit w = \<lparr>ml_limit = limit, ml_window = w, ml_hits = (\<lambda>_. [])\<rparr>"

definition memory_verdicts :: "int \<Rightarrow> int \<Rightarrow> hit list \<Rightarrow> bool list" where
  "memory_verdicts limit w = verdicts (\<lambda>k t _. memory_check k t) (fresh_memory limit w)"

definition redis_verdicts :: "'s zset_commands \<Rightarrow> redis_limiter \<Rightarrow> 's \<Rightarrow> hit list \<Rightarrow> bool list" where
  "redis_verdicts Z cfg = verdicts (\<lambda>k t m. redis_check Z cfg k t m t)"

definition fresh_server :: zset_server where
  "fresh_server = \<lparr>zs_sets = (\<lambda>_. []), zs_expires = (\<lambda>_. None)\<rparr>"

lemma redis_verdicts_view:
  assumes "zset_contract Z view"
  shows "redis_verdicts Z cfg s xs = redis_verdicts plain_commands cfg (view s) xs"
proof (induction xs arbitrary: s)
  case (Cons x xs)
  obtain k t m where x: "x = (k, t, m)" by (cases x)
  obtain r s' where c: "redis_check Z cfg k t m t s = (r, s')" by fastforce
  with Cons.IH [of s'] redis_check_view [OF assms c] show ?case by (simp add: x redis_verdicts_def)
qed (simp add: redis_verdicts_def)

lemma memory_keeps_log:
  assumes "times_from T xs" "distinct (map member_of xs)"
  shows "memory_verdicts limit w xs = log_verdicts (closed_window w) limit [] xs"
  unfolding memory_verdicts_def
  by (rule memory_window.refines_log [of limit w _ T "{}"])
     (use assms in \<open>simp_all add: memory_fits_def fresh_memory_def memory_window.agrees_def\<close>)

lemma redis_keeps_log:
  assumes "zset_contract Z view" "zs_sets (view s) = (\<lambda>_. [])"
    and "times_from T xs" "distinct (map member_of xs)" "0 \<le> rl_window cfg"
  shows "redis_verdicts Z cfg s xs = log_verdicts (half_open_window (rl_window cfg)) (rl_limit cfg) [] xs"
  unfolding redis_verdicts_view [OF assms(1)] unfolding redis_verdicts_def
  by (rule redis_window.refines_log [of cfg _ T "{}"])
     (use assms in \<open>simp_all add: redis_fits_def redis_held_def redis_window.agrees_def\<close>)

text \<open>
  C39. On checks at instants that never decrease, each with a member of its own, both limiters give exactly
  the verdicts of the log of all accepted hits: a hit is refused if and only if \<open>limit\<close> accepted hits of its
  bucket are still in the window before it, which for the limiter in the process includes the instant a
  full window ago and for the Redis limiter, on an empty server that keeps the contract, does not.
\<close>

theorem limiters_keep_log:
  assumes "times_from T xs" "distinct (map member_of xs)" "0 \<le> w"
    and "zset_contract Z view" "zs_sets (view s) = (\<lambda>_. [])"
  shows "memory_verdicts limit w xs = log_verdicts (\<lambda>h t. t - w \<le> h) limit [] xs \<and>
    redis_verdicts Z \<lparr>rl_namespace = ns, rl_limit = limit, rl_window = w\<rparr> s xs = log_verdicts (\<lambda>h t. t - w < h) limit [] xs"
  using memory_keeps_log [OF assms(1,2)] redis_keeps_log [OF assms(4,5,1,2)] assms(3)
  by (simp add: closed_window_def [abs_def] half_open_window_def [abs_def])

definition three_hits :: "hit list" where
  "three_hits = [(''u'', 0, ''a''), (''u'', 4, ''b''), (''u'', 10, ''c'')]"

lemma three_hits: "times_from 0 three_hits" "distinct (map member_of three_hits)"
  "log_verdicts (\<lambda>h t. t - 10 \<le> h) 2 [] three_hits = [True, True, False]"
  "log_verdicts (\<lambda>h t. t - 10 < h) 2 [] three_hits = [True, True, True]"
  by code_simp+

theorem limiters_keep_log_witness:
  "memory_verdicts 2 10 three_hits = [True, True, False] \<and>
   redis_verdicts plain_commands \<lparr>rl_namespace = ''write'', rl_limit = 2, rl_window = 10\<rparr> fresh_server three_hits = [True, True, True]"
  using limiters_keep_log [OF three_hits(1,2) _ plain_contract, of 10 fresh_server] three_hits(3,4)
  by (simp add: fresh_server_def)

fun accepted :: "hit list \<Rightarrow> bool list \<Rightarrow> hit list" where
  "accepted (x # xs) (v # vs) = (if v then [x] else []) @ accepted xs vs"
| "accepted _ _ = []"

lemma log_window_bound:
  assumes "\<And>h t. inside h \<Longrightarrow> inside t \<Longrightarrow> h \<le> t \<Longrightarrow> live h t"
    and "times_from T xs" "\<forall>h \<in> set (log_of k past). h \<le> T"
    and "int (length (filter inside (log_of k past))) \<le> max 0 limit"
  shows "int (length (filter inside (log_of k (past @ accepted xs (log_verdicts live limit past xs))))) \<le> max 0 limit"
  using assms(2-)
proof (induction xs arbitrary: past T)
  case (Cons x xs)
  obtain k' t m where x: "x = (k', t, m)" by (cases x)
  have t: "T \<le> t" "times_from t xs" and le: "\<forall>h \<in> set (log_of k past). h \<le> t"
    using Cons.prems x by auto
  show ?case
  proof (cases "int (length (filter (\<lambda>h. live h t) (log_of k' past))) < limit")
    case True
    have "int (length (filter inside (log_of k (past @ [x])))) \<le> max 0 limit"
    proof (cases "k' = k \<and> inside t")
      case True
      have "filter inside (log_of k past) = filter inside (filter (\<lambda>h. live h t) (log_of k past))"
        using True le assms(1) by (auto intro: filter_cong)
      then have "length (filter inside (log_of k past)) \<le> length (filter (\<lambda>h. live h t) (log_of k past))"
        by (metis length_filter_le)
      with True \<open>_ < limit\<close> show ?thesis by (simp add: x)
    qed (use Cons.prems in \<open>auto simp: x\<close>)
    moreover have "\<forall>h \<in> set (log_of k (past @ [x])). h \<le> t" using le by (auto simp: x)
    ultimately show ?thesis using Cons.IH [OF t(2), of "past @ [x]"] True by (simp add: x)
  next
    case False
    with Cons.IH [OF t(2) le Cons.prems(3)] show ?thesis by (simp add: x)
  qed
qed simp

text \<open>
  No window of the configured width ever holds more than \<open>limit\<close> accepted hits of a bucket, wherever
  it begins: the limiter in the process bounds closed windows, the Redis limiter those without their end.
\<close>

theorem limiters_bound_every_window:
  assumes "times_from T xs" "distinct (map member_of xs)" "0 \<le> w"
    and "zset_contract Z view" "zs_sets (view s) = (\<lambda>_. [])"
    and "cfg = \<lparr>rl_namespace = ns, rl_limit = limit, rl_window = w\<rparr>"
  shows "int (length (filter (\<lambda>h. a \<le> h \<and> h \<le> a + w) (log_of k (accepted xs (memory_verdicts limit w xs))))) \<le> max 0 limit \<and>
    int (length (filter (\<lambda>h. a \<le> h \<and> h < a + w) (log_of k (accepted xs (redis_verdicts Z cfg s xs))))) \<le> max 0 limit"
proof -
  have "int (length (filter (\<lambda>h. a \<le> h \<and> h \<le> a + w)
      (log_of k ([] @ accepted xs (log_verdicts (closed_window w) limit [] xs))))) \<le> max 0 limit"
    by (rule log_window_bound [OF _ assms(1)]) (simp_all add: closed_window_def)
  moreover have "int (length (filter (\<lambda>h. a \<le> h \<and> h < a + w)
      (log_of k ([] @ accepted xs (log_verdicts (half_open_window w) limit [] xs))))) \<le> max 0 limit"
    by (rule log_window_bound [OF _ assms(1)]) (simp_all add: half_open_window_def)
  ultimately show ?thesis
    using memory_keeps_log [OF assms(1,2), of limit w] redis_keeps_log [OF assms(4,5,1,2), of cfg] assms(3,6) by simp
qed

theorem limiters_bound_every_window_witness:
  "int (length (filter (\<lambda>h. 0 \<le> h \<and> h \<le> 0 + 10) (log_of ''u'' (accepted three_hits (memory_verdicts 2 10 three_hits))))) \<le> max 0 2"
  using limiters_bound_every_window [OF three_hits(1,2), of 10 plain_commands "\<lambda>z. z" fresh_server _ "''write''" 2 0 "''u''"]
  by (simp add: plain_contract fresh_server_def)

lemma retry_after_header_down:
  "r mod 1000000 < 500000 \<Longrightarrow> retry_after_header r = r div 1000000"
proof -
  assume low: "r mod 1000000 < 500000"
  have x: "(of_int r / 1000000 :: rat) = of_int (r div 1000000) + of_int (r mod 1000000) / 1000000"
  proof -
    have "(of_int r :: rat) = of_int (r div 1000000 * 1000000 + r mod 1000000)" by (simp only: div_mult_mod_eq)
    then have "(of_int r :: rat) = of_int (r div 1000000) * 1000000 + of_int (r mod 1000000)"
      by (simp only: of_int_add of_int_mult of_int_numeral)
    then have "(of_int r / 1000000 :: rat) = (of_int (r div 1000000) * 1000000 + of_int (r mod 1000000)) / 1000000"
      by (simp only:)
    moreover have "(A * 1000000 + B) / 1000000 = A + B / 1000000" for A B :: rat by (simp add: add_divide_distrib)
    ultimately show ?thesis by (rule trans)
  qed
  have "rat_of_int (r mod 1000000) < rat_of_int 500000" using low by (simp only: of_int_less_iff)
  then have m: "rat_of_int (r mod 1000000) < 500000" by (simp only: of_int_numeral)
  have f: "\<lfloor>of_int r / 1000000 :: rat\<rfloor> = r div 1000000" by (metis floor_divide_of_int_eq of_int_numeral)
  have "of_int r / 1000000 - rat_of_int (r div 1000000) < 1 / 2" using x m by linarith
  then show ?thesis unfolding retry_after_header_def round_half_even_def Let_def f by (simp only: if_True)
qed

text \<open>
  The header comes too early: when the wait is more than a second and its fraction of a second is below
  one half (a whole number of seconds included), a client that waits exactly as long as the header says is
  refused again, although no hit was made in between.
\<close>

theorem retry_after_too_early:
  assumes "memory_check k t L = (Some r, L')" "1000000 < r" "r mod 1000000 < 500000"
  shows "\<exists>r'. fst (memory_check k (t + retry_after_header r * 1000000) L') = Some r'"
proof -
  define hits where "hits = dropWhile (\<lambda>h. h < t - ml_window L) (ml_hits L k)"
  have limit: "ml_limit L \<le> int (length hits)" and L': "L' = L\<lparr>ml_hits := (ml_hits L)(k := hits)\<rparr>"
    and r: "r = max (case hits of [] \<Rightarrow> ml_window L | h # _ \<Rightarrow> h + ml_window L - t) MIN_RETRY_AFTER"
    using assms(1) by (auto simp: memory_check_def Let_def hits_def split: if_splits)
  define t' where "t' = t + retry_after_header r * 1000000"
  have "t' \<le> t + r" unfolding t'_def retry_after_header_down [OF assms(3)] by (simp flip: minus_mod_eq_div_mult)
  then have "dropWhile (\<lambda>h. h < t' - ml_window L) hits = hits"
    using r assms(2) by (cases hits) (auto simp: MIN_RETRY_AFTER_def max_def split: if_splits)
  then show ?thesis using limit unfolding t'_def [symmetric] by (simp add: memory_check_def L' Let_def)
qed

theorem retry_after_too_early_witness:
  "\<exists>r'. fst (memory_check ''u'' (5000000 + retry_after_header 55000000 * 1000000)
     (snd (memory_check ''u'' 5000000 (snd (memory_check ''u'' 0 (fresh_memory 1 60000000)))))) = Some r'"
proof -
  have "memory_check ''u'' 5000000 (snd (memory_check ''u'' 0 (fresh_memory 1 60000000))) =
      (Some 55000000, snd (memory_check ''u'' 5000000 (snd (memory_check ''u'' 0 (fresh_memory 1 60000000)))))"
    by (simp add: memory_check_def fresh_memory_def MIN_RETRY_AFTER_def)
  from retry_after_too_early [OF this] show ?thesis by simp
qed

end
