(* ===== verification/Cache.thy ===== *)
theory Cache imports Engine "HOL-Library.Multiset" "HOL-Library.Char_ord" "HOL-Library.List_Lexorder"
begin

text \<open>
  The memoizing caches. \<open>utils/cache.py\<close> (\<open>TTLCache\<close>) is modelled as threads that run
  \<open>get_or_compute\<close> step by step between the accesses to shared state, on a clock that never decreases;
  \<open>utils/redis_cache.py\<close> (\<open>RedisCache\<close>) as a computation with its error paths. Pickling is the standard
  library's: \<open>loads\<close> and \<open>dumps\<close> are parameters, with the exceptions that \<open>loads\<close> documents.
\<close>

section \<open>The cache of a process\<close>

text \<open>
  Where a thread is in \<open>get_or_compute\<close>: an entry it has read is kept until the clock is read to compare.
  \<open>Leaving\<close> and \<open>Returned\<close> have the value, or \<open>None\<close> when \<open>compute\<close> raised, and the instant at which it
  was settled.
\<close>

datatype ('k, 'v) flight =
    Outside
  | Asked 'k
  | Direct 'k
  | Fetched 'k "(int \<times> 'v) option"
  | Missed 'k
  | Holding 'k
  | Refetched 'k "(int \<times> 'v) option"
  | Computing 'k
  | Computed 'k 'v
  | Leaving 'k "'v option" int
  | Returned 'k "'v option" int

text \<open>\<open>ca_stored\<close> is for the statements only: every value ever stored, with its key and the instant.\<close>

record ('k, 'v) cache =
  ca_now :: int
  ca_store :: "'k \<Rightarrow> (int \<times> 'v) option"
  ca_locks :: "'k \<Rightarrow> nat option"
  ca_stored :: "('k \<times> 'v \<times> int) set"

definition live_entry :: "int \<Rightarrow> (int \<times> 'v) option \<Rightarrow> 'v option" where
  "live_entry now entry = (case entry of None \<Rightarrow> None | Some (expires_at, v) \<Rightarrow> if now < expires_at then Some v else None)"

text \<open>One step of thread \<open>t\<close>; \<open>outcome\<close> is what \<open>compute\<close> gives, \<open>None\<close> for an exception.\<close>

fun get_or_compute_step :: "int \<Rightarrow> 'v option \<Rightarrow> nat \<Rightarrow> ('k, 'v) flight \<Rightarrow> ('k, 'v) cache \<Rightarrow> ('k, 'v) flight \<times> ('k, 'v) cache" where
  "get_or_compute_step ttl outcome t Outside c = (Outside, c)"
| "get_or_compute_step ttl outcome t (Asked k) c = (if ttl \<le> 0 then Direct k else Fetched k (ca_store c k), c)"
| "get_or_compute_step ttl outcome t (Direct k) c = (Returned k outcome (ca_now c), c)"
| "get_or_compute_step ttl outcome t (Fetched k e) c =
     (case live_entry (ca_now c) e of Some v \<Rightarrow> Returned k (Some v) (ca_now c) | None \<Rightarrow> Missed k, c)"
| "get_or_compute_step ttl outcome t (Missed k) c =
     (case ca_locks c k of
        None \<Rightarrow> (Holding k, c\<lparr>ca_locks := (ca_locks c)(k := Some t)\<rparr>)
      | Some _ \<Rightarrow> (Missed k, c))"
| "get_or_compute_step ttl outcome t (Holding k) c = (Refetched k (ca_store c k), c)"
| "get_or_compute_step ttl outcome t (Refetched k e) c =
     (case live_entry (ca_now c) e of Some v \<Rightarrow> Leaving k (Some v) (ca_now c) | None \<Rightarrow> Computing k, c)"
| "get_or_compute_step ttl outcome t (Computing k) c =
     (case outcome of None \<Rightarrow> Leaving k None (ca_now c) | Some v \<Rightarrow> Computed k v, c)"
| "get_or_compute_step ttl outcome t (Computed k v) c =
     (Leaving k (Some v) (ca_now c), c\<lparr>ca_store := (ca_store c)(k := Some (ca_now c + ttl, v)),
        ca_stored := insert (k, v, ca_now c) (ca_stored c)\<rparr>)"
| "get_or_compute_step ttl outcome t (Leaving k r at_time) c =
     (Returned k r at_time, c\<lparr>ca_locks := (ca_locks c)(k := None)\<rparr>)"
| "get_or_compute_step ttl outcome t (Returned k r at_time) c = (Returned k r at_time, c)"

fun idle_flight :: "('k, 'v) flight \<Rightarrow> bool" where
  "idle_flight Outside = True" | "idle_flight (Returned _ _ _) = True" | "idle_flight _ = False"

inductive cache_step ::
  "int \<Rightarrow> ('k, 'v) cache \<times> (nat \<Rightarrow> ('k, 'v) flight) \<Rightarrow> ('k, 'v) cache \<times> (nat \<Rightarrow> ('k, 'v) flight) \<Rightarrow> bool"
  for ttl where
  call: "idle_flight (T t) \<Longrightarrow> cache_step ttl (c, T) (c, T(t := Asked k))"
| thread: "get_or_compute_step ttl outcome t (T t) c = (f, c') \<Longrightarrow> cache_step ttl (c, T) (c', T(t := f))"
| tick: "0 \<le> d \<Longrightarrow> cache_step ttl (c, T) (c\<lparr>ca_now := ca_now c + d\<rparr>, T)"

definition cold_cache :: "int \<Rightarrow> ('k, 'v) cache \<times> (nat \<Rightarrow> ('k, 'v) flight)" where
  "cold_cache now = (\<lparr>ca_now = now, ca_store = (\<lambda>_. None), ca_locks = (\<lambda>_. None), ca_stored = {}\<rparr>, \<lambda>_. Outside)"

section \<open>What holds of every reachable cache\<close>

fun section_of :: "('k, 'v) flight \<Rightarrow> 'k option" where
  "section_of (Holding k) = Some k"
| "section_of (Refetched k _) = Some k"
| "section_of (Computing k) = Some k"
| "section_of (Computed k _) = Some k"
| "section_of (Leaving k _ _) = Some k"
| "section_of _ = None"

fun computing :: "('k, 'v) flight \<Rightarrow> 'k option" where
  "computing (Computing k) = Some k"
| "computing (Computed k _) = Some k"
| "computing _ = None"

fun entry_of :: "('k, 'v) flight \<Rightarrow> ('k \<times> int \<times> 'v) option" where
  "entry_of (Fetched k (Some (e, v))) = Some (k, e, v)"
| "entry_of (Refetched k (Some (e, v))) = Some (k, e, v)"
| "entry_of _ = None"

fun answer_of :: "('k, 'v) flight \<Rightarrow> ('k \<times> 'v \<times> int) option" where
  "answer_of (Leaving k (Some v) at_time) = Some (k, v, at_time)"
| "answer_of (Returned k (Some v) at_time) = Some (k, v, at_time)"
| "answer_of _ = None"

definition fresh_answer :: "int \<Rightarrow> ('k \<times> 'v \<times> int) set \<Rightarrow> 'k \<times> 'v \<times> int \<Rightarrow> bool" where
  "fresh_answer ttl stored = (\<lambda>(k, v, at_time). \<exists>t0. (k, v, t0) \<in> stored \<and> t0 \<le> at_time \<and> at_time < t0 + ttl)"

definition genuine_entry :: "int \<Rightarrow> ('k, 'v) cache \<Rightarrow> 'k \<times> int \<times> 'v \<Rightarrow> bool" where
  "genuine_entry ttl c = (\<lambda>(k, e, v). (k, v, e - ttl) \<in> ca_stored c \<and> e - ttl \<le> ca_now c)"

definition locks_match :: "('k, 'v) cache \<Rightarrow> (nat \<Rightarrow> ('k, 'v) flight) \<Rightarrow> bool" where
  "locks_match c T \<longleftrightarrow> (\<forall>k t. ca_locks c k = Some t \<longleftrightarrow> section_of (T t) = Some k)"

definition entries_genuine :: "int \<Rightarrow> ('k, 'v) cache \<Rightarrow> (nat \<Rightarrow> ('k, 'v) flight) \<Rightarrow> bool" where
  "entries_genuine ttl c T \<longleftrightarrow>
     (\<forall>k e v. ca_store c k = Some (e, v) \<longrightarrow> genuine_entry ttl c (k, e, v)) \<and>
     (\<forall>t x. entry_of (T t) = Some x \<longrightarrow> genuine_entry ttl c x) \<and>
     (\<forall>t x. answer_of (T t) = Some x \<longrightarrow> fresh_answer ttl (ca_stored c) x) \<and>
     (\<forall>t k. T t \<noteq> Direct k)"

lemma locks_match_step:
  assumes "cache_step ttl (c, T) (c', T')" "locks_match c T"
  shows "locks_match c' T'"
  using assms(1)
proof cases
  case (call t k)
  then have "section_of (T t) = None" by (cases "T t") simp_all
  with call assms(2) show ?thesis by (auto simp: locks_match_def)
next
  case (thread outcome t f)
  have other: "section_of (T u) \<noteq> Some k" if "section_of (T t) = Some k" "u \<noteq> t" for u k
    using assms(2) that unfolding locks_match_def by (metis option.inject)
  have free: "section_of (T u) \<noteq> Some k" if "ca_locks c k = None" for u k
    using assms(2) that unfolding locks_match_def by (metis option.distinct(1))
  from thread assms(2) other free show ?thesis
    unfolding locks_match_def
    by (cases "T t") (auto split: if_splits option.splits)
next
  case (tick d)
  with assms(2) show ?thesis by (simp add: locks_match_def)
qed

lemma live_entry_Some: "live_entry now e = Some v \<longleftrightarrow> (\<exists>x. e = Some (x, v) \<and> now < x)"
  by (auto simp: live_entry_def split: option.splits)

lemma genuine_mono:
  assumes "ca_stored c \<subseteq> ca_stored c'" "ca_now c \<le> ca_now c'"
  shows "genuine_entry ttl c x \<Longrightarrow> genuine_entry ttl c' x" "fresh_answer ttl (ca_stored c) y \<Longrightarrow> fresh_answer ttl (ca_stored c') y"
  using assms by (auto simp: genuine_entry_def fresh_answer_def split: prod.splits)

lemma entries_genuine_update:
  assumes "entries_genuine ttl c T" "ca_stored c \<subseteq> ca_stored c'" "ca_now c \<le> ca_now c'"
    and "\<And>k e v. ca_store c' k = Some (e, v) \<Longrightarrow> ca_store c k = Some (e, v) \<or> genuine_entry ttl c' (k, e, v)"
    and "\<And>x. entry_of f = Some x \<Longrightarrow> genuine_entry ttl c' x"
    and "\<And>x. answer_of f = Some x \<Longrightarrow> fresh_answer ttl (ca_stored c') x" "\<And>k. f \<noteq> Direct k"
  shows "entries_genuine ttl c' (T(t := f))"
  using assms(1,4-) genuine_mono [OF assms(2,3)] unfolding entries_genuine_def by (simp add: fun_upd_def) metis

lemma entries_genuineD:
  assumes "entries_genuine ttl c T"
  shows "ca_store c k = Some (e, v) \<Longrightarrow> genuine_entry ttl c (k, e, v)"
    "entry_of (T t) = Some x \<Longrightarrow> genuine_entry ttl c x" "answer_of (T t) = Some y \<Longrightarrow> fresh_answer ttl (ca_stored c) y"
    "T t \<noteq> Direct k"
  using assms unfolding entries_genuine_def by blast+

lemma live_entry_fresh:
  "genuine_entry ttl c (k, e, v) \<Longrightarrow> ca_now c < e \<Longrightarrow> fresh_answer ttl (ca_stored c) (k, v, ca_now c)"
  by (force simp: genuine_entry_def fresh_answer_def)

lemma entries_genuine_thread:
  assumes inv: "entries_genuine ttl c T" and ttl: "0 < ttl" and step: "get_or_compute_step ttl outcome t (T t) c = (f, c')"
  shows "entries_genuine ttl c' (T(t := f))"
proof (cases "T t")
  case (Asked k)
  with step ttl have "f = Fetched k (ca_store c k)" "c' = c" by auto
  then show ?thesis using entries_genuineD(1) [OF inv, of k]
    by (intro entries_genuine_update [OF inv]) (auto split: option.splits elim: entry_of.elims)
next
  case (Fetched k e)
  then show ?thesis using step entries_genuineD(2) [OF inv, of t] live_entry_fresh
    by (intro entries_genuine_update [OF inv]) (auto simp: live_entry_Some split: option.splits)
next
  case (Missed k)
  with step have "f = Missed k \<or> f = Holding k" "ca_store c' = ca_store c" "ca_now c' = ca_now c" "ca_stored c' = ca_stored c"
    by (auto split: option.splits)
  then show ?thesis by (intro entries_genuine_update [OF inv]) auto
next
  case (Holding k)
  with step have "f = Refetched k (ca_store c k)" "c' = c" by auto
  then show ?thesis using entries_genuineD(1) [OF inv, of k]
    by (intro entries_genuine_update [OF inv]) (auto split: option.splits elim: entry_of.elims)
next
  case (Refetched k e)
  then show ?thesis using step entries_genuineD(2) [OF inv, of t] live_entry_fresh
    by (intro entries_genuine_update [OF inv]) (auto simp: live_entry_Some split: option.splits)
next
  case (Computing k)
  then show ?thesis using step by (intro entries_genuine_update [OF inv]) (auto split: option.splits)
next
  case (Computed k v)
  then show ?thesis using step ttl
    by (intro entries_genuine_update [OF inv]) (auto simp: genuine_entry_def fresh_answer_def split: if_splits)
next
  case (Leaving k r a)
  then show ?thesis using step entries_genuineD(3) [OF inv, of t]
    by (intro entries_genuine_update [OF inv]; cases r) auto
next
  case (Returned k r a)
  then show ?thesis using step inv by (simp add: fun_upd_idem)
qed (use step inv entries_genuineD(4) [OF inv] in \<open>auto simp: fun_upd_idem\<close>)

lemma entries_genuine_step:
  assumes "cache_step ttl (c, T) (c', T')" "entries_genuine ttl c T" "0 < ttl"
  shows "entries_genuine ttl c' T'"
  using assms(1)
proof cases
  case (call t k)
  then show ?thesis by (auto intro: entries_genuine_update [OF assms(2)])
next
  case (thread outcome t f)
  then show ?thesis using entries_genuine_thread [OF assms(2,3)] by simp
next
  case (tick d)
  with entries_genuine_update [OF assms(2), of c' "T t" t for t] entries_genuineD [OF assms(2)]
    genuine_mono [of c c'] show ?thesis by (simp add: fun_upd_idem)
qed

lemma cache_sound_reachable:
  assumes "(cache_step ttl)\<^sup>*\<^sup>* (cold_cache now) (c, T)" "0 < ttl"
  shows "locks_match c T \<and> entries_genuine ttl c T"
  using assms(1)
proof (induction "(c, T)" arbitrary: c T rule: rtranclp_induct)
  case base
  then show ?case by (auto simp: cold_cache_def locks_match_def entries_genuine_def)
next
  case (step w)
  obtain c0 T0 where w: "w = (c0, T0)" by (cases w)
  with step(3) have "locks_match c0 T0" "entries_genuine ttl c0 T0" by blast+
  with step(2) w assms(2) show ?case using locks_match_step entries_genuine_step by blast
qed

text \<open>
  C40. The cache of a process, with any number of threads: at most one of them computes a key at a time, and
  every value a caller gets was stored for that key at most the configured time before the answer was
  settled (and was the result of a call of \<open>compute\<close>, because nothing else is ever stored).
\<close>

theorem cache_single_flight:
  assumes "(cache_step ttl)\<^sup>*\<^sup>* (cold_cache now) (c, T)" "0 < ttl"
  shows "(\<forall>t u k. computing (T t) = Some k \<longrightarrow> computing (T u) = Some k \<longrightarrow> t = u) \<and>
    (\<forall>t k v at_time. T t = Returned k (Some v) at_time \<longrightarrow>
       (\<exists>t0. (k, v, t0) \<in> ca_stored c \<and> t0 \<le> at_time \<and> at_time < t0 + ttl))"
proof -
  have m: "locks_match c T" and g: "entries_genuine ttl c T" using cache_sound_reachable [OF assms] by blast+
  have inside: "section_of f = Some k" if "computing f = Some k" for f :: "('a, 'b) flight" and k
    using that by (cases f) simp_all
  have "t = u" if "computing (T t) = Some k" "computing (T u) = Some k" for t u k
    using m inside [OF that(1)] inside [OF that(2)] unfolding locks_match_def by (metis option.inject)
  moreover have "\<exists>t0. (k, v, t0) \<in> ca_stored c \<and> t0 \<le> at_time \<and> at_time < t0 + ttl"
    if "T t = Returned k (Some v) at_time" for t k v at_time
    using entries_genuineD(3) [OF g, of t "(k, v, at_time)"] that by (simp add: fresh_answer_def)
  ultimately show ?thesis by blast
qed

text \<open>Two threads that ask for one key at the same time: the second waits for the first and reads its value.\<close>

definition run_threads :: "int \<Rightarrow> 'v option \<Rightarrow> nat list \<Rightarrow> ('k, 'v) cache \<times> (nat \<Rightarrow> ('k, 'v) flight) \<Rightarrow>
  ('k, 'v) cache \<times> (nat \<Rightarrow> ('k, 'v) flight)" where
  "run_threads ttl outcome = fold (\<lambda>t (c, T).
     case get_or_compute_step ttl outcome t (T t) c of (f, c') \<Rightarrow> (c', T(t := f)))"

lemma run_threads_reachable: "(cache_step ttl)\<^sup>*\<^sup>* w (run_threads ttl outcome ts w)"
proof (induction ts arbitrary: w)
  case (Cons t ts)
  obtain c T where w: "w = (c, T)" by (cases w)
  obtain f c' where f: "get_or_compute_step ttl outcome t (T t) c = (f, c')" by fastforce
  have "cache_step ttl w (c', T(t := f))" unfolding w by (rule cache_step.thread) (rule f)
  from converse_rtranclp_into_rtranclp [OF this Cons.IH] show ?case
    unfolding w by (simp add: run_threads_def f)
qed (simp add: run_threads_def)

definition two_askers :: "(string, int) cache \<times> (nat \<Rightarrow> (string, int) flight)" where
  "two_askers = (fst (cold_cache 0), (snd (cold_cache 0))(0 := Asked ''kpi'', 1 := Asked ''kpi''))"

definition two_answers :: "(string, int) cache \<times> (nat \<Rightarrow> (string, int) flight)" where
  "two_answers = run_threads 30 (Some 7) [0, 1, 0, 1, 0, 1, 0, 1, 0, 0, 1, 0, 0, 1, 1, 1, 1] two_askers"

lemma two_answers: "snd two_answers 0 = Returned ''kpi'' (Some 7) 0" "snd two_answers 1 = Returned ''kpi'' (Some 7) 0"
  by code_simp+

theorem cache_single_flight_witness:
  "\<exists>t0. (''kpi'', 7, t0) \<in> ca_stored (fst two_answers) \<and> t0 \<le> 0 \<and> 0 < t0 + 30"
proof -
  have 1: "cache_step 30 (cold_cache 0) (fst (cold_cache 0), (snd (cold_cache 0))(0 := Asked ''kpi''))"
    unfolding cold_cache_def fst_conv snd_conv by (rule cache_step.call) simp
  have 2: "cache_step 30 (fst (cold_cache 0), (snd (cold_cache 0))(0 := Asked ''kpi'')) two_askers"
    unfolding two_askers_def by (rule cache_step.call) (simp add: cold_cache_def)
  have "(cache_step 30)\<^sup>*\<^sup>* two_askers two_answers" unfolding two_answers_def by (rule run_threads_reachable)
  then have "(cache_step 30)\<^sup>*\<^sup>* (cold_cache 0) (fst two_answers, snd two_answers)"
    using 1 2 by (metis converse_rtranclp_into_rtranclp prod.collapse)
  from cache_single_flight [OF this] two_answers show ?thesis by simp
qed

section \<open>The key of a memoized method\<close>

text \<open>\<open>cached_method\<close>: the name, the positional and the sorted keyword arguments; \<open>None\<close> when one is not hashable.\<close>

definition method_key :: "('a \<Rightarrow> bool) \<Rightarrow> string \<Rightarrow> 'a list \<Rightarrow> (string \<times> 'a) list \<Rightarrow> (string \<times> 'a list \<times> (string \<times> 'a) list) option" where
  "method_key hashable name args kwargs =
     (if list_all hashable (args @ map snd kwargs) then Some (name, args, sort_key fst kwargs) else None)"

lemma method_key_order:
  assumes "mset kwargs = mset kwargs'" "distinct (map fst kwargs)"
  shows "method_key hashable name args kwargs = method_key hashable name args kwargs'"
proof -
  have "sort_key fst kwargs = sort_key fst kwargs'"
    using assms by (intro sort_key_inj_key_eq) (simp_all add: distinct_map)
  then show ?thesis using mset_eq_setD [OF assms(1)] by (auto simp: method_key_def list_all_iff)
qed

section \<open>The cache on a Redis server\<close>

record 's cache_client =
  cc_get :: "string \<Rightarrow> ('s, string option) eff"
  cc_setex :: "string \<Rightarrow> int \<Rightarrow> string \<Rightarrow> ('s, unit) eff"

record 'v pickling =
  pk_dumps :: "'v \<Rightarrow> string"
  pk_loads :: "string \<Rightarrow> 'v fallible"

text \<open>\<open>redis.RedisError\<close>, and \<open>(pickle.PickleError, ValueError)\<close>.\<close>

definition is_redis_error :: "exn \<Rightarrow> bool" where
  "is_redis_error e \<longleftrightarrow> e = Raised (Client RedisError)"

definition PickleError :: exn where "PickleError = Raised (Message ''PickleError'')"

definition unreadable_blob :: "exn \<Rightarrow> bool" where
  "unreadable_blob e \<longleftrightarrow> e = PickleError \<or> (case e of Raised (Py (ValueError _)) \<Rightarrow> True | _ \<Rightarrow> False)"

text \<open>\<open>int(ttl) or 1\<close>, of a positive number of seconds.\<close>

definition expiry_seconds :: "rat \<Rightarrow> int" where
  "expiry_seconds ttl_seconds = (if \<lfloor>ttl_seconds\<rfloor> = 0 then 1 else \<lfloor>ttl_seconds\<rfloor>)"

definition compute_and_store :: "'s cache_client \<Rightarrow> 'v pickling \<Rightarrow> rat \<Rightarrow> string \<Rightarrow> ('s, 'v) eff \<Rightarrow> ('s, 'v) eff" where
  "compute_and_store C P ttl_seconds redis_key compute =
     and_then compute (\<lambda>v.
     and_then (handle (cc_setex C redis_key (expiry_seconds ttl_seconds) (pk_dumps P v))
        (\<lambda>e. if is_redis_error e then return () else throw e)) (\<lambda>_. return v))"

definition redis_get_or_compute :: "'s cache_client \<Rightarrow> 'v pickling \<Rightarrow> rat \<Rightarrow> string \<Rightarrow> ('s, 'v) eff \<Rightarrow> ('s, 'v) eff" where
  "redis_get_or_compute C P ttl_seconds redis_key compute =
     (if ttl_seconds \<le> 0 then compute
      else (\<lambda>s. case cc_get C redis_key s of
          (Inl e, t) \<Rightarrow> if is_redis_error e then compute t else (Inl e, t)
        | (Inr None, t) \<Rightarrow> compute_and_store C P ttl_seconds redis_key compute t
        | (Inr (Some blob), t) \<Rightarrow>
            (case pk_loads P blob of
               Inr v \<Rightarrow> (Inr v, t)
             | Inl e \<Rightarrow> if unreadable_blob e then compute_and_store C P ttl_seconds redis_key compute t else (Inl e, t))))"

text \<open>
  With a client that raises nothing but \<open>RedisError\<close>, the caller of the Redis cache gets what a blob of
  the server unpickles to or what \<open>compute\<close> gives, in the state the read left, with one exception: a blob
  whose unpickling raises something else than \<open>PickleError\<close> or \<open>ValueError\<close> (\<open>AttributeError\<close>, say, for a
  class that a new version has renamed) raises that at the caller, and \<open>compute\<close> is not called.
\<close>

theorem redis_cache_fails_open:
  assumes "\<And>s e. fst (cc_get C k s) = Inl e \<Longrightarrow> is_redis_error e"
    and "\<And>n b s e. fst (cc_setex C k n b s) = Inl e \<Longrightarrow> is_redis_error e"
    and "cc_get C k s = (found, t)" "0 < ttl_seconds"
  shows "fst (redis_get_or_compute C P ttl_seconds k compute s) =
    (case found of
       Inr (Some blob) \<Rightarrow> (case pk_loads P blob of Inr v \<Rightarrow> Inr v
          | Inl e \<Rightarrow> if unreadable_blob e then fst (compute t) else Inl e)
     | _ \<Rightarrow> fst (compute t))"
proof -
  have store: "fst (compute_and_store C P ttl_seconds k compute u) = fst (compute u)" for u
    using assms(2)
    by (auto simp: compute_and_store_def and_then_def handle_def eff_simps split: prod.splits sum.splits)
       (metis fst_conv)
  show ?thesis
    using assms(1) [of s] assms(3,4) store
    by (auto simp: redis_get_or_compute_def split: sum.splits option.splits)
qed

definition renamed_class :: "string pickling" where
  "renamed_class = \<lparr>pk_dumps = id, pk_loads = (\<lambda>_. Inl (Raised (Message ''AttributeError'')))\<rparr>"

definition one_blob :: "unit cache_client" where
  "one_blob = \<lparr>cc_get = (\<lambda>_. return (Some ''old'')), cc_setex = (\<lambda>_ _ _. throw (Raised (Client RedisError)))\<rparr>"

theorem redis_cache_fails_open_witness:
  "fst (redis_get_or_compute one_blob renamed_class 30 ''k'' (return ''new'') ()) = Inl (Raised (Message ''AttributeError''))"
proof -
  have "cc_get one_blob ''k'' () = (Inr (Some ''old''), ())" by (simp add: one_blob_def eff_simps)
  from redis_cache_fails_open [OF _ _ this, of 30 renamed_class "return ''new''"] show ?thesis
    by (simp add: one_blob_def eff_simps is_redis_error_def renamed_class_def unreadable_blob_def PickleError_def)
qed

end
