(* ===== verification/Utilities.thy ===== *)
theory Utilities imports Repositories DateTime
begin

text \<open>
  The pure helpers of \<open>app/utils\<close>: pagination parameters and metadata (\<open>pagination.py\<close>), the validators
  (\<open>validators.py\<close>), the checks on uploaded files and their storage path (\<open>file_utils.py\<close>) and the generic
  functions of \<open>helpers.py\<close>. Text and file contents are ASCII strings.
\<close>

datatype utility_error =
    PaginationParameterError string
  | InvalidInput string
  | FileValidationError string
  | HelperValueError string

section \<open>Pagination\<close>

datatype page_value = PageInt int | PageText string

text \<open>Python's \<open>int(text)\<close>: surrounding space, a sign, digits with single underscores between them.\<close>

definition is_digit :: "char \<Rightarrow> bool" where
  "is_digit c = (let n = (of_char c :: nat) in 48 \<le> n \<and> n \<le> 57)"

definition digit_value :: "char \<Rightarrow> int" where
  "digit_value c = of_char c - 48"

fun parse_digits :: "int \<Rightarrow> string \<Rightarrow> int option" where
  "parse_digits acc [] = Some acc"
| "parse_digits acc (c # cs) =
     (if is_digit c then parse_digits (10 * acc + digit_value c) cs
      else if c = CHR ''_'' then (case cs of d # _ \<Rightarrow> if is_digit d then parse_digits acc cs else None | [] \<Rightarrow> None)
      else None)"

definition parse_unsigned :: "string \<Rightarrow> int option" where
  "parse_unsigned cs = (case cs of [] \<Rightarrow> None | c # _ \<Rightarrow> if is_digit c then parse_digits 0 cs else None)"

definition python_int :: "string \<Rightarrow> int option" where
  "python_int text =
     (case strip text of
        c # cs \<Rightarrow> if c = CHR ''-'' then map_option uminus (parse_unsigned cs)
                  else if c = CHR ''+'' then parse_unsigned cs else parse_unsigned (c # cs)
      | [] \<Rightarrow> None)"

definition coerce_positive_int :: "page_value option \<Rightarrow> int \<Rightarrow> string \<Rightarrow> utility_error + int" where
  "coerce_positive_int value fallback field_name =
     (case value of
        None \<Rightarrow> Inr fallback
      | Some (PageInt n) \<Rightarrow> Inr n
      | Some (PageText text) \<Rightarrow>
          (case python_int text of Some n \<Rightarrow> Inr n | None \<Rightarrow> Inl (PaginationParameterError field_name)))"

definition parse_pagination_params :: "page_value option \<Rightarrow> page_value option \<Rightarrow> utility_error + (int \<times> int)" where
  "parse_pagination_params p sz =
     (case coerce_positive_int p 1 ''page'' of Inl e \<Rightarrow> Inl e
      | Inr resolved_page \<Rightarrow>
          if resolved_page < 1 then Inl (PaginationParameterError ''page'')
          else (case coerce_positive_int sz DEFAULT_PAGE_SIZE ''page_size'' of Inl e \<Rightarrow> Inl e
            | Inr resolved_size \<Rightarrow>
                if \<not> (1 \<le> resolved_size \<and> resolved_size \<le> MAX_PAGE_SIZE) then Inl (PaginationParameterError ''page_size'')
                else Inr (resolved_page, resolved_size)))"

record pagination_metadata =
  pm_page :: int
  pm_page_size :: int
  pm_total_records :: int
  pm_total_pages :: int

definition build_pagination_metadata :: "int \<Rightarrow> int \<Rightarrow> int \<Rightarrow> utility_error + pagination_metadata" where
  "build_pagination_metadata p sz records =
     (if sz < 1 then Inl (PaginationParameterError ''page_size'')
      else if records < 0 then Inl (PaginationParameterError ''total_records'')
      else Inr \<lparr>pm_page = p, pm_page_size = sz, pm_total_records = records,
        pm_total_pages = (if 0 < records then - (- records div sz) else 0)\<rparr>)"

text \<open>The page numbers a client may ask for are those whose rows are not all past the end.\<close>

lemma pagination_metadata_pages:
  assumes "build_pagination_metadata p sz records = Inr m" "1 \<le> n"
  shows "n \<le> pm_total_pages m \<longleftrightarrow> (n - 1) * sz < records"
proof -
  have sz: "1 \<le> sz" "0 \<le> records" and pages: "pm_total_pages m = (if 0 < records then - (- records div sz) else 0)"
    using assms(1) by (auto simp: build_pagination_metadata_def split: if_splits)
  have "n \<le> - (- records div sz) \<longleftrightarrow> \<not> 1 - n \<le> - records div sz" by linarith
  also have "\<dots> \<longleftrightarrow> \<not> (1 - n) * sz \<le> - records" using sz(1) by (simp add: le_div_iff_mult_le_int)
  also have "\<dots> \<longleftrightarrow> (n - 1) * sz < records" by (auto simp: algebra_simps)
  finally have "n \<le> - (- records div sz) \<longleftrightarrow> (n - 1) * sz < records" .
  moreover have "\<not> (n - 1) * sz < records" if "records = 0" using assms(2) sz(1) that by (simp add: not_less)
  ultimately show ?thesis using sz(2) assms(2) unfolding pages by (cases "0 < records") auto
qed

section \<open>Validators\<close>

definition validate_string_length :: "string \<Rightarrow> string \<Rightarrow> nat \<Rightarrow> nat \<Rightarrow> utility_error + string" where
  "validate_string_length value field_name min_length max_length =
     (let stripped = strip value in
      if length stripped < min_length then Inl (InvalidInput field_name)
      else if max_length < length stripped then Inl (InvalidInput field_name) else Inr stripped)"

definition validate_non_empty_string :: "string \<Rightarrow> string \<Rightarrow> utility_error + string" where
  "validate_non_empty_string value field_name =
     validate_string_length value field_name 1 (if length (strip value) = 0 then 1 else length (strip value))"

text \<open>The pattern: one at sign, no space, and a dot inside what follows the sign.\<close>

definition plain_text :: "string \<Rightarrow> bool" where
  "plain_text s \<longleftrightarrow> list_all (\<lambda>c. c \<noteq> CHR ''@'' \<and> \<not> is_space c) s"

definition email_pattern :: "string \<Rightarrow> bool" where
  "email_pattern s =
     (let local = takeWhile (\<lambda>c. c \<noteq> CHR ''@'') s; domain = drop (Suc (length local)) s in
      local \<noteq> [] \<and> length local < length s \<and> plain_text local \<and> plain_text domain \<and>
      list_ex (\<lambda>i. domain ! i = CHR ''.'') [1..<length domain - 1])"

definition validate_email :: "string \<Rightarrow> string \<Rightarrow> utility_error + string" where
  "validate_email value field_name =
     (let stripped = strip value in if \<not> email_pattern stripped then Inl (InvalidInput field_name) else Inr stripped)"


text \<open>\<open>UUID(text)\<close> is the standard library's parser, a parameter.\<close>

definition validate_uuid :: "(string \<Rightarrow> uuid option) \<Rightarrow> string \<Rightarrow> string \<Rightarrow> utility_error + uuid" where
  "validate_uuid parse value field_name = (case parse value of Some i \<Rightarrow> Inr i | None \<Rightarrow> Inl (InvalidInput field_name))"

definition is_valid_uuid :: "(string \<Rightarrow> uuid option) \<Rightarrow> string \<Rightarrow> bool" where
  "is_valid_uuid parse value = (case validate_uuid parse value ''id'' of Inl _ \<Rightarrow> False | Inr _ \<Rightarrow> True)"

lemma validate_non_empty_string_iff:
  "validate_non_empty_string value field_name = (if strip value = [] then Inl (InvalidInput field_name) else Inr (strip value))"
  by (auto simp: validate_non_empty_string_def validate_string_length_def Let_def Suc_le_eq)

section \<open>Files\<close>

definition unsafe_filename_char :: "char \<Rightarrow> bool" where
  "unsafe_filename_char c = (let n = (of_char c :: nat) in n = 92 \<or> n = 47 \<or> n < 32 \<or> n = 127)"

definition sanitize_filename :: "string \<Rightarrow> utility_error + string" where
  "sanitize_filename filename =
     (let sanitized = strip (filter (\<lambda>c. \<not> unsafe_filename_char c) filename) in
      if sanitized = [] then Inl (FileValidationError ''empty after sanitization'') else Inr sanitized)"

definition build_storage_path :: "(uuid \<Rightarrow> string) \<Rightarrow> uuid \<Rightarrow> uuid \<Rightarrow> string \<Rightarrow> string" where
  "build_storage_path show_uuid request_id attachment_id sanitized_file_name =
     ''attachments/'' @ show_uuid request_id @ ''/'' @ show_uuid attachment_id @ ''_'' @ sanitized_file_name"

definition ALLOWED_ATTACHMENT_CONTENT_TYPES :: "string list" where
  "ALLOWED_ATTACHMENT_CONTENT_TYPES =
     [''application/pdf'', ''image/png'', ''image/jpeg'', ''image/gif'', ''text/plain'', ''text/csv'', ''application/msword'',
      ''application/vnd.openxmlformats-officedocument.wordprocessingml.document'', ''application/vnd.ms-excel'',
      ''application/vnd.openxmlformats-officedocument.spreadsheetml.sheet'', ''application/zip'']"

definition MAX_ATTACHMENT_SIZE_BYTES :: int where "MAX_ATTACHMENT_SIZE_BYTES = 25 * 1024 * 1024"

definition validate_content_type :: "string list \<Rightarrow> string \<Rightarrow> utility_error + string" where
  "validate_content_type allowed content_type =
     (if content_type \<notin> set allowed then Inl (FileValidationError ''content type'') else Inr content_type)"

definition validate_file_size :: "int \<Rightarrow> int \<Rightarrow> utility_error + int" where
  "validate_file_size max_widthbytes widthbytes =
     (if widthbytes \<le> 0 then Inl (FileValidationError ''size must be positive'')
      else if max_widthbytes < widthbytes then Inl (FileValidationError ''size exceeds the maximum'') else Inr widthbytes)"

definition MAGIC_BYTE_SIGNATURES :: "(string \<times> string) list" where
  "MAGIC_BYTE_SIGNATURES =
     [(''%PDF-'', ''application/pdf''),
      (map char_of [0x89 :: nat, 0x50, 0x4E, 0x47, 0x0D, 0x0A, 0x1A, 0x0A], ''image/png''),
      (map char_of [0xFF :: nat, 0xD8, 0xFF], ''image/jpeg''),
      (''GIF87a'', ''image/gif''), (''GIF89a'', ''image/gif''),
      (map char_of [0x50 :: nat, 0x4B, 0x03, 0x04], ''application/zip'')]"

definition ZIP_CONTAINER_CONTENT_TYPES :: "string list" where
  "ZIP_CONTAINER_CONTENT_TYPES =
     [''application/zip'', ''application/vnd.openxmlformats-officedocument.wordprocessingml.document'',
      ''application/vnd.openxmlformats-officedocument.spreadsheetml.sheet'']"

definition sniff_content_type :: "string \<Rightarrow> string option" where
  "sniff_content_type content =
     map_option snd (List.find (\<lambda>(signature, _). take (length signature) content = signature) MAGIC_BYTE_SIGNATURES)"

definition validate_content_type_consistency :: "string \<Rightarrow> string \<Rightarrow> utility_error + unit" where
  "validate_content_type_consistency declared content =
     (case sniff_content_type content of
        None \<Rightarrow> Inr ()
      | Some sniffed \<Rightarrow>
          if sniffed = declared then Inr ()
          else if sniffed = ''application/zip'' \<and> declared \<in> set ZIP_CONTAINER_CONTENT_TYPES then Inr ()
          else Inl (FileValidationError ''content does not match its declared type''))"

definition get_file_extension :: "string \<Rightarrow> string" where
  "get_file_extension filename =
     (if CHR ''.'' \<notin> set filename then [] else lower (rev (takeWhile (\<lambda>c. c \<noteq> CHR ''.'') (rev filename))))"

lemma strip_subset: "set (strip xs) \<subseteq> set xs"
  unfolding strip_def by (auto dest!: set_dropWhileD)

lemma sanitize_filename_safe:
  assumes "sanitize_filename filename = Inr sanitized"
  shows "sanitized \<noteq> []" "\<forall>c \<in> set sanitized. \<not> unsafe_filename_char c" "strip sanitized = sanitized"
proof -
  have s: "sanitized = strip (filter (\<lambda>c. \<not> unsafe_filename_char c) filename)" "sanitized \<noteq> []"
    using assms by (auto simp: sanitize_filename_def Let_def split: if_splits)
  then show "sanitized \<noteq> []" "strip sanitized = sanitized" by (simp_all add: strip_idem)
  show "\<forall>c \<in> set sanitized. \<not> unsafe_filename_char c" using strip_subset [of "filter _ filename"] s(1) by auto
qed

text \<open>
  The storage path of an upload tells its request, its attachment and its name apart from those of any
  other upload, and the client's name adds no directory to it: the path has the two slashes of its format
  and no others. (A rendered UUID has hexadecimal digits and dashes only.)
\<close>

theorem storage_path_identifies_upload:
  assumes "sanitize_filename f = Inr name" "sanitize_filename f' = Inr name'"
    and "\<And>i c. c \<in> set (show_uuid i) \<Longrightarrow> c \<noteq> CHR ''/'' \<and> c \<noteq> CHR ''_''" "inj show_uuid"
  shows "filter (\<lambda>c. c = CHR ''/'') (build_storage_path show_uuid r a name) = ''//'' \<and>
    (build_storage_path show_uuid r a name = build_storage_path show_uuid r' a' name' \<longrightarrow> r = r' \<and> a = a' \<and> name = name')"
proof
  have "CHR ''/'' \<notin> set name" using sanitize_filename_safe(2) [OF assms(1)] by (auto simp: unsafe_filename_char_def)
  then show "filter (\<lambda>c. c = CHR ''/'') (build_storage_path show_uuid r a name) = ''//''"
    using assms(3) by (auto simp: build_storage_path_def filter_empty_conv)
  have until: "takeWhile (\<lambda>c. c \<noteq> d) (show_uuid i @ d # xs) = show_uuid i" "dropWhile (\<lambda>c. c \<noteq> d) (show_uuid i @ d # xs) = d # xs"
    if "d \<in> {CHR ''/'', CHR ''_''}" for d i xs
    using assms(3) [of _ i] that by (auto simp: takeWhile_append dropWhile_append)
  show "build_storage_path show_uuid r a name = build_storage_path show_uuid r' a' name' \<longrightarrow> r = r' \<and> a = a' \<and> name = name'"
  proof
    assume "build_storage_path show_uuid r a name = build_storage_path show_uuid r' a' name'"
    then have eq: "show_uuid r @ CHR ''/'' # (show_uuid a @ CHR ''_'' # name) =
        show_uuid r' @ CHR ''/'' # (show_uuid a' @ CHR ''_'' # name')" by (simp add: build_storage_path_def)
    from arg_cong [OF eq, of "takeWhile (\<lambda>c. c \<noteq> CHR ''/'')"] have r: "show_uuid r = show_uuid r'" by (simp add: until)
    with eq have eq': "show_uuid a @ CHR ''_'' # name = show_uuid a' @ CHR ''_'' # name'" by simp
    from arg_cong [OF eq', of "takeWhile (\<lambda>c. c \<noteq> CHR ''_'')"] have a: "show_uuid a = show_uuid a'" by (simp add: until)
    with eq' r assms(4) show "r = r' \<and> a = a' \<and> name = name'" by (simp add: inj_eq)
  qed
qed

definition unary_uuid :: "uuid \<Rightarrow> string" where "unary_uuid i = replicate i CHR ''1''"

theorem storage_path_identifies_upload_witness:
  "filter (\<lambda>c. c = CHR ''/'') (build_storage_path unary_uuid 1 2 ''..etcpasswd'') = ''//'' \<and>
   build_storage_path unary_uuid 1 2 ''..etcpasswd'' \<noteq> build_storage_path unary_uuid 1 3 ''a.txt''"
proof -
  have "sanitize_filename ''../etc/passwd'' = Inr ''..etcpasswd''" "sanitize_filename '' a.txt '' = Inr ''a.txt''"
    by code_simp+
  from storage_path_identifies_upload [OF this, of unary_uuid 1 2 1 3] show ?thesis
    by (auto simp: unary_uuid_def inj_def)
qed

section \<open>Helpers\<close>

text \<open>\<open>chunked\<close>: the loop with the chunk under construction.\<close>

fun chunk_loop :: "nat \<Rightarrow> 'a list \<Rightarrow> 'a list \<Rightarrow> 'a list list" where
  "chunk_loop width chunk [] = (if chunk = [] then [] else [chunk])"
| "chunk_loop width chunk (item # items) =
     (let chunk' = chunk @ [item] in
      if length chunk' = width then chunk' # chunk_loop width [] items else chunk_loop width chunk' items)"

definition chunked :: "'a list \<Rightarrow> int \<Rightarrow> utility_error + 'a list list" where
  "chunked items width = (if width \<le> 0 then Inl (HelperValueError ''size'') else Inr (chunk_loop (nat width) [] items))"

definition coalesce :: "'a option list \<Rightarrow> 'a option" where
  "coalesce values = (case List.find (\<lambda>v. v \<noteq> None) values of None \<Rightarrow> None | Some v \<Rightarrow> v)"

datatype json_value = JsonLeaf string | JsonDict "(string \<times> json_value) list"

fun deep_get :: "json_value \<Rightarrow> string list \<Rightarrow> json_value option \<Rightarrow> json_value option" where
  "deep_get current [] fallback = Some current"
| "deep_get current (key # path) fallback =
     (case current of
        JsonLeaf _ \<Rightarrow> fallback
      | JsonDict d \<Rightarrow> (case map_of d key of None \<Rightarrow> fallback | Some next_value \<Rightarrow> deep_get next_value path fallback))"

definition truncate_string :: "string \<Rightarrow> int \<Rightarrow> string \<Rightarrow> utility_error + string" where
  "truncate_string value max_length suffix =
     (if max_length < int (length suffix) then Inl (HelperValueError ''max_length'')
      else if int (length value) \<le> max_length then Inr value
      else Inr (take (nat (max_length - int (length suffix))) value @ suffix))"

definition first_or_default :: "'a list \<Rightarrow> 'a option \<Rightarrow> 'a option" where
  "first_or_default items fallback = (case items of [] \<Rightarrow> fallback | item # _ \<Rightarrow> Some item)"

lemma chunk_loop_concat: "concat (chunk_loop n chunk xs) = chunk @ xs"
  by (induction n chunk xs rule: chunk_loop.induct) (simp_all add: Let_def)

lemma chunk_loop_sizes:
  "length chunk < n \<Longrightarrow> \<forall>c \<in> set (chunk_loop n chunk xs). c \<noteq> [] \<and> length c \<le> n"
proof (induction xs arbitrary: chunk)
  case (Cons x xs)
  show ?case using Cons.prems Cons.IH [of "[]"] Cons.IH [of "chunk @ [x]"] by (cases "Suc (length chunk) = n") (auto simp: Let_def)
qed auto

lemma chunk_loop_full:
  "length chunk < n \<Longrightarrow> \<forall>c \<in> set (butlast (chunk_loop n chunk xs)). length c = n"
proof (induction xs arbitrary: chunk)
  case (Cons x xs)
  show ?case using Cons.prems Cons.IH [of "[]"] Cons.IH [of "chunk @ [x]"] by (cases "Suc (length chunk) = n") (auto simp: Let_def)
qed auto

lemma truncate_string_bound:
  assumes "truncate_string value max_length suffix = Inr r"
  shows "int (length r) \<le> max_length" "int (length value) \<le> max_length \<Longrightarrow> r = value"
  using assms by (auto simp: truncate_string_def split: if_splits)

end
