(* ===== verification/Invitations.thy ===== *)
theory Invitations imports DateTime Worker
begin

text \<open>
  Invitations: the models of \<open>models/invitation.py\<close>, the table and its repository
  (\<open>database/repositories/invitation_repository.py\<close>), the client of the identity provider's admin API
  (\<open>services/supabase_admin_client.py\<close>), the queued mail (\<open>services/invitation_email.py\<close>) and the service
  (\<open>services/invitation_service.py\<close>). The admin API, the mail sender, the SHA-256 digest and the draw of a
  token are parameters. The table extends the database of the jobs.
\<close>

section \<open>Models\<close>

definition EMAIL_MAX_LENGTH :: nat where "EMAIL_MAX_LENGTH = 254"
definition FULL_NAME_MAX_LENGTH :: nat where "FULL_NAME_MAX_LENGTH = 200"
definition DEPARTMENT_MAX_LENGTH :: nat where "DEPARTMENT_MAX_LENGTH = 200"

text \<open>\<open>value.partition('@')\<close> at the first separator.\<close>

definition validate_email_shape :: "string \<Rightarrow> string fallible" where
  "validate_email_shape v =
     (let before = takeWhile (\<lambda>c. c \<noteq> CHR ''@'') v; rest = dropWhile (\<lambda>c. c \<noteq> CHR ''@'') v; domain = tl rest in
      if rest = [] \<or> before = [] \<or> CHR ''.'' \<notin> set domain \<or> take 1 domain = ''.'' \<or> domain = []
      then Inl (Raised (Model (PydanticValidationError ''email''))) else Inr v)"

text \<open>The fields both models share, stripped by the base model before they are validated.\<close>

record invitee =
  ie_email :: string
  ie_full_name :: string
  ie_role :: user_role
  ie_department :: "string option"

definition InvitationCreate :: "invitee \<Rightarrow> invitee fallible" where
  "InvitationCreate raw =
     (let p = raw\<lparr>ie_email := strip (ie_email raw), ie_full_name := strip (ie_full_name raw),
                  ie_department := map_option strip (ie_department raw)\<rparr> in
      if EMAIL_MAX_LENGTH < length (ie_email p) then Inl (Raised (Model (PydanticValidationError ''email'')))
      else bind_result (validate_email_shape (ie_email p)) (\<lambda>_.
        if ie_full_name p = [] \<or> FULL_NAME_MAX_LENGTH < length (ie_full_name p)
        then Inl (Raised (Model (PydanticValidationError ''full_name'')))
        else if \<not> opt_ok (\<lambda>d. length d \<le> DEPARTMENT_MAX_LENGTH) (ie_department p)
        then Inl (Raised (Model (PydanticValidationError ''department'')))
        else Inr p))"

record invitation = invitee +
  in_id :: uuid
  in_effective_status :: effective_invitation_status
  in_invited_by :: "uuid option"
  in_expires_at :: timestamp
  in_accepted_at :: "timestamp option"
  in_revoked_at :: "timestamp option"
  in_accepted_profile_id :: "uuid option"
  in_resend_count :: int
  in_version :: int
  in_created_at :: timestamp
  in_updated_at :: timestamp

definition Invitation :: "invitation \<Rightarrow> invitation fallible" where
  "Invitation raw =
     bind_result (InvitationCreate (invitee.truncate raw)) (\<lambda>p.
       if in_resend_count raw < 0 then Inl (Raised (Model (PydanticValidationError ''resend_count'')))
       else if in_version raw < 1 then Inl (Raised (Model (PydanticValidationError ''version'')))
       else Inr (raw\<lparr>ie_email := ie_email p, ie_full_name := ie_full_name p, ie_department := ie_department p\<rparr>))"

section \<open>The table\<close>

record invitation_record =
  iv_id :: uuid
  iv_email :: string
  iv_full_name :: string
  iv_role :: user_role
  iv_department :: "string option"
  iv_token_hash :: string
  iv_status :: invitation_status
  iv_invited_by :: "uuid option"
  iv_expires_at :: timestamp
  iv_accepted_at :: "timestamp option"
  iv_revoked_at :: "timestamp option"
  iv_accepted_profile_id :: "uuid option"
  iv_resend_count :: int
  iv_version :: int
  iv_created_at :: timestamp
  iv_updated_at :: timestamp
  iv_company_id :: uuid

record invitation_db = job_db +
  t_invitations :: "invitation_record list"

definition check_invitation :: "'z invitation_db_scheme \<Rightarrow> invitation_record \<Rightarrow> string option" where
  "check_invitation s i = first_violation
     [(0 \<le> iv_resend_count i \<and> 0 < iv_version i, check_violation),
      (\<not> list_ex (\<lambda>x. iv_id x \<noteq> iv_id i \<and> iv_token_hash x = iv_token_hash i) (t_invitations s), unique_violation),
      (iv_status i = InvPending \<longrightarrow> \<not> list_ex (\<lambda>x. iv_id x \<noteq> iv_id i \<and> iv_status x = InvPending \<and>
          iv_company_id x = iv_company_id i \<and> lower (iv_email x) = lower (iv_email i)) (t_invitations s), unique_violation),
      (opt_ok (profile_exists s) (iv_invited_by i), foreign_key_violation),
      (opt_ok (profile_exists s) (iv_accepted_profile_id i), foreign_key_violation)]"

definition invitation_table :: "('z invitation_db_scheme, invitation_record) table" where
  "invitation_table =
     \<lparr>tb_name = ''user_invitations'', tb_rows = t_invitations, tb_set_rows = (\<lambda>rs s. s\<lparr>t_invitations := rs\<rparr>),
      tb_id = iv_id, tb_version = iv_version, tb_set_version = (\<lambda>v r. r\<lparr>iv_version := v\<rparr>),
      tb_touch = (\<lambda>now r. r\<lparr>iv_updated_at := now\<rparr>), tb_check = check_invitation\<rparr>"

lemma invitation_table_fields [simp]:
  "tb_name invitation_table = ''user_invitations''" "tb_rows invitation_table = t_invitations"
  "tb_set_rows invitation_table = (\<lambda>rs s. s\<lparr>t_invitations := rs\<rparr>)" "tb_id invitation_table = iv_id"
  "tb_version invitation_table = iv_version" "tb_set_version invitation_table = (\<lambda>v r. r\<lparr>iv_version := v\<rparr>)"
  "tb_touch invitation_table = (\<lambda>now r. r\<lparr>iv_updated_at := now\<rparr>)" "tb_check invitation_table = check_invitation"
  by (simp_all add: invitation_table_def)

interpretation invitations: versioned_store invitation_table
  by unfold_locales (auto simp: check_invitation_def fun_eq_iff)

lemma invitation_rows [simp]:
  "locked invitation_table i v = (\<lambda>r. iv_id r = i \<and> iv_version r = v)"
  "written invitation_table v f now = (\<lambda>r. (f r)\<lparr>iv_version := v + 1, iv_updated_at := now\<rparr>)"
  by (simp_all add: locked_def written_def fun_eq_iff)

section \<open>The repository\<close>

definition get_invitation_row :: "uuid \<Rightarrow> ('z invitation_db_scheme, invitation_record) eff" where
  "get_invitation_row i = get_by_id invitation_table i"

definition create_invitation_row ::
  "invitee \<Rightarrow> string \<Rightarrow> timestamp \<Rightarrow> uuid \<Rightarrow> uuid \<Rightarrow> ('z invitation_db_scheme, invitation_record) eff" where
  "create_invitation_row payload token_hash expires_at invited_by company_id =
     insert_row invitation_table (\<lambda>new_id now.
       \<lparr>iv_id = new_id, iv_email = ie_email payload, iv_full_name = ie_full_name payload, iv_role = ie_role payload,
        iv_department = ie_department payload, iv_token_hash = token_hash, iv_status = InvPending,
        iv_invited_by = Some invited_by, iv_expires_at = expires_at, iv_accepted_at = None, iv_revoked_at = None,
        iv_accepted_profile_id = None, iv_resend_count = 0, iv_version = 1, iv_created_at = now, iv_updated_at = now,
        iv_company_id = company_id\<rparr>)"

definition find_by_token_hash :: "string \<Rightarrow> ('z invitation_db_scheme, invitation_record option) eff" where
  "find_by_token_hash token_hash =
     and_then (execute ''find_by_token_hash'' ''user_invitations'' (gets (\<lambda>s.
        take 1 (filter (\<lambda>i. iv_token_hash i = token_hash) (t_invitations s)))))
       (\<lambda>rows. return (case rows of [] \<Rightarrow> None | i # _ \<Rightarrow> Some i))"

text \<open>\<open>ilike\<close> against the escaped address: equal up to case.\<close>

definition find_pending_by_email :: "string \<Rightarrow> uuid \<Rightarrow> ('z invitation_db_scheme, invitation_record option) eff" where
  "find_pending_by_email email company_id =
     and_then (execute ''find_pending_by_email'' ''user_invitations'' (gets (\<lambda>s.
        take 1 (filter (\<lambda>i. iv_company_id i = company_id \<and> iv_status i = InvPending \<and>
          lower (iv_email i) = lower email) (t_invitations s)))))
       (\<lambda>rows. return (case rows of [] \<Rightarrow> None | i # _ \<Rightarrow> Some i))"

definition list_invitation_rows ::
  "uuid \<Rightarrow> invitation_status option \<Rightarrow> string option \<Rightarrow> timestamp option \<Rightarrow> timestamp option \<Rightarrow> page \<Rightarrow>
   ('z invitation_db_scheme, invitation_record paged_result) eff" where
  "list_invitation_rows company_id status query expires_after expires_at_or_before p =
     and_then (case query of None \<Rightarrow> return () | Some q \<Rightarrow> require_query ''list_invitations'' q) (\<lambda>_.
       paginate invitation_table (\<lambda>s. order_desc iv_created_at (filter (\<lambda>i.
         iv_company_id i = company_id \<and> eq_filter iv_status status i \<and>
         (case expires_after of None \<Rightarrow> True | Some t \<Rightarrow> t < iv_expires_at i) \<and>
         (case expires_at_or_before of None \<Rightarrow> True | Some t \<Rightarrow> iv_expires_at i \<le> t) \<and>
         (case query of None \<Rightarrow> True | Some q \<Rightarrow> ilike (strip q) (iv_full_name i) \<or> ilike (strip q) (iv_email i)))
         (t_invitations s))) p)"

text \<open>The columns \<open>update_status_with_lock\<close> may set besides the status; \<open>None\<close> leaves one alone.\<close>

record invitation_changes =
  ic_token_hash :: "string option"
  ic_expires_at :: "timestamp option"
  ic_accepted_at :: "timestamp option"
  ic_revoked_at :: "timestamp option"
  ic_accepted_profile_id :: "uuid option"
  ic_resend_count :: "int option"

definition no_changes :: invitation_changes where
  "no_changes = \<lparr>ic_token_hash = None, ic_expires_at = None, ic_accepted_at = None, ic_revoked_at = None,
     ic_accepted_profile_id = None, ic_resend_count = None\<rparr>"

definition or_kept :: "'a option \<Rightarrow> 'a \<Rightarrow> 'a" where
  "or_kept new old = (case new of None \<Rightarrow> old | Some x \<Rightarrow> x)"

definition apply_changes :: "invitation_status \<Rightarrow> invitation_changes \<Rightarrow> invitation_record \<Rightarrow> invitation_record" where
  "apply_changes status c i = i\<lparr>iv_status := status,
     iv_token_hash := or_kept (ic_token_hash c) (iv_token_hash i),
     iv_expires_at := or_kept (ic_expires_at c) (iv_expires_at i),
     iv_accepted_at := (if ic_accepted_at c = None then iv_accepted_at i else ic_accepted_at c),
     iv_revoked_at := (if ic_revoked_at c = None then iv_revoked_at i else ic_revoked_at c),
     iv_accepted_profile_id := (if ic_accepted_profile_id c = None then iv_accepted_profile_id i else ic_accepted_profile_id c),
     iv_resend_count := or_kept (ic_resend_count c) (iv_resend_count i)\<rparr>"

definition update_status_with_lock ::
  "uuid \<Rightarrow> int \<Rightarrow> invitation_status \<Rightarrow> invitation_changes \<Rightarrow> ('z invitation_db_scheme, invitation_record) eff" where
  "update_status_with_lock i expected_version status c =
     update_with_optimistic_lock invitation_table i expected_version (apply_changes status c)"

section \<open>The admin API of the identity provider\<close>

definition DUPLICATE_USER_ERROR_CODES :: "string list" where
  "DUPLICATE_USER_ERROR_CODES = [''email_exists'', ''user_already_exists'', ''identity_already_exists'']"

definition DUPLICATE_USER_MESSAGE_MARKERS :: "string list" where
  "DUPLICATE_USER_MESSAGE_MARKERS = [''already been registered'', ''already registered'', ''already exists'']"

fun is_duplicate_user_error :: "exn \<Rightarrow> bool" where
  "is_duplicate_user_error (Raised (Client (APIError code message))) \<longleftrightarrow>
     code \<in> set DUPLICATE_USER_ERROR_CODES \<or>
     list_ex (\<lambda>marker. is_infix marker (lower message)) DUPLICATE_USER_MESSAGE_MARKERS"
| "is_duplicate_user_error _ \<longleftrightarrow> False"

text \<open>
  What the service is given, \<open>SupabaseAuthAdminClient\<close>: the new user's id, address, password, name, role and
  company, and the anonymization of a user. The implementation wraps the calls of the SDK, parameters here.
\<close>

record 's auth_admin =
  aa_create_user :: "uuid \<Rightarrow> string \<Rightarrow> string \<Rightarrow> string \<Rightarrow> user_role \<Rightarrow> uuid \<Rightarrow> ('s, uuid) eff"
  aa_anonymize_user :: "uuid \<Rightarrow> string \<Rightarrow> ('s, unit) eff"

definition admin_create_user ::
  "(uuid \<Rightarrow> string \<Rightarrow> string \<Rightarrow> string \<Rightarrow> user_role \<Rightarrow> uuid \<Rightarrow> ('s, uuid) eff) \<Rightarrow>
   uuid \<Rightarrow> string \<Rightarrow> string \<Rightarrow> string \<Rightarrow> user_role \<Rightarrow> uuid \<Rightarrow> ('s, uuid) eff" where
  "admin_create_user sdk user_id email password full_name role company_id =
     handle (sdk user_id email password full_name role company_id) (\<lambda>exc.
       throw (Service (if is_duplicate_user_error exc then InvitationConflictError email
                       else SupabaseAdminOperationError (last_exception exc))))"

definition admin_anonymize_user :: "(uuid \<Rightarrow> string \<Rightarrow> ('s, unit) eff) \<Rightarrow> uuid \<Rightarrow> string \<Rightarrow> ('s, unit) eff" where
  "admin_anonymize_user sdk user_id anonymized_email =
     handle (sdk user_id anonymized_email) (\<lambda>exc. throw (Service (SupabaseAdminOperationError (last_exception exc))))"

definition SupabaseAuthAdminClientImpl ::
  "(uuid \<Rightarrow> string \<Rightarrow> string \<Rightarrow> string \<Rightarrow> user_role \<Rightarrow> uuid \<Rightarrow> ('s, uuid) eff) \<Rightarrow>
   (uuid \<Rightarrow> string \<Rightarrow> ('s, unit) eff) \<Rightarrow> 's auth_admin" where
  "SupabaseAuthAdminClientImpl create_sdk update_sdk =
     \<lparr>aa_create_user = admin_create_user create_sdk, aa_anonymize_user = admin_anonymize_user update_sdk\<rparr>"

section \<open>Mail\<close>

text \<open>\<open>InvitationEmailSender\<close>: address, name, token, end of validity, whether it is a resend; the answer says
  whether the mail was sent.\<close>

type_synonym 's invitation_sender = "string \<Rightarrow> string \<Rightarrow> string \<Rightarrow> timestamp \<Rightarrow> bool \<Rightarrow> ('s, bool) eff"

definition isoformat :: "timestamp \<Rightarrow> string" where
  "isoformat t = butlast (format_iso8601 t) @ ''+00:00''"

definition queued_send_invitation ::
  "'z job_db_scheme redis_client \<Rightarrow> (uuid \<Rightarrow> string) \<Rightarrow> int \<Rightarrow> 'z job_db_scheme invitation_sender" where
  "queued_send_invitation R show_uuid default_max_attempts to_email full_name token expires_at is_resend =
     handle (and_then (enqueue R show_uuid default_max_attempts TASK_SEND_INVITATION_EMAIL ''default''
         [(''to_email'', PText to_email), (''full_name'', PText full_name), (''token'', PText token),
          (''expires_at'', PText (isoformat expires_at)), (''is_resend'', PBool is_resend)]
         PriorityNormal None None None None) (\<lambda>_. return True))
       (\<lambda>_. return False)"

section \<open>The service\<close>

definition DEFAULT_INVITATION_EXPIRY_HOURS :: rat where "DEFAULT_INVITATION_EXPIRY_HOURS = 72"

definition verify_invitation_token :: "(string \<Rightarrow> string) \<Rightarrow> string \<Rightarrow> string \<Rightarrow> bool" where
  "verify_invitation_token hash token token_hash \<longleftrightarrow> hash token = token_hash"

record 's invitation_config =
  iv_admin :: "'s auth_admin"
  iv_sender :: "'s invitation_sender option"
  iv_expiry_hours :: rat
  iv_hash :: "string \<Rightarrow> string"
  iv_sleep :: "rat \<Rightarrow> ('s, unit) eff"

definition compute_effective_status :: "invitation_status \<Rightarrow> timestamp \<Rightarrow> timestamp \<Rightarrow> effective_invitation_status" where
  "compute_effective_status status expires_at now =
     (case status of InvAccepted \<Rightarrow> EffAccepted | InvRevoked \<Rightarrow> EffRevoked
      | InvPending \<Rightarrow> if is_past expires_at now then EffExpired else EffPending)"

definition map_invitation_record_to_domain :: "timestamp \<Rightarrow> invitation_record \<Rightarrow> invitation fallible" where
  "map_invitation_record_to_domain now r = Invitation
     \<lparr>ie_email = iv_email r, ie_full_name = iv_full_name r, ie_role = iv_role r, ie_department = iv_department r,
      in_id = iv_id r, in_effective_status = compute_effective_status (iv_status r) (iv_expires_at r) now,
      in_invited_by = iv_invited_by r, in_expires_at = iv_expires_at r, in_accepted_at = iv_accepted_at r,
      in_revoked_at = iv_revoked_at r, in_accepted_profile_id = iv_accepted_profile_id r,
      in_resend_count = iv_resend_count r, in_version = iv_version r, in_created_at = iv_created_at r,
      in_updated_at = iv_updated_at r\<rparr>"

definition as_invitation :: "invitation_record \<Rightarrow> ('z invitation_db_scheme, invitation) eff" where
  "as_invitation r = and_then (gets clock) (\<lambda>now. pure (map_invitation_record_to_domain now r))"

definition authorize_admin :: "identity \<Rightarrow> ('s, unit) eff" where
  "authorize_admin ident = auth_call (require_role (id_role ident) [Admin])"

definition get_record_or_raise :: "identity \<Rightarrow> uuid \<Rightarrow> ('z invitation_db_scheme, invitation_record) eff" where
  "get_record_or_raise ident i =
     and_then (db_call (get_invitation_row i)) (\<lambda>record.
       if iv_company_id record \<noteq> id_company_id ident then throw (Service (NotFoundError ''invitation'' (ById i)))
       else return record)"

definition require_pending :: "invitation_record \<Rightarrow> string \<Rightarrow> ('s, unit) eff" where
  "require_pending record attempted_action = guard_that (iv_status record = InvPending)
     (Service (InvalidInvitationStateError (iv_id record) (invitation_status_value (iv_status record)) attempted_action))"

definition find_by_token_or_raise :: "(string \<Rightarrow> string) \<Rightarrow> string \<Rightarrow> ('z invitation_db_scheme, invitation_record) eff" where
  "find_by_token_or_raise hash token =
     and_then (db_call (find_by_token_hash (hash token))) (\<lambda>record. case record of
        None \<Rightarrow> throw (Service (NotFoundError ''invitation'' (ByName ''<redacted-token>'')))
      | Some r \<Rightarrow> return r)"

definition require_acceptable :: "invitation_record \<Rightarrow> ('z invitation_db_scheme, unit) eff" where
  "require_acceptable record =
     and_then (guard_that (iv_status record = InvPending)
        (Service (InvalidInvitationStateError (iv_id record) (invitation_status_value (iv_status record)) ''accept''))) (\<lambda>_.
     and_then (gets clock) (\<lambda>now.
       guard_that (\<not> is_past (iv_expires_at record) now)
         (Service (InvalidInvitationStateError (iv_id record) ''expired'' ''accept''))))"

definition ProfileNotYetProvisionedError :: exn where
  "ProfileNotYetProvisionedError = Raised (Message ''_ProfileNotYetProvisionedError'')"

definition PROFILE_PROPAGATION_RETRY_POLICY :: retry_policy where
  "PROFILE_PROPAGATION_RETRY_POLICY =
     \<lparr>rp_max_attempts = 5, rp_base_delay = 1 / 20, rp_multiplier = 3 / 2, rp_max_delay = 1 / 2, rp_jitter = False,
      rp_retryable = (\<lambda>e. e = ProfileNotYetProvisionedError)\<rparr>"

definition check_profile_provisioned :: "uuid \<Rightarrow> ('z db_scheme, unit) eff" where
  "check_profile_provisioned profile_id =
     and_then (find_profile_row profile_id) (\<lambda>p. guard_that (p \<noteq> None) ProfileNotYetProvisionedError)"

definition wait_for_profile :: "(rat \<Rightarrow> ('z db_scheme, unit) eff) \<Rightarrow> uuid \<Rightarrow> ('z db_scheme, unit) eff" where
  "wait_for_profile sleep profile_id =
     handle (retry_call PROFILE_PROPAGATION_RETRY_POLICY sleep (\<lambda>_. 0) (check_profile_provisioned profile_id))
       (\<lambda>e. case e of
          Raised (RetryExhausted n r) \<Rightarrow> throw (Service (SupabaseAdminOperationError (RetryExhausted n r)))
        | _ \<Rightarrow> throw e)"

definition record_invitation_event :: "audit_action \<Rightarrow> uuid \<Rightarrow> invitation_record \<Rightarrow> ('z db_scheme, unit) eff" where
  "record_invitation_event action actor_id record =
     and_then (db_call (record_event (audit_action_value action) (Some actor_id) None
        (Some [(''invitation_id'', MetaId (iv_id record)), (''email'', MetaText (iv_email record))]) None))
       (\<lambda>_. return ())"

text \<open>Whatever the sender answers or raises, the caller goes on.\<close>

definition dispatch_invitation_email :: "'s invitation_sender option \<Rightarrow> invitation_record \<Rightarrow> string \<Rightarrow> bool \<Rightarrow> ('s, unit) eff" where
  "dispatch_invitation_email sender record raw_token is_resend =
     (case sender of
        None \<Rightarrow> return ()
      | Some send \<Rightarrow> handle (and_then (send (iv_email record) (iv_full_name record) raw_token (iv_expires_at record) is_resend)
          (\<lambda>_. return ())) (\<lambda>_. return ()))"

definition create_invitation ::
  "'z invitation_db_scheme invitation_config \<Rightarrow> identity \<Rightarrow> invitee \<Rightarrow> uuid option \<Rightarrow> string \<Rightarrow>
   ('z invitation_db_scheme, invitation) eff" where
  "create_invitation cfg ident raw company_id raw_token =
     (let target_company_id = or_kept company_id (id_company_id ident) in
      and_then (if target_company_id \<noteq> id_company_id ident
                then guard_that (id_is_platform_admin ident)
                       (Service (PermissionDeniedError (Message ''may not invite into a company other than its own'')))
                else authorize_admin ident) (\<lambda>_.
      and_then (model_call (InvitationCreate raw)) (\<lambda>payload.
      and_then (find_pending_by_email (ie_email payload) target_company_id) (\<lambda>pending.
      and_then (guard_that (pending = None) (Service (InvitationConflictError (ie_email payload)))) (\<lambda>_.
      and_then (gets clock) (\<lambda>now.
      and_then (db_call (create_invitation_row payload (iv_hash cfg raw_token) (add_hours now (iv_expiry_hours cfg))
                  (id_user_id ident) target_company_id)) (\<lambda>created.
      and_then (record_invitation_event INVITATION_CREATED (id_user_id ident) created) (\<lambda>_.
      and_then (dispatch_invitation_email (iv_sender cfg) created raw_token False) (\<lambda>_.
        as_invitation created)))))))))"

definition list_invitations ::
  "identity \<Rightarrow> effective_invitation_status option \<Rightarrow> string option \<Rightarrow> page \<Rightarrow>
   ('z invitation_db_scheme, invitation paged_result) eff" where
  "list_invitations ident status query p =
     and_then (authorize_admin ident) (\<lambda>_.
     and_then (gets clock) (\<lambda>reference_now.
     and_then (db_call (case status of
          None \<Rightarrow> list_invitation_rows (id_company_id ident) None query None None p
        | Some EffPending \<Rightarrow> list_invitation_rows (id_company_id ident) (Some InvPending) query (Some reference_now) None p
        | Some EffExpired \<Rightarrow> list_invitation_rows (id_company_id ident) (Some InvPending) query None (Some reference_now) p
        | Some EffAccepted \<Rightarrow> list_invitation_rows (id_company_id ident) (Some InvAccepted) query None None p
        | Some EffRevoked \<Rightarrow> list_invitation_rows (id_company_id ident) (Some InvRevoked) query None None p)) (\<lambda>result.
     and_then (pure (map_result (map_invitation_record_to_domain reference_now) (res_items result))) (\<lambda>items.
       return \<lparr>res_items = items, res_page = res_page result, res_page_size = res_page_size result,
               res_total_records = res_total_records result\<rparr>))))"

definition get_invitation :: "identity \<Rightarrow> uuid \<Rightarrow> ('z invitation_db_scheme, invitation) eff" where
  "get_invitation ident i =
     and_then (authorize_admin ident) (\<lambda>_. and_then (get_record_or_raise ident i) as_invitation)"

definition resend_invitation ::
  "'z invitation_db_scheme invitation_config \<Rightarrow> identity \<Rightarrow> uuid \<Rightarrow> string \<Rightarrow> ('z invitation_db_scheme, invitation) eff" where
  "resend_invitation cfg ident i raw_token =
     and_then (authorize_admin ident) (\<lambda>_.
     and_then (get_record_or_raise ident i) (\<lambda>existing.
     and_then (require_pending existing ''resend'') (\<lambda>_.
     and_then (gets clock) (\<lambda>now.
     and_then (db_call (update_status_with_lock i (iv_version existing) InvPending
        (no_changes\<lparr>ic_token_hash := Some (iv_hash cfg raw_token), ic_expires_at := Some (add_hours now (iv_expiry_hours cfg)),
           ic_resend_count := Some (iv_resend_count existing + 1)\<rparr>))) (\<lambda>updated.
     and_then (record_invitation_event INVITATION_RESENT (id_user_id ident) updated) (\<lambda>_.
     and_then (dispatch_invitation_email (iv_sender cfg) updated raw_token True) (\<lambda>_.
       as_invitation updated)))))))"

definition revoke_invitation :: "identity \<Rightarrow> uuid \<Rightarrow> ('z invitation_db_scheme, invitation) eff" where
  "revoke_invitation ident i =
     and_then (authorize_admin ident) (\<lambda>_.
     and_then (get_record_or_raise ident i) (\<lambda>existing.
     and_then (require_pending existing ''revoke'') (\<lambda>_.
     and_then (gets clock) (\<lambda>now.
     and_then (db_call (update_status_with_lock i (iv_version existing) InvRevoked
        (no_changes\<lparr>ic_revoked_at := Some now\<rparr>))) (\<lambda>updated.
     and_then (record_invitation_event INVITATION_REVOKED (id_user_id ident) updated) (\<lambda>_.
       as_invitation updated))))))"

definition validate_invitation_token :: "(string \<Rightarrow> string) \<Rightarrow> string \<Rightarrow> ('z invitation_db_scheme, invitation) eff" where
  "validate_invitation_token hash token =
     and_then (find_by_token_or_raise hash token) (\<lambda>record.
     and_then (require_acceptable record) (\<lambda>_. as_invitation record))"

text \<open>\<open>except InvitationConflictError\<close>: the id the user was to get is taken for the id it has.\<close>

definition create_or_recover_user ::
  "'s auth_admin \<Rightarrow> invitation_record \<Rightarrow> string \<Rightarrow> ('s, uuid) eff" where
  "create_or_recover_user A record password =
     handle (aa_create_user A (iv_id record) (iv_email record) password (iv_full_name record) (iv_role record)
         (iv_company_id record))
       (\<lambda>e. case e of Service (InvitationConflictError _) \<Rightarrow> return (iv_id record) | _ \<Rightarrow> throw e)"

definition accept_invitation ::
  "'z invitation_db_scheme invitation_config \<Rightarrow> string \<Rightarrow> string \<Rightarrow> ('z invitation_db_scheme, invitation) eff" where
  "accept_invitation cfg token password =
     and_then (find_by_token_or_raise (iv_hash cfg) token) (\<lambda>record.
     and_then (require_acceptable record) (\<lambda>_.
     and_then (create_or_recover_user (iv_admin cfg) record password) (\<lambda>created_profile_id.
     and_then (wait_for_profile (iv_sleep cfg) created_profile_id) (\<lambda>_.
     and_then (gets clock) (\<lambda>now.
     and_then (db_call (update_status_with_lock (iv_id record) (iv_version record) InvAccepted
        (no_changes\<lparr>ic_accepted_at := Some now, ic_accepted_profile_id := Some created_profile_id\<rparr>))) (\<lambda>updated.
     and_then (record_invitation_event INVITATION_ACCEPTED created_profile_id updated) (\<lambda>_.
       as_invitation updated)))))))"

end
