(* ===== verification/InvitationRuns.thy ===== *)
theory InvitationRuns imports Invitations Quiet Operations JobHandlers
begin

text \<open>
  What the invitation service guarantees: the life cycle of an invitation under any sequence of calls on any
  network, the effect of an acceptance, what a lost race leaves, the retirement of a token by a resend, and
  the pages of a listing.
\<close>

section \<open>The life cycle\<close>

text \<open>
  The abstract life cycle of one invitation: it stays as it is, or, while it is pending, it is replaced by a
  later version of itself for the same person, role and company.
\<close>

definition invitation_next :: "invitation_record \<Rightarrow> invitation_record \<Rightarrow> bool" where
  "invitation_next r r' \<longleftrightarrow> r' = r \<or>
     iv_status r = InvPending \<and> iv_version r < iv_version r' \<and> iv_id r' = iv_id r \<and> iv_email r' = iv_email r \<and>
     iv_full_name r' = iv_full_name r \<and> iv_role r' = iv_role r \<and> iv_company_id r' = iv_company_id r \<and>
     iv_department r' = iv_department r \<and> iv_invited_by r' = iv_invited_by r \<and> iv_created_at r' = iv_created_at r"

lemma invitation_next_refl [simp]: "invitation_next r r"
  by (simp add: invitation_next_def)

lemma invitation_next_trans: "invitation_next a b \<Longrightarrow> invitation_next b c \<Longrightarrow> invitation_next a c"
  by (auto simp: invitation_next_def)

lemma invitation_next_id: "invitation_next r r' \<Longrightarrow> iv_id r' = iv_id r"
  by (auto simp: invitation_next_def)

definition invitation_ids :: "'z invitation_db_scheme \<Rightarrow> bool" where
  "invitation_ids s \<longleftrightarrow> distinct (map iv_id (t_invitations s)) \<and> (\<forall>r \<in> set (t_invitations s). iv_id r < next_uuid s)"

definition carries :: "invitation_record set \<Rightarrow> 'z invitation_db_scheme \<Rightarrow> bool" where
  "carries R s \<longleftrightarrow> invitation_ids s \<and> (\<forall>r \<in> R. \<exists>r' \<in> set (t_invitations s). invitation_next r r')"

definition orderly :: "('z invitation_db_scheme, 'a) eff \<Rightarrow> bool" where
  "orderly m \<longleftrightarrow> (\<forall>R. preserves (carries R) m)"

lemma carries_weaken: "carries (insert r R) s \<Longrightarrow> carries R s"
  by (simp add: carries_def)

lemma carries_row: "carries R s \<Longrightarrow> r \<in> set (t_invitations s) \<Longrightarrow> carries (insert r R) s"
  by (auto simp: carries_def intro: bexI [of _ r])

lemma net_stable_carries: "net_stable (carries R)"
  by (simp add: net_stable_def carries_def invitation_ids_def)

lemma orderly_read_only:
  fixes m :: "('z invitation_db_scheme, 'a) eff"
  assumes m: "read_only m"
  shows "preserves (carries R) m"
proof (rule preservesI)
  fix s :: "'z invitation_db_scheme"
  assume s: "carries R s"
  from read_onlyD [OF m, of s "fst (m s)" "snd (m s)"] have "same_data s (snd (m s))" by simp
  with s show "carries R (snd (m s))" by (auto simp: same_data_def carries_def invitation_ids_def)
qed

lemma carries_upd [simp]: "carries R (s\<lparr>t_audit := a, next_uuid := u\<rparr>) \<longleftrightarrow> carries R (s\<lparr>next_uuid := u\<rparr>)"
  by (simp add: carries_def invitation_ids_def)

lemma carries_later: "carries R s \<Longrightarrow> carries R (s\<lparr>next_uuid := Suc (next_uuid s)\<rparr>)"
  by (auto simp: carries_def invitation_ids_def less_Suc_eq)

lemma carries_insert: "preserves (carries R) (insert_stmt invitation_table mk)"
  if "\<And>i now. iv_id (mk i now) = i"
proof (rule preservesI)
  fix s assume s: "carries R s"
  show "carries R (snd (insert_stmt invitation_table mk s))"
    using s by (auto simp: insert_stmt_def Let_def carries_def invitation_ids_def that less_Suc_eq split: option.splits)
qed

lemma carries_audit: "preserves (carries R) (record_event act au ar am ac)"
  unfolding record_event_def
proof (rule preserves_insert_row [OF net_stable_carries])
  show "preserves (carries R) (insert_stmt audit_table mk)" for mk
    by (rule preservesI) (auto simp: insert_stmt_def Let_def carries_later split: option.splits)
qed

text \<open>The locked update of a pending row that is carried: nothing else can have that id and version.\<close>

lemma carries_update_stmt:
  assumes "r \<in> R" "iv_status r = InvPending"
  shows "preserves (carries R) (update_stmt invitation_table (\<lambda>x. iv_id x = iv_id r \<and> iv_version x = iv_version r)
    (\<lambda>x. (apply_changes status c x)\<lparr>iv_version := iv_version r + 1\<rparr>))"
proof (rule preservesI)
  fix s assume s: "carries R s"
  define p where "p = (\<lambda>x :: invitation_record. iv_id x = iv_id r \<and> iv_version x = iv_version r)"
  define f where "f = (\<lambda>x. (apply_changes status c x)\<lparr>iv_version := iv_version r + 1\<rparr>)"
  define g where "g = (\<lambda>x. if p x then (f x)\<lparr>iv_updated_at := clock s\<rparr> else x)"
  have grown: "invitation_next x (g x)" if x: "x \<in> set (t_invitations s)" for x
  proof (cases "p x")
    case True
    obtain r' where r': "r' \<in> set (t_invitations s)" "invitation_next r r'" using s assms(1) by (auto simp: carries_def)
    have "x = r'" using s x r' True invitation_next_id [OF r'(2)]
      by (auto simp: carries_def invitation_ids_def distinct_map inj_on_def p_def)
    with r'(2) True have "x = r" by (auto simp: invitation_next_def p_def)
    with assms(2) True show ?thesis by (auto simp: invitation_next_def apply_changes_def g_def f_def p_def)
  qed (simp add: g_def)
  have id: "iv_id (g x) = iv_id x" for x by (simp add: g_def f_def apply_changes_def)
  let ?s = "s\<lparr>t_invitations := map g (t_invitations s)\<rparr>"
  have "invitation_ids ?s"
    using s by (simp add: carries_def invitation_ids_def id comp_def)
  moreover have "\<exists>q'\<in>set (t_invitations ?s). invitation_next q q'" if q: "q \<in> R" for q
  proof -
    from s q obtain x where x: "x \<in> set (t_invitations s)" "invitation_next q x" by (auto simp: carries_def)
    from invitation_next_trans [OF x(2) grown [OF x(1)]] x(1) show ?thesis by auto
  qed
  ultimately have "carries R ?s" unfolding carries_def by blast
  moreover have "snd (update_stmt invitation_table p f s) = s \<or> snd (update_stmt invitation_table p f s) = ?s"
    by (simp add: update_stmt_def Let_def g_def split: option.splits)
  ultimately have "carries R (snd (update_stmt invitation_table p f s))" using s by auto
  then show "carries R (snd (update_stmt invitation_table (\<lambda>x. iv_id x = iv_id r \<and> iv_version x = iv_version r)
      (\<lambda>x. (apply_changes status c x)\<lparr>iv_version := iv_version r + 1\<rparr>) s))"
    by (simp only: p_def f_def)
qed

lemma carries_update:
  assumes "r \<in> R" "iv_status r = InvPending" "i = iv_id r"
  shows "preserves (carries R) (update_status_with_lock i (iv_version r) status c)"
  unfolding update_status_with_lock_def assms(3)
  by (rule preserves_update_with_optimistic_lock [OF net_stable_carries])
     (use carries_update_stmt [OF assms(1,2)] in simp)

section \<open>The calls\<close>

definition returns_row :: "('z invitation_db_scheme, invitation_record) eff \<Rightarrow> bool" where
  "returns_row m \<longleftrightarrow> read_only m \<and> (\<forall>s r t. m s = (Inr r, t) \<longrightarrow> r \<in> set (t_invitations t))"

lemma carries_with_row:
  fixes m :: "('z invitation_db_scheme, invitation_record) eff"
  assumes "returns_row m" "\<And>s r t. m s = (Inr r, t) \<Longrightarrow> preserves (carries (insert r R)) (f r)"
  shows "preserves (carries R) (and_then m f)"
proof (rule preservesI)
  fix s :: "'z invitation_db_scheme" assume s: "carries R s"
  have t: "carries R (snd (m s))"
    using assms(1) s by (auto simp: returns_row_def intro: preservesD [OF orderly_read_only])
  show "carries R (snd (and_then m f s))"
  proof (cases "m s")
    case (Pair r t)
    show ?thesis
    proof (cases r)
      case (Inl e)
      with t Pair show ?thesis by (simp add: and_then_def)
    next
      case (Inr x)
      with assms(1) Pair have "x \<in> set (t_invitations t)" by (auto simp: returns_row_def)
      with t Pair have "carries (insert x R) t" by (simp add: carries_row)
      from preservesD [OF assms(2) [OF Pair [unfolded Inr]] this] Pair Inr show ?thesis by (simp add: and_then_def carries_weaken)
    qed
  qed
qed

lemma returns_row_get: "returns_row (get_record_or_raise ident i)"
  unfolding returns_row_def
proof (intro conjI allI impI)
  show "read_only (get_record_or_raise ident i)"
    unfolding get_record_or_raise_def get_invitation_row_def by (intro reading)
  fix s t r assume "get_record_or_raise ident i s = (Inr r, t)"
  then have "get_by_id invitation_table i s = (Inr r, t)"
    by (auto simp: get_record_or_raise_def get_invitation_row_def and_then_eq_Inr call_defs catching_eq_Inr eff_simps
        split: if_splits)
  from invitations.get_by_id_Inr [OF this] show "r \<in> set (t_invitations t)" by auto
qed

lemma returns_row_find: "returns_row (find_by_token_or_raise hash token)"
  unfolding returns_row_def
proof (intro conjI allI impI)
  show "read_only (find_by_token_or_raise hash token)"
    unfolding find_by_token_or_raise_def find_by_token_hash_def by (intro reading)
  fix s t :: "'z invitation_db_scheme" and r assume run: "find_by_token_or_raise hash token s = (Inr r, t)"
  let ?q = "\<lambda>s. take 1 (filter (\<lambda>i. iv_token_hash i = hash token) (t_invitations s))"
  from run obtain rows where rows: "execute ''find_by_token_hash'' ''user_invitations'' (gets ?q) s = (Inr rows, t)"
    and found: "(case rows of [] \<Rightarrow> None | i # _ \<Rightarrow> Some i) = Some r"
    by (auto simp: find_by_token_or_raise_def find_by_token_hash_def and_then_eq_Inr call_defs catching_eq_Inr eff_simps
        split: option.splits)
  from found have r: "r \<in> set rows" by (simp split: list.splits)
  have "rows = ?q s" "\<exists>ds. t = s\<lparr>net := ds\<rparr>" using execute_read [OF _ rows] by simp_all
  with r have "r \<in> set (?q s)" "\<exists>ds. t = s\<lparr>net := ds\<rparr>" by simp_all
  then show "r \<in> set (t_invitations t)" using in_set_takeD by fastforce
qed

lemma read_only_find_pending: "read_only (find_pending_by_email email company)"
  unfolding find_pending_by_email_def by (intro reading)

lemma read_only_list: "read_only (list_invitations ident status query p)"
  unfolding list_invitations_def list_invitation_rows_def authorize_admin_def require_query_def
  by (auto intro!: reading split: option.splits effective_invitation_status.splits)

lemma read_only_invitation: "read_only (as_invitation r)" "read_only (authorize_admin ident)"
  "read_only (require_pending r act)" "read_only (require_acceptable r)" "read_only (check_profile_provisioned i)"
  unfolding as_invitation_def authorize_admin_def require_pending_def require_acceptable_def
    check_profile_provisioned_def find_profile_row_def
  by (intro reading)+

lemmas orderly_reads = read_only_invitation [THEN orderly_read_only] read_only_find_pending [THEN orderly_read_only]

text \<open>What the parameters may do: anything that keeps to the life cycle.\<close>

definition orderly_config :: "'z invitation_db_scheme invitation_config \<Rightarrow> bool" where
  "orderly_config cfg \<longleftrightarrow> (\<forall>d. orderly (iv_sleep cfg d)) \<and>
     (\<forall>i email password name role company. orderly (aa_create_user (iv_admin cfg) i email password name role company)) \<and>
     (\<forall>send. iv_sender cfg = Some send \<longrightarrow> (\<forall>email name token e re. orderly (send email name token e re)))"

lemma carries_wait:
  assumes "\<And>d. preserves (carries R) (sleep d)"
  shows "preserves (carries R) (wait_for_profile sleep i)"
proof -
  have loop: "preserves (carries R) (retry_loop p sleep fr (check_profile_provisioned i) n left)" for p fr n left
    by (induction left arbitrary: n) (auto intro!: pres_flow assms orderly_reads)
  show ?thesis
    unfolding wait_for_profile_def retry_call_def
    by (auto intro!: pres_flow loop split: exn.splits raised.splits)
qed

lemma carries_parts:
  assumes "orderly_config cfg"
  shows "preserves (carries R) (dispatch_invitation_email (iv_sender cfg) r token re)"
    "preserves (carries R) (create_or_recover_user (iv_admin cfg) r password)"
    "preserves (carries R) (wait_for_profile (iv_sleep cfg) i)"
    "preserves (carries R) (record_invitation_event act u r)"
  using assms
  by (auto simp: dispatch_invitation_email_def create_or_recover_user_def record_invitation_event_def orderly_config_def
      orderly_def call_defs intro!: pres_flow carries_wait carries_audit split: option.splits exn.splits service_error.splits)

datatype invitation_call =
    CreateInvitation identity invitee "uuid option" string
  | ListInvitations identity "effective_invitation_status option" "string option" page
  | GetInvitation identity uuid
  | ResendInvitation identity uuid string
  | RevokeInvitation identity uuid
  | ValidateInvitationToken string
  | AcceptInvitation string string

fun call_invitations :: "'z invitation_db_scheme invitation_config \<Rightarrow> invitation_call \<Rightarrow> ('z invitation_db_scheme, unit) eff" where
  "call_invitations cfg (CreateInvitation ident raw company token) = and_then (create_invitation cfg ident raw company token) (\<lambda>_. return ())"
| "call_invitations cfg (ListInvitations ident status query p) = and_then (list_invitations ident status query p) (\<lambda>_. return ())"
| "call_invitations cfg (GetInvitation ident i) = and_then (get_invitation ident i) (\<lambda>_. return ())"
| "call_invitations cfg (ResendInvitation ident i token) = and_then (resend_invitation cfg ident i token) (\<lambda>_. return ())"
| "call_invitations cfg (RevokeInvitation ident i) = and_then (revoke_invitation ident i) (\<lambda>_. return ())"
| "call_invitations cfg (ValidateInvitationToken token) = and_then (validate_invitation_token (iv_hash cfg) token) (\<lambda>_. return ())"
| "call_invitations cfg (AcceptInvitation token password) = and_then (accept_invitation cfg token password) (\<lambda>_. return ())"

definition run_invitation_calls ::
  "'z invitation_db_scheme invitation_config \<Rightarrow> invitation_call list \<Rightarrow> 'z invitation_db_scheme \<Rightarrow> 'z invitation_db_scheme" where
  "run_invitation_calls cfg calls s = fold (\<lambda>c s. snd (call_invitations cfg c s)) calls s"

lemma carries_create_row: "preserves (carries R) (create_invitation_row payload h e by company)"
  unfolding create_invitation_row_def
  by (intro preserves_insert_row net_stable_carries carries_insert) simp

text \<open>After a check, the row is known to be pending.\<close>

lemma preserves_pending:
  assumes "iv_status r = InvPending \<Longrightarrow> preserves P (f ())"
  shows "preserves P (and_then (require_pending r act) f)" "preserves P (and_then (require_acceptable r) f)"
  using assms
  by (auto simp: preserves_def and_then_def require_pending_def require_acceptable_def eff_simps
      split: prod.splits sum.splits)

lemma get_record_id: "get_record_or_raise ident i s = (Inr r, t) \<Longrightarrow> iv_id r = i"
proof -
  assume "get_record_or_raise ident i s = (Inr r, t)"
  then have "get_by_id invitation_table i s = (Inr r, t)"
    by (auto simp: get_record_or_raise_def get_invitation_row_def and_then_eq_Inr call_defs catching_eq_Inr eff_simps
        split: if_splits)
  from invitations.get_by_id_Inr [OF this] show ?thesis by auto
qed

lemma carries_calls:
  assumes "orderly_config cfg"
  shows "preserves (carries R) (create_invitation cfg ident raw company token)"
    "preserves (carries R) (list_invitations ident status query p)"
    "preserves (carries R) (get_invitation ident i)"
    "preserves (carries R) (resend_invitation cfg ident i token)"
    "preserves (carries R) (revoke_invitation ident i)"
    "preserves (carries R) (validate_invitation_token (iv_hash cfg) token)"
    "preserves (carries R) (accept_invitation cfg token password)"
proof -
  note parts = carries_parts [OF assms]
  show "preserves (carries R) (create_invitation cfg ident raw company token)"
    unfolding create_invitation_def Let_def
    by (auto intro!: pres_flow orderly_reads parts carries_create_row simp: call_defs)
  show "preserves (carries R) (list_invitations ident status query p)"
    by (rule orderly_read_only [OF read_only_list])
  show "preserves (carries R) (get_invitation ident i)"
    unfolding get_invitation_def
    by (rule preserves_and_then [OF orderly_reads(2)], rule carries_with_row [OF returns_row_get], rule orderly_reads(1))
  show "preserves (carries R) (validate_invitation_token (iv_hash cfg) token)"
    unfolding validate_invitation_token_def
    by (rule carries_with_row [OF returns_row_find]) (intro pres_flow orderly_reads)
  have change: "preserves (carries (insert r R)) (and_then (db_call (update_status_with_lock i (iv_version r) status c)) g)"
    if "iv_status r = InvPending" "i = iv_id r" "\<And>u. preserves (carries (insert r R)) (g u)" for r i status c and g :: "_ \<Rightarrow> (_, invitation) eff"
    unfolding call_defs using that by (intro pres_flow carries_update) auto
  show "preserves (carries R) (resend_invitation cfg ident i token)"
    unfolding resend_invitation_def
    by (rule preserves_and_then [OF orderly_reads(2)], rule carries_with_row [OF returns_row_get],
        rule preserves_pending, rule preserves_and_then [OF preserves_gets], rule change)
       (auto dest: get_record_id intro!: pres_flow orderly_reads parts)
  show "preserves (carries R) (revoke_invitation ident i)"
    unfolding revoke_invitation_def
    by (rule preserves_and_then [OF orderly_reads(2)], rule carries_with_row [OF returns_row_get],
        rule preserves_pending, rule preserves_and_then [OF preserves_gets], rule change)
       (auto dest: get_record_id intro!: pres_flow orderly_reads parts)
  show "preserves (carries R) (accept_invitation cfg token password)"
    unfolding accept_invitation_def
    by (rule carries_with_row [OF returns_row_find], rule preserves_pending, rule preserves_and_then [OF parts(2)],
        rule preserves_and_then [OF parts(3)], rule preserves_and_then [OF preserves_gets], rule change)
       (auto intro!: pres_flow orderly_reads parts)
qed

text \<open>
  C26. The life cycle of an invitation, over any sequence of calls of the service and any network, when the
  mail sender, the admin API and the time that passes while waiting do nothing to invitations that the life
  cycle does not allow (another instance of the service included): an invitation is never lost, an accepted
  or revoked one never changes again, and the address, name, role and company never do.
\<close>

theorem invitation_life_cycle:
  assumes "orderly_config cfg" "invitation_ids s" "r \<in> set (t_invitations s)"
  shows "\<exists>r' \<in> set (t_invitations (run_invitation_calls cfg calls s)). invitation_next r r'"
proof -
  have call: "preserves (carries {r}) (call_invitations cfg c)" for c
    by (cases c) (auto intro!: preserves_and_then preserves_return carries_calls [OF assms(1)])
  have "carries {r} (run_invitation_calls cfg calls u)" if "carries {r} u" for u
    using that
  proof (induction calls arbitrary: u)
    case (Cons c cs)
    from Cons.IH [OF preservesD [OF call Cons.prems]] show ?case by (simp add: run_invitation_calls_def)
  qed (simp add: run_invitation_calls_def)
  moreover have "carries {r} s" using assms(2,3) by (auto simp: carries_def intro: bexI [of _ r])
  ultimately show ?thesis by (auto simp: carries_def)
qed

section \<open>A company with invitations\<close>

definition sample_invitation :: "uuid \<Rightarrow> string \<Rightarrow> string \<Rightarrow> invitation_status \<Rightarrow> invitation_record" where
  "sample_invitation i email token_hash status =
     \<lparr>iv_id = i, iv_email = email, iv_full_name = ''Di'', iv_role = Employee, iv_department = Some ''Finance'',
      iv_token_hash = token_hash, iv_status = status, iv_invited_by = Some 1, iv_expires_at = 50, iv_accepted_at = None,
      iv_revoked_at = None, iv_accepted_profile_id = None, iv_resend_count = 0, iv_version = 1, iv_created_at = 0,
      iv_updated_at = 0, iv_company_id = 7\<rparr>"

definition invitations_of :: "invitation_record list \<Rightarrow> invitation_db" where
  "invitations_of rows = \<lparr>t_profiles = t_profiles (sample_db []), t_definitions = [], t_requests = [], t_stages = [],
     t_audit = [], t_notifications = [], t_preferences = [], next_uuid = 1000, clock = 5, net = [], t_jobs = [],
     t_invitations = rows\<rparr>"

text \<open>The provider with its trigger: a user that is new gets a profile.\<close>

definition provision :: "uuid \<Rightarrow> string \<Rightarrow> user_role \<Rightarrow> uuid \<Rightarrow> 'z db_scheme \<Rightarrow> 'z db_scheme" where
  "provision i name role company s = s\<lparr>t_profiles := t_profiles s @ [(sample_person i name role)\<lparr>pr_department := None,
     pr_company_id := company\<rparr>]\<rparr>"

definition sample_admin_api :: "'z db_scheme auth_admin" where
  "sample_admin_api =
     \<lparr>aa_create_user = (\<lambda>i email password name role company s.
        if profile_exists s i then (Inl (Service (InvitationConflictError email)), s)
        else (Inr i, provision i name role company s)),
      aa_anonymize_user = (\<lambda>_ _. return ())\<rparr>"

definition sample_invitation_config :: "'z invitation_db_scheme invitation_config" where
  "sample_invitation_config =
     \<lparr>iv_admin = sample_admin_api, iv_sender = None, iv_expiry_hours = 72, iv_hash = (\<lambda>token. CHR ''#'' # token),
      iv_sleep = (\<lambda>_. return ())\<rparr>"

definition inviting_admin :: identity where "inviting_admin = identity_of 1 Admin 7"

lemmas invitation_sample_defs = sample_invitation_def invitations_of_def provision_def sample_admin_api_def
  sample_invitation_config_def inviting_admin_def

lemma carries_provision [simp]: "carries R (provision i name role company s) = carries R s"
  by (simp add: carries_def invitation_ids_def provision_def)

lemma sample_orderly: "orderly_config sample_invitation_config"
  by (auto simp: orderly_config_def orderly_def preserves_def sample_invitation_config_def sample_admin_api_def eff_simps)

lemma sample_invitation_ids: "invitation_ids (invitations_of [sample_invitation 40 ''di@eah.io'' ''#t'' InvRevoked])"
  by (simp add: invitation_ids_def invitation_sample_defs)

theorem invitation_life_cycle_witness:
  "\<exists>r' \<in> set (t_invitations (run_invitation_calls sample_invitation_config
      [AcceptInvitation ''t'' ''pw'', ResendInvitation inviting_admin 40 ''u'']
      (invitations_of [sample_invitation 40 ''di@eah.io'' ''#t'' InvRevoked]))).
     invitation_next (sample_invitation 40 ''di@eah.io'' ''#t'' InvRevoked) r'"
  by (rule invitation_life_cycle [OF sample_orderly sample_invitation_ids]) (simp add: invitations_of_def)

section \<open>On a quiet network\<close>

lemma case_take_filter: "(case take 1 (filter P xs) of [] \<Rightarrow> None | i # _ \<Rightarrow> Some i) = List.find P xs"
  by (induction xs) auto

lemma find_by_token_quiet:
  "quiet s \<Longrightarrow> find_by_token_or_raise hash token s =
     (case List.find (\<lambda>i. iv_token_hash i = hash token) (t_invitations s) of
        None \<Rightarrow> (Inl (Service (NotFoundError ''invitation'' (ByName ''<redacted-token>''))), s)
      | Some r \<Rightarrow> (Inr r, s))"
  by (simp add: find_by_token_or_raise_def find_by_token_hash_def and_then_def call_defs catching_apply
      execute_gets_reliable quiet_def eff_simps case_take_filter [simplified] split: option.splits)

lemma authorize_admin_quiet: "authorize_admin ident s = (case require_role (id_role ident) [Admin] of
    Inl e \<Rightarrow> (Inl (translate_auth_error e), s) | Inr _ \<Rightarrow> (Inr (), s))"
  by (simp add: authorize_admin_def call_defs catching_apply eff_simps split: sum.splits)

lemma authorize_admin_returns: "authorize_admin ident s = (Inr x, t) \<longleftrightarrow> id_role ident = Admin \<and> t = s"
  by (auto simp: authorize_admin_quiet require_role_def)

lemma get_record_quiet:
  assumes "quiet s" "invitation_ids s" "r \<in> set (t_invitations s)" "iv_company_id r = id_company_id ident"
  shows "get_record_or_raise ident (iv_id r) s = (Inr r, s)"
proof -
  have "filter (\<lambda>x. iv_id x = iv_id r) (t_invitations s) = [r]"
    using distinct_only_row [of invitation_table s r] assms(2,3) by (simp add: invitation_ids_def only_row_def)
  then show ?thesis
    using assms(1,4) by (simp add: get_record_or_raise_def get_invitation_row_def and_then_def call_defs catching_apply
        invitations.get_by_id_delivered quiet_def eff_simps)
qed

text \<open>What a locked update leaves on a quiet network, whether it returns or raises.\<close>

lemma update_quiet:
  assumes "quiet s" "invitation_ids s" "update_status_with_lock i v status c s = (Inr r', t)"
  shows "\<exists>r \<in> set (t_invitations s). iv_id r = i \<and> iv_version r = v \<and>
    r' = (apply_changes status c r)\<lparr>iv_version := v + 1, iv_updated_at := clock s\<rparr> \<and>
    t = s\<lparr>t_invitations := map (\<lambda>x. if iv_id x = i then r' else x) (t_invitations s)\<rparr>"
proof -
  note run = assms(3) [unfolded update_status_with_lock_def]
  obtain r rest where r: "filter (locked invitation_table i v) (t_invitations s) = r # rest"
    using invitations.update_Inr [OF run] by auto
  then have "r \<in> set (filter (locked invitation_table i v) (t_invitations s))" by simp
  then have mem: "r \<in> set (t_invitations s)" and rid: "iv_id r = i" "iv_version r = v" by auto
  then have only: "filter (\<lambda>x. iv_id x = i) (t_invitations s) = [r]"
    using distinct_only_row [of invitation_table s r] assms(2) by (simp add: invitation_ids_def only_row_def)
  from invitations.locked_unique [OF quiet_lossless [OF assms(1)] run] only assms(1)
  have "r' = (apply_changes status c r)\<lparr>iv_version := v + 1, iv_updated_at := clock s\<rparr>"
    "t = s\<lparr>t_invitations := map (\<lambda>x. if iv_id x = i then r' else x) (t_invitations s)\<rparr>"
    by (auto simp: quiet_def)
  with mem rid show ?thesis by blast
qed

lemma record_invitation_event_quiet:
  assumes "quiet s" "record_invitation_event act u r s = (Inr x, t)"
  shows "\<exists>entry. profile_exists s u \<and> au_action entry = audit_action_value act \<and> au_actor_id entry = Some u \<and>
    au_request_id entry = None \<and> au_company_id entry = None \<and> t = s\<lparr>t_audit := t_audit s @ [entry], next_uuid := Suc (next_uuid s)\<rparr>"
proof -
  obtain entry where ins: "record_event (audit_action_value act) (Some u) None
      (Some [(''invitation_id'', MetaId (iv_id r)), (''email'', MetaText (iv_email r))]) None s = (Inr entry, t)"
    using assms(2) by (auto simp: record_invitation_event_def and_then_eq_Inr call_defs catching_eq_Inr eff_simps)
  from audits.insert_lossless [OF quiet_lossless [OF assms(1)] ins [unfolded record_event_def]] assms(1)
  have "entry = \<lparr>au_id = next_uuid s, au_actor_id = Some u, au_request_id = None, au_action = audit_action_value act,
      au_metadata = Some [(''invitation_id'', MetaId (iv_id r)), (''email'', MetaText (iv_email r))],
      au_created_at = clock s, au_company_id = None\<rparr>" "check_audit s entry = None"
    "t = s\<lparr>t_audit := t_audit s @ [entry], next_uuid := Suc (next_uuid s)\<rparr>"
    by (auto simp: quiet_def)
  moreover from this(1,2) have "profile_exists s u" by (simp add: check_audit_def split: if_split_asm)
  ultimately show ?thesis by (intro exI [of _ entry]) simp
qed

text \<open>Parameters that leave the network quiet and write neither invitations nor audit entries.\<close>

definition courteous :: "('z invitation_db_scheme, 'a) eff \<Rightarrow> bool" where
  "courteous m \<longleftrightarrow> (\<forall>s. quiet s \<longrightarrow> quiet (snd (m s)) \<and> t_invitations (snd (m s)) = t_invitations s \<and>
     t_audit (snd (m s)) = t_audit s \<and> next_uuid s \<le> next_uuid (snd (m s)))"

definition courteous_config :: "'z invitation_db_scheme invitation_config \<Rightarrow> bool" where
  "courteous_config cfg \<longleftrightarrow> (\<forall>d. courteous (iv_sleep cfg d)) \<and>
     (\<forall>i email password name role company. courteous (aa_create_user (iv_admin cfg) i email password name role company))"

definition like :: "'z invitation_db_scheme \<Rightarrow> 'z invitation_db_scheme \<Rightarrow> bool" where
  "like s t \<longleftrightarrow> quiet t \<and> t_invitations t = t_invitations s \<and> t_audit t = t_audit s \<and> next_uuid s \<le> next_uuid t"

lemma courteous_like: "courteous m \<Longrightarrow> preserves (like s) m"
  by (rule preservesI) (auto simp: courteous_def like_def intro: le_trans)

lemma like_wait:
  assumes "\<And>d. courteous (sleep d)"
  shows "preserves (like s) (wait_for_profile sleep i)"
proof -
  have check: "preserves (like s) (check_profile_provisioned i)"
  proof (rule preservesI)
    fix u assume u: "like s u"
    from read_onlyD [OF read_only_invitation(5), of i u] u
    have "same_data u (snd (check_profile_provisioned i u))" by (metis prod.collapse)
    with u show "like s (snd (check_profile_provisioned i u))" by (auto simp: like_def quiet_same)
  qed
  have loop: "preserves (like s) (retry_loop p sleep fr (check_profile_provisioned i) n left)" for p fr n left
    by (induction left arbitrary: n) (auto intro!: pres_flow check courteous_like [OF assms])
  show ?thesis
    unfolding wait_for_profile_def retry_call_def
    by (auto intro!: pres_flow loop split: exn.splits raised.splits)
qed

definition accepted_row :: "uuid \<Rightarrow> timestamp \<Rightarrow> invitation_record \<Rightarrow> invitation_record" where
  "accepted_row profile_id now r = r\<lparr>iv_status := InvAccepted, iv_accepted_at := Some now,
     iv_accepted_profile_id := Some profile_id, iv_version := iv_version r + 1, iv_updated_at := now\<rparr>"

text \<open>
  C24. What an acceptance that returns has checked and written, on a quiet network: the token's invitation was
  pending and not past its end; it is now linked to a profile that exists: the user the provider answered with,
  or, only when the provider raised the conflict that says the user exists already, the profile with the
  invitation's own id (after any other error of the provider nothing returns); no other invitation has changed, and one audit entry, without a company, names the new profile.
\<close>

theorem acceptance_effect:
  assumes "quiet s" "invitation_ids s" "courteous_config cfg" "accept_invitation cfg token password s = (Inr x, t)"
  shows "\<exists>r profile_id now entry. r \<in> set (t_invitations s) \<and> iv_token_hash r = iv_hash cfg token \<and>
    iv_status r = InvPending \<and> clock s \<le> iv_expires_at r \<and> profile_exists t profile_id \<and>
    (case fst (aa_create_user (iv_admin cfg) (iv_id r) (iv_email r) password (iv_full_name r) (iv_role r)
         (iv_company_id r) s) of
       Inr created \<Rightarrow> profile_id = created
     | Inl e \<Rightarrow> (\<exists>m. e = Service (InvitationConflictError m)) \<and> profile_id = iv_id r) \<and>
    t_invitations t = map (\<lambda>y. if iv_id y = iv_id r then accepted_row profile_id now r else y) (t_invitations s) \<and>
    t_audit t = t_audit s @ [entry] \<and> au_action entry = ''INVITATION_ACCEPTED'' \<and>
    au_actor_id entry = Some profile_id \<and> au_company_id entry = None"
proof -
  obtain r u1 i u2 u3 updated u4 u5 where run:
      "find_by_token_or_raise (iv_hash cfg) token s = (Inr r, u1)" "require_acceptable r u1 = (Inr (), u2)"
      "create_or_recover_user (iv_admin cfg) r password u2 = (Inr i, u3)"
      "wait_for_profile (iv_sleep cfg) i u3 = (Inr (), u4)"
      "update_status_with_lock (iv_id r) (iv_version r) InvAccepted
         (no_changes\<lparr>ic_accepted_at := Some (clock u4), ic_accepted_profile_id := Some i\<rparr>) u4 = (Inr updated, u5)"
    and rest: "\<exists>u6. record_invitation_event INVITATION_ACCEPTED i updated u5 = (Inr (), u6) \<and> as_invitation updated u6 = (Inr x, t)"
    using assms(4) by (auto simp: accept_invitation_def and_then_eq_Inr call_defs catching_eq_Inr gets_apply)
  have r: "u1 = s" "r \<in> set (t_invitations s)" "iv_token_hash r = iv_hash cfg token"
    using run(1) find_Some_in_set [of "\<lambda>i. iv_token_hash i = iv_hash cfg token" "t_invitations s"]
    by (auto simp: find_by_token_quiet [OF assms(1)] split: option.splits)
  have ok: "u2 = s" "iv_status r = InvPending" "clock s \<le> iv_expires_at r"
    using run(2) r(1) by (auto simp: require_acceptable_def and_then_eq_Inr eff_simps is_past_def split: if_splits)
  let ?create = "aa_create_user (iv_admin cfg) (iv_id r) (iv_email r) password (iv_full_name r) (iv_role r) (iv_company_id r)"
  have courteous: "courteous ?create" "courteous (iv_sleep cfg d)" for d using assms(3) by (simp_all add: courteous_config_def)
  have i: "case fst (?create s) of Inr created \<Rightarrow> i = created
      | Inl e \<Rightarrow> (\<exists>m. e = Service (InvitationConflictError m)) \<and> i = iv_id r" "u3 = snd (?create s)"
    using run(3) ok(1)
    by (auto simp: create_or_recover_user_def handle_def eff_simps split: prod.splits sum.splits exn.splits service_error.splits)
  have "like s s" using assms(1) by (simp add: like_def)
  then have "like s u3" using preservesD [OF courteous_like [OF courteous(1)]] i(2) by simp
  from preservesD [OF like_wait this, of "iv_sleep cfg" i] courteous(2) run(4) have u4: "like s u4" by simp
  then have q4: "quiet u4" "invitation_ids u4" "t_invitations u4 = t_invitations s" "t_audit u4 = t_audit s"
    using assms(2) by (auto simp: like_def invitation_ids_def)
  obtain r0 where r0: "r0 \<in> set (t_invitations s)" "iv_id r0 = iv_id r" "iv_version r0 = iv_version r"
    and upd: "updated = (apply_changes InvAccepted (no_changes\<lparr>ic_accepted_at := Some (clock u4), ic_accepted_profile_id := Some i\<rparr>) r0)
        \<lparr>iv_version := iv_version r + 1, iv_updated_at := clock u4\<rparr>"
      "u5 = u4\<lparr>t_invitations := map (\<lambda>x. if iv_id x = iv_id r then updated else x) (t_invitations s)\<rparr>"
    using update_quiet [OF q4(1,2) run(5)] q4(3) by auto
  have "r0 = r" using r0 r(2) assms(2) by (auto simp: invitation_ids_def distinct_map inj_on_def)
  then have updated: "updated = accepted_row i (clock u4) r"
    using upd(1) by (simp add: accepted_row_def apply_changes_def no_changes_def or_kept_def)
  obtain u6 where u6: "record_invitation_event INVITATION_ACCEPTED i updated u5 = (Inr (), u6)" "u6 = t"
    using rest by (auto simp: as_invitation_def and_then_eq_Inr eff_simps)
  have "quiet u5" using q4(1) upd(2) by (simp add: quiet_def)
  from record_invitation_event_quiet [OF this u6(1)] obtain entry where entry: "profile_exists u5 i"
    "au_action entry = ''INVITATION_ACCEPTED''" "au_actor_id entry = Some i" "au_company_id entry = None"
    "t = u5\<lparr>t_audit := t_audit u5 @ [entry], next_uuid := Suc (next_uuid u5)\<rparr>" by (auto simp: u6(2))
  then have "profile_exists t i" by (simp add: profile_exists_def)
  with r ok i(1) entry upd(2) updated q4(3,4) show ?thesis
    by (intro exI [of _ r] exI [of _ i] exI [of _ "clock u4"] exI [of _ entry]) simp
qed

lemma sample_courteous: "courteous_config sample_invitation_config"
  by (simp add: courteous_config_def courteous_def sample_invitation_config_def sample_admin_api_def provision_def quiet_def
      eff_simps)

definition one_invitation :: invitation_db where
  "one_invitation = invitations_of [sample_invitation 40 ''di@eah.io'' ''#t'' InvPending]"

lemma accept_one: "is_ok (fst (accept_invitation sample_invitation_config ''t'' ''pw'' one_invitation))"
  by code_simp

theorem acceptance_effect_witness:
  "\<exists>x t. accept_invitation sample_invitation_config ''t'' ''pw'' one_invitation = (Inr x, t) \<and>
     (\<exists>profile_id. profile_exists t profile_id)"
proof -
  obtain x t where run: "accept_invitation sample_invitation_config ''t'' ''pw'' one_invitation = (Inr x, t)"
    using is_ok_run [OF accept_one] by blast
  have "quiet one_invitation" "invitation_ids one_invitation"
    by (simp_all add: one_invitation_def invitations_of_def quiet_def invitation_ids_def sample_invitation_def)
  from acceptance_effect [OF this sample_courteous run] run show ?thesis by blast
qed

section \<open>A race that is lost\<close>

text \<open>
  C25. An acceptance during whose call of the provider the invitation is revoked: it raises ConcurrencyError
  and leaves the user the provider has made, and every later attempt with the token is refused because the
  invitation is revoked. The account stays although the invitation is revoked.
\<close>

theorem acceptance_lost_to_revocation:
  assumes "quiet s" "List.find (\<lambda>i. iv_token_hash i = iv_hash cfg token) (t_invitations s) = Some r"
    and "iv_status r = InvPending" "clock s \<le> iv_expires_at r"
    and "aa_create_user (iv_admin cfg) (iv_id r) (iv_email r) password (iv_full_name r) (iv_role r) (iv_company_id r) s =
      (Inr profile_id, u)" "quiet u" "profile_exists u profile_id"
    and "\<forall>x \<in> set (t_invitations u). \<not> (iv_id x = iv_id r \<and> iv_version x = iv_version r)"
    and "List.find (\<lambda>i. iv_token_hash i = iv_hash cfg token) (t_invitations u) = Some r'" "iv_status r' = InvRevoked"
  shows "accept_invitation cfg token password s =
      (Inl (Service (ConcurrencyError (Db (ConcurrentUpdateError ''user_invitations'' (iv_id r) (iv_version r))))), u) \<and>
    accept_invitation cfg token password' u =
      (Inl (Service (InvalidInvitationStateError (iv_id r') ''revoked'' ''accept'')), u)"
proof
  have wait: "wait_for_profile (iv_sleep cfg) profile_id u = (Inr (), u)"
  proof -
    have "find_profile_row profile_id u \<noteq> (Inr None, u)" "\<exists>p. find_profile_row profile_id u = (Inr p, u)"
      using assms(6,7) by (auto simp: find_profile_row_def find_by_id_def select_stmt_def and_then_def quiet_def
          execute_gets_reliable eff_simps profile_exists_def list_ex_iff filter_empty_conv split: list.splits)
    then have "check_profile_provisioned profile_id u = (Inr (), u)"
      by (auto simp: check_profile_provisioned_def and_then_def eff_simps)
    then show ?thesis
      by (simp add: wait_for_profile_def retry_call_def PROFILE_PROPAGATION_RETRY_POLICY_def handle_def
          eval_nat_numeral)
  qed
  have lost: "update_status_with_lock (iv_id r) (iv_version r) InvAccepted c u =
      (Inl (Raised (Db (ConcurrentUpdateError ''user_invitations'' (iv_id r) (iv_version r)))), u)" for c
    using invitations.update_conflict [where s = u and i = "iv_id r" and v = "iv_version r"] assms(6,8)
    by (simp add: update_status_with_lock_def quiet_def filter_empty_conv)
  show "accept_invitation cfg token password s =
      (Inl (Service (ConcurrencyError (Db (ConcurrentUpdateError ''user_invitations'' (iv_id r) (iv_version r))))), u)"
    using assms(3,4,5) wait lost
    by (simp add: accept_invitation_def and_then_def find_by_token_quiet [OF assms(1)] assms(2) require_acceptable_def
        is_past_def eff_simps create_or_recover_user_def handle_def call_defs catching_apply)
  show "accept_invitation cfg token password' u =
      (Inl (Service (InvalidInvitationStateError (iv_id r') ''revoked'' ''accept'')), u)"
    using assms(10)
    by (simp add: accept_invitation_def and_then_def find_by_token_quiet [OF assms(6)] assms(9) require_acceptable_def
        eff_simps)
qed

text \<open>The provider is slow, and the administrator revokes the invitation meanwhile.\<close>

definition slow_config :: "invitation_db invitation_config" where
  "slow_config = sample_invitation_config\<lparr>iv_admin := \<lparr>aa_create_user = (\<lambda>i email password name role company s.
      (Inr i, provision i name role company (snd (revoke_invitation inviting_admin i s)))),
     aa_anonymize_user = (\<lambda>_ _. return ())\<rparr>\<rparr>"

definition revoked_meanwhile :: invitation_db where
  "revoked_meanwhile = provision 40 ''Di'' Employee 7 (snd (revoke_invitation inviting_admin 40 one_invitation))"

lemma revoked_meanwhile:
  "list_all (\<lambda>x. iv_status x = InvRevoked \<and> iv_version x = 2 \<and> iv_token_hash x = ''#t'' \<and> iv_id x = 40) (t_invitations revoked_meanwhile)"
  "t_invitations revoked_meanwhile \<noteq> []" "net revoked_meanwhile = []" "profile_exists revoked_meanwhile 40"
  by code_simp+

theorem acceptance_lost_to_revocation_witness:
  "accept_invitation slow_config ''t'' ''pw'' one_invitation =
     (Inl (Service (ConcurrencyError (Db (ConcurrentUpdateError ''user_invitations'' 40 1)))), revoked_meanwhile) \<and>
   accept_invitation slow_config ''t'' ''pw'' revoked_meanwhile =
     (Inl (Service (InvalidInvitationStateError 40 ''revoked'' ''accept'')), revoked_meanwhile)"
proof -
  let ?r = "sample_invitation 40 ''di@eah.io'' ''#t'' InvPending"
  obtain r' rest where rows: "t_invitations revoked_meanwhile = r' # rest"
    using revoked_meanwhile(2) by (cases "t_invitations revoked_meanwhile") auto
  then have r': "iv_status r' = InvRevoked" "iv_id r' = 40" "iv_token_hash r' = ''#t''" using revoked_meanwhile(1) by simp_all
  have "quiet one_invitation" "quiet revoked_meanwhile"
    using revoked_meanwhile(3) by (simp_all add: quiet_def one_invitation_def invitations_of_def)
  moreover have "\<forall>x \<in> set (t_invitations revoked_meanwhile). \<not> (iv_id x = iv_id ?r \<and> iv_version x = iv_version ?r)"
    using revoked_meanwhile(1) by (auto simp: list_all_iff sample_invitation_def)
  ultimately show ?thesis
    using acceptance_lost_to_revocation [of one_invitation slow_config "''t''" ?r "''pw''" 40 revoked_meanwhile r' "''pw''"]
      rows r' revoked_meanwhile(4)
    by (simp add: slow_config_def sample_invitation_config_def one_invitation_def [unfolded sample_invitation_def] invitations_of_def
        sample_invitation_def revoked_meanwhile_def)
qed

section \<open>A resend\<close>

definition renewed_row :: "string \<Rightarrow> timestamp \<Rightarrow> timestamp \<Rightarrow> invitation_record \<Rightarrow> invitation_record" where
  "renewed_row token_hash expires_at now r = r\<lparr>iv_status := InvPending, iv_token_hash := token_hash,
     iv_expires_at := expires_at, iv_resend_count := iv_resend_count r + 1, iv_version := iv_version r + 1,
     iv_updated_at := now\<rparr>"

lemma find_in_rows:
  assumes "r \<in> set xs" "P r" "\<And>q. q \<in> set xs \<Longrightarrow> P q \<Longrightarrow> q = r"
  shows "List.find P xs = Some r"
proof (cases "List.find P xs")
  case None
  with assms(1,2) show ?thesis unfolding find_None_iff by blast
next
  case (Some q)
  with find_Some_in_set [OF Some] assms(3) show ?thesis by blast
qed

text \<open>
  A resend that returns, on a quiet network and with a token whose digest no invitation has, retires the
  old token: it is unknown from then on, to a validation and to an acceptance, and the new token is that of
  the same invitation with its new end, one resend more and the next version.
\<close>

theorem resend_retires_token:
  assumes "quiet s" "invitation_ids s" "distinct (map iv_token_hash (t_invitations s))"
    and "\<And>send email name token e re. iv_sender cfg = Some send \<Longrightarrow> courteous (send email name token e re)"
    and "r \<in> set (t_invitations s)" "iv_token_hash r = iv_hash cfg old_token"
    and "\<forall>q \<in> set (t_invitations s). iv_token_hash q \<noteq> iv_hash cfg new_token"
    and "resend_invitation cfg ident (iv_id r) new_token s = (Inr x, t)"
  shows "validate_invitation_token (iv_hash cfg) old_token t =
      (Inl (Service (NotFoundError ''invitation'' (ByName ''<redacted-token>''))), t) \<and>
    accept_invitation cfg old_token password t =
      (Inl (Service (NotFoundError ''invitation'' (ByName ''<redacted-token>''))), t) \<and>
    find_by_token_or_raise (iv_hash cfg) new_token t =
      (Inr (renewed_row (iv_hash cfg new_token) (add_hours (clock s) (iv_expiry_hours cfg)) (clock s) r), t)"
proof -
  let ?changes = "no_changes\<lparr>ic_token_hash := Some (iv_hash cfg new_token),
    ic_expires_at := Some (add_hours (clock s) (iv_expiry_hours cfg)), ic_resend_count := Some (iv_resend_count r + 1)\<rparr>"
  let ?new = "renewed_row (iv_hash cfg new_token) (add_hours (clock s) (iv_expiry_hours cfg)) (clock s) r"
  have company: "iv_company_id r = id_company_id ident"
  proof (rule ccontr)
    assume other: "iv_company_id r \<noteq> id_company_id ident"
    have "filter (\<lambda>x. iv_id x = iv_id r) (t_invitations s) = [r]"
      using distinct_only_row [of invitation_table s r] assms(2,5) by (simp add: invitation_ids_def only_row_def)
    then have "get_record_or_raise ident (iv_id r) s = (Inl (Service (NotFoundError ''invitation'' (ById (iv_id r)))), s)"
      using assms(1) other by (simp add: get_record_or_raise_def get_invitation_row_def and_then_def call_defs catching_apply
          invitations.get_by_id_delivered quiet_def eff_simps)
    then show False using assms(8)
      by (simp add: resend_invitation_def and_then_eq_Inr authorize_admin_returns)
  qed
  note got = get_record_quiet [OF assms(1,2,5) company]
  obtain updated t1 t2 t3 where steps: "update_status_with_lock (iv_id r) (iv_version r) InvPending ?changes s = (Inr updated, t1)"
      "record_invitation_event INVITATION_RESENT (id_user_id ident) updated t1 = (Inr (), t2)"
      "dispatch_invitation_email (iv_sender cfg) updated new_token True t2 = (Inr (), t3)"
    and last: "as_invitation updated t3 = (Inr x, t)"
    using assms(8)
    by (auto simp: resend_invitation_def and_then_eq_Inr authorize_admin_returns call_defs catching_eq_Inr gets_apply
        got require_pending_def guard_that_apply split: if_split_asm)
  obtain r0 where r0: "r0 \<in> set (t_invitations s)" "iv_id r0 = iv_id r" "iv_version r0 = iv_version r"
    and upd: "updated = (apply_changes InvPending ?changes r0)\<lparr>iv_version := iv_version r + 1, iv_updated_at := clock s\<rparr>"
      "t1 = s\<lparr>t_invitations := map (\<lambda>x. if iv_id x = iv_id r then updated else x) (t_invitations s)\<rparr>"
    using update_quiet [OF assms(1,2) steps(1)] by auto
  have same: "q = r" if "q \<in> set (t_invitations s)" "iv_id q = iv_id r" for q
    using that assms(2,5) by (auto simp: invitation_ids_def distinct_map inj_on_def)
  have updated: "updated = ?new"
    using upd(1) same [OF r0(1,2)] by (simp add: renewed_row_def apply_changes_def no_changes_def or_kept_def)
  have q1: "quiet t1" using assms(1) upd(2) by (simp add: quiet_def)
  have q2: "like t1 t2 \<or> (quiet t2 \<and> t_invitations t2 = t_invitations t1)"
    using record_invitation_event_quiet [OF q1 steps(2)] q1 by (auto simp: quiet_def)
  then have q3: "quiet t3 \<and> t_invitations t3 = t_invitations t1"
    using steps(3) assms(4)
    by (auto simp: dispatch_invitation_email_def like_def courteous_def handle_def and_then_def eff_simps
        split: option.splits prod.splits sum.splits) (metis snd_conv)+
  have t: "t = t3" using last by (auto simp: as_invitation_def and_then_eq_Inr eff_simps)
  have rows: "quiet t" "t_invitations t = map (\<lambda>x. if iv_id x = iv_id r then ?new else x) (t_invitations s)"
    using q3 upd(2) t updated by simp_all
  have old: "iv_token_hash q \<noteq> iv_hash cfg old_token" if q: "q \<in> set (t_invitations t)" for q
  proof -
    from q obtain p where p: "p \<in> set (t_invitations s)" "q = (if iv_id p = iv_id r then ?new else p)" by (auto simp: rows(2))
    show ?thesis
    proof (cases "iv_id p = iv_id r")
      case True
      with p(2) assms(5-7) show ?thesis by (auto simp: renewed_row_def)
    next
      case False
      then have "p \<noteq> r" by auto
      with assms(3,5,6) p(1) have "iv_token_hash p \<noteq> iv_hash cfg old_token" by (auto simp: distinct_map inj_on_def)
      with False p(2) show ?thesis by simp
    qed
  qed
  have gone: "find_by_token_or_raise (iv_hash cfg) old_token t =
      (Inl (Service (NotFoundError ''invitation'' (ByName ''<redacted-token>''))), t)"
    using old by (simp add: find_by_token_quiet [OF rows(1)] find_None_iff split: option.splits)
  have "List.find (\<lambda>i. iv_token_hash i = iv_hash cfg new_token) (t_invitations t) = Some ?new"
    using assms(5,7) by (intro find_in_rows) (auto simp: rows(2) renewed_row_def split: if_splits)
  then have "find_by_token_or_raise (iv_hash cfg) new_token t = (Inr ?new, t)"
    by (simp add: find_by_token_quiet [OF rows(1)])
  with gone show ?thesis by (simp add: validate_invitation_token_def accept_invitation_def and_then_def)
qed

lemma resend_one: "is_ok (fst (resend_invitation sample_invitation_config inviting_admin 40 ''u'' one_invitation))"
  by code_simp

theorem resend_retires_token_witness:
  "fst (validate_invitation_token (iv_hash sample_invitation_config) ''t''
     (snd (resend_invitation sample_invitation_config inviting_admin 40 ''u'' one_invitation))) =
   Inl (Service (NotFoundError ''invitation'' (ByName ''<redacted-token>'')))"
proof -
  let ?r = "sample_invitation 40 ''di@eah.io'' ''#t'' InvPending"
  obtain x t where run: "resend_invitation sample_invitation_config inviting_admin (iv_id ?r) ''u'' one_invitation = (Inr x, t)"
    using is_ok_run [OF resend_one] by (auto simp: sample_invitation_def)
  have "quiet one_invitation" "invitation_ids one_invitation" "distinct (map iv_token_hash (t_invitations one_invitation))"
    "?r \<in> set (t_invitations one_invitation)" "iv_token_hash ?r = iv_hash sample_invitation_config ''t''"
    "\<forall>q \<in> set (t_invitations one_invitation). iv_token_hash q \<noteq> iv_hash sample_invitation_config ''u''"
    by (simp_all add: one_invitation_def invitations_of_def quiet_def invitation_ids_def sample_invitation_def
        sample_invitation_config_def)
  from resend_retires_token [OF this(1-3) _ this(4-6) run] run show ?thesis
    by (simp add: sample_invitation_config_def sample_invitation_def)
qed

section \<open>A listing\<close>

definition listed_under :: "timestamp \<Rightarrow> effective_invitation_status \<Rightarrow> invitation_record \<Rightarrow> bool" where
  "listed_under now status r \<longleftrightarrow>
     (case status of
        EffPending \<Rightarrow> iv_status r = InvPending \<and> now < iv_expires_at r
      | EffExpired \<Rightarrow> iv_status r = InvPending \<and> iv_expires_at r \<le> now
      | EffAccepted \<Rightarrow> iv_status r = InvAccepted
      | EffRevoked \<Rightarrow> iv_status r = InvRevoked)"

definition matches_invitation :: "string option \<Rightarrow> invitation_record \<Rightarrow> bool" where
  "matches_invitation query r \<longleftrightarrow>
     (case query of None \<Rightarrow> True | Some q \<Rightarrow> ilike (strip q) (iv_full_name r) \<or> ilike (strip q) (iv_email r))"

lemma mapped_Inr: "map_result f xs = Inr ys \<Longrightarrow> y \<in> set ys \<Longrightarrow> \<exists>x \<in> set xs. f x = Inr y"
  by (induction xs arbitrary: ys) (auto simp: bind_result_def split: sum.splits)

text \<open>
  A listing of one effective status counts exactly the invitations of the caller's company that are
  listed under it and match the query, and every invitation it shows has that status, but for one instant:
  at the microsecond its validity ends an invitation is listed as expired and shown as pending.
\<close>

theorem listing_by_status:
  assumes "quiet s" "list_invitations ident (Some status) query p s = (Inr res, t)"
  shows "t = s \<and>
    res_total_records res = int (length (filter (\<lambda>r. iv_company_id r = id_company_id ident \<and> listed_under (clock s) status r \<and>
       matches_invitation query r) (t_invitations s))) \<and>
    (\<forall>x \<in> set (res_items res). in_effective_status x =
       (if status = EffExpired \<and> in_expires_at x = clock s then EffPending else status))"
proof -
  define found where "found = filter (\<lambda>r. iv_company_id r = id_company_id ident \<and> listed_under (clock s) status r \<and>
       matches_invitation query r) (t_invitations s)"
  define outcome where "outcome = (case status of
          EffPending \<Rightarrow> list_invitation_rows (id_company_id ident) (Some InvPending) query (Some (clock s)) None p
        | EffExpired \<Rightarrow> list_invitation_rows (id_company_id ident) (Some InvPending) query None (Some (clock s)) p
        | EffAccepted \<Rightarrow> list_invitation_rows (id_company_id ident) (Some InvAccepted) query None None p
        | EffRevoked \<Rightarrow> list_invitation_rows (id_company_id ident) (Some InvRevoked) query None None p) s"
  obtain result t1 items where run: "outcome = (Inr result, t1)"
      "map_result (map_invitation_record_to_domain (clock s)) (res_items result) = Inr items" "t = t1"
      "res_items res = items" "res_total_records res = res_total_records result"
    using assms(2)
    by (auto simp: list_invitations_def and_then_eq_Inr authorize_admin_returns call_defs catching_eq_Inr pure_apply gets_apply
        return_apply outcome_def split: effective_invitation_status.splits)
  have query: "(case query of None \<Rightarrow> return () | Some q \<Rightarrow> require_query ''list_invitations'' q) s = (Inr (), s)"
    using run(1)
    by (auto simp: outcome_def list_invitation_rows_def and_then_eq_Inr require_query_def eff_simps
        split: effective_invitation_status.splits option.splits if_splits)
  have "outcome = (Inr \<lparr>res_items = row_range (page_offset p) (page_upper_bound p) (order_desc iv_created_at found),
      res_page = pg_number p, res_page_size = pg_size p, res_total_records = int (length found)\<rparr>, s)"
    unfolding outcome_def list_invitation_rows_def found_def
    by (cases status; simp add: and_then_def query paginate_quiet [OF assms(1)] eq_filter_def listed_under_def
        matches_invitation_def conj_ac order_desc_def cong: filter_cong)
  with run have res: "t = s" "res_total_records res = int (length found)"
    "result = \<lparr>res_items = row_range (page_offset p) (page_upper_bound p) (order_desc iv_created_at found),
      res_page = pg_number p, res_page_size = pg_size p, res_total_records = int (length found)\<rparr>" by auto
  have "in_effective_status x = (if status = EffExpired \<and> in_expires_at x = clock s then EffPending else status)"
    if "x \<in> set (res_items res)" for x
  proof -
    from mapped_Inr [OF run(2)] that run(4) res(3) obtain r where
      r: "r \<in> set (row_range (page_offset p) (page_upper_bound p) (order_desc iv_created_at found))"
        "map_invitation_record_to_domain (clock s) r = Inr x" by auto
    from r(1) have "r \<in> set (order_desc iv_created_at found)"
      unfolding row_range_def by (blast dest: in_set_takeD in_set_dropD)
    then have "r \<in> set found" by (simp add: order_desc_def)
    then have "listed_under (clock s) status r" by (simp add: found_def)
    moreover have "in_effective_status x = compute_effective_status (iv_status r) (iv_expires_at r) (clock s)"
      "in_expires_at x = iv_expires_at r"
      using r(2) by (auto simp: map_invitation_record_to_domain_def Invitation_def bind_result_def split: sum.splits if_splits)
    ultimately show ?thesis
      by (auto simp: listed_under_def compute_effective_status_def is_past_def split: effective_invitation_status.splits)
  qed
  with res(1,2) show ?thesis by (simp add: found_def)
qed

lemma list_one: "is_ok (fst (list_invitations inviting_admin (Some EffExpired) None \<lparr>pg_number = 1, pg_size = 20\<rparr> (one_invitation\<lparr>clock := 50\<rparr>)))"
  by code_simp

theorem listing_by_status_witness:
  "\<exists>res t. list_invitations inviting_admin (Some EffExpired) None \<lparr>pg_number = 1, pg_size = 20\<rparr> (one_invitation\<lparr>clock := 50\<rparr>) = (Inr res, t) \<and>
     res_total_records res = 1"
proof -
  obtain res t where run: "list_invitations inviting_admin (Some EffExpired) None \<lparr>pg_number = 1, pg_size = 20\<rparr> (one_invitation\<lparr>clock := 50\<rparr>) = (Inr res, t)"
    using is_ok_run [OF list_one] by blast
  have "quiet (one_invitation\<lparr>clock := 50\<rparr>)" by (simp add: quiet_def one_invitation_def invitations_of_def)
  from listing_by_status [OF this run] run show ?thesis
    by (simp add: one_invitation_def invitations_of_def sample_invitation_def listed_under_def matches_invitation_def
        inviting_admin_def identity_of_def)
qed

end
