(* ===== verification/Companies.thy ===== *)
theory Companies imports Invitations
begin

text \<open>
  Users and companies: the profile lifecycle of \<open>services/user_service.py\<close>; the companies and licenses of
  \<open>models/company.py\<close>, \<open>models/company_license.py\<close>, \<open>database/repositories/company_repository.py\<close>,
  \<open>database/repositories/company_license_repository.py\<close> and \<open>services/company_service.py\<close>. The two tables extend
  the database of the invitations. The random part of a slug is a parameter.
\<close>

section \<open>Users\<close>

definition anonymized_full_name :: "(uuid \<Rightarrow> string) \<Rightarrow> uuid \<Rightarrow> string" where
  "anonymized_full_name show_uuid user_id = ''Deleted User '' @ take 8 (show_uuid user_id)"

definition anonymized_email :: "(uuid \<Rightarrow> string) \<Rightarrow> uuid \<Rightarrow> string" where
  "anonymized_email show_uuid user_id = ''deleted-'' @ show_uuid user_id @ ''@erased.invalid''"

definition authorize_user_management :: "identity \<Rightarrow> ('s, unit) eff" where
  "authorize_user_management ident =
     auth_call (if \<not> can_manage_user_roles (id_role ident) then require_role (id_role ident) [Admin] else Inr ())"

definition get_in_tenant :: "identity \<Rightarrow> uuid \<Rightarrow> ('z db_scheme, profile_record) eff" where
  "get_in_tenant ident user_id =
     and_then (db_call (get_profile_row user_id)) (\<lambda>p.
       if pr_company_id p \<noteq> id_company_id ident then throw (Service (NotFoundError ''profile'' (ById user_id)))
       else return p)"

text \<open>The audit entries of this service are not under a \<open>try\<close>: a database error reaches the caller as it is.\<close>

definition record_profile_event :: "audit_action \<Rightarrow> identity \<Rightarrow> uuid \<Rightarrow> ('z db_scheme, unit) eff" where
  "record_profile_event action ident user_id =
     and_then (record_event (audit_action_value action) (Some (id_user_id ident)) None
       (Some [(''user_id'', MetaId user_id)]) (Some (id_company_id ident))) (\<lambda>_. return ())"

definition update_profile ::
  "identity \<Rightarrow> uuid \<Rightarrow> int \<Rightarrow> user_role option \<Rightarrow> string option \<Rightarrow> bool option \<Rightarrow> ('z db_scheme, profile_record) eff" where
  "update_profile ident user_id expected_version role department is_active =
     and_then (authorize_user_management ident) (\<lambda>_.
     and_then (guard_that (\<not> (is_active = Some False \<and> user_id = id_user_id ident))
        (Service (ValidationError (Message ''You may not deactivate your own account.'')))) (\<lambda>_.
     and_then (get_in_tenant ident user_id) (\<lambda>_.
     and_then (db_call (update_profile_row user_id expected_version None role department is_active)) (\<lambda>updated.
     and_then (case is_active of
                 None \<Rightarrow> return ()
               | Some b \<Rightarrow> record_profile_event (if b then PROFILE_REACTIVATED else PROFILE_DEACTIVATED) ident user_id) (\<lambda>_.
     and_then (if role \<noteq> None \<or> department \<noteq> None then record_profile_event PROFILE_UPDATED ident user_id else return ()) (\<lambda>_.
       return updated))))))"

definition erase_user ::
  "'z db_scheme auth_admin \<Rightarrow> (uuid \<Rightarrow> string) \<Rightarrow> identity \<Rightarrow> uuid \<Rightarrow> int \<Rightarrow> ('z db_scheme, profile_record) eff" where
  "erase_user A show_uuid ident user_id expected_version =
     and_then (authorize_user_management ident) (\<lambda>_.
     and_then (guard_that (user_id \<noteq> id_user_id ident)
        (Service (ValidationError (Message ''You may not erase your own account.'')))) (\<lambda>_.
     and_then (get_in_tenant ident user_id) (\<lambda>existing.
       if pr_deleted_at existing \<noteq> None then return existing
       else and_then (aa_anonymize_user A user_id (anonymized_email show_uuid user_id)) (\<lambda>_.
            and_then (db_call (erase_profile user_id expected_version (id_user_id ident)
               (anonymized_full_name show_uuid user_id))) (\<lambda>erased.
            and_then (record_profile_event PROFILE_ERASED ident user_id) (\<lambda>_.
              return erased))))))"

section \<open>The tables of companies\<close>

record company_record =
  co_id :: uuid
  co_name :: string
  co_slug :: string
  co_is_active :: bool
  co_contact_email :: "string option"
  co_notes :: "string option"
  co_version :: int
  co_created_at :: timestamp
  co_updated_at :: timestamp
  co_deleted_at :: "timestamp option"
  co_deleted_by :: "uuid option"

record license_record =
  li_company_id :: uuid
  li_plan_tier :: string
  li_seat_limit :: "int option"
  li_expires_at :: "timestamp option"
  li_notes :: "string option"
  li_updated_at :: timestamp

record company_db = invitation_db +
  t_companies :: "company_record list"
  t_licenses :: "license_record list"

definition check_company :: "'z company_db_scheme \<Rightarrow> company_record \<Rightarrow> string option" where
  "check_company s c = first_violation
     [(1 \<le> length (co_name c) \<and> length (co_name c) \<le> 200 \<and> 0 < co_version c, check_violation),
      (\<not> list_ex (\<lambda>x. co_id x \<noteq> co_id c \<and> co_slug x = co_slug c) (t_companies s), unique_violation),
      (opt_ok (profile_exists s) (co_deleted_by c), foreign_key_violation)]"

definition company_table :: "('z company_db_scheme, company_record) table" where
  "company_table =
     \<lparr>tb_name = ''companies'', tb_rows = t_companies, tb_set_rows = (\<lambda>rs s. s\<lparr>t_companies := rs\<rparr>),
      tb_id = co_id, tb_version = co_version, tb_set_version = (\<lambda>v r. r\<lparr>co_version := v\<rparr>),
      tb_touch = (\<lambda>now r. r\<lparr>co_updated_at := now\<rparr>), tb_check = check_company\<rparr>"

lemma company_table_fields [simp]:
  "tb_name company_table = ''companies''" "tb_rows company_table = t_companies"
  "tb_set_rows company_table = (\<lambda>rs s. s\<lparr>t_companies := rs\<rparr>)" "tb_id company_table = co_id"
  "tb_version company_table = co_version" "tb_set_version company_table = (\<lambda>v r. r\<lparr>co_version := v\<rparr>)"
  "tb_touch company_table = (\<lambda>now r. r\<lparr>co_updated_at := now\<rparr>)" "tb_check company_table = check_company"
  by (simp_all add: company_table_def)

interpretation companies: versioned_store company_table
  by unfold_locales (auto simp: check_company_def fun_eq_iff)

lemma company_rows [simp]:
  "locked company_table i v = (\<lambda>r. co_id r = i \<and> co_version r = v)"
  "written company_table v f now = (\<lambda>r. (f r)\<lparr>co_version := v + 1, co_updated_at := now\<rparr>)"
  by (simp_all add: locked_def written_def fun_eq_iff)

definition company_exists :: "'z company_db_scheme \<Rightarrow> uuid \<Rightarrow> bool" where
  "company_exists s i = list_ex (\<lambda>c. co_id c = i) (t_companies s)"

section \<open>The repositories\<close>

definition get_company_row :: "uuid \<Rightarrow> ('z company_db_scheme, company_record) eff" where
  "get_company_row = get_by_id company_table"

definition create_company_row :: "string \<Rightarrow> string \<Rightarrow> ('z company_db_scheme, company_record) eff" where
  "create_company_row name slug =
     insert_row company_table (\<lambda>new_id now.
       \<lparr>co_id = new_id, co_name = name, co_slug = slug, co_is_active = True, co_contact_email = None, co_notes = None,
        co_version = 1, co_created_at = now, co_updated_at = now, co_deleted_at = None, co_deleted_by = None\<rparr>)"

definition update_company_row ::
  "uuid \<Rightarrow> int \<Rightarrow> string option \<Rightarrow> bool option \<Rightarrow> string option \<Rightarrow> string option \<Rightarrow> ('z company_db_scheme, company_record) eff" where
  "update_company_row company_id expected_version name is_active contact_email notes =
     (if name = None \<and> is_active = None \<and> contact_email = None \<and> notes = None
      then throw (invalid_query ''update_company'')
      else update_with_optimistic_lock company_table company_id expected_version
        (\<lambda>c. set_if_given (\<lambda>v c. c\<lparr>co_notes := Some v\<rparr>) notes
              (set_if_given (\<lambda>v c. c\<lparr>co_contact_email := Some v\<rparr>) contact_email
                (set_if_given (\<lambda>v c. c\<lparr>co_is_active := v\<rparr>) is_active
                  (set_if_given (\<lambda>v c. c\<lparr>co_name := v\<rparr>) name c)))))"

definition soft_delete_company_row :: "uuid \<Rightarrow> int \<Rightarrow> uuid \<Rightarrow> ('z company_db_scheme, company_record) eff" where
  "soft_delete_company_row company_id expected_version deleted_by =
     and_then (gets clock) (\<lambda>now. update_with_optimistic_lock company_table company_id expected_version
       (\<lambda>c. c\<lparr>co_deleted_at := Some now, co_deleted_by := Some deleted_by\<rparr>))"

definition restore_company_row :: "uuid \<Rightarrow> int \<Rightarrow> ('z company_db_scheme, company_record) eff" where
  "restore_company_row company_id expected_version =
     update_with_optimistic_lock company_table company_id expected_version
       (\<lambda>c. c\<lparr>co_deleted_at := None, co_deleted_by := None\<rparr>)"

definition list_company_rows :: "bool \<Rightarrow> page \<Rightarrow> ('z company_db_scheme, company_record paged_result) eff" where
  "list_company_rows include_deleted = paginate company_table (\<lambda>s. order_desc co_created_at
     (filter (\<lambda>c. include_deleted \<or> co_deleted_at c = None) (t_companies s)))"

definition count_companies :: "bool option \<Rightarrow> bool \<Rightarrow> ('z company_db_scheme, int) eff" where
  "count_companies is_active include_deleted = count_rows company_table (\<lambda>s.
     filter (\<lambda>c. (include_deleted \<or> co_deleted_at c = None) \<and> eq_filter co_is_active is_active c) (t_companies s))"

definition get_license_row :: "uuid \<Rightarrow> ('z company_db_scheme, license_record option) eff" where
  "get_license_row company_id =
     and_then (execute ''get_for_company'' ''company_licenses'' (gets (\<lambda>s.
        take 1 (filter (\<lambda>l. li_company_id l = company_id) (t_licenses s)))))
       (\<lambda>rows. return (case rows of [] \<Rightarrow> None | l # _ \<Rightarrow> Some l))"

text \<open>\<open>INSERT ... ON CONFLICT (company_id) DO UPDATE\<close>, one statement; \<open>updated_by\<close> is not read back.\<close>

definition upsert_license_stmt ::
  "uuid \<Rightarrow> string \<Rightarrow> int option \<Rightarrow> timestamp option \<Rightarrow> string option \<Rightarrow> uuid option \<Rightarrow> ('z company_db_scheme, license_record list) eff" where
  "upsert_license_stmt company_id plan_tier seat_limit expires_at notes updated_by s =
     (let l = \<lparr>li_company_id = company_id, li_plan_tier = plan_tier, li_seat_limit = seat_limit,
               li_expires_at = expires_at, li_notes = notes, li_updated_at = clock s\<rparr> in
      if \<not> company_exists s company_id \<or> \<not> opt_ok (profile_exists s) updated_by
      then (Inl (Raised (Client (APIError foreign_key_violation ''''))), s)
      else if list_ex (\<lambda>x. li_company_id x = company_id) (t_licenses s)
      then (Inr [l], s\<lparr>t_licenses := map (\<lambda>x. if li_company_id x = company_id then l else x) (t_licenses s)\<rparr>)
      else (Inr [l], s\<lparr>t_licenses := t_licenses s @ [l]\<rparr>))"

definition upsert_license ::
  "uuid \<Rightarrow> string \<Rightarrow> int option \<Rightarrow> timestamp option \<Rightarrow> string option \<Rightarrow> uuid option \<Rightarrow> ('z company_db_scheme, license_record) eff" where
  "upsert_license company_id plan_tier seat_limit expires_at notes updated_by =
     and_then (execute ''upsert'' ''company_licenses''
        (upsert_license_stmt company_id plan_tier seat_limit expires_at notes updated_by))
       (single_row ''company_licenses'' company_id)"

section \<open>The models\<close>

record company =
  cm_id :: uuid
  cm_name :: string
  cm_slug :: string
  cm_is_active :: bool
  cm_contact_email :: "string option"
  cm_notes :: "string option"
  cm_version :: int
  cm_created_at :: timestamp
  cm_updated_at :: timestamp
  cm_deleted_at :: "timestamp option"
  cm_deleted_by :: "uuid option"

definition Company :: "company \<Rightarrow> company fallible" where
  "Company raw =
     (let c = raw\<lparr>cm_name := strip (cm_name raw), cm_slug := strip (cm_slug raw),
                  cm_contact_email := map_option strip (cm_contact_email raw), cm_notes := map_option strip (cm_notes raw)\<rparr> in
      if cm_name c = [] \<or> 200 < length (cm_name c) then Inl (Raised (Model (PydanticValidationError ''name'')))
      else if cm_slug c = [] then Inl (Raised (Model (PydanticValidationError ''slug'')))
      else if cm_version c < 1 then Inl (Raised (Model (PydanticValidationError ''version'')))
      else Inr c)"

record company_license =
  cl_company_id :: uuid
  cl_plan_tier :: string
  cl_seat_limit :: "int option"
  cl_expires_at :: "timestamp option"
  cl_notes :: "string option"
  cl_seats_used :: int
  cl_is_expired :: bool
  cl_updated_at :: timestamp

definition map_company_record_to_domain :: "company_record \<Rightarrow> company fallible" where
  "map_company_record_to_domain r = Company
     \<lparr>cm_id = co_id r, cm_name = co_name r, cm_slug = co_slug r, cm_is_active = co_is_active r,
      cm_contact_email = co_contact_email r, cm_notes = co_notes r, cm_version = co_version r,
      cm_created_at = co_created_at r, cm_updated_at = co_updated_at r, cm_deleted_at = co_deleted_at r,
      cm_deleted_by = co_deleted_by r\<rparr>"

definition map_license_record_to_domain :: "timestamp \<Rightarrow> int \<Rightarrow> license_record \<Rightarrow> company_license" where
  "map_license_record_to_domain now seats_used r =
     \<lparr>cl_company_id = li_company_id r, cl_plan_tier = strip (li_plan_tier r), cl_seat_limit = li_seat_limit r,
      cl_expires_at = li_expires_at r, cl_notes = map_option strip (li_notes r), cl_seats_used = seats_used,
      cl_is_expired = (case li_expires_at r of None \<Rightarrow> False | Some e \<Rightarrow> e \<le> now), cl_updated_at = li_updated_at r\<rparr>"

section \<open>The company service\<close>

text \<open>\<open>re.sub('[^a-z0-9]+', '-', ...)\<close>: a run of other characters becomes one dash.\<close>

definition slug_char :: "char \<Rightarrow> bool" where
  "slug_char c = (let n = (of_char c :: nat) in (97 \<le> n \<and> n \<le> 122) \<or> (48 \<le> n \<and> n \<le> 57))"

fun dashed :: "bool \<Rightarrow> string \<Rightarrow> string" where
  "dashed in_run [] = []"
| "dashed in_run (c # cs) =
     (if slug_char c then c # dashed False cs
      else if in_run then dashed True cs else CHR ''-'' # dashed True cs)"

definition strip_dashes :: "string \<Rightarrow> string" where
  "strip_dashes xs = rev (dropWhile (\<lambda>c. c = CHR ''-'') (rev (dropWhile (\<lambda>c. c = CHR ''-'') xs)))"

definition slugify :: "string \<Rightarrow> string \<Rightarrow> string" where
  "slugify suffix name =
     (let base = strip_dashes (dashed False (lower (strip name))) in
      if base = [] then suffix else base @ ''-'' @ suffix)"

definition authorize_platform :: "identity \<Rightarrow> ('z db_scheme, unit) eff" where
  "authorize_platform ident = and_then (gets clock) (\<lambda>now. auth_call (authorize_platform_admin now ident))"

definition guard_against_self_lockout :: "identity \<Rightarrow> uuid \<Rightarrow> string \<Rightarrow> ('s, unit) eff" where
  "guard_against_self_lockout ident company_id action =
     guard_that (company_id \<noteq> id_company_id ident)
       (Service (ValidationError (Message (''You may not '' @ action @ '' your own company.''))))"

definition record_company_event ::
  "audit_action \<Rightarrow> identity \<Rightarrow> uuid option \<Rightarrow> (string \<times> meta_value) list option \<Rightarrow> ('z db_scheme, unit) eff" where
  "record_company_event action ident company_id metadata =
     and_then (record_event (audit_action_value action) (Some (id_user_id ident)) None metadata company_id) (\<lambda>_. return ())"

definition create_company :: "identity \<Rightarrow> string \<Rightarrow> string \<Rightarrow> ('z company_db_scheme, company) eff" where
  "create_company ident suffix name =
     and_then (authorize_platform ident) (\<lambda>_.
     and_then (db_call (create_company_row name (slugify suffix name))) (\<lambda>created.
     and_then (record_company_event COMPANY_CREATED ident None
        (Some [(''company_id'', MetaId (co_id created)), (''name'', MetaText (co_name created))])) (\<lambda>_.
       pure (map_company_record_to_domain created))))"

definition get_company :: "identity \<Rightarrow> uuid \<Rightarrow> ('z company_db_scheme, company) eff" where
  "get_company ident company_id =
     and_then (authorize_platform ident) (\<lambda>_.
     and_then (db_call (get_company_row company_id)) (\<lambda>record. pure (map_company_record_to_domain record)))"

definition list_companies :: "identity \<Rightarrow> bool \<Rightarrow> page \<Rightarrow> ('z company_db_scheme, company paged_result) eff" where
  "list_companies ident include_deleted p =
     and_then (authorize_platform ident) (\<lambda>_.
     and_then (db_call (list_company_rows include_deleted p)) (\<lambda>result.
     and_then (pure (map_result map_company_record_to_domain (res_items result))) (\<lambda>items.
       return \<lparr>res_items = items, res_page = res_page result, res_page_size = res_page_size result,
               res_total_records = res_total_records result\<rparr>)))"

definition update_company ::
  "identity \<Rightarrow> uuid \<Rightarrow> int \<Rightarrow> string option \<Rightarrow> bool option \<Rightarrow> string option \<Rightarrow> string option \<Rightarrow> ('z company_db_scheme, company) eff" where
  "update_company ident company_id expected_version name is_active contact_email notes =
     and_then (authorize_platform ident) (\<lambda>_.
     and_then (if is_active = Some False then guard_against_self_lockout ident company_id ''suspend'' else return ()) (\<lambda>_.
     and_then (db_call (update_company_row company_id expected_version name is_active contact_email notes)) (\<lambda>updated.
     and_then (case is_active of
                 None \<Rightarrow> return ()
               | Some b \<Rightarrow> record_company_event (if b then COMPANY_REACTIVATED else COMPANY_SUSPENDED) ident (Some company_id) None) (\<lambda>_.
     and_then (if contact_email \<noteq> None \<or> notes \<noteq> None
               then record_company_event COMPANY_SETTINGS_UPDATED ident (Some company_id) None else return ()) (\<lambda>_.
       pure (map_company_record_to_domain updated))))))"

definition soft_delete_company :: "identity \<Rightarrow> uuid \<Rightarrow> int \<Rightarrow> ('z company_db_scheme, company) eff" where
  "soft_delete_company ident company_id expected_version =
     and_then (authorize_platform ident) (\<lambda>_.
     and_then (guard_against_self_lockout ident company_id ''delete'') (\<lambda>_.
     and_then (db_call (soft_delete_company_row company_id expected_version (id_user_id ident))) (\<lambda>deleted.
     and_then (record_company_event COMPANY_DELETED ident (Some company_id) None) (\<lambda>_.
       pure (map_company_record_to_domain deleted)))))"

definition restore_company :: "identity \<Rightarrow> uuid \<Rightarrow> int \<Rightarrow> ('z company_db_scheme, company) eff" where
  "restore_company ident company_id expected_version =
     and_then (authorize_platform ident) (\<lambda>_.
     and_then (db_call (restore_company_row company_id expected_version)) (\<lambda>restored.
     and_then (record_company_event COMPANY_RESTORED ident (Some company_id) None) (\<lambda>_.
       pure (map_company_record_to_domain restored))))"

definition get_license :: "identity \<Rightarrow> uuid \<Rightarrow> ('z company_db_scheme, company_license option) eff" where
  "get_license ident company_id =
     and_then (authorize_platform ident) (\<lambda>_.
     and_then (db_call (get_license_row company_id)) (\<lambda>record. case record of
        None \<Rightarrow> return None
      | Some r \<Rightarrow>
          and_then (db_call (count_for_company company_id)) (\<lambda>seats_used.
          and_then (gets clock) (\<lambda>now. return (Some (map_license_record_to_domain now seats_used r))))))"

definition patched :: "'a option \<Rightarrow> ('b \<Rightarrow> 'a option) \<Rightarrow> 'b option \<Rightarrow> 'a option" where
  "patched given field current = (if given \<noteq> None then given else case current of None \<Rightarrow> None | Some c \<Rightarrow> field c)"

definition update_license ::
  "identity \<Rightarrow> uuid \<Rightarrow> string option \<Rightarrow> int option \<Rightarrow> timestamp option \<Rightarrow> string option \<Rightarrow> ('z company_db_scheme, company_license) eff" where
  "update_license ident company_id plan_tier seat_limit expires_at notes =
     and_then (authorize_platform ident) (\<lambda>_.
     and_then (db_call (and_then (get_license_row company_id) (\<lambda>current.
        and_then (upsert_license company_id
            (or_kept (patched plan_tier (\<lambda>l. Some (li_plan_tier l)) current) ''free'')
            (patched seat_limit li_seat_limit current) (patched expires_at li_expires_at current)
            (patched notes li_notes current) (Some (id_user_id ident))) (\<lambda>updated.
        and_then (count_for_company company_id) (\<lambda>seats_used. return (updated, seats_used)))))) (\<lambda>(updated, seats_used).
     and_then (record_company_event COMPANY_LICENSE_UPDATED ident (Some company_id) None) (\<lambda>_.
     and_then (gets clock) (\<lambda>now. return (map_license_record_to_domain now seats_used updated)))))"

end
