(* ===== verification/Authentication.thy ===== *)
theory Authentication imports Companies Cache Utilities
begin

text \<open>
  Authentication: the bearer token and the claims of \<open>auth/authentication.py\<close>, the verifier of
  \<open>auth/supabase_verifier.py\<close> with its cache of claims, the middleware of \<open>auth/middleware.py\<close>, the decorators
  of \<open>auth/decorators.py\<close> and the password hashes of \<open>auth/password.py\<close>. The provider's \<open>get_user\<close>, the UUID
  and float parsers, the local time zone and PBKDF2 are parameters. Calls of the cache follow one another
  here; threads on it are the subject of \<open>Cache\<close>.
\<close>

section \<open>Claims\<close>

datatype claim_value = ClaimText string | ClaimNumber rat | ClaimBool bool | ClaimNull

type_synonym claims = "(string \<times> claim_value) list"

definition truthy :: "claim_value option \<Rightarrow> bool" where
  "truthy v = (case v of
     Some (ClaimText text) \<Rightarrow> text \<noteq> []
   | Some (ClaimNumber x) \<Rightarrow> x \<noteq> 0
   | Some (ClaimBool b) \<Rightarrow> b
   | _ \<Rightarrow> False)"

text \<open>The standard library and the machine: \<open>UUID(...)\<close> and \<open>str(...)\<close>, \<open>float(...)\<close>, the local offset from UTC.\<close>

record platform =
  pl_parse_uuid :: "string \<Rightarrow> uuid option"
  pl_show_uuid :: "uuid \<Rightarrow> string"
  pl_str :: "claim_value \<Rightarrow> string"
  pl_float :: "string \<Rightarrow> rat option"
  pl_local_offset :: "timestamp \<Rightarrow> int"

definition invalid_token :: "string \<Rightarrow> exn" where
  "invalid_token why = Raised (Auth (InvalidTokenError why))"

definition uuid_claim :: "platform \<Rightarrow> claims \<Rightarrow> string \<Rightarrow> uuid fallible" where
  "uuid_claim pl claims key =
     (case map_of claims key of
        None \<Rightarrow> Inl (invalid_token key)
      | Some v \<Rightarrow> if \<not> truthy (Some v) then Inl (invalid_token key)
                  else (case pl_parse_uuid pl (pl_str pl v) of None \<Rightarrow> Inl (invalid_token key) | Some i \<Rightarrow> Inr i))"

definition role_claim :: "claims \<Rightarrow> user_role fallible" where
  "role_claim claims =
     (case map_of claims ''role'' of
        Some (ClaimText raw) \<Rightarrow> (case user_role_of_value raw of Inl _ \<Rightarrow> Inl (invalid_token ''role'') | Inr r \<Rightarrow> Inr r)
      | _ \<Rightarrow> Inl (invalid_token ''role''))"

text \<open>
  \<open>datetime.fromtimestamp(x, tz=None)\<close>: the local time without a zone, in the years 1 to 9999.
  \<open>ensure_timezone_aware\<close> then takes that reading of the local clock for one of UTC.
\<close>

definition naive_local :: "platform \<Rightarrow> rat \<Rightarrow> timestamp fallible" where
  "naive_local pl x =
     (let t = round_half_even (x * 1000000); local_time = t + pl_local_offset pl t in
      if local_time < -62135596800000000 \<or> 253402300800000000 \<le> local_time
      then Inl (Raised (Py (ValueError ''year is out of range''))) else Inr local_time)"

definition float_of_claim :: "platform \<Rightarrow> claim_value \<Rightarrow> rat fallible" where
  "float_of_claim pl v = (case v of
     ClaimText text \<Rightarrow> (case pl_float pl text of None \<Rightarrow> Inl (Raised (Py (ValueError ''float''))) | Some x \<Rightarrow> Inr x)
   | ClaimNumber x \<Rightarrow> Inr x
   | ClaimBool b \<Rightarrow> Inr (if b then 1 else 0)
   | ClaimNull \<Rightarrow> Inl (Raised (Py (TypeError ''float''))))"

definition expiry_claim :: "platform \<Rightarrow> timestamp \<Rightarrow> claims \<Rightarrow> timestamp option fallible" where
  "expiry_claim pl now claims =
     (case map_of claims ''exp'' of
        None \<Rightarrow> Inr None
      | Some ClaimNull \<Rightarrow> Inr None
      | Some v \<Rightarrow>
          bind_result (float_of_claim pl v) (\<lambda>x.
          bind_result (naive_local pl x) (\<lambda>expires_at.
            if is_past expires_at now then Inl (Raised (Auth (TokenExpiredError expires_at))) else Inr (Some expires_at))))"

definition from_claims :: "platform \<Rightarrow> timestamp \<Rightarrow> claims \<Rightarrow> identity fallible" where
  "from_claims pl now claims =
     bind_result (uuid_claim pl claims ''sub'') (\<lambda>user_id.
     bind_result (role_claim claims) (\<lambda>role.
     bind_result (uuid_claim pl claims ''company_id'') (\<lambda>company_id.
     bind_result (expiry_claim pl now claims) (\<lambda>expires_at.
       Inr \<lparr>id_user_id = user_id, id_role = role, id_company_id = company_id,
            id_is_platform_admin = truthy (map_of claims ''is_platform_admin''), id_expires_at = expires_at\<rparr>))))"

section \<open>The bearer token\<close>

definition AUTHORIZATION_HEADER_NAME :: string where "AUTHORIZATION_HEADER_NAME = ''Authorization''"

definition BEARER_AUTH_SCHEME :: string where "BEARER_AUTH_SCHEME = ''Bearer''"

definition extract_bearer_token :: "string option \<Rightarrow> string fallible" where
  "extract_bearer_token header_value =
     (case header_value of
        None \<Rightarrow> Inl (Raised (Auth MissingCredentialsError))
      | Some header \<Rightarrow>
          if strip header = [] then Inl (Raised (Auth MissingCredentialsError))
          else let scheme = takeWhile (\<lambda>c. \<not> is_space c) (strip header);
                   token = dropWhile is_space (dropWhile (\<lambda>c. \<not> is_space c) (strip header)) in
            if token = [] then Inl (Raised (Auth (MalformedAuthorizationHeaderError header)))
            else if lower scheme \<noteq> lower BEARER_AUTH_SCHEME then Inl (Raised (Auth (MalformedAuthorizationHeaderError header)))
            else Inr token)"

section \<open>The verifier\<close>

text \<open>\<open>d_claims\<close> is the store of the verifier's \<open>TTLCache\<close>, by token.\<close>

record auth_db = company_db +
  d_claims :: "string \<Rightarrow> (timestamp \<times> claims) option"

definition CLAIMS_CACHE_TTL :: int where "CLAIMS_CACHE_TTL = 15000000"

definition claims_of :: "platform \<Rightarrow> string option \<Rightarrow> profile_record \<Rightarrow> claims" where
  "claims_of pl email p =
     [(''sub'', ClaimText (pl_show_uuid pl (pr_id p))),
      (''email'', case email of None \<Rightarrow> ClaimNull | Some e \<Rightarrow> ClaimText e),
      (''role'', ClaimText (user_role_value (pr_role p))),
      (''company_id'', ClaimText (pl_show_uuid pl (pr_company_id p))),
      (''is_platform_admin'', ClaimBool (pr_is_platform_admin p))]"

text \<open>The provider's answer is the user's id and address, or no user; whatever it raises is a refused token.\<close>

type_synonym 's provider = "string \<Rightarrow> ('s, (string \<times> string option) option) eff"

definition check_profile_access :: "profile_record \<Rightarrow> ('s, unit) eff" where
  "check_profile_access p =
     (if pr_deleted_at p \<noteq> None then throw (Raised (Auth (AccountAccessRevokedError ''erased'')))
      else if \<not> pr_is_active p then throw (Raised (Auth (AccountAccessRevokedError ''deactivated'')))
      else return ())"

definition check_company_access :: "company_record \<Rightarrow> ('s, unit) eff" where
  "check_company_access c =
     (if co_deleted_at c \<noteq> None then throw (Raised (Auth (CompanyAccessRevokedError ''deleted'')))
      else if \<not> co_is_active c then throw (Raised (Auth (CompanyAccessRevokedError ''suspended'')))
      else return ())"

definition claims_of_user :: "platform \<Rightarrow> uuid \<Rightarrow> string option \<Rightarrow> ('z company_db_scheme, claims) eff" where
  "claims_of_user pl user_id email =
     and_then (catching is_record_not_found (\<lambda>_. invalid_token ''not provisioned'') (get_profile_row user_id)) (\<lambda>p.
     and_then (check_profile_access p) (\<lambda>_.
     and_then (get_company_row (pr_company_id p)) (\<lambda>c.
     and_then (check_company_access c) (\<lambda>_.
       return (claims_of pl email p)))))"

definition claims_of_answer :: "platform \<Rightarrow> (string \<times> string option) option \<Rightarrow> ('z company_db_scheme, claims) eff" where
  "claims_of_answer pl user =
     (case user of
        None \<Rightarrow> throw (invalid_token ''no user'')
      | Some (raw_id, email) \<Rightarrow>
          (case pl_parse_uuid pl raw_id of
             None \<Rightarrow> throw (Raised (Py (ValueError ''badly formed hexadecimal UUID string'')))
           | Some user_id \<Rightarrow> claims_of_user pl user_id email))"

definition resolve_claims_uncached ::
  "platform \<Rightarrow> 'z company_db_scheme provider \<Rightarrow> string \<Rightarrow> ('z company_db_scheme, claims) eff" where
  "resolve_claims_uncached pl get_user token =
     and_then (catching (\<lambda>_. True) (\<lambda>_. invalid_token ''verification'') (get_user token)) (claims_of_answer pl)"

text \<open>\<open>TTLCache.get_or_compute\<close> as one call: a live entry is the answer, and only a value that was computed is stored.\<close>

definition cached_claims :: "int \<Rightarrow> string \<Rightarrow> ('z auth_db_scheme, claims) eff \<Rightarrow> ('z auth_db_scheme, claims) eff" where
  "cached_claims ttl token compute =
     (if ttl \<le> 0 then compute
      else and_then (gets (\<lambda>s. live_entry (clock s) (d_claims s token))) (\<lambda>hit. case hit of
        Some c \<Rightarrow> return c
      | None \<Rightarrow>
          and_then compute (\<lambda>c.
          and_then (modify (\<lambda>s. s\<lparr>d_claims := (d_claims s)(token := Some (clock s + ttl, c))\<rparr>)) (\<lambda>_. return c))))"

definition resolve_claims :: "platform \<Rightarrow> 'z auth_db_scheme provider \<Rightarrow> string \<Rightarrow> ('z auth_db_scheme, claims) eff" where
  "resolve_claims pl get_user token = cached_claims CLAIMS_CACHE_TTL token (resolve_claims_uncached pl get_user token)"

section \<open>The middleware\<close>

record request_context =
  rc_headers :: "(string \<times> string) list"
  rc_identity :: "identity option"

type_synonym 's middleware = "request_context \<Rightarrow> ('s, request_context) eff"

definition process_authentication :: "platform \<Rightarrow> (string \<Rightarrow> ('z db_scheme, claims) eff) \<Rightarrow> 'z db_scheme middleware" where
  "process_authentication pl claims_resolver ctx =
     and_then (pure (extract_bearer_token (map_of (rc_headers ctx) AUTHORIZATION_HEADER_NAME))) (\<lambda>token.
     and_then (claims_resolver token) (\<lambda>claims.
     and_then (gets clock) (\<lambda>now.
     and_then (pure (from_claims pl now claims)) (\<lambda>ident.
       return (ctx\<lparr>rc_identity := Some ident\<rparr>)))))"

definition process_authorization :: "permission \<Rightarrow> 'z db_scheme middleware" where
  "process_authorization required_permission ctx =
     (case rc_identity ctx of
        None \<Rightarrow> throw (Raised (Auth MissingCredentialsError))
      | Some ident \<Rightarrow>
          and_then (gets clock) (\<lambda>now.
          and_then (pure (authorize_permission now ident required_permission)) (\<lambda>_. return ctx)))"

fun run_pipeline :: "'s middleware list \<Rightarrow> 's middleware" where
  "run_pipeline [] ctx = return ctx"
| "run_pipeline (m # ms) ctx = and_then (m ctx) (run_pipeline ms)"

definition get_current_identity :: "platform \<Rightarrow> 'z auth_db_scheme provider \<Rightarrow> (string \<times> string) list \<Rightarrow> ('z auth_db_scheme, identity) eff" where
  "get_current_identity pl get_user headers =
     and_then (process_authentication pl (resolve_claims pl get_user) \<lparr>rc_headers = headers, rc_identity = None\<rparr>) (\<lambda>ctx.
       case rc_identity ctx of None \<Rightarrow> throw (Raised (Py AssertionError)) | Some ident \<Rightarrow> return ident)"

section \<open>The decorators\<close>

definition resolve_identity_or_raise :: "('a \<Rightarrow> ('z db_scheme, identity option) eff) \<Rightarrow> 'a \<Rightarrow> ('z db_scheme, identity) eff" where
  "resolve_identity_or_raise identity_getter args =
     and_then (identity_getter args) (\<lambda>ident. case ident of
        None \<Rightarrow> throw (Raised (Auth MissingCredentialsError))
      | Some i \<Rightarrow> and_then (gets clock) (\<lambda>now.
          if is_expired now i then throw (Raised (Auth SessionExpiredError)) else return i))"

definition require_authentication ::
  "('a \<Rightarrow> ('z db_scheme, identity option) eff) \<Rightarrow> ('a \<Rightarrow> ('z db_scheme, 'b) eff) \<Rightarrow> 'a \<Rightarrow> ('z db_scheme, 'b) eff" where
  "require_authentication identity_getter func args =
     and_then (resolve_identity_or_raise identity_getter args) (\<lambda>_. func args)"

definition require_permission_decorator ::
  "permission \<Rightarrow> ('a \<Rightarrow> ('z db_scheme, identity option) eff) \<Rightarrow> ('a \<Rightarrow> ('z db_scheme, 'b) eff) \<Rightarrow> 'a \<Rightarrow> ('z db_scheme, 'b) eff" where
  "require_permission_decorator permission identity_getter func args =
     and_then (resolve_identity_or_raise identity_getter args) (\<lambda>ident.
     and_then (gets clock) (\<lambda>now.
     and_then (pure (authorize_permission now ident permission)) (\<lambda>_. func args)))"

definition require_role_decorator ::
  "user_role list \<Rightarrow> ('a \<Rightarrow> ('z db_scheme, identity option) eff) \<Rightarrow> ('a \<Rightarrow> ('z db_scheme, 'b) eff) \<Rightarrow> 'a \<Rightarrow> ('z db_scheme, 'b) eff" where
  "require_role_decorator allowed_roles identity_getter func args =
     and_then (resolve_identity_or_raise identity_getter args) (\<lambda>ident.
     and_then (gets clock) (\<lambda>now.
     and_then (pure (authorize_role now ident allowed_roles)) (\<lambda>_. func args)))"

section \<open>Passwords\<close>

text \<open>
  Bytes are numbers below 256. \<open>bytes.hex\<close> and \<open>bytes.fromhex\<close>, which skips space between two bytes, are
  written out; \<open>str(n)\<close> is that of a natural number; PBKDF2 is a parameter that refuses a count below one.
\<close>

type_synonym bytes = "nat list"

type_synonym key_derivation = "string \<Rightarrow> bytes \<Rightarrow> int \<Rightarrow> bytes"

definition PBKDF2_ITERATIONS :: int where "PBKDF2_ITERATIONS = 600000"

definition hash_label :: string where "hash_label = ''pbkdf2_sha256''"

definition byte_digit :: "nat \<Rightarrow> char" where
  "byte_digit d = char_of (if d < 10 then 48 + d else 87 + d)"

fun hex :: "bytes \<Rightarrow> string" where
  "hex [] = []"
| "hex (b # bs) = byte_digit (b div 16) # byte_digit (b mod 16) # hex bs"

definition byte_value :: "char \<Rightarrow> nat option" where
  "byte_value c = (let n = (of_char c :: nat) in
     if 48 \<le> n \<and> n \<le> 57 then Some (n - 48)
     else if 97 \<le> n \<and> n \<le> 102 then Some (n - 87)
     else if 65 \<le> n \<and> n \<le> 70 then Some (n - 55) else None)"

definition ascii_space :: "char \<Rightarrow> bool" where
  "ascii_space c = (let n = (of_char c :: nat) in (9 \<le> n \<and> n \<le> 13) \<or> n = 32)"

fun fromhex :: "string \<Rightarrow> bytes option" where
  "fromhex [] = Some []"
| "fromhex (c # cs) =
     (if ascii_space c then fromhex cs
      else (case cs of
          [] \<Rightarrow> None
        | d # ds \<Rightarrow> (case (byte_value c, byte_value d, fromhex ds) of
              (Some x, Some y, Some bs) \<Rightarrow> Some ((16 * x + y) # bs)
            | _ \<Rightarrow> None)))"

fun show_positive :: "nat \<Rightarrow> string" where
  "show_positive n = (if n < 10 then [char_of (48 + n)] else show_positive (n div 10) @ [char_of (48 + n mod 10)])"

declare show_positive.simps [simp del]

fun split_on :: "char \<Rightarrow> string \<Rightarrow> string list" where
  "split_on sep [] = [[]]"
| "split_on sep (c # cs) =
     (if c = sep then [] # split_on sep cs
      else (case split_on sep cs of w # ws \<Rightarrow> (c # w) # ws | [] \<Rightarrow> [[c]]))"

definition validate_password_shape :: "string \<Rightarrow> string fallible" where
  "validate_password_shape password =
     (if password = [] then Inl (Raised (Auth (CredentialValidationError ''Password must not be empty.''))) else Inr password)"

text \<open>\<open>salt\<close> is what \<open>secrets.token_bytes(16)\<close> gives.\<close>

definition hash_password :: "key_derivation \<Rightarrow> bytes \<Rightarrow> string \<Rightarrow> string fallible" where
  "hash_password pbkdf2 salt password =
     bind_result (validate_password_shape password) (\<lambda>_.
       Inr (hash_label @ ''$'' @ show_positive (nat PBKDF2_ITERATIONS) @ ''$'' @ hex salt @ ''$'' @
            hex (pbkdf2 password salt PBKDF2_ITERATIONS)))"

definition verify_password :: "key_derivation \<Rightarrow> string \<Rightarrow> string \<Rightarrow> bool fallible" where
  "verify_password pbkdf2 password encoded_hash =
     bind_result (validate_password_shape password) (\<lambda>_.
       case split_on (CHR ''$'') encoded_hash of
         [algorithm, iterations_str, salt_hex, hash_hex] \<Rightarrow>
           if algorithm \<noteq> hash_label then Inr False
           else (case (python_int iterations_str, fromhex salt_hex, fromhex hash_hex) of
               (Some iterations, Some salt, Some expected_key) \<Rightarrow>
                 if iterations < 1 then Inl (Raised (Py (ValueError ''iteration value must be greater than 0.'')))
                 else Inr (pbkdf2 password salt iterations = expected_key)
             | _ \<Rightarrow> Inr False)
       | _ \<Rightarrow> Inr False)"

end
