(* ===== verification/AuthenticationRuns.thy ===== *)
theory AuthenticationRuns imports Authentication Quiet Operations Samples
begin

text \<open>
  What authentication guarantees: the identity of a request is the row of an active profile in an active
  company, a revocation takes effect when the cached claims have run out, and a password verifies against
  its own hash.
\<close>

section \<open>The identity of a row\<close>

definition sane_platform :: "platform \<Rightarrow> bool" where
  "sane_platform pl \<longleftrightarrow> (\<forall>i. pl_show_uuid pl i \<noteq> [] \<and>
     pl_parse_uuid pl (pl_str pl (ClaimText (pl_show_uuid pl i))) = Some i)"

definition identity_of_row :: "profile_record \<Rightarrow> identity" where
  "identity_of_row p = \<lparr>id_user_id = pr_id p, id_role = pr_role p, id_company_id = pr_company_id p,
     id_is_platform_admin = pr_is_platform_admin p, id_expires_at = None\<rparr>"

lemma from_claims_of:
  assumes "sane_platform pl"
  shows "from_claims pl now (claims_of pl email p) = Inr (identity_of_row p)"
  using assms
  by (simp add: from_claims_def claims_of_def uuid_claim_def role_claim_def expiry_claim_def truthy_def sane_platform_def
      bind_result_def user_role_roundtrip identity_of_row_def)

section \<open>The verifier\<close>

definition reading_provider :: "'z auth_db_scheme provider \<Rightarrow> bool" where
  "reading_provider get_user \<longleftrightarrow> (\<forall>token s. \<exists>d \<ge> 0. snd (get_user token s) = s\<lparr>clock := clock s + d\<rparr>)"

definition steady :: "'z auth_db_scheme \<Rightarrow> 'z auth_db_scheme \<Rightarrow> bool" where
  "steady s t \<longleftrightarrow> (\<exists>d ds. 0 \<le> d \<and> t = s\<lparr>clock := clock s + d, net := ds\<rparr>)"

definition admits_row :: "'z company_db_scheme \<Rightarrow> profile_record \<Rightarrow> bool" where
  "admits_row s p \<longleftrightarrow> p \<in> set (t_profiles s) \<and> pr_deleted_at p = None \<and> pr_is_active p \<and>
     (\<exists>c \<in> set (t_companies s). co_id c = pr_company_id p \<and> co_deleted_at c = None \<and> co_is_active c)"

lemma same_data_later:
  fixes s :: "'z auth_db_scheme"
  assumes "0 \<le> d" "same_data (s\<lparr>clock := clock s + d\<rparr>) t"
  shows "steady s t"
  using assms by (auto simp: same_data_def steady_def)

lemma checks_return [simp]:
  "check_profile_access p s = (Inr x, t) \<longleftrightarrow> t = s \<and> pr_deleted_at p = None \<and> pr_is_active p"
  "check_company_access c s = (Inr x, t) \<longleftrightarrow> t = s \<and> co_deleted_at c = None \<and> co_is_active c"
  by (auto simp: check_profile_access_def check_company_access_def eff_simps)

lemma claims_of_user_Inr:
  assumes "claims_of_user pl i email s = (Inr c, t)"
  shows "\<exists>p. admits_row s p \<and> pr_id p = i \<and> c = claims_of pl email p"
proof -
  obtain p u c' v where steps: "get_by_id profile_table i s = (Inr p, u)" "get_by_id company_table (pr_company_id p) u = (Inr c', v)"
      "pr_deleted_at p = None" "pr_is_active p" "co_deleted_at c' = None" "co_is_active c'" "c = claims_of pl email p"
    using assms unfolding claims_of_user_def get_profile_row_def get_company_row_def and_then_eq_Inr catching_eq_Inr
      checks_return return_apply by blast
  from profiles.get_by_id_Inr [OF steps(1)] companies.get_by_id_Inr [OF steps(2)] steps(3-7) show ?thesis
    by (intro exI [of _ p]) (auto simp: admits_row_def)
qed

lemma claims_of_answer_Inr:
  assumes "claims_of_answer pl user s = (Inr c, t)"
  shows "\<exists>raw email p. user = Some (raw, email) \<and> pl_parse_uuid pl raw = Some (pr_id p) \<and> admits_row s p \<and> c = claims_of pl email p"
  using assms
  by (auto simp: claims_of_answer_def eff_simps split: option.splits prod.splits dest!: claims_of_user_Inr)

lemma read_only_answer: "read_only (claims_of_answer pl user)"
  unfolding claims_of_answer_def claims_of_user_def check_profile_access_def check_company_access_def get_profile_row_def
    get_company_row_def
  by (auto intro!: reading split: option.splits prod.splits)

lemma admits_row_later [simp]: "admits_row (s\<lparr>clock := c\<rparr>) p = admits_row s p"
  by (simp add: admits_row_def)

lemma resolve_uncached_run:
  fixes s :: "'z auth_db_scheme"
  assumes gu: "reading_provider get_user" and run: "resolve_claims_uncached pl get_user token s = (r, t)"
  shows "steady s t \<and> (\<forall>c. r = Inr c \<longrightarrow> (\<exists>raw email p. fst (get_user token s) = Inr (Some (raw, email)) \<and>
    pl_parse_uuid pl raw = Some (pr_id p) \<and> admits_row s p \<and> c = claims_of pl email p))"
proof -
  obtain d where d: "0 \<le> d" "snd (get_user token s) = s\<lparr>clock := clock s + d\<rparr>"
    using gu by (auto simp: reading_provider_def)
  show ?thesis
  proof (cases "fst (get_user token s)")
    case (Inl e)
    with d(2) have "get_user token s = (Inl e, s\<lparr>clock := clock s + d\<rparr>)" by (simp add: prod_eq_iff)
    then have "r = Inl (invalid_token ''verification'') \<and> t = s\<lparr>clock := clock s + d\<rparr>"
      using run by (simp add: resolve_claims_uncached_def and_then_def catching_apply)
    with same_data_later [OF d(1) same_data_refl] show ?thesis by simp
  next
    case (Inr user)
    with d(2) have "get_user token s = (Inr user, s\<lparr>clock := clock s + d\<rparr>)" by (simp add: prod_eq_iff)
    then have rest: "claims_of_answer pl user (s\<lparr>clock := clock s + d\<rparr>) = (r, t)"
      using run by (simp add: resolve_claims_uncached_def and_then_def catching_apply)
    from same_data_later [OF d(1) read_onlyD [OF read_only_answer rest]] have "steady s t" .
    with Inr rest show ?thesis by (auto dest!: claims_of_answer_Inr)
  qed
qed

lemma resolve_claims_run:
  fixes s :: "'z auth_db_scheme"
  assumes gu: "reading_provider get_user" and run: "resolve_claims pl get_user token s = (r, t)"
  shows "(\<exists>c. live_entry (clock s) (d_claims s token) = Some c \<and> r = Inr c \<and> t = s) \<or>
    live_entry (clock s) (d_claims s token) = None \<and>
      ((\<exists>e. r = Inl e) \<and> steady s t \<or>
       (\<exists>raw email p u. fst (get_user token s) = Inr (Some (raw, email)) \<and> pl_parse_uuid pl raw = Some (pr_id p) \<and>
          admits_row s p \<and> r = Inr (claims_of pl email p) \<and> steady s u \<and>
          t = u\<lparr>d_claims := (d_claims u)(token := Some (clock u + CLAIMS_CACHE_TTL, claims_of pl email p))\<rparr>))"
proof (cases "live_entry (clock s) (d_claims s token)")
  case (Some c)
  with run show ?thesis by (auto simp: resolve_claims_def cached_claims_def CLAIMS_CACHE_TTL_def and_then_def eff_simps)
next
  case None
  obtain r' u where u: "resolve_claims_uncached pl get_user token s = (r', u)" by fastforce
  note facts = resolve_uncached_run [OF gu u]
  show ?thesis
  proof (cases r')
    case (Inl e)
    with None run u facts show ?thesis
      by (auto simp: resolve_claims_def cached_claims_def CLAIMS_CACHE_TTL_def and_then_def eff_simps)
  next
    case (Inr c)
    with facts obtain raw email p where p: "fst (get_user token s) = Inr (Some (raw, email))"
        "pl_parse_uuid pl raw = Some (pr_id p)" "admits_row s p" "c = claims_of pl email p" "steady s u" by auto
    have "r = Inr c \<and> t = u\<lparr>d_claims := (d_claims u)(token := Some (clock u + CLAIMS_CACHE_TTL, c))\<rparr>"
      using None run u Inr
      by (auto simp: resolve_claims_def cached_claims_def CLAIMS_CACHE_TTL_def and_then_def eff_simps)
    with p(4) have "r = Inr (claims_of pl email p) \<and>
        t = u\<lparr>d_claims := (d_claims u)(token := Some (clock u + CLAIMS_CACHE_TTL, claims_of pl email p))\<rparr>" by simp
    with p(1-3,5) None show ?thesis by blast
  qed
qed

lemma get_current_identity_run:
  assumes "get_current_identity pl get_user headers s = (r, t)"
  shows "(\<exists>e. r = Inl e) \<and> t = s \<or>
    (\<exists>token r'. extract_bearer_token (map_of headers AUTHORIZATION_HEADER_NAME) = Inr token \<and>
       resolve_claims pl get_user token s = (r', t) \<and>
       r = (case r' of Inl e \<Rightarrow> Inl e | Inr c \<Rightarrow> from_claims pl (clock t) c))"
  using assms
  by (auto simp: get_current_identity_def process_authentication_def and_then_def eff_simps split: prod.splits sum.splits)

lemma get_current_identity_Inr:
  assumes "get_current_identity pl get_user headers s = (Inr ident, t)"
  shows "\<exists>token c. extract_bearer_token (map_of headers AUTHORIZATION_HEADER_NAME) = Inr token \<and>
     resolve_claims pl get_user token s = (Inr c, t) \<and> from_claims pl (clock t) c = Inr ident"
  using get_current_identity_run [OF assms] by (fastforce split: sum.split_asm)

text \<open>
  C12. A request whose bearer token has no live cached answer, whatever is cached for other tokens, is
  authenticated only if the provider knows the token; its identity is, field by field, that of the profile
  the provider named: a row of the table that is neither erased nor deactivated, in a company that is neither
  deleted nor suspended. The claims are then kept for fifteen seconds under that token, the other tokens'
  are as they were, and no table has changed. Over any network.
\<close>

theorem authenticated_identity:
  assumes "sane_platform pl" "reading_provider get_user"
    and "extract_bearer_token (map_of headers AUTHORIZATION_HEADER_NAME) = Inr token"
    and "live_entry (clock s) (d_claims s token) = None"
    and "get_current_identity pl get_user headers s = (Inr ident, t)"
  shows "\<exists>raw email p. fst (get_user token s) = Inr (Some (raw, email)) \<and> pl_parse_uuid pl raw = Some (pr_id p) \<and>
    p \<in> set (t_profiles s) \<and> pr_deleted_at p = None \<and> pr_is_active p \<and>
    (\<exists>c \<in> set (t_companies s). co_id c = pr_company_id p \<and> co_deleted_at c = None \<and> co_is_active c) \<and>
    ident = identity_of_row p \<and> clock s \<le> clock t \<and>
    (\<exists>ds. t = s\<lparr>clock := clock t, net := ds,
       d_claims := (d_claims s)(token := Some (clock t + 15000000, claims_of pl email p))\<rparr>)"
proof -
  obtain c where t: "resolve_claims pl get_user token s = (Inr c, t)" "from_claims pl (clock t) c = Inr ident"
    using get_current_identity_Inr [OF assms(5)] assms(3) by auto
  from resolve_claims_run [OF assms(2) t(1)] assms(4) obtain raw email p u where
    p: "fst (get_user token s) = Inr (Some (raw, email))" "pl_parse_uuid pl raw = Some (pr_id p)" "admits_row s p"
      "c = claims_of pl email p" "steady s u"
      "t = u\<lparr>d_claims := (d_claims u)(token := Some (clock u + CLAIMS_CACHE_TTL, c))\<rparr>" by auto
  from p(5) obtain d ds where u: "0 \<le> d" "u = s\<lparr>clock := clock s + d, net := ds\<rparr>" by (auto simp: steady_def)
  have "ident = identity_of_row p" using t(2) p(4) from_claims_of [OF assms(1)] by simp
  with p(1-4,6) u show ?thesis
    by (intro exI [of _ raw] exI [of _ email] exI [of _ p]) (auto simp: admits_row_def CLAIMS_CACHE_TTL_def)
qed

section \<open>Revocation\<close>

definition barred :: "uuid \<Rightarrow> 'z company_db_scheme \<Rightarrow> bool" where
  "barred u s \<longleftrightarrow> (\<forall>p \<in> set (t_profiles s). pr_id p = u \<longrightarrow> pr_deleted_at p \<noteq> None \<or> \<not> pr_is_active p \<or>
     (\<forall>c \<in> set (t_companies s). co_id c = pr_company_id p \<longrightarrow> co_deleted_at c \<noteq> None \<or> \<not> co_is_active c))"

text \<open>What happens after the revocation: authenticated requests, and anything else that lets it stand.\<close>

inductive auth_run :: "platform \<Rightarrow> 'z auth_db_scheme provider \<Rightarrow> uuid \<Rightarrow> 'z auth_db_scheme \<Rightarrow> 'z auth_db_scheme \<Rightarrow> bool"
  for pl get_user u s where
  start: "auth_run pl get_user u s s"
| request: "auth_run pl get_user u s t \<Longrightarrow> auth_run pl get_user u s (snd (get_current_identity pl get_user headers t))"
| other: "auth_run pl get_user u s t \<Longrightarrow> barred u t' \<Longrightarrow> clock t \<le> clock t' \<Longrightarrow> map_le (d_claims t') (d_claims t) \<Longrightarrow>
    auth_run pl get_user u s t'"

definition outlives :: "platform \<Rightarrow> uuid \<Rightarrow> timestamp \<Rightarrow> 'z auth_db_scheme \<Rightarrow> bool" where
  "outlives pl u limit t \<longleftrightarrow> (\<forall>token e c. d_claims t token = Some (e, c) \<longrightarrow>
     e \<le> limit \<or> (\<exists>email p. c = claims_of pl email p \<and> pr_id p \<noteq> u))"

lemma steady_facts:
  assumes "steady s t"
  shows "d_claims t = d_claims s" "barred u t = barred u s" "clock s \<le> clock t"
proof -
  from assms obtain d ds where t: "0 \<le> d" "t = s\<lparr>clock := clock s + d, net := ds\<rparr>" by (auto simp: steady_def)
  then show "d_claims t = d_claims s" "barred u t = barred u s" "clock s \<le> clock t" by (simp_all add: barred_def)
qed

lemma admits_not_barred: "admits_row s p \<Longrightarrow> barred u s \<Longrightarrow> pr_id p \<noteq> u"
  unfolding admits_row_def barred_def by blast

lemma request_keeps:
  fixes s t :: "'z auth_db_scheme"
  assumes gu: "reading_provider get_user" and s: "barred u s" "outlives pl u limit s"
    and run: "get_current_identity pl get_user headers s = (r, t)"
  shows "barred u t \<and> outlives pl u limit t \<and> clock s \<le> clock t"
proof -
  from get_current_identity_run [OF run] consider "t = s"
    | token r' where "resolve_claims pl get_user token s = (r', t)" by blast
  then show ?thesis
  proof cases
    case 1
    with s show ?thesis by simp
  next
    case 2
    from resolve_claims_run [OF gu 2] consider "t = s" | "steady s t"
      | email p w where "admits_row s p" "steady s w"
        "t = w\<lparr>d_claims := (d_claims w)(token := Some (clock w + CLAIMS_CACHE_TTL, claims_of pl email p))\<rparr>" by blast
    then show ?thesis
    proof cases
      case 3
      from admits_not_barred [OF 3(1) s(1)] steady_facts [OF 3(2)] s show ?thesis
        by (auto simp: 3(3) outlives_def barred_def)
    next
      case 2
      from steady_facts [OF this] s show ?thesis by (simp add: outlives_def)
    qed (use s in simp)
  qed
qed

lemma map_le_entry: "map_le m m' \<Longrightarrow> m k = Some x \<Longrightarrow> m' k = Some x"
  by (auto simp: map_le_def dom_def)

lemma auth_run_keeps:
  assumes "auth_run pl get_user u s t" "reading_provider get_user" "barred u s" "outlives pl u limit s"
  shows "barred u t \<and> outlives pl u limit t \<and> clock s \<le> clock t"
  using assms
proof (induction)
  case (request t headers)
  from request_keeps [OF request.prems(1), of u t pl limit headers "fst (get_current_identity pl get_user headers t)"
      "snd (get_current_identity pl get_user headers t)"] request.IH [OF request.prems] show ?case by simp
next
  case (other t t')
  then have "map_le (d_claims t') (d_claims t)" "outlives pl u limit t" by simp_all
  then have "outlives pl u limit t'" unfolding outlives_def using map_le_entry by metis
  with other show ?case by simp
qed (auto simp: outlives_def)

text \<open>
  The states a server gets into: it starts with an empty cache, serves requests, and anything else may change
  the tables, move the clock on and drop cached claims, but caches none.
\<close>

inductive served :: "platform \<Rightarrow> 'z auth_db_scheme provider \<Rightarrow> 'z auth_db_scheme \<Rightarrow> bool" for pl get_user where
  boot: "d_claims s = (\<lambda>_. None) \<Longrightarrow> served pl get_user s"
| request: "served pl get_user s \<Longrightarrow> served pl get_user (snd (get_current_identity pl get_user headers s))"
| change: "served pl get_user s \<Longrightarrow> clock s \<le> clock t \<Longrightarrow> map_le (d_claims t) (d_claims s) \<Longrightarrow> served pl get_user t"

definition claims_end :: "'z auth_db_scheme \<Rightarrow> bool" where
  "claims_end s \<longleftrightarrow> (\<forall>token e c. d_claims s token = Some (e, c) \<longrightarrow> e \<le> clock s + CLAIMS_CACHE_TTL)"

lemma request_claims_end:
  fixes s t :: "'z auth_db_scheme"
  assumes gu: "reading_provider get_user" and s: "claims_end s"
    and run: "get_current_identity pl get_user headers s = (r, t)"
  shows "claims_end t"
proof -
  from get_current_identity_run [OF run] consider "t = s"
    | token r' where "resolve_claims pl get_user token s = (r', t)" by blast
  then show ?thesis
  proof cases
    case 2
    from resolve_claims_run [OF gu 2] consider "t = s" | "steady s t"
      | token c w where "steady s w" "t = w\<lparr>d_claims := (d_claims w)(token := Some (clock w + CLAIMS_CACHE_TTL, c))\<rparr>" by blast
    then show ?thesis
    proof cases
      case 2
      from steady_facts [OF this] s show ?thesis unfolding claims_end_def by (smt (verit))
    next
      case 3
      from steady_facts [OF 3(1)] s show ?thesis unfolding claims_end_def 3(2) by (auto split: if_splits) (smt (verit))
    qed (use s in simp)
  qed (use s in simp)
qed

lemma served_claims_end:
  assumes "served pl get_user s" "reading_provider get_user"
  shows "claims_end s"
  using assms
proof (induction)
  case (request s headers)
  then show ?case using request_claims_end [of get_user s pl headers] by (metis prod.collapse)
next
  case (change s t)
  then have "claims_end s" by simp
  with change show ?case unfolding claims_end_def by (meson add_right_mono map_le_entry order_trans)
qed (simp add: claims_end_def)

text \<open>
  C11. A server that started with an empty cache has served any requests and undergone any changes when a user
  is erased or deactivated, or the company is deleted or suspended. As long as that stands, the claims that are
  cached are the only way in, and it closes within fifteen seconds: no request after that is authenticated as the
  user, whatever other requests and changes come in between and over any network.
\<close>

theorem revocation_within_ttl:
  assumes "sane_platform pl" "reading_provider get_user"
    and "served pl get_user s" "barred u s"
    and "auth_run pl get_user u s t" "clock s + 15000000 \<le> clock t"
    and "get_current_identity pl get_user headers t = (Inr ident, v)"
  shows "id_user_id ident \<noteq> u"
proof -
  let ?limit = "clock s + 15000000"
  have "outlives pl u ?limit s"
    using served_claims_end [OF assms(3,2)] by (auto simp: outlives_def claims_end_def CLAIMS_CACHE_TTL_def)
  note t = auth_run_keeps [OF assms(5,2,4) this]
  obtain token c where c: "resolve_claims pl get_user token t = (Inr c, v)" "from_claims pl (clock v) c = Inr ident"
    using get_current_identity_Inr [OF assms(7)] by blast
  have "\<exists>email p. c = claims_of pl email p \<and> pr_id p \<noteq> u"
    using resolve_claims_run [OF assms(2) c(1)]
  proof (elim disjE conjE exE)
    fix c' assume hit: "live_entry (clock t) (d_claims t token) = Some c'" "Inr c = (Inr c' :: exn + claims)"
    then obtain e where "d_claims t token = Some (e, c)" "clock t < e"
      by (auto simp: live_entry_def split: option.splits prod.splits if_splits)
    with t assms(6) show ?thesis unfolding outlives_def by (meson leD order_trans)
  next
    fix raw email p w assume row: "admits_row t p" "Inr c = (Inr (claims_of pl email p) :: exn + claims)"
    then have "pr_id p \<noteq> u" using admits_not_barred t by blast
    with row(2) show ?thesis by blast
  qed simp_all
  with c(2) from_claims_of [OF assms(1)] show ?thesis by (auto simp: identity_of_row_def)
qed

section \<open>A company and its provider\<close>

definition sample_platform :: platform where
  "sample_platform = \<lparr>pl_parse_uuid = (\<lambda>text. if text = [] then None else Some (length text - 1)),
     pl_show_uuid = (\<lambda>i. replicate (Suc i) (CHR ''u'')), pl_str = (\<lambda>v. case v of ClaimText t \<Rightarrow> t | _ \<Rightarrow> ''1''),
     pl_float = (\<lambda>_. None), pl_local_offset = (\<lambda>_. 0)\<rparr>"

definition sample_provider :: "'z auth_db_scheme provider" where
  "sample_provider token =
     (if token = ''t3'' then return (Some (''uuuu'', None)) else throw (Raised (Message ''invalid JWT'')))"

definition sample_company :: "uuid \<Rightarrow> bool \<Rightarrow> company_record" where
  "sample_company i active = \<lparr>co_id = i, co_name = ''Acme'', co_slug = ''acme'', co_is_active = active, co_contact_email = None,
     co_notes = None, co_version = 1, co_created_at = 0, co_updated_at = 0, co_deleted_at = None, co_deleted_by = None\<rparr>"

definition guarded_db :: "bool \<Rightarrow> auth_db" where
  "guarded_db active = \<lparr>t_profiles = t_profiles (sample_db []), t_definitions = [], t_requests = [], t_stages = [],
     t_audit = [], t_notifications = [], t_preferences = [], next_uuid = 1000, clock = 5, net = [], t_jobs = [],
     t_invitations = [], t_companies = [sample_company 7 active], t_licenses = [], d_claims = (\<lambda>_. None)\<rparr>"

lemma sane_sample_platform: "sane_platform sample_platform"
  by (simp add: sane_platform_def sample_platform_def)

lemma reading_sample_provider: "reading_provider sample_provider"
  by (auto simp: reading_provider_def sample_provider_def eff_simps intro: exI [of _ "0 :: int"])

lemma auth_claims_other: "t = s\<lparr>clock := c, net := ds, d_claims := (d_claims s)(k := x)\<rparr> \<Longrightarrow> k' \<noteq> k \<Longrightarrow> d_claims t k' = d_claims s k'"
  by simp

definition two_users :: "auth_db provider" where
  "two_users token = (if token = ''t3'' then return (Some (''uuuu'', None)) else return (Some (''uuu'', None)))"

lemma reading_two_users: "reading_provider two_users"
  by (auto simp: reading_provider_def two_users_def eff_simps intro: exI [of _ "0 :: int"])

text \<open>User 2's claims are cached when user 3 comes.\<close>

definition user_2_cached :: auth_db where
  "user_2_cached = snd (get_current_identity sample_platform two_users [(''Authorization'', ''Bearer t2'')] (guarded_db True))"

lemma user_2_cached:
  "live_entry (clock user_2_cached) (d_claims user_2_cached ''t2'') \<noteq> None"
  "live_entry (clock user_2_cached) (d_claims user_2_cached ''t3'') = None"
  "extract_bearer_token (map_of [(''Authorization'', ''bearer  t3'')] AUTHORIZATION_HEADER_NAME) = Inr ''t3''"
  "is_ok (fst (get_current_identity sample_platform two_users [(''Authorization'', ''bearer  t3'')] user_2_cached))"
  "t_profiles user_2_cached = t_profiles (sample_db [])"
  by code_simp+

theorem authenticated_identity_witness:
  "\<exists>ident t. get_current_identity sample_platform two_users [(''Authorization'', ''bearer  t3'')] user_2_cached = (Inr ident, t) \<and>
     live_entry (clock user_2_cached) (d_claims user_2_cached ''t2'') \<noteq> None \<and> d_claims t ''t2'' = d_claims user_2_cached ''t2'' \<and>
     (\<exists>p \<in> set (t_profiles (sample_db [])). pr_id p = 3 \<and> ident = identity_of_row p)"
proof -
  obtain ident t where run: "get_current_identity sample_platform two_users [(''Authorization'', ''bearer  t3'')]
      user_2_cached = (Inr ident, t)"
    using is_ok_run [OF user_2_cached(4)] by blast
  from authenticated_identity [OF sane_sample_platform reading_two_users user_2_cached(3,2) run] obtain email p ds where
    p: "fst (two_users ''t3'' user_2_cached) = Inr (Some (''uuuu'', email))" "pl_parse_uuid sample_platform ''uuuu'' = Some (pr_id p)"
      "p \<in> set (t_profiles user_2_cached)" "ident = identity_of_row p"
      "t = user_2_cached\<lparr>clock := clock t, net := ds,
        d_claims := (d_claims user_2_cached)(''t3'' := Some (clock t + 15000000, claims_of sample_platform email p))\<rparr>"
    by (auto simp: two_users_def eff_simps)
  have "d_claims t ''t2'' = d_claims user_2_cached ''t2''" by (rule auth_claims_other [OF p(5)]) simp
  moreover have "pr_id p = 3" using p(2) by (simp add: sample_platform_def)
  moreover have "p \<in> set (t_profiles (sample_db []))" using p(3) unfolding user_2_cached(5) .
  ultimately show ?thesis using run p(4) user_2_cached(1) by blast
qed

text \<open>User 3 enters at the instant 5; then the company is suspended, and at the instant 9 the cached claims still let the user in.\<close>

definition cached_user :: auth_db where
  "cached_user = (snd (get_current_identity sample_platform two_users [(''Authorization'', ''Bearer t3'')] (guarded_db True)))
     \<lparr>t_companies := [sample_company 7 False]\<rparr>"

lemma suspended_but_cached:
  "is_ok (fst (get_current_identity sample_platform two_users [(''Authorization'', ''Bearer t3'')] (cached_user\<lparr>clock := 9\<rparr>)))"
  "clock cached_user = 5" "t_profiles cached_user = t_profiles (sample_db [])" "t_companies cached_user = [sample_company 7 False]"
  by code_simp+

definition other_company_user :: auth_db where
  "other_company_user = cached_user\<lparr>clock := 15000005,
     t_profiles := map (\<lambda>p. if pr_id p = 3 then p else p\<lparr>pr_company_id := 8\<rparr>) (t_profiles cached_user),
     t_companies := [sample_company 7 False, sample_company 8 True]\<rparr>"

lemma other_user_enters:
  "is_ok (fst (get_current_identity sample_platform two_users [(''Authorization'', ''Bearer t2'')] other_company_user))"
  by code_simp

theorem revocation_within_ttl_witness:
  "\<exists>ident v. get_current_identity sample_platform two_users [(''Authorization'', ''Bearer t2'')] other_company_user = (Inr ident, v) \<and>
     id_user_id ident \<noteq> 3"
proof -
  obtain ident v where run: "get_current_identity sample_platform two_users [(''Authorization'', ''Bearer t2'')]
      other_company_user = (Inr ident, v)"
    using is_ok_run [OF other_user_enters] by blast
  have barred: "barred 3 cached_user" "barred 3 other_company_user"
    by (auto simp: barred_def other_company_user_def suspended_but_cached(3,4) sample_company_def sample_db_def sample_person_def)
  have served: "served sample_platform two_users cached_user"
    unfolding cached_user_def
    by (rule served.change [OF served.request [OF served.boot [of "guarded_db True"], where headers = "[(''Authorization'', ''Bearer t3'')]"]])
      (simp_all add: guarded_db_def)
  have "auth_run sample_platform two_users 3 cached_user other_company_user"
    by (rule auth_run.other [OF auth_run.start barred(2)]) (simp_all add: other_company_user_def suspended_but_cached(2))
  from revocation_within_ttl [OF sane_sample_platform reading_two_users served barred(1) this _ run] run show ?thesis
    by (simp add: other_company_user_def suspended_but_cached(2))
qed

section \<open>The expiry claim\<close>

text \<open>
  The expiry is read off the server's local clock and taken for one of UTC: east of Greenwich a token is
  accepted for as long after its end as the offset is wide.
\<close>

lemma expiry_shifted_by_offset:
  assumes "map_of claims ''exp'' = Some (ClaimNumber x)" "from_claims pl now claims = Inr ident"
  shows "id_expires_at ident = Some (round_half_even (x * 1000000) + pl_local_offset pl (round_half_even (x * 1000000))) \<and>
    now \<le> round_half_even (x * 1000000) + pl_local_offset pl (round_half_even (x * 1000000))"
  using assms
  by (auto simp: from_claims_def expiry_claim_def float_of_claim_def naive_local_def is_past_def bind_result_def Let_def
      split: sum.splits option.splits if_splits claim_value.splits)

section \<open>Passwords\<close>

lemma byte_digit_code: "d < 16 \<Longrightarrow> (of_char (byte_digit d) :: nat) = (if d < 10 then 48 + d else 87 + d)"
  by (auto simp: byte_digit_def)

lemma byte_value_digit: "d < 16 \<Longrightarrow> byte_value (byte_digit d) = Some d"
  by (simp add: byte_value_def byte_digit_code Let_def)

lemma byte_digit_plain:
  assumes "d < 16"
  shows "\<not> ascii_space (byte_digit d) \<and> byte_digit d \<noteq> CHR ''$''"
proof
  show "\<not> ascii_space (byte_digit d)" using assms by (simp add: ascii_space_def byte_digit_code Let_def)
  show "byte_digit d \<noteq> CHR ''$''"
  proof
    assume "byte_digit d = CHR ''$''"
    then have "(of_char (byte_digit d) :: nat) = of_char (CHR ''$'')" by simp
    with byte_digit_code [OF assms] show False by (simp split: if_splits)
  qed
qed

lemma fromhex_hex: "\<forall>b \<in> set bs. b < 256 \<Longrightarrow> fromhex (hex bs) = Some bs"
proof (induction bs)
  case (Cons b bs)
  then have "b div 16 < 16" "b mod 16 < 16" by auto
  with Cons byte_digit_plain show ?case by (simp add: byte_value_digit)
qed simp

lemma hex_plain: "\<forall>b \<in> set bs. b < 256 \<Longrightarrow> CHR ''$'' \<notin> set (hex bs)"
proof (induction bs)
  case (Cons b bs)
  then have "b div 16 < 16" "b mod 16 < 16" by auto
  with byte_digit_plain [of "b div 16"] byte_digit_plain [of "b mod 16"] Cons show ?case by auto
qed simp

lemma split_on_plain: "sep \<notin> set w \<Longrightarrow> split_on sep w = [w]"
  by (induction w) auto

lemma split_on_append: "sep \<notin> set w \<Longrightarrow> split_on sep (w @ sep # rest) = w # split_on sep rest"
  by (induction w) auto

lemma iterations_text:
  "python_int (show_positive (nat PBKDF2_ITERATIONS)) = Some PBKDF2_ITERATIONS"
  "CHR ''$'' \<notin> set (show_positive (nat PBKDF2_ITERATIONS))" "CHR ''$'' \<notin> set hash_label"
proof -
  have "show_positive (nat PBKDF2_ITERATIONS) = ''600000''"
    by (simp add: show_positive.simps PBKDF2_ITERATIONS_def) code_simp
  moreover have "python_int ''600000'' = Some PBKDF2_ITERATIONS" by code_simp
  ultimately show "python_int (show_positive (nat PBKDF2_ITERATIONS)) = Some PBKDF2_ITERATIONS"
    "CHR ''$'' \<notin> set (show_positive (nat PBKDF2_ITERATIONS))" by simp_all
  show "CHR ''$'' \<notin> set hash_label" by (simp add: hash_label_def)
qed

text \<open>
  C20. A password verifies against the hash made from it, whatever the salt, and another password verifies
  exactly when the key derivation gives both the same key.
\<close>

theorem password_roundtrip:
  assumes "\<And>pw s n. \<forall>b \<in> set (pbkdf2 pw s n). b < 256" "\<forall>b \<in> set salt. b < 256"
    and "hash_password pbkdf2 salt password = Inr encoded" "candidate \<noteq> []"
  shows "verify_password pbkdf2 candidate encoded =
    Inr (candidate = password \<or> pbkdf2 candidate salt PBKDF2_ITERATIONS = pbkdf2 password salt PBKDF2_ITERATIONS)"
proof -
  have encoded: "encoded = hash_label @ CHR ''$'' # show_positive (nat PBKDF2_ITERATIONS) @ CHR ''$'' # hex salt @ CHR ''$'' #
      hex (pbkdf2 password salt PBKDF2_ITERATIONS)"
    using assms(3) by (auto simp: hash_password_def validate_password_shape_def bind_result_def split: if_splits)
  have "split_on (CHR ''$'') encoded =
      [hash_label, show_positive (nat PBKDF2_ITERATIONS), hex salt, hex (pbkdf2 password salt PBKDF2_ITERATIONS)]"
    unfolding encoded
    by (simp add: split_on_append split_on_plain iterations_text hex_plain assms(1,2))
  then show ?thesis
    using assms(4) iterations_text(1) fromhex_hex [OF assms(2)] fromhex_hex [OF assms(1)]
    by (auto simp: verify_password_def validate_password_shape_def bind_result_def PBKDF2_ITERATIONS_def)
qed

definition toy_derivation :: key_derivation where
  "toy_derivation pw salt n = map (\<lambda>b. b mod 256) (map of_char pw @ salt)"

theorem password_roundtrip_witness:
  "\<exists>encoded. hash_password toy_derivation [1, 200] ''secret'' = Inr encoded \<and>
     verify_password toy_derivation ''secret'' encoded = Inr True \<and> verify_password toy_derivation ''secreu'' encoded = Inr False"
proof -
  have bytes: "\<forall>b \<in> set (toy_derivation pw s n). b < 256" for pw s n by (auto simp: toy_derivation_def)
  obtain encoded where e: "hash_password toy_derivation [1, 200] ''secret'' = Inr encoded"
    by (simp add: hash_password_def validate_password_shape_def bind_result_def)
  have "\<forall>b \<in> set [1, 200 :: nat]. b < 256" by simp
  note r = password_roundtrip [OF bytes this e]
  have "toy_derivation ''secreu'' [1, 200] PBKDF2_ITERATIONS \<noteq> toy_derivation ''secret'' [1, 200] PBKDF2_ITERATIONS"
    by code_simp
  with r [of "''secret''"] r [of "''secreu''"] e show ?thesis by simp
qed

text \<open>A stored hash with the count zero is not a failed verification but an exception.\<close>

lemma zero_iterations_raise:
  "verify_password pbkdf2 ''secret'' ''pbkdf2_sha256$0$00$00'' =
     Inl (Raised (Py (ValueError ''iteration value must be greater than 0.'')))"
proof -
  have "split_on (CHR ''$'') ''pbkdf2_sha256$0$00$00'' = [hash_label, ''0'', ''00'', ''00'']" "python_int ''0'' = Some 0"
    "fromhex ''00'' = Some [0]" by code_simp+
  then show ?thesis by (simp add: verify_password_def validate_password_shape_def bind_result_def)
qed

end
