(* ===== verification/CompanyRuns.thy ===== *)
theory CompanyRuns imports AuthenticationRuns
begin

text \<open>
  What the user and company services guarantee: a platform administrator cannot lock the own company out, an
  erasure is for good, and what an erasure writes and leaves when it returns and when its last step fails.
\<close>

section \<open>The calls of both services\<close>

datatype account_call =
    UpdateProfile identity uuid int "user_role option" "string option" "bool option"
  | EraseUser identity uuid int
  | CreateCompany identity string string
  | GetCompany identity uuid
  | ListCompanies identity bool page
  | UpdateCompany identity uuid int "string option" "bool option" "string option" "string option"
  | SoftDeleteCompany identity uuid int
  | RestoreCompany identity uuid int
  | GetLicense identity uuid
  | UpdateLicense identity uuid "string option" "int option" "timestamp option" "string option"

fun call_account ::
  "'z company_db_scheme auth_admin \<Rightarrow> (uuid \<Rightarrow> string) \<Rightarrow> account_call \<Rightarrow> ('z company_db_scheme, unit) eff" where
  "call_account A show_uuid (UpdateProfile ident u v role dept active) =
     and_then (update_profile ident u v role dept active) (\<lambda>_. return ())"
| "call_account A show_uuid (EraseUser ident u v) = and_then (erase_user A show_uuid ident u v) (\<lambda>_. return ())"
| "call_account A show_uuid (CreateCompany ident suffix name) = and_then (create_company ident suffix name) (\<lambda>_. return ())"
| "call_account A show_uuid (GetCompany ident c) = and_then (get_company ident c) (\<lambda>_. return ())"
| "call_account A show_uuid (ListCompanies ident deleted p) = and_then (list_companies ident deleted p) (\<lambda>_. return ())"
| "call_account A show_uuid (UpdateCompany ident c v name active email notes) =
     and_then (update_company ident c v name active email notes) (\<lambda>_. return ())"
| "call_account A show_uuid (SoftDeleteCompany ident c v) = and_then (soft_delete_company ident c v) (\<lambda>_. return ())"
| "call_account A show_uuid (RestoreCompany ident c v) = and_then (restore_company ident c v) (\<lambda>_. return ())"
| "call_account A show_uuid (GetLicense ident c) = and_then (get_license ident c) (\<lambda>_. return ())"
| "call_account A show_uuid (UpdateLicense ident c tier seats expires notes) =
     and_then (update_license ident c tier seats expires notes) (\<lambda>_. return ())"

fun caller :: "account_call \<Rightarrow> identity" where
  "caller (UpdateProfile ident _ _ _ _ _) = ident"
| "caller (EraseUser ident _ _) = ident"
| "caller (CreateCompany ident _ _) = ident"
| "caller (GetCompany ident _) = ident"
| "caller (ListCompanies ident _ _) = ident"
| "caller (UpdateCompany ident _ _ _ _ _ _) = ident"
| "caller (SoftDeleteCompany ident _ _) = ident"
| "caller (RestoreCompany ident _ _) = ident"
| "caller (GetLicense ident _) = ident"
| "caller (UpdateLicense ident _ _ _ _ _) = ident"

definition run_account_calls ::
  "'z company_db_scheme auth_admin \<Rightarrow> (uuid \<Rightarrow> string) \<Rightarrow> account_call list \<Rightarrow> 'z company_db_scheme \<Rightarrow> 'z company_db_scheme" where
  "run_account_calls A show_uuid calls s = fold (\<lambda>c s. snd (call_account A show_uuid c s)) calls s"

lemma run_account_calls_keeps:
  assumes "\<And>c. c \<in> set calls \<Longrightarrow> preserves P (call_account A show_uuid c)" "P s"
  shows "P (run_account_calls A show_uuid calls s)"
  using assms
proof (induction calls arbitrary: s)
  case (Cons c cs)
  from Cons.IH [OF Cons.prems(1) preservesD [OF Cons.prems(1) Cons.prems(2)]] show ?case by (simp add: run_account_calls_def)
qed (simp add: run_account_calls_def)

section \<open>Row properties under the writes\<close>

text \<open>The statements that touch neither table keep whatever depends on the two tables alone.\<close>

definition people_only :: "('z company_db_scheme \<Rightarrow> bool) \<Rightarrow> bool" where
  "people_only P \<longleftrightarrow> (\<forall>s t. t_profiles s = t_profiles t \<longrightarrow> t_companies s = t_companies t \<longrightarrow> P s = P t)"

lemma people_onlyD: "people_only P \<Longrightarrow> t_profiles t = t_profiles s \<Longrightarrow> t_companies t = t_companies s \<Longrightarrow> P s \<Longrightarrow> P t"
  unfolding people_only_def by blast

lemma people_only_net:
  fixes P :: "'z company_db_scheme \<Rightarrow> bool"
  assumes P: "people_only P"
  shows "net_stable P"
proof (rule net_stableI)
  fix s :: "'z company_db_scheme" and ds
  show "P (s\<lparr>net := ds\<rparr>) = P s"
    by (rule P [unfolded people_only_def, rule_format, of "s\<lparr>net := ds\<rparr>" s]) simp_all
qed

lemma people_only_reads:
  fixes m :: "('z company_db_scheme, 'a) eff"
  assumes "people_only P" "read_only m"
  shows "preserves P m"
proof (rule preservesI)
  fix s :: "'z company_db_scheme" assume "P s"
  moreover obtain ds where "snd (m s) = s\<lparr>net := ds\<rparr>" using assms(2) by (auto simp: read_only_def same_data_def)
  ultimately show "P (snd (m s))" using people_onlyD [OF assms(1)] by simp
qed

lemma people_only_audit:
  assumes "people_only P"
  shows "preserves P (record_event act au ar am ac)"
  unfolding record_event_def
proof (rule preserves_insert_row [OF people_only_net [OF assms]])
  show "preserves P (insert_stmt audit_table mk)" for mk
  proof (rule preservesI)
    fix s assume s: "P s"
    show "P (snd (insert_stmt audit_table mk s))"
      by (rule people_onlyD [OF assms _ _ s]) (simp_all add: insert_stmt_def Let_def split: option.splits)
  qed
qed

lemma people_only_license:
  assumes "people_only P"
  shows "preserves P (upsert_license c tier seats expires notes by)"
proof -
  have "preserves P (upsert_license_stmt c tier seats expires notes by)"
  proof (rule preservesI)
    fix s assume s: "P s"
    show "P (snd (upsert_license_stmt c tier seats expires notes by s))"
      by (rule people_onlyD [OF assms _ _ s]) (simp_all add: upsert_license_stmt_def Let_def)
  qed
  then show ?thesis
    unfolding upsert_license_def
    by (intro preserves_and_then preserves_execute preserves_single_row people_only_net [OF assms])
qed

definition every_company :: "(company_record \<Rightarrow> bool) \<Rightarrow> 'z company_db_scheme \<Rightarrow> bool" where
  "every_company Q s \<longleftrightarrow> (\<forall>c \<in> set (t_companies s). Q c)"

definition every_profile :: "(profile_record \<Rightarrow> bool) \<Rightarrow> 'z company_db_scheme \<Rightarrow> bool" where
  "every_profile Q s \<longleftrightarrow> (\<forall>p \<in> set (t_profiles s). Q p)"

lemma every_people_only: "people_only (every_company Q)" "people_only (every_profile R)"
  by (simp_all add: people_only_def every_company_def every_profile_def)

lemma every_company_update:
  assumes "\<And>c now. Q c \<Longrightarrow> co_id c = i \<Longrightarrow> Q ((f c)\<lparr>co_version := v + 1, co_updated_at := now\<rparr>)"
  shows "preserves (every_company Q) (update_with_optimistic_lock company_table i v f)"
proof (rule preservesI)
  fix s assume "every_company Q s"
  with companies.update_rows [of i v f s] assms show "every_company Q (snd (update_with_optimistic_lock company_table i v f s))"
    by (auto simp: every_company_def)
qed

lemma every_profile_update:
  assumes "\<And>p now. Q p \<Longrightarrow> pr_id p = i \<Longrightarrow> Q ((f p)\<lparr>pr_version := v + 1, pr_updated_at := now\<rparr>)"
  shows "preserves (every_profile Q) (update_with_optimistic_lock profile_table i v f)"
proof (rule preservesI)
  fix s :: "'z company_db_scheme" assume "every_profile Q s"
  with profiles.update_rows [of i v f s] assms show "every_profile Q (snd (update_with_optimistic_lock profile_table i v f s))"
    by (auto simp: every_profile_def)
qed

text \<open>A write to one of the tables keeps what depends on the other.\<close>

lemma every_company_profile_update:
  "preserves (every_company Q) (update_with_optimistic_lock profile_table i v f :: ('z company_db_scheme, profile_record) eff)"
proof (rule preserves_update_with_optimistic_lock [OF people_only_net [OF every_people_only(1)]])
  show "preserves (every_company Q) (update_stmt profile_table (\<lambda>r. tb_id profile_table r = i \<and> tb_version profile_table r = v)
      (\<lambda>r. tb_set_version profile_table (v + 1) (f r)) :: ('z company_db_scheme, profile_record list) eff)"
    by (rule preservesI) (simp add: update_stmt_def Let_def every_company_def split: option.splits)
qed

lemma every_profile_company_update:
  "preserves (every_profile Q) (update_with_optimistic_lock company_table i v f :: ('z company_db_scheme, company_record) eff)"
proof (rule preserves_update_with_optimistic_lock [OF people_only_net [OF every_people_only(2)]])
  show "preserves (every_profile Q) (update_stmt company_table (\<lambda>r. tb_id company_table r = i \<and> tb_version company_table r = v)
      (\<lambda>r. tb_set_version company_table (v + 1) (f r)) :: ('z company_db_scheme, company_record list) eff)"
    by (rule preservesI) (simp add: update_stmt_def Let_def every_profile_def split: option.splits)
qed

lemma every_company_insert:
  assumes "\<And>i now. Q (mk i now)"
  shows "preserves (every_company Q) (insert_row company_table mk)"
proof (rule preserves_insert_row [OF people_only_net [OF every_people_only(1)]])
  show "preserves (every_company Q) (insert_stmt company_table mk)"
    using assms by (intro preservesI) (auto simp: insert_stmt_def Let_def every_company_def split: option.splits)
qed

lemma every_profile_company_insert: "preserves (every_profile Q) (insert_row company_table mk)"
proof (rule preserves_insert_row [OF people_only_net [OF every_people_only(2)]])
  show "preserves (every_profile Q) (insert_stmt company_table mk)"
    by (intro preservesI) (simp add: insert_stmt_def Let_def every_profile_def split: option.splits)
qed

text \<open>What a call does outside the writes is read-only or an audit entry.\<close>

definition tactful :: "'z company_db_scheme auth_admin \<Rightarrow> bool" where
  "tactful A \<longleftrightarrow> (\<forall>i email s. snd (aa_anonymize_user A i email s) = s \<and>
     (\<forall>x. fst (aa_anonymize_user A i email s) \<noteq> Inl (Raised (Db x))))"

lemma account_reads:
  "read_only (authorize_user_management ident)" "read_only (get_in_tenant ident u)" "read_only (authorize_platform ident)"
  "read_only (guard_against_self_lockout ident c act)" "read_only (get_company ident c)" "read_only (get_license ident c)"
  "read_only (list_companies ident deleted p)" "read_only (get_license_row c)" "read_only (count_for_company c)"
  unfolding authorize_user_management_def get_in_tenant_def authorize_platform_def guard_against_self_lockout_def
    get_company_def get_license_def list_companies_def get_profile_row_def get_company_row_def get_license_row_def
    count_for_company_def count_rows_def list_company_rows_def
  by (auto intro!: reading split: option.splits list.splits)

lemma account_events:
  assumes "people_only P"
  shows "preserves P (record_profile_event act ident u)" "preserves P (record_company_event act ident c m)"
  unfolding record_profile_event_def record_company_event_def
  by (intro pres_flow people_only_audit assms)+

section \<open>The own company\<close>

lemma count_rows_reads: "read_only (count_rows T q)"
  unfolding count_rows_def by (intro reading)

definition open_company :: "uuid \<Rightarrow> company_record \<Rightarrow> bool" where
  "open_company k c \<longleftrightarrow> (co_id c = k \<longrightarrow> co_is_active c \<and> co_deleted_at c = None)"

lemmas keeps_reads = account_reads [THEN people_only_reads [OF every_people_only(1)]]
lemmas keeps_events = account_events [OF every_people_only(1)]

lemma set_if_given_case: "set_if_given put x r = (case x of None \<Rightarrow> r | Some v \<Rightarrow> put v r)"
  by (cases x) simp_all

lemma update_company_keeps:
  assumes "id_company_id ident = k"
  shows "preserves (every_company (open_company k)) (update_company ident i v name active email notes)"
proof (cases "active = Some False")
  case True
  have guarded: "preserves (every_company (open_company k)) (and_then (guard_against_self_lockout ident i ''suspend'') f)"
    if "i \<noteq> k \<Longrightarrow> preserves (every_company (open_company k)) (f ())" for f
    using that assms by (auto simp: preserves_def guard_against_self_lockout_def and_then_def eff_simps)
  show ?thesis
    unfolding update_company_def update_company_row_def
    by (auto simp: True open_company_def set_if_given_case intro!: pres_flow guarded pres_calls keeps_reads keeps_events
        every_company_update split: option.splits)
next
  case False
  show ?thesis
    unfolding update_company_def update_company_row_def
    by (auto simp: False open_company_def set_if_given_case intro!: pres_flow pres_calls keeps_reads keeps_events
        every_company_update split: option.splits)
qed

lemma tactful_keeps: "tactful A \<Longrightarrow> preserves P (aa_anonymize_user A i email)"
  by (simp add: tactful_def preserves_def)

lemmas keeps_pieces = pres_flow pres_calls keeps_reads keeps_events every_company_profile_update
  people_only_license [OF every_people_only(1)]

lemma guarded_deletion:
  assumes "i \<noteq> k \<Longrightarrow> preserves (every_company (open_company k)) (f ())" "id_company_id ident = k"
  shows "preserves (every_company (open_company k)) (and_then (guard_against_self_lockout ident i ''delete'') f)"
  using assms by (auto simp: preserves_def guard_against_self_lockout_def and_then_def eff_simps)

lemma company_writes_keep:
  "preserves (every_company (open_company k)) (restore_company ident i v)"
  "preserves (every_company (open_company k)) (create_company ident suffix name)"
  "preserves (every_company (open_company k)) (update_license ident i tier seats expires info)"
  "preserves (every_company (open_company k)) (update_profile ident u v role dept active)"
  "id_company_id ident = k \<Longrightarrow> preserves (every_company (open_company k)) (soft_delete_company ident i v)"
  "tactful A \<Longrightarrow> preserves (every_company (open_company k)) (erase_user A show_uuid ident u v)"
proof -
  show "preserves (every_company (open_company k)) (restore_company ident i v)"
    unfolding restore_company_def restore_company_row_def
    by (auto simp: open_company_def intro!: keeps_pieces every_company_update)
  show "preserves (every_company (open_company k)) (create_company ident suffix name)"
    unfolding create_company_def create_company_row_def
    by (auto simp: open_company_def intro!: keeps_pieces every_company_insert)
  show "preserves (every_company (open_company k)) (update_license ident i tier seats expires info)"
    unfolding update_license_def by (auto intro!: keeps_pieces split: prod.splits)
  show "preserves (every_company (open_company k)) (update_profile ident u v role dept active)"
    unfolding update_profile_def update_profile_row_def by (auto intro!: keeps_pieces split: option.splits)
  show "preserves (every_company (open_company k)) (soft_delete_company ident i v)" if "id_company_id ident = k"
    unfolding soft_delete_company_def soft_delete_company_row_def
    by (auto simp: open_company_def intro!: keeps_pieces guarded_deletion [OF _ that] every_company_update)
  show "preserves (every_company (open_company k)) (erase_user A show_uuid ident u v)" if "tactful A"
    unfolding erase_user_def erase_profile_def by (auto intro!: keeps_pieces tactful_keeps that split: option.splits)
qed

lemma own_company_call:
  assumes "tactful A" "id_company_id (caller c) = k"
  shows "preserves (every_company (open_company k)) (call_account A show_uuid c)"
  using assms(2)
  by (cases c; simp only: call_account.simps caller.simps)
    (intro preserves_and_then preserves_return keeps_reads update_company_keeps company_writes_keep assms(1); assumption)+

text \<open>
  C13. As long as the calls are those of administrators of one company, no sequence of calls of the user and
  company services suspends or deletes that company, over any network.
\<close>

theorem own_company_survives:
  assumes "tactful A" "\<forall>c \<in> set calls. id_company_id (caller c) = k"
    and "\<forall>c \<in> set (t_companies s). co_id c = k \<longrightarrow> co_is_active c \<and> co_deleted_at c = None"
    and "c \<in> set (t_companies (run_account_calls A show_uuid calls s))" "co_id c = k"
  shows "co_is_active c \<and> co_deleted_at c = None"
proof -
  have "every_company (open_company k) (run_account_calls A show_uuid calls s)"
  proof (rule run_account_calls_keeps)
    show "every_company (open_company k) s" using assms(3) by (simp add: every_company_def open_company_def)
    show "preserves (every_company (open_company k)) (call_account A show_uuid c)" if "c \<in> set calls" for c
      using own_company_call [OF assms(1)] assms(2) that by blast
  qed
  with assms(4,5) show ?thesis by (simp add: every_company_def open_company_def)
qed

section \<open>Erasure is for good\<close>

definition erased_as :: "uuid \<Rightarrow> string \<Rightarrow> profile_record \<Rightarrow> bool" where
  "erased_as u name p \<longleftrightarrow> (pr_id p = u \<longrightarrow> pr_deleted_at p \<noteq> None \<and> pr_full_name p = name)"

lemmas erased_reads = account_reads [THEN people_only_reads [OF every_people_only(2)]]
lemmas erased_pieces = pres_flow pres_calls erased_reads account_events [OF every_people_only(2)] every_profile_company_update
  every_profile_company_insert people_only_license [OF every_people_only(2)]

lemma get_in_tenant_Inr:
  assumes "get_in_tenant ident u s = (Inr p, t)"
  shows "p \<in> set (t_profiles s) \<and> pr_id p = u \<and> pr_company_id p = id_company_id ident"
proof -
  have "get_by_id profile_table u s = (Inr p, t)" "pr_company_id p = id_company_id ident"
    using assms by (auto simp: get_in_tenant_def get_profile_row_def and_then_eq_Inr eff_simps split: if_splits)
  with profiles.get_by_id_Inr [OF this(1)] show ?thesis by auto
qed

lemma erased_not_again:
  fixes f :: "profile_record \<Rightarrow> ('z company_db_scheme, 'a) eff"
  assumes "\<And>p. erased_as u name p \<Longrightarrow> pr_id p = i \<Longrightarrow> preserves (every_profile (erased_as u name)) (f p)"
  shows "preserves (every_profile (erased_as u name)) (and_then (get_in_tenant ident i) f)"
proof (rule preservesI)
  fix s :: "'z company_db_scheme" assume s: "every_profile (erased_as u name) s"
  obtain r t where run: "get_in_tenant ident i s = (r, t)" by fastforce
  have t: "every_profile (erased_as u name) t" using preservesD [OF erased_reads(2) s, of ident i] by (simp add: run)
  show "every_profile (erased_as u name) (snd (and_then (get_in_tenant ident i) f s))"
  proof (cases r)
    case (Inr p)
    with get_in_tenant_Inr [of ident i s p t] run s have "erased_as u name p" "pr_id p = i" by (auto simp: every_profile_def)
    from preservesD [OF assms [OF this] t] run Inr show ?thesis by (simp add: and_then_def)
  qed (simp add: and_then_def run t)
qed

lemma erased_writes_keep:
  "preserves (every_profile (erased_as u name)) (update_profile ident i v role dept active)"
  "preserves (every_profile (erased_as u name)) (update_company ident c v nm active email info)"
  "preserves (every_profile (erased_as u name)) (soft_delete_company ident c v)"
  "preserves (every_profile (erased_as u name)) (restore_company ident c v)"
  "preserves (every_profile (erased_as u name)) (create_company ident suffix title)"
  "preserves (every_profile (erased_as u name)) (update_license ident c tier seats expires info)"
  "tactful A \<Longrightarrow> preserves (every_profile (erased_as u name)) (erase_user A show_uuid ident i v)"
proof -
  show "preserves (every_profile (erased_as u name)) (update_profile ident i v role dept active)"
    unfolding update_profile_def update_profile_row_def
    by (auto simp: erased_as_def set_if_given_case intro!: erased_pieces every_profile_update split: option.splits)
  show "preserves (every_profile (erased_as u name)) (update_company ident c v nm active email info)"
    unfolding update_company_def update_company_row_def by (auto intro!: erased_pieces split: option.splits)
  show "preserves (every_profile (erased_as u name)) (soft_delete_company ident c v)"
    unfolding soft_delete_company_def soft_delete_company_row_def by (auto intro!: erased_pieces)
  show "preserves (every_profile (erased_as u name)) (restore_company ident c v)"
    unfolding restore_company_def restore_company_row_def by (auto intro!: erased_pieces)
  show "preserves (every_profile (erased_as u name)) (create_company ident suffix title)"
    unfolding create_company_def create_company_row_def by (auto intro!: erased_pieces)
  show "preserves (every_profile (erased_as u name)) (update_license ident c tier seats expires info)"
    unfolding update_license_def by (auto intro!: erased_pieces split: prod.splits)
  show "preserves (every_profile (erased_as u name)) (erase_user A show_uuid ident i v)" if A: "tactful A"
  proof -
    have erases: "preserves (every_profile (erased_as u name)) (erase_profile i v deleter title)" if "i \<noteq> u" for deleter title
      unfolding erase_profile_def using that by (auto simp: erased_as_def intro!: erased_pieces every_profile_update)
    show ?thesis
      unfolding erase_user_def
    proof (rule preserves_and_then [OF erased_reads(1)], rule preserves_and_then [OF preserves_guard_that], rule erased_not_again)
      fix p assume p: "erased_as u name p" "pr_id p = i"
      show "preserves (every_profile (erased_as u name)) (if pr_deleted_at p \<noteq> None then return p
          else and_then (aa_anonymize_user A i (anonymized_email show_uuid i)) (\<lambda>_.
            and_then (db_call (erase_profile i v (id_user_id ident) (anonymized_full_name show_uuid i))) (\<lambda>erased.
            and_then (record_profile_event PROFILE_ERASED ident i) (\<lambda>_. return erased))))"
      proof (cases "i = u")
        case True
        with p have "pr_deleted_at p \<noteq> None" by (simp add: erased_as_def)
        then show ?thesis by (simp add: preserves_return)
      qed (auto intro!: erased_pieces erases tactful_keeps A)
    qed
  qed
qed

lemma erased_call:
  assumes "tactful A"
  shows "preserves (every_profile (erased_as u name)) (call_account A show_uuid c)"
  by (cases c; simp only: call_account.simps)
    (intro preserves_and_then preserves_return erased_reads erased_writes_keep assms)+

section \<open>An erasure\<close>

definition erased_row :: "uuid \<Rightarrow> string \<Rightarrow> timestamp \<Rightarrow> profile_record \<Rightarrow> profile_record" where
  "erased_row deleter name now p = p\<lparr>pr_deleted_at := Some now, pr_deleted_by := Some deleter, pr_is_active := False,
     pr_full_name := name, pr_department := None, pr_version := pr_version p + 1, pr_updated_at := now\<rparr>"

definition put_profile :: "profile_record \<Rightarrow> 'z db_scheme \<Rightarrow> 'z db_scheme" where
  "put_profile e s = s\<lparr>t_profiles := map (\<lambda>p. if pr_id p = pr_id e then e else p) (t_profiles s)\<rparr>"

definition erasure_entry :: "identity \<Rightarrow> uuid \<Rightarrow> 'z db_scheme \<Rightarrow> audit_record" where
  "erasure_entry ident u s = \<lparr>au_id = next_uuid s, au_actor_id = Some (id_user_id ident), au_request_id = None,
     au_action = audit_action_value PROFILE_ERASED, au_metadata = Some [(''user_id'', MetaId u)], au_created_at = clock s,
     au_company_id = Some (id_company_id ident)\<rparr>"

lemma erase_profile_lossless:
  fixes s :: "'z company_db_scheme"
  assumes "lossless s" "distinct (map pr_id (t_profiles s))" "p \<in> set (t_profiles s)" "pr_id p = u"
    and "erase_profile u v deleter name s = (r, t)"
  shows "case r of
      Inr e \<Rightarrow> \<exists>ds. set ds \<subseteq> set (net s) \<and> pr_version p = v \<and> e = erased_row deleter name (clock s) p \<and>
        t = (put_profile e s)\<lparr>net := ds\<rparr>
    | Inl e \<Rightarrow> same_data s t"
proof -
  have "update_with_optimistic_lock profile_table u v
      (\<lambda>p. p\<lparr>pr_deleted_at := Some (clock s), pr_deleted_by := Some deleter, pr_is_active := False,
             pr_full_name := name, pr_department := None\<rparr>) s = (r, t)"
    using assms(5) by (simp add: erase_profile_def and_then_def eff_simps)
  moreover have "filter (\<lambda>r. tb_id profile_table r = u) (tb_rows profile_table s) = [p]"
    using distinct_only_row [of profile_table s p] assms(2-4) by (simp add: only_row_def)
  ultimately show ?thesis
    using profiles.locked_unique [OF assms(1)] assms(4)
    by (fastforce simp: erased_row_def put_profile_def split: sum.splits)
qed

lemma erased_event_lossless:
  fixes s :: "'z company_db_scheme"
  assumes "lossless s" "record_profile_event PROFILE_ERASED ident u s = (r, t)"
  shows "case r of
      Inr _ \<Rightarrow> \<exists>ds. set ds \<subseteq> set (net s) \<and>
        t = s\<lparr>t_audit := t_audit s @ [erasure_entry ident u s], next_uuid := Suc (next_uuid s), net := ds\<rparr>
    | Inl e \<Rightarrow> same_data s t"
proof -
  obtain r1 where ins: "insert_row audit_table (\<lambda>new_id now.
       \<lparr>au_id = new_id, au_actor_id = Some (id_user_id ident), au_request_id = None, au_action = audit_action_value PROFILE_ERASED,
        au_metadata = Some [(''user_id'', MetaId u)], au_created_at = now, au_company_id = Some (id_company_id ident)\<rparr>) s = (r1, t)"
    and r: "case r1 of Inl e \<Rightarrow> r = Inl e | Inr _ \<Rightarrow> r = Inr ()"
    using assms(2)
    by (auto simp: record_profile_event_def record_event_def and_then_def eff_simps split: sum.splits prod.splits)
  from audits.insert_lossless [OF assms(1) ins] r show ?thesis
    by (cases r1) (auto simp: erasure_entry_def)
qed

lemma db_call_error: "db_call m s = (Inl e, t) \<Longrightarrow> \<not> is_database_error e"
  by (auto simp: db_call_def catching_apply elim!: is_database_error.elims split: prod.splits sum.splits if_splits)

lemma auth_error_kept: "\<not> is_database_error (translate_auth_error x)"
  by (cases x) simp_all

text \<open>The steps of an erasure: it stops before it writes, or it finds the row and goes on from there.\<close>

definition erase_found ::
  "'z company_db_scheme auth_admin \<Rightarrow> (uuid \<Rightarrow> string) \<Rightarrow> identity \<Rightarrow> uuid \<Rightarrow> int \<Rightarrow> profile_record \<Rightarrow> ('z company_db_scheme, profile_record) eff" where
  "erase_found A show_uuid ident user_id expected_version existing =
     (if pr_deleted_at existing \<noteq> None then return existing
      else and_then (aa_anonymize_user A user_id (anonymized_email show_uuid user_id)) (\<lambda>_.
           and_then (db_call (erase_profile user_id expected_version (id_user_id ident)
              (anonymized_full_name show_uuid user_id))) (\<lambda>erased.
           and_then (record_profile_event PROFILE_ERASED ident user_id) (\<lambda>_. return erased))))"

lemma erase_user_found:
  fixes s :: "'z company_db_scheme"
  assumes "erase_user A show_uuid ident u v s = (r, t)"
  shows "(\<exists>e. r = Inl e \<and> \<not> is_database_error e) \<and> same_data s t \<or>
    (\<exists>p s1. same_data s s1 \<and> p \<in> set (t_profiles s) \<and> pr_id p = u \<and> u \<noteq> id_user_id ident \<and>
       pr_company_id p = id_company_id ident \<and> (\<forall>w :: 'z company_db_scheme. authorize_user_management ident w = (Inr (), w)) \<and>
       erase_found A show_uuid ident u v p s1 = (r, t))"
proof -
  let ?rest = "and_then (get_in_tenant ident u) (erase_found A show_uuid ident u v)"
  have run: "and_then (authorize_user_management ident) (\<lambda>_.
      and_then (guard_that (u \<noteq> id_user_id ident) (Service (ValidationError (Message ''You may not erase your own account.'')))) (\<lambda>_.
        ?rest)) s = (r, t)"
    using assms by (simp add: erase_user_def erase_found_def [abs_def])
  show ?thesis
  proof (cases "(\<exists>x. authorize_user_management ident s = (Inr x, s)) \<and> u \<noteq> id_user_id ident")
    case False
    then have "(\<exists>e. r = Inl e \<and> \<not> is_database_error e) \<and> t = s"
      using run auth_error_kept by (auto simp: authorize_user_management_def and_then_def call_defs catching_apply eff_simps
          split: sum.splits if_splits)
    then show ?thesis by simp
  next
    case True
    then have rest: "?rest s = (r, t)" using run by (auto simp: and_then_def eff_simps)
    obtain r1 s1 where get: "get_in_tenant ident u s = (r1, s1)" by fastforce
    have same: "same_data s s1" by (rule read_onlyD [OF account_reads(2) get])
    show ?thesis
    proof (cases r1)
      case (Inl e)
      have "\<not> is_database_error e"
        using get Inl by (auto simp: get_in_tenant_def and_then_def eff_simps split: sum.splits prod.splits if_splits
            dest: db_call_error)
      with rest get Inl same show ?thesis by (auto simp: and_then_def)
    next
      case (Inr p)
      have "\<forall>w :: 'z company_db_scheme. authorize_user_management ident w = (Inr (), w)"
        using True by (auto simp: authorize_user_management_def call_defs catching_apply eff_simps split: sum.splits)
      with Inr get_in_tenant_Inr [of ident u s p s1] get rest same True show ?thesis by (auto simp: and_then_def)
    qed
  qed
qed

lemma put_profile_other [simp]:
  "t_audit (put_profile e s) = t_audit s" "next_uuid (put_profile e s) = next_uuid s" "clock (put_profile e s) = clock s"
  "net (put_profile e s) = net s" "t_companies (put_profile e s) = t_companies s"
  "t_invitations (put_profile e s) = t_invitations s"
  "t_profiles (put_profile e s) = map (\<lambda>p. if pr_id p = pr_id e then e else p) (t_profiles s)"
  by (simp_all add: put_profile_def)

lemma erasure_entry_put [simp]: "erasure_entry ident u ((put_profile e s)\<lparr>net := ds\<rparr>) = erasure_entry ident u s"
  by (simp add: erasure_entry_def put_profile_def)

lemma put_profile_net: "put_profile e (s\<lparr>net := ds\<rparr>) = (put_profile e s)\<lparr>net := ds\<rparr>"
  by (simp add: put_profile_def)

lemma erase_found_lossless:
  fixes s :: "'z company_db_scheme"
  assumes A: "tactful A" and s: "lossless s" "distinct (map pr_id (t_profiles s))" "p \<in> set (t_profiles s)" "pr_id p = u"
    and run: "erase_found A show_uuid ident u v p s = (r, t)"
  shows "(\<exists>e. r = Inl e \<and> \<not> is_database_error e) \<and> same_data s t \<or>
    pr_deleted_at p \<noteq> None \<and> r = Inr p \<and> t = s \<or>
    (\<exists>e ds. pr_deleted_at p = None \<and> pr_version p = v \<and>
       e = erased_row (id_user_id ident) (anonymized_full_name show_uuid u) (clock s) p \<and> set ds \<subseteq> set (net s) \<and>
       fst (aa_anonymize_user A u (anonymized_email show_uuid u) s) = Inr () \<and>
       (r = Inr e \<and> t = (put_profile e s)\<lparr>t_audit := t_audit s @ [erasure_entry ident u s], next_uuid := Suc (next_uuid s), net := ds\<rparr> \<or>
        (\<exists>x. r = Inl x) \<and> t = (put_profile e s)\<lparr>net := ds\<rparr>))"
proof (cases "pr_deleted_at p = None")
  case False
  with run show ?thesis by (simp add: erase_found_def eff_simps)
next
  case None: True
  obtain r0 where anon: "aa_anonymize_user A u (anonymized_email show_uuid u) s = (r0, s)"
    using A by (auto simp: tactful_def prod_eq_iff)
  show ?thesis
  proof (cases r0)
    case (Inl e)
    with anon A have "\<not> is_database_error e" by (auto simp: tactful_def elim!: is_database_error.elims) (metis fst_conv)
    with None run anon Inl show ?thesis by (auto simp: erase_found_def and_then_def)
  next
    case ok: (Inr x)
    obtain r2 s2 where er: "erase_profile u v (id_user_id ident) (anonymized_full_name show_uuid u) s = (r2, s2)" by fastforce
    note locked = erase_profile_lossless [OF s er]
    show ?thesis
    proof (cases r2)
      case (Inl e)
      then obtain e' where "db_call (erase_profile u v (id_user_id ident) (anonymized_full_name show_uuid u)) s = (Inl e', s2)"
        using er by (auto simp: db_call_def catching_apply)
      moreover from this have "\<not> is_database_error e'" by (rule db_call_error)
      ultimately show ?thesis using None run anon ok locked Inl by (auto simp: erase_found_def and_then_def)
    next
      case (Inr e)
      with locked obtain ds where e: "set ds \<subseteq> set (net s)" "pr_version p = v"
          "e = erased_row (id_user_id ident) (anonymized_full_name show_uuid u) (clock s) p" "s2 = (put_profile e s)\<lparr>net := ds\<rparr>"
        by auto
      obtain r3 where ev: "record_profile_event PROFILE_ERASED ident u s2 = (r3, t)"
          and r: "r = (case r3 of Inl x \<Rightarrow> Inl x | Inr _ \<Rightarrow> Inr e)"
        using None run anon ok er Inr
        by (auto simp: erase_found_def and_then_def db_call_def catching_apply eff_simps split: sum.splits prod.splits)
      have "lossless s2" using s(1) e(1,4) by (auto simp: lossless_def)
      note event = erased_event_lossless [OF this ev]
      show ?thesis
      proof (cases r3)
        case (Inl x)
        with event obtain ds' where "set ds' \<subseteq> set ds" "t = (put_profile e s)\<lparr>net := ds'\<rparr>"
          by (auto simp: same_data_def e(4))
        with e r Inl None anon ok show ?thesis by (intro disjI2 exI [of _ e] exI [of _ ds']) auto
      next
        case written: (Inr _)
        with event obtain ds' where "set ds' \<subseteq> set ds" "t = (put_profile e s)\<lparr>t_audit := t_audit s @ [erasure_entry ident u s],
            next_uuid := Suc (next_uuid s), net := ds'\<rparr>"
          by (auto simp: e(4))
        with e r written None anon ok show ?thesis by (intro disjI2 exI [of _ e] exI [of _ ds']) auto
      qed
    qed
  qed
qed

lemma erase_user_lossless:
  fixes s :: "'z company_db_scheme"
  assumes "tactful A" "lossless s" "distinct (map pr_id (t_profiles s))" "erase_user A show_uuid ident u v s = (r, t)"
  shows "(\<exists>e. r = Inl e \<and> \<not> is_database_error e) \<and> same_data s t \<or>
    (\<exists>p \<in> set (t_profiles s). pr_id p = u \<and> u \<noteq> id_user_id ident \<and> pr_company_id p = id_company_id ident \<and>
       (\<forall>w :: 'z company_db_scheme. authorize_user_management ident w = (Inr (), w)) \<and>
       (pr_deleted_at p \<noteq> None \<and> r = Inr p \<and> same_data s t \<or>
        (\<exists>e ds. pr_deleted_at p = None \<and> pr_version p = v \<and>
           e = erased_row (id_user_id ident) (anonymized_full_name show_uuid u) (clock s) p \<and> set ds \<subseteq> set (net s) \<and>
           (r = Inr e \<and> t = (put_profile e s)\<lparr>t_audit := t_audit s @ [erasure_entry ident u s], next_uuid := Suc (next_uuid s), net := ds\<rparr> \<or>
            (\<exists>x. r = Inl x) \<and> t = (put_profile e s)\<lparr>net := ds\<rparr>))))"
proof -
  from erase_user_found [OF assms(4)] consider
      "(\<exists>e. r = Inl e \<and> \<not> is_database_error e) \<and> same_data s t"
    | p s1 where "same_data s s1" "p \<in> set (t_profiles s)" "pr_id p = u" "u \<noteq> id_user_id ident"
        "pr_company_id p = id_company_id ident" "\<forall>w :: 'z company_db_scheme. authorize_user_management ident w = (Inr (), w)"
        "erase_found A show_uuid ident u v p s1 = (r, t)" by blast
  then show ?thesis
  proof cases
    case 2
    from 2(1) obtain ds where ds: "s1 = s\<lparr>net := ds\<rparr>" "set ds \<subseteq> set (net s)" by (auto simp: same_data_def)
    have pre: "lossless s1" "distinct (map pr_id (t_profiles s1))" "p \<in> set (t_profiles s1)"
      using assms(2,3) 2(2) ds by (auto simp: lossless_def)
    have later: "same_data s t" if "same_data s1 t" using same_data_trans [OF 2(1) that] .
    have entry: "erasure_entry ident u s1 = erasure_entry ident u s" by (simp add: erasure_entry_def ds(1))
    from erase_found_lossless [OF assms(1) pre 2(3,7)] consider
        "(\<exists>e. r = Inl e \<and> \<not> is_database_error e) \<and> same_data s1 t"
      | "pr_deleted_at p \<noteq> None" "r = Inr p" "t = s1"
      | e ds' where "pr_deleted_at p = None" "pr_version p = v"
          "e = erased_row (id_user_id ident) (anonymized_full_name show_uuid u) (clock s1) p" "set ds' \<subseteq> set (net s1)"
          "r = Inr e \<and> t = (put_profile e s1)\<lparr>t_audit := t_audit s1 @ [erasure_entry ident u s1], next_uuid := Suc (next_uuid s1), net := ds'\<rparr> \<or>
           (\<exists>x. r = Inl x) \<and> t = (put_profile e s1)\<lparr>net := ds'\<rparr>" by blast
    then show ?thesis
    proof cases
      case 1
      with later show ?thesis by blast
    next
      case earlier: 2
      with 2 show ?thesis by blast
    next
      case 3
      have "set ds' \<subseteq> set (net s)" using 3(4) ds by auto
      moreover have "r = Inr e \<and> t = (put_profile e s)\<lparr>t_audit := t_audit s @ [erasure_entry ident u s], next_uuid := Suc (next_uuid s), net := ds'\<rparr> \<or>
           (\<exists>x. r = Inl x) \<and> t = (put_profile e s)\<lparr>net := ds'\<rparr>"
        using 3(5) unfolding entry by (simp add: ds(1) put_profile_net)
      moreover have "e = erased_row (id_user_id ident) (anonymized_full_name show_uuid u) (clock s) p" using 3(3) ds(1) by simp
      ultimately show ?thesis using 2 3(1,2) by blast
    qed
  qed blast
qed

text \<open>
  C14. An erasure that returns, on a quiet network: the user is another one, in the caller's company, and was
  erased before, with no write then, or the row of the version given is now anonymized, inactive and stamped,
  with one audit entry of the company. What else is known of the person stays: every invitation, with its
  name and address, and every earlier audit entry.
\<close>

theorem erasure_effect:
  assumes "tactful A" "quiet s" "distinct (map pr_id (t_profiles s))" "erase_user A show_uuid ident u v s = (Inr e, t)"
  shows "(\<exists>p \<in> set (t_profiles s). pr_id p = u \<and> u \<noteq> id_user_id ident \<and> pr_company_id p = id_company_id ident \<and>
      (if pr_deleted_at p \<noteq> None then e = p \<and> t = s
       else pr_version p = v \<and> e = erased_row (id_user_id ident) (''Deleted User '' @ take 8 (show_uuid u)) (clock s) p \<and>
         t = s\<lparr>t_profiles := map (\<lambda>q. if pr_id q = u then e else q) (t_profiles s),
               t_audit := t_audit s @ [erasure_entry ident u s], next_uuid := Suc (next_uuid s)\<rparr>)) \<and>
    t_invitations t = t_invitations s \<and> (\<forall>a \<in> set (t_audit s). a \<in> set (t_audit t))"
proof -
  have same: "same_data s t \<longleftrightarrow> t = s" by (rule quiet_same [OF assms(2)])
  have net: "net s = []" using assms(2) by (simp add: quiet_def)
  from erase_user_lossless [OF assms(1) quiet_lossless [OF assms(2)] assms(3,4)] obtain p where
    p: "p \<in> set (t_profiles s)" "pr_id p = u" "u \<noteq> id_user_id ident" "pr_company_id p = id_company_id ident" and
    cases: "pr_deleted_at p \<noteq> None \<and> e = p \<and> t = s \<or>
      pr_deleted_at p = None \<and> pr_version p = v \<and>
      e = erased_row (id_user_id ident) (anonymized_full_name show_uuid u) (clock s) p \<and>
      t = (put_profile e s)\<lparr>t_audit := t_audit s @ [erasure_entry ident u s], next_uuid := Suc (next_uuid s), net := []\<rparr>"
    by (auto simp: same net)
  from cases show ?thesis
  proof (elim disjE conjE)
    assume e: "pr_deleted_at p = None" "pr_version p = v"
      "e = erased_row (id_user_id ident) (anonymized_full_name show_uuid u) (clock s) p"
      "t = (put_profile e s)\<lparr>t_audit := t_audit s @ [erasure_entry ident u s], next_uuid := Suc (next_uuid s), net := []\<rparr>"
    then have "pr_id e = u" using p(2) by (simp add: erased_row_def)
    then have t: "t = s\<lparr>t_profiles := map (\<lambda>q. if pr_id q = u then e else q) (t_profiles s),
               t_audit := t_audit s @ [erasure_entry ident u s], next_uuid := Suc (next_uuid s)\<rparr>"
      using e(4) net by (simp add: put_profile_def)
    have "t_invitations t = t_invitations s" "\<forall>a \<in> set (t_audit s). a \<in> set (t_audit t)" by (simp_all add: t)
    moreover have "e = erased_row (id_user_id ident) (''Deleted User '' @ take 8 (show_uuid u)) (clock s) p"
      using e(3) by (simp add: anonymized_full_name_def)
    ultimately show ?thesis using p e(1,2) t by (intro conjI bexI [of _ p]) simp_all
  next
    assume e: "pr_deleted_at p \<noteq> None" "e = p" "t = s"
    with p show ?thesis by (intro conjI bexI [of _ p]) simp_all
  qed
qed

text \<open>
  C15. Once an erasure has returned, over any network that loses no response, no sequence of later calls of both services brings
  the person back: whoever calls and whatever the network does, the profile stays erased under the name the
  erasure gave it, and its user stays barred from authentication, even when the profile is reactivated.
\<close>

theorem erased_for_good:
  fixes s :: "'z company_db_scheme"
  assumes "tactful A" "lossless s" "distinct (map pr_id (t_profiles s))" "erase_user A show_uuid ident u v s = (Inr e, t)"
  shows "(\<forall>p \<in> set (t_profiles (run_account_calls A show_uuid calls t)). pr_id p = u \<longrightarrow>
      pr_deleted_at p \<noteq> None \<and> pr_full_name p = pr_full_name e) \<and>
    barred u (run_account_calls A show_uuid calls t)"
proof -
  from erase_user_lossless [OF assms] obtain p where p: "p \<in> set (t_profiles s)" "pr_id p = u" and
    cases: "pr_deleted_at p \<noteq> None \<and> e = p \<and> same_data s t \<or>
      (\<exists>ds name. e = erased_row (id_user_id ident) name (clock s) p \<and>
        t = (put_profile e s)\<lparr>t_audit := t_audit s @ [erasure_entry ident u s], next_uuid := Suc (next_uuid s), net := ds\<rparr>)"
    by auto
  have same: "q = p" if "q \<in> set (t_profiles s)" "pr_id q = u" for q
    using that p assms(3) by (auto simp: distinct_map inj_on_def)
  from cases have "every_profile (erased_as u (pr_full_name e)) t"
  proof (elim disjE conjE exE)
    assume "pr_deleted_at p \<noteq> None" "e = p" "same_data s t"
    with same show ?thesis by (auto simp: every_profile_def erased_as_def same_data_def)
  next
    fix ds name
    assume "e = erased_row (id_user_id ident) name (clock s) p"
      "t = (put_profile e s)\<lparr>t_audit := t_audit s @ [erasure_entry ident u s], next_uuid := Suc (next_uuid s), net := ds\<rparr>"
    with p show ?thesis by (auto simp: every_profile_def erased_as_def erased_row_def)
  qed
  then have "every_profile (erased_as u (pr_full_name e)) (run_account_calls A show_uuid calls t)"
    by (rule run_account_calls_keeps [OF erased_call [OF assms(1)]])
  then have all: "\<forall>p \<in> set (t_profiles (run_account_calls A show_uuid calls t)). pr_id p = u \<longrightarrow>
      pr_deleted_at p \<noteq> None \<and> pr_full_name p = pr_full_name e"
    by (simp add: every_profile_def erased_as_def)
  then show ?thesis unfolding barred_def by blast
qed

lemma repeat_erased:
  fixes t :: "'z company_db_scheme"
  assumes "quiet t" "filter (\<lambda>p. pr_id p = u) (t_profiles t) = [e]" "pr_deleted_at e \<noteq> None"
    and "pr_company_id e = id_company_id ident" "u \<noteq> id_user_id ident"
    and "\<forall>w :: 'z company_db_scheme. authorize_user_management ident w = (Inr (), w)"
  shows "erase_user A show_uuid ident u v t = (Inr e, t)"
proof -
  have "get_by_id profile_table u t = (Inr e, t)"
    using profiles.get_by_id_delivered [of t u] assms(1,2) by (simp add: quiet_def)
  then have "get_in_tenant ident u t = (Inr e, t)"
    using assms(4) by (simp add: get_in_tenant_def get_profile_row_def and_then_def call_defs catching_apply eff_simps)
  with assms(3,5,6) show ?thesis by (simp add: erase_user_def and_then_def eff_simps)
qed

text \<open>
  C16. When an erasure ends in a database error as it was raised, it is the audit entry that failed: the row is
  erased, there is no entry, and repeating the call, as its documentation advises, returns the erased row and
  writes no entry either. The erasure has no trace.
\<close>

theorem erasure_without_trace:
  fixes s :: "'z company_db_scheme"
  assumes "tactful A" "lossless s" "distinct (map pr_id (t_profiles s))"
    and "erase_user A show_uuid ident u v s = (Inl (Raised (Db x)), t)"
  shows "\<exists>p e. p \<in> set (t_profiles s) \<and> pr_id p = u \<and> pr_deleted_at p = None \<and>
    e = erased_row (id_user_id ident) (''Deleted User '' @ take 8 (show_uuid u)) (clock s) p \<and>
    t_profiles t = map (\<lambda>q. if pr_id q = u then e else q) (t_profiles s) \<and> t_audit t = t_audit s \<and>
    (\<forall>v'. erase_user A show_uuid ident u v' (t\<lparr>net := []\<rparr>) = (Inr e, t\<lparr>net := []\<rparr>))"
proof -
  from erase_user_lossless [OF assms] obtain p e ds where
    p: "p \<in> set (t_profiles s)" "pr_id p = u" "u \<noteq> id_user_id ident" "pr_company_id p = id_company_id ident"
      "\<forall>w :: 'z company_db_scheme. authorize_user_management ident w = (Inr (), w)" and
    e: "pr_deleted_at p = None" "e = erased_row (id_user_id ident) (anonymized_full_name show_uuid u) (clock s) p"
      "t = (put_profile e s)\<lparr>net := ds\<rparr>"
    by auto
  have id: "pr_id e = u" "pr_deleted_at e \<noteq> None" "pr_company_id e = id_company_id ident"
    using e(2) p(2,4) by (simp_all add: erased_row_def)
  have "filter (\<lambda>q. pr_id q = u) (t_profiles s) = [p]"
    using distinct_only_row [of profile_table s p] assms(3) p(1,2) by (simp add: only_row_def)
  then have "filter (\<lambda>q. pr_id q = u) (map (\<lambda>q. if pr_id q = u then e else q) (t_profiles s)) = [e]"
    using id(1) p(2) by (simp add: filter_map comp_def cong: if_cong)
  then have one: "filter (\<lambda>q. pr_id q = u) (t_profiles (t\<lparr>net := []\<rparr>)) = [e]" by (simp add: e(3) id(1))
  have "quiet (t\<lparr>net := []\<rparr>)" by (simp add: quiet_def)
  note again = repeat_erased [OF this one id(2,3) p(3,5)]
  show ?thesis
    using p e id(1) again
    by (intro exI [of _ p] exI [of _ e]) (simp add: anonymized_full_name_def)
qed

section \<open>A company for the instances\<close>

definition quiet_admin :: "'z company_db_scheme auth_admin" where
  "quiet_admin = \<lparr>aa_create_user = (\<lambda>i email password name role company. return i), aa_anonymize_user = (\<lambda>_ _. return ())\<rparr>"

definition people :: auth_db where "people = guarded_db True"

definition chief :: identity where
  "chief = \<lparr>id_user_id = 1, id_role = Admin, id_company_id = 7, id_is_platform_admin = True, id_expires_at = None\<rparr>"

lemma tactful_quiet_admin: "tactful quiet_admin"
  by (simp add: tactful_def quiet_admin_def eff_simps)

lemma people_facts: "quiet people" "lossless people" "distinct (map pr_id (t_profiles people))"
  by (simp_all add: people_def guarded_db_def quiet_def lossless_def sample_defs)

lemma erase_one: "is_ok (fst (erase_user quiet_admin (\<lambda>_. ''1234567890'') chief 3 1 people))"
  by code_simp

definition lockout_calls :: "account_call list" where
  "lockout_calls = [UpdateCompany chief 7 1 None (Some False) None None, SoftDeleteCompany chief 7 1,
     UpdateCompany chief 7 1 (Some ''New'') None None None]"

lemma lockout_ids: "map co_id (t_companies (run_account_calls quiet_admin (\<lambda>_. ''u'') lockout_calls people)) = [7]"
  by code_simp

theorem own_company_survives_witness:
  "\<exists>c. t_companies (run_account_calls quiet_admin (\<lambda>_. ''u'') lockout_calls people) = [c] \<and> co_is_active c \<and> co_deleted_at c = None"
proof -
  obtain c where c: "t_companies (run_account_calls quiet_admin (\<lambda>_. ''u'') lockout_calls people) = [c]" "co_id c = 7"
    using lockout_ids by (auto simp: map_eq_Cons_conv)
  have "\<forall>call \<in> set lockout_calls. id_company_id (caller call) = 7" by (simp add: lockout_calls_def chief_def)
  moreover have "\<forall>c \<in> set (t_companies people). co_id c = 7 \<longrightarrow> co_is_active c \<and> co_deleted_at c = None"
    by (simp add: people_def guarded_db_def sample_company_def)
  moreover have "c \<in> set (t_companies (run_account_calls quiet_admin (\<lambda>_. ''u'') lockout_calls people))" by (simp only: c(1)) simp
  ultimately have "co_is_active c \<and> co_deleted_at c = None"
    using own_company_survives [OF tactful_quiet_admin, of lockout_calls 7 people c "\<lambda>_. ''u''"] c(2) by blast
  with c(1) show ?thesis by blast
qed

theorem erasure_effect_witness:
  "\<exists>e t. erase_user quiet_admin (\<lambda>_. ''1234567890'') chief 3 1 people = (Inr e, t) \<and> length (t_audit t) = 1 \<and>
     pr_full_name e = ''Deleted User 12345678''"
proof -
  obtain e t where run: "erase_user quiet_admin (\<lambda>_. ''1234567890'') chief 3 1 people = (Inr e, t)"
    using is_ok_run [OF erase_one] by blast
  from erasure_effect [OF tactful_quiet_admin people_facts(1,3) run] show ?thesis
    using run by (auto simp: people_def guarded_db_def sample_defs erased_row_def)
qed

theorem erased_for_good_witness:
  "\<exists>e t. erase_user quiet_admin (\<lambda>_. ''1234567890'') chief 3 1 people = (Inr e, t) \<and>
     barred 3 (run_account_calls quiet_admin (\<lambda>_. ''1234567890'') [UpdateProfile chief 3 2 None None (Some True)] t)"
proof -
  obtain e t where run: "erase_user quiet_admin (\<lambda>_. ''1234567890'') chief 3 1 people = (Inr e, t)"
    using is_ok_run [OF erase_one] by blast
  from erased_for_good [OF tactful_quiet_admin people_facts(2,3) run] run show ?thesis by blast
qed

definition failing_audit :: auth_db where
  "failing_audit = people\<lparr>net := [Delivered, Delivered, Refused ''XX000'' ''internal error'']\<rparr>"

lemma audit_fails: "fst (erase_user quiet_admin (\<lambda>_. ''1234567890'') chief 3 1 failing_audit) =
    Inl (Raised (Db (RepositoryError ''insert'' ''audit_logs'')))"
  by code_simp

theorem erasure_without_trace_witness:
  "t_audit (snd (erase_user quiet_admin (\<lambda>_. ''1234567890'') chief 3 1 failing_audit)) = [] \<and>
   is_ok (fst (erase_user quiet_admin (\<lambda>_. ''1234567890'') chief 3 1
     ((snd (erase_user quiet_admin (\<lambda>_. ''1234567890'') chief 3 1 failing_audit))\<lparr>net := []\<rparr>)))"
proof -
  let ?run = "erase_user quiet_admin (\<lambda>_. ''1234567890'') chief 3 1 failing_audit"
  have "lossless failing_audit" "distinct (map pr_id (t_profiles failing_audit))" "t_audit failing_audit = []"
    by (simp_all add: failing_audit_def people_def guarded_db_def sample_defs lossless_def)
  moreover have "?run = (Inl (Raised (Db (RepositoryError ''insert'' ''audit_logs''))), snd ?run)"
    using audit_fails by (metis prod.collapse)
  ultimately show ?thesis
    using erasure_without_trace [OF tactful_quiet_admin, of failing_audit "\<lambda>_. ''1234567890''" chief 3 1 _ "snd ?run"]
    by (force simp: is_ok_def)
qed

end
