(* ===== verification/Discussion.thy ===== *)
theory Discussion imports RequestService Utilities Logic
begin

text \<open>
  Comments and attachments: \<open>models/comment.py\<close>, \<open>models/attachment.py\<close>, their repositories, the gateway of
  \<open>database/attachment_storage.py\<close> over the storage service, \<open>services/comment_service.py\<close> and
  \<open>services/attachment_service.py\<close>. Bodies and file contents are ASCII strings. The storage service, the virus
  scanner and SHA-256 are parameters.
\<close>

section \<open>The tables\<close>

record comment_record =
  ct_id :: uuid
  ct_request_id :: uuid
  ct_author_id :: uuid
  ct_parent_comment_id :: "uuid option"
  ct_body :: string
  ct_deleted_at :: "timestamp option"
  ct_deleted_by :: "uuid option"
  ct_created_at :: timestamp

datatype scan_status = ScanSkipped | ScanClean | ScanInfected | ScanError

record attachment_record =
  ah_id :: uuid
  ah_request_id :: uuid
  ah_uploaded_by :: uuid
  ah_file_name :: string
  ah_content_type :: string
  ah_size_bytes :: int
  ah_storage_path :: string
  ah_checksum :: string
  ah_version :: int
  ah_replaces :: "uuid option"
  ah_scan_status :: scan_status
  ah_deleted_at :: "timestamp option"
  ah_deleted_by :: "uuid option"
  ah_created_at :: timestamp

text \<open>\<open>d_objects\<close> is what the storage service holds, by path.\<close>

record discussion_db = db +
  t_comments :: "comment_record list"
  t_attachments :: "attachment_record list"
  d_objects :: "string \<Rightarrow> string option"

definition comment_exists :: "'z discussion_db_scheme \<Rightarrow> uuid \<Rightarrow> bool" where
  "comment_exists s i = list_ex (\<lambda>c. ct_id c = i) (t_comments s)"

definition attachment_exists :: "'z discussion_db_scheme \<Rightarrow> uuid \<Rightarrow> bool" where
  "attachment_exists s i = list_ex (\<lambda>a. ah_id a = i) (t_attachments s)"

definition check_comment :: "'z discussion_db_scheme \<Rightarrow> comment_record \<Rightarrow> string option" where
  "check_comment s c = first_violation
     [(1 \<le> length (ct_body c) \<and> length (ct_body c) \<le> 5000, check_violation),
      (request_exists s (ct_request_id c), foreign_key_violation),
      (profile_exists s (ct_author_id c), foreign_key_violation),
      (opt_ok (comment_exists s) (ct_parent_comment_id c), foreign_key_violation),
      (opt_ok (profile_exists s) (ct_deleted_by c), foreign_key_violation)]"

definition check_attachment :: "'z discussion_db_scheme \<Rightarrow> attachment_record \<Rightarrow> string option" where
  "check_attachment s a = first_violation
     [(0 < ah_size_bytes a \<and> 0 < ah_version a, check_violation),
      (\<not> list_ex (\<lambda>x. ah_id x \<noteq> ah_id a \<and> ah_storage_path x = ah_storage_path a) (t_attachments s), unique_violation),
      (request_exists s (ah_request_id a), foreign_key_violation),
      (profile_exists s (ah_uploaded_by a), foreign_key_violation),
      (opt_ok (attachment_exists s) (ah_replaces a), foreign_key_violation),
      (opt_ok (profile_exists s) (ah_deleted_by a), foreign_key_violation)]"

text \<open>Neither table has a version for locking (\<open>version\<close> of an attachment is its place in a chain) or an update stamp.\<close>

definition comment_table :: "('z discussion_db_scheme, comment_record) table" where
  "comment_table =
     \<lparr>tb_name = ''comments'', tb_rows = t_comments, tb_set_rows = (\<lambda>rs s. s\<lparr>t_comments := rs\<rparr>),
      tb_id = ct_id, tb_version = (\<lambda>_. 0), tb_set_version = (\<lambda>v r. r), tb_touch = (\<lambda>now r. r), tb_check = check_comment\<rparr>"

definition attachment_table :: "('z discussion_db_scheme, attachment_record) table" where
  "attachment_table =
     \<lparr>tb_name = ''attachments'', tb_rows = t_attachments, tb_set_rows = (\<lambda>rs s. s\<lparr>t_attachments := rs\<rparr>),
      tb_id = ah_id, tb_version = (\<lambda>_. 0), tb_set_version = (\<lambda>v r. r), tb_touch = (\<lambda>now r. r), tb_check = check_attachment\<rparr>"

lemma discussion_table_fields [simp]:
  "tb_name comment_table = ''comments''" "tb_rows comment_table = t_comments"
  "tb_set_rows comment_table = (\<lambda>rs s. s\<lparr>t_comments := rs\<rparr>)" "tb_id comment_table = ct_id"
  "tb_touch comment_table = (\<lambda>now r. r)" "tb_check comment_table = check_comment"
  "tb_name attachment_table = ''attachments''" "tb_rows attachment_table = t_attachments"
  "tb_set_rows attachment_table = (\<lambda>rs s. s\<lparr>t_attachments := rs\<rparr>)" "tb_id attachment_table = ah_id"
  "tb_touch attachment_table = (\<lambda>now r. r)" "tb_check attachment_table = check_attachment"
  by (simp_all add: comment_table_def attachment_table_def)

lemma discussion_exists_net [simp]:
  "comment_exists (s\<lparr>net := ds\<rparr>) = comment_exists s" "attachment_exists (s\<lparr>net := ds\<rparr>) = attachment_exists s"
  by (simp_all add: comment_exists_def attachment_exists_def fun_eq_iff)

interpretation comments: table_store comment_table
  by unfold_locales (auto simp: check_comment_def comment_exists_def fun_eq_iff)

interpretation attachments: table_store attachment_table
  by unfold_locales (auto simp: check_attachment_def attachment_exists_def fun_eq_iff)

section \<open>The repositories\<close>

definition get_comment_row :: "uuid \<Rightarrow> ('z discussion_db_scheme, comment_record) eff" where
  "get_comment_row = get_by_id comment_table"

definition find_comment_row :: "uuid \<Rightarrow> ('z discussion_db_scheme, comment_record option) eff" where
  "find_comment_row = find_by_id comment_table"

definition create_comment_row :: "uuid \<Rightarrow> uuid \<Rightarrow> string \<Rightarrow> uuid option \<Rightarrow> ('z discussion_db_scheme, comment_record) eff" where
  "create_comment_row request_id author_id body parent_comment_id =
     insert_row comment_table (\<lambda>new_id now.
       \<lparr>ct_id = new_id, ct_request_id = request_id, ct_author_id = author_id, ct_parent_comment_id = parent_comment_id,
        ct_body = body, ct_deleted_at = None, ct_deleted_by = None, ct_created_at = now\<rparr>)"

definition list_comment_rows :: "uuid \<Rightarrow> page \<Rightarrow> ('z discussion_db_scheme, comment_record paged_result) eff" where
  "list_comment_rows request_id = paginate comment_table (\<lambda>s.
     sort_key ct_created_at (filter (\<lambda>c. ct_request_id c = request_id) (t_comments s)))"

text \<open>The full-text part of the filter is PostgreSQL's; it is the parameter \<open>wfts\<close>.\<close>

definition search_comment_rows ::
  "(string \<Rightarrow> comment_record \<Rightarrow> bool) \<Rightarrow> string \<Rightarrow> uuid list option \<Rightarrow> bool \<Rightarrow> page \<Rightarrow>
   ('z discussion_db_scheme, comment_record paged_result) eff" where
  "search_comment_rows wfts query_text request_ids include_deleted p =
     and_then (require_query ''search'' query_text) (\<lambda>_.
       let q = strip query_text in
       paginate comment_table (\<lambda>s. order_desc ct_created_at (filter (\<lambda>c.
           (ilike q (ct_body c) \<or> wfts q c) \<and> in_filter ct_request_id request_ids c \<and>
           (include_deleted \<or> ct_deleted_at c = None)) (t_comments s))) p)"

definition soft_delete_comment_row :: "uuid \<Rightarrow> uuid \<Rightarrow> ('z discussion_db_scheme, comment_record) eff" where
  "soft_delete_comment_row comment_id deleted_by =
     and_then (gets clock) (\<lambda>now.
     and_then (execute ''soft_delete'' ''comments'' (update_stmt comment_table (\<lambda>c. ct_id c = comment_id)
        (\<lambda>c. c\<lparr>ct_deleted_at := Some now, ct_deleted_by := Some deleted_by\<rparr>)))
       (single_row ''comments'' comment_id))"

definition get_attachment_row :: "uuid \<Rightarrow> ('z discussion_db_scheme, attachment_record) eff" where
  "get_attachment_row = get_by_id attachment_table"

definition find_attachment_row :: "uuid \<Rightarrow> ('z discussion_db_scheme, attachment_record option) eff" where
  "find_attachment_row = find_by_id attachment_table"

text \<open>The id of an attachment is the client's, so the primary key is checked as well.\<close>

definition insert_attachment_stmt :: "(timestamp \<Rightarrow> attachment_record) \<Rightarrow> ('z discussion_db_scheme, attachment_record list) eff" where
  "insert_attachment_stmt mk s =
     (if attachment_exists s (ah_id (mk (clock s))) then (Inl (Raised (Client (APIError unique_violation ''''))), s)
      else insert_stmt attachment_table (\<lambda>_. mk) s)"

definition create_attachment_row :: "(timestamp \<Rightarrow> attachment_record) \<Rightarrow> ('z discussion_db_scheme, attachment_record) eff" where
  "create_attachment_row mk =
     and_then (execute ''insert'' ''attachments'' (insert_attachment_stmt mk)) (single_row ''attachments'' 0)"

definition list_attachment_rows :: "uuid \<Rightarrow> bool \<Rightarrow> page \<Rightarrow> ('z discussion_db_scheme, attachment_record paged_result) eff" where
  "list_attachment_rows request_id include_deleted = paginate attachment_table (\<lambda>s.
     order_desc ah_created_at (filter (\<lambda>a. ah_request_id a = request_id \<and> (include_deleted \<or> ah_deleted_at a = None)) (t_attachments s)))"

definition search_attachment_rows ::
  "string \<Rightarrow> uuid list option \<Rightarrow> bool \<Rightarrow> page \<Rightarrow> ('z discussion_db_scheme, attachment_record paged_result) eff" where
  "search_attachment_rows query_text request_ids include_deleted p =
     and_then (require_query ''search'' query_text) (\<lambda>_.
       paginate attachment_table (\<lambda>s. order_desc ah_created_at (filter (\<lambda>a.
           ilike (strip query_text) (ah_file_name a) \<and> in_filter ah_request_id request_ids a \<and>
           (include_deleted \<or> ah_deleted_at a = None)) (t_attachments s))) p)"

definition soft_delete_attachment_row :: "uuid \<Rightarrow> uuid \<Rightarrow> ('z discussion_db_scheme, attachment_record) eff" where
  "soft_delete_attachment_row attachment_id deleted_by =
     and_then (gets clock) (\<lambda>now.
     and_then (execute ''soft_delete'' ''attachments'' (update_stmt attachment_table (\<lambda>a. ah_id a = attachment_id)
        (\<lambda>a. a\<lparr>ah_deleted_at := Some now, ah_deleted_by := Some deleted_by\<rparr>)))
       (single_row ''attachments'' attachment_id))"

section \<open>The models\<close>

definition Comment :: "comment_record \<Rightarrow> comment_record fallible" where
  "Comment raw =
     (let c = raw\<lparr>ct_body := strip (ct_body raw)\<rparr> in
      if ct_body c = [] \<or> 5000 < length (ct_body c) then Inl (Raised (Model (PydanticValidationError ''body''))) else Inr c)"

definition CommentCreate :: "string \<Rightarrow> uuid option \<Rightarrow> (string \<times> uuid option) fallible" where
  "CommentCreate body parent_comment_id =
     (if strip body = [] \<or> 5000 < length (strip body) then Inl (Raised (Model (PydanticValidationError ''body'')))
      else Inr (strip body, parent_comment_id))"

definition Attachment :: "attachment_record \<Rightarrow> attachment_record fallible" where
  "Attachment raw =
     (let a = raw\<lparr>ah_file_name := strip (ah_file_name raw), ah_content_type := strip (ah_content_type raw),
                  ah_storage_path := strip (ah_storage_path raw), ah_checksum := strip (ah_checksum raw)\<rparr> in
      if ah_file_name a = [] then Inl (Raised (Model (PydanticValidationError ''file_name'')))
      else if ah_content_type a = [] then Inl (Raised (Model (PydanticValidationError ''content_type'')))
      else if ah_size_bytes a \<le> 0 then Inl (Raised (Model (PydanticValidationError ''size_bytes'')))
      else if ah_storage_path a = [] then Inl (Raised (Model (PydanticValidationError ''storage_path'')))
      else if ah_checksum a = [] then Inl (Raised (Model (PydanticValidationError ''checksum_sha256'')))
      else if ah_version a < 1 then Inl (Raised (Model (PydanticValidationError ''version'')))
      else Inr a)"

section \<open>The comment service\<close>

definition authorize_view :: "identity \<Rightarrow> uuid \<Rightarrow> ('z db_scheme, unit) eff" where
  "authorize_view ident request_id =
     and_then (fetch_request_of_company ident request_id) (\<lambda>request.
     and_then (is_assigned_to_any_stage request_id (id_user_id ident) (id_role ident)) (\<lambda>is_assigned_approver.
     and_then (gets clock) (\<lambda>now.
       hidden_as_not_found request_id (authorize_request_view now ident
         (rq_requester_id request = id_user_id ident) is_assigned_approver))))"

definition list_comments :: "identity \<Rightarrow> uuid \<Rightarrow> page \<Rightarrow> ('z discussion_db_scheme, comment_record paged_result) eff" where
  "list_comments ident request_id p =
     and_then (authorize_view ident request_id) (\<lambda>_.
     and_then (db_call (list_comment_rows request_id p)) (\<lambda>result.
     and_then (pure (map_result Comment (res_items result))) (\<lambda>items.
       return \<lparr>res_items = items, res_page = res_page result, res_page_size = res_page_size result,
               res_total_records = res_total_records result\<rparr>)))"

definition check_parent :: "uuid \<Rightarrow> uuid option \<Rightarrow> ('z discussion_db_scheme, unit) eff" where
  "check_parent request_id parent_comment_id =
     (case parent_comment_id of
        None \<Rightarrow> return ()
      | Some i \<Rightarrow> and_then (find_comment_row i) (\<lambda>parent.
          guard_that (case parent of None \<Rightarrow> False
                      | Some c \<Rightarrow> ct_deleted_at c = None \<and> ct_request_id c = request_id)
            (Service (ValidationError (Message ''parent_comment_id'')))))"

definition add_comment ::
  "identity \<Rightarrow> uuid \<Rightarrow> string \<Rightarrow> uuid option \<Rightarrow> ('z discussion_db_scheme, comment_record) eff" where
  "add_comment ident request_id body parent_comment_id =
     and_then (model_call (CommentCreate body parent_comment_id)) (\<lambda>(body, parent).
     and_then (authorize_view ident request_id) (\<lambda>_.
     and_then (check_parent request_id parent) (\<lambda>_.
     and_then (db_call (create_comment_row request_id (id_user_id ident) body parent)) (\<lambda>created.
     and_then (db_call (record_event (audit_action_value COMMENT_CREATED) (Some (id_user_id ident)) (Some request_id)
        (Some [(''comment_id'', MetaId (ct_id created))]) None)) (\<lambda>_.
       pure (Comment created))))))"

definition remove_comment :: "identity \<Rightarrow> uuid \<Rightarrow> ('z discussion_db_scheme, comment_record) eff" where
  "remove_comment ident comment_id =
     and_then (lookup_call (get_comment_row comment_id)) (\<lambda>existing.
     and_then (lookup_call (get_request_row (ct_request_id existing))) (\<lambda>parent_request.
     and_then (guard_that (rq_company_id parent_request = id_company_id ident)
        (Service (NotFoundError ''comment'' (ById comment_id)))) (\<lambda>_.
     and_then (gets clock) (\<lambda>now.
     and_then (auth_call (authorize_comment_moderation now ident)) (\<lambda>_.
     and_then (db_call (soft_delete_comment_row comment_id (id_user_id ident))) (\<lambda>removed.
     and_then (db_call (record_event (audit_action_value COMMENT_REMOVED) (Some (id_user_id ident))
        (Some (ct_request_id existing)) (Some [(''comment_id'', MetaId comment_id)]) None)) (\<lambda>_.
       pure (Comment removed))))))))"

section \<open>The storage gateway\<close>

text \<open>The storage client: what it raises is wrapped by the gateway. A signed URL may be missing in its answer.\<close>

record 's storage_client =
  sc_upload :: "string \<Rightarrow> string \<Rightarrow> string \<Rightarrow> ('s, unit) eff"
  sc_download :: "string \<Rightarrow> ('s, string) eff"
  sc_remove :: "string \<Rightarrow> ('s, unit) eff"
  sc_sign :: "string \<Rightarrow> int \<Rightarrow> ('s, string option) eff"

definition storage_error :: "string \<Rightarrow> ('s, 'a) eff \<Rightarrow> ('s, 'a) eff" where
  "storage_error operation m = catching (\<lambda>_. True) (\<lambda>_. Raised (Storage operation)) m"

definition gateway_upload :: "'s storage_client \<Rightarrow> string \<Rightarrow> string \<Rightarrow> string \<Rightarrow> ('s, unit) eff" where
  "gateway_upload C path content content_type = storage_error ''upload'' (sc_upload C path content content_type)"

definition gateway_download :: "'s storage_client \<Rightarrow> string \<Rightarrow> ('s, string) eff" where
  "gateway_download C path = storage_error ''download'' (sc_download C path)"

definition gateway_remove :: "'s storage_client \<Rightarrow> string \<Rightarrow> ('s, unit) eff" where
  "gateway_remove C path = storage_error ''remove'' (sc_remove C path)"

definition create_signed_url :: "'s storage_client \<Rightarrow> string \<Rightarrow> int \<Rightarrow> ('s, string) eff" where
  "create_signed_url C path expires_in_seconds =
     and_then (storage_error ''create_signed_url'' (sc_sign C path expires_in_seconds)) (\<lambda>url.
       case url of
         Some u \<Rightarrow> if u = [] then throw (Raised (Storage ''no signed URL'')) else return u
       | None \<Rightarrow> throw (Raised (Storage ''no signed URL'')))"

fun is_storage_error :: "exn \<Rightarrow> bool" where
  "is_storage_error (Raised (Storage _)) = True"
| "is_storage_error _ = False"

fun translate_storage_error :: "exn \<Rightarrow> exn" where
  "translate_storage_error (Raised (Storage m)) = Service (StorageOperationError (Storage m))"
| "translate_storage_error e = e"

definition storage_call :: "('s, 'a) eff \<Rightarrow> ('s, 'a) eff" where
  "storage_call m = catching is_storage_error translate_storage_error m"

fun translate_file_validation_error :: "utility_error \<Rightarrow> exn" where
  "translate_file_validation_error (FileValidationError m) = Service (ValidationError (File m))"
| "translate_file_validation_error _ = Raised (Py (ValueError ''utility''))"

definition file_call :: "utility_error + 'a \<Rightarrow> ('s, 'a) eff" where
  "file_call r = (case r of Inl e \<Rightarrow> throw (translate_file_validation_error e) | Inr x \<Rightarrow> return x)"

section \<open>The attachment service\<close>

record 's attachment_config =
  ac_storage :: "'s storage_client"
  ac_scan :: "string \<Rightarrow> ('s, scan_status) eff"
  ac_sha256 :: "string \<Rightarrow> string"
  ac_show_uuid :: "uuid \<Rightarrow> string"

definition SIGNED_URL_TTL_SECONDS :: int where "SIGNED_URL_TTL_SECONDS = 300"

definition null_virus_scanner :: "string \<Rightarrow> ('s, scan_status) eff" where
  "null_virus_scanner content = return ScanSkipped"

definition get_existing :: "uuid \<Rightarrow> ('z discussion_db_scheme, attachment_record) eff" where
  "get_existing attachment_id = lookup_call (get_attachment_row attachment_id)"

definition get_parent_request :: "identity \<Rightarrow> uuid \<Rightarrow> ('z db_scheme, request_record) eff" where
  "get_parent_request ident request_id =
     and_then (lookup_call (get_request_row request_id)) (\<lambda>request.
     and_then (guard_that (rq_company_id request = id_company_id ident)
        (Service (NotFoundError ''request'' (ById request_id)))) (\<lambda>_. return request))"

definition authorize_removal :: "identity \<Rightarrow> attachment_record \<Rightarrow> request_record \<Rightarrow> ('z db_scheme, unit) eff" where
  "authorize_removal ident existing request =
     and_then (gets clock) (\<lambda>now.
       auth_call (authorize_attachment_removal now ident (ah_uploaded_by existing = id_user_id ident)
         (rq_status request = ReqPending)))"

definition reject_if_infected :: "attachment_record \<Rightarrow> ('s, unit) eff" where
  "reject_if_infected r = guard_that (ah_scan_status r \<noteq> ScanInfected) (Service (ValidationError (Message ''infected'')))"

text \<open>\<open>uuid4()\<close> takes the next id of the supply.\<close>

definition new_uuid :: "('z db_scheme, uuid) eff" where
  "new_uuid s = (Inr (next_uuid s), s\<lparr>next_uuid := Suc (next_uuid s)\<rparr>)"

definition cleanup_orphaned_storage_object :: "'s storage_client \<Rightarrow> string \<Rightarrow> ('s, unit) eff" where
  "cleanup_orphaned_storage_object C path =
     handle (gateway_remove C path) (\<lambda>e. if is_storage_error e then return () else throw e)"

definition validate_upload :: "string \<Rightarrow> string \<Rightarrow> string \<Rightarrow> ('s, string) eff" where
  "validate_upload file_name content_type content =
     and_then (file_call (sanitize_filename file_name)) (\<lambda>sanitized_name.
     and_then (file_call (validate_content_type ALLOWED_ATTACHMENT_CONTENT_TYPES content_type)) (\<lambda>_.
     and_then (file_call (validate_file_size MAX_ATTACHMENT_SIZE_BYTES (int (length content)))) (\<lambda>_.
     and_then (file_call (validate_content_type_consistency content_type content)) (\<lambda>_.
       return sanitized_name))))"

definition create_or_clean_up ::
  "'z discussion_db_scheme storage_client \<Rightarrow> string \<Rightarrow> (timestamp \<Rightarrow> attachment_record) \<Rightarrow> ('z discussion_db_scheme, attachment_record) eff" where
  "create_or_clean_up C storage_path mk =
     handle (create_attachment_row mk) (\<lambda>e.
       if is_database_error e
       then and_then (cleanup_orphaned_storage_object C storage_path) (\<lambda>_. throw (translate_database_error e))
       else throw e)"

definition store_new_attachment ::
  "'z discussion_db_scheme attachment_config \<Rightarrow> identity \<Rightarrow> uuid \<Rightarrow> string \<Rightarrow> string \<Rightarrow> string \<Rightarrow> int \<Rightarrow> uuid option \<Rightarrow>
   ('z discussion_db_scheme, attachment_record) eff" where
  "store_new_attachment cfg ident request_id file_name content_type content version replaces =
     and_then (validate_upload file_name content_type content) (\<lambda>sanitized_name.
     and_then new_uuid (\<lambda>attachment_id.
       let storage_path = build_storage_path (ac_show_uuid cfg) request_id attachment_id sanitized_name in
       and_then (storage_call (gateway_upload (ac_storage cfg) storage_path content content_type)) (\<lambda>_.
       and_then (ac_scan cfg content) (\<lambda>scan_result.
       and_then (create_or_clean_up (ac_storage cfg) storage_path (\<lambda>now.
          \<lparr>ah_id = attachment_id, ah_request_id = request_id, ah_uploaded_by = id_user_id ident, ah_file_name = file_name,
           ah_content_type = content_type, ah_size_bytes = int (length content), ah_storage_path = storage_path,
           ah_checksum = ac_sha256 cfg content, ah_version = version, ah_replaces = replaces,
           ah_scan_status = scan_result, ah_deleted_at = None, ah_deleted_by = None, ah_created_at = now\<rparr>)) (\<lambda>created.
       and_then (db_call (record_event (audit_action_value ATTACHMENT_UPLOADED) (Some (id_user_id ident)) (Some request_id)
          (Some [(''attachment_id'', MetaId (ah_id created)), (''file_name'', MetaText file_name)]) None)) (\<lambda>_.
         pure (Attachment created)))))))"

definition upload_attachment ::
  "'z discussion_db_scheme attachment_config \<Rightarrow> identity \<Rightarrow> uuid \<Rightarrow> string \<Rightarrow> string \<Rightarrow> string \<Rightarrow>
   ('z discussion_db_scheme, attachment_record) eff" where
  "upload_attachment cfg ident request_id file_name content_type content =
     and_then (authorize_view ident request_id) (\<lambda>_.
       store_new_attachment cfg ident request_id file_name content_type content 1 None)"

definition replace_attachment ::
  "'z discussion_db_scheme attachment_config \<Rightarrow> identity \<Rightarrow> uuid \<Rightarrow> string \<Rightarrow> string \<Rightarrow> string \<Rightarrow>
   ('z discussion_db_scheme, attachment_record) eff" where
  "replace_attachment cfg ident attachment_id file_name content_type content =
     and_then (get_existing attachment_id) (\<lambda>existing.
     and_then (get_parent_request ident (ah_request_id existing)) (\<lambda>request.
     and_then (authorize_removal ident existing request) (\<lambda>_.
     and_then (store_new_attachment cfg ident (ah_request_id existing) file_name content_type content
        (ah_version existing + 1) (Some (ah_id existing))) (\<lambda>created.
     and_then (db_call (soft_delete_attachment_row (ah_id existing) (id_user_id ident))) (\<lambda>_.
       return created)))))"

definition remove_attachment ::
  "'z discussion_db_scheme attachment_config \<Rightarrow> identity \<Rightarrow> uuid \<Rightarrow> ('z discussion_db_scheme, attachment_record) eff" where
  "remove_attachment cfg ident attachment_id =
     and_then (get_existing attachment_id) (\<lambda>existing.
     and_then (get_parent_request ident (ah_request_id existing)) (\<lambda>request.
     and_then (authorize_removal ident existing request) (\<lambda>_.
     and_then (storage_call (gateway_remove (ac_storage cfg) (ah_storage_path existing))) (\<lambda>_.
     and_then (db_call (soft_delete_attachment_row attachment_id (id_user_id ident))) (\<lambda>removed.
     and_then (db_call (record_event (audit_action_value ATTACHMENT_REMOVED) (Some (id_user_id ident))
        (Some (ah_request_id existing))
        (Some [(''attachment_id'', MetaId attachment_id), (''file_name'', MetaText (ah_file_name existing))]) None)) (\<lambda>_.
       pure (Attachment removed)))))))"

definition list_attachments :: "identity \<Rightarrow> uuid \<Rightarrow> page \<Rightarrow> ('z discussion_db_scheme, attachment_record paged_result) eff" where
  "list_attachments ident request_id p =
     and_then (authorize_view ident request_id) (\<lambda>_.
     and_then (db_call (list_attachment_rows request_id False p)) (\<lambda>result.
     and_then (pure (map_result Attachment (res_items result))) (\<lambda>items.
       return \<lparr>res_items = items, res_page = res_page result, res_page_size = res_page_size result,
               res_total_records = res_total_records result\<rparr>)))"

definition get_download_url ::
  "'z discussion_db_scheme attachment_config \<Rightarrow> identity \<Rightarrow> uuid \<Rightarrow> int option \<Rightarrow> ('z discussion_db_scheme, string) eff" where
  "get_download_url cfg ident attachment_id expires_in_seconds =
     and_then (get_existing attachment_id) (\<lambda>existing.
     and_then (authorize_view ident (ah_request_id existing)) (\<lambda>_.
     and_then (reject_if_infected existing) (\<lambda>_.
       storage_call (create_signed_url (ac_storage cfg) (ah_storage_path existing)
         (case expires_in_seconds of None \<Rightarrow> SIGNED_URL_TTL_SECONDS
          | Some n \<Rightarrow> if n = 0 then SIGNED_URL_TTL_SECONDS else n)))))"

end
