(* ===== verification/DiscussionRuns.thy ===== *)
theory DiscussionRuns imports Discussion Quiet Operations Samples
begin

text \<open>
  What comments and attachments guarantee: threads stay on their request, a removed comment stays readable,
  and what an upload leaves when it returns, when it raises and when a response is lost.
\<close>

context table_store
begin

lemma find_by_id_Inr:
  assumes "find_by_id T i s = (Inr (Some r), t)"
  shows "\<exists>ds. t = s\<lparr>net := ds\<rparr> \<and> r \<in> set (tb_rows T s) \<and> tb_id T r = i"
proof -
  let ?q = "\<lambda>s. take 1 (filter (\<lambda>r. tb_id T r = i) (tb_rows T s))"
  obtain rows where ex: "execute ''find_by_id'' (tb_name T) (gets ?q) s = (Inr rows, t)" and row: "(case rows of [] \<Rightarrow> None | r # _ \<Rightarrow> Some r) = Some r"
    using assms by (auto simp: find_by_id_def select_stmt_def and_then_eq_Inr eff_simps simp del: One_nat_def)
  from row have rows: "\<exists>rest. rows = r # rest" by (simp split: list.splits)
  have "rows = ?q s" "\<exists>ds. t = s\<lparr>net := ds\<rparr>" using execute_read [OF _ ex] rows_net by simp_all
  moreover from this rows have "r \<in> set (filter (\<lambda>r. tb_id T r = i) (tb_rows T s))" by (metis in_set_takeD list.set_intros(1))
  ultimately show ?thesis by auto
qed

end

section \<open>Threads\<close>

datatype discussion_call =
    ListComments identity uuid page
  | AddComment identity uuid string "uuid option"
  | RemoveComment identity uuid

fun call_discussion :: "discussion_call \<Rightarrow> ('z discussion_db_scheme, unit) eff" where
  "call_discussion (ListComments ident r p) = and_then (list_comments ident r p) (\<lambda>_. return ())"
| "call_discussion (AddComment ident r body parent) = and_then (add_comment ident r body parent) (\<lambda>_. return ())"
| "call_discussion (RemoveComment ident i) = and_then (remove_comment ident i) (\<lambda>_. return ())"

definition run_discussion :: "discussion_call list \<Rightarrow> 'z discussion_db_scheme \<Rightarrow> 'z discussion_db_scheme" where
  "run_discussion calls s = fold (\<lambda>c s. snd (call_discussion c s)) calls s"

definition answered :: "comment_record list \<Rightarrow> comment_record \<Rightarrow> bool" where
  "answered cs c \<longleftrightarrow> (\<forall>i. ct_parent_comment_id c = Some i \<longrightarrow>
     (\<exists>p \<in> set cs. ct_id p = i \<and> ct_request_id p = ct_request_id c))"

definition threaded :: "'z discussion_db_scheme \<Rightarrow> bool" where
  "threaded s \<longleftrightarrow> (\<forall>c \<in> set (t_comments s). answered (t_comments s) c)"

lemma net_stable_threaded: "net_stable threaded"
  by (rule net_stableI) (simp add: threaded_def)

lemma threaded_reads:
  fixes m :: "('z discussion_db_scheme, 'a) eff"
  assumes "read_only m"
  shows "preserves threaded m"
proof (rule preservesI)
  fix s :: "'z discussion_db_scheme" assume "threaded s"
  moreover obtain ds where "snd (m s) = s\<lparr>net := ds\<rparr>" using assms by (auto simp: read_only_def same_data_def)
  ultimately show "threaded (snd (m s))" by (simp add: threaded_def)
qed

lemma threaded_audit: "preserves threaded (record_event act au ar am ac)"
  unfolding record_event_def
proof (rule preserves_insert_row [OF net_stable_threaded])
  show "preserves threaded (insert_stmt audit_table mk)" for mk
    by (rule preservesI) (simp add: insert_stmt_def Let_def threaded_def split: option.splits)
qed

lemma answered_mono: "answered cs c \<Longrightarrow> set cs \<subseteq> set ds \<Longrightarrow> answered ds c"
  by (fastforce simp: answered_def)

lemma either: "Q x \<Longrightarrow> Q y \<Longrightarrow> Q (if b then x else y)"
  by simp

text \<open>While the comment to be answered is there, an insertion of its answer keeps the threads.\<close>

definition awaits :: "uuid \<Rightarrow> uuid option \<Rightarrow> 'z discussion_db_scheme \<Rightarrow> bool" where
  "awaits r parent s \<longleftrightarrow> threaded s \<and> (\<forall>i. parent = Some i \<longrightarrow> (\<exists>p \<in> set (t_comments s). ct_id p = i \<and> ct_request_id p = r))"

lemma net_stable_awaits: "net_stable (awaits r parent)"
  by (rule net_stableI) (simp add: awaits_def threaded_def)

lemma awaits_insert: "preserves (awaits r parent) (create_comment_row r author body parent)"
  unfolding create_comment_row_def
proof (rule preserves_insert_row [OF net_stable_awaits], rule preservesI)
  fix s :: "'z discussion_db_scheme"
  assume s: "awaits r parent s"
  let ?c = "\<lparr>ct_id = next_uuid s, ct_request_id = r, ct_author_id = author, ct_parent_comment_id = parent, ct_body = body,
        ct_deleted_at = None, ct_deleted_by = None, ct_created_at = clock s\<rparr>"
  let ?t = "s\<lparr>t_comments := t_comments s @ [?c], next_uuid := Suc (next_uuid s)\<rparr>"
  have "answered (t_comments s @ [?c]) c" if "c \<in> set (t_comments s)" for c
  proof (rule answered_mono)
    show "answered (t_comments s) c" using s that unfolding awaits_def threaded_def by blast
  qed auto
  moreover have "answered (t_comments s @ [?c]) ?c"
    using s unfolding awaits_def answered_def by fastforce
  ultimately have "\<forall>c \<in> set (t_comments s @ [?c]). answered (t_comments s @ [?c]) c" by simp
  then have "threaded ?t" by (simp add: threaded_def)
  moreover have "\<forall>i. parent = Some i \<longrightarrow> (\<exists>p \<in> set (t_comments ?t). ct_id p = i \<and> ct_request_id p = r)"
    using s unfolding awaits_def by fastforce
  ultimately have t: "awaits r parent ?t" by (simp add: awaits_def)
  have ins: "snd (insert_stmt comment_table (\<lambda>new_id now.
       \<lparr>ct_id = new_id, ct_request_id = r, ct_author_id = author, ct_parent_comment_id = parent,
        ct_body = body, ct_deleted_at = None, ct_deleted_by = None, ct_created_at = now\<rparr>) s) =
      (if check_comment s ?c = None then ?t else s)"
    by (simp add: insert_stmt_def Let_def split: option.splits)
  show "awaits r parent (snd (insert_stmt comment_table (\<lambda>new_id now.
       \<lparr>ct_id = new_id, ct_request_id = r, ct_author_id = author, ct_parent_comment_id = parent,
        ct_body = body, ct_deleted_at = None, ct_deleted_by = None, ct_created_at = now\<rparr>) s))"
    unfolding ins by (rule either [where Q = "awaits r parent", OF t s])
qed

lemma threaded_create:
  fixes f :: "comment_record \<Rightarrow> ('z discussion_db_scheme, 'a) eff"
  assumes "\<And>x. preserves threaded (f x)"
  shows "preserves threaded (and_then (check_parent r parent) (\<lambda>_. and_then (db_call (create_comment_row r author body parent)) f))"
proof (rule preservesI)
  fix s :: "'z discussion_db_scheme" assume s: "threaded s"
  obtain x t where run: "check_parent r parent s = (x, t)" by fastforce
  have ro: "read_only (check_parent r parent :: ('z discussion_db_scheme, unit) eff)"
    unfolding check_parent_def find_comment_row_def by (auto intro!: reading split: option.splits)
  show "threaded (snd (and_then (check_parent r parent) (\<lambda>_. and_then (db_call (create_comment_row r author body parent)) f) s))"
  proof (cases x)
    case (Inl e)
    with preservesD [OF threaded_reads [OF ro] s] run show ?thesis by (simp add: and_then_def)
  next
    case (Inr u)
    have t: "threaded t" using preservesD [OF threaded_reads [OF ro] s] run by simp
    have "\<exists>p \<in> set (t_comments t). ct_id p = i \<and> ct_request_id p = r" if i: "parent = Some i" for i
    proof -
      obtain p where "find_by_id comment_table i s = (Inr (Some p), t)" "ct_request_id p = r"
        using run i Inr by (auto simp: check_parent_def find_comment_row_def and_then_eq_Inr eff_simps split: option.splits if_splits)
      with comments.find_by_id_Inr [OF this(1)] show ?thesis by auto
    qed
    with t have "awaits r parent t" by (simp add: awaits_def)
    from preservesD [OF awaits_insert this] have made: "threaded (snd (create_comment_row r author body parent t))"
      by (simp add: awaits_def)
    obtain y u where row: "db_call (create_comment_row r author body parent) t = (y, u)" by fastforce
    with made have "threaded u" by (simp add: db_call_def catching_apply split: prod.splits sum.splits)
    moreover have "and_then (check_parent r parent) (\<lambda>_. and_then (db_call (create_comment_row r author body parent)) f) s =
        (case y of Inl e \<Rightarrow> (Inl e, u) | Inr z \<Rightarrow> f z u)"
      by (simp add: and_then_def run Inr row)
    ultimately show ?thesis using preservesD [OF assms] by (cases y) simp_all
  qed
qed

lemma threaded_soft_delete: "preserves threaded (soft_delete_comment_row i deleter)"
proof -
  have "preserves threaded (update_stmt comment_table (\<lambda>c. ct_id c = i) (\<lambda>c. c\<lparr>ct_deleted_at := Some now, ct_deleted_by := Some deleter\<rparr>))" for now
  proof (rule preservesI)
    fix s :: "'z discussion_db_scheme" assume s: "threaded s"
    define g where "g = (\<lambda>c :: comment_record. if ct_id c = i then c\<lparr>ct_deleted_at := Some now, ct_deleted_by := Some deleter\<rparr> else c)"
    have g: "ct_id (g c) = ct_id c" "ct_request_id (g c) = ct_request_id c" "ct_parent_comment_id (g c) = ct_parent_comment_id c" for c
      by (simp_all add: g_def)
    have "answered (map g (t_comments s)) (g c)" if "c \<in> set (t_comments s)" for c
      unfolding answered_def
    proof (intro allI impI)
      fix j assume "ct_parent_comment_id (g c) = Some j"
      then have "ct_parent_comment_id c = Some j" by (simp add: g)
      moreover have "answered (t_comments s) c" using s that unfolding threaded_def by blast
      ultimately obtain p where "p \<in> set (t_comments s)" "ct_id p = j" "ct_request_id p = ct_request_id c"
        unfolding answered_def by blast
      then show "\<exists>p \<in> set (map g (t_comments s)). ct_id p = j \<and> ct_request_id p = ct_request_id (g c)"
        by (intro bexI [of _ "g p"]) (simp_all add: g)
    qed
    then have "threaded (s\<lparr>t_comments := map g (t_comments s)\<rparr>)" by (simp add: threaded_def)
    moreover have "snd (update_stmt comment_table (\<lambda>c. ct_id c = i) (\<lambda>c. c\<lparr>ct_deleted_at := Some now, ct_deleted_by := Some deleter\<rparr>) s) \<in>
        {s, s\<lparr>t_comments := map g (t_comments s)\<rparr>}"
      by (simp add: update_stmt_def Let_def g_def split: option.splits)
    ultimately show "threaded (snd (update_stmt comment_table (\<lambda>c. ct_id c = i)
        (\<lambda>c. c\<lparr>ct_deleted_at := Some now, ct_deleted_by := Some deleter\<rparr>) s))"
      using s by fastforce
  qed
  then show ?thesis
    unfolding soft_delete_comment_row_def
    by (intro pres_flow preserves_execute preserves_single_row net_stable_threaded)
qed

lemma read_only_view [reading]: "read_only (authorize_view ident r)" "read_only (list_comment_rows r p)"
  unfolding authorize_view_def fetch_request_of_company_def is_assigned_to_any_stage_def hidden_as_not_found_def
    list_stages_for_request_def get_request_row_def list_comment_rows_def
  by (auto intro!: reading)

lemma read_only_row: "read_only (get_comment_row i)" "read_only (get_request_row j)" "read_only (get_existing k)"
  unfolding get_comment_row_def get_request_row_def get_existing_def get_attachment_row_def by (intro reading)+

lemma threaded_call: "preserves threaded (call_discussion c)"
proof (cases c)
  case (ListComments ident r p)
  then show ?thesis by (auto simp: list_comments_def intro!: threaded_reads reading)
next
  case (AddComment ident r body parent)
  then show ?thesis
    by (auto simp: add_comment_def intro!: pres_flow pres_calls threaded_reads [OF read_only_view(1)] threaded_create threaded_audit
        split: prod.splits)
next
  case (RemoveComment ident i)
  from RemoveComment show ?thesis
    by (auto simp: remove_comment_def intro!: pres_flow pres_calls threaded_reads [OF read_only_row(1)] threaded_reads [OF read_only_row(2)] threaded_soft_delete threaded_audit)
qed

text \<open>
  Over any sequence of calls of the comment service and any network, every reply answers a comment that
  is in the table, on the same request.
\<close>

theorem threads_stay_on_request:
  assumes "threaded s" "c \<in> set (t_comments (run_discussion calls s))" "ct_parent_comment_id c = Some i"
  shows "\<exists>p \<in> set (t_comments (run_discussion calls s)). ct_id p = i \<and> ct_request_id p = ct_request_id c"
proof -
  have "threaded (run_discussion calls u)" if "threaded u" for u
    using that
  proof (induction calls arbitrary: u)
    case (Cons d ds)
    from Cons.IH [OF preservesD [OF threaded_call Cons.prems]] show ?case by (simp add: run_discussion_def)
  qed (simp add: run_discussion_def)
  from this [OF assms(1)] assms(2,3) show ?thesis unfolding threaded_def answered_def by blast
qed

section \<open>A removed comment\<close>

text \<open>The rows of \<open>xs\<close> with the stamp on those of id \<open>i\<close>.\<close>

definition stamped :: "timestamp \<Rightarrow> uuid \<Rightarrow> comment_record \<Rightarrow> comment_record" where
  "stamped now deleter c = c\<lparr>ct_deleted_at := Some now, ct_deleted_by := Some deleter\<rparr>"

lemma comment_removed:
  fixes s :: "'z discussion_db_scheme"
  assumes "quiet s" "soft_delete_comment_row i deleter s = (Inr c, t)"
  shows "\<exists>c0 rest. filter (\<lambda>c. ct_id c = i) (t_comments s) = c0 # rest \<and> c = stamped (clock s) deleter c0 \<and>
    t = s\<lparr>t_comments := map (\<lambda>x. if ct_id x = i then stamped (clock s) deleter x else x) (t_comments s)\<rparr>"
proof -
  let ?f = "\<lambda>c. c\<lparr>ct_deleted_at := Some (clock s), ct_deleted_by := Some deleter\<rparr>"
  obtain rows u where run: "execute ''soft_delete'' ''comments'' (update_stmt comment_table (\<lambda>c. ct_id c = i) ?f) s = (Inr rows, u)"
      "single_row ''comments'' i rows u = (Inr c, t)"
    using assms(2) by (auto simp: soft_delete_comment_row_def and_then_eq_Inr gets_apply)
  from run(2) have row: "\<exists>rest. rows = c # rest" and "u = t" by (auto simp: single_row_def eff_simps split: list.split_asm)
  with run(1) have ex: "execute ''soft_delete'' ''comments'' (update_stmt comment_table (\<lambda>c. ct_id c = i) ?f) s = (Inr rows, t)" by simp
  from comments.update_lossless [OF quiet_lossless [OF assms(1)] ex] obtain ds where
    t: "set ds \<subseteq> set (net s)" "rows = map ?f (filter (\<lambda>c. ct_id c = i) (t_comments s))"
      "t = s\<lparr>t_comments := map (\<lambda>c. if ct_id c = i then ?f c else c) (t_comments s), net := ds\<rparr>"
    by auto
  from row t(2) obtain c0 rest where found: "filter (\<lambda>c. ct_id c = i) (t_comments s) = c0 # rest" and c: "c = ?f c0"
    by (auto simp: Cons_eq_map_conv)
  have "ds = net s" using assms(1) t(1) by (simp add: quiet_def)
  then have "t = s\<lparr>t_comments := map (\<lambda>x. if ct_id x = i then stamped (clock s) deleter x else x) (t_comments s)\<rparr>"
    using t(3) by (simp add: stamped_def cong: if_cong)
  with found c show ?thesis by (simp add: stamped_def)
qed

lemma quiet_event:
  fixes s :: "'z discussion_db_scheme"
  assumes "quiet s" "record_event act au ar am ac s = (Inr e, t)"
  shows "e = \<lparr>au_id = next_uuid s, au_actor_id = au, au_request_id = ar, au_action = act, au_metadata = am,
      au_created_at = clock s, au_company_id = ac\<rparr> \<and> t = s\<lparr>t_audit := t_audit s @ [e], next_uuid := Suc (next_uuid s)\<rparr>"
proof -
  from audits.insert_lossless [OF quiet_lossless [OF assms(1)] assms(2) [unfolded record_event_def]] obtain ds where
    "set ds \<subseteq> set (net s)" "e = \<lparr>au_id = next_uuid s, au_actor_id = au, au_request_id = ar, au_action = act, au_metadata = am,
      au_created_at = clock s, au_company_id = ac\<rparr>" "t = s\<lparr>t_audit := t_audit s @ [e], next_uuid := Suc (next_uuid s), net := ds\<rparr>"
    by auto
  moreover from calculation(1) have "ds = net s" using assms(1) by (simp add: quiet_def)
  ultimately show ?thesis by simp
qed

lemma mapped_member: "map_result f xs = Inr ys \<Longrightarrow> f x = Inr y \<Longrightarrow> x \<in> set xs \<Longrightarrow> y \<in> set ys"
  by (induction xs arbitrary: ys) (auto simp: bind_result_def split: sum.splits)

text \<open>
  C19. A comment that was removed is still listed with its text: every caller who may see the request gets it,
  body included, from the service. The removal only adds the stamp: the comments with that id get the time and
  the remover, their author, thread, text and creation time as they were; every other comment is as it was; one
  \<open>COMMENT_REMOVED\<close> entry is in the audit trail; and nothing else in the database has changed.
\<close>

theorem removed_comment_readable:
  fixes s :: "'z discussion_db_scheme"
  assumes "quiet s" "remove_comment ident i s = (Inr c, t)"
    and "list_comments ident' (ct_request_id c) p t = (Inr res, u)"
    and "pg_number p = 1" "int (length (t_comments s)) \<le> pg_size p"
  shows "\<exists>c0 \<in> set (t_comments s). ct_id c0 = i \<and> c \<in> set (res_items res) \<and>
    c = c0\<lparr>ct_body := strip (ct_body c0), ct_deleted_at := Some (clock s), ct_deleted_by := Some (id_user_id ident)\<rparr> \<and>
    t = s\<lparr>t_comments := map (\<lambda>x. if ct_id x = i
            then x\<lparr>ct_deleted_at := Some (clock s), ct_deleted_by := Some (id_user_id ident)\<rparr> else x) (t_comments s),
          t_audit := t_audit s @ [\<lparr>au_id = next_uuid s, au_actor_id = Some (id_user_id ident),
            au_request_id = Some (ct_request_id c0), au_action = ''COMMENT_REMOVED'',
            au_metadata = Some [(''comment_id'', MetaId i)], au_created_at = clock s, au_company_id = None\<rparr>],
          next_uuid := Suc (next_uuid s)\<rparr>"
proof -
  obtain existing request removed e s1 s2 t1 where steps: "get_by_id comment_table i s = (Inr existing, s1)"
      "get_by_id request_table (ct_request_id existing) s1 = (Inr request, s2)"
      "soft_delete_comment_row i (id_user_id ident) s2 = (Inr removed, t1)"
      "record_event (audit_action_value COMMENT_REMOVED) (Some (id_user_id ident)) (Some (ct_request_id existing))
         (Some [(''comment_id'', MetaId i)]) None t1 = (Inr e, t)" "Comment removed = Inr c"
    using assms(2) unfolding remove_comment_def get_comment_row_def get_request_row_def and_then_eq_Inr guard_that_apply
      lookup_call_eq_Inr db_call_eq_Inr auth_call_eq_Inr gets_apply pure_apply
    by (auto split: if_splits)
  have "s1 = s" using comments.get_by_id_Inr [OF steps(1)] assms(1) read_onlyD [OF read_only_get_by_id steps(1)]
    by (simp add: quiet_same)
  moreover have "s2 = s1" using read_onlyD [OF read_only_get_by_id steps(2)] assms(1) \<open>s1 = s\<close> by (simp add: quiet_same)
  ultimately obtain c0 rest where found: "filter (\<lambda>c. ct_id c = i) (t_comments s) = c0 # rest" and c0: "removed = stamped (clock s) (id_user_id ident) c0"
      "t1 = s\<lparr>t_comments := map (\<lambda>x. if ct_id x = i then stamped (clock s) (id_user_id ident) x else x) (t_comments s)\<rparr>"
    using comment_removed [OF assms(1)] steps(3) by blast
  have "c0 \<in> set (filter (\<lambda>c. ct_id c = i) (t_comments s))" by (simp only: found) simp
  then have member: "c0 \<in> set (t_comments s)" "ct_id c0 = i" by simp_all
  have "existing = c0"
    using steps(1) comments.get_by_id_delivered [of s i] assms(1) found by (simp add: quiet_def)
  have "quiet t1" using assms(1) by (simp add: c0(2) quiet_def)
  note t = quiet_event [OF this steps(4)]
  have quiet: "quiet t" using t assms(1) by (simp add: c0(2) quiet_def)
  have c: "c = removed\<lparr>ct_body := strip (ct_body removed)\<rparr>" using steps(5) by (auto simp: Comment_def Let_def split: if_splits)
  obtain v result items w where list: "authorize_view ident' (ct_request_id c) t = (Inr (), v)"
      "list_comment_rows (ct_request_id c) p v = (Inr result, w)" "map_result Comment (res_items result) = Inr items" "res_items res = items"
    using assms(3) by (auto simp: list_comments_def and_then_eq_Inr eff_simps)
  have "v = t" using read_onlyD [OF read_only_view(1) list(1)] quiet by (simp add: quiet_same)
  have "length (filter (\<lambda>x. ct_request_id x = ct_request_id c) (t_comments t)) \<le> length (t_comments s)"
    using length_filter_le [of _ "t_comments t"] t c0(2) by simp
  then have all: "res_items result = sort_key ct_created_at (filter (\<lambda>x. ct_request_id x = ct_request_id c) (t_comments t))"
    using list(2) paginate_quiet [OF quiet, of comment_table _ p] assms(4,5) \<open>v = t\<close>
    by (auto simp: list_comment_rows_def row_range_def page_offset_def page_upper_bound_def)
  have "ct_request_id removed = ct_request_id c" by (simp add: c)
  moreover have "removed \<in> set (t_comments t)" using t c0 member by force
  ultimately have "removed \<in> set (res_items result)" using all by simp
  with list(3) steps(5) have listed: "c \<in> set items" by (rule mapped_member)
  with \<open>existing = c0\<close> show ?thesis using c0 member list(4) t
    by (intro bexI [of _ c0]) (simp_all add: c stamped_def cong: if_cong)
qed

section \<open>An upload\<close>

text \<open>A storage service that has an object once it has taken it, and no longer once it has removed it.\<close>

definition honest_storage :: "'z discussion_db_scheme attachment_config \<Rightarrow> bool" where
  "honest_storage cfg \<longleftrightarrow>
     (\<forall>path content ct s. snd (sc_upload (ac_storage cfg) path content ct s) =
        (if is_ok (fst (sc_upload (ac_storage cfg) path content ct s))
         then s\<lparr>d_objects := (d_objects s)(path := Some content)\<rparr> else s)) \<and>
     (\<forall>path s. snd (sc_remove (ac_storage cfg) path s) =
        (if is_ok (fst (sc_remove (ac_storage cfg) path s)) then s\<lparr>d_objects := (d_objects s)(path := None)\<rparr> else s)) \<and>
     (\<forall>content s. snd (ac_scan cfg content s) = s)"

lemma insert_attachment_statement: "statement (insert_attachment_stmt mk)"
proof (rule statementI)
  show "net_free (insert_attachment_stmt mk)"
    using attachments.insert_net_free [of "\<lambda>_. mk"]
    by (auto simp: net_free_def insert_attachment_stmt_def)
  show "t = s" if "insert_attachment_stmt mk s = (Inl e, t)" for s e t
    using that by (auto simp: insert_attachment_stmt_def insert_stmt_def Let_def split: if_splits option.splits)
  show "net (snd (insert_attachment_stmt mk s)) = net s" for s
    by (simp add: insert_attachment_stmt_def insert_stmt_def Let_def split: option.splits)
qed

lemma create_attachment_lossless:
  fixes s :: "'z discussion_db_scheme"
  assumes "lossless s" "create_attachment_row mk s = (r, t)"
  shows "case r of
      Inr a \<Rightarrow> \<exists>ds. set ds \<subseteq> set (net s) \<and> a = mk (clock s) \<and>
        t = s\<lparr>t_attachments := t_attachments s @ [a], next_uuid := Suc (next_uuid s), net := ds\<rparr>
    | Inl e \<Rightarrow> same_data s t \<and> is_database_error e"
proof -
  obtain r1 u where ex: "execute ''insert'' ''attachments'' (insert_attachment_stmt mk) s = (r1, u)" by fastforce
  note run = lossless_execute [OF insert_attachment_statement assms(1) ex]
  show ?thesis
  proof (cases r1)
    case (Inl e)
    with run ex assms(2) execute_raises_db [OF ex [unfolded Inl]] show ?thesis
      by (auto simp: create_attachment_row_def and_then_def)
  next
    case (Inr rows)
    with run obtain ds where u: "set ds \<subseteq> set (net s)" "fst (insert_attachment_stmt mk s) = Inr rows"
        "u = (snd (insert_attachment_stmt mk s))\<lparr>net := ds\<rparr>" by auto
    from u(2) have "rows = [mk (clock s)]" "snd (insert_attachment_stmt mk s) =
        s\<lparr>t_attachments := t_attachments s @ [mk (clock s)], next_uuid := Suc (next_uuid s)\<rparr>"
      by (auto simp: insert_attachment_stmt_def insert_stmt_def Let_def split: if_splits option.splits)
    with u ex Inr assms(2) have "r = Inr (mk (clock s))" "t = s\<lparr>t_attachments := t_attachments s @ [mk (clock s)],
        next_uuid := Suc (next_uuid s), net := ds\<rparr>"
      by (auto simp: create_attachment_row_def and_then_def single_row_def eff_simps)
    with u(1) show ?thesis by (simp only: sum.case) (intro exI [of _ ds], simp)
  qed
qed

lemma storage_call_result:
  "storage_call (storage_error op m) s = (r, t) \<Longrightarrow> snd (m s) = t \<and> is_ok r = is_ok (fst (m s))"
  by (auto simp: storage_call_def storage_error_def catching_apply is_ok_def split: prod.splits sum.splits)

lemma cleanup_result:
  "cleanup_orphaned_storage_object C path s = (Inr (), snd (sc_remove C path s))"
  by (auto simp: cleanup_orphaned_storage_object_def gateway_remove_def storage_error_def handle_def catching_apply eff_simps
      split: prod.splits sum.splits)

definition uploaded_row ::
  "'z discussion_db_scheme attachment_config \<Rightarrow> identity \<Rightarrow> uuid \<Rightarrow> string \<Rightarrow> string \<Rightarrow> string \<Rightarrow> int \<Rightarrow> uuid option \<Rightarrow>
   string \<Rightarrow> scan_status \<Rightarrow> uuid \<Rightarrow> timestamp \<Rightarrow> attachment_record" where
  "uploaded_row cfg ident r file_name content_type content version replaces name scanned i now =
     \<lparr>ah_id = i, ah_request_id = r, ah_uploaded_by = id_user_id ident, ah_file_name = file_name,
      ah_content_type = content_type, ah_size_bytes = int (length content),
      ah_storage_path = build_storage_path (ac_show_uuid cfg) r i name, ah_checksum = ac_sha256 cfg content,
      ah_version = version, ah_replaces = replaces, ah_scan_status = scanned, ah_deleted_at = None, ah_deleted_by = None,
      ah_created_at = now\<rparr>"

definition acceptable_upload :: "string \<Rightarrow> string \<Rightarrow> string \<Rightarrow> string \<Rightarrow> bool" where
  "acceptable_upload file_name content_type content name \<longleftrightarrow>
     sanitize_filename file_name = Inr name \<and> content_type \<in> set ALLOWED_ATTACHMENT_CONTENT_TYPES \<and>
     content \<noteq> [] \<and> length content \<le> 26214400 \<and> validate_content_type_consistency content_type content = Inr ()"

lemma validate_upload_result:
  "validate_upload file_name content_type content s = (r, t) \<Longrightarrow> t = s \<and>
     (\<forall>name. r = Inr name \<longleftrightarrow> acceptable_upload file_name content_type content name)"
  by (auto simp: validate_upload_def and_then_def file_call_def eff_simps acceptable_upload_def validate_content_type_def
      validate_file_size_def MAX_ATTACHMENT_SIZE_BYTES_def split: sum.splits if_splits)

text \<open>
  C17. What an upload leaves, over any network that loses no response. When it returns, the file had a
  permitted type, size and content, the object is stored under its path, and the row and one audit entry are
  written. When it raises, no row is left or the row that is left has its object: there is never a
  row without its file.
\<close>

theorem upload_outcome:
  fixes s :: "'z discussion_db_scheme"
  assumes "honest_storage cfg" "lossless s"
    and "store_new_attachment cfg ident r file_name content_type content version replaces s = (res, t)"
  shows "(case res of
      Inr a \<Rightarrow> \<exists>name scanned row. acceptable_upload file_name content_type content name \<and>
        row = uploaded_row cfg ident r file_name content_type content version replaces name scanned (next_uuid s) (clock s) \<and>
        Attachment row = Inr a \<and> t_attachments t = t_attachments s @ [row] \<and> d_objects t (ah_storage_path row) = Some content \<and>
        (\<exists>e. t_audit t = t_audit s @ [e] \<and> au_action e = ''ATTACHMENT_UPLOADED'' \<and> au_request_id e = Some r)
    | Inl e \<Rightarrow> t_attachments t = t_attachments s \<and> t_audit t = t_audit s \<or>
        (\<exists>row. t_attachments t = t_attachments s @ [row] \<and> ah_deleted_at row = None \<and>
           d_objects t (ah_storage_path row) = Some content))"
proof -
  obtain v s0 where val: "validate_upload file_name content_type content s = (v, s0)" by fastforce
  note vr = validate_upload_result [OF val]
  show ?thesis
  proof (cases v)
    case (Inl e)
    with assms(3) val vr show ?thesis by (auto simp: store_new_attachment_def and_then_def)
  next
    case (Inr name)
    with vr have ok: "acceptable_upload file_name content_type content name" "s0 = s" by auto
    define i where "i = next_uuid s"
    define path where "path = build_storage_path (ac_show_uuid cfg) r i name"
    define s1 where "s1 = s\<lparr>next_uuid := Suc i\<rparr>"
    define row where "row = (\<lambda>scanned. uploaded_row cfg ident r file_name content_type content version replaces name scanned i (clock s))"
    define event where "event = (\<lambda>a :: attachment_record. record_event (audit_action_value ATTACHMENT_UPLOADED)
        (Some (id_user_id ident)) (Some r) (Some [(''attachment_id'', MetaId (ah_id a)), (''file_name'', MetaText file_name)]) None
        :: ('z discussion_db_scheme, audit_record) eff)"
    define rest where "rest = (\<lambda>scanned. and_then (create_or_clean_up (ac_storage cfg) path
        (uploaded_row cfg ident r file_name content_type content version replaces name scanned i)) (\<lambda>created.
        and_then (db_call (event created)) (\<lambda>_. pure (Attachment created))))"
    have run: "and_then (storage_call (gateway_upload (ac_storage cfg) path content content_type)) (\<lambda>_.
        and_then (ac_scan cfg content) rest) s1 = (res, t)"
      using assms(3) val Inr ok(2)
      by (simp add: store_new_attachment_def and_then_def new_uuid_def Let_def i_def path_def s1_def rest_def event_def
          uploaded_row_def [abs_def])
    obtain r1 s2 where up: "storage_call (gateway_upload (ac_storage cfg) path content content_type) s1 = (r1, s2)" by fastforce
    have s2: "s2 = (if is_ok r1 then s1\<lparr>d_objects := (d_objects s1)(path := Some content)\<rparr> else s1)"
      using storage_call_result [OF up [unfolded gateway_upload_def]] assms(1) unfolding honest_storage_def by metis
    show ?thesis
    proof (cases r1)
      case (Inl e)
      with run up s2 have "res = Inl e" "t = s1" by (simp_all add: and_then_def is_ok_def)
      then show ?thesis by (simp add: s1_def)
    next
      case stored: (Inr x)
      then have s2': "s2 = s1\<lparr>d_objects := (d_objects s1)(path := Some content)\<rparr>" using s2 by (simp add: is_ok_def)
      obtain r3 where scan: "ac_scan cfg content s2 = (r3, s2)"
        using assms(1) unfolding honest_storage_def by (metis prod.collapse)
      show ?thesis
      proof (cases r3)
        case (Inl e)
        with run up stored scan have "res = Inl e" "t = s2" by (simp_all add: and_then_def)
        then show ?thesis by (simp add: s2' s1_def)
      next
        case (Inr scanned)
        let ?mk = "uploaded_row cfg ident r file_name content_type content version replaces name scanned i"
        from run up stored scan Inr have rest: "rest scanned s2 = (res, t)" by (simp add: and_then_def)
        obtain r4 s3 where row: "create_attachment_row ?mk s2 = (r4, s3)" by fastforce
        have "lossless s2" using assms(2) by (simp add: s2' s1_def lossless_def)
        note made = create_attachment_lossless [OF this row]
        show ?thesis
        proof (cases r4)
          case (Inl e)
          with made have "same_data s2 s3" "is_database_error e" by simp_all
          then have fail: "create_or_clean_up (ac_storage cfg) path ?mk s2 =
              (Inl (translate_database_error e), snd (sc_remove (ac_storage cfg) path s3))"
            using row Inl by (simp add: create_or_clean_up_def handle_def and_then_def cleanup_result eff_simps)
          have "t = snd (sc_remove (ac_storage cfg) path s3)" "\<exists>e. res = Inl e"
            using rest fail by (auto simp: rest_def and_then_def)
          moreover have "t_attachments (snd (sc_remove (ac_storage cfg) path s3)) = t_attachments s3 \<and>
              t_audit (snd (sc_remove (ac_storage cfg) path s3)) = t_audit s3"
            using assms(1) unfolding honest_storage_def by simp
          moreover have "t_attachments s3 = t_attachments s \<and> t_audit s3 = t_audit s"
            using \<open>same_data s2 s3\<close> by (auto simp: same_data_def s2' s1_def)
          ultimately show ?thesis by auto
        next
          case created: (Inr a)
          with made obtain ds where a: "a = ?mk (clock s)" "set ds \<subseteq> set (net s)"
              "s3 = s2\<lparr>t_attachments := t_attachments s2 @ [a], next_uuid := Suc (next_uuid s2), net := ds\<rparr>"
            by (auto simp: s2' s1_def)
          have path: "ah_storage_path a = path" "ah_deleted_at a = None" by (simp_all add: a(1) uploaded_row_def path_def)
          have "create_or_clean_up (ac_storage cfg) path ?mk s2 = (Inr a, s3)"
            using row created by (simp add: create_or_clean_up_def handle_def)
          then have end_of: "and_then (db_call (event a)) (\<lambda>_. pure (Attachment a)) s3 = (res, t)"
            using rest by (simp add: rest_def and_then_def)
          have left: "t_attachments s3 = t_attachments s @ [a]" "d_objects s3 path = Some content" "lossless s3" "t_audit s3 = t_audit s"
            using assms(2) a(2) by (auto simp: a(3) s2' s1_def lossless_def)
          obtain r5 s4 where ev: "event a s3 = (r5, s4)" by fastforce
          note logged = audits.insert_lossless [OF left(3) ev [unfolded event_def record_event_def]]
          show ?thesis
          proof (cases r5)
            case (Inl e)
            with logged have "t_attachments s4 = t_attachments s3" "d_objects s4 = d_objects s3" by (auto simp: same_data_def)
            moreover have "t = s4" "\<exists>e. res = Inl e" using end_of ev Inl by (auto simp: and_then_def db_call_def catching_apply)
            ultimately show ?thesis using left path by auto
          next
            case written: (Inr entry)
            with logged have s4: "t_audit s4 = t_audit s @ [entry]" "t_attachments s4 = t_attachments s3" "d_objects s4 = d_objects s3"
                "au_action entry = ''ATTACHMENT_UPLOADED''" "au_request_id entry = Some r"
              by (auto simp: left(4))
            have t: "t = s4" "res = Attachment a" using end_of ev written by (simp_all add: and_then_def db_call_def catching_apply pure_apply)
            have "a = uploaded_row cfg ident r file_name content_type content version replaces name scanned (next_uuid s) (clock s)"
              by (simp add: a(1) i_def)
            with s4 t left path ok(1) show ?thesis
              by (cases "Attachment a") auto
          qed
        qed
      qed
    qed
  qed
qed

lemma insert_unheard:
  fixes s :: "'z discussion_db_scheme"
  assumes "net s = [ResponseLost]" "check_attachment s (mk (clock s)) = None" "\<not> attachment_exists s (ah_id (mk (clock s)))"
  shows "create_attachment_row mk s = (Inl (Raised (Db (ConstraintViolationError ''attachments'' ''unique''))),
     s\<lparr>net := [], t_attachments := t_attachments s @ [mk (clock s)], next_uuid := Suc (next_uuid s)\<rparr>)"
proof -
  let ?a = "mk (clock s)"
  let ?t = "s\<lparr>net := [], t_attachments := t_attachments s @ [?a], next_uuid := Suc (next_uuid s)\<rparr>"
  have "check_attachment (s\<lparr>net := []\<rparr>) ?a = None" using assms(2) attachments.check_net [where s = s and ds = "[]"] by simp
  then have first: "insert_attachment_stmt mk (s\<lparr>net := []\<rparr>) = (Inr [?a], ?t)"
    using assms(3) by (simp add: insert_attachment_stmt_def insert_stmt_def Let_def)
  have second: "insert_attachment_stmt mk ?t = (Inl (Raised (Client (APIError unique_violation ''''))), ?t)"
    by (simp add: insert_attachment_stmt_def attachment_exists_def)
  show ?thesis
    using assms(1) first second
    by (simp add: create_attachment_row_def execute_def retry_call_def TRANSIENT_RETRY_POLICY_def numeral_3_eq_3 handle_def attempt_def
        eff_simps and_then_def unique_violation_def)
qed

text \<open>
  C18. When the response to the insertion of the row is lost, an upload loses the file: the statement is sent
  again, is refused because the row exists, and the clean-up removes the object. The caller is told that the
  upload failed; the row is live and its file is gone.
\<close>

theorem lost_response_loses_file:
  fixes s :: "'z discussion_db_scheme"
  assumes "honest_storage cfg" "net s = [ResponseLost]" "\<forall>a \<in> set (t_attachments s). ah_id a < next_uuid s"
    and "acceptable_upload file_name content_type content name"
    and "\<And>path u. is_ok (fst (sc_upload (ac_storage cfg) path content content_type u)) \<and> is_ok (fst (sc_remove (ac_storage cfg) path u))"
    and "\<And>u. fst (ac_scan cfg content u) = Inr scanned"
    and "check_attachment s (uploaded_row cfg ident r file_name content_type content version replaces name scanned (next_uuid s) (clock s)) = None"
  shows "\<exists>t row e. store_new_attachment cfg ident r file_name content_type content version replaces s = (Inl (Service e), t) \<and>
    t_attachments t = t_attachments s @ [row] \<and> ah_deleted_at row = None \<and> d_objects t (ah_storage_path row) = None"
proof -
  define i where "i = next_uuid s"
  define path where "path = build_storage_path (ac_show_uuid cfg) r i name"
  define mk where "mk = uploaded_row cfg ident r file_name content_type content version replaces name scanned i"
  define s2 where "s2 = s\<lparr>next_uuid := Suc i, d_objects := (d_objects s)(path := Some content)\<rparr>"
  define s3 where "s3 = s2\<lparr>net := [], t_attachments := t_attachments s2 @ [mk (clock s2)], next_uuid := Suc (next_uuid s2)\<rparr>"
  have up: "storage_call (gateway_upload (ac_storage cfg) path content content_type) (s\<lparr>next_uuid := Suc i\<rparr>) = (Inr (), s2)"
  proof -
    obtain x t where run: "storage_call (gateway_upload (ac_storage cfg) path content content_type) (s\<lparr>next_uuid := Suc i\<rparr>) = (x, t)"
      by fastforce
    from storage_call_result [OF run [unfolded gateway_upload_def]] assms(1,5) have "is_ok x" "t = s2"
      unfolding honest_storage_def by (auto simp: s2_def)
    with run show ?thesis by (cases x) (simp_all add: is_ok_def)
  qed
  have scan: "ac_scan cfg content s2 = (Inr scanned, s2)"
    using assms(1,6) unfolding honest_storage_def by (metis prod.collapse)
  have "ah_id (mk (clock s2)) = i" by (simp add: mk_def uploaded_row_def)
  then have fresh: "\<not> attachment_exists s2 (ah_id (mk (clock s2)))"
    using assms(3) by (auto simp: attachment_exists_def list_ex_iff s2_def i_def)
  have "request_exists s2 = request_exists s" "profile_exists s2 = profile_exists s" "attachment_exists s2 = attachment_exists s"
      "t_attachments s2 = t_attachments s" "clock s2 = clock s"
    by (simp_all add: s2_def fun_eq_iff request_exists_def profile_exists_def attachment_exists_def)
  then have "check_attachment s2 (mk (clock s2)) = None"
    using assms(7) by (simp only: check_attachment_def mk_def i_def)
  moreover have "net s2 = [ResponseLost]" using assms(2) by (simp add: s2_def)
  ultimately have row: "create_attachment_row mk s2 =
      (Inl (Raised (Db (ConstraintViolationError ''attachments'' ''unique''))), s3)"
    unfolding s3_def using fresh by (intro insert_unheard)
  define t where "t = snd (sc_remove (ac_storage cfg) path s3)"
  have "create_or_clean_up (ac_storage cfg) path mk s2 =
      (Inl (Service (database_error_class (ConstraintViolationError ''attachments'' ''unique''))), t)"
    by (simp add: create_or_clean_up_def handle_def row and_then_def cleanup_result eff_simps t_def)
  moreover have "validate_upload file_name content_type content s = (Inr name, s)"
    using validate_upload_result [of file_name content_type content s] assms(4) by (metis prod.collapse)
  ultimately have "store_new_attachment cfg ident r file_name content_type content version replaces s =
      (Inl (Service (database_error_class (ConstraintViolationError ''attachments'' ''unique''))), t)"
    using up scan
    by (simp add: store_new_attachment_def and_then_def new_uuid_def Let_def uploaded_row_def [abs_def] i_def [symmetric]
        path_def [symmetric] mk_def)
  moreover have "t = s3\<lparr>d_objects := (d_objects s3)(path := None)\<rparr>"
    using assms(1,5) unfolding honest_storage_def t_def by simp
  moreover have "ah_storage_path (mk (clock s2)) = path" "ah_deleted_at (mk (clock s2)) = None"
    by (simp_all add: mk_def uploaded_row_def path_def)
  ultimately show ?thesis
    by (intro exI [of _ t] exI [of _ "mk (clock s2)"] exI conjI) (assumption, simp_all only:, simp_all add: s3_def s2_def)
qed

section \<open>Instances\<close>

text \<open>A storage service that keeps what it is given, and no scanner.\<close>

definition sample_storage :: "'z discussion_db_scheme storage_client" where
  "sample_storage = \<lparr>sc_upload = (\<lambda>path content ct s. (Inr (), s\<lparr>d_objects := (d_objects s)(path := Some content)\<rparr>)),
     sc_download = (\<lambda>path s. (Inr (case d_objects s path of Some c \<Rightarrow> c | None \<Rightarrow> []), s)),
     sc_remove = (\<lambda>path s. (Inr (), s\<lparr>d_objects := (d_objects s)(path := None)\<rparr>)), sc_sign = (\<lambda>path n. return (Some path))\<rparr>"

definition sample_attachment_config :: "'z discussion_db_scheme attachment_config" where
  "sample_attachment_config = \<lparr>ac_storage = sample_storage, ac_scan = null_virus_scanner, ac_sha256 = (\<lambda>_. ''digest''),
     ac_show_uuid = (\<lambda>i. replicate i CHR ''a'')\<rparr>"

definition discussed_db :: "delivery list \<Rightarrow> discussion_db" where
  "discussed_db ds = \<lparr>t_profiles = t_profiles (sample_db []), t_definitions = t_definitions (sample_db []),
     t_requests = t_requests (sample_db []), t_stages = t_stages (sample_db []), t_audit = [], t_notifications = [],
     t_preferences = [], next_uuid = 100, clock = 5, net = ds,
     t_comments = [\<lparr>ct_id = 50, ct_request_id = 20, ct_author_id = 2, ct_parent_comment_id = None, ct_body = ''Why?'',
       ct_deleted_at = None, ct_deleted_by = None, ct_created_at = 1\<rparr>], t_attachments = [], d_objects = (\<lambda>_. None)\<rparr>"

definition sample_moderator :: identity where "sample_moderator = identity_of 1 Admin 7"

definition answers :: "discussion_call list" where
  "answers = [AddComment sample_approver 20 '' Soon '' (Some 50), AddComment sample_approver 20 ''No'' (Some 99),
     RemoveComment sample_moderator 50]"

lemma answers_run: "map (\<lambda>c. (ct_id c, ct_body c, ct_parent_comment_id c)) (t_comments (run_discussion answers (discussed_db [ResponseLost, Delivered]))) =
    [(50, ''Why?'', None), (100, ''Soon'', Some 50)]"
  by code_simp

theorem threads_stay_on_request_witness:
  "\<exists>c \<in> set (t_comments (run_discussion answers (discussed_db [ResponseLost, Delivered]))). ct_parent_comment_id c = Some 50 \<and>
     (\<exists>p \<in> set (t_comments (run_discussion answers (discussed_db [ResponseLost, Delivered]))). ct_id p = 50 \<and> ct_request_id p = ct_request_id c)"
proof -
  have "threaded (discussed_db [ResponseLost, Delivered])" by (simp add: threaded_def answered_def discussed_db_def)
  moreover obtain c where "c \<in> set (t_comments (run_discussion answers (discussed_db [ResponseLost, Delivered])))"
      "ct_parent_comment_id c = Some 50"
    using answers_run by (fastforce simp: map_eq_Cons_conv)
  ultimately show ?thesis using threads_stay_on_request by blast
qed

lemma removal_ok: "is_ok (fst (remove_comment sample_moderator 50 (discussed_db [])))"
    "is_ok (fst (list_comments sample_approver 20 \<lparr>pg_number = 1, pg_size = 10\<rparr> (snd (remove_comment sample_moderator 50 (discussed_db [])))))"
    "map_prod (map_sum (\<lambda>_. ()) ct_request_id) (\<lambda>_. ()) (remove_comment sample_moderator 50 (discussed_db [])) = (Inr 20, ())"
  by code_simp+

theorem removed_comment_readable_witness:
  "\<exists>c t res u. remove_comment sample_moderator 50 (discussed_db []) = (Inr c, t) \<and>
     list_comments sample_approver 20 \<lparr>pg_number = 1, pg_size = 10\<rparr> t = (Inr res, u) \<and> c \<in> set (res_items res) \<and> ct_body c = ''Why?''"
proof -
  obtain c t where run: "remove_comment sample_moderator 50 (discussed_db []) = (Inr c, t)" using is_ok_run [OF removal_ok(1)] by blast
  with removal_ok(3) have c: "ct_request_id c = 20" by simp
  from removal_ok(2) obtain res u where list: "list_comments sample_approver 20 \<lparr>pg_number = 1, pg_size = 10\<rparr> t = (Inr res, u)"
    using run is_ok_run by fastforce
  have "\<exists>c0 \<in> set (t_comments (discussed_db [])). ct_id c0 = 50 \<and> c \<in> set (res_items res) \<and>
      c = c0\<lparr>ct_body := strip (ct_body c0), ct_deleted_at := Some (clock (discussed_db [])),
        ct_deleted_by := Some (id_user_id sample_moderator)\<rparr>"
    using removed_comment_readable [OF _ run list [folded c]] by (auto simp: discussed_db_def quiet_def)
  then have "c \<in> set (res_items res)" "ct_body c = strip ''Why?''" by (auto simp: discussed_db_def)
  moreover have "strip ''Why?'' = ''Why?''" by code_simp
  ultimately show ?thesis using run list by metis
qed

lemma honest_sample: "honest_storage sample_attachment_config"
  by (simp add: honest_storage_def sample_attachment_config_def sample_storage_def null_virus_scanner_def eff_simps is_ok_def)

lemma acceptable_sample: "acceptable_upload ''plan.pdf'' ''application/pdf'' ''%PDF-1'' ''plan.pdf''"
proof -
  have "sanitize_filename ''plan.pdf'' = Inr ''plan.pdf''" "''application/pdf'' \<in> set ALLOWED_ATTACHMENT_CONTENT_TYPES"
      "validate_content_type_consistency ''application/pdf'' ''%PDF-1'' = Inr ()"
    by code_simp+
  then show ?thesis by (simp add: acceptable_upload_def)
qed

theorem upload_outcome_witness:
  "\<exists>a t row. store_new_attachment sample_attachment_config sample_approver 20 ''plan.pdf'' ''application/pdf'' ''%PDF-1'' 1 None
      (discussed_db []) = (Inr a, t) \<and> t_attachments t = [row] \<and> d_objects t (ah_storage_path row) = Some ''%PDF-1''"
proof -
  let ?run = "store_new_attachment sample_attachment_config sample_approver 20 ''plan.pdf'' ''application/pdf'' ''%PDF-1'' 1 None"
  have "is_ok (fst (?run (discussed_db [])))" by code_simp
  then obtain a t where run: "?run (discussed_db []) = (Inr a, t)" using is_ok_run by blast
  have "lossless (discussed_db [])" "t_attachments (discussed_db []) = []" by (simp_all add: discussed_db_def lossless_def)
  with upload_outcome [OF honest_sample _ run] show ?thesis using run by auto
qed

theorem lost_response_loses_file_witness:
  "\<exists>t row e. store_new_attachment sample_attachment_config sample_approver 20 ''plan.pdf'' ''application/pdf'' ''%PDF-1'' 1 None
      (discussed_db [ResponseLost]) = (Inl (Service e), t) \<and> t_attachments t = [row] \<and> d_objects t (ah_storage_path row) = None"
proof -
  let ?run = "store_new_attachment sample_attachment_config sample_approver 20 ''plan.pdf'' ''application/pdf'' ''%PDF-1'' 1 None"
  have cfg: "is_ok (fst (sc_upload (ac_storage sample_attachment_config) path content ct u)) \<and>
      is_ok (fst (sc_remove (ac_storage sample_attachment_config) path u))"
      "fst (ac_scan sample_attachment_config content u) = Inr ScanSkipped" for path content ct and u :: discussion_db
    by (simp_all add: sample_attachment_config_def sample_storage_def null_virus_scanner_def eff_simps is_ok_def)
  have "\<exists>t row e. ?run (discussed_db [ResponseLost]) = (Inl (Service e), t) \<and>
      t_attachments t = t_attachments (discussed_db [ResponseLost]) @ [row] \<and> ah_deleted_at row = None \<and> d_objects t (ah_storage_path row) = None"
    by (rule lost_response_loses_file [OF honest_sample _ _ acceptable_sample])
      (simp_all add: cfg discussed_db_def sample_defs check_attachment_def uploaded_row_def request_exists_def profile_exists_def)
  moreover have "t_attachments (discussed_db [ResponseLost]) = []" by (simp add: discussed_db_def)
  ultimately show ?thesis by auto
qed

end
