(* ===== verification/Fuzzy.thy ===== *)
theory Fuzzy imports Prelude Complex_Main
begin

text \<open>
  The texts of a search result: \<open>_fuzzy_score\<close> and \<open>_highlight_snippet\<close> of \<open>services/search_service.py\<close>, with what they
  use of the standard library: \<open>str.title\<close>, \<open>str.replace\<close>, \<open>str.find\<close> and \<open>difflib.SequenceMatcher.ratio\<close>. Strings are
  ASCII, scores are rationals.
\<close>

section \<open>Strings\<close>

definition upper_char :: "char \<Rightarrow> char" where
  "upper_char c = (let n = (of_char c :: nat) in if 97 \<le> n \<and> n \<le> 122 then char_of (n - 32) else c)"

definition cased :: "char \<Rightarrow> bool" where
  "cased c = (let n = (of_char c :: nat) in (65 \<le> n \<and> n \<le> 90) \<or> (97 \<le> n \<and> n \<le> 122))"

text \<open>\<open>str.title\<close>: the first of every run of letters in upper case, the others in lower case.\<close>

fun title_after :: "bool \<Rightarrow> string \<Rightarrow> string" where
  "title_after previous_cased [] = []"
| "title_after previous_cased (c # cs) =
     (if cased c then (if previous_cased then lower_char c else upper_char c) # title_after True cs
      else c # title_after False cs)"

definition str_title :: "string \<Rightarrow> string" where
  "str_title = title_after False"

definition replace_char :: "char \<Rightarrow> char \<Rightarrow> string \<Rightarrow> string" where
  "replace_char a b = map (\<lambda>c. if c = a then b else c)"

definition find_text :: "string \<Rightarrow> string \<Rightarrow> nat option" where
  "find_text needle xs = List.find (\<lambda>i. take (length needle) (drop i xs) = needle) [0..<Suc (length xs)]"

section \<open>SequenceMatcher\<close>

fun common_prefix :: "('a \<Rightarrow> bool) \<Rightarrow> 'a list \<Rightarrow> 'a list \<Rightarrow> nat" where
  "common_prefix P (x # xs) (y # ys) = (if x = y \<and> P x then Suc (common_prefix P xs ys) else 0)"
| "common_prefix P _ _ = 0"

text \<open>Elements that make up more than one percent of a second sequence of at least two hundred are popular: no match starts there.\<close>

definition popular :: "'a list \<Rightarrow> 'a \<Rightarrow> bool" where
  "popular b x \<longleftrightarrow> 200 \<le> length b \<and> length b div 100 + 1 < count_list b x"

definition longest_plain_match :: "('a \<Rightarrow> bool) \<Rightarrow> 'a list \<Rightarrow> 'a list \<Rightarrow> nat \<times> nat \<times> nat" where
  "longest_plain_match pop a b =
     fold (\<lambda>(i, j) (bi, bj, bk).
        let k = common_prefix (\<lambda>x. \<not> pop x) (drop i a) (drop j b) in if bk < k then (i, j, k) else (bi, bj, bk))
       (List.product [0..<length a] [0..<length b]) (0, 0, 0)"

text \<open>\<open>find_longest_match\<close>: the longest match of plain elements, the first one of several, extended over popular ones.\<close>

definition find_longest_match :: "('a \<Rightarrow> bool) \<Rightarrow> 'a list \<Rightarrow> 'a list \<Rightarrow> nat \<times> nat \<times> nat" where
  "find_longest_match pop a b =
     (let (i, j, k) = longest_plain_match pop a b;
          before = common_prefix (\<lambda>_. True) (rev (take i a)) (rev (take j b));
          after = common_prefix (\<lambda>_. True) (drop (i + k) a) (drop (j + k) b) in
      (i - before, j - before, before + k + after))"

lemma common_prefix_le: "common_prefix P xs ys \<le> length xs \<and> common_prefix P xs ys \<le> length ys"
  by (induction P xs ys rule: common_prefix.induct) auto

lemma longest_plain_match_within:
  assumes "longest_plain_match pop a b = (i, j, k)"
  shows "i + k \<le> length a \<and> j + k \<le> length b"
proof -
  define step where "step = (\<lambda>(i, j) (bi, bj, bk).
        let k = common_prefix (\<lambda>x. \<not> pop x) (drop i a) (drop j b) in if bk < k then (i, j, k) else (bi, bj, bk))"
  have "case fold step ps m of (i, j, k) \<Rightarrow> i + k \<le> length a \<and> j + k \<le> length b"
    if "\<forall>(i, j) \<in> set ps. i < length a \<and> j < length b" "case m of (i, j, k) \<Rightarrow> i + k \<le> length a \<and> j + k \<le> length b"
    for ps and m :: "nat \<times> nat \<times> nat"
    using that
  proof (induction ps arbitrary: m)
    case (Cons p ps)
    obtain x y where p: "p = (x, y)" by (cases p)
    obtain i j k where m: "m = (i, j, k)" by (cases m)
    have "common_prefix (\<lambda>x. \<not> pop x) (drop x a) (drop y b) \<le> length a - x"
        "common_prefix (\<lambda>x. \<not> pop x) (drop x a) (drop y b) \<le> length b - y"
      using common_prefix_le [of "\<lambda>x. \<not> pop x" "drop x a" "drop y b"] by simp_all
    then have "case step p m of (i, j, k) \<Rightarrow> i + k \<le> length a \<and> j + k \<le> length b"
      using Cons.prems by (auto simp: step_def p m Let_def)
    with Cons.IH [of "step p m"] Cons.prems show ?case by simp
  qed simp
  from this [of "List.product [0..<length a] [0..<length b]" "(0, 0, 0)"] assms show ?thesis
    by (simp add: longest_plain_match_def step_def)
qed

lemma find_longest_match_within:
  assumes "find_longest_match pop a b = (i, j, k)"
  shows "i + k \<le> length a \<and> j + k \<le> length b"
proof -
  obtain x y n where plain: "longest_plain_match pop a b = (x, y, n)" by (metis prod_cases3)
  define before where "before = common_prefix (\<lambda>_. True) (rev (take x a)) (rev (take y b))"
  define after where "after = common_prefix (\<lambda>_. True) (drop (x + n) a) (drop (y + n) b)"
  have "i = x - before" "j = y - before" "k = before + n + after"
    using assms by (auto simp: find_longest_match_def plain before_def after_def Let_def)
  moreover have "before \<le> x" "before \<le> y"
    using common_prefix_le [of "\<lambda>_. True" "rev (take x a)" "rev (take y b)"] by (simp_all add: before_def)
  moreover have "after \<le> length a - (x + n)" "after \<le> length b - (y + n)"
    using common_prefix_le [of "\<lambda>_. True" "drop (x + n) a" "drop (y + n) b"] by (simp_all add: after_def)
  ultimately show ?thesis using longest_plain_match_within [OF plain] by (elim conjE) (intro conjI; linarith)
qed

text \<open>The total size of the matching blocks: the longest match, and on both sides of it again.\<close>

function matched :: "('a \<Rightarrow> bool) \<Rightarrow> 'a list \<Rightarrow> 'a list \<Rightarrow> nat" where
  "matched pop a b =
     (let (i, j, k) = find_longest_match pop a b in
      if k = 0 then 0
      else matched pop (take i a) (take j b) + k + matched pop (drop (i + k) a) (drop (j + k) b))"
  by pat_completeness auto
termination
proof (relation "measure (\<lambda>(pop, a, b). length a)")
  fix pop :: "'a \<Rightarrow> bool" and a b x i p j k
  assume x: "x = find_longest_match pop a b" "(i, p) = x" "(j, k) = p" "k \<noteq> 0"
  then have "i + k \<le> length a" using find_longest_match_within [of pop a b i j k] by simp
  with x(4) show "((pop, take i a, take j b), (pop, a, b)) \<in> measure (\<lambda>(pop, a, b). length a)"
    "((pop, drop (i + k) a, drop (j + k) b), (pop, a, b)) \<in> measure (\<lambda>(pop, a, b). length a)" by auto
qed simp

declare matched.simps [simp del]

definition ratio :: "'a list \<Rightarrow> 'a list \<Rightarrow> rat" where
  "ratio a b = (if length a + length b = 0 then 1 else 2 * of_nat (matched (popular b) a b) / of_nat (length a + length b))"

section \<open>Scores and snippets\<close>

definition MIN_APPROVAL_SCORE :: rat where "MIN_APPROVAL_SCORE = 3 / 10"

definition candidate_score :: "string \<Rightarrow> string option \<Rightarrow> rat" where
  "candidate_score query_l candidate =
     (case candidate of
        None \<Rightarrow> 0
      | Some c \<Rightarrow>
          if c = [] then 0
          else if is_infix query_l (lower c) then 85 / 100 + 15 / 100 * (of_nat (length query_l) / of_nat (length (lower c)))
          else ratio query_l (lower c))"

definition fuzzy_score :: "string \<Rightarrow> string option list \<Rightarrow> rat" where
  "fuzzy_score query_text candidates =
     fold (\<lambda>candidate best. max best (candidate_score (lower (strip query_text)) candidate)) candidates 0"

definition SNIPPET_CONTEXT_CHARS :: nat where "SNIPPET_CONTEXT_CHARS = 60"

definition highlight_snippet :: "string \<Rightarrow> string \<Rightarrow> string" where
  "highlight_snippet txt query_text =
     (if txt = [] then []
      else
        let needle = lower (strip query_text) in
        case find_text needle (lower txt) of
          Some idx \<Rightarrow>
            if needle = [] then
              if length txt \<le> SNIPPET_CONTEXT_CHARS * 2 then txt else take (SNIPPET_CONTEXT_CHARS * 2) txt @ ''...''
            else
              let match_len = length needle;
                  start = idx - SNIPPET_CONTEXT_CHARS;
                  stop = min (length txt) (idx + match_len + SNIPPET_CONTEXT_CHARS) in
              (if 0 < start then ''...'' else []) @ drop start (take idx txt) @ ''**'' @ take match_len (drop idx txt) @ ''**'' @
                drop (idx + match_len) (take stop txt) @ (if stop < length txt then ''...'' else [])
        | None \<Rightarrow>
            if length txt \<le> SNIPPET_CONTEXT_CHARS * 2 then txt else take (SNIPPET_CONTEXT_CHARS * 2) txt @ ''...'')"

section \<open>Bounds\<close>

lemma matched_le: "matched pop a b \<le> length a \<and> matched pop a b \<le> length b"
proof (induction pop a b rule: matched.induct)
  case (1 pop a b)
  obtain i j k where m: "find_longest_match pop a b = (i, j, k)" by (metis prod_cases3)
  note w = find_longest_match_within [OF m]
  show ?case
  proof (cases "k = 0")
    case False
    have "matched pop (take i a) (take j b) \<le> length (take i a) \<and> matched pop (take i a) (take j b) \<le> length (take j b)"
        "matched pop (drop (i + k) a) (drop (j + k) b) \<le> length (drop (i + k) a) \<and>
         matched pop (drop (i + k) a) (drop (j + k) b) \<le> length (drop (j + k) b)"
      using 1 [OF m [symmetric] refl refl False] by simp_all
    with w False show ?thesis by (subst (1 2) matched.simps) (auto simp: m)
  qed (subst (1 2) matched.simps, simp add: m)
qed

lemma ratio_bounds: "0 \<le> ratio a b \<and> ratio a b \<le> 1"
proof -
  have "2 * matched (popular b) a b \<le> length a + length b" using matched_le [of "popular b" a b] by linarith
  then have "(of_nat (2 * matched (popular b) a b) :: rat) \<le> of_nat (length a + length b)" by (simp only: of_nat_le_iff)
  then show ?thesis by (auto simp: ratio_def divide_le_eq_1)
qed

lemma is_infix_length: "is_infix p xs \<Longrightarrow> length p \<le> length xs"
proof -
  assume "is_infix p xs"
  then obtain i where "take (length p) (drop i xs) = p" by (auto simp: is_infix_def list_ex_iff)
  then have "length (take (length p) (drop i xs)) = length p" by simp
  then show ?thesis by simp
qed

lemma candidate_score_bounds: "0 \<le> candidate_score q c \<and> candidate_score q c \<le> 1"
proof -
  have "(of_nat (length q) :: rat) / of_nat (length (lower t)) \<le> 1" if "is_infix q (lower t)" "t \<noteq> []" for t
  proof -
    have "0 < length (lower t)" using that(2) by (simp add: lower_def)
    moreover have "length q \<le> length (lower t)" using is_infix_length [OF that(1)] .
    ultimately show ?thesis by (simp add: divide_le_eq_1)
  qed
  then have "85 / 100 + 15 / 100 * ((of_nat (length q) :: rat) / of_nat (length (lower t))) \<le> 1" if "is_infix q (lower t)" "t \<noteq> []" for t
    using that by fastforce
  then show ?thesis using ratio_bounds by (auto simp: candidate_score_def split: option.splits)
qed

lemma fold_max:
  fixes f :: "'a \<Rightarrow> rat"
  shows "fold (\<lambda>x best. max best (f x)) xs b = Max (insert b (f ` set xs))"
proof -
  have "fold (\<lambda>x best. max best (f x)) xs b = fold max (map f xs) b"
    by (induction xs arbitrary: b) (simp_all add: max.commute)
  then show ?thesis by (simp add: Max.set_eq_fold [symmetric])
qed

lemma fuzzy_score_Max:
  "fuzzy_score q cs = Max (insert 0 (candidate_score (lower (strip q)) ` set cs))"
  by (simp add: fuzzy_score_def fold_max)

text \<open>
  Every score is between zero and one, and a candidate text that contains the query, in whatever case, gives more
  than 17/20; the query itself gives exactly one.
\<close>

theorem fuzzy_score_bounds:
  "0 \<le> fuzzy_score q cs \<and> fuzzy_score q cs \<le> 1 \<and>
   (\<forall>c. Some c \<in> set cs \<and> strip q \<noteq> [] \<and> is_infix (lower (strip q)) (lower c) \<longrightarrow>
      17 / 20 < fuzzy_score q cs \<and> (lower c = lower (strip q) \<longrightarrow> fuzzy_score q cs = 1))"
proof -
  let ?f = "candidate_score (lower (strip q))"
  have fin: "finite (insert 0 (?f ` set cs))" by simp
  have le: "0 \<le> fuzzy_score q cs" "fuzzy_score q cs \<le> 1"
    using candidate_score_bounds by (auto simp: fuzzy_score_Max)
  have ge: "?f c \<le> fuzzy_score q cs" if "c \<in> set cs" for c using that by (simp add: fuzzy_score_Max)
  have "17 / 20 < fuzzy_score q cs \<and> (lower c = lower (strip q) \<longrightarrow> fuzzy_score q cs = 1)"
    if c: "Some c \<in> set cs" "strip q \<noteq> []" "is_infix (lower (strip q)) (lower c)" for c
  proof -
    have "0 < length (lower (strip q))" using c(2) by (simp add: lower_def)
    moreover from this is_infix_length [OF c(3)] have nonempty: "c \<noteq> []" by (auto simp: lower_def)
    ultimately have pos: "0 < (of_nat (length (lower (strip q))) :: rat) / of_nat (length (lower c))"
      by (simp add: lower_def)
    have "?f (Some c) = 85 / 100 + 15 / 100 * (of_nat (length (lower (strip q))) / of_nat (length (lower c)))"
      using c(3) nonempty by (simp add: candidate_score_def)
    moreover have one: "(of_nat (length (lower (strip q))) :: rat) / of_nat (length (lower c)) = 1" if "lower c = lower (strip q)"
    proof -
      have "lower c \<noteq> []" using nonempty by (simp add: lower_def)
      then show ?thesis by (simp add: that [symmetric])
    qed
    ultimately have scored: "?f (Some c) = 85 / 100 + 15 / 100 * (of_nat (length (lower (strip q))) / of_nat (length (lower c)))" by simp
    then have "17 / 20 < ?f (Some c)" using pos by simp
    moreover have "lower c = lower (strip q) \<longrightarrow> ?f (Some c) = 1" unfolding scored using one by force
    ultimately show ?thesis using ge [OF c(1)] le(2) by force
  qed
  with le show ?thesis by blast
qed

theorem fuzzy_score_bounds_witness:
  "17 / 20 < fuzzy_score '' trip '' [Some ''Trip to Rome'', None] \<and> fuzzy_score '' trip '' [Some ''TRIP''] = 1"
proof -
  have "strip '' trip '' \<noteq> []" "is_infix (lower (strip '' trip '')) (lower ''Trip to Rome'')"
      "is_infix (lower (strip '' trip '')) (lower ''TRIP'')" "lower ''TRIP'' = lower (strip '' trip '')"
    by code_simp+
  with fuzzy_score_bounds [of "'' trip ''" "[Some ''Trip to Rome'', None]"] fuzzy_score_bounds [of "'' trip ''" "[Some ''TRIP'']"]
  show ?thesis by simp
qed

lemma ratio_example: "ratio ''private Thread currentThread;'' ''private volatile Thread currentThread;'' = 58 / 67"
    "ratio ''tide'' ''diet'' = 1 / 4" "ratio ''trip to rome'' ''a tour to roam'' = 9 / 13"
  by code_simp+

end
