(* ===== verification/Search.thy ===== *)
theory Search imports Discussion DefinitionService Authentication Fuzzy "HOL-Library.AList"
begin

text \<open>
  The search across entities: \<open>services/search_service.py\<close>, the repositories of saved filters and of the search
  history, \<open>models/search.py\<close> and the grouping of profiles by department of \<open>api/routers/admin_shared.py\<close>. The searches
  run in a thread pool and only read; they are taken in the order of the plan. The collation, the full-text match
  and the ids \<open>uuid5\<close> gives departments are parameters. Row-level security is left out.
\<close>

section \<open>The tables\<close>

record saved_filter_record =
  sf_id :: uuid
  sf_user_id :: uuid
  sf_company_id :: uuid
  sf_name :: string
  sf_query_text :: string
  sf_entity_types :: "string list option"
  sf_filters :: "(string \<times> meta_value) list"
  sf_created_at :: timestamp
  sf_updated_at :: timestamp

record search_history_record =
  hs_id :: uuid
  hs_user_id :: uuid
  hs_company_id :: uuid
  hs_query_text :: string
  hs_entity_types :: "string list option"
  hs_result_count :: int
  hs_created_at :: timestamp

record search_db = discussion_db +
  t_saved_filters :: "saved_filter_record list"
  t_search_history :: "search_history_record list"

text \<open>The reference to the company is not checked here: it is the caller's own.\<close>

definition check_saved_filter :: "'z search_db_scheme \<Rightarrow> saved_filter_record \<Rightarrow> string option" where
  "check_saved_filter s f = first_violation
     [(\<not> list_ex (\<lambda>x. sf_id x \<noteq> sf_id f \<and> sf_user_id x = sf_user_id f \<and> sf_name x = sf_name f) (t_saved_filters s), unique_violation),
      (profile_exists s (sf_user_id f), foreign_key_violation)]"

definition check_search_history :: "'z search_db_scheme \<Rightarrow> search_history_record \<Rightarrow> string option" where
  "check_search_history s h = first_violation [(profile_exists s (hs_user_id h), foreign_key_violation)]"

definition saved_filter_table :: "('z search_db_scheme, saved_filter_record) table" where
  "saved_filter_table =
     \<lparr>tb_name = ''saved_filters'', tb_rows = t_saved_filters, tb_set_rows = (\<lambda>rs s. s\<lparr>t_saved_filters := rs\<rparr>),
      tb_id = sf_id, tb_version = (\<lambda>_. 0), tb_set_version = (\<lambda>v r. r), tb_touch = (\<lambda>now r. r\<lparr>sf_updated_at := now\<rparr>),
      tb_check = check_saved_filter\<rparr>"

definition search_history_table :: "('z search_db_scheme, search_history_record) table" where
  "search_history_table =
     \<lparr>tb_name = ''search_history'', tb_rows = t_search_history, tb_set_rows = (\<lambda>rs s. s\<lparr>t_search_history := rs\<rparr>),
      tb_id = hs_id, tb_version = (\<lambda>_. 0), tb_set_version = (\<lambda>v r. r), tb_touch = (\<lambda>now r. r),
      tb_check = check_search_history\<rparr>"

lemma search_table_fields [simp]:
  "tb_name saved_filter_table = ''saved_filters''" "tb_rows saved_filter_table = t_saved_filters"
  "tb_set_rows saved_filter_table = (\<lambda>rs s. s\<lparr>t_saved_filters := rs\<rparr>)" "tb_id saved_filter_table = sf_id"
  "tb_touch saved_filter_table = (\<lambda>now r. r\<lparr>sf_updated_at := now\<rparr>)" "tb_check saved_filter_table = check_saved_filter"
  "tb_name search_history_table = ''search_history''" "tb_rows search_history_table = t_search_history"
  "tb_set_rows search_history_table = (\<lambda>rs s. s\<lparr>t_search_history := rs\<rparr>)" "tb_id search_history_table = hs_id"
  "tb_touch search_history_table = (\<lambda>now r. r)" "tb_check search_history_table = check_search_history"
  by (simp_all add: saved_filter_table_def search_history_table_def)

interpretation saved_filters: table_store saved_filter_table
  by unfold_locales (auto simp: check_saved_filter_def fun_eq_iff)

interpretation search_histories: table_store search_history_table
  by unfold_locales (auto simp: check_search_history_def fun_eq_iff)

section \<open>Saved filters and the history\<close>

definition list_filter_rows :: "uuid \<Rightarrow> uuid \<Rightarrow> ('z search_db_scheme, saved_filter_record list) eff" where
  "list_filter_rows user_id company_id = execute ''list_for_user'' ''saved_filters'' (gets (\<lambda>s.
     order_desc sf_updated_at (filter (\<lambda>f. sf_user_id f = user_id \<and> sf_company_id f = company_id) (t_saved_filters s))))"

definition create_filter_row ::
  "uuid \<Rightarrow> uuid \<Rightarrow> string \<Rightarrow> string \<Rightarrow> string list option \<Rightarrow> (string \<times> meta_value) list \<Rightarrow>
   ('z search_db_scheme, saved_filter_record) eff" where
  "create_filter_row user_id company_id name query_text entity_types filters =
     insert_row saved_filter_table (\<lambda>new_id now.
       \<lparr>sf_id = new_id, sf_user_id = user_id, sf_company_id = company_id, sf_name = name, sf_query_text = query_text,
        sf_entity_types = entity_types, sf_filters = filters, sf_created_at = now, sf_updated_at = now\<rparr>)"

definition delete_filter_row :: "uuid \<Rightarrow> uuid \<Rightarrow> ('z search_db_scheme, unit) eff" where
  "delete_filter_row filter_id user_id =
     and_then (execute ''delete'' ''saved_filters'' (delete_stmt saved_filter_table
        (\<lambda>f. sf_id f = filter_id \<and> sf_user_id f = user_id) (\<lambda>_ _. False)))
       (\<lambda>rows. guard_that (rows \<noteq> []) (Raised (Db (RecordNotFoundError ''saved_filters'' filter_id))))"

definition record_history_row ::
  "uuid \<Rightarrow> uuid \<Rightarrow> string \<Rightarrow> string list option \<Rightarrow> int \<Rightarrow> ('z search_db_scheme, search_history_record) eff" where
  "record_history_row user_id company_id query_text entity_types result_count =
     insert_row search_history_table (\<lambda>new_id now.
       \<lparr>hs_id = new_id, hs_user_id = user_id, hs_company_id = company_id, hs_query_text = query_text,
        hs_entity_types = entity_types, hs_result_count = result_count, hs_created_at = now\<rparr>)"

text \<open>The first rows with different texts, at most \<open>limit\<close> of them (one if the limit is not positive).\<close>

fun distinct_queries :: "int \<Rightarrow> string list \<Rightarrow> search_history_record list \<Rightarrow> search_history_record list" where
  "distinct_queries limit seen [] = []"
| "distinct_queries limit seen (r # rs) =
     (let key = lower (strip (hs_query_text r)) in
      if List.member seen key then distinct_queries limit seen rs
      else r # (if limit \<le> int (length seen) + 1 then [] else distinct_queries limit (key # seen) rs))"

definition list_recent :: "uuid \<Rightarrow> uuid \<Rightarrow> int \<Rightarrow> ('z search_db_scheme, search_history_record list) eff" where
  "list_recent user_id company_id limit =
     and_then (execute ''list_recent'' ''search_history'' (gets (\<lambda>s. take (nat (limit * 3))
        (order_desc hs_created_at (filter (\<lambda>h. hs_user_id h = user_id \<and> hs_company_id h = company_id) (t_search_history s))))))
       (\<lambda>rows. return (distinct_queries limit [] rows))"

definition clear_history_rows :: "uuid \<Rightarrow> ('z search_db_scheme, int) eff" where
  "clear_history_rows user_id =
     and_then (execute ''clear_for_user'' ''search_history'' (delete_stmt search_history_table
        (\<lambda>h. hs_user_id h = user_id) (\<lambda>_ _. False)))
       (\<lambda>rows. return (int (length rows)))"

record saved_filter =
  svf_id :: uuid
  svf_user_id :: uuid
  svf_name :: string
  svf_query_text :: string
  svf_entity_types :: "string list option"
  svf_filters :: "(string \<times> meta_value) list"
  svf_created_at :: timestamp
  svf_updated_at :: timestamp

record search_history_entry =
  she_id :: uuid
  she_user_id :: uuid
  she_query_text :: string
  she_entity_types :: "string list option"
  she_result_count :: int
  she_created_at :: timestamp

text \<open>The models strip every string they hold, keys of the filters included.\<close>

definition SavedFilter :: "saved_filter_record \<Rightarrow> saved_filter" where
  "SavedFilter r =
     \<lparr>svf_id = sf_id r, svf_user_id = sf_user_id r, svf_name = strip (sf_name r), svf_query_text = strip (sf_query_text r),
      svf_entity_types = map_option (map strip) (sf_entity_types r),
      svf_filters = fold (\<lambda>(k, v). AList.update (strip k) v) (sf_filters r) [],
      svf_created_at = sf_created_at r, svf_updated_at = sf_updated_at r\<rparr>"

definition SearchHistoryEntry :: "search_history_record \<Rightarrow> search_history_entry" where
  "SearchHistoryEntry r =
     \<lparr>she_id = hs_id r, she_user_id = hs_user_id r, she_query_text = strip (hs_query_text r),
      she_entity_types = map_option (map strip) (hs_entity_types r), she_result_count = hs_result_count r,
      she_created_at = hs_created_at r\<rparr>"

definition list_saved_filters :: "identity \<Rightarrow> ('z search_db_scheme, saved_filter list) eff" where
  "list_saved_filters ident =
     and_then (list_filter_rows (id_user_id ident) (id_company_id ident)) (\<lambda>records. return (map SavedFilter records))"

definition save_filter ::
  "identity \<Rightarrow> string \<Rightarrow> string \<Rightarrow> string list option \<Rightarrow> (string \<times> meta_value) list option \<Rightarrow>
   ('z search_db_scheme, saved_filter) eff" where
  "save_filter ident name query_text entity_types filters =
     and_then (guard_that (strip name \<noteq> []) (Service (ValidationError (Message ''name'')))) (\<lambda>_.
     and_then (db_call (create_filter_row (id_user_id ident) (id_company_id ident) (strip name) query_text entity_types
        (case filters of None \<Rightarrow> [] | Some f \<Rightarrow> f))) (\<lambda>record. return (SavedFilter record)))"

definition delete_saved_filter :: "identity \<Rightarrow> uuid \<Rightarrow> ('z search_db_scheme, unit) eff" where
  "delete_saved_filter ident filter_id = db_call (delete_filter_row filter_id (id_user_id ident))"

definition list_recent_searches :: "identity \<Rightarrow> int \<Rightarrow> ('z search_db_scheme, search_history_entry list) eff" where
  "list_recent_searches ident limit =
     and_then (list_recent (id_user_id ident) (id_company_id ident) limit) (\<lambda>records. return (map SearchHistoryEntry records))"

definition clear_search_history :: "identity \<Rightarrow> ('z search_db_scheme, unit) eff" where
  "clear_search_history ident = and_then (clear_history_rows (id_user_id ident)) (\<lambda>_. return ())"

section \<open>Profiles by department\<close>

definition UNASSIGNED_DEPARTMENT :: string where "UNASSIGNED_DEPARTMENT = ''Unassigned''"

text \<open>
  The loop over the pages of one role. A page is the last one when its number times the page size reaches the
  total, so one round more than there are profiles is enough (\<open>profile_pages_fuel\<close> in \<open>SearchRuns\<close>).
\<close>

fun profile_pages ::
  "(string \<Rightarrow> nat) \<Rightarrow> user_role \<Rightarrow> uuid \<Rightarrow> nat \<Rightarrow> int \<Rightarrow> ('z db_scheme, profile_record list) eff" where
  "profile_pages collation role company_id 0 page_number = throw (Raised (Py AssertionError))"
| "profile_pages collation role company_id (Suc rounds) page_number =
     and_then (list_by_role collation role company_id None False \<lparr>pg_number = page_number, pg_size = MAX_PAGE_SIZE\<rparr>) (\<lambda>result.
       if res_total_records result \<le> page_number * MAX_PAGE_SIZE \<or> res_items result = [] then return (res_items result)
       else and_then (profile_pages collation role company_id rounds (page_number + 1)) (\<lambda>rest. return (res_items result @ rest)))"

definition fetch_all_profiles :: "(string \<Rightarrow> nat) \<Rightarrow> uuid \<Rightarrow> ('z db_scheme, profile_record list) eff" where
  "fetch_all_profiles collation company_id =
     and_then (gets (\<lambda>s. Suc (length (t_profiles s)))) (\<lambda>rounds.
     and_then (profile_pages collation Employee company_id rounds 1) (\<lambda>employees.
     and_then (profile_pages collation Approver company_id rounds 1) (\<lambda>approvers.
     and_then (profile_pages collation Admin company_id rounds 1) (\<lambda>admins.
       return (employees @ approvers @ admins)))))"

definition department_key :: "profile_record \<Rightarrow> string" where
  "department_key p = (case pr_department p of None \<Rightarrow> UNASSIGNED_DEPARTMENT | Some d \<Rightarrow> if d = [] then UNASSIGNED_DEPARTMENT else d)"

definition group_profiles_by_department :: "profile_record list \<Rightarrow> (string \<times> (user_role \<Rightarrow> nat)) list" where
  "group_profiles_by_department profiles =
     fold (\<lambda>p grouped.
        let bucket = (case map_of grouped (department_key p) of Some b \<Rightarrow> b | None \<Rightarrow> (\<lambda>_. 0)) in
        AList.update (department_key p) (bucket(pr_role p := bucket (pr_role p) + 1)) grouped) profiles []"

section \<open>Results\<close>

record search_item =
  si_entity_type :: string
  si_id :: uuid
  si_title :: string
  si_subtitle :: string
  si_snippet :: string
  si_score :: rat
  si_created_at :: timestamp
  si_request_id :: "uuid option"
  si_stage :: "workflow_stage option"
  si_request_type :: "string option"

record search_config =
  gs_collation :: "string \<Rightarrow> nat"
  gs_request_match :: "string \<Rightarrow> request_record \<Rightarrow> bool"
  gs_comment_match :: "string \<Rightarrow> comment_record \<Rightarrow> bool"
  gs_department_id :: "string \<Rightarrow> uuid"

definition ENTITY_TYPES :: "string list" where
  "ENTITY_TYPES = [''request'', ''approval'', ''workflow'', ''user'', ''comment'', ''audit_entry'', ''department'',
     ''notification'', ''attachment'']"

definition DATETIME_MIN :: timestamp where "DATETIME_MIN = - 62135596800000000"

text \<open>A middle dot between blanks.\<close>

definition dot :: string where "dot = [CHR 0x20, CHR 0xB7, CHR 0x20]"

definition labelled :: "string \<Rightarrow> string" where
  "labelled v = str_title (replace_char (CHR ''_'') (CHR 0x20) v)"

text \<open>\<open>a or b\<close> for an optional text.\<close>

definition text_or :: "string option \<Rightarrow> string \<Rightarrow> string" where
  "text_or a b = (case a of None \<Rightarrow> b | Some x \<Rightarrow> if x = [] then b else x)"

definition request_item :: "string \<Rightarrow> request \<Rightarrow> search_item" where
  "request_item q r =
     \<lparr>si_entity_type = ''request'', si_id = req_id r, si_title = req_title r,
      si_subtitle = labelled (req_request_type r) @ dot @ labelled (request_status_value (req_status r)),
      si_snippet = highlight_snippet (text_or (req_description r) (req_title r)) q,
      si_score = fuzzy_score q [Some (req_title r), req_description r], si_created_at = req_created_at r,
      si_request_id = Some (req_id r), si_stage = None, si_request_type = None\<rparr>"

definition approval_item :: "string \<Rightarrow> (uuid \<rightharpoonup> string) \<Rightarrow> workflow_stage \<Rightarrow> search_item" where
  "approval_item q titles st =
     (let request_title = (case titles (ws_request_id st) of Some t \<Rightarrow> t | None \<Rightarrow> []);
          display_title = (if request_title = [] then ws_stage_name st else request_title) in
      \<lparr>si_entity_type = ''approval'', si_id = ws_id st, si_title = display_title, si_subtitle = ''Stage: '' @ ws_stage_name st,
       si_snippet = highlight_snippet display_title q, si_score = fuzzy_score q [Some (ws_stage_name st), Some request_title],
       si_created_at = ws_created_at st, si_request_id = Some (ws_request_id st), si_stage = Some st, si_request_type = None\<rparr>)"

definition workflow_item :: "string \<Rightarrow> workflow_definition \<Rightarrow> search_item" where
  "workflow_item q d =
     \<lparr>si_entity_type = ''workflow'', si_id = wd_id d, si_title = wd_request_type d @ '' (v'' @ show_positive (nat (wd_version d)) @ '')'',
      si_subtitle = (if wd_is_active d then ''Active'' else ''Inactive''), si_snippet = highlight_snippet (wd_request_type d) q,
      si_score = fuzzy_score q [Some (wd_request_type d)], si_created_at = wd_created_at d, si_request_id = None,
      si_stage = None, si_request_type = Some (wd_request_type d)\<rparr>"

definition user_item :: "string \<Rightarrow> profile_record \<Rightarrow> search_item" where
  "user_item q p =
     \<lparr>si_entity_type = ''user'', si_id = pr_id p, si_title = pr_full_name p,
      si_subtitle = str_title (user_role_value (pr_role p)) @
        (case pr_department p of None \<Rightarrow> [] | Some d \<Rightarrow> if d = [] then [] else dot @ d),
      si_snippet = highlight_snippet (pr_full_name p) q, si_score = fuzzy_score q [Some (pr_full_name p)],
      si_created_at = pr_created_at p, si_request_id = None, si_stage = None, si_request_type = None\<rparr>"

definition comment_item :: "string \<Rightarrow> (uuid \<rightharpoonup> string) \<Rightarrow> comment_record \<Rightarrow> search_item" where
  "comment_item q titles c =
     \<lparr>si_entity_type = ''comment'', si_id = ct_id c,
      si_title = (case titles (ct_request_id c) of Some t \<Rightarrow> t | None \<Rightarrow> ''Comment''), si_subtitle = ''Comment'',
      si_snippet = highlight_snippet (ct_body c) q, si_score = fuzzy_score q [Some (ct_body c)],
      si_created_at = ct_created_at c, si_request_id = Some (ct_request_id c), si_stage = None, si_request_type = None\<rparr>"

definition audit_item :: "string \<Rightarrow> (uuid \<rightharpoonup> string) \<Rightarrow> string option \<Rightarrow> audit_record \<Rightarrow> search_item" where
  "audit_item q titles actor_name a =
     (let action_label = labelled (au_action a);
          request_title = (case au_request_id a of None \<Rightarrow> [] | Some r \<Rightarrow> (case titles r of Some t \<Rightarrow> t | None \<Rightarrow> []));
          name = text_or actor_name [] in
      \<lparr>si_entity_type = ''audit_entry'', si_id = au_id a, si_title = action_label,
       si_subtitle = (if name = [] then if request_title = [] then ''System'' else request_title
                      else if request_title = [] then name else name @ dot @ request_title),
       si_snippet = highlight_snippet action_label q, si_score = fuzzy_score q [Some (au_action a), Some action_label],
       si_created_at = au_created_at a, si_request_id = au_request_id a, si_stage = None, si_request_type = None\<rparr>)"

definition notification_item :: "string \<Rightarrow> notification_record \<Rightarrow> search_item" where
  "notification_item q n =
     \<lparr>si_entity_type = ''notification'', si_id = nt_id n, si_title = nt_message n,
      si_subtitle = str_title (notification_type_value (nt_type n)) @ (if nt_is_read n then [] else dot @ ''Unread''),
      si_snippet = highlight_snippet (nt_message n) q, si_score = fuzzy_score q [Some (nt_message n)],
      si_created_at = nt_created_at n, si_request_id = nt_request_id n, si_stage = None, si_request_type = None\<rparr>"

definition attachment_item :: "string \<Rightarrow> attachment_record \<Rightarrow> search_item" where
  "attachment_item q a =
     \<lparr>si_entity_type = ''attachment'', si_id = ah_id a, si_title = ah_file_name a, si_subtitle = ah_content_type a,
      si_snippet = highlight_snippet (ah_file_name a) q, si_score = fuzzy_score q [Some (ah_file_name a)],
      si_created_at = ah_created_at a, si_request_id = Some (ah_request_id a), si_stage = None, si_request_type = None\<rparr>"

definition department_item :: "search_config \<Rightarrow> string \<Rightarrow> profile_record list \<Rightarrow> string \<Rightarrow> (user_role \<Rightarrow> nat) \<Rightarrow> search_item" where
  "department_item cfg q profiles name by_role =
     (let members = by_role Employee + by_role Approver + by_role Admin;
          stamps = map pr_created_at (filter (\<lambda>p. department_key p = name) profiles) in
      \<lparr>si_entity_type = ''department'', si_id = gs_department_id cfg name, si_title = name,
       si_subtitle = show_positive members @ (if members \<noteq> 1 then '' members'' else '' member''),
       si_snippet = highlight_snippet name q, si_score = fuzzy_score q [Some name],
       si_created_at = (case stamps of [] \<Rightarrow> DATETIME_MIN | t # ts \<Rightarrow> fold max ts t),
       si_request_id = None, si_stage = None, si_request_type = None\<rparr>)"

text \<open>\<open>xs[:n]\<close>\<close>

definition slice_to :: "int \<Rightarrow> 'a list \<Rightarrow> 'a list" where
  "slice_to n xs = (if n < 0 then take (length xs - nat (- n)) xs else take (nat n) xs)"

definition best_first :: "search_item list \<Rightarrow> search_item list" where
  "best_first = sort_key (\<lambda>i. - si_score i)"

section \<open>One search per kind\<close>

definition visible_request_ids :: "identity \<Rightarrow> ('z db_scheme, uuid list option) eff" where
  "visible_request_ids ident =
     (if id_role ident = Admin then return None
      else and_then (service_list_requests ident None None None (page_of_size MAX_PAGE_SIZE)) (\<lambda>visible.
        return (Some (map req_id (res_items visible)))))"

definition request_titles :: "uuid list \<Rightarrow> uuid \<Rightarrow> ('z db_scheme, uuid \<rightharpoonup> string) eff" where
  "request_titles request_ids company_id =
     (if request_ids = [] then return Map.empty
      else and_then (list_requests company_id
          \<lparr>rf_status = None, rf_request_type = None, rf_department = None, rf_requester_id = None,
           rf_request_ids = Some (remdups request_ids), rf_created_after = None, rf_created_before = None,
           rf_include_deleted = False, rf_sort_descending = True\<rparr> (page_of_size MAX_PAGE_SIZE)) (\<lambda>result.
        return (map_of (map (\<lambda>r. (rq_id r, rq_title r)) (res_items result)))))"

definition found_requests :: "search_config \<Rightarrow> identity \<Rightarrow> string \<Rightarrow> int \<Rightarrow> ('z db_scheme, search_item list) eff" where
  "found_requests cfg ident q limit =
     and_then (pure (Page 1 limit)) (\<lambda>p.
     and_then (service_search_requests (gs_request_match cfg) ident q p) (\<lambda>result.
       return (map (request_item q) (res_items result))))"

definition found_approvals :: "identity \<Rightarrow> string \<Rightarrow> int \<Rightarrow> ('z db_scheme, search_item list) eff" where
  "found_approvals ident q limit =
     (if id_role ident \<noteq> Approver \<and> id_role ident \<noteq> Admin then return []
      else and_then (list_pending_approvals ident (page_of_size MAX_PAGE_SIZE)) (\<lambda>stages.
        if res_items stages = [] then return []
        else and_then (request_titles (map ws_request_id (res_items stages)) (id_company_id ident)) (\<lambda>titles.
          let scored = filter (\<lambda>i. MIN_APPROVAL_SCORE \<le> si_score i) (map (approval_item q titles) (res_items stages)) in
          return (slice_to limit (best_first scored)))))"

definition found_workflows :: "identity \<Rightarrow> string \<Rightarrow> int \<Rightarrow> ('z db_scheme, search_item list) eff" where
  "found_workflows ident q limit =
     and_then (pure (Page 1 limit)) (\<lambda>p.
     and_then (search_definitions ident q p) (\<lambda>result. return (map (workflow_item q) (res_items result))))"

definition found_users :: "search_config \<Rightarrow> identity \<Rightarrow> string \<Rightarrow> int \<Rightarrow> ('z db_scheme, search_item list) eff" where
  "found_users cfg ident q limit =
     and_then (pure (Page 1 limit)) (\<lambda>p.
     and_then (db_call (search_by_name (gs_collation cfg) q (id_company_id ident) False p)) (\<lambda>result.
       return (map (user_item q) (res_items result))))"

definition found_comments :: "search_config \<Rightarrow> identity \<Rightarrow> string \<Rightarrow> int \<Rightarrow> ('z discussion_db_scheme, search_item list) eff" where
  "found_comments cfg ident q limit =
     and_then (visible_request_ids ident) (\<lambda>request_ids.
       if request_ids = Some [] then return []
       else and_then (pure (Page 1 limit)) (\<lambda>p.
         and_then (db_call (search_comment_rows (gs_comment_match cfg) q request_ids False p)) (\<lambda>result.
         and_then (request_titles (map ct_request_id (res_items result)) (id_company_id ident)) (\<lambda>titles.
           return (map (comment_item q titles) (res_items result))))))"

definition resolve_actor ::
  "uuid option \<Rightarrow> (uuid \<rightharpoonup> string option) \<Rightarrow> ('z db_scheme, string option \<times> (uuid \<rightharpoonup> string option)) eff" where
  "resolve_actor profile_id cache =
     (case profile_id of
        None \<Rightarrow> return (None, cache)
      | Some i \<Rightarrow> (case cache i of
          Some name \<Rightarrow> return (name, cache)
        | None \<Rightarrow> and_then
            (handle (and_then (get_profile_row i) (\<lambda>p. return (Some (pr_full_name p))))
               (\<lambda>e. if is_record_not_found e then return None else throw e))
            (\<lambda>name. return (name, cache(i := Some name)))))"

fun audit_items ::
  "string \<Rightarrow> (uuid \<rightharpoonup> string) \<Rightarrow> audit_record list \<Rightarrow> (uuid \<rightharpoonup> string option) \<Rightarrow> ('z db_scheme, search_item list) eff" where
  "audit_items q titles [] cache = return []"
| "audit_items q titles (a # as) cache =
     and_then (resolve_actor (au_actor_id a) cache) (\<lambda>(actor_name, cache).
     and_then (audit_items q titles as cache) (\<lambda>rest. return (audit_item q titles actor_name a # rest)))"

definition found_audit_entries :: "identity \<Rightarrow> string \<Rightarrow> int \<Rightarrow> ('z db_scheme, search_item list) eff" where
  "found_audit_entries ident q limit =
     and_then (visible_request_ids ident) (\<lambda>request_ids.
       if request_ids = Some [] then return []
       else and_then (pure (Page 1 limit)) (\<lambda>p.
         and_then (db_call (search_audit q request_ids p)) (\<lambda>result.
         and_then (request_titles (List.map_filter au_request_id (res_items result)) (id_company_id ident)) (\<lambda>titles.
           audit_items q titles (res_items result) Map.empty))))"

definition found_notifications :: "identity \<Rightarrow> string \<Rightarrow> int \<Rightarrow> ('z db_scheme, search_item list) eff" where
  "found_notifications ident q limit =
     and_then (pure (Page 1 limit)) (\<lambda>p.
     and_then (db_call (list_for_recipient (id_user_id ident) None None None (Some q) p)) (\<lambda>result.
       return (map (notification_item q) (res_items result))))"

definition found_attachments :: "identity \<Rightarrow> string \<Rightarrow> int \<Rightarrow> ('z discussion_db_scheme, search_item list) eff" where
  "found_attachments ident q limit =
     and_then (visible_request_ids ident) (\<lambda>request_ids.
       if request_ids = Some [] then return []
       else and_then (pure (Page 1 limit)) (\<lambda>p.
         and_then (db_call (search_attachment_rows q request_ids False p)) (\<lambda>result.
           return (map (attachment_item q) (res_items result)))))"

definition found_departments :: "search_config \<Rightarrow> identity \<Rightarrow> string \<Rightarrow> int \<Rightarrow> ('z db_scheme, search_item list) eff" where
  "found_departments cfg ident q limit =
     and_then (fetch_all_profiles (gs_collation cfg) (id_company_id ident)) (\<lambda>profiles.
       let scored = filter (\<lambda>i. MIN_APPROVAL_SCORE \<le> si_score i)
         (map (\<lambda>(name, by_role). department_item cfg q profiles name by_role) (group_profiles_by_department profiles)) in
       return (slice_to limit (best_first scored)))"

section \<open>The search\<close>

definition search_plan ::
  "search_config \<Rightarrow> identity \<Rightarrow> string \<Rightarrow> (string \<Rightarrow> bool) \<Rightarrow> int \<Rightarrow> ('z discussion_db_scheme, search_item list) eff list" where
  "search_plan cfg ident q wanted limit =
     (if wanted ''request'' then [found_requests cfg ident q limit] else []) @
     (if wanted ''approval'' then [found_approvals ident q limit] else []) @
     (if wanted ''workflow'' then [found_workflows ident q limit] else []) @
     (if wanted ''user'' \<and> id_role ident = Admin then [found_users cfg ident q limit] else []) @
     (if wanted ''department'' \<and> id_role ident = Admin then [found_departments cfg ident q limit] else []) @
     (if wanted ''comment'' then [found_comments cfg ident q limit] else []) @
     (if wanted ''audit_entry'' then [found_audit_entries ident q limit] else []) @
     (if wanted ''notification'' then [found_notifications ident q limit] else []) @
     (if wanted ''attachment'' then [found_attachments ident q limit] else [])"

fun run_searches :: "('s, 'a list) eff list \<Rightarrow> ('s, 'a list) eff" where
  "run_searches [] = return []"
| "run_searches (m # ms) = and_then m (\<lambda>xs. and_then (run_searches ms) (\<lambda>ys. return (xs @ ys)))"

definition record_search_history ::
  "identity \<Rightarrow> string \<Rightarrow> string list option \<Rightarrow> int \<Rightarrow> ('z search_db_scheme, unit) eff" where
  "record_search_history ident query_text entity_types result_count =
     handle (and_then (record_history_row (id_user_id ident) (id_company_id ident) (strip query_text) entity_types result_count)
         (\<lambda>_. return ()))
       (\<lambda>e. if is_database_error e then return () else throw e)"

definition by_score_and_date :: "search_item list \<Rightarrow> search_item list" where
  "by_score_and_date results = sort_key (\<lambda>i. - si_score i) (sort_key (\<lambda>i. - si_created_at i) results)"

definition global_search ::
  "search_config \<Rightarrow> identity \<Rightarrow> string \<Rightarrow> string list option \<Rightarrow> page \<Rightarrow> int option \<Rightarrow>
   ('z search_db_scheme, search_item paged_result) eff" where
  "global_search cfg ident query_text entity_types p limit_per_type =
     and_then (guard_that (strip query_text \<noteq> []) (Service (ValidationError (Message ''Search query must not be empty.'')))) (\<lambda>_.
       let wanted = (\<lambda>k. List.member ENTITY_TYPES k \<and> (case entity_types of None \<Rightarrow> True | Some ks \<Rightarrow> List.member ks k));
           candidate_limit = (case limit_per_type of None \<Rightarrow> MAX_PAGE_SIZE | Some n \<Rightarrow> n) in
       and_then (run_searches (search_plan cfg ident query_text wanted candidate_limit)) (\<lambda>found.
         let results = by_score_and_date found in
         and_then (record_search_history ident query_text entity_types (int (length results))) (\<lambda>_.
           return \<lparr>res_items = take (nat (pg_size p)) (drop (nat (page_offset p)) results), res_page = pg_number p,
                   res_page_size = pg_size p, res_total_records = int (length results)\<rparr>)))"

end
