(* ===== verification/SearchRuns.thy ===== *)
theory SearchRuns imports Search Creation DiscussionRuns "HOL-Library.Sublist" "HOL-Library.Multiset"
begin

text \<open>
  What a search shows and to whom, over any network; what it shows an administrator of other companies; that the
  history never breaks it; and the loop that reads every profile, where names do not sort equally.
\<close>

section \<open>The contract of a search of one kind\<close>

locale entity_search =
  fixes found :: "('z search_db_scheme, search_item list) eff"
    and admits :: "'z search_db_scheme \<Rightarrow> search_item \<Rightarrow> bool"
  assumes reads: "read_only found"
    and stable: "admits (s\<lparr>net := ds\<rparr>) i = admits s i"
    and shown: "found s = (Inr items, t) \<Longrightarrow> i \<in> set items \<Longrightarrow> admits s i"
begin

lemma same_admits: "same_data s t \<Longrightarrow> admits t i = admits s i"
  by (auto simp: same_data_def stable)

end

lemma run_searches_admits:
  assumes "\<And>m. m \<in> set ms \<Longrightarrow> entity_search m admits" "run_searches ms s = (Inr items, t)" "i \<in> set items"
  shows "admits s i"
  using assms
proof (induction ms arbitrary: s items)
  case (Cons m ms)
  from Cons.prems(1) have m: "entity_search m admits" by simp
  obtain xs u ys where run: "m s = (Inr xs, u)" "run_searches ms u = (Inr ys, t)" "items = xs @ ys"
    using Cons.prems(2) by (auto simp: and_then_eq_Inr eff_simps)
  show ?case
  proof (cases "i \<in> set xs")
    case True
    then show ?thesis by (rule entity_search.shown [OF m run(1)])
  next
    case False
    with run(3) Cons.prems(3) have "i \<in> set ys" by simp
    with Cons.IH [OF _ run(2)] Cons.prems(1) have "admits u i" by simp
    with entity_search.same_admits [OF m read_onlyD [OF entity_search.reads [OF m] run(1)]] show ?thesis by simp
  qed
qed (simp add: eff_simps)

section \<open>What a search may show\<close>

text \<open>A request that waits in the queue of a user: one of its stages is pending and assigned to the user or the user's role.\<close>

definition queued_for :: "identity \<Rightarrow> 'z db_scheme \<Rightarrow> uuid \<Rightarrow> bool" where
  "queued_for ident s i \<longleftrightarrow> (\<exists>st \<in> set (t_stages s). st_request_id st = i \<and> st_company_id st = id_company_id ident \<and>
     st_status st = StagePending \<and> (st_assigned_to st = Some (id_user_id ident) \<or> st_assigned_role st = Some (id_role ident)))"

definition listed_for :: "identity \<Rightarrow> 'z search_db_scheme \<Rightarrow> uuid \<Rightarrow> bool" where
  "listed_for ident s i \<longleftrightarrow> (\<exists>r \<in> set (t_requests s). rq_id r = i \<and> rq_company_id r = id_company_id ident \<and>
     rq_deleted_at r = None \<and> (id_role ident = Employee \<longrightarrow> rq_requester_id r = id_user_id ident) \<and>
     (id_role ident = Approver \<longrightarrow> queued_for ident s i))"

definition bound_kinds :: "string list" where
  "bound_kinds = [''request'', ''comment'', ''audit_entry'', ''attachment'']"

definition within_reach :: "identity \<Rightarrow> 'z search_db_scheme \<Rightarrow> search_item \<Rightarrow> bool" where
  "within_reach ident s i \<longleftrightarrow> (id_role ident \<noteq> Admin \<and> si_entity_type i \<in> set bound_kinds \<longrightarrow>
     (\<exists>r. si_request_id i = Some r \<and> listed_for ident s r))"

lemma listed_for_net [simp]: "listed_for ident (s\<lparr>net := ds\<rparr>) i = listed_for ident s i"
  by (simp add: listed_for_def queued_for_def)

lemma within_reach_net [simp]: "within_reach ident (s\<lparr>net := ds\<rparr>) i = within_reach ident s i"
  by (simp add: within_reach_def)

lemma within_reach_free: "si_entity_type i \<notin> set bound_kinds \<Longrightarrow> within_reach ident s i"
  by (simp add: within_reach_def)

lemma read_only_visibility [reading]: "read_only (visibility_filters ident)"
  unfolding visibility_filters_def visible_request_ids_for_approver_def list_pending_for_approver_def
  by (cases "id_role ident") (auto intro!: reading split: option.splits)

lemma mapped_request_id: "map_request_record_to_domain r = Inr req \<Longrightarrow> req_id req = rq_id r"
  by (auto simp: map_request_record_to_domain_def Request_def Let_def split: if_splits)

lemma map_page_Inr: "map_page f r = Inr res \<Longrightarrow> map_result f (res_items r) = Inr (res_items res)"
  by (auto simp: map_page_def bind_result_def split: sum.split_asm)

lemma visible_ids_queued:
  assumes "visible_request_ids_for_approver ident s = (Inr is, t)" "i \<in> set is"
  shows "queued_for ident s i"
proof -
  let ?q = "\<lambda>s. sort_key st_created_at (filter (\<lambda>st. st_company_id st = id_company_id ident \<and> st_status st = StagePending \<and>
      ((Some (id_user_id ident) \<noteq> None \<and> st_assigned_to st = Some (id_user_id ident)) \<or>
       (Some (id_role ident) \<noteq> None \<and> st_assigned_role st = Some (id_role ident)))) (t_stages s))"
  obtain result where result: "paginate stage_table ?q (page_of_size MAX_PAGE_SIZE) s = (Inr result, t)"
      "is = remdups (map st_request_id (res_items result))"
    using assms(1) by (auto simp: visible_request_ids_for_approver_def list_pending_for_approver_def and_then_eq_Inr eff_simps)
  have "set (res_items result) \<subseteq> set (?q s)" by (rule paginate_Inr [OF _ result(1)]) simp
  with assms(2) result(2) show ?thesis unfolding queued_for_def by fastforce
qed

lemma visibility_filters_Inr:
  assumes "visibility_filters ident s = (Inr (Some (rf, idf)), t)"
  shows "(id_role ident = Employee \<longrightarrow> rf = Some (id_user_id ident)) \<and>
    (id_role ident = Approver \<longrightarrow> (\<exists>is. idf = Some is \<and> (\<forall>i \<in> set is. queued_for ident s i)))"
  using assms visible_ids_queued
  by (auto simp: visibility_filters_def and_then_eq_Inr eff_simps split: user_role.splits if_splits)

lemma listed_rows:
  fixes rows :: "request_record list" and s :: "'z search_db_scheme"
  assumes "set rows \<subseteq> {r \<in> set (t_requests s). rq_company_id r = id_company_id ident \<and> rq_deleted_at r = None \<and>
      eq_filter rq_requester_id rf r \<and> in_filter rq_id idf r}"
    and "(id_role ident = Employee \<longrightarrow> rf = Some (id_user_id ident)) \<and>
      (id_role ident = Approver \<longrightarrow> (\<exists>is. idf = Some is \<and> (\<forall>i \<in> set is. queued_for ident s i)))"
    and "map_result map_request_record_to_domain rows = Inr items" "r \<in> set items"
  shows "listed_for ident s (req_id r)"
proof -
  obtain x where x: "x \<in> set rows" "map_request_record_to_domain x = Inr r"
    using map_result_members [OF assms(3,4)] by blast
  from x(1) assms(1) have "x \<in> set (t_requests s)" "rq_company_id x = id_company_id ident" "rq_deleted_at x = None"
      "eq_filter rq_requester_id rf x" "in_filter rq_id idf x" by auto
  with assms(2) show ?thesis
    unfolding listed_for_def mapped_request_id [OF x(2)] by (intro bexI [of _ x]) (auto simp: eq_filter_def in_filter_def)
qed

lemma service_list_Inr:
  fixes s :: "'z search_db_scheme"
  assumes "service_list_requests ident st ty dep p s = (Inr res, t)" "r \<in> set (res_items res)"
  shows "listed_for ident s (req_id r)"
proof -
  obtain v u where v: "visibility_filters ident s = (Inr v, u)" and rest: "(case v of None \<Rightarrow> return (empty_page p)
       | Some (rf, idf) \<Rightarrow> and_then (db_call (list_requests (id_company_id ident)
             \<lparr>rf_status = st, rf_request_type = ty, rf_department = dep, rf_requester_id = rf, rf_request_ids = idf,
              rf_created_after = None, rf_created_before = None, rf_include_deleted = False, rf_sort_descending = True\<rparr> p))
           (\<lambda>result. pure (map_page map_request_record_to_domain result))) u = (Inr res, t)"
    using assms(1) by (auto simp: service_list_requests_def and_then_eq_Inr)
  from read_onlyD [OF read_only_visibility v] obtain ds where u: "u = s\<lparr>net := ds\<rparr>" by (auto simp: same_data_def)
  show ?thesis
  proof (cases v)
    case None
    with rest assms(2) show ?thesis by (auto simp: eff_simps empty_page_def)
  next
    case (Some w)
    obtain rf idf where w: "w = (rf, idf)" by (cases w)
    let ?f = "\<lparr>rf_status = st, rf_request_type = ty, rf_department = dep, rf_requester_id = rf, rf_request_ids = idf,
              rf_created_after = None, rf_created_before = None, rf_include_deleted = False, rf_sort_descending = True\<rparr>"
    obtain result where result: "list_requests (id_company_id ident) ?f p u = (Inr result, t)"
        "map_page map_request_record_to_domain result = Inr res"
      using rest by (auto simp: Some w and_then_eq_Inr eff_simps)
    have "set (res_items result) \<subseteq> set (sort_key (\<lambda>r. if rf_sort_descending ?f then - rq_created_at r else rq_created_at r)
         (filter (\<lambda>r. rq_company_id r = id_company_id ident \<and> matches_request_filters ?f r) (t_requests u)))"
      by (rule paginate_Inr [OF _ result(1) [unfolded list_requests_def]]) simp
    then have "set (res_items result) \<subseteq> {r \<in> set (t_requests s). rq_company_id r = id_company_id ident \<and> rq_deleted_at r = None \<and>
        eq_filter rq_requester_id rf r \<and> in_filter rq_id idf r}"
      by (auto simp: u matches_request_filters_def)
    then show ?thesis
      by (rule listed_rows [OF _ _ map_page_Inr [OF result(2)] assms(2)]) (use visibility_filters_Inr [OF v [unfolded Some w]] in blast)
  qed
qed

lemma service_search_Inr:
  fixes s :: "'z search_db_scheme"
  assumes "service_search_requests wfts ident q p s = (Inr res, t)" "r \<in> set (res_items res)"
  shows "listed_for ident s (req_id r)"
proof -
  obtain v u where v: "visibility_filters ident s = (Inr v, u)" and rest: "(case v of None \<Rightarrow> return (empty_page p)
       | Some (rf, idf) \<Rightarrow> and_then (db_call (search_requests wfts q (id_company_id ident) rf idf False p))
           (\<lambda>result. pure (map_page map_request_record_to_domain result))) u = (Inr res, t)"
    using assms(1) by (auto simp: service_search_requests_def and_then_eq_Inr)
  from read_onlyD [OF read_only_visibility v] obtain ds where u: "u = s\<lparr>net := ds\<rparr>" by (auto simp: same_data_def)
  show ?thesis
  proof (cases v)
    case None
    with rest assms(2) show ?thesis by (auto simp: eff_simps empty_page_def)
  next
    case (Some w)
    obtain rf idf where w: "w = (rf, idf)" by (cases w)
    obtain result where result: "search_requests wfts q (id_company_id ident) rf idf False p u = (Inr result, t)"
        "map_page map_request_record_to_domain result = Inr res"
      using rest by (auto simp: Some w and_then_eq_Inr eff_simps)
    let ?rows = "\<lambda>s. order_desc rq_created_at (filter (\<lambda>r. rq_company_id r = id_company_id ident \<and>
           (ilike (strip q) (rq_title r) \<or> (case rq_description r of None \<Rightarrow> False | Some d \<Rightarrow> ilike (strip q) d) \<or> wfts (strip q) r) \<and>
           eq_filter rq_requester_id rf r \<and> in_filter rq_id idf r \<and> (False \<or> rq_deleted_at r = None)) (t_requests s))"
    obtain u' where "require_query ''search_requests'' q u = (Inr (), u')" "paginate request_table ?rows p u' = (Inr result, t)"
      using result(1) by (auto simp: search_requests_def Let_def and_then_eq_Inr)
    moreover from this(1) have "u' = u" by (auto simp: require_query_def guard_that_apply split: if_splits)
    ultimately have "set (res_items result) \<subseteq> set (?rows u)" by (intro paginate_Inr) auto
    then have "set (res_items result) \<subseteq> {r \<in> set (t_requests s). rq_company_id r = id_company_id ident \<and> rq_deleted_at r = None \<and>
        eq_filter rq_requester_id rf r \<and> in_filter rq_id idf r}"
      by (auto simp: u order_desc_def)
    then show ?thesis
      by (rule listed_rows [OF _ _ map_page_Inr [OF result(2)] assms(2)]) (use visibility_filters_Inr [OF v [unfolded Some w]] in blast)
  qed
qed

lemma visible_ids_Inr:
  fixes s :: "'z search_db_scheme"
  assumes "visible_request_ids ident s = (Inr ids, t)" "id_role ident \<noteq> Admin"
  shows "\<exists>is. ids = Some is \<and> (\<forall>i \<in> set is. listed_for ident s i)"
  using assms service_list_Inr by (fastforce simp: visible_request_ids_def and_then_eq_Inr eff_simps)

lemma read_only_services [reading]:
  "read_only (service_list_requests ident st ty dep p)" "read_only (service_search_requests wfts ident q p)"
  unfolding service_list_requests_def service_search_requests_def list_requests_def search_requests_def require_query_def
  by (auto intro!: reading split: option.splits prod.splits simp: Let_def)

lemma read_only_visible_ids [reading]: "read_only (visible_request_ids ident)"
  unfolding visible_request_ids_def by (auto intro!: reading)

lemma read_only_titles [reading]: "read_only (request_titles is c)"
  unfolding request_titles_def list_requests_def by (auto intro!: reading)

lemma read_only_actor [reading]: "read_only (resolve_actor i cache)"
  unfolding resolve_actor_def get_profile_row_def by (auto intro!: reading split: option.splits)

lemma read_only_audit_items [reading]: "read_only (audit_items q titles as cache)"
  by (induction as arbitrary: cache) (auto intro!: reading)

lemma read_only_paged [reading]:
  "read_only (search_comment_rows wfts q ids del p)" "read_only (search_attachment_rows q ids del p)"
  "read_only (search_audit q ids p)" "read_only (search_by_name coll q c del p)" "read_only (search_definitions ident q p)"
  "read_only (list_pending_approvals ident p)" "read_only (list_for_recipient u r ty ar se p)" "read_only (list_by_role coll role c d del p)"
  unfolding search_comment_rows_def search_attachment_rows_def search_audit_def search_by_name_def search_definitions_def
    search_definition_rows_def list_pending_approvals_def list_pending_for_approver_def list_for_recipient_def list_by_role_def
    require_query_def Let_def
  by (auto intro!: reading)

lemma read_only_profile_pages [reading]: "read_only (profile_pages coll role c n k)"
  by (induction n arbitrary: k) (auto intro!: reading)

lemma read_only_profiles [reading]: "read_only (fetch_all_profiles coll c)"
  unfolding fetch_all_profiles_def by (auto intro!: reading)

lemma read_only_found [reading]:
  "read_only (found_requests cfg ident q n)" "read_only (found_approvals ident q n)" "read_only (found_workflows ident q n)"
  "read_only (found_users cfg ident q n)" "read_only (found_comments cfg ident q n)" "read_only (found_audit_entries ident q n)"
  "read_only (found_notifications ident q n)" "read_only (found_attachments ident q n)" "read_only (found_departments cfg ident q n)"
  unfolding found_requests_def found_approvals_def found_workflows_def found_users_def found_comments_def found_audit_entries_def
    found_notifications_def found_attachments_def found_departments_def Let_def
  by (auto intro!: reading)

text \<open>The rows of comments, attachments and audit entries that are searched within given requests.\<close>

lemma comment_rows_within:
  fixes s :: "'z search_db_scheme"
  assumes "search_comment_rows wfts q (Some is) del p s = (Inr res, t)" "c \<in> set (res_items res)"
  shows "ct_request_id c \<in> set is"
proof -
  let ?rows = "\<lambda>s :: 'z search_db_scheme. order_desc ct_created_at (filter (\<lambda>c. (ilike (strip q) (ct_body c) \<or> wfts (strip q) c) \<and>
     in_filter ct_request_id (Some is) c \<and> (del \<or> ct_deleted_at c = None)) (t_comments s))"
  obtain u where "paginate comment_table ?rows p u = (Inr res, t)"
    using assms(1) by (auto simp: search_comment_rows_def Let_def and_then_eq_Inr)
  from paginate_Inr [OF _ this] assms(2) show ?thesis by (auto simp: order_desc_def in_filter_def)
qed

lemma attachment_rows_within:
  fixes s :: "'z search_db_scheme"
  assumes "search_attachment_rows q (Some is) del p s = (Inr res, t)" "a \<in> set (res_items res)"
  shows "ah_request_id a \<in> set is"
proof -
  let ?rows = "\<lambda>s :: 'z search_db_scheme. order_desc ah_created_at (filter (\<lambda>a. ilike (strip q) (ah_file_name a) \<and>
     in_filter ah_request_id (Some is) a \<and> (del \<or> ah_deleted_at a = None)) (t_attachments s))"
  obtain u where "paginate attachment_table ?rows p u = (Inr res, t)"
    using assms(1) by (auto simp: search_attachment_rows_def and_then_eq_Inr)
  from paginate_Inr [OF _ this] assms(2) show ?thesis by (auto simp: order_desc_def in_filter_def)
qed

lemma audit_rows_within:
  fixes s :: "'z search_db_scheme"
  assumes "search_audit q (Some is) p s = (Inr res, t)" "a \<in> set (res_items res)"
  shows "\<exists>i \<in> set is. au_request_id a = Some i"
proof -
  let ?rows = "\<lambda>s :: 'z search_db_scheme. order_desc au_created_at (filter (\<lambda>a. ilike (strip q) (au_action a) \<and>
     (case Some is of None \<Rightarrow> True | Some ids \<Rightarrow> list_ex (\<lambda>i. au_request_id a = Some i) ids)) (t_audit s))"
  obtain u where "paginate audit_table ?rows p u = (Inr res, t)"
    using assms(1) by (auto simp: search_audit_def and_then_eq_Inr)
  from paginate_Inr [OF _ this] assms(2) show ?thesis by (auto simp: order_desc_def list_ex_iff)
qed

lemma audit_items_Inr:
  "audit_items q titles as cache s = (Inr items, t) \<Longrightarrow> \<exists>names. items = map2 (audit_item q titles) names as \<and> length names = length as"
proof (induction as arbitrary: cache s items)
  case (Cons a as)
  obtain name cache' u rest where run: "resolve_actor (au_actor_id a) cache s = (Inr (name, cache'), u)"
      "audit_items q titles as cache' u = (Inr rest, t)" "items = audit_item q titles name a # rest"
    using Cons.prems by (auto simp: and_then_eq_Inr eff_simps)
  from Cons.IH [OF run(2)] obtain names where "rest = map2 (audit_item q titles) names as" "length names = length as" by blast
  with run(3) show ?case by (intro exI [of _ "name # names"]) simp
qed (simp add: eff_simps)

lemma kinds [simp]:
  "''request'' \<in> set bound_kinds" "''approval'' \<notin> set bound_kinds" "''workflow'' \<notin> set bound_kinds" "''user'' \<notin> set bound_kinds"
  "''department'' \<notin> set bound_kinds" "''notification'' \<notin> set bound_kinds"
  by (simp_all add: bound_kinds_def)

interpretation requests_found: entity_search "found_requests cfg ident q n" "within_reach ident" for cfg ident q n
proof unfold_locales
  fix s :: "'z search_db_scheme" and items t i
  assume "found_requests cfg ident q n s = (Inr items, t)" "i \<in> set items"
  then obtain p res where "service_search_requests (gs_request_match cfg) ident q p s = (Inr res, t)" "items = map (request_item q) (res_items res)"
    by (auto simp: found_requests_def and_then_eq_Inr eff_simps)
  with service_search_Inr [OF this(1)] \<open>i \<in> set items\<close> show "within_reach ident s i"
    by (auto simp: within_reach_def request_item_def)
qed (auto intro!: reading)

interpretation comments_found: entity_search "found_comments cfg ident q n" "within_reach ident" for cfg ident q n
proof unfold_locales
  fix s :: "'z search_db_scheme" and items t i
  assume run: "found_comments cfg ident q n s = (Inr items, t)" "i \<in> set items"
  then obtain ids u where ids: "visible_request_ids ident s = (Inr ids, u)" "ids \<noteq> Some []"
    by (auto simp: found_comments_def and_then_eq_Inr eff_simps split: if_splits)
  with run obtain p res titles and v w :: "'z search_db_scheme" where "search_comment_rows (gs_comment_match cfg) q ids False p v = (Inr res, w)"
      "items = map (comment_item q titles) (res_items res)"
    by (auto simp: found_comments_def and_then_eq_Inr eff_simps) blast
  with visible_ids_Inr [OF ids(1)] run(2) show "within_reach ident s i"
    by (fastforce simp: within_reach_def comment_item_def dest: comment_rows_within)
qed (auto intro!: reading)

interpretation attachments_found: entity_search "found_attachments ident q n" "within_reach ident" for ident q n
proof unfold_locales
  fix s :: "'z search_db_scheme" and items t i
  assume run: "found_attachments ident q n s = (Inr items, t)" "i \<in> set items"
  then obtain ids u where ids: "visible_request_ids ident s = (Inr ids, u)" "ids \<noteq> Some []"
    by (auto simp: found_attachments_def and_then_eq_Inr eff_simps split: if_splits)
  with run obtain p res and v w :: "'z search_db_scheme" where "search_attachment_rows q ids False p v = (Inr res, w)" "items = map (attachment_item q) (res_items res)"
    by (auto simp: found_attachments_def and_then_eq_Inr eff_simps)
  with visible_ids_Inr [OF ids(1)] run(2) show "within_reach ident s i"
    by (fastforce simp: within_reach_def attachment_item_def dest: attachment_rows_within)
qed (auto intro!: reading)

interpretation audit_found: entity_search "found_audit_entries ident q n" "within_reach ident" for ident q n
proof unfold_locales
  fix s :: "'z search_db_scheme" and items t i
  assume run: "found_audit_entries ident q n s = (Inr items, t)" "i \<in> set items"
  then obtain ids u where ids: "visible_request_ids ident s = (Inr ids, u)" "ids \<noteq> Some []"
    by (auto simp: found_audit_entries_def and_then_eq_Inr eff_simps split: if_splits)
  with run obtain p res titles and v w x :: "'z search_db_scheme" where "search_audit q ids p v = (Inr res, w)" "audit_items q titles (res_items res) Map.empty x = (Inr items, t)"
    by (auto simp: found_audit_entries_def and_then_eq_Inr)
  moreover from audit_items_Inr [OF this(2)] run(2) obtain name a where "a \<in> set (res_items res)" "i = audit_item q titles name a"
    by (fastforce dest: set_zip_rightD)
  ultimately show "within_reach ident s i"
    using visible_ids_Inr [OF ids(1)] by (auto simp: within_reach_def audit_item_def Let_def dest: audit_rows_within)
qed (auto intro!: reading)

text \<open>The other kinds never have one of the bound labels.\<close>

lemma free_search:
  fixes m :: "('z search_db_scheme, search_item list) eff"
  assumes "read_only m" "\<And>s items t i. m s = (Inr items, t) \<Longrightarrow> i \<in> set items \<Longrightarrow> si_entity_type i \<notin> set bound_kinds"
  shows "entity_search m (within_reach ident)"
  using assms by unfold_locales (auto intro: within_reach_free)

lemma slice_to_subset: "x \<in> set (slice_to n xs) \<Longrightarrow> x \<in> set xs"
  by (auto simp: slice_to_def split: if_splits dest: in_set_takeD)

interpretation approvals_found: entity_search "found_approvals ident q n" "within_reach ident" for ident q n
  by (rule free_search) (auto simp: found_approvals_def and_then_eq_Inr eff_simps Let_def best_first_def approval_item_def
      intro!: reading split: if_splits dest!: slice_to_subset)

interpretation workflows_found: entity_search "found_workflows ident q n" "within_reach ident" for ident q n
  by (rule free_search) (auto simp: found_workflows_def and_then_eq_Inr eff_simps workflow_item_def intro!: reading)

interpretation users_found: entity_search "found_users cfg ident q n" "within_reach ident" for cfg ident q n
  by (rule free_search) (auto simp: found_users_def and_then_eq_Inr eff_simps user_item_def intro!: reading)

interpretation departments_found: entity_search "found_departments cfg ident q n" "within_reach ident" for cfg ident q n
  by (rule free_search) (auto simp: found_departments_def and_then_eq_Inr eff_simps Let_def best_first_def department_item_def
      intro!: reading split: if_splits dest!: slice_to_subset)

interpretation notifications_found: entity_search "found_notifications ident q n" "within_reach ident" for ident q n
  by (rule free_search) (auto simp: found_notifications_def and_then_eq_Inr eff_simps notification_item_def intro!: reading)

lemma plan_reaches: "m \<in> set (search_plan cfg ident q wanted n) \<Longrightarrow> entity_search m (within_reach ident)"
  by (auto simp: search_plan_def split: if_splits
      intro: requests_found.entity_search_axioms comments_found.entity_search_axioms attachments_found.entity_search_axioms
        audit_found.entity_search_axioms approvals_found.entity_search_axioms workflows_found.entity_search_axioms
        users_found.entity_search_axioms departments_found.entity_search_axioms notifications_found.entity_search_axioms)

lemma global_search_Inr:
  assumes "global_search cfg ident q types p limit s = (Inr res, t)"
  obtains wanted n found u where "run_searches (search_plan cfg ident q wanted n) s = (Inr found, u)"
    "res_items res = take (nat (pg_size p)) (drop (nat (page_offset p)) (by_score_and_date found))"
  using assms unfolding global_search_def Let_def and_then_eq_Inr guard_that_apply
  by (auto simp: eff_simps split: if_splits)

text \<open>
  C21. Whatever a user who is not an administrator searches for, and over any network: every request, comment,
  attachment and audit entry of the answer belongs to a request of the user's company that is not deleted; an
  employee's to a request of the employee's own; and an approver's to a request that waits for the approver:
  one of its stages is pending and assigned to the approver or to the approver's role.
\<close>

theorem search_stays_within_reach:
  fixes s :: "'z search_db_scheme"
  assumes "id_role ident \<noteq> Admin" "global_search cfg ident q types p limit s = (Inr res, t)" "i \<in> set (res_items res)"
    and "si_entity_type i \<in> {''request'', ''comment'', ''audit_entry'', ''attachment''}"
  shows "\<exists>r \<in> set (t_requests s). si_request_id i = Some (rq_id r) \<and> rq_company_id r = id_company_id ident \<and>
    rq_deleted_at r = None \<and> (id_role ident = Employee \<longrightarrow> rq_requester_id r = id_user_id ident) \<and>
    (id_role ident = Approver \<longrightarrow> (\<exists>st \<in> set (t_stages s). st_request_id st = rq_id r \<and> st_company_id st = id_company_id ident \<and>
       st_status st = StagePending \<and> (st_assigned_to st = Some (id_user_id ident) \<or> st_assigned_role st = Some Approver)))"
proof -
  obtain wanted n found u where run: "run_searches (search_plan cfg ident q wanted n) s = (Inr found, u)"
      "res_items res = take (nat (pg_size p)) (drop (nat (page_offset p)) (by_score_and_date found))"
    by (rule global_search_Inr [OF assms(2)])
  from run(2) assms(3) have "i \<in> set (by_score_and_date found)" by (metis in_set_takeD in_set_dropD)
  then have "within_reach ident s i" using run_searches_admits [OF plan_reaches run(1)] by (simp add: by_score_and_date_def)
  with assms(1,4) show ?thesis by (auto simp: within_reach_def bound_kinds_def listed_for_def queued_for_def)
qed

section \<open>What an administrator is shown of other companies\<close>

text \<open>
  C22. An administrator's search of the audit trail has no company: on a quiet network every entry whose action
  matches, whatever company it belongs to, is in the answer, as long as the matches fit on a page.
\<close>

theorem admin_search_crosses_companies:
  fixes s :: "'z search_db_scheme"
  assumes "quiet s" "id_role ident = Admin" "a \<in> set (t_audit s)" "ilike (strip q) (au_action a)"
    and "global_search cfg ident q (Some [''audit_entry'']) p None s = (Inr res, t)"
    and "pg_number p = 1" "int (length (filter (\<lambda>a. ilike (strip q) (au_action a)) (t_audit s))) \<le> min 100 (pg_size p)"
  shows "\<exists>i \<in> set (res_items res). si_entity_type i = ''audit_entry'' \<and> si_id i = au_id a \<and>
    si_title i = labelled (au_action a) \<and> si_created_at i = au_created_at a"
proof -
  let ?rows = "order_desc au_created_at (filter (\<lambda>a. ilike (strip q) (au_action a)) (t_audit s))"
  have plan: "search_plan cfg ident q (\<lambda>k. List.member ENTITY_TYPES k \<and> List.member [''audit_entry''] k) n =
      [found_audit_entries ident q n]" for n
    by (simp add: search_plan_def ENTITY_TYPES_def)
  obtain items u where items: "found_audit_entries ident q 100 s = (Inr items, u)"
      "res_items res = take (nat (pg_size p)) (drop (nat (page_offset p)) (by_score_and_date items))"
    using assms(5) unfolding global_search_def Let_def and_then_eq_Inr guard_that_apply option.case plan
    by (auto simp: eff_simps and_then_eq_Inr MAX_PAGE_SIZE_def split: if_splits)
  have page: "Page 1 100 = Inr \<lparr>pg_number = 1, pg_size = 100\<rparr>" by (simp add: Page_def MAX_PAGE_SIZE_def)
  have query: "strip q \<noteq> []" using assms(5) by (auto simp: global_search_def and_then_eq_Inr guard_that_apply split: if_splits)
  have "search_audit q None \<lparr>pg_number = 1, pg_size = 100\<rparr> s = (Inr \<lparr>res_items = ?rows, res_page = 1, res_page_size = 100,
      res_total_records = int (length ?rows)\<rparr>, s)"
    using query assms(7) by (simp add: search_audit_def require_query_def and_then_def guard_that_apply paginate_quiet [OF assms(1)]
        row_range_def page_offset_def page_upper_bound_def order_desc_def)
  then obtain titles v where "audit_items q titles ?rows Map.empty v = (Inr items, u)"
    using items(1) assms(2) by (auto simp: found_audit_entries_def visible_request_ids_def page and_then_eq_Inr eff_simps)
  from audit_items_Inr [OF this] obtain names where names: "items = map2 (audit_item q titles) names ?rows" "length names = length ?rows"
    by blast
  have "a \<in> set ?rows" using assms(3,4) by (simp add: order_desc_def)
  then obtain name where "(name, a) \<in> set (zip names ?rows)" using names(2) by (metis in_set_impl_in_set_zip2)
  then have shown: "audit_item q titles name a \<in> set items" using names(1) by force
  have "length items = length ?rows" using names by simp
  then have "res_items res = by_score_and_date items"
    using items(2) assms(6,7) by (simp add: page_offset_def by_score_and_date_def order_desc_def)
  with shown show ?thesis by (intro bexI [of _ "audit_item q titles name a"]) (simp_all add: audit_item_def Let_def by_score_and_date_def)
qed

section \<open>The history\<close>

lemma record_history_returns: "\<exists>t. record_search_history ident q types n s = (Inr (), t)"
proof -
  obtain r t where run: "record_history_row (id_user_id ident) (id_company_id ident) (strip q) types n s = (r, t)" by fastforce
  show ?thesis
  proof (cases r)
    case (Inl e)
    then have "is_database_error e"
      using run execute_raises_db
      by (fastforce simp: record_history_row_def insert_row_def and_then_def single_row_def eff_simps split: prod.splits sum.splits list.splits)
    with run Inl show ?thesis by (simp add: record_search_history_def handle_def and_then_def eff_simps)
  qed (use run in \<open>simp add: record_search_history_def handle_def and_then_def eff_simps\<close>)
qed

lemma sort_key_twice:
  fixes f :: "'a \<Rightarrow> 'b :: linorder" and g :: "'a \<Rightarrow> 'c :: linorder"
  shows "sorted_wrt (\<lambda>x y. f x < f y \<or> f x = f y \<and> g x \<le> g y) (sort_key f (sort_key g xs))"
  unfolding sorted_wrt_iff_nth_less
proof (intro allI impI)
  fix i j
  let ?ys = "sort_key f (sort_key g xs)"
  assume ij: "i < j" "j < length ?ys"
  have "sorted (map f ?ys)" by simp
  with ij have le: "f (?ys ! i) \<le> f (?ys ! j)" by (simp add: sorted_wrt_nth_less [of _ "map f ?ys" i j, simplified] sorted_nth_mono)
  show "f (?ys ! i) < f (?ys ! j) \<or> f (?ys ! i) = f (?ys ! j) \<and> g (?ys ! i) \<le> g (?ys ! j)"
  proof (cases "f (?ys ! i) = f (?ys ! j)")
    case True
    let ?P = "\<lambda>x. f x = f (?ys ! i)"
    have "filter ?P ?ys = filter ?P (sort_key g xs)" by (rule sort_key_stable)
    moreover have "sorted (map g (filter ?P (sort_key g xs)))" by (rule sorted_filter) simp
    ultimately have sorted: "sorted (map g (filter ?P ?ys))" by simp
    have "g (?ys ! i) \<le> g (?ys ! j)"
    proof -
      have "?ys = take j ?ys @ ?ys ! j # drop (Suc j) ?ys" using ij(2) by (simp add: id_take_nth_drop)
      then have "filter ?P ?ys = filter ?P (take j ?ys) @ ?ys ! j # filter ?P (drop (Suc j) ?ys)"
        using True by (metis (mono_tags, lifting) filter.simps(2) filter_append)
      moreover have "?ys ! i \<in> set (filter ?P (take j ?ys))" using ij by (simp add: in_set_conv_nth) (metis nth_take)
      ultimately show ?thesis using sorted by (auto simp: sorted_append)
    qed
    with True show ?thesis by simp
  qed (use le in simp)
qed

lemma ranked_results:
  "sorted_wrt (\<lambda>i j. si_score j < si_score i \<or> si_score i = si_score j \<and> si_created_at j \<le> si_created_at i) (by_score_and_date xs)"
  using sort_key_twice [of "\<lambda>i. - si_score i" "\<lambda>i. - si_created_at i" xs] by (simp add: by_score_and_date_def)

lemma global_search_run:
  assumes "strip q \<noteq> []"
    and "run_searches (search_plan cfg ident q (\<lambda>k. List.member ENTITY_TYPES k \<and> (case types of None \<Rightarrow> True | Some ks \<Rightarrow> List.member ks k))
      (case limit of None \<Rightarrow> MAX_PAGE_SIZE | Some n \<Rightarrow> n)) s = (Inr found, u)"
  shows "\<exists>t. global_search cfg ident q types p limit s =
      (Inr \<lparr>res_items = take (nat (pg_size p)) (drop (nat (page_offset p)) (by_score_and_date found)), res_page = pg_number p,
        res_page_size = pg_size p, res_total_records = int (length found)\<rparr>, t)"
proof -
  obtain t where "record_search_history ident q types (int (length (by_score_and_date found))) u = (Inr (), t)"
    using record_history_returns by blast
  then show ?thesis
    using assms by (intro exI [of _ t]) (simp add: global_search_def Let_def and_then_def guard_that_apply eff_simps by_score_and_date_def)
qed

text \<open>
  A search whose lookups succeed returns their results, whatever becomes of its entry in the history: the
  page asked for, best scores first and the newest first among equals, and the number of all results.
\<close>

theorem search_survives_history:
  fixes s :: "'z search_db_scheme"
  assumes "strip q \<noteq> []"
    and "run_searches (search_plan cfg ident q (\<lambda>k. List.member ENTITY_TYPES k \<and> (case types of None \<Rightarrow> True | Some ks \<Rightarrow> List.member ks k))
      (case limit of None \<Rightarrow> MAX_PAGE_SIZE | Some n \<Rightarrow> n)) s = (Inr found, u)"
  shows "\<exists>t results. global_search cfg ident q types p limit s =
      (Inr \<lparr>res_items = take (nat (pg_size p)) (drop (nat (page_offset p)) results), res_page = pg_number p,
        res_page_size = pg_size p, res_total_records = int (length found)\<rparr>, t) \<and>
    mset results = mset found \<and> sorted_wrt (\<lambda>i j. si_score j < si_score i \<or> si_score i = si_score j \<and> si_created_at j \<le> si_created_at i) results"
proof -
  have "mset (by_score_and_date found) = mset found" by (simp add: by_score_and_date_def)
  then show ?thesis using global_search_run [OF assms] ranked_results by blast
qed

lemma distinct_queries_facts:
  defines "key \<equiv> \<lambda>r. lower (strip (hs_query_text r))"
  shows "subseq (distinct_queries n seen rows) rows \<and> distinct (map key (distinct_queries n seen rows)) \<and>
    set (map key (distinct_queries n seen rows)) \<inter> set seen = {} \<and>
    int (length (distinct_queries n seen rows)) \<le> max 1 (n - int (length seen)) \<and>
    (int (length (distinct_queries n seen rows)) < n - int (length seen) \<longrightarrow>
       (\<forall>r \<in> set rows. key r \<in> set seen \<union> set (map key (distinct_queries n seen rows))))"
proof (induction rows arbitrary: seen)
  case (Cons r rows)
  show ?case
  proof (cases "key r \<in> set seen")
    case True
    with Cons [of seen] show ?thesis by (simp add: Let_def key_def) blast
  next
    case False
    show ?thesis
    proof (cases "n \<le> int (length seen) + 1")
      case True
      with False show ?thesis by (simp add: Let_def key_def)
    next
      case more: False
      then have "distinct_queries n seen (r # rows) = r # distinct_queries n (key r # seen) rows"
        using False by (simp add: Let_def key_def)
      with Cons [of "key r # seen"] False more show ?thesis by (auto simp: key_def)
    qed
  qed
qed simp

text \<open>
  The recent searches of a user, over any network: entries of the user's own history, newest first, no two of
  the same text up to case and outer blanks, not more than asked for; and when there are fewer, no search among
  the last three times as many is left out.
\<close>

theorem recent_searches_distinct:
  fixes s :: "'z search_db_scheme"
  assumes "list_recent_searches ident n s = (Inr es, t)" "0 < n"
  defines "window \<equiv> take (nat (3 * n)) (order_desc hs_created_at
      (filter (\<lambda>h. hs_user_id h = id_user_id ident \<and> hs_company_id h = id_company_id ident) (t_search_history s)))"
  shows "\<exists>rows. es = map SearchHistoryEntry rows \<and> subseq rows window \<and>
    distinct (map (\<lambda>h. lower (strip (hs_query_text h))) rows) \<and> int (length rows) \<le> n \<and>
    (int (length rows) < n \<longrightarrow> (\<forall>h \<in> set window. \<exists>r \<in> set rows. lower (strip (hs_query_text r)) = lower (strip (hs_query_text h))))"
proof -
  obtain w u where ex: "execute ''list_recent'' ''search_history'' (gets (\<lambda>s. take (nat (n * 3))
        (order_desc hs_created_at (filter (\<lambda>h. hs_user_id h = id_user_id ident \<and> hs_company_id h = id_company_id ident) (t_search_history s))))) s =
        (Inr w, u)" and es: "es = map SearchHistoryEntry (distinct_queries n [] w)"
    using assms(1) by (auto simp: list_recent_searches_def list_recent_def and_then_eq_Inr eff_simps)
  have "w = window" using execute_read [OF _ ex] by (simp add: window_def mult.commute)
  with es distinct_queries_facts [of n "[]" window] assms(2) show ?thesis
    by (intro exI [of _ "distinct_queries n [] window"]) (fastforce simp: image_iff)
qed

section \<open>Every profile\<close>

definition profiles_of_role :: "(string \<Rightarrow> nat) \<Rightarrow> uuid \<Rightarrow> user_role \<Rightarrow> 'z db_scheme \<Rightarrow> profile_record list" where
  "profiles_of_role coll c role s = sort_key (\<lambda>p. coll (pr_full_name p))
     (filter (\<lambda>p. pr_role p = role \<and> pr_company_id p = c \<and> pr_deleted_at p = None) (t_profiles s))"

lemma profile_pages_fuel:
  assumes "quiet s" "length (profiles_of_role coll c role s) \<le> (k + rounds) * 100" "0 < rounds"
  shows "profile_pages coll role c rounds (int k + 1) s = (Inr (drop (k * 100) (profiles_of_role coll c role s)), s)"
  using assms(2,3)
proof (induction rounds arbitrary: k)
  case (Suc rounds)
  let ?xs = "profiles_of_role coll c role s"
  have page: "list_by_role coll role c None False \<lparr>pg_number = int k + 1, pg_size = MAX_PAGE_SIZE\<rparr> s =
      (Inr \<lparr>res_items = take 100 (drop (k * 100) ?xs), res_page = int k + 1, res_page_size = 100, res_total_records = int (length ?xs)\<rparr>, s)"
    by (simp add: list_by_role_def paginate_quiet [OF assms(1)] row_range_def page_offset_def page_upper_bound_def MAX_PAGE_SIZE_def
        profiles_of_role_def nat_mult_distrib)
  show ?case
  proof (cases "length ?xs \<le> Suc k * 100")
    case True
    then have "take 100 (drop (k * 100) ?xs) = drop (k * 100) ?xs" by simp
    with page True show ?thesis by (simp add: and_then_def eff_simps MAX_PAGE_SIZE_def)
  next
    case False
    then have "0 < rounds" "length ?xs \<le> (Suc k + rounds) * 100" using Suc.prems by (cases rounds; simp)+
    from Suc.IH [OF this(2,1)] have "profile_pages coll role c rounds (int k + 2) s = (Inr (drop (Suc k * 100) ?xs), s)"
      by (simp add: add.commute)
    moreover have "take 100 (drop (k * 100) ?xs) @ drop (Suc k * 100) ?xs = drop (k * 100) ?xs"
      by (metis add.commute append_take_drop_id drop_drop mult_Suc)
    moreover have "take 100 (drop (k * 100) ?xs) \<noteq> []" using False by simp
    ultimately show ?thesis using page False by (simp add: and_then_def eff_simps MAX_PAGE_SIZE_def add.assoc)
  qed
qed simp

text \<open>
  \<open>list_by_role\<close> orders by the name alone, and the pages are separate queries: the database is free to put two
  profiles whose names sort equally in another order on each page. Where no two do, there is only one order.
\<close>

lemma one_order:
  assumes "distinct (map f zs)" "sorted (map f zs)" "sorted (map f ys)" "mset ys = mset zs"
  shows "ys = zs"
proof -
  have same: "set ys = set zs" using assms(4) by (rule mset_eq_setD)
  have "mset (map f ys) = mset (map f zs)" using assms(4) by simp
  then have "map f ys = map f zs" using assms(2,3) by (metis properties_for_sort sorted_sort_id)
  with assms(1) same show ?thesis by (intro inj_on_map_eq_map [THEN iffD1, of f ys zs]) (auto simp: distinct_map)
qed

text \<open>
  C23. In a company where no two profiles of one role have names that sort equally, the loops over the pages of the
  three roles end and have read every profile of the company that is not erased, once each. Every ordering by
  name of the profiles of a role is then the same list, so the pages do not depend on how the database breaks
  ties; with equal names it may return a profile on two pages and another on none.
\<close>

theorem all_profiles_fetched:
  fixes s :: "'z db_scheme"
  defines "present \<equiv> \<lambda>c role. filter (\<lambda>p. pr_role p = role \<and> pr_company_id p = c \<and> pr_deleted_at p = None) (t_profiles s)"
  assumes "quiet s" "\<And>role. distinct (map (\<lambda>p. coll (pr_full_name p)) (present c role))"
  shows "\<exists>found. fetch_all_profiles coll c s = (Inr (found Employee @ found Approver @ found Admin), s) \<and>
    mset (found Employee @ found Approver @ found Admin) =
      mset (filter (\<lambda>p. pr_company_id p = c \<and> pr_deleted_at p = None) (t_profiles s)) \<and>
    (\<forall>role ys. mset ys = mset (present c role) \<and> sorted (map (\<lambda>p. coll (pr_full_name p)) ys) \<longrightarrow> ys = found role)"
proof -
  let ?key = "\<lambda>p. coll (pr_full_name p)"
  let ?found = "\<lambda>role. profiles_of_role coll c role s"
  have "length (?found role) \<le> length (t_profiles s)" for role by (simp add: profiles_of_role_def)
  then have "length (?found role) \<le> (0 + Suc (length (t_profiles s))) * 100" for role
    by (rule order_trans) simp
  from profile_pages_fuel [OF assms(2) this] have "profile_pages coll role c (Suc (length (t_profiles s))) 1 s =
      (Inr (?found role), s)" for role by simp
  then have run: "fetch_all_profiles coll c s = (Inr (?found Employee @ ?found Approver @ ?found Admin), s)"
    by (simp add: fetch_all_profiles_def and_then_def eff_simps del: profile_pages.simps)
  have "mset (filter (\<lambda>p. pr_role p = Employee \<and> Q p) xs) + mset (filter (\<lambda>p. pr_role p = Approver \<and> Q p) xs) +
      mset (filter (\<lambda>p. pr_role p = Admin \<and> Q p) xs) = mset (filter Q xs)" for Q :: "profile_record \<Rightarrow> bool" and xs
  proof (induction xs)
    case (Cons x xs)
    then show ?case by (cases "pr_role x") auto
  qed simp
  from this [of "\<lambda>p. pr_company_id p = c \<and> pr_deleted_at p = None"]
  have all: "mset (?found Employee @ ?found Approver @ ?found Admin) =
      mset (filter (\<lambda>p. pr_company_id p = c \<and> pr_deleted_at p = None) (t_profiles s))"
    by (simp add: profiles_of_role_def union_assoc)
  have found: "?found role = sort_key ?key (present c role)" for role by (simp add: profiles_of_role_def present_def)
  have "distinct (map ?key (?found role))" for role
    using assms(3) [of role] by (simp add: found distinct_map)
  then have "ys = ?found role" if "mset ys = mset (present c role)" "sorted (map ?key ys)" for role ys
    using that by (intro one_order [of ?key]) (simp_all add: found)
  with run all show ?thesis by (intro exI [of _ ?found]) blast
qed

section \<open>Instances\<close>

definition sample_search_config :: search_config where
  "sample_search_config = \<lparr>gs_collation = length, gs_request_match = (\<lambda>_ _. False), gs_comment_match = (\<lambda>_ _. False),
     gs_department_id = length\<rparr>"

definition sample_entry :: "uuid \<Rightarrow> uuid option \<Rightarrow> string \<Rightarrow> uuid option \<Rightarrow> audit_record" where
  "sample_entry i r action c = \<lparr>au_id = i, au_actor_id = Some 3, au_request_id = r, au_action = action, au_metadata = None,
     au_created_at = int i, au_company_id = c\<rparr>"

definition past_search :: "uuid \<Rightarrow> string \<Rightarrow> search_history_record" where
  "past_search i q = \<lparr>hs_id = i, hs_user_id = 2, hs_company_id = 7, hs_query_text = q, hs_entity_types = None,
     hs_result_count = 0, hs_created_at = int i\<rparr>"

text \<open>The entry 61 is one of another company.\<close>

definition searched_db :: "delivery list \<Rightarrow> search_db" where
  "searched_db ds = \<lparr>t_profiles = t_profiles (sample_db []), t_definitions = t_definitions (sample_db []),
     t_requests = t_requests (sample_db []), t_stages = t_stages (sample_db []),
     t_audit = [sample_entry 60 (Some 20) ''REQUEST_CREATED'' (Some 7), sample_entry 61 None ''PROFILE_ERASED'' (Some 8)],
     t_notifications = [], t_preferences = [], next_uuid = 100, clock = 5, net = ds,
     t_comments = t_comments (discussed_db []), t_attachments = [], d_objects = (\<lambda>_. None), t_saved_filters = [],
     t_search_history = [past_search 1 ''trip'', past_search 2 ''Trip '', past_search 3 ''rome'']\<rparr>"

lemma searched_db_quiet: "quiet (searched_db [])"
  by (simp add: searched_db_def quiet_def)

definition sample_employee :: identity where "sample_employee = identity_of 2 Employee 7"

text \<open>A search of the audit trail on a quiet network.\<close>

lemma resolve_actor_quiet: "quiet s \<Longrightarrow> \<exists>x. resolve_actor i cache s = (Inr x, s)"
proof -
  assume s: "quiet s"
  have "\<exists>x. handle (and_then (get_profile_row j) (\<lambda>p. return (Some (pr_full_name p))))
      (\<lambda>e. if is_record_not_found e then return None else throw e) s = (Inr x, s)" for j
  proof -
    obtain r t where get: "get_profile_row j s = (r, t)" by fastforce
    have t: "t = s" using read_onlyD [OF read_only_get_by_id get [unfolded get_profile_row_def]] s by (simp add: quiet_same)
    show ?thesis
    proof (cases r)
      case (Inl e)
      then have "is_record_not_found e"
        using get s by (auto simp: get_profile_row_def get_by_id_def select_stmt_def and_then_def execute_gets_reliable quiet_def single_row_def eff_simps
            split: list.splits)
      with Inl get t show ?thesis by (simp add: handle_def and_then_def eff_simps)
    qed (use get t in \<open>simp add: handle_def and_then_def eff_simps\<close>)
  qed
  then have miss: "\<exists>x. and_then (handle (and_then (get_profile_row j) (\<lambda>p. return (Some (pr_full_name p))))
      (\<lambda>e. if is_record_not_found e then return None else throw e)) (\<lambda>name. return (name, cache(j := Some name))) s = (Inr x, s)" for j
    unfolding and_then_def [where m = "handle _ _"] by (metis (no_types, lifting) case_prod_conv return_eq sum.case(2))
  show ?thesis
  proof (cases i)
    case (Some j)
    with miss [of j] show ?thesis by (cases "cache j") (simp_all add: resolve_actor_def eff_simps)
  qed (simp add: resolve_actor_def eff_simps)
qed

lemma request_titles_quiet: "quiet s \<Longrightarrow> \<exists>titles. request_titles is c s = (Inr titles, s)"
  by (cases "is = []") (simp_all add: request_titles_def list_requests_def paginate_quiet and_then_def eff_simps)

lemma audit_items_quiet: "quiet s \<Longrightarrow> \<exists>items. audit_items q titles as cache s = (Inr items, s)"
proof (induction as arbitrary: cache)
  case (Cons a as)
  obtain name cache' where actor: "resolve_actor (au_actor_id a) cache s = (Inr (name, cache'), s)"
    using resolve_actor_quiet [OF Cons.prems] by (metis surj_pair)
  from Cons.IH [OF Cons.prems] obtain rest where "audit_items q titles as cache' s = (Inr rest, s)" by blast
  with actor show ?case by (simp add: and_then_def eff_simps)
qed (simp add: eff_simps)

lemma found_audit_quiet:
  fixes s :: "'z search_db_scheme"
  assumes "quiet s" "visible_request_ids ident s = (Inr ids, s)" "ids \<noteq> Some []" "strip q \<noteq> []"
  defines "rows \<equiv> filter (\<lambda>a. ilike (strip q) (au_action a) \<and>
      (case ids of None \<Rightarrow> True | Some is \<Rightarrow> list_ex (\<lambda>i. au_request_id a = Some i) is)) (t_audit s)"
  shows "\<exists>items. found_audit_entries ident q 100 s = (Inr items, s) \<and> length items = min 100 (length rows) \<and>
    (\<forall>i \<in> set items. si_entity_type i = ''audit_entry'')"
proof -
  have page: "Page 1 100 = Inr \<lparr>pg_number = 1, pg_size = 100\<rparr>" by (simp add: Page_def MAX_PAGE_SIZE_def)
  let ?rows = "take 100 (order_desc au_created_at rows)"
  have search: "search_audit q ids \<lparr>pg_number = 1, pg_size = 100\<rparr> s = (Inr \<lparr>res_items = ?rows, res_page = 1, res_page_size = 100,
      res_total_records = int (length rows)\<rparr>, s)"
    using assms(4) by (simp add: search_audit_def require_query_def and_then_def guard_that_apply paginate_quiet [OF assms(1)]
        row_range_def page_offset_def page_upper_bound_def order_desc_def rows_def)
  obtain titles where titles: "request_titles (List.map_filter au_request_id ?rows) (id_company_id ident) s = (Inr titles, s)"
    using request_titles_quiet [OF assms(1)] by blast
  obtain items where items: "audit_items q titles ?rows Map.empty s = (Inr items, s)" using audit_items_quiet [OF assms(1)] by blast
  from audit_items_Inr [OF items] obtain names where "items = map2 (audit_item q titles) names ?rows" "length names = length ?rows" by blast
  then have "length items = min 100 (length rows)" "\<forall>i \<in> set items. si_entity_type i = ''audit_entry''"
    by (auto simp: order_desc_def audit_item_def Let_def)
  moreover have "found_audit_entries ident q 100 s = (Inr items, s)"
    using assms(2,3) search titles items by (simp add: found_audit_entries_def page and_then_def eff_simps db_call_def catching_apply)
  ultimately show ?thesis by blast
qed

lemma audit_search_run:
  fixes s :: "'z search_db_scheme"
  assumes "found_audit_entries ident q 100 s = (Inr items, s)" "strip q \<noteq> []" "length items \<le> 20"
  shows "\<exists>t. global_search cfg ident q (Some [''audit_entry'']) (page_of_size 20) None s =
    (Inr \<lparr>res_items = by_score_and_date items, res_page = 1, res_page_size = 20, res_total_records = int (length items)\<rparr>, t)"
proof -
  have plan: "search_plan cfg ident q (\<lambda>k. List.member ENTITY_TYPES k \<and> (case Some [''audit_entry''] of None \<Rightarrow> True | Some ks \<Rightarrow> List.member ks k))
      (case None of None \<Rightarrow> MAX_PAGE_SIZE | Some n \<Rightarrow> n) = [found_audit_entries ident q 100]"
    by (simp add: search_plan_def ENTITY_TYPES_def MAX_PAGE_SIZE_def)
  have "run_searches (search_plan cfg ident q (\<lambda>k. List.member ENTITY_TYPES k \<and> (case Some [''audit_entry''] of None \<Rightarrow> True | Some ks \<Rightarrow> List.member ks k))
      (case None of None \<Rightarrow> MAX_PAGE_SIZE | Some n \<Rightarrow> n)) s = (Inr items, s)"
    unfolding plan using assms(1) by (simp add: and_then_def eff_simps)
  from global_search_run [OF assms(2) this, of "page_of_size 20"] assms(3) show ?thesis
    by (simp add: page_of_size_def page_offset_def by_score_and_date_def)
qed

text \<open>The requester and the approver of the sample request both see it, and nothing else.\<close>

lemma sample_views:
  "map_prod (map_sum (\<lambda>_. ()) id) (\<lambda>_. ()) (visible_request_ids sample_employee (searched_db [])) = (Inr (Some [20]), ())"
  "map_prod (map_sum (\<lambda>_. ()) id) (\<lambda>_. ()) (visible_request_ids sample_approver (searched_db [])) = (Inr (Some [20]), ())"
  by code_simp+

lemma sample_sees:
  assumes "ident \<in> {sample_employee, sample_approver}"
  shows "visible_request_ids ident (searched_db []) = (Inr (Some [20]), searched_db [])"
proof -
  obtain r t where run: "visible_request_ids ident (searched_db []) = (r, t)" by fastforce
  have "r = Inr (Some [20])" using assms sample_views run by (cases r) auto
  with run read_onlyD [OF read_only_visible_ids run] show ?thesis by (simp add: quiet_same [OF searched_db_quiet])
qed

lemma queries: "strip ''re'' = ''re''" "strip ''erased'' = ''erased''" "\<not> ilike ''re'' ''PROFILE_ERASED''" "ilike ''re'' ''REQUEST_CREATED''"
    "ilike ''erased'' ''PROFILE_ERASED''" "\<not> ilike ''erased'' ''REQUEST_CREATED''"
  by code_simp+

lemma sample_search:
  assumes "ident \<in> {sample_employee, sample_approver}"
  shows "\<exists>res t. global_search sample_search_config ident ''re'' (Some [''audit_entry'']) (page_of_size 20) None (searched_db []) =
     (Inr res, t) \<and> (\<exists>i \<in> set (res_items res). si_entity_type i = ''audit_entry'')"
proof -
  have query: "strip ''re'' \<noteq> []" by (simp add: queries)
  obtain items where items: "found_audit_entries ident ''re'' 100 (searched_db []) = (Inr items, searched_db [])"
      "length items = 1" "\<forall>i \<in> set items. si_entity_type i = ''audit_entry''"
    using found_audit_quiet [OF searched_db_quiet sample_sees [OF assms] _ query]
    by (auto simp: queries searched_db_def sample_entry_def)
  then obtain i where "items = [i]" by (auto simp: length_Suc_conv)
  with audit_search_run [OF items(1) query] items(3) show ?thesis by (fastforce simp: by_score_and_date_def)
qed

theorem search_stays_within_reach_witness:
  "(\<exists>res t i. global_search sample_search_config sample_employee ''re'' (Some [''audit_entry'']) (page_of_size 20) None (searched_db []) =
      (Inr res, t) \<and> i \<in> set (res_items res) \<and> si_request_id i = Some 20) \<and>
   (\<exists>res t i st. global_search sample_search_config sample_approver ''re'' (Some [''audit_entry'']) (page_of_size 20) None (searched_db []) =
      (Inr res, t) \<and> i \<in> set (res_items res) \<and> si_request_id i = Some 20 \<and> st \<in> set (t_stages (searched_db [])) \<and>
      st_request_id st = 20 \<and> st_status st = StagePending)"
proof -
  have "\<exists>res t i. global_search sample_search_config ident ''re'' (Some [''audit_entry'']) (page_of_size 20) None (searched_db []) =
      (Inr res, t) \<and> i \<in> set (res_items res) \<and> si_request_id i = Some 20 \<and>
      (id_role ident = Approver \<longrightarrow> (\<exists>st \<in> set (t_stages (searched_db [])). st_request_id st = 20 \<and> st_status st = StagePending))"
    if ident: "ident \<in> {sample_employee, sample_approver}" for ident
  proof -
    obtain res t i where run: "global_search sample_search_config ident ''re'' (Some [''audit_entry'']) (page_of_size 20) None
        (searched_db []) = (Inr res, t)" and i: "i \<in> set (res_items res)" "si_entity_type i = ''audit_entry''"
      using sample_search [OF ident] by blast
    have role: "id_role ident \<noteq> Admin" using ident by (auto simp: sample_employee_def sample_approver_def identity_of_def)
    from search_stays_within_reach [OF role run i(1)] i(2) obtain r where r: "r \<in> set (t_requests (searched_db []))"
        "si_request_id i = Some (rq_id r)" "id_role ident = Approver \<longrightarrow> (\<exists>st \<in> set (t_stages (searched_db [])).
          st_request_id st = rq_id r \<and> st_status st = StagePending)" by fastforce
    from r(1) have "rq_id r = 20" by (simp add: searched_db_def sample_db_def sample_open_request_def)
    with run i(1) r(2,3) show ?thesis by (intro exI [of _ res] exI [of _ t] exI [of _ i]) simp
  qed
  from this [of sample_employee] this [of sample_approver] show ?thesis by (fastforce simp: sample_approver_def identity_of_def)
qed

theorem admin_search_crosses_companies_witness:
  "\<exists>res t i. global_search sample_search_config sample_moderator ''erased'' (Some [''audit_entry'']) (page_of_size 20) None (searched_db []) =
      (Inr res, t) \<and> i \<in> set (res_items res) \<and> si_id i = 61 \<and> id_company_id sample_moderator = 7"
proof -
  have admin: "id_role sample_moderator = Admin" "id_company_id sample_moderator = 7" by (simp_all add: sample_moderator_def identity_of_def)
  have query: "strip ''erased'' \<noteq> []" by (simp add: queries)
  have "visible_request_ids sample_moderator (searched_db []) = (Inr None, searched_db [])"
    by (simp add: visible_request_ids_def admin eff_simps)
  then obtain items where items: "found_audit_entries sample_moderator ''erased'' 100 (searched_db []) = (Inr items, searched_db [])"
      "length items = 1"
    using found_audit_quiet [OF searched_db_quiet _ _ query] by (fastforce simp: queries searched_db_def sample_entry_def)
  obtain res t where run: "global_search sample_search_config sample_moderator ''erased'' (Some [''audit_entry'']) (page_of_size 20) None
      (searched_db []) = (Inr res, t)"
    using audit_search_run [OF items(1) query] items(2) by fastforce
  have hit: "sample_entry 61 None ''PROFILE_ERASED'' (Some 8) \<in> set (t_audit (searched_db []))"
      "ilike (strip ''erased'') (au_action (sample_entry 61 None ''PROFILE_ERASED'' (Some 8)))"
      "length (filter (\<lambda>a. ilike (strip ''erased'') (au_action a)) (t_audit (searched_db []))) = 1"
    by (simp_all add: queries searched_db_def sample_entry_def)
  have "\<exists>i \<in> set (res_items res). si_entity_type i = ''audit_entry'' \<and> si_id i = au_id (sample_entry 61 None ''PROFILE_ERASED'' (Some 8)) \<and>
      si_title i = labelled (au_action (sample_entry 61 None ''PROFILE_ERASED'' (Some 8))) \<and>
      si_created_at i = au_created_at (sample_entry 61 None ''PROFILE_ERASED'' (Some 8))"
    by (rule admin_search_crosses_companies [OF searched_db_quiet admin(1) hit(1,2) run]) (simp_all add: page_of_size_def hit(3))
  with run admin(2) show ?thesis by (fastforce simp: sample_entry_def)
qed

text \<open>The notifications are read, and then the entry of the history is refused.\<close>

lemma plain_search: "map_sum (\<lambda>_. ()) length (fst (found_notifications sample_employee ''re'' MAX_PAGE_SIZE
    (searched_db [Delivered, Refused ''XX000'' ''internal error'']))) = Inr 0"
  by code_simp

theorem search_survives_history_witness:
  "\<exists>res t. global_search sample_search_config sample_employee ''re'' (Some [''notification'']) (page_of_size 20) None
      (searched_db [Delivered, Refused ''XX000'' ''internal error'']) = (Inr res, t) \<and> res_total_records res = 0"
proof -
  let ?s = "searched_db [Delivered, Refused ''XX000'' ''internal error'']"
  obtain u where found: "found_notifications sample_employee ''re'' MAX_PAGE_SIZE ?s = (Inr [], u)"
    using plain_search by (cases "found_notifications sample_employee ''re'' MAX_PAGE_SIZE ?s";
        cases "fst (found_notifications sample_employee ''re'' MAX_PAGE_SIZE ?s)") auto
  have query: "strip ''re'' \<noteq> []" by (simp add: queries)
  have "run_searches (search_plan sample_search_config sample_employee ''re'' (\<lambda>k. List.member ENTITY_TYPES k \<and>
      (case Some [''notification''] of None \<Rightarrow> True | Some ks \<Rightarrow> List.member ks k)) (case None of None \<Rightarrow> MAX_PAGE_SIZE | Some n \<Rightarrow> n)) ?s = (Inr [], u)"
    using found by (simp add: search_plan_def ENTITY_TYPES_def and_then_def eff_simps)
  from search_survives_history [OF query this, of "page_of_size 20"] show ?thesis by fastforce
qed

lemma history_ok: "is_ok (fst (list_recent_searches sample_employee 2 (searched_db [ResponseLost])))"
  by code_simp

theorem recent_searches_distinct_witness:
  "\<exists>es t. list_recent_searches sample_employee 2 (searched_db [ResponseLost]) = (Inr es, t) \<and> length es \<le> 2"
proof -
  obtain es t where run: "list_recent_searches sample_employee 2 (searched_db [ResponseLost]) = (Inr es, t)"
    using is_ok_run [OF history_ok] by blast
  from recent_searches_distinct [OF run] have "length es \<le> 2" by fastforce
  with run show ?thesis by blast
qed

theorem all_profiles_fetched_witness:
  "\<exists>ps. fetch_all_profiles length 7 (searched_db []) = (Inr ps, searched_db []) \<and> length ps = 3"
proof -
  have names: "distinct (map (\<lambda>p. length (pr_full_name p)) (filter (\<lambda>p. pr_role p = role \<and> pr_company_id p = 7 \<and>
      pr_deleted_at p = None) (t_profiles (searched_db []))))" for role
    by (cases role) (simp_all add: searched_db_def sample_defs)
  obtain found where found: "fetch_all_profiles length 7 (searched_db []) = (Inr (found Employee @ found Approver @ found Admin), searched_db [])"
      "mset (found Employee @ found Approver @ found Admin) =
        mset (filter (\<lambda>p. pr_company_id p = 7 \<and> pr_deleted_at p = None) (t_profiles (searched_db [])))"
    using all_profiles_fetched [OF searched_db_quiet, of length 7] names by blast
  have "length (found Employee @ found Approver @ found Admin) =
      length (filter (\<lambda>p. pr_company_id p = 7 \<and> pr_deleted_at p = None) (t_profiles (searched_db [])))"
    using found(2) by (metis size_mset)
  also have "\<dots> = 3" by (simp add: searched_db_def sample_defs)
  finally show ?thesis using found(1) by blast
qed

end
