(* ===== verification/Spec2Isabelle.thy ===== *)
theory Spec2Isabelle
  imports Prelude Enums Errors StateMachine WorkflowModel Identity Auth Engine Retry Tables Database Store Locking
    Repositories Domain Saga NotificationService ApprovalService RequestService DefinitionService Logic WellFormed
    Decisions Operations Samples Approval Escalation Integrity Workflow Creation Reachable
    Activation Envelope JobQueue RedisMemory Jobs Worker Fairness JobRuns JobHandlers JobRecovery Scheduling Coordination CoordinationRuns
    Quiet DateTime Discovery DiscoveryRuns HealthCheck RateLimiter Cache Utilities Invitations InvitationRuns Companies
    Authentication AuthenticationRuns CompanyRuns Discussion DiscussionRuns Fuzzy Search SearchRuns
begin

text \<open>
  Enterprise Automation Hub: a development about the backend under \<open>app/\<close>. The program keeps requests
  that pass through the stages of a workflow definition: users create requests, approvers decide their
  stages, a scheduler escalates overdue stages and sends reminders, and a worker runs background jobs from
  a Redis queue. All durable state is in PostgreSQL tables reached over an unreliable network.

  \<^bold>\<open>The model.\<close> An operation is an effect \<open>('s, 'a) eff\<close> = \<open>'s \<Rightarrow> (exn + 'a) \<times> 's\<close> (\<open>Prelude\<close>): every raise of the source is
  an \<open>Inl\<close>, and the state an exception leaves behind is part of the result. The state is the record \<open>db\<close>
  (\<open>Tables\<close>): the rows of the tables, the id supply, the clock, and \<open>net\<close>, the fate of the coming
  statements (delivered, request lost, response lost, refused by the server); an empty \<open>net\<close> delivers. Python's
  unbounded integers are \<open>int\<close>, floats of seconds and hours are \<open>rat\<close> (rounding is left out), UUIDs are \<open>nat\<close>,
  instants are microseconds. What the source does with \<open>None\<close> is an \<open>option\<close>.

  \<^bold>\<open>The theories, and what their lemmas show.\<close>
  \<^item> \<open>Enums\<close>, \<open>Errors\<close>, \<open>StateMachine\<close>, \<open>WorkflowModel\<close>, \<open>Domain\<close>: the enumerations of \<open>models/enums.py\<close>, the exception
    classes and their translations, the status machines of \<open>workflow/state_machine.py\<close>, the validated models
    of \<open>models/\<close>. Lemmas: the shapes the validators guarantee, the histories the machines allow.
  \<^item> \<open>Identity\<close>, \<open>Auth\<close>: \<open>auth/permissions.py\<close>, \<open>auth/rbac.py\<close>, \<open>auth/authorization.py\<close>; the locale \<open>session_guard\<close> is the
    contract of every \<open>authorize_...\<close> function and is interpreted on each.
  \<^item> \<open>Engine\<close>: the pure workflow engine of \<open>workflow/\<close> (resolution, generation, assignment, escalation, versions).
  \<^item> \<open>Retry\<close>, \<open>Database\<close>, \<open>Store\<close>, \<open>Locking\<close>: \<open>utils/retry.py\<close> and \<open>base_repository.py\<close>. The locales \<open>table_store\<close> and
    \<open>versioned_store\<close> state the laws of a table, are interpreted on every table, and carry what a statement,
    a retried statement, the optimistic lock and a page do.
  \<^item> \<open>Repositories\<close>, \<open>NotificationService\<close>, \<open>Saga\<close>, \<open>DefinitionService\<close>, \<open>ApprovalService\<close>, \<open>RequestService\<close>: the repositories
    and the services, each operation with its guards, its \<open>TransactionContext\<close> and its compensations.
  \<^item> \<open>Logic\<close>, \<open>WellFormed\<close>, \<open>Decisions\<close>, \<open>Operations\<close>, \<open>Approval\<close>, \<open>Escalation\<close>, \<open>Creation\<close>, \<open>Activation\<close>: triples for effects with an
    exceptional postcondition, the row-level view of the writes, and the exact effect of a decision, an
    escalation, a creation and an activation, and of each when it fails (a creation by the statement that
    failed, \<open>creation_debris\<close>). The locales \<open>side_invariant\<close> and
    \<open>operation_invariant\<close> (\<open>Operations\<close>) turn a property that the repository operations keep into one that all
    services keep; they are interpreted on the quiet network, the id supply, the tables' constraints
    (\<open>Integrity\<close>), the agreement of requests with their stages (\<open>Workflow\<close>, \<open>Reachable\<close>) and the jobs table
    (\<open>JobHandlers\<close>). \<open>Samples\<close> has the database of the witnesses.
  \<^item> \<open>Envelope\<close>, \<open>JobQueue\<close>, \<open>RedisMemory\<close>, \<open>Jobs\<close>, \<open>Worker\<close>, \<open>Fairness\<close>, \<open>JobRuns\<close>, \<open>JobHandlers\<close>, \<open>JobRecovery\<close>: the background jobs of \<open>jobs/\<close>.
    The Redis client is a parameter with a contract (\<open>redis_contract\<close>); the queue refines an abstract
    priority queue; a delivered job is followed to the row it ends with; the reaper; and what the polling order
    serves in bounded time (low priority on the first queue polled) and what it may starve (the second queue).
  \<^item> \<open>Scheduling\<close>, \<open>Coordination\<close>, \<open>CoordinationRuns\<close>, \<open>Discovery\<close>, \<open>DiscoveryRuns\<close>, \<open>HealthCheck\<close>: the scheduler of \<open>scheduler/\<close>: its
    registry, the coordinator's guarded runs, the Redis locks and the leader's lease as interleavings of threads
    and instances; the escalation check and the reminder dispatch over the pages of pending stages. \<open>Quiet\<close> has
    what every repository read does on a quiet network.
  \<^item> \<open>DateTime\<close>, \<open>RateLimiter\<close>, \<open>Cache\<close>, \<open>Utilities\<close>: \<open>utils/\<close> and \<open>api/rate_limiting.py\<close>. Both rate limiters against a log
    that is never pruned; the single flight of the process-wide cache; file names and paths.
  \<^item> \<open>Invitations\<close>, \<open>InvitationRuns\<close>: \<open>services/invitation_service.py\<close> with its repository, models, mail queue and the
    wrapper of the provider's admin API. The life cycle of an invitation over any sequence of calls, and the
    exact effect of an acceptance, a resend and a listing.
  \<^item> \<open>Companies\<close>: \<open>services/user_service.py\<close>, \<open>services/company_service.py\<close> and the company and license tables.
    \<open>CompanyRuns\<close>: what survives any sequence of their calls, and what an erasure does, also when its audit
    entry fails.
  \<^item> \<open>Authentication\<close>, \<open>AuthenticationRuns\<close>: \<open>auth/authentication.py\<close>, \<open>supabase_verifier.py\<close>, \<open>middleware.py\<close>, \<open>decorators.py\<close>,
    \<open>password.py\<close>. Who is authenticated, for how long the cache of claims outlives a revocation on a
    server that started with an empty cache (\<open>served\<close>), and passwords.
  \<^item> \<open>Discussion\<close>, \<open>DiscussionRuns\<close>: comments and attachments, with the object store as a parameter. Threads over any
    calls, what an upload leaves in the table and the store, also when a response is lost.
  \<^item> \<open>Fuzzy\<close>, \<open>Search\<close>, \<open>SearchRuns\<close>: \<open>services/search_service.py\<close> with saved filters and the history. Scores (the ratio of
    \<open>difflib\<close> included), snippets, the nine lookups under the contract \<open>entity_search\<close>, what a search shows to whom.
    The loop over the pages of profiles has one round more than there are profiles, which is enough. \<open>paginate\<close> breaks
    ties in table order, which PostgreSQL does not promise from page to page; what the loop reads is stated
    for names that do not sort equally.

  \<^bold>\<open>Bounds and fuel.\<close> \<open>_execute\<close> retries at most three times, by structural recursion on the attempts left; the
  JSON reader of \<open>Envelope\<close> has the length of its input as fuel, which every step consumes; the other loops
  are structural or, for the matching blocks of \<open>Fuzzy\<close>, on shorter texts. Liveness of the worker is stated over its iterations, and the number eight of
  \<open>low_priority_served\<close> is \<open>PRIORITY_REVERSAL_INTERVAL\<close>.

  \<^bold>\<open>Not modelled.\<close> HTTP routing and parsing, configuration and wiring, logging and metrics, row-level security
  (SQL), the rendering and sending of mail, AI and storage services, and the PostgREST query syntax: these are
  outside this code or glue around it. Where a modelled operation calls them they are parameters, as are the
  identity provider's API, Redis, hashing, key derivation, random tokens, collation and full-text match. Feature
  flags, the dashboard and analytics are not modelled.
\<close>

end
